(* ===== verification/Pisa_Prelude.thy ===== *)
theory Pisa_Prelude
  imports Main "HOL-Library.Word" "HOL-Library.Monad_Syntax"
begin

text \<open>
  What every component of the development shares: the names of the C++ integer types, the
  collections of facts that the component proofs use, and small lemmas on options, maps and
  64-bit words.  \<open>unsigned long long\<close> is a 64-bit word, whose arithmetic wraps as the C++
  arithmetic does.
\<close>

type_synonym u64 = "64 word"
type_synonym u32 = "32 word"

named_theorems heap_frame \<open>which parts of the heap a write leaves unchanged\<close>
named_theorems heap_step \<open>symbolic execution of heap reads and writes\<close>

lemma bind_eq_Some: "(x \<bind> f) = Some z \<longleftrightarrow> (\<exists>y. x = Some y \<and> f y = Some z)"
  by (cases x) auto

lemma of_nat_u64_inj:
  assumes "of_nat m = (of_nat n :: u64)" "m < 2 ^ 64" "n < 2 ^ 64"
  shows "m = n"
  using assms by (simp add: word_of_nat_eq_iff take_bit_nat_eq_self)

lemma u64_neq_0_less: "(x :: u64) \<noteq> 0 \<longleftrightarrow> 0 < x"
  by (simp add: word_neq_0_conv)

lemma sorted_wrt_less_appendD:
  assumes "sorted_wrt (<) (xs @ (x :: 'a :: linorder) # ys)"
  shows "\<And>y. y \<in> set xs \<Longrightarrow> y < x" and "\<And>y. y \<in> set ys \<Longrightarrow> x < y"
  using assms by (auto simp: sorted_wrt_append)

lemma ran_map_upd_inj:
  assumes "inj_on m (dom m)" "m x = Some old"
  shows "ran (m(x \<mapsto> new)) = insert new (ran m - {old})"
proof -
  have "m y \<noteq> Some old" if "y \<noteq> x" for y
    using assms that by (metis (mono_tags, lifting) domIff inj_onD option.distinct(1))
  then show ?thesis using assms(2)
    by (auto simp: ran_def) (metis option.inject)+
qed

lemma inj_on_map_upd_fresh:
  assumes "inj_on m (dom m)" "new \<notin> ran m"
  shows "inj_on (m(x \<mapsto> new)) (dom (m(x \<mapsto> new)))"
  using assms by (auto simp: inj_on_def ran_def split: if_splits)

end
