(* ===== verification/Splay_Heap.thy ===== *)
theory Splay_Heap
  imports Pisa_Prelude
begin

text \<open>
  The splay tree of \<open>library/splay.cc\<close> as the code has it: nodes in a heap, linked by pointers,
  and mutated in place.  An address is a natural number and 0 is \<open>NULL\<close>.  The heap has one
  function per field of \<open>struct tree\<close>, the set of the allocated addresses and the next address
  that \<open>new\<close> returns; addresses are not used twice, so that a use of a freed node is an access
  to an address that is not allocated.  Every operation returns an option: \<open>None\<close> is an access
  through a null or a dangling pointer, or a loop that does not end.
\<close>

record heap =
  h_alloc :: "nat \<Rightarrow> bool"
  h_next :: nat
  h_key :: "nat \<Rightarrow> u64"
  h_size :: "nat \<Rightarrow> u64"
  h_left :: "nat \<Rightarrow> nat"
  h_right :: "nat \<Rightarrow> nat"
  h_p :: "nat \<Rightarrow> nat"

definition empty_heap :: heap where
  "empty_heap = \<lparr>h_alloc = (\<lambda>_. False), h_next = 1, h_key = (\<lambda>_. 0), h_size = (\<lambda>_. 0),
     h_left = (\<lambda>_. 0), h_right = (\<lambda>_. 0), h_p = (\<lambda>_. 0)\<rparr>"

subsection \<open>Reading and writing through a pointer\<close>

definition valid_ptr :: "heap \<Rightarrow> nat \<Rightarrow> bool" where
  "valid_ptr H a \<longleftrightarrow> a \<noteq> 0 \<and> h_alloc H a"

definition rd :: "(heap \<Rightarrow> nat \<Rightarrow> 'a) \<Rightarrow> nat \<Rightarrow> heap \<Rightarrow> 'a option" where
  "rd field a H = (if valid_ptr H a then Some (field H a) else None)"

definition set_key :: "nat \<Rightarrow> u64 \<Rightarrow> heap \<Rightarrow> heap option" where
  "set_key a v H = (if valid_ptr H a then Some (H\<lparr>h_key := (h_key H)(a := v)\<rparr>) else None)"

definition set_size :: "nat \<Rightarrow> u64 \<Rightarrow> heap \<Rightarrow> heap option" where
  "set_size a v H = (if valid_ptr H a then Some (H\<lparr>h_size := (h_size H)(a := v)\<rparr>) else None)"

definition set_left :: "nat \<Rightarrow> nat \<Rightarrow> heap \<Rightarrow> heap option" where
  "set_left a v H = (if valid_ptr H a then Some (H\<lparr>h_left := (h_left H)(a := v)\<rparr>) else None)"

definition set_right :: "nat \<Rightarrow> nat \<Rightarrow> heap \<Rightarrow> heap option" where
  "set_right a v H = (if valid_ptr H a then Some (H\<lparr>h_right := (h_right H)(a := v)\<rparr>) else None)"

definition set_p :: "nat \<Rightarrow> nat \<Rightarrow> heap \<Rightarrow> heap option" where
  "set_p a v H = (if valid_ptr H a then Some (H\<lparr>h_p := (h_p H)(a := v)\<rparr>) else None)"

definition new_addr :: "heap \<Rightarrow> nat \<times> heap" where
  "new_addr H = (h_next H, H\<lparr>h_alloc := (h_alloc H)(h_next H := True), h_next := Suc (h_next H)\<rparr>)"

definition delete_addr :: "nat \<Rightarrow> heap \<Rightarrow> heap option" where
  "delete_addr a H = (if valid_ptr H a then Some (H\<lparr>h_alloc := (h_alloc H)(a := False)\<rparr>) else None)"

subsection \<open>Statements that the code repeats\<close>

text \<open>\<open>if (a->left) a->left->p = a;\<close> and the same to the right.\<close>

definition adopt_left :: "nat \<Rightarrow> heap \<Rightarrow> heap option" where
  "adopt_left a H = do {
     l \<leftarrow> rd h_left a H;
     if l \<noteq> 0 then set_p l a H else Some H }"

definition adopt_right :: "nat \<Rightarrow> heap \<Rightarrow> heap option" where
  "adopt_right a H = do {
     r \<leftarrow> rd h_right a H;
     if r \<noteq> 0 then set_p r a H else Some H }"

text \<open>\<open>if (a->left) a->subtree_size += a->left->subtree_size;\<close> and the same to the right.\<close>

definition add_left_size :: "nat \<Rightarrow> heap \<Rightarrow> heap option" where
  "add_left_size a H = do {
     l \<leftarrow> rd h_left a H;
     if l \<noteq> 0 then do {
       s \<leftarrow> rd h_size a H;
       sl \<leftarrow> rd h_size l H;
       set_size a (s + sl) H }
     else Some H }"

definition add_right_size :: "nat \<Rightarrow> heap \<Rightarrow> heap option" where
  "add_right_size a H = do {
     r \<leftarrow> rd h_right a H;
     if r \<noteq> 0 then do {
       s \<leftarrow> rd h_size a H;
       sr \<leftarrow> rd h_size r H;
       set_size a (s + sr) H }
     else Some H }"

subsection \<open>Nodes and rotations\<close>

definition NewNode :: "u64 \<Rightarrow> heap \<Rightarrow> (nat \<times> heap) option" where
  "NewNode key H = do {
     let (node, H) = new_addr H;
     H \<leftarrow> set_key node key H;
     H \<leftarrow> set_size node 1 H;
     H \<leftarrow> set_p node 0 H;
     H \<leftarrow> set_left node 0 H;
     H \<leftarrow> set_right node 0 H;
     Some (node, H) }"

definition CleanNode :: "nat \<Rightarrow> u64 \<Rightarrow> heap \<Rightarrow> heap option" where
  "CleanNode node key H =
    (if node \<noteq> 0 then do {
       H \<leftarrow> set_key node key H;
       H \<leftarrow> set_size node 1 H;
       H \<leftarrow> set_p node 0 H;
       H \<leftarrow> set_left node 0 H;
       set_right node 0 H }
     else Some H)"

definition RightRotate :: "nat \<Rightarrow> heap \<Rightarrow> (nat \<times> heap) option" where
  "RightRotate root H = do {
     left \<leftarrow> rd h_left root H;
     lr \<leftarrow> rd h_right left H;
     H \<leftarrow> set_left root lr H;
     H \<leftarrow> adopt_left root H;
     H \<leftarrow> set_right left root H;
     H \<leftarrow> adopt_right left H;
     H \<leftarrow> set_p left 0 H;
     H \<leftarrow> set_size root 1 H;
     H \<leftarrow> add_left_size root H;
     H \<leftarrow> add_right_size root H;
     H \<leftarrow> set_size left 1 H;
     H \<leftarrow> add_left_size left H;
     H \<leftarrow> add_right_size left H;
     Some (left, H) }"

definition LeftRotate :: "nat \<Rightarrow> heap \<Rightarrow> (nat \<times> heap) option" where
  "LeftRotate root H = do {
     right \<leftarrow> rd h_right root H;
     rl \<leftarrow> rd h_left right H;
     H \<leftarrow> set_right root rl H;
     H \<leftarrow> adopt_right root H;
     H \<leftarrow> set_left right root H;
     H \<leftarrow> adopt_left right H;
     H \<leftarrow> set_p right 0 H;
     H \<leftarrow> set_size root 1 H;
     H \<leftarrow> add_left_size root H;
     H \<leftarrow> add_right_size root H;
     H \<leftarrow> set_size right 1 H;
     H \<leftarrow> add_left_size right H;
     H \<leftarrow> add_right_size right H;
     Some (right, H) }"

subsection \<open>Splay\<close>

text \<open>\<open>while (tmp && tmp->key) { ... tmp = tmp->p; }\<close>\<close>

partial_function (option) update_sizes_up :: "nat \<Rightarrow> heap \<Rightarrow> heap option" where
  "update_sizes_up tmp H =
    (if tmp = 0 then Some H
     else do {
       k \<leftarrow> rd h_key tmp H;
       if k = 0 then Some H
       else do {
         H \<leftarrow> set_size tmp 1 H;
         H \<leftarrow> add_right_size tmp H;
         H \<leftarrow> add_left_size tmp H;
         q \<leftarrow> rd h_p tmp H;
         update_sizes_up q H } })"

text \<open>Hang the root on the right tree (left tree) and go on with its left (right) child.\<close>

definition link_right :: "nat \<Rightarrow> nat \<Rightarrow> heap \<Rightarrow> (nat \<times> nat \<times> heap) option" where
  "link_right root rtree H = do {
     H \<leftarrow> set_left rtree root H;
     H \<leftarrow> adopt_left rtree H;
     let tmp = rtree;
     rtree \<leftarrow> rd h_left rtree H;
     root \<leftarrow> rd h_left root H;
     H \<leftarrow> set_left rtree 0 H;
     H \<leftarrow> set_size rtree 1 H;
     H \<leftarrow> add_right_size rtree H;
     H \<leftarrow> update_sizes_up tmp H;
     Some (root, rtree, H) }"

definition link_left :: "nat \<Rightarrow> nat \<Rightarrow> heap \<Rightarrow> (nat \<times> nat \<times> heap) option" where
  "link_left root ltree H = do {
     H \<leftarrow> set_right ltree root H;
     H \<leftarrow> adopt_right ltree H;
     let tmp = ltree;
     ltree \<leftarrow> rd h_right ltree H;
     root \<leftarrow> rd h_right root H;
     H \<leftarrow> set_right ltree 0 H;
     H \<leftarrow> set_size ltree 1 H;
     H \<leftarrow> add_left_size ltree H;
     H \<leftarrow> update_sizes_up tmp H;
     Some (root, ltree, H) }"

text \<open>One round of the loop \<open>while(1)\<close>; the boolean is true where the code breaks.\<close>

definition splay_body ::
  "u64 \<Rightarrow> nat \<Rightarrow> nat \<Rightarrow> nat \<Rightarrow> heap \<Rightarrow> (bool \<times> nat \<times> nat \<times> nat \<times> heap) option" where
  "splay_body key root ltree rtree H = do {
     k \<leftarrow> rd h_key root H;
     if key < k then do {
       l \<leftarrow> rd h_left root H;
       if l = 0 then Some (True, root, ltree, rtree, H)
       else do {
         kl \<leftarrow> rd h_key l H;
         if key < kl then do {
           (root, H) \<leftarrow> RightRotate root H;
           l \<leftarrow> rd h_left root H;
           if l = 0 then Some (True, root, ltree, rtree, H)
           else do {
             (root, rtree, H) \<leftarrow> link_right root rtree H;
             Some (False, root, ltree, rtree, H) } }
         else do {
           (root, rtree, H) \<leftarrow> link_right root rtree H;
           Some (False, root, ltree, rtree, H) } } }
     else if k < key then do {
       r \<leftarrow> rd h_right root H;
       if r = 0 then Some (True, root, ltree, rtree, H)
       else do {
         kr \<leftarrow> rd h_key r H;
         if kr < key then do {
           (root, H) \<leftarrow> LeftRotate root H;
           r \<leftarrow> rd h_right root H;
           if r = 0 then Some (True, root, ltree, rtree, H)
           else do {
             (root, ltree, H) \<leftarrow> link_left root ltree H;
             Some (False, root, ltree, rtree, H) } }
         else do {
           (root, ltree, H) \<leftarrow> link_left root ltree H;
           Some (False, root, ltree, rtree, H) } } }
     else Some (True, root, ltree, rtree, H) }"

partial_function (option) splay_loop ::
  "u64 \<Rightarrow> nat \<Rightarrow> nat \<Rightarrow> nat \<Rightarrow> heap \<Rightarrow> (nat \<times> nat \<times> nat \<times> heap) option" where
  "splay_loop key root ltree rtree H = do {
     (stop, root, ltree, rtree, H) \<leftarrow> splay_body key root ltree rtree H;
     if stop then Some (root, ltree, rtree, H) else splay_loop key root ltree rtree H }"

text \<open>What follows the loop: the left and the right tree become the children of the root.\<close>

definition attach_ltree :: "nat \<Rightarrow> nat \<Rightarrow> heap \<Rightarrow> heap option" where
  "attach_ltree root ltree H = do {
     l \<leftarrow> rd h_left root H;
     H \<leftarrow> set_right ltree l H;
     tmp \<leftarrow> rd h_right ltree H;
     if tmp \<noteq> 0 then do {
       H \<leftarrow> set_p tmp ltree H;
       update_sizes_up tmp H }
     else Some H }"

definition attach_rtree :: "nat \<Rightarrow> nat \<Rightarrow> heap \<Rightarrow> heap option" where
  "attach_rtree root rtree H = do {
     r \<leftarrow> rd h_right root H;
     H \<leftarrow> set_left rtree r H;
     tmp \<leftarrow> rd h_left rtree H;
     if tmp \<noteq> 0 then do {
       H \<leftarrow> set_p tmp rtree H;
       update_sizes_up tmp H }
     else Some H }"

definition assemble_root :: "nat \<Rightarrow> nat \<Rightarrow> heap \<Rightarrow> heap option" where
  "assemble_root t root H = do {
     tr \<leftarrow> rd h_right t H;
     H \<leftarrow> set_left root tr H;
     tl \<leftarrow> rd h_left t H;
     H \<leftarrow> set_right root tl H;
     H \<leftarrow> set_p root 0 H;
     H \<leftarrow> adopt_left root H;
     H \<leftarrow> adopt_right root H;
     H \<leftarrow> set_size root 1 H;
     H \<leftarrow> add_left_size root H;
     add_right_size root H }"

definition splay_assemble :: "nat \<Rightarrow> nat \<Rightarrow> nat \<Rightarrow> nat \<Rightarrow> heap \<Rightarrow> heap option" where
  "splay_assemble t root ltree rtree H = do {
     H \<leftarrow> attach_ltree root ltree H;
     H \<leftarrow> attach_rtree root rtree H;
     assemble_root t root H }"

text \<open>The local \<open>tree ref[1]\<close> is a node that exists only during the call.\<close>

definition Splay :: "u64 \<Rightarrow> nat \<Rightarrow> heap \<Rightarrow> (nat \<times> heap) option" where
  "Splay key root H =
    (if root = 0 then Some (0, H)
     else do {
       let (ref, H) = new_addr H;
       H \<leftarrow> CleanNode ref 0 H;
       (root, ltree, rtree, H) \<leftarrow> splay_loop key root ref ref H;
       H \<leftarrow> splay_assemble ref root ltree rtree H;
       H \<leftarrow> delete_addr ref H;
       Some (root, H) })"

subsection \<open>Insert, Delete, Update and the queries\<close>

text \<open>The branches \<open>key < root->key\<close> and \<open>key > root->key\<close> of \<open>Insert\<close>, and of the
  second half of \<open>Update\<close>.\<close>

definition insert_below :: "nat \<Rightarrow> nat \<Rightarrow> heap \<Rightarrow> (nat \<times> heap) option" where
  "insert_below node root H = do {
     l \<leftarrow> rd h_left root H;
     H \<leftarrow> set_left node l H;
     H \<leftarrow> adopt_left node H;
     H \<leftarrow> set_right node root H;
     H \<leftarrow> adopt_right node H;
     H \<leftarrow> set_left root 0 H;
     s \<leftarrow> rd h_size root H;
     H \<leftarrow> set_size node (s + 1) H;
     l \<leftarrow> rd h_left node H;
     H \<leftarrow> (if l \<noteq> 0 then do {
            s \<leftarrow> rd h_size root H;
            sl \<leftarrow> rd h_size l H;
            set_size root (s - sl) H }
          else Some H);
     Some (node, H) }"

definition insert_above :: "nat \<Rightarrow> nat \<Rightarrow> heap \<Rightarrow> (nat \<times> heap) option" where
  "insert_above node root H = do {
     r \<leftarrow> rd h_right root H;
     H \<leftarrow> set_right node r H;
     H \<leftarrow> adopt_right node H;
     H \<leftarrow> set_left node root H;
     H \<leftarrow> adopt_left node H;
     H \<leftarrow> set_right root 0 H;
     s \<leftarrow> rd h_size root H;
     H \<leftarrow> set_size node (s + 1) H;
     r \<leftarrow> rd h_right node H;
     H \<leftarrow> (if r \<noteq> 0 then do {
            s \<leftarrow> rd h_size root H;
            sr \<leftarrow> rd h_size r H;
            set_size root (s - sr) H }
          else Some H);
     Some (node, H) }"

text \<open>What follows the call of \<open>Splay\<close> in \<open>Insert\<close> and \<open>Update\<close>.\<close>

definition insert_at_root :: "u64 \<Rightarrow> nat \<Rightarrow> nat \<Rightarrow> heap \<Rightarrow> (nat \<times> heap) option" where
  "insert_at_root key node root H = do {
     k \<leftarrow> rd h_key root H;
     if key < k then insert_below node root H
     else if k < key then insert_above node root H
     else do { H \<leftarrow> delete_addr node H; Some (root, H) } }"

definition insert_node :: "u64 \<Rightarrow> nat \<Rightarrow> nat \<Rightarrow> heap \<Rightarrow> (nat \<times> heap) option" where
  "insert_node key node root H =
    (if root = 0 then Some (node, H)
     else do {
       (root, H) \<leftarrow> Splay key root H;
       insert_at_root key node root H })"

definition Insert :: "u64 \<Rightarrow> nat \<Rightarrow> heap \<Rightarrow> (nat \<times> heap) option" where
  "Insert key root H = do {
     (node, H) \<leftarrow> NewNode key H;
     insert_node key node root H }"

text \<open>The statements that take the root, which has the key, out of the tree.\<close>

definition hang_right :: "nat \<Rightarrow> nat \<Rightarrow> heap \<Rightarrow> heap option" where
  "hang_right root tr H = do {
     H \<leftarrow> set_right root tr H;
     H \<leftarrow> adopt_right root H;
     H \<leftarrow> set_size root 1 H;
     H \<leftarrow> add_right_size root H;
     add_left_size root H }"

definition unlink_root :: "u64 \<Rightarrow> nat \<Rightarrow> heap \<Rightarrow> (nat \<times> nat \<times> heap) option" where
  "unlink_root key root H = do {
     l \<leftarrow> rd h_left root H;
     let tmp = root;
     if l = 0 then do {
       r \<leftarrow> rd h_right root H;
       Some (tmp, r, H) }
     else do {
       (root, H) \<leftarrow> Splay key l H;
       tr \<leftarrow> rd h_right tmp H;
       H \<leftarrow> hang_right root tr H;
       Some (tmp, root, H) } }"

definition Delete :: "u64 \<Rightarrow> nat \<Rightarrow> heap \<Rightarrow> (nat \<times> heap) option" where
  "Delete key root H =
    (if root = 0 then Some (0, H)
     else do {
       (root, H) \<leftarrow> Splay key root H;
       k \<leftarrow> rd h_key root H;
       if key \<noteq> k then Some (root, H)
       else do {
         (tmp, root, H) \<leftarrow> unlink_root key root H;
         H \<leftarrow> delete_addr tmp H;
         Some (root, H) } })"

definition Update :: "u64 \<Rightarrow> u64 \<Rightarrow> nat \<Rightarrow> heap \<Rightarrow> (nat \<times> heap) option" where
  "Update previousKey newKey root H = do {
     (tmp, root, H) \<leftarrow>
       (if root = 0 then do {
          (tmp, H) \<leftarrow> NewNode newKey H;
          Some (tmp, root, H) }
        else do {
          (root, H) \<leftarrow> Splay previousKey root H;
          k \<leftarrow> rd h_key root H;
          if previousKey \<noteq> k then do {
            (tmp, H) \<leftarrow> NewNode newKey H;
            Some (tmp, root, H) }
          else do {
            (tmp, root, H) \<leftarrow> unlink_root previousKey root H;
            H \<leftarrow> CleanNode tmp newKey H;
            Some (tmp, root, H) } });
     insert_node newKey tmp root H }"

definition ComputeDistance :: "u64 \<Rightarrow> nat \<Rightarrow> heap \<Rightarrow> (nat \<times> u64 \<times> heap) option" where
  "ComputeDistance key root H = do {
     (tmp, H) \<leftarrow> Splay key root H;
     if tmp = 0 then Some (tmp, 0, H)
     else do {
       k \<leftarrow> rd h_key tmp H;
       r \<leftarrow> rd h_right tmp H;
       if k = key \<and> r \<noteq> 0 then do {
         d \<leftarrow> rd h_size r H;
         Some (tmp, d, H) }
       else Some (tmp, 0, H) } }"

definition Find :: "u64 \<Rightarrow> nat \<Rightarrow> heap \<Rightarrow> (nat \<times> heap) option" where
  "Find key root H = Splay key root H"

partial_function (option) TreeSize :: "nat \<Rightarrow> heap \<Rightarrow> u64 option" where
  "TreeSize root H =
    (if root = 0 then Some 0
     else do {
       r \<leftarrow> rd h_right root H;
       l \<leftarrow> rd h_left root H;
       sr \<leftarrow> TreeSize r H;
       sl \<leftarrow> TreeSize l H;
       Some (sr + sl + 1) })"

partial_function (option) DeleteAll :: "nat \<Rightarrow> heap \<Rightarrow> heap option" where
  "DeleteAll root H =
    (if root = 0 then Some H
     else do {
       r \<leftarrow> rd h_right root H;
       H \<leftarrow> (if r \<noteq> 0 then DeleteAll r H else Some H);
       l \<leftarrow> rd h_left root H;
       H \<leftarrow> (if l \<noteq> 0 then DeleteAll l H else Some H);
       delete_addr root H })"

text \<open>The equations of the loops are code equations, so that concrete runs evaluate.\<close>

declare update_sizes_up.simps [code] splay_loop.simps [code] TreeSize.simps [code] DeleteAll.simps [code]

end
