(* ===== verification/Splay_Tree_Inv.thy ===== *)
theory Splay_Tree_Inv
  imports Splay_Heap "HOL-Library.Tree"
begin

text \<open>
  The abstraction of the splay heap: the tree of the (address, key) pairs that a pointer reaches
  (\<open>shape\<close>), the statement that every \<open>subtree_size\<close> counts the nodes below (\<open>sized\<close>),
  and the two spines that the loop of \<open>Splay\<close> builds under its local node.
\<close>

type_synonym atree = "(nat \<times> u64) tree"

definition addrs :: "atree \<Rightarrow> nat set" where
  "addrs t = fst ` set_tree t"

definition keys :: "atree \<Rightarrow> u64 set" where
  "keys t = snd ` set_tree t"

lemma addrs_simps [simp]:
  "addrs Leaf = {}" "addrs (Node l (a, k) r) = insert a (addrs l \<union> addrs r)"
  by (auto simp: addrs_def)

lemma keys_simps [simp]:
  "keys Leaf = {}" "keys (Node l (a, k) r) = insert k (keys l \<union> keys r)"
  by (auto simp: keys_def)

lemma addrs_inorder: "addrs t = fst ` set (inorder t)"
  by (simp add: addrs_def)

lemma keys_inorder: "keys t = snd ` set (inorder t)"
  by (simp add: keys_def)

fun shape :: "heap \<Rightarrow> nat \<Rightarrow> atree \<Rightarrow> bool" where
  "shape H q Leaf \<longleftrightarrow> q = 0"
| "shape H q (Node l (a, k) r) \<longleftrightarrow> q = a \<and> valid_ptr H a \<and> h_key H a = k
     \<and> shape H (h_left H a) l \<and> shape H (h_right H a) r"

fun sized :: "heap \<Rightarrow> atree \<Rightarrow> bool" where
  "sized H Leaf \<longleftrightarrow> True"
| "sized H (Node l (a, k) r) \<longleftrightarrow> h_size H a = of_nat (size l + size r + 1)
     \<and> sized H l \<and> sized H r"

subsection \<open>Frames\<close>

definition frame :: "nat set \<Rightarrow> heap \<Rightarrow> heap \<Rightarrow> bool" where
  "frame S H H' \<longleftrightarrow> h_alloc H' = h_alloc H \<and> h_next H' = h_next H \<and> h_key H' = h_key H
     \<and> (\<forall>x. x \<notin> S \<longrightarrow> h_size H' x = h_size H x \<and> h_left H' x = h_left H x
          \<and> h_right H' x = h_right H x \<and> h_p H' x = h_p H x)"

lemma frame_refl [simp]: "frame S H H"
  by (simp add: frame_def)

lemma frame_trans: "frame S H H' \<Longrightarrow> frame S H' H'' \<Longrightarrow> frame S H H''"
  by (simp add: frame_def)

lemma frame_mono: "frame S H H' \<Longrightarrow> S \<subseteq> S' \<Longrightarrow> frame S' H H'"
  by (auto simp: frame_def)

lemma frame_valid: "frame S H H' \<Longrightarrow> valid_ptr H' a = valid_ptr H a"
  by (simp add: frame_def valid_ptr_def)

lemma shape_cong:
  assumes "shape H q t"
    and "\<And>x. x \<in> addrs t \<Longrightarrow> h_alloc H' x = h_alloc H x \<and> h_key H' x = h_key H x
           \<and> h_left H' x = h_left H x \<and> h_right H' x = h_right H x"
  shows "shape H' q t"
  using assms by (induction H q t rule: shape.induct) (auto simp: valid_ptr_def)

lemma sized_cong:
  assumes "sized H t" and "\<And>x. x \<in> addrs t \<Longrightarrow> h_size H' x = h_size H x"
  shows "sized H' t"
  using assms by (induction H t rule: sized.induct) auto

lemma shape_frame: "shape H q t \<Longrightarrow> frame S H H' \<Longrightarrow> addrs t \<inter> S = {} \<Longrightarrow> shape H' q t"
  by (erule shape_cong) (auto simp: frame_def)

lemma sized_frame: "sized H t \<Longrightarrow> frame S H H' \<Longrightarrow> addrs t \<inter> S = {} \<Longrightarrow> sized H' t"
  by (erule sized_cong) (auto simp: frame_def)

lemma shape_valid: "shape H q t \<Longrightarrow> x \<in> addrs t \<Longrightarrow> valid_ptr H x"
  by (induction H q t rule: shape.induct) auto

lemma shape_key: "shape H q t \<Longrightarrow> (x, k) \<in> set_tree t \<Longrightarrow> h_key H x = k"
  by (induction H q t rule: shape.induct) auto

lemma shape_0 [simp]: "shape H 0 t \<longleftrightarrow> t = Leaf"
  by (cases t) (auto simp: valid_ptr_def)

lemma shape_root: "shape H q t \<Longrightarrow> q \<noteq> 0 \<Longrightarrow> q \<in> addrs t"
  by (cases "(H, q, t)" rule: shape.cases) auto

lemma shape_rootE:
  assumes "shape H q t" "t \<noteq> Leaf"
  obtains l k r where "t = Node l (q, k) r"
  using assms by (cases "(H, q, t)" rule: shape.cases) auto

lemma shape_unique: "shape H q t \<Longrightarrow> shape H q t' \<Longrightarrow> t = t'"
proof (induction H q t arbitrary: t' rule: shape.induct)
  case (1 H q)
  then show ?case by simp
next
  case (2 H q l a k r)
  then have "t' \<noteq> Leaf" by (auto simp: valid_ptr_def)
  then obtain l' k' r' where t': "t' = Node l' (q, k') r'"
    using "2.prems"(2) by (elim shape_rootE)
  have "l = l'" by (rule "2.IH"(1)) (use "2.prems" t' in simp_all)
  moreover have "r = r'" by (rule "2.IH"(2)) (use "2.prems" t' in simp_all)
  ultimately show ?case using "2.prems" t' by simp
qed

lemma shape_field_upd [simp]:
  "shape (H\<lparr>h_size := f\<rparr>) q t = shape H q t"
  "shape (H\<lparr>h_p := g\<rparr>) q t = shape H q t"
  "shape (H\<lparr>h_next := n\<rparr>) q t = shape H q t"
  by (induction H q t rule: shape.induct) (auto simp: valid_ptr_def)

lemma sized_field_upd [simp]:
  "sized (H\<lparr>h_left := f\<rparr>) t = sized H t"
  "sized (H\<lparr>h_right := f\<rparr>) t = sized H t"
  "sized (H\<lparr>h_p := f\<rparr>) t = sized H t"
  "sized (H\<lparr>h_key := g\<rparr>) t = sized H t"
  "sized (H\<lparr>h_alloc := h\<rparr>) t = sized H t"
  "sized (H\<lparr>h_next := n\<rparr>) t = sized H t"
  by (induction H t rule: sized.induct) auto

lemma valid_ptr_field_upd [simp]:
  "valid_ptr (H\<lparr>h_size := f\<rparr>) a = valid_ptr H a"
  "valid_ptr (H\<lparr>h_p := g\<rparr>) a = valid_ptr H a"
  "valid_ptr (H\<lparr>h_left := g\<rparr>) a = valid_ptr H a"
  "valid_ptr (H\<lparr>h_right := g\<rparr>) a = valid_ptr H a"
  "valid_ptr (H\<lparr>h_key := f\<rparr>) a = valid_ptr H a"
  "valid_ptr (H\<lparr>h_next := n\<rparr>) a = valid_ptr H a"
  by (simp_all add: valid_ptr_def)

subsection \<open>Symbolic execution\<close>

definition psz :: "(nat \<Rightarrow> u64) \<Rightarrow> nat \<Rightarrow> u64" where
  "psz f q = (if q = 0 then 0 else f q)"

definition adopted :: "nat \<Rightarrow> nat \<Rightarrow> (nat \<Rightarrow> nat) \<Rightarrow> nat \<Rightarrow> nat" where
  "adopted child parent f = (if child = 0 then f else f(child := parent))"

lemma psz_shape: "shape H q t \<Longrightarrow> sized H t \<Longrightarrow> psz (h_size H) q = of_nat (size t)"
  by (cases "(H, q, t)" rule: shape.cases) (auto simp: psz_def valid_ptr_def)

lemma rd_ok [heap_step]: "valid_ptr H a \<Longrightarrow> rd f a H = Some (f H a)"
  by (simp add: rd_def)

lemma set_ok [heap_step]:
  "valid_ptr H a \<Longrightarrow> set_key a k H = Some (H\<lparr>h_key := (h_key H)(a := k)\<rparr>)"
  "valid_ptr H a \<Longrightarrow> set_size a k H = Some (H\<lparr>h_size := (h_size H)(a := k)\<rparr>)"
  "valid_ptr H a \<Longrightarrow> set_left a v H = Some (H\<lparr>h_left := (h_left H)(a := v)\<rparr>)"
  "valid_ptr H a \<Longrightarrow> set_right a v H = Some (H\<lparr>h_right := (h_right H)(a := v)\<rparr>)"
  "valid_ptr H a \<Longrightarrow> set_p a v H = Some (H\<lparr>h_p := (h_p H)(a := v)\<rparr>)"
  by (simp_all add: set_key_def set_size_def set_left_def set_right_def set_p_def)

lemma adopt_left_ok [heap_step]:
  "valid_ptr H a \<Longrightarrow> h_left H a \<noteq> 0 \<longrightarrow> valid_ptr H (h_left H a)
    \<Longrightarrow> adopt_left a H = Some (H\<lparr>h_p := adopted (h_left H a) a (h_p H)\<rparr>)"
  by (auto simp: adopt_left_def heap_step adopted_def)

lemma adopt_right_ok [heap_step]:
  "valid_ptr H a \<Longrightarrow> h_right H a \<noteq> 0 \<longrightarrow> valid_ptr H (h_right H a)
    \<Longrightarrow> adopt_right a H = Some (H\<lparr>h_p := adopted (h_right H a) a (h_p H)\<rparr>)"
  by (auto simp: adopt_right_def heap_step adopted_def)

lemma add_left_size_ok [heap_step]:
  "valid_ptr H a \<Longrightarrow> h_left H a \<noteq> 0 \<longrightarrow> valid_ptr H (h_left H a)
    \<Longrightarrow> add_left_size a H = Some (H\<lparr>h_size := (h_size H)(a := h_size H a + psz (h_size H) (h_left H a))\<rparr>)"
  by (auto simp: add_left_size_def heap_step psz_def)

lemma add_right_size_ok [heap_step]:
  "valid_ptr H a \<Longrightarrow> h_right H a \<noteq> 0 \<longrightarrow> valid_ptr H (h_right H a)
    \<Longrightarrow> add_right_size a H = Some (H\<lparr>h_size := (h_size H)(a := h_size H a + psz (h_size H) (h_right H a))\<rparr>)"
  by (auto simp: add_right_size_def heap_step psz_def)

lemma shape_child_valid: "shape H q t \<Longrightarrow> q \<noteq> 0 \<longrightarrow> valid_ptr H q"
  by (cases "(H, q, t)" rule: shape.cases) auto

lemma adopted_other [simp]: "x \<noteq> c \<Longrightarrow> adopted c q f x = f x"
  by (simp add: adopted_def)

lemma psz_upd_other [simp]: "q \<noteq> a \<Longrightarrow> psz (f(a := v)) q = psz f q"
  by (simp add: psz_def)

lemma psz_upd_same [simp]: "a \<noteq> 0 \<Longrightarrow> psz (f(a := v)) a = v"
  by (simp add: psz_def)

lemma psz_0 [simp]: "psz f 0 = 0"
  by (simp add: psz_def)

subsection \<open>Rotations\<close>

lemma RightRotate_ok:
  assumes sh: "shape H q (Node (Node A (b, kb) B) (a, ka) C)"
    and sz: "sized H (Node (Node A (b, kb) B) (a, ka) C)"
    and d: "distinct (map fst (inorder (Node (Node A (b, kb) B) (a, ka) C)))"
  shows "\<exists>H'. RightRotate q H = Some (b, H')
    \<and> shape H' b (Node A (b, kb) (Node B (a, ka) C))
    \<and> sized H' (Node A (b, kb) (Node B (a, ka) C))
    \<and> frame (addrs (Node (Node A (b, kb) B) (a, ka) C)) H H'"
proof -
  have v: "q = a" "h_left H a = b" "valid_ptr H a" "valid_ptr H b" "a \<noteq> 0" "b \<noteq> 0"
    "h_key H a = ka" "h_key H b = kb"
    using sh by (auto simp: valid_ptr_def)
  have shs: "shape H (h_left H b) A" "shape H (h_right H b) B" "shape H (h_right H a) C"
    using sh v by auto
  note cv = shs[THEN shape_child_valid]
  have szs: "sized H A" "sized H B" "sized H C" using sz by auto
  note psz = psz_shape[OF shs(1) szs(1)] psz_shape[OF shs(2) szs(2)] psz_shape[OF shs(3) szs(3)]
  have ab: "a \<noteq> b" "a \<notin> addrs A" "a \<notin> addrs B" "a \<notin> addrs C"
      "b \<notin> addrs A" "b \<notin> addrs B" "b \<notin> addrs C"
    using d by (auto simp: addrs_inorder)
  have ne: "h_left H b \<noteq> a" "h_left H b \<noteq> b" "h_right H b \<noteq> a" "h_right H b \<noteq> b"
      "h_right H a \<noteq> a" "h_right H a \<noteq> b"
    using shs ab v shape_root by metis+
  define H' where "H' = H\<lparr>h_left := (h_left H)(a := h_right H b), h_right := (h_right H)(b := a),
     h_p := (adopted a b (adopted (h_right H b) a (h_p H)))(b := 0),
     h_size := (h_size H)(a := 1 + psz (h_size H) (h_right H b) + psz (h_size H) (h_right H a),
       b := 1 + psz (h_size H) (h_left H b) + (1 + psz (h_size H) (h_right H b) + psz (h_size H) (h_right H a)))\<rparr>"
  have run: "RightRotate q H = Some (b, H')"
    using v ab ne cv
    by (simp add: RightRotate_def heap_step H'_def)
  have "shape H' (h_left H b) A" by (rule shape_cong[OF shs(1)]) (use ab in \<open>auto simp: H'_def\<close>)
  moreover have "shape H' (h_right H b) B" by (rule shape_cong[OF shs(2)]) (use ab in \<open>auto simp: H'_def\<close>)
  moreover have "shape H' (h_right H a) C" by (rule shape_cong[OF shs(3)]) (use ab in \<open>auto simp: H'_def\<close>)
  moreover have "sized H' A" by (rule sized_cong[OF szs(1)]) (use ab in \<open>auto simp: H'_def\<close>)
  moreover have "sized H' B" by (rule sized_cong[OF szs(2)]) (use ab in \<open>auto simp: H'_def\<close>)
  moreover have "sized H' C" by (rule sized_cong[OF szs(3)]) (use ab in \<open>auto simp: H'_def\<close>)
  moreover have "frame (addrs (Node (Node A (b, kb) B) (a, ka) C)) H H'"
    using v shape_root[OF shs(2)] by (auto simp: frame_def H'_def adopted_def)
  moreover have "h_left H' a = h_right H b" "h_left H' b = h_left H b" "h_right H' a = h_right H a"
    "h_right H' b = a" "h_key H' = h_key H" "valid_ptr H' a" "valid_ptr H' b"
    "h_size H' a = of_nat (size B + size C + 1)"
    "h_size H' b = of_nat (size A + (size B + size C + 1) + 1)"
    using v ab psz by (simp_all add: H'_def)
  ultimately show ?thesis
    using run v by simp
qed

lemma LeftRotate_ok:
  assumes sh: "shape H q (Node A (a, ka) (Node B (b, kb) C))"
    and sz: "sized H (Node A (a, ka) (Node B (b, kb) C))"
    and d: "distinct (map fst (inorder (Node A (a, ka) (Node B (b, kb) C))))"
  shows "\<exists>H'. LeftRotate q H = Some (b, H')
    \<and> shape H' b (Node (Node A (a, ka) B) (b, kb) C)
    \<and> sized H' (Node (Node A (a, ka) B) (b, kb) C)
    \<and> frame (addrs (Node A (a, ka) (Node B (b, kb) C))) H H'"
proof -
  have v: "q = a" "h_right H a = b" "valid_ptr H a" "valid_ptr H b" "a \<noteq> 0" "b \<noteq> 0"
    "h_key H a = ka" "h_key H b = kb"
    using sh by (auto simp: valid_ptr_def)
  have shs: "shape H (h_left H a) A" "shape H (h_left H b) B" "shape H (h_right H b) C"
    using sh v by auto
  note cv = shs[THEN shape_child_valid]
  have szs: "sized H A" "sized H B" "sized H C" using sz by auto
  note psz = psz_shape[OF shs(1) szs(1)] psz_shape[OF shs(2) szs(2)] psz_shape[OF shs(3) szs(3)]
  have ab: "a \<noteq> b" "a \<notin> addrs A" "a \<notin> addrs B" "a \<notin> addrs C"
      "b \<notin> addrs A" "b \<notin> addrs B" "b \<notin> addrs C"
    using d by (auto simp: addrs_inorder)
  have ne: "h_right H b \<noteq> a" "h_right H b \<noteq> b" "h_left H b \<noteq> a" "h_left H b \<noteq> b"
      "h_left H a \<noteq> a" "h_left H a \<noteq> b"
    using shs ab v shape_root by metis+
  define H' where "H' = H\<lparr>h_right := (h_right H)(a := h_left H b), h_left := (h_left H)(b := a),
     h_p := (adopted a b (adopted (h_left H b) a (h_p H)))(b := 0),
     h_size := (h_size H)(a := 1 + psz (h_size H) (h_left H a) + psz (h_size H) (h_left H b),
       b := 1 + (1 + psz (h_size H) (h_left H a) + psz (h_size H) (h_left H b))
              + psz (h_size H) (h_right H b))\<rparr>"
  have run: "LeftRotate q H = Some (b, H')"
    using v ab ne cv
    by (simp add: LeftRotate_def heap_step H'_def)
  have "shape H' (h_left H a) A" by (rule shape_cong[OF shs(1)]) (use ab in \<open>auto simp: H'_def\<close>)
  moreover have "shape H' (h_left H b) B" by (rule shape_cong[OF shs(2)]) (use ab in \<open>auto simp: H'_def\<close>)
  moreover have "shape H' (h_right H b) C" by (rule shape_cong[OF shs(3)]) (use ab in \<open>auto simp: H'_def\<close>)
  moreover have "sized H' A" by (rule sized_cong[OF szs(1)]) (use ab in \<open>auto simp: H'_def\<close>)
  moreover have "sized H' B" by (rule sized_cong[OF szs(2)]) (use ab in \<open>auto simp: H'_def\<close>)
  moreover have "sized H' C" by (rule sized_cong[OF szs(3)]) (use ab in \<open>auto simp: H'_def\<close>)
  moreover have "frame (addrs (Node A (a, ka) (Node B (b, kb) C))) H H'"
    using v shape_root[OF shs(2)] by (auto simp: frame_def H'_def adopted_def)
  moreover have "h_left H' a = h_left H a" "h_right H' a = h_left H b" "h_right H' b = h_right H b"
    "h_left H' b = a" "h_key H' = h_key H" "valid_ptr H' a" "valid_ptr H' b"
    "h_size H' a = of_nat (size A + size B + 1)"
    "h_size H' b = of_nat ((size A + size B + 1) + size C + 1)"
    using v ab psz by (simp_all add: H'_def)
  ultimately show ?thesis
    using run v by simp
qed

subsection \<open>The spines that the loop builds\<close>

text \<open>
  A spine is a list of (address, key, side tree), innermost node first.  \<open>lspine H ref c xs\<close>
  reads: following right children from the local node \<open>ref\<close> visits the nodes of \<open>xs\<close> (last
  to first) and then reaches \<open>c\<close>; every node points back to the one above through \<open>p\<close>.
\<close>

type_synonym spine = "(nat \<times> u64 \<times> atree) list"

definition spine_top :: "nat \<Rightarrow> spine \<Rightarrow> nat" where
  "spine_top ref xs = (case xs of [] \<Rightarrow> ref | (a, _) # _ \<Rightarrow> a)"

lemma spine_top_simps [simp]: "spine_top ref [] = ref" "spine_top ref ((a, b) # xs) = a"
  by (simp_all add: spine_top_def)

fun lspine :: "heap \<Rightarrow> nat \<Rightarrow> nat \<Rightarrow> spine \<Rightarrow> bool" where
  "lspine H ref c [] \<longleftrightarrow> h_right H ref = c"
| "lspine H ref c ((a, k, A) # xs) \<longleftrightarrow> valid_ptr H a \<and> h_key H a = k \<and> h_right H a = c
     \<and> shape H (h_left H a) A \<and> h_p H a = spine_top ref xs \<and> lspine H ref a xs"

fun rspine :: "heap \<Rightarrow> nat \<Rightarrow> nat \<Rightarrow> spine \<Rightarrow> bool" where
  "rspine H ref c [] \<longleftrightarrow> h_left H ref = c"
| "rspine H ref c ((a, k, B) # xs) \<longleftrightarrow> valid_ptr H a \<and> h_key H a = k \<and> h_left H a = c
     \<and> shape H (h_right H a) B \<and> h_p H a = spine_top ref xs \<and> rspine H ref a xs"

fun ssized :: "heap \<Rightarrow> nat \<Rightarrow> spine \<Rightarrow> bool" where
  "ssized H n [] \<longleftrightarrow> True"
| "ssized H n ((a, k, A) # xs) \<longleftrightarrow> h_size H a = of_nat (n + size A + 1) \<and> sized H A
     \<and> ssized H (n + size A + 1) xs"

fun lnodes :: "spine \<Rightarrow> (nat \<times> u64) list" where
  "lnodes [] = []"
| "lnodes ((a, k, A) # xs) = lnodes xs @ inorder A @ [(a, k)]"

fun rnodes :: "spine \<Rightarrow> (nat \<times> u64) list" where
  "rnodes [] = []"
| "rnodes ((a, k, B) # xs) = (a, k) # inorder B @ rnodes xs"

fun lbuild :: "spine \<Rightarrow> atree \<Rightarrow> atree" where
  "lbuild [] T = T"
| "lbuild ((a, k, A) # xs) T = lbuild xs (Node A (a, k) T)"

fun rbuild :: "spine \<Rightarrow> atree \<Rightarrow> atree" where
  "rbuild [] T = T"
| "rbuild ((a, k, B) # xs) T = rbuild xs (Node T (a, k) B)"

definition spine_addrs :: "spine \<Rightarrow> nat set" where
  "spine_addrs xs = (\<Union>(a, k, A) \<in> set xs. insert a (addrs A))"

lemma spine_addrs_simps [simp]:
  "spine_addrs [] = {}"
  "spine_addrs ((a, k, A) # xs) = insert a (addrs A \<union> spine_addrs xs)"
  by (auto simp: spine_addrs_def)

lemma spine_addrs_nodes:
  "fst ` set (lnodes xs) = spine_addrs xs" "fst ` set (rnodes xs) = spine_addrs xs"
  by (induction xs rule: lnodes.induct) (auto simp: addrs_def)

lemma inorder_build:
  "inorder (lbuild xs T) = lnodes xs @ inorder T"
  "inorder (rbuild xs T) = inorder T @ rnodes xs"
  by (induction xs arbitrary: T rule: lnodes.induct) auto

lemma lspine_cong:
  assumes "lspine H ref c xs" "h_right H' ref = h_right H ref"
    and "\<And>x. x \<in> spine_addrs xs \<Longrightarrow> h_alloc H' x = h_alloc H x \<and> h_key H' x = h_key H x
       \<and> h_left H' x = h_left H x \<and> h_right H' x = h_right H x \<and> h_p H' x = h_p H x"
  shows "lspine H' ref c xs"
  using assms
proof (induction H ref c xs rule: lspine.induct)
  case (2 H ref c a k A xs)
  have "shape H' (h_left H a) A" by (rule shape_cong) (use 2 in auto)
  with 2 show ?case by (simp add: valid_ptr_def)
qed simp

lemma rspine_cong:
  assumes "rspine H ref c xs" "h_left H' ref = h_left H ref"
    and "\<And>x. x \<in> spine_addrs xs \<Longrightarrow> h_alloc H' x = h_alloc H x \<and> h_key H' x = h_key H x
       \<and> h_left H' x = h_left H x \<and> h_right H' x = h_right H x \<and> h_p H' x = h_p H x"
  shows "rspine H' ref c xs"
  using assms
proof (induction H ref c xs rule: rspine.induct)
  case (2 H ref c a k A xs)
  have "shape H' (h_right H a) A" by (rule shape_cong) (use 2 in auto)
  with 2 show ?case by (simp add: valid_ptr_def)
qed simp

lemma ssized_cong:
  assumes "ssized H n xs" "\<And>x. x \<in> spine_addrs xs \<Longrightarrow> h_size H' x = h_size H x"
  shows "ssized H' n xs"
  using assms
proof (induction H n xs rule: ssized.induct)
  case (2 H n a k A xs)
  have "sized H' A" by (rule sized_cong) (use 2 in auto)
  with 2 show ?case by simp
qed simp

lemma lspine_valid: "lspine H ref c xs \<Longrightarrow> x \<in> spine_addrs xs \<Longrightarrow> valid_ptr H x"
  by (induction H ref c xs rule: lspine.induct) (auto dest: shape_valid)

lemma rspine_valid: "rspine H ref c xs \<Longrightarrow> x \<in> spine_addrs xs \<Longrightarrow> valid_ptr H x"
  by (induction H ref c xs rule: rspine.induct) (auto dest: shape_valid)

lemma lspine_build:
  "lspine H ref c xs \<Longrightarrow> shape H c T \<Longrightarrow> shape H (h_right H ref) (lbuild xs T)"
  by (induction H ref c xs arbitrary: T rule: lspine.induct) auto

lemma rspine_build:
  "rspine H ref c xs \<Longrightarrow> shape H c T \<Longrightarrow> shape H (h_left H ref) (rbuild xs T)"
  by (induction H ref c xs arbitrary: T rule: rspine.induct) auto

lemma ssized_lbuild: "ssized H (size T) xs \<Longrightarrow> sized H T \<Longrightarrow> sized H (lbuild xs T)"
  by (induction xs T rule: lbuild.induct) (auto simp: ac_simps)

lemma ssized_rbuild: "ssized H (size T) xs \<Longrightarrow> sized H T \<Longrightarrow> sized H (rbuild xs T)"
  by (induction xs T rule: rbuild.induct) (auto simp: ac_simps)

end
