(* ===== verification/Splay_Loop.thy ===== *)
theory Splay_Loop
  imports Splay_Tree_Inv
begin

text \<open>
  The loop of \<open>Splay\<close>: the walk that repairs the sizes along a spine, one link to the left or
  the right tree, one round of the loop, and the loop itself.  The loop keeps an invariant with
  the in-order sequence of all nodes, so no bound on the tree is needed for the result: the loop
  returns for every tree, with the nodes in the same order.
\<close>

lemma spine_size_upd [simp]:
  "lspine (H\<lparr>h_size := f\<rparr>) ref c xs = lspine H ref c xs"
  "rspine (H\<lparr>h_size := f\<rparr>) ref c xs = rspine H ref c xs"
  by (induction H ref c xs rule: lspine.induct) auto

lemma ssized_field_upd [simp]:
  "ssized (H\<lparr>h_left := g\<rparr>) n xs = ssized H n xs"
  "ssized (H\<lparr>h_right := g\<rparr>) n xs = ssized H n xs"
  "ssized (H\<lparr>h_p := g\<rparr>) n xs = ssized H n xs"
  by (induction H n xs rule: ssized.induct) auto

definition sides_sized :: "heap \<Rightarrow> spine \<Rightarrow> bool" where
  "sides_sized H xs \<longleftrightarrow> (\<forall>(a, k, A) \<in> set xs. sized H A)"

lemma sides_sized_simps [simp]:
  "sides_sized H []" "sides_sized H ((a, k, A) # xs) \<longleftrightarrow> sized H A \<and> sides_sized H xs"
  by (auto simp: sides_sized_def)

lemma ssized_sides: "ssized H n xs \<Longrightarrow> sides_sized H xs"
  by (induction H n xs rule: ssized.induct) auto

lemma sides_sized_cong:
  "sides_sized H xs \<Longrightarrow> (\<And>x. x \<in> spine_addrs xs - fst ` set xs \<Longrightarrow> h_size H' x = h_size H x)
    \<Longrightarrow> distinct (map fst (lnodes xs)) \<Longrightarrow> sides_sized H' xs"
proof (induction xs rule: lnodes.induct)
  case (2 a k A xs)
  have d: "a \<notin> addrs A" "a \<notin> spine_addrs xs" "addrs A \<inter> spine_addrs xs = {}"
    using "2.prems"(3) by (auto simp: addrs_inorder simp flip: spine_addrs_nodes(1))
  have fs: "fst ` set xs \<subseteq> spine_addrs xs" by (auto simp: spine_addrs_def)
  have "sized H' A"
    by (rule sized_cong[of H]) (use "2.prems" d fs in auto)
  moreover have "sides_sized H' xs"
    using "2.prems" d by (intro "2.IH") auto
  ultimately show ?case by simp
qed simp

lemma walk_left:
  assumes "lspine H ref c xs" "valid_ptr H ref" "h_key H ref = 0"
    and "psz (h_size H) c = of_nat n" "c \<noteq> 0 \<longrightarrow> valid_ptr H c" "c \<notin> spine_addrs xs"
    and "distinct (map fst (lnodes xs))" "0 \<notin> snd ` set (lnodes xs)" "sides_sized H xs"
  shows "\<exists>f. update_sizes_up (spine_top ref xs) H = Some (H\<lparr>h_size := f\<rparr>)
    \<and> ssized (H\<lparr>h_size := f\<rparr>) n xs \<and> (\<forall>x. x \<notin> spine_addrs xs \<longrightarrow> f x = h_size H x)"
  using assms
proof (induction xs arbitrary: H c n rule: lnodes.induct)
  case 1
  then show ?case
    by (subst update_sizes_up.simps) (auto simp: heap_step valid_ptr_def intro!: exI[of _ "h_size H"])
next
  case (2 a k A xs)
  have v: "valid_ptr H a" "h_key H a = k" "h_right H a = c" "shape H (h_left H a) A"
      "h_p H a = spine_top ref xs" "lspine H ref a xs" "k \<noteq> 0" "a \<noteq> 0"
    using "2.prems" by (auto simp: valid_ptr_def)
  have d: "a \<notin> addrs A" "a \<notin> spine_addrs xs" "addrs A \<inter> spine_addrs xs = {}"
    using "2.prems"(7) by (auto simp: addrs_inorder simp flip: spine_addrs_nodes(1))
  have nc: "c \<noteq> a" using "2.prems"(6) by simp
  have nl: "h_left H a \<noteq> a" using v d shape_root by metis
  define H1 where "H1 = H\<lparr>h_size := (h_size H)(a := of_nat (n + size A + 1))\<rparr>"
  have step: "update_sizes_up (spine_top ref ((a, k, A) # xs)) H = update_sizes_up (spine_top ref xs) H1"
    using v nl nc "2.prems"(4,5) shape_child_valid[OF v(4)] psz_shape[OF v(4)] "2.prems"(9)
    by (subst update_sizes_up.simps) (simp add: heap_step H1_def ac_simps)
  have "\<exists>f. update_sizes_up (spine_top ref xs) H1 = Some (H1\<lparr>h_size := f\<rparr>)
    \<and> ssized (H1\<lparr>h_size := f\<rparr>) (n + size A + 1) xs
    \<and> (\<forall>x. x \<notin> spine_addrs xs \<longrightarrow> f x = h_size H1 x)"
  proof (rule "2.IH"[of H1 a])
    show "sides_sized H1 xs"
      by (rule sides_sized_cong[of H]) (use "2.prems" d in \<open>auto simp: H1_def\<close>)
  qed (use "2.prems" v d(2) in \<open>auto simp: H1_def psz_def\<close>)
  then obtain f where f: "update_sizes_up (spine_top ref xs) H1 = Some (H1\<lparr>h_size := f\<rparr>)"
    "ssized (H1\<lparr>h_size := f\<rparr>) (n + size A + 1) xs"
    "\<And>x. x \<notin> spine_addrs xs \<Longrightarrow> f x = h_size H1 x" by blast
  have e: "H1\<lparr>h_size := f\<rparr> = H\<lparr>h_size := f\<rparr>" by (simp add: H1_def)
  have "f x = h_size H x" if "x \<in> addrs A" for x
  proof -
    have "x \<notin> spine_addrs xs" "x \<noteq> a" using d that by blast+
    then show ?thesis using f(3)[of x] by (simp add: H1_def)
  qed
  then have "sized (H\<lparr>h_size := f\<rparr>) A"
    using "2.prems"(9) sized_cong[of H A "H\<lparr>h_size := f\<rparr>"] by simp
  moreover have "f a = of_nat (n + size A + 1)" using f(3) d by (simp add: H1_def)
  moreover have "f x = h_size H x" if "x \<noteq> a" "x \<notin> spine_addrs xs" for x
    using f(3) that by (simp add: H1_def)
  ultimately show ?case
    by (intro exI[of _ f]) (use step f(1,2)[unfolded e] in \<open>simp add: ac_simps\<close>)
qed

lemma sides_sized_rcong:
  "sides_sized H xs \<Longrightarrow> (\<And>x. x \<in> spine_addrs xs - fst ` set xs \<Longrightarrow> h_size H' x = h_size H x)
    \<Longrightarrow> distinct (map fst (rnodes xs)) \<Longrightarrow> sides_sized H' xs"
proof (induction xs rule: rnodes.induct)
  case (2 a k A xs)
  have d: "a \<notin> addrs A" "a \<notin> spine_addrs xs" "addrs A \<inter> spine_addrs xs = {}"
    using "2.prems"(3) by (auto simp: addrs_inorder simp flip: spine_addrs_nodes(2))
  have fs: "fst ` set xs \<subseteq> spine_addrs xs" by (auto simp: spine_addrs_def)
  have "sized H' A"
    by (rule sized_cong[of H]) (use "2.prems" d fs in auto)
  moreover have "sides_sized H' xs"
    using "2.prems" d by (intro "2.IH") auto
  ultimately show ?case by simp
qed simp

lemma walk_right:
  assumes "rspine H ref c xs" "valid_ptr H ref" "h_key H ref = 0"
    and "psz (h_size H) c = of_nat n" "c \<noteq> 0 \<longrightarrow> valid_ptr H c" "c \<notin> spine_addrs xs"
    and "distinct (map fst (rnodes xs))" "0 \<notin> snd ` set (rnodes xs)" "sides_sized H xs"
  shows "\<exists>f. update_sizes_up (spine_top ref xs) H = Some (H\<lparr>h_size := f\<rparr>)
    \<and> ssized (H\<lparr>h_size := f\<rparr>) n xs \<and> (\<forall>x. x \<notin> spine_addrs xs \<longrightarrow> f x = h_size H x)"
  using assms
proof (induction xs arbitrary: H c n rule: rnodes.induct)
  case 1
  then show ?case
    by (subst update_sizes_up.simps) (auto simp: heap_step valid_ptr_def intro!: exI[of _ "h_size H"])
next
  case (2 a k A xs)
  have v: "valid_ptr H a" "h_key H a = k" "h_left H a = c" "shape H (h_right H a) A"
      "h_p H a = spine_top ref xs" "rspine H ref a xs" "k \<noteq> 0" "a \<noteq> 0"
    using "2.prems" by (auto simp: valid_ptr_def)
  have d: "a \<notin> addrs A" "a \<notin> spine_addrs xs" "addrs A \<inter> spine_addrs xs = {}"
    using "2.prems"(7) by (auto simp: addrs_inorder simp flip: spine_addrs_nodes(2))
  have nc: "c \<noteq> a" using "2.prems"(6) by simp
  have nl: "h_right H a \<noteq> a" using v d shape_root by metis
  define H1 where "H1 = H\<lparr>h_size := (h_size H)(a := of_nat (n + size A + 1))\<rparr>"
  have step: "update_sizes_up (spine_top ref ((a, k, A) # xs)) H = update_sizes_up (spine_top ref xs) H1"
    using v nl nc "2.prems"(4,5) shape_child_valid[OF v(4)] psz_shape[OF v(4)] "2.prems"(9)
    by (subst update_sizes_up.simps) (simp add: heap_step H1_def ac_simps)
  have "\<exists>f. update_sizes_up (spine_top ref xs) H1 = Some (H1\<lparr>h_size := f\<rparr>)
    \<and> ssized (H1\<lparr>h_size := f\<rparr>) (n + size A + 1) xs
    \<and> (\<forall>x. x \<notin> spine_addrs xs \<longrightarrow> f x = h_size H1 x)"
  proof (rule "2.IH"[of H1 a])
    show "sides_sized H1 xs"
      by (rule sides_sized_rcong[of H]) (use "2.prems" d in \<open>auto simp: H1_def\<close>)
  qed (use "2.prems" v d(2) in \<open>auto simp: H1_def psz_def\<close>)
  then obtain f where f: "update_sizes_up (spine_top ref xs) H1 = Some (H1\<lparr>h_size := f\<rparr>)"
    "ssized (H1\<lparr>h_size := f\<rparr>) (n + size A + 1) xs"
    "\<And>x. x \<notin> spine_addrs xs \<Longrightarrow> f x = h_size H1 x" by blast
  have e: "H1\<lparr>h_size := f\<rparr> = H\<lparr>h_size := f\<rparr>" by (simp add: H1_def)
  have "f x = h_size H x" if "x \<in> addrs A" for x
  proof -
    have "x \<notin> spine_addrs xs" "x \<noteq> a" using d that by blast+
    then show ?thesis using f(3)[of x] by (simp add: H1_def)
  qed
  then have "sized (H\<lparr>h_size := f\<rparr>) A"
    using "2.prems"(9) sized_cong[of H A "H\<lparr>h_size := f\<rparr>"] by simp
  moreover have "f a = of_nat (n + size A + 1)" using f(3) d by (simp add: H1_def)
  moreover have "f x = h_size H x" if "x \<noteq> a" "x \<notin> spine_addrs xs" for x
    using f(3) that by (simp add: H1_def)
  ultimately show ?case
    by (intro exI[of _ f]) (use step f(1,2)[unfolded e] in \<open>simp add: ac_simps\<close>)
qed

subsection \<open>The loop invariant\<close>

definition all_nodes :: "spine \<Rightarrow> atree \<Rightarrow> spine \<Rightarrow> (nat \<times> u64) list" where
  "all_nodes xs T ys = lnodes xs @ inorder T @ rnodes ys"

definition splay_inv ::
  "u64 \<Rightarrow> nat \<Rightarrow> heap \<Rightarrow> nat \<Rightarrow> nat \<Rightarrow> nat \<Rightarrow> spine \<Rightarrow> atree \<Rightarrow> spine \<Rightarrow> bool" where
  "splay_inv key ref H root ltree rtree xs T ys \<longleftrightarrow>
     T \<noteq> Leaf \<and> shape H root T \<and> sized H T
   \<and> lspine H ref 0 xs \<and> ssized H 0 xs \<and> ltree = spine_top ref xs
   \<and> rspine H ref 0 ys \<and> ssized H 0 ys \<and> rtree = spine_top ref ys
   \<and> valid_ptr H ref \<and> h_key H ref = 0
   \<and> distinct (ref # map fst (all_nodes xs T ys))
   \<and> 0 \<notin> snd ` set (all_nodes xs T ys)
   \<and> sorted_wrt (<) (map snd (all_nodes xs T ys))
   \<and> (\<forall>k \<in> snd ` set (lnodes xs). k < key) \<and> (\<forall>k \<in> snd ` set (rnodes ys). key < k)"

definition footprint :: "nat \<Rightarrow> spine \<Rightarrow> atree \<Rightarrow> spine \<Rightarrow> nat set" where
  "footprint ref xs T ys = insert ref (fst ` set (all_nodes xs T ys))"

lemma distinct_parts:
  assumes "distinct (ref # map fst (all_nodes xs T ys))"
  shows "ref \<notin> spine_addrs xs" "ref \<notin> addrs T" "ref \<notin> spine_addrs ys"
    "spine_addrs xs \<inter> addrs T = {}" "spine_addrs xs \<inter> spine_addrs ys = {}"
    "addrs T \<inter> spine_addrs ys = {}"
    "distinct (map fst (lnodes xs))" "distinct (map fst (inorder T))" "distinct (map fst (rnodes ys))"
  using assms
  by (auto simp: all_nodes_def addrs_inorder image_Un
      simp flip: spine_addrs_nodes(1)[of xs] spine_addrs_nodes(2)[of ys])

lemma footprint_alt:
  "footprint ref xs T ys = insert ref (spine_addrs xs \<union> addrs T \<union> spine_addrs ys)"
  by (simp add: footprint_def all_nodes_def image_Un spine_addrs_nodes addrs_inorder Un_assoc)

lemma distinct_node:
  assumes "distinct (map fst (inorder (Node L (a, k) R)))"
  shows "a \<notin> addrs L" "a \<notin> addrs R" "addrs L \<inter> addrs R = {}"
    "distinct (map fst (inorder L))" "distinct (map fst (inorder R))"
  using assms by (auto simp: addrs_inorder)

lemma spine_top_in: "spine_top ref xs = ref \<or> spine_top ref xs \<in> spine_addrs xs"
  by (cases xs) auto

lemma rspine_relink:
  assumes "rspine H ref c ys" "ref \<notin> spine_addrs ys" "distinct (map fst (rnodes ys))"
    and "h_left H' (spine_top ref ys) = c'"
    and "\<And>x. x \<in> insert ref (spine_addrs ys) \<Longrightarrow> h_alloc H' x = h_alloc H x
      \<and> h_key H' x = h_key H x \<and> h_right H' x = h_right H x \<and> h_p H' x = h_p H x
      \<and> (x \<noteq> spine_top ref ys \<longrightarrow> h_left H' x = h_left H x)"
  shows "rspine H' ref c' ys"
proof (cases ys)
  case Nil
  then show ?thesis using assms by simp
next
  case (Cons y zs)
  obtain b kb B where y: "y = (b, kb, B)" by (cases y) auto
  have d: "b \<notin> addrs B" "b \<notin> spine_addrs zs" "b \<noteq> ref" "addrs B \<inter> spine_addrs zs = {}"
    using assms(2,3) Cons y by (auto simp: addrs_inorder simp flip: spine_addrs_nodes(2))
  have "shape H' (h_right H b) B"
    by (rule shape_cong[of H]) (use assms(1,5) Cons y d in auto)
  moreover have "rspine H' ref b zs"
    by (rule rspine_cong[of H]) (use assms(1,5) Cons y d in auto)
  ultimately show ?thesis
    using assms(1,4,5) Cons y d by (simp add: valid_ptr_def)
qed

lemma lspine_relink:
  assumes "lspine H ref c ys" "ref \<notin> spine_addrs ys" "distinct (map fst (lnodes ys))"
    and "h_right H' (spine_top ref ys) = c'"
    and "\<And>x. x \<in> insert ref (spine_addrs ys) \<Longrightarrow> h_alloc H' x = h_alloc H x
      \<and> h_key H' x = h_key H x \<and> h_left H' x = h_left H x \<and> h_p H' x = h_p H x
      \<and> (x \<noteq> spine_top ref ys \<longrightarrow> h_right H' x = h_right H x)"
  shows "lspine H' ref c' ys"
proof (cases ys)
  case Nil
  then show ?thesis using assms by simp
next
  case (Cons y zs)
  obtain b kb B where y: "y = (b, kb, B)" by (cases y) auto
  have d: "b \<notin> addrs B" "b \<notin> spine_addrs zs" "b \<noteq> ref" "addrs B \<inter> spine_addrs zs = {}"
    using assms(2,3) Cons y by (auto simp: addrs_inorder simp flip: spine_addrs_nodes(1))
  have "shape H' (h_left H b) B"
    by (rule shape_cong[of H]) (use assms(1,5) Cons y d in auto)
  moreover have "lspine H' ref b zs"
    by (rule lspine_cong[of H]) (use assms(1,5) Cons y d in auto)
  ultimately show ?thesis
    using assms(1,4,5) Cons y d by (simp add: valid_ptr_def)
qed

lemma distinct_split:
  assumes "distinct (ref # map fst (all_nodes xs (Node L (a, k) R) ys))"
  shows "ref \<noteq> a" "ref \<notin> addrs L" "ref \<notin> addrs R" "ref \<notin> spine_addrs xs" "ref \<notin> spine_addrs ys"
    "a \<notin> spine_addrs xs" "a \<notin> spine_addrs ys" "a \<notin> addrs L" "a \<notin> addrs R"
    "addrs L \<inter> addrs R = {}"
    "addrs L \<inter> spine_addrs xs = {}" "addrs R \<inter> spine_addrs xs = {}"
    "addrs L \<inter> spine_addrs ys = {}" "addrs R \<inter> spine_addrs ys = {}"
    "spine_addrs xs \<inter> spine_addrs ys = {}"
    "distinct (map fst (lnodes xs))" "distinct (map fst (rnodes ys))"
proof -
  note dp = distinct_parts[OF assms]
  note dn = distinct_node[OF dp(8)]
  show "ref \<noteq> a" "ref \<notin> addrs L" "ref \<notin> addrs R" "ref \<notin> spine_addrs xs" "ref \<notin> spine_addrs ys"
    "a \<notin> spine_addrs xs" "a \<notin> spine_addrs ys" "a \<notin> addrs L" "a \<notin> addrs R"
    "addrs L \<inter> addrs R = {}"
    "addrs L \<inter> spine_addrs xs = {}" "addrs R \<inter> spine_addrs xs = {}"
    "addrs L \<inter> spine_addrs ys = {}" "addrs R \<inter> spine_addrs ys = {}"
    "spine_addrs xs \<inter> spine_addrs ys = {}"
    "distinct (map fst (lnodes xs))" "distinct (map fst (rnodes ys))"
    using dp(1-7,9) dn(1-3) by auto
qed

lemma splay_invD:
  assumes "splay_inv key ref H root ltree rtree xs T ys"
  shows "T \<noteq> Leaf" "shape H root T" "sized H T"
    "lspine H ref 0 xs" "ssized H 0 xs" "ltree = spine_top ref xs"
    "rspine H ref 0 ys" "ssized H 0 ys" "rtree = spine_top ref ys"
    "valid_ptr H ref" "h_key H ref = 0"
    "distinct (ref # map fst (all_nodes xs T ys))"
    "0 \<notin> snd ` set (all_nodes xs T ys)"
    "sorted_wrt (<) (map snd (all_nodes xs T ys))"
    "\<And>k. k \<in> snd ` set (lnodes xs) \<Longrightarrow> k < key" "\<And>k. k \<in> snd ` set (rnodes ys) \<Longrightarrow> key < k"
  using assms unfolding splay_inv_def by blast+

lemma all_nodes_link_right:
  "all_nodes xs L ((a, k, C) # ys) = all_nodes xs (Node L (a, k) C) ys"
  by (simp add: all_nodes_def)

lemma all_nodes_link_left:
  "all_nodes ((a, k, A) # xs) R ys = all_nodes xs (Node A (a, k) R) ys"
  by (simp add: all_nodes_def)

lemma sorted_node:
  assumes "sorted_wrt (<) (map snd (all_nodes xs (Node A (a, k) R) ys))"
  shows "\<And>k'. k' \<in> snd ` set (lnodes xs) \<Longrightarrow> k' < k" "\<And>k'. k' \<in> snd ` set (inorder A) \<Longrightarrow> k' < k"
    "\<And>k'. k' \<in> snd ` set (inorder R) \<Longrightarrow> k < k'" "\<And>k'. k' \<in> snd ` set (rnodes ys) \<Longrightarrow> k < k'"
  using assms by (simp_all add: all_nodes_def sorted_wrt_append del: set_inorder) blast+

lemma link_right_ok:
  assumes inv: "splay_inv key ref H root ltree rtree xs (Node L (a, k) C) ys"
    and key: "key < k" and L: "L \<noteq> Leaf"
  shows "\<exists>root' H'. link_right root rtree H = Some (root', a, H')
    \<and> splay_inv key ref H' root' ltree a xs L ((a, k, C) # ys)
    \<and> frame (footprint ref xs (Node L (a, k) C) ys) H H'"
proof -
  note i = splay_invD[OF inv]
  note d = distinct_split[OF i(12)]
  have v: "root = a" "valid_ptr H a" "a \<noteq> 0" "h_key H a = k" "shape H (h_left H a) L"
      "shape H (h_right H a) C" "sized H L" "sized H C"
    using i(2,3) by (auto simp: valid_ptr_def)
  have vr: "valid_ptr H rtree" "rtree \<noteq> a" "rtree \<noteq> 0" "rtree \<notin> addrs L" "rtree \<notin> addrs C"
      "rtree \<notin> spine_addrs xs"
    using spine_top_in[of ref ys] i(9,10) d rspine_valid[OF i(7), of rtree]
    by (auto simp: valid_ptr_def)
  have ra: "h_right H a \<noteq> a" using shape_root v d by metis
  define H1 where "H1 = H\<lparr>h_p := (h_p H)(a := rtree), h_left := (h_left H)(rtree := a, a := 0),
     h_size := (h_size H)(a := of_nat (size C + 1))\<rparr>"
  have run: "link_right root rtree H
      = (update_sizes_up rtree H1 \<bind> (\<lambda>H'. Some (h_left H a, a, H')))"
    using v vr ra shape_child_valid[OF v(6)] psz_shape[OF v(6,8)]
    by (simp add: link_right_def heap_step H1_def adopted_def ac_simps)
  have rsp: "rspine H1 ref a ys"
    by (rule rspine_relink[OF i(7) d(5,17)]) (use vr d i(9) in \<open>auto simp: H1_def\<close>)
  have "sides_sized H1 ys"
    by (rule sides_sized_rcong[OF ssized_sides[OF i(8)] _ d(17)]) (use d in \<open>auto simp: H1_def\<close>)
  then have "\<exists>f. update_sizes_up (spine_top ref ys) H1 = Some (H1\<lparr>h_size := f\<rparr>)
    \<and> ssized (H1\<lparr>h_size := f\<rparr>) (size C + 1) ys
    \<and> (\<forall>x. x \<notin> spine_addrs ys \<longrightarrow> f x = h_size H1 x)"
    by (intro walk_right[OF rsp])
       (use i(10,11,13) v(2,3) d(7,17) in \<open>auto simp: H1_def psz_def all_nodes_def\<close>)
  then obtain f where f: "update_sizes_up (spine_top ref ys) H1 = Some (H1\<lparr>h_size := f\<rparr>)"
    "ssized (H1\<lparr>h_size := f\<rparr>) (size C + 1) ys"
    "\<And>x. x \<notin> spine_addrs ys \<Longrightarrow> f x = h_size H1 x" by blast
  define H' where "H' = H1\<lparr>h_size := f\<rparr>"
  have fA: "h_size H' x = h_size H x" if "x \<notin> spine_addrs ys" "x \<noteq> a" for x
    using f(3) that by (simp add: H'_def H1_def)
  have fS: "h_size H' x = h_size H x" if "x \<in> S" "S \<inter> spine_addrs ys = {}" "a \<notin> S" for x S
    using fA that by blast
  have fa: "h_size H' a = of_nat (size C + 1)"
    using f(3) d by (simp add: H'_def H1_def)
  have "shape H' (h_left H a) L"
    by (rule shape_cong[OF v(5)]) (use d vr in \<open>auto simp: H'_def H1_def\<close>)
  moreover have "sized H' L"
    by (rule sized_cong[OF v(7)], erule fS) (use d in \<open>simp_all add: Int_commute\<close>)
  moreover have "lspine H' ref 0 xs"
    by (rule lspine_cong[OF i(4)]) (use d vr in \<open>auto simp: H'_def H1_def\<close>)
  moreover have "ssized H' 0 xs"
    by (rule ssized_cong[OF i(5)], erule fS) (use d in \<open>simp_all add: Int_commute\<close>)
  moreover have "shape H' (h_right H a) C"
    by (rule shape_cong[OF v(6)]) (use d vr in \<open>auto simp: H'_def H1_def\<close>)
  moreover have "sized H' C"
    by (rule sized_cong[OF v(8)], erule fS) (use d in \<open>simp_all add: Int_commute\<close>)
  moreover have "rspine H' ref a ys"
    using rsp by (simp add: H'_def)
  moreover have "ssized H' (size C + 1) ys"
    using f(2) by (simp add: H'_def)
  moreover have "h_right H' a = h_right H a" "h_left H' a = 0" "h_p H' a = rtree"
    "h_key H' = h_key H" "valid_ptr H' ref" "valid_ptr H' a"
    using i(10) v(2) vr(2) by (simp_all add: H'_def H1_def)
  moreover have "key < k'" if "k' \<in> snd ` set (rnodes ((a, k, C) # ys))" for k'
  proof -
    have "k' = k \<or> k' \<in> snd ` set (inorder C) \<or> k' \<in> snd ` set (rnodes ys)"
      using that by (auto simp: image_iff)
    then consider "k' = k" | "k' \<in> snd ` set (inorder C)" | "k' \<in> snd ` set (rnodes ys)" by blast
    then show ?thesis
      by cases (use key i(16) less_trans[OF key sorted_node(3)[OF i(14)]] in blast)+
  qed
  ultimately have "splay_inv key ref H' (h_left H a) ltree a xs L ((a, k, C) # ys)"
    using i(6,9,11-15) L v(4,8) fa unfolding splay_inv_def all_nodes_link_right by simp
  moreover have "frame (footprint ref xs (Node L (a, k) C) ys) H H'"
    using spine_top_in[of ref ys] i(9) fA unfolding frame_def footprint_alt
    by (auto simp: H'_def H1_def)
  ultimately show ?thesis
    using run f(1) i(9) by (auto simp: H'_def)
qed

lemma link_left_ok:
  assumes inv: "splay_inv key ref H root ltree rtree xs (Node A (a, k) R) ys"
    and key: "k < key" and R: "R \<noteq> Leaf"
  shows "\<exists>root' H'. link_left root ltree H = Some (root', a, H')
    \<and> splay_inv key ref H' root' a rtree ((a, k, A) # xs) R ys
    \<and> frame (footprint ref xs (Node A (a, k) R) ys) H H'"
proof -
  note i = splay_invD[OF inv]
  note d = distinct_split[OF i(12)]
  have v: "root = a" "valid_ptr H a" "a \<noteq> 0" "h_key H a = k" "shape H (h_left H a) A"
      "shape H (h_right H a) R" "sized H A" "sized H R"
    using i(2,3) by (auto simp: valid_ptr_def)
  have vr: "valid_ptr H ltree" "ltree \<noteq> a" "ltree \<noteq> 0" "ltree \<notin> addrs A" "ltree \<notin> addrs R"
      "ltree \<notin> spine_addrs ys"
    using spine_top_in[of ref xs] i(6,10) d lspine_valid[OF i(4), of ltree]
    by (auto simp: valid_ptr_def)
  have ra: "h_left H a \<noteq> a" using shape_root v d by metis
  define H1 where "H1 = H\<lparr>h_p := (h_p H)(a := ltree), h_right := (h_right H)(ltree := a, a := 0),
     h_size := (h_size H)(a := of_nat (size A + 1))\<rparr>"
  have run: "link_left root ltree H
      = (update_sizes_up ltree H1 \<bind> (\<lambda>H'. Some (h_right H a, a, H')))"
    using v vr ra shape_child_valid[OF v(5)] psz_shape[OF v(5,7)]
    by (simp add: link_left_def heap_step H1_def adopted_def ac_simps)
  have lsp: "lspine H1 ref a xs"
    by (rule lspine_relink[OF i(4) d(4,16)]) (use vr d i(6) in \<open>auto simp: H1_def\<close>)
  have "sides_sized H1 xs"
    by (rule sides_sized_cong[OF ssized_sides[OF i(5)] _ d(16)]) (use d in \<open>auto simp: H1_def\<close>)
  then have "\<exists>f. update_sizes_up (spine_top ref xs) H1 = Some (H1\<lparr>h_size := f\<rparr>)
    \<and> ssized (H1\<lparr>h_size := f\<rparr>) (size A + 1) xs
    \<and> (\<forall>x. x \<notin> spine_addrs xs \<longrightarrow> f x = h_size H1 x)"
    by (intro walk_left[OF lsp])
       (use i(10,11,13) v(2,3) d(6,16) in \<open>auto simp: H1_def psz_def all_nodes_def\<close>)
  then obtain f where f: "update_sizes_up (spine_top ref xs) H1 = Some (H1\<lparr>h_size := f\<rparr>)"
    "ssized (H1\<lparr>h_size := f\<rparr>) (size A + 1) xs"
    "\<And>x. x \<notin> spine_addrs xs \<Longrightarrow> f x = h_size H1 x" by blast
  define H' where "H' = H1\<lparr>h_size := f\<rparr>"
  have fA: "h_size H' x = h_size H x" if "x \<notin> spine_addrs xs" "x \<noteq> a" for x
    using f(3) that by (simp add: H'_def H1_def)
  have fS: "h_size H' x = h_size H x" if "x \<in> S" "S \<inter> spine_addrs xs = {}" "a \<notin> S" for x S
    using fA that by blast
  have fa: "h_size H' a = of_nat (size A + 1)"
    using f(3) d by (simp add: H'_def H1_def)
  have "shape H' (h_right H a) R"
    by (rule shape_cong[OF v(6)]) (use d vr in \<open>auto simp: H'_def H1_def\<close>)
  moreover have "sized H' R"
    by (rule sized_cong[OF v(8)], erule fS) (use d in \<open>simp_all add: Int_commute\<close>)
  moreover have "rspine H' ref 0 ys"
    by (rule rspine_cong[OF i(7)]) (use d vr in \<open>auto simp: H'_def H1_def\<close>)
  moreover have "ssized H' 0 ys"
    by (rule ssized_cong[OF i(8)], erule fS) (use d in \<open>simp_all add: Int_commute\<close>)
  moreover have "shape H' (h_left H a) A"
    by (rule shape_cong[OF v(5)]) (use d vr in \<open>auto simp: H'_def H1_def\<close>)
  moreover have "sized H' A"
    by (rule sized_cong[OF v(7)], erule fS) (use d in \<open>simp_all add: Int_commute\<close>)
  moreover have "lspine H' ref a xs"
    using lsp by (simp add: H'_def)
  moreover have "ssized H' (size A + 1) xs"
    using f(2) by (simp add: H'_def)
  moreover have "h_left H' a = h_left H a" "h_right H' a = 0" "h_p H' a = ltree"
    "h_key H' = h_key H" "valid_ptr H' ref" "valid_ptr H' a"
    using i(10) v(2) vr(2) by (simp_all add: H'_def H1_def)
  moreover have "k' < key" if "k' \<in> snd ` set (lnodes ((a, k, A) # xs))" for k'
  proof -
    have "k' = k \<or> k' \<in> snd ` set (inorder A) \<or> k' \<in> snd ` set (lnodes xs)"
      using that by (auto simp: image_iff)
    then consider "k' = k" | "k' \<in> snd ` set (inorder A)" | "k' \<in> snd ` set (lnodes xs)" by blast
    then show ?thesis
      by cases (use key i(15) less_trans[OF sorted_node(2)[OF i(14)] key] in blast)+
  qed
  ultimately have "splay_inv key ref H' (h_right H a) a rtree ((a, k, A) # xs) R ys"
    using i(6,9,11-14,16) R v(4,7) fa unfolding splay_inv_def all_nodes_link_left by simp
  moreover have "frame (footprint ref xs (Node A (a, k) R) ys) H H'"
    using spine_top_in[of ref xs] i(6) fA unfolding frame_def footprint_alt
    by (auto simp: H'_def H1_def)
  ultimately show ?thesis
    using run f(1) i(6) by (auto simp: H'_def)
qed

subsection \<open>One round of the loop, and the loop\<close>

lemma splay_inv_frame:
  assumes inv: "splay_inv key ref H root ltree rtree xs T ys"
    and T': "shape H' root' T'" "sized H' T'" "inorder T' = inorder T"
    and fr: "frame (addrs T) H H'"
  shows "splay_inv key ref H' root' ltree rtree xs T' ys"
proof -
  note i = splay_invD[OF inv]
  note d = distinct_parts[OF i(12)]
  have "T' \<noteq> Leaf" using i(1) T'(3) by auto
  moreover have "lspine H' ref 0 xs"
    by (rule lspine_cong[OF i(4)]) (use fr d(2,4) in \<open>auto simp: frame_def\<close>)
  moreover have "rspine H' ref 0 ys"
    by (rule rspine_cong[OF i(7)]) (use fr d(2,6) in \<open>auto simp: frame_def\<close>)
  moreover have "ssized H' 0 xs"
    by (rule ssized_cong[OF i(5)]) (use fr d(4) in \<open>auto simp: frame_def\<close>)
  moreover have "ssized H' 0 ys"
    by (rule ssized_cong[OF i(8)]) (use fr d(6) in \<open>auto simp: frame_def\<close>)
  moreover have "valid_ptr H' ref" "h_key H' ref = 0"
    using i(10,11) fr frame_valid[OF fr] by (simp_all add: frame_def)
  ultimately show ?thesis
    using i T' unfolding splay_inv_def all_nodes_def by simp
qed

definition stopped :: "u64 \<Rightarrow> atree \<Rightarrow> bool" where
  "stopped key T = (case T of Leaf \<Rightarrow> False
     | Node l (a, k) r \<Rightarrow> key = k \<or> (key < k \<and> l = Leaf) \<or> (k < key \<and> r = Leaf))"

definition body_post where
  "body_post key ref H xs T ys res \<longleftrightarrow>
    (\<exists>stop root ltree rtree H' xs' T' ys'. res = Some (stop, root, ltree, rtree, H')
      \<and> splay_inv key ref H' root ltree rtree xs' T' ys'
      \<and> all_nodes xs' T' ys' = all_nodes xs T ys
      \<and> frame (footprint ref xs T ys) H H'
      \<and> (if stop then stopped key T' else size T' < size T))"

lemma body_stop:
  assumes "splay_inv key ref H' root ltree rtree xs T' ys" "inorder T' = inorder T"
    and "frame (footprint ref xs T ys) H H'" "stopped key T'"
  shows "body_post key ref H xs T ys (Some (True, root, ltree, rtree, H'))"
  using assms unfolding body_post_def by (fastforce simp: all_nodes_def)

lemma body_link_right:
  assumes inv: "splay_inv key ref H' root ltree rtree xs (Node L (a, k) C) ys"
    and "inorder (Node L (a, k) C) = inorder T" "size L < size T"
    and fr: "frame (footprint ref xs T ys) H H'" and "key < k" "L \<noteq> Leaf"
  shows "body_post key ref H xs T ys (do {
           (root, rtree, H) \<leftarrow> link_right root rtree H';
           Some (False, root, ltree, rtree, H) })"
proof -
  obtain root'' H'' where r: "link_right root rtree H' = Some (root'', a, H'')"
    "splay_inv key ref H'' root'' ltree a xs L ((a, k, C) # ys)"
    "frame (footprint ref xs (Node L (a, k) C) ys) H' H''"
    using link_right_ok[OF inv assms(5,6)] by blast
  have nodes: "all_nodes xs (Node L (a, k) C) ys = all_nodes xs T ys"
    using assms(2) by (simp add: all_nodes_def)
  have "frame (footprint ref xs T ys) H H''"
    using fr r(3) nodes unfolding footprint_def by (auto intro: frame_trans)
  then show ?thesis
    unfolding body_post_def r(1) using r(2) nodes assms(3) all_nodes_link_right
    by (intro exI[of _ False] exI[of _ root''] exI[of _ ltree] exI[of _ a] exI[of _ H'']
        exI[of _ xs] exI[of _ L] exI[of _ "(a, k, C) # ys"]) simp
qed

lemma body_link_left:
  assumes inv: "splay_inv key ref H' root ltree rtree xs (Node A (a, k) R) ys"
    and "inorder (Node A (a, k) R) = inorder T" "size R < size T"
    and fr: "frame (footprint ref xs T ys) H H'" and "k < key" "R \<noteq> Leaf"
  shows "body_post key ref H xs T ys (do {
           (root, ltree, H) \<leftarrow> link_left root ltree H';
           Some (False, root, ltree, rtree, H) })"
proof -
  obtain root'' H'' where r: "link_left root ltree H' = Some (root'', a, H'')"
    "splay_inv key ref H'' root'' a rtree ((a, k, A) # xs) R ys"
    "frame (footprint ref xs (Node A (a, k) R) ys) H' H''"
    using link_left_ok[OF inv assms(5,6)] by blast
  have nodes: "all_nodes xs (Node A (a, k) R) ys = all_nodes xs T ys"
    using assms(2) by (simp add: all_nodes_def)
  have "frame (footprint ref xs T ys) H H''"
    using fr r(3) nodes unfolding footprint_def by (auto intro: frame_trans)
  then show ?thesis
    unfolding body_post_def r(1) using r(2) nodes assms(3) all_nodes_link_left
    by (intro exI[of _ False] exI[of _ root''] exI[of _ a] exI[of _ rtree] exI[of _ H'']
        exI[of _ "(a, k, A) # xs"] exI[of _ R] exI[of _ ys]) simp
qed

lemma splay_body_less:
  assumes inv: "splay_inv key ref H root ltree rtree xs T ys" and T: "T = Node L (root, k) R"
    and key: "key < k" and ne: "L \<noteq> Leaf"
  shows "body_post key ref H xs T ys (splay_body key root ltree rtree H)"
proof -
  note i = splay_invD[OF inv[unfolded T]]
  have v: "valid_ptr H root" "h_key H root = k" "shape H (h_left H root) L" "shape H (h_right H root) R"
    using i(2) by auto
  have dT: "distinct (map fst (inorder T))" using distinct_parts(8)[OF i(12)] T by simp
  have sub: "addrs T \<subseteq> footprint ref xs T ys" by (auto simp: footprint_alt)
  have L0: "h_left H root = 0 \<longleftrightarrow> L = Leaf" using v(3) by (cases L) (auto simp: valid_ptr_def)
  note ls = key ne
  obtain A b kb B where L: "L = Node A (b, kb) B" "h_left H root = b"
    using shape_rootE[OF v(3) ne] by metis
  have vb: "valid_ptr H b" "h_key H b = kb" using v(3) L by auto
  show ?thesis
  proof (cases "key < kb")
    case False
    have "splay_body key root ltree rtree H = do {
         (root, rtree, H) \<leftarrow> link_right root rtree H;
         Some (False, root, ltree, rtree, H) }"
      using False ls v vb L L0 by (simp add: splay_body_def heap_step)
    then show ?thesis using body_link_right[of key ref H root ltree rtree xs L root k R ys T H] inv T ls
      by simp
  next
    case True
    obtain H' where r: "RightRotate root H = Some (b, H')"
      "shape H' b (Node A (b, kb) (Node B (root, k) R))"
      "sized H' (Node A (b, kb) (Node B (root, k) R))" "frame (addrs T) H H'"
      using RightRotate_ok[of H root A b kb B root k R] i(2,3) dT T L by auto
    have inv': "splay_inv key ref H' b ltree rtree xs (Node A (b, kb) (Node B (root, k) R)) ys"
      by (rule splay_inv_frame[OF inv r(2,3) _ r(4)]) (simp add: T L)
    have b: "valid_ptr H' b" "shape H' (h_left H' b) A" using r(2) by auto
    have A0: "h_left H' b = 0 \<longleftrightarrow> A = Leaf" using b(2) by (cases A) (auto simp: valid_ptr_def)
    have body: "splay_body key root ltree rtree H =
      (if A = Leaf then Some (True, b, ltree, rtree, H')
       else do { (root, rtree, H) \<leftarrow> link_right b rtree H'; Some (False, root, ltree, rtree, H) })"
      using True ls v vb L L0 r(1) b A0 by (simp add: splay_body_def heap_step)
    show ?thesis
    proof (cases "A = Leaf")
      case True': True
      show ?thesis unfolding body using True True'
        by (simp, intro body_stop[OF inv'] frame_mono[OF r(4) sub]) (simp_all add: T L stopped_def)
    next
      case False
      show ?thesis unfolding body using False
        by (simp, intro body_link_right[OF inv' _ _ frame_mono[OF r(4) sub] True False])
           (simp_all add: T L)
    qed
  qed
qed

lemma splay_body_greater:
  assumes inv: "splay_inv key ref H root ltree rtree xs T ys" and T: "T = Node L (root, k) R"
    and key: "k < key" and ne: "R \<noteq> Leaf"
  shows "body_post key ref H xs T ys (splay_body key root ltree rtree H)"
proof -
  note i = splay_invD[OF inv[unfolded T]]
  have v: "valid_ptr H root" "h_key H root = k" "shape H (h_left H root) L" "shape H (h_right H root) R"
    using i(2) by auto
  have dT: "distinct (map fst (inorder T))" using distinct_parts(8)[OF i(12)] T by simp
  have sub: "addrs T \<subseteq> footprint ref xs T ys" by (auto simp: footprint_alt)
  have R0: "h_right H root = 0 \<longleftrightarrow> R = Leaf" using v(4) by (cases R) (auto simp: valid_ptr_def)
  note ls = key ne less_imp_not_less[OF key]
  obtain B b kb C where R: "R = Node B (b, kb) C" "h_right H root = b"
    using shape_rootE[OF v(4) ne] by metis
  have vb: "valid_ptr H b" "h_key H b = kb" using v(4) R by auto
  show ?thesis
  proof (cases "kb < key")
    case False
    have "splay_body key root ltree rtree H = do {
         (root, ltree, H) \<leftarrow> link_left root ltree H;
         Some (False, root, ltree, rtree, H) }"
      using False ls v vb R R0 by (simp add: splay_body_def heap_step)
    then show ?thesis using body_link_left[of key ref H root ltree rtree xs L root k R ys T H] inv T ls
      by simp
  next
    case True
    obtain H' where q: "LeftRotate root H = Some (b, H')"
      "shape H' b (Node (Node L (root, k) B) (b, kb) C)"
      "sized H' (Node (Node L (root, k) B) (b, kb) C)" "frame (addrs T) H H'"
      using LeftRotate_ok[of H root L root k B b kb C] i(2,3) dT T R by auto
    have inv': "splay_inv key ref H' b ltree rtree xs (Node (Node L (root, k) B) (b, kb) C) ys"
      by (rule splay_inv_frame[OF inv q(2,3) _ q(4)]) (simp add: T R)
    have b: "valid_ptr H' b" "shape H' (h_right H' b) C" using q(2) by auto
    have C0: "h_right H' b = 0 \<longleftrightarrow> C = Leaf" using b(2) by (cases C) (auto simp: valid_ptr_def)
    have body: "splay_body key root ltree rtree H =
      (if C = Leaf then Some (True, b, ltree, rtree, H')
       else do { (root, ltree, H) \<leftarrow> link_left b ltree H'; Some (False, root, ltree, rtree, H) })"
      using True ls v vb R R0 q(1) b C0 by (simp add: splay_body_def heap_step)
    show ?thesis
    proof (cases "C = Leaf")
      case True': True
      show ?thesis unfolding body using True True'
        by (simp, intro body_stop[OF inv'] frame_mono[OF q(4) sub]) (simp_all add: T R stopped_def)
    next
      case False
      show ?thesis unfolding body using False
        by (simp, intro body_link_left[OF inv' _ _ frame_mono[OF q(4) sub] True False])
           (simp_all add: T R)
    qed
  qed
qed

lemma splay_body_ok:
  assumes inv: "splay_inv key ref H root ltree rtree xs T ys"
  shows "body_post key ref H xs T ys (splay_body key root ltree rtree H)"
proof -
  note i = splay_invD[OF inv]
  obtain L k R where T: "T = Node L (root, k) R" using i(1,2) by (elim shape_rootE)
  have v: "valid_ptr H root" "h_key H root = k" "shape H (h_left H root) L" "shape H (h_right H root) R"
    using i(2) T by auto
  have dT: "distinct (map fst (inorder T))" using distinct_parts(8)[OF i(12)] .
  have sub: "addrs T \<subseteq> footprint ref xs T ys" by (auto simp: footprint_alt)
  have L0: "h_left H root = 0 \<longleftrightarrow> L = Leaf" using v(3) by (cases L) (auto simp: valid_ptr_def)
  have R0: "h_right H root = 0 \<longleftrightarrow> R = Leaf" using v(4) by (cases R) (auto simp: valid_ptr_def)
  consider (eq) "key = k" | (l0) "key < k" "L = Leaf" | (l) "key < k" "L \<noteq> Leaf"
    | (r0) "k < key" "R = Leaf" | (r) "k < key" "R \<noteq> Leaf"
    by (cases key k rule: linorder_cases) auto
  then show ?thesis
  proof cases
    case eq
    then show ?thesis using v inv T
      by (auto simp: splay_body_def heap_step stopped_def intro!: body_stop)
  next
    case l0
    then show ?thesis using v inv T L0
      by (auto simp: splay_body_def heap_step stopped_def intro!: body_stop)
  next
    case r0
    then show ?thesis using v inv T R0
      by (auto simp: splay_body_def heap_step stopped_def intro!: body_stop)
  qed (use splay_body_less[OF inv T] splay_body_greater[OF inv T] in blast)+
qed

lemma splay_loop_ok:
  assumes "splay_inv key ref H root ltree rtree xs T ys"
  shows "\<exists>root' ltree' rtree' H' xs' T' ys'.
    splay_loop key root ltree rtree H = Some (root', ltree', rtree', H')
    \<and> splay_inv key ref H' root' ltree' rtree' xs' T' ys'
    \<and> stopped key T' \<and> all_nodes xs' T' ys' = all_nodes xs T ys
    \<and> frame (footprint ref xs T ys) H H'"
  using assms
proof (induction "size T" arbitrary: H root ltree rtree xs T ys rule: less_induct)
  case less
  obtain stop root1 ltree1 rtree1 H1 xs1 T1 ys1 where b:
    "splay_body key root ltree rtree H = Some (stop, root1, ltree1, rtree1, H1)"
    "splay_inv key ref H1 root1 ltree1 rtree1 xs1 T1 ys1"
    "all_nodes xs1 T1 ys1 = all_nodes xs T ys"
    "frame (footprint ref xs T ys) H H1"
    "if stop then stopped key T1 else size T1 < size T"
    using splay_body_ok[OF less.prems] unfolding body_post_def by blast
  show ?case
  proof (cases stop)
    case True
    then show ?thesis using b by (subst splay_loop.simps) (simp, blast)
  next
    case False
    then obtain root' ltree' rtree' H' xs' T' ys' where l:
      "splay_loop key root1 ltree1 rtree1 H1 = Some (root', ltree', rtree', H')"
      "splay_inv key ref H' root' ltree' rtree' xs' T' ys'" "stopped key T'"
      "all_nodes xs' T' ys' = all_nodes xs1 T1 ys1"
      "frame (footprint ref xs1 T1 ys1) H1 H'"
      using less.hyps[OF _ b(2)] b(5) by auto
    have "frame (footprint ref xs T ys) H H'"
      using frame_trans[OF b(4)] l(5) b(3) by (simp add: footprint_def)
    then show ?thesis using False b l by (subst splay_loop.simps) (simp, blast)
  qed
qed

end
