(* ===== verification/Splay_Assemble.thy ===== *)
theory Splay_Assemble
  imports Splay_Loop
begin

text \<open>
  The statements after the loop of \<open>Splay\<close>: the children of the last root are hung under the
  two spines, the sizes along the spines are repaired, and the spines become the children of the
  root.  The result is the tree whose in-order sequence is that of the loop invariant.
\<close>

definition asm_inv where
  "asm_inv ref H a k l r xs c1 n1 ys c2 n2 \<longleftrightarrow>
     valid_ptr H a \<and> h_key H a = k
   \<and> shape H (h_left H a) l \<and> sized H l \<and> shape H (h_right H a) r \<and> sized H r
   \<and> lspine H ref c1 xs \<and> ssized H n1 xs \<and> rspine H ref c2 ys \<and> ssized H n2 ys
   \<and> valid_ptr H ref \<and> h_key H ref = 0
   \<and> distinct (ref # map fst (all_nodes xs (Node l (a, k) r) ys))
   \<and> 0 \<notin> snd ` set (all_nodes xs (Node l (a, k) r) ys)"

lemma asm_invD:
  assumes "asm_inv ref H a k l r xs c1 n1 ys c2 n2"
  shows "valid_ptr H a" "h_key H a = k"
   "shape H (h_left H a) l" "sized H l" "shape H (h_right H a) r" "sized H r"
   "lspine H ref c1 xs" "ssized H n1 xs" "rspine H ref c2 ys" "ssized H n2 ys"
   "valid_ptr H ref" "h_key H ref = 0"
   "distinct (ref # map fst (all_nodes xs (Node l (a, k) r) ys))"
   "0 \<notin> snd ` set (all_nodes xs (Node l (a, k) r) ys)"
  using assms unfolding asm_inv_def by blast+

lemma splay_inv_asm:
  assumes "splay_inv key ref H root ltree rtree xs (Node l (a, k) r) ys"
  shows "root = a" "ltree = spine_top ref xs" "rtree = spine_top ref ys"
    "asm_inv ref H a k l r xs 0 0 ys 0 0"
  using assms unfolding splay_inv_def asm_inv_def by auto

definition hung_left :: "heap \<Rightarrow> nat \<Rightarrow> nat \<Rightarrow> heap" where
  "hung_left H lt b = H\<lparr>h_right := (h_right H)(lt := b), h_p := (h_p H)(b := lt)\<rparr>"

lemma ltree_facts:
  assumes inv: "asm_inv ref H a k l r xs c1 n1 ys c2 n2" and lt: "lt = spine_top ref xs"
  shows "valid_ptr H lt" "lt \<noteq> a" "lt \<noteq> 0" "lt \<notin> addrs l" "lt \<notin> addrs r" "lt \<notin> spine_addrs ys"
proof -
  note i = asm_invD[OF inv]
  note d = distinct_split[OF i(13)]
  show "valid_ptr H lt" "lt \<noteq> a" "lt \<noteq> 0" "lt \<notin> addrs l" "lt \<notin> addrs r" "lt \<notin> spine_addrs ys"
    using spine_top_in[of ref xs] i(11) d lspine_valid[OF i(7), of lt]
    by (auto simp: valid_ptr_def lt)
qed

lemma attach_ltree_Leaf:
  assumes inv: "asm_inv ref H a k Leaf r xs 0 0 ys c2 n2"
  shows "\<exists>H'. attach_ltree a (spine_top ref xs) H = Some H'
    \<and> asm_inv ref H' a k Leaf r xs (h_left H' a) 0 ys c2 n2
    \<and> frame (footprint ref xs (Node Leaf (a, k) r) ys) H H'"
proof -
  note i = asm_invD[OF inv]
  note d = distinct_split[OF i(13)]
  define lt where "lt = spine_top ref xs"
  note vl = ltree_facts[OF inv lt_def]
  have l0: "h_left H a = 0" using i(3) by simp
  define H' where "H' = H\<lparr>h_right := (h_right H)(lt := 0)\<rparr>"
  have "attach_ltree a lt H = Some H'"
    using i(1) vl l0 by (simp add: attach_ltree_def heap_step H'_def)
  moreover have "lspine H' ref 0 xs"
    by (rule lspine_relink[OF i(7) d(4,16)]) (auto simp: H'_def lt_def)
  moreover have "rspine H' ref c2 ys"
    by (rule rspine_cong[OF i(9)]) (use vl in \<open>auto simp: H'_def\<close>)
  moreover have "shape H' (h_right H a) r"
    by (rule shape_cong[OF i(5)]) (use vl in \<open>auto simp: H'_def\<close>)
  moreover have "ssized H' 0 xs" "ssized H' n2 ys" "sized H' r" "valid_ptr H' a" "valid_ptr H' ref"
    "h_left H' = h_left H" "h_right H' a = h_right H a" "h_key H' = h_key H"
    using i vl by (simp_all add: H'_def)
  moreover have "frame (footprint ref xs (Node Leaf (a, k) r) ys) H H'"
    using spine_top_in[of ref xs] by (auto simp: frame_def footprint_alt H'_def lt_def)
  ultimately show ?thesis
    using i(2,12-14) l0 unfolding asm_inv_def lt_def by auto
qed

lemma node_facts:
  assumes d: "distinct (ref # map fst (all_nodes xs (Node l (a, k) r) ys))"
    and l: "l = Node A (b, kb) B"
  shows "b \<noteq> ref" "b \<noteq> a" "b \<notin> spine_addrs xs" "b \<notin> spine_addrs ys" "b \<notin> addrs r"
    "b \<notin> addrs A" "b \<notin> addrs B" "addrs A \<inter> addrs B = {}" "distinct (map fst (inorder A))"
  using distinct_split[OF d] distinct_node[OF distinct_node(4)[OF distinct_parts(8)[OF d], unfolded l]]
  by (auto simp: l)

lemma attach_ltree_run:
  assumes inv: "asm_inv ref H a k l r xs 0 0 ys c2 n2" and l: "l = Node A (b, kb) B"
    and lt: "lt = spine_top ref xs"
  shows "\<exists>f. attach_ltree a lt H = Some (hung_left H lt b\<lparr>h_size := f\<rparr>)
    \<and> ssized (hung_left H lt b\<lparr>h_size := f\<rparr>) (size B) ((b, kb, A) # xs)
    \<and> lspine (hung_left H lt b) ref (h_right H b) ((b, kb, A) # xs)
    \<and> (\<forall>x. x \<notin> spine_addrs ((b, kb, A) # xs) \<longrightarrow> f x = h_size H x)"
proof -
  note i = asm_invD[OF inv]
  note d = distinct_split[OF i(13)] and nd = node_facts[OF i(13) l] and vl = ltree_facts[OF inv lt]
  have b: "h_left H a = b" "valid_ptr H b" "h_key H b = kb" "b \<noteq> 0"
      "shape H (h_left H b) A" "shape H (h_right H b) B" "sized H A" "sized H B"
    using i(3,4) l by (auto simp: valid_ptr_def)
  have dx: "b \<noteq> lt" "lt \<notin> addrs A" "addrs A \<inter> spine_addrs xs = {}" "addrs B \<inter> spine_addrs xs = {}"
    using d vl l by auto
  define H1 where "H1 = hung_left H lt b"
  have run: "attach_ltree a lt H = update_sizes_up b H1"
    using i(1) vl b dx by (simp add: attach_ltree_def heap_step H1_def hung_left_def)
  have "shape H1 (h_left H b) A"
    by (rule shape_cong[OF b(5)]) (use dx in \<open>auto simp: H1_def hung_left_def\<close>)
  moreover have "lspine H1 ref b xs"
    by (rule lspine_relink[OF i(7) d(4,16)]) (use dx nd in \<open>auto simp: H1_def hung_left_def lt\<close>)
  ultimately have lsp: "lspine H1 ref (h_right H b) ((b, kb, A) # xs)"
    using b dx by (simp add: H1_def hung_left_def lt)
  have cn: "h_right H b \<notin> spine_addrs ((b, kb, A) # xs)"
  proof (cases "h_right H b = 0")
    case True
    have "0 \<notin> addrs A" "0 \<notin> spine_addrs xs"
      using shape_valid[OF b(5)] lspine_valid[OF i(7)] by (auto simp: valid_ptr_def)
    then show ?thesis using True b(4) by simp
  next
    case False
    then show ?thesis using shape_root[OF b(6)] nd dx by auto
  qed
  have dn: "distinct (map fst (lnodes ((b, kb, A) # xs)))"
    using d(16) nd(3,6,9) dx(3) by (auto simp: addrs_inorder simp flip: spine_addrs_nodes(1))
  have zn: "0 \<notin> snd ` set (lnodes ((b, kb, A) # xs))"
    using i(14) by (simp add: all_nodes_def l image_Un)
  have ss: "sides_sized H1 ((b, kb, A) # xs)"
    and sB: "psz (h_size H1) (h_right H b) = of_nat (size B)"
    and v1: "valid_ptr H1 ref" "h_key H1 ref = 0" "h_right H b \<noteq> 0 \<longrightarrow> valid_ptr H1 (h_right H b)"
    using b(7) ssized_sides[OF i(8)] psz_shape[OF b(6,8)] i(11,12) shape_child_valid[OF b(6)]
    by (simp_all add: H1_def hung_left_def sides_sized_def)
  obtain f where "update_sizes_up (spine_top ref ((b, kb, A) # xs)) H1 = Some (H1\<lparr>h_size := f\<rparr>)"
      "ssized (H1\<lparr>h_size := f\<rparr>) (size B) ((b, kb, A) # xs)"
      "\<And>x. x \<notin> spine_addrs ((b, kb, A) # xs) \<Longrightarrow> f x = h_size H1 x"
    using walk_left[OF lsp v1(1,2) sB v1(3) cn dn zn ss] by blast
  moreover have "h_size H1 = h_size H" by (simp add: H1_def hung_left_def)
  ultimately show ?thesis
    unfolding H1_def[symmetric] using lsp run by (intro exI[of _ f]) simp
qed

lemma attach_ltree_ok:
  assumes inv: "asm_inv ref H a k l r xs 0 0 ys c2 n2"
  shows "\<exists>H'. attach_ltree a (spine_top ref xs) H = Some H'
    \<and> asm_inv ref H' a k l r xs (h_left H' a) (size l) ys c2 n2
    \<and> frame (footprint ref xs (Node l (a, k) r) ys) H H'"
proof (cases l)
  case Leaf
  then show ?thesis using attach_ltree_Leaf inv by auto
next
  case (Node A y B)
  then obtain b kb where l: "l = Node A (b, kb) B" by (cases y) auto
  note i = asm_invD[OF inv]
  define lt where "lt = spine_top ref xs"
  note d = distinct_split[OF i(13)] and nd = node_facts[OF i(13) l] and vl = ltree_facts[OF inv lt_def]
  have b: "h_left H a = b" "valid_ptr H b" "h_key H b = kb" "shape H (h_right H b) B" "sized H B"
    using i(3,4) l by auto
  obtain f where f: "attach_ltree a lt H = Some (hung_left H lt b\<lparr>h_size := f\<rparr>)"
    "ssized (hung_left H lt b\<lparr>h_size := f\<rparr>) (size B) ((b, kb, A) # xs)"
    "lspine (hung_left H lt b) ref (h_right H b) ((b, kb, A) # xs)"
    "\<And>x. x \<notin> spine_addrs ((b, kb, A) # xs) \<Longrightarrow> f x = h_size H x"
    using attach_ltree_run[OF inv l lt_def] by blast
  define H' where "H' = hung_left H lt b\<lparr>h_size := f\<rparr>"
  have fS: "h_size H' x = h_size H x"
    if "x \<in> S" "S \<inter> spine_addrs xs = {}" "b \<notin> S" "S \<inter> addrs A = {}" for x S
    using f(4)[of x] that by (auto simp: H'_def hung_left_def)
  have "shape H' (h_right H b) B"
    by (rule shape_cong[OF b(4)]) (use vl nd l in \<open>auto simp: H'_def hung_left_def\<close>)
  then have "shape H' b l" "lspine H' ref b xs"
    using f(3) by (simp_all add: l H'_def)
  moreover have "shape H' (h_right H a) r"
    by (rule shape_cong[OF i(5)]) (use vl nd in \<open>auto simp: H'_def hung_left_def\<close>)
  moreover have "rspine H' ref c2 ys"
    by (rule rspine_cong[OF i(9)]) (use vl nd in \<open>auto simp: H'_def hung_left_def\<close>)
  moreover have "sized H' B"
    by (rule sized_cong[OF b(5)], erule fS) (use nd d(11) l in \<open>auto simp: Int_commute\<close>)
  then have "sized H' l" "ssized H' (size l) xs"
    using f(2) by (simp_all add: l H'_def ac_simps)
  moreover have "sized H' r"
    by (rule sized_cong[OF i(6)], erule fS) (use d l nd in \<open>auto simp: Int_commute\<close>)
  moreover have "ssized H' n2 ys"
    by (rule ssized_cong[OF i(10)], erule fS) (use d l nd in \<open>auto simp: Int_commute\<close>)
  moreover have "valid_ptr H' a" "valid_ptr H' ref" "h_left H' a = b" "h_right H' a = h_right H a"
    "h_key H' = h_key H"
    using i(1,11) vl b(1) by (simp_all add: H'_def hung_left_def)
  moreover have "frame (footprint ref xs (Node l (a, k) r) ys) H H'"
    using spine_top_in[of ref xs] f(4)
    by (auto simp: frame_def footprint_alt H'_def hung_left_def lt_def l)
  moreover have "attach_ltree a lt H = Some H'" using f(1) by (simp add: H'_def)
  ultimately show ?thesis
    using i(2,12-14) unfolding asm_inv_def lt_def by (intro exI[of _ H']) simp
qed

definition hung_right :: "heap \<Rightarrow> nat \<Rightarrow> nat \<Rightarrow> heap" where
  "hung_right H rt b = H\<lparr>h_left := (h_left H)(rt := b), h_p := (h_p H)(b := rt)\<rparr>"

lemma rtree_facts:
  assumes inv: "asm_inv ref H a k l r xs c1 n1 ys c2 n2" and rt: "rt = spine_top ref ys"
  shows "valid_ptr H rt" "rt \<noteq> a" "rt \<noteq> 0" "rt \<notin> addrs l" "rt \<notin> addrs r" "rt \<notin> spine_addrs xs"
proof -
  note i = asm_invD[OF inv]
  note d = distinct_split[OF i(13)]
  show "valid_ptr H rt" "rt \<noteq> a" "rt \<noteq> 0" "rt \<notin> addrs l" "rt \<notin> addrs r" "rt \<notin> spine_addrs xs"
    using spine_top_in[of ref ys] i(11) d rspine_valid[OF i(9), of rt]
    by (auto simp: valid_ptr_def rt)
qed

lemma attach_rtree_Leaf:
  assumes inv: "asm_inv ref H a k l Leaf xs c1 n1 ys 0 0"
  shows "\<exists>H'. attach_rtree a (spine_top ref ys) H = Some H'
    \<and> asm_inv ref H' a k l Leaf xs c1 n1 ys (h_right H' a) 0
    \<and> h_left H' a = h_left H a
    \<and> frame (footprint ref xs (Node l (a, k) Leaf) ys) H H'"
proof -
  note i = asm_invD[OF inv]
  note d = distinct_split[OF i(13)]
  define rt where "rt = spine_top ref ys"
  note vr = rtree_facts[OF inv rt_def]
  have r0: "h_right H a = 0" using i(5) by simp
  define H' where "H' = H\<lparr>h_left := (h_left H)(rt := 0)\<rparr>"
  have "attach_rtree a rt H = Some H'"
    using i(1) vr r0 by (simp add: attach_rtree_def heap_step H'_def)
  moreover have "rspine H' ref 0 ys"
    by (rule rspine_relink[OF i(9) d(5,17)]) (auto simp: H'_def rt_def)
  moreover have "lspine H' ref c1 xs"
    by (rule lspine_cong[OF i(7)]) (use vr in \<open>auto simp: H'_def\<close>)
  moreover have "shape H' (h_left H a) l"
    by (rule shape_cong[OF i(3)]) (use vr in \<open>auto simp: H'_def\<close>)
  moreover have "ssized H' 0 ys" "ssized H' n1 xs" "sized H' l" "valid_ptr H' a" "valid_ptr H' ref"
    "h_right H' = h_right H" "h_left H' a = h_left H a" "h_key H' = h_key H"
    using i vr by (simp_all add: H'_def)
  moreover have "frame (footprint ref xs (Node l (a, k) Leaf) ys) H H'"
    using spine_top_in[of ref ys] by (auto simp: frame_def footprint_alt H'_def rt_def)
  ultimately show ?thesis
    using i(2,12-14) r0 unfolding asm_inv_def rt_def by auto
qed

lemma rnode_facts:
  assumes d: "distinct (ref # map fst (all_nodes xs (Node l (a, k) r) ys))"
    and r: "r = Node A (b, kb) B"
  shows "b \<noteq> ref" "b \<noteq> a" "b \<notin> spine_addrs xs" "b \<notin> spine_addrs ys" "b \<notin> addrs l"
    "b \<notin> addrs A" "b \<notin> addrs B" "addrs A \<inter> addrs B = {}" "distinct (map fst (inorder B))"
  using distinct_split[OF d] distinct_node[OF distinct_node(5)[OF distinct_parts(8)[OF d], unfolded r]]
  by (auto simp: r)

lemma attach_rtree_run:
  assumes inv: "asm_inv ref H a k l r xs c1 n1 ys 0 0" and r: "r = Node A (b, kb) B"
    and rt: "rt = spine_top ref ys"
  shows "\<exists>f. attach_rtree a rt H = Some (hung_right H rt b\<lparr>h_size := f\<rparr>)
    \<and> ssized (hung_right H rt b\<lparr>h_size := f\<rparr>) (size A) ((b, kb, B) # ys)
    \<and> rspine (hung_right H rt b) ref (h_left H b) ((b, kb, B) # ys)
    \<and> (\<forall>x. x \<notin> spine_addrs ((b, kb, B) # ys) \<longrightarrow> f x = h_size H x)"
proof -
  note i = asm_invD[OF inv]
  note d = distinct_split[OF i(13)] and nd = rnode_facts[OF i(13) r] and vr = rtree_facts[OF inv rt]
  have b: "h_right H a = b" "valid_ptr H b" "h_key H b = kb" "b \<noteq> 0"
      "shape H (h_left H b) A" "shape H (h_right H b) B" "sized H A" "sized H B"
    using i(5,6) r by (auto simp: valid_ptr_def)
  have dx: "b \<noteq> rt" "rt \<notin> addrs B" "addrs B \<inter> spine_addrs ys = {}" "addrs A \<inter> spine_addrs ys = {}"
    using d vr r by auto
  define H1 where "H1 = hung_right H rt b"
  have run: "attach_rtree a rt H = update_sizes_up b H1"
    using i(1) vr b dx by (simp add: attach_rtree_def heap_step H1_def hung_right_def)
  have "shape H1 (h_right H b) B"
    by (rule shape_cong[OF b(6)]) (use dx in \<open>auto simp: H1_def hung_right_def\<close>)
  moreover have "rspine H1 ref b ys"
    by (rule rspine_relink[OF i(9) d(5,17)]) (use dx nd in \<open>auto simp: H1_def hung_right_def rt\<close>)
  ultimately have rsp: "rspine H1 ref (h_left H b) ((b, kb, B) # ys)"
    using b dx by (simp add: H1_def hung_right_def rt)
  have cn: "h_left H b \<notin> spine_addrs ((b, kb, B) # ys)"
  proof (cases "h_left H b = 0")
    case True
    have "0 \<notin> addrs B" "0 \<notin> spine_addrs ys"
      using shape_valid[OF b(6)] rspine_valid[OF i(9)] by (auto simp: valid_ptr_def)
    then show ?thesis using True b(4) by simp
  next
    case False
    then show ?thesis using shape_root[OF b(5)] nd dx by auto
  qed
  have dn: "distinct (map fst (rnodes ((b, kb, B) # ys)))"
    using d(17) nd(4,7,9) dx(3) by (auto simp: addrs_inorder simp flip: spine_addrs_nodes(2))
  have zn: "0 \<notin> snd ` set (rnodes ((b, kb, B) # ys))"
    using i(14) by (simp add: all_nodes_def r image_Un)
  have ss: "sides_sized H1 ((b, kb, B) # ys)"
    and sA: "psz (h_size H1) (h_left H b) = of_nat (size A)"
    and v1: "valid_ptr H1 ref" "h_key H1 ref = 0" "h_left H b \<noteq> 0 \<longrightarrow> valid_ptr H1 (h_left H b)"
    using b(8) ssized_sides[OF i(10)] psz_shape[OF b(5,7)] i(11,12) shape_child_valid[OF b(5)]
    by (simp_all add: H1_def hung_right_def sides_sized_def)
  obtain f where "update_sizes_up (spine_top ref ((b, kb, B) # ys)) H1 = Some (H1\<lparr>h_size := f\<rparr>)"
      "ssized (H1\<lparr>h_size := f\<rparr>) (size A) ((b, kb, B) # ys)"
      "\<And>x. x \<notin> spine_addrs ((b, kb, B) # ys) \<Longrightarrow> f x = h_size H1 x"
    using walk_right[OF rsp v1(1,2) sA v1(3) cn dn zn ss] by blast
  moreover have "h_size H1 = h_size H" by (simp add: H1_def hung_right_def)
  ultimately show ?thesis
    unfolding H1_def[symmetric] using rsp run by (intro exI[of _ f]) simp
qed

lemma attach_rtree_ok:
  assumes inv: "asm_inv ref H a k l r xs c1 n1 ys 0 0"
  shows "\<exists>H'. attach_rtree a (spine_top ref ys) H = Some H'
    \<and> asm_inv ref H' a k l r xs c1 n1 ys (h_right H' a) (size r)
    \<and> h_left H' a = h_left H a
    \<and> frame (footprint ref xs (Node l (a, k) r) ys) H H'"
proof (cases r)
  case Leaf
  then show ?thesis using attach_rtree_Leaf inv by auto
next
  case (Node A y B)
  then obtain b kb where r: "r = Node A (b, kb) B" by (cases y) auto
  note i = asm_invD[OF inv]
  define rt where "rt = spine_top ref ys"
  note d = distinct_split[OF i(13)] and nd = rnode_facts[OF i(13) r] and vr = rtree_facts[OF inv rt_def]
  have b: "h_right H a = b" "valid_ptr H b" "h_key H b = kb" "shape H (h_left H b) A" "sized H A"
    using i(5,6) r by auto
  obtain f where f: "attach_rtree a rt H = Some (hung_right H rt b\<lparr>h_size := f\<rparr>)"
    "ssized (hung_right H rt b\<lparr>h_size := f\<rparr>) (size A) ((b, kb, B) # ys)"
    "rspine (hung_right H rt b) ref (h_left H b) ((b, kb, B) # ys)"
    "\<And>x. x \<notin> spine_addrs ((b, kb, B) # ys) \<Longrightarrow> f x = h_size H x"
    using attach_rtree_run[OF inv r rt_def] by blast
  define H' where "H' = hung_right H rt b\<lparr>h_size := f\<rparr>"
  have fS: "h_size H' x = h_size H x"
    if "x \<in> S" "S \<inter> spine_addrs ys = {}" "b \<notin> S" "S \<inter> addrs B = {}" for x S
    using f(4)[of x] that by (auto simp: H'_def hung_right_def)
  have "shape H' (h_left H b) A"
    by (rule shape_cong[OF b(4)]) (use vr nd r in \<open>auto simp: H'_def hung_right_def\<close>)
  then have "shape H' b r" "rspine H' ref b ys"
    using f(3) by (simp_all add: r H'_def)
  moreover have "shape H' (h_left H a) l"
    by (rule shape_cong[OF i(3)]) (use vr nd in \<open>auto simp: H'_def hung_right_def\<close>)
  moreover have "lspine H' ref c1 xs"
    by (rule lspine_cong[OF i(7)]) (use vr nd in \<open>auto simp: H'_def hung_right_def\<close>)
  moreover have "sized H' A"
    by (rule sized_cong[OF b(5)], erule fS) (use nd d(14) r in \<open>auto simp: Int_commute\<close>)
  then have "sized H' r" "ssized H' (size r) ys"
    using f(2) by (simp_all add: r H'_def ac_simps)
  moreover have "sized H' l"
    by (rule sized_cong[OF i(4)], erule fS) (use d r nd in \<open>auto simp: Int_commute\<close>)
  moreover have "ssized H' n1 xs"
    by (rule ssized_cong[OF i(8)], erule fS) (use d r nd in \<open>auto simp: Int_commute\<close>)
  moreover have "valid_ptr H' a" "valid_ptr H' ref" "h_right H' a = b" "h_left H' a = h_left H a"
    "h_key H' = h_key H"
    using i(1,11) vr b(1) by (simp_all add: H'_def hung_right_def)
  moreover have "frame (footprint ref xs (Node l (a, k) r) ys) H H'"
    using spine_top_in[of ref ys] f(4)
    by (auto simp: frame_def footprint_alt H'_def hung_right_def rt_def r)
  moreover have "attach_rtree a rt H = Some H'" using f(1) by (simp add: H'_def)
  ultimately show ?thesis
    using i(2,12-14) unfolding asm_inv_def rt_def by (intro exI[of _ H']) simp
qed

lemma assemble_root_ok:
  assumes inv: "asm_inv ref H a k l r xs (h_left H a) (size l) ys (h_right H a) (size r)"
  shows "\<exists>H'. assemble_root ref a H = Some H'
    \<and> shape H' a (Node (lbuild xs l) (a, k) (rbuild ys r))
    \<and> sized H' (Node (lbuild xs l) (a, k) (rbuild ys r))
    \<and> frame (footprint ref xs (Node l (a, k) r) ys) H H'"
proof -
  note i = asm_invD[OF inv]
  note d = distinct_split[OF i(13)]
  let ?L = "lbuild xs l" and ?R = "rbuild ys r"
  have sh: "shape H (h_right H ref) ?L" "shape H (h_left H ref) ?R"
    using lspine_build[OF i(7,3)] rspine_build[OF i(9,5)] by auto
  have sz: "sized H ?L" "sized H ?R" using ssized_lbuild[OF i(8,4)] ssized_rbuild[OF i(10,6)] by auto
  have ad: "addrs ?L = spine_addrs xs \<union> addrs l" "addrs ?R = addrs r \<union> spine_addrs ys"
    by (auto simp: addrs_inorder inorder_build image_Un spine_addrs_nodes)
  have na: "a \<notin> addrs ?L" "a \<notin> addrs ?R" "a \<noteq> ref" "a \<noteq> 0"
    using d(1,6-9) i(1) ad by (auto simp: valid_ptr_def)
  have ne: "h_right H ref \<noteq> a" "h_left H ref \<noteq> a"
    using sh na shape_root by metis+
  define H' where "H' = H\<lparr>h_left := (h_left H)(a := h_right H ref), h_right := (h_right H)(a := h_left H ref),
    h_p := adopted (h_left H ref) a (adopted (h_right H ref) a ((h_p H)(a := 0))),
    h_size := (h_size H)(a := 1 + psz (h_size H) (h_right H ref) + psz (h_size H) (h_left H ref))\<rparr>"
  have "assemble_root ref a H = Some H'"
    using i(1,11) na ne sh[THEN shape_child_valid]
    by (simp add: assemble_root_def heap_step H'_def)
  moreover have "shape H' (h_right H ref) ?L"
    by (rule shape_cong[OF sh(1)]) (use na in \<open>auto simp: H'_def\<close>)
  moreover have "shape H' (h_left H ref) ?R"
    by (rule shape_cong[OF sh(2)]) (use na in \<open>auto simp: H'_def\<close>)
  moreover have "sized H' ?L" by (rule sized_cong[OF sz(1)]) (use na in \<open>auto simp: H'_def\<close>)
  moreover have "sized H' ?R" by (rule sized_cong[OF sz(2)]) (use na in \<open>auto simp: H'_def\<close>)
  moreover have "frame (footprint ref xs (Node l (a, k) r) ys) H H'"
    using shape_root[OF sh(1)] shape_root[OF sh(2)] ad
    by (auto simp: frame_def footprint_alt H'_def adopted_def)
  moreover have "h_left H' a = h_right H ref" "h_right H' a = h_left H ref" "valid_ptr H' a"
    "h_key H' a = k" "h_size H' a = of_nat (size ?L + size ?R + 1)"
    using i(1,2) psz_shape[OF sh(1) sz(1)] psz_shape[OF sh(2) sz(2)] by (simp_all add: H'_def)
  ultimately show ?thesis by simp
qed

lemma splay_assemble_ok:
  assumes inv: "splay_inv key ref H root ltree rtree xs (Node l (a, k) r) ys"
  shows "\<exists>H'. splay_assemble ref root ltree rtree H = Some H'
    \<and> shape H' a (Node (lbuild xs l) (a, k) (rbuild ys r))
    \<and> sized H' (Node (lbuild xs l) (a, k) (rbuild ys r))
    \<and> frame (footprint ref xs (Node l (a, k) r) ys) H H'"
proof -
  note s = splay_inv_asm[OF inv]
  obtain H1 where 1: "attach_ltree a ltree H = Some H1"
    "asm_inv ref H1 a k l r xs (h_left H1 a) (size l) ys 0 0"
    "frame (footprint ref xs (Node l (a, k) r) ys) H H1"
    using attach_ltree_ok[OF s(4)] s(2) by blast
  obtain H2 where 2: "attach_rtree a rtree H1 = Some H2"
    "asm_inv ref H2 a k l r xs (h_left H2 a) (size l) ys (h_right H2 a) (size r)"
    "frame (footprint ref xs (Node l (a, k) r) ys) H1 H2"
    using attach_rtree_ok[OF 1(2)] s(3) by auto
  obtain H3 where 3: "assemble_root ref a H2 = Some H3"
    "shape H3 a (Node (lbuild xs l) (a, k) (rbuild ys r))"
    "sized H3 (Node (lbuild xs l) (a, k) (rbuild ys r))"
    "frame (footprint ref xs (Node l (a, k) r) ys) H2 H3"
    using assemble_root_ok[OF 2(2)] by blast
  have "frame (footprint ref xs (Node l (a, k) r) ys) H H3"
    using frame_trans[OF frame_trans[OF 1(3) 2(3)] 3(4)] .
  then show ?thesis using 1(1) 2(1) 3(1-3) s(1) by (simp add: splay_assemble_def)
qed

end
