(* ===== verification/Splay_Correct.thy ===== *)
theory Splay_Correct
  imports Splay_Assemble
begin

text \<open>
  The contracts of the operations of \<open>library/splay.cc\<close> on heaps that hold a search tree:
  \<open>rep H root t\<close> says that the heap \<open>H\<close> holds the tree \<open>t\<close> at address \<open>root\<close>, with right parent
  pointers, right subtree sizes, keys in order, and no node that occurs twice.  Each contract
  says that the operation returns (no null or dangling pointer, no endless loop), which tree it
  leaves, and that it neither leaks a node nor writes to one that is not in the tree.
\<close>

subsection \<open>Heaps that hold a tree\<close>

definition wf_heap :: "heap \<Rightarrow> bool" where
  "wf_heap H \<longleftrightarrow> 0 < h_next H \<and> (\<forall>x. h_alloc H x \<longrightarrow> x < h_next H)"

definition rep :: "heap \<Rightarrow> nat \<Rightarrow> atree \<Rightarrow> bool" where
  "rep H root t \<longleftrightarrow> wf_heap H \<and> shape H root t \<and> sized H t \<and> distinct (map fst (inorder t))
     \<and> sorted_wrt (<) (map snd (inorder t)) \<and> 0 \<notin> keys t"

definition heap_step_frame :: "nat set \<Rightarrow> heap \<Rightarrow> nat set \<Rightarrow> heap \<Rightarrow> bool" where
  "heap_step_frame S H S' H' \<longleftrightarrow>
     (\<forall>x. h_alloc H' x \<longleftrightarrow> h_alloc H x \<and> x \<notin> S \<or> x \<in> S')
   \<and> (\<forall>x \<in> S' - S. \<not> h_alloc H x)
   \<and> (\<forall>x. h_alloc H x \<and> x \<notin> S \<longrightarrow> h_key H' x = h_key H x \<and> h_size H' x = h_size H x
        \<and> h_left H' x = h_left H x \<and> h_right H' x = h_right H x \<and> h_p H' x = h_p H x)"

definition partitioned :: "u64 \<Rightarrow> atree \<Rightarrow> bool" where
  "partitioned key t = (case t of Leaf \<Rightarrow> True
     | Node l (a, k) r \<Rightarrow> (\<forall>x \<in> keys l. x < key) \<and> (\<forall>x \<in> keys r. key < x))"

lemma heap_step_frame_trans:
  assumes "heap_step_frame S H S' H'" "heap_step_frame S' H' S'' H''"
  shows "heap_step_frame S H S'' H''"
  using assms unfolding heap_step_frame_def by (metis (no_types, lifting) Diff_iff)

lemma repD:
  assumes "rep H root t"
  shows "wf_heap H" "shape H root t" "sized H t" "distinct (map fst (inorder t))"
    "sorted_wrt (<) (map snd (inorder t))" "0 \<notin> keys t"
  using assms by (auto simp: rep_def)

lemma rep_empty: "rep empty_heap 0 Leaf"
  by (simp add: rep_def wf_heap_def empty_heap_def)

lemma rep_alloc: "rep H root t \<Longrightarrow> x \<in> addrs t \<Longrightarrow> h_alloc H x"
  using shape_valid by (auto simp: rep_def valid_ptr_def)

lemma fresh_not_alloc: "wf_heap H \<Longrightarrow> \<not> h_alloc H (h_next H)"
  by (auto simp: wf_heap_def)

text \<open>The local node of \<open>Splay\<close>: \<open>tree ref[1]; CleanNode(ref,0);\<close>.\<close>

definition with_ref :: "u64 \<Rightarrow> heap \<Rightarrow> heap" where
  "with_ref k H = (let n = h_next H in H\<lparr>h_alloc := (h_alloc H)(n := True), h_next := Suc n,
     h_key := (h_key H)(n := k), h_size := (h_size H)(n := 1), h_p := (h_p H)(n := 0),
     h_left := (h_left H)(n := 0), h_right := (h_right H)(n := 0)\<rparr>)"

lemma valid_with_ref: "wf_heap H \<Longrightarrow> valid_ptr (with_ref k H) (h_next H)"
  by (simp add: with_ref_def valid_ptr_def Let_def wf_heap_def)

lemma NewNode_ok: "wf_heap H \<Longrightarrow> NewNode k H = Some (h_next H, with_ref k H)"
  by (simp add: NewNode_def new_addr_def heap_step valid_ptr_def wf_heap_def with_ref_def Let_def)

lemma CleanNode_new:
  "wf_heap H \<Longrightarrow>
    CleanNode (h_next H) k (H\<lparr>h_alloc := (h_alloc H)(h_next H := True), h_next := Suc (h_next H)\<rparr>)
    = Some (with_ref k H)"
  by (simp add: CleanNode_def heap_step valid_ptr_def with_ref_def Let_def wf_heap_def)

lemma with_ref_fields:
  "h_next (with_ref k H) = Suc (h_next H)" "h_alloc (with_ref k H) = (h_alloc H)(h_next H := True)"
  "h_key (with_ref k H) = (h_key H)(h_next H := k)" "h_size (with_ref k H) = (h_size H)(h_next H := 1)"
  "h_left (with_ref k H) = (h_left H)(h_next H := 0)" "h_right (with_ref k H) = (h_right H)(h_next H := 0)"
  "h_p (with_ref k H) = (h_p H)(h_next H := 0)"
  by (simp_all add: with_ref_def Let_def)

lemma with_ref_shape:
  assumes "shape H q t" "wf_heap H" shows "shape (with_ref k H) q t"
proof (rule shape_cong[OF assms(1)])
  fix x assume "x \<in> addrs t"
  then have "x \<noteq> h_next H" using shape_valid[OF assms(1)] fresh_not_alloc[OF assms(2)]
    by (auto simp: valid_ptr_def)
  then show "h_alloc (with_ref k H) x = h_alloc H x \<and> h_key (with_ref k H) x = h_key H x
      \<and> h_left (with_ref k H) x = h_left H x \<and> h_right (with_ref k H) x = h_right H x"
    by (simp add: with_ref_fields)
qed

lemma with_ref_sized:
  assumes "sized H t" "shape H q t" "wf_heap H" shows "sized (with_ref k H) t"
proof (rule sized_cong[OF assms(1)])
  fix x assume "x \<in> addrs t"
  then have "x \<noteq> h_next H" using shape_valid[OF assms(2)] fresh_not_alloc[OF assms(3)]
    by (auto simp: valid_ptr_def)
  then show "h_size (with_ref k H) x = h_size H x" by (simp add: with_ref_fields)
qed

lemma splay_inv_init:
  assumes r: "rep H root t" and t: "t \<noteq> Leaf"
  shows "splay_inv key (h_next H) (with_ref 0 H) root (h_next H) (h_next H) [] t []"
proof -
  note d = repD[OF r]
  have "h_next H \<notin> addrs t" using rep_alloc[OF r] fresh_not_alloc[OF d(1)] by blast
  then show ?thesis
    using d t with_ref_shape[OF d(2,1)] with_ref_sized[OF d(3,2,1)] valid_with_ref[OF d(1)]
    unfolding splay_inv_def
    by (simp add: with_ref_fields all_nodes_def addrs_inorder keys_inorder)
qed

lemma stopped_partitioned:
  assumes inv: "splay_inv key ref H root ltree rtree xs (Node l (a, k) r) ys"
    and st: "stopped key (Node l (a, k) r)"
  shows "partitioned key (Node (lbuild xs l) (a, k) (rbuild ys r))"
proof -
  note i = splay_invD[OF inv]
  note s = sorted_node[OF i(14)]
  have l: "x < key" if "x \<in> snd ` set (inorder l)" for x
    using st s(2)[OF that] that by (auto simp: stopped_def)
  have r: "key < x" if "x \<in> snd ` set (inorder r)" for x
    using st s(3)[OF that] that by (auto simp: stopped_def)
  have k: "keys (lbuild xs l) = snd ` set (lnodes xs) \<union> snd ` set (inorder l)"
    "keys (rbuild ys r) = snd ` set (inorder r) \<union> snd ` set (rnodes ys)"
    by (simp_all add: keys_inorder inorder_build image_Un del: set_inorder)
  then have "x < key" if "x \<in> keys (lbuild xs l)" for x
    using that l i(15) by (metis UnE)
  moreover have "key < x" if "x \<in> keys (rbuild ys r)" for x
    using that k r i(16) by (metis UnE)
  ultimately show ?thesis by (simp add: partitioned_def)
qed

text \<open>
  The contract of \<open>Splay\<close>: on a heap that holds a search tree it returns; the tree at the new
  root has the same nodes in the same order; the root splits the other keys at \<open>key\<close>.
\<close>

lemma Splay_ok:
  assumes r: "rep H root t"
  shows "\<exists>root' H' t'. Splay key root H = Some (root', H') \<and> rep H' root' t'
    \<and> inorder t' = inorder t \<and> partitioned key t'
    \<and> heap_step_frame (addrs t) H (addrs t) H'"
proof (cases "t = Leaf")
  case True
  then have "root = 0" using repD(2)[OF r] by simp
  then show ?thesis using r True
    by (intro exI[of _ 0] exI[of _ H] exI[of _ Leaf])
       (auto simp: Splay_def partitioned_def heap_step_frame_def)
next
  case False
  note d = repD[OF r]
  define n where "n = h_next H"
  define H0 where "H0 = with_ref 0 H"
  have root: "root \<noteq> 0" using False d(2) shape_0 by metis
  obtain root1 lt rt H1 xs T ys where 1: "splay_loop key root n n H0 = Some (root1, lt, rt, H1)"
    "splay_inv key n H1 root1 lt rt xs T ys" "stopped key T"
    "all_nodes xs T ys = inorder t" "frame (footprint n [] t []) H0 H1"
    using splay_loop_ok[OF splay_inv_init[OF r False, of key]] unfolding n_def H0_def
    by (auto simp: all_nodes_def)
  obtain l a k q where T: "T = Node l (a, k) q" using 1(3) by (cases T) (auto simp: stopped_def)
  define t' where "t' = Node (lbuild xs l) (a, k) (rbuild ys q)"
  obtain H2 where 2: "splay_assemble n root1 lt rt H1 = Some H2" "shape H2 a t'" "sized H2 t'"
    "frame (footprint n xs T ys) H1 H2"
    using splay_assemble_ok[OF 1(2)[unfolded T]] unfolding t'_def T by blast
  have a: "root1 = a" using splay_inv_asm(1)[OF 1(2)[unfolded T]] .
  have ino: "inorder t' = inorder t"
    using 1(4) by (simp add: t'_def T all_nodes_def inorder_build)
  have ad: "addrs t' = addrs t" using ino by (simp add: addrs_inorder)
  have fp: "footprint n [] t [] = insert n (addrs t)" "footprint n xs T ys = insert n (addrs t)"
    using 1(4) by (simp_all add: footprint_def addrs_inorder all_nodes_def)
  have fr: "frame (insert n (addrs t)) H0 H2" using frame_trans 1(5) 2(4) fp by metis
  have n: "\<not> h_alloc H n" "n \<noteq> 0" using fresh_not_alloc[OF d(1)] d(1) by (auto simp: n_def wf_heap_def)
  have nt: "n \<notin> addrs t" using rep_alloc[OF r] n(1) by blast
  define H3 where "H3 = H2\<lparr>h_alloc := (h_alloc H2)(n := False)\<rparr>"
  have "valid_ptr H2 n" using frame_valid[OF fr] valid_with_ref[OF d(1)] by (simp add: H0_def n_def)
  then have run: "Splay key root H = Some (a, H3)"
    using root 1(1) 2(1) a unfolding Splay_def new_addr_def
    by (simp add: CleanNode_new[OF d(1)] delete_addr_def H3_def H0_def n_def)
  have al: "h_alloc H3 = h_alloc H" "h_next H3 = Suc n"
    using fr n(1) unfolding frame_def H0_def n_def by (auto simp: H3_def with_ref_fields n_def fun_eq_iff)
  have "shape H3 a t'" by (rule shape_cong[OF 2(2)]) (use nt ad in \<open>auto simp: H3_def\<close>)
  then have "rep H3 a t'"
    using d 2(3) al ino unfolding rep_def keys_inorder
    by (auto simp: H3_def wf_heap_def n_def)
  moreover have "heap_step_frame (addrs t) H (addrs t) H3"
    using fr al(1) rep_alloc[OF r] n(1) unfolding heap_step_frame_def frame_def
    by (auto simp: H3_def H0_def with_ref_fields n_def[symmetric])
  moreover have "partitioned key t'"
    using stopped_partitioned[OF 1(2)[unfolded T] 1(3)[unfolded T]] by (simp add: t'_def)
  ultimately show ?thesis using run ino by blast
qed

subsection \<open>Insert\<close>

definition loose :: "heap \<Rightarrow> nat \<Rightarrow> u64 \<Rightarrow> bool" where
  "loose H n key \<longleftrightarrow> valid_ptr H n \<and> h_key H n = key \<and> h_size H n = 1 \<and> h_left H n = 0 \<and> h_right H n = 0"

lemma insert_below_ok:
  assumes sh: "shape H a (Node l (a, k) r)" and sz: "sized H (Node l (a, k) r)"
    and d: "distinct (map fst (inorder (Node l (a, k) r)))"
    and n: "loose H n key" "n \<notin> addrs (Node l (a, k) r)"
  shows "\<exists>H'. insert_below n a H = Some (n, H')
    \<and> shape H' n (Node l (n, key) (Node Leaf (a, k) r))
    \<and> sized H' (Node l (n, key) (Node Leaf (a, k) r))
    \<and> frame (insert n (addrs (Node l (a, k) r))) H H'"
proof -
  have v: "valid_ptr H a" "valid_ptr H n" "a \<noteq> 0" "n \<noteq> 0" "h_key H a = k" "h_key H n = key"
    "h_left H n = 0" "h_right H n = 0"
    using sh n by (auto simp: valid_ptr_def loose_def)
  have shs: "shape H (h_left H a) l" "shape H (h_right H a) r" using sh by auto
  note cv = shs[THEN shape_child_valid]
  have szs: "sized H l" "sized H r" using sz by auto
  note psz = psz_shape[OF shs(1) szs(1)] psz_shape[OF shs(2) szs(2)]
  have na: "n \<noteq> a" "n \<notin> addrs l" "n \<notin> addrs r" "a \<notin> addrs l" "a \<notin> addrs r"
    using d n by (auto simp: addrs_inorder)
  have ne: "h_left H a \<noteq> a" "h_left H a \<noteq> n" "h_right H a \<noteq> a" "h_right H a \<noteq> n"
    using shs na v shape_root by metis+
  define H' where "H' = H\<lparr>h_left := (h_left H)(n := h_left H a, a := 0), h_right := (h_right H)(n := a),
     h_p := (adopted (h_left H a) n (h_p H))(a := n),
     h_size := (h_size H)(n := h_size H a + 1, a := h_size H a - psz (h_size H) (h_left H a))\<rparr>"
  have run: "insert_below n a H = Some (n, H')"
    using v na ne cv
    by (auto simp: insert_below_def heap_step H'_def psz_def adopted_def fun_upd_twist)
  have "shape H' (h_left H a) l" by (rule shape_cong[OF shs(1)]) (use na in \<open>auto simp: H'_def\<close>)
  moreover have "shape H' (h_right H a) r" by (rule shape_cong[OF shs(2)]) (use na in \<open>auto simp: H'_def\<close>)
  moreover have "sized H' l" by (rule sized_cong[OF szs(1)]) (use na in \<open>auto simp: H'_def\<close>)
  moreover have "sized H' r" by (rule sized_cong[OF szs(2)]) (use na in \<open>auto simp: H'_def\<close>)
  moreover have "frame (insert n (addrs (Node l (a, k) r))) H H'"
    using v shape_root[OF shs(1)] by (auto simp: frame_def H'_def adopted_def)
  moreover have "h_left H' n = h_left H a" "h_left H' a = 0" "h_right H' n = a"
    "h_right H' a = h_right H a" "h_key H' = h_key H" "valid_ptr H' a" "valid_ptr H' n"
    "h_size H' a = of_nat (size r + 1)" "h_size H' n = of_nat (size l + (size r + 1) + 1)"
    using v na psz sz by (simp_all add: H'_def)
  ultimately show ?thesis using run v by simp
qed

lemma insert_above_ok:
  assumes sh: "shape H a (Node l (a, k) r)" and sz: "sized H (Node l (a, k) r)"
    and d: "distinct (map fst (inorder (Node l (a, k) r)))"
    and n: "loose H n key" "n \<notin> addrs (Node l (a, k) r)"
  shows "\<exists>H'. insert_above n a H = Some (n, H')
    \<and> shape H' n (Node (Node l (a, k) Leaf) (n, key) r)
    \<and> sized H' (Node (Node l (a, k) Leaf) (n, key) r)
    \<and> frame (insert n (addrs (Node l (a, k) r))) H H'"
proof -
  have v: "valid_ptr H a" "valid_ptr H n" "a \<noteq> 0" "n \<noteq> 0" "h_key H a = k" "h_key H n = key"
    "h_left H n = 0" "h_right H n = 0"
    using sh n by (auto simp: valid_ptr_def loose_def)
  have shs: "shape H (h_left H a) l" "shape H (h_right H a) r" using sh by auto
  note cv = shs[THEN shape_child_valid]
  have szs: "sized H l" "sized H r" using sz by auto
  note psz = psz_shape[OF shs(1) szs(1)] psz_shape[OF shs(2) szs(2)]
  have na: "n \<noteq> a" "n \<notin> addrs l" "n \<notin> addrs r" "a \<notin> addrs l" "a \<notin> addrs r"
    using d n by (auto simp: addrs_inorder)
  have ne: "h_left H a \<noteq> a" "h_left H a \<noteq> n" "h_right H a \<noteq> a" "h_right H a \<noteq> n"
    using shs na v shape_root by metis+
  define H' where "H' = H\<lparr>h_left := (h_left H)(n := a), h_right := (h_right H)(n := h_right H a, a := 0),
     h_p := (adopted (h_right H a) n (h_p H))(a := n),
     h_size := (h_size H)(n := h_size H a + 1, a := h_size H a - psz (h_size H) (h_right H a))\<rparr>"
  have run: "insert_above n a H = Some (n, H')"
    using v na ne cv
    by (auto simp: insert_above_def heap_step H'_def psz_def adopted_def fun_upd_twist)
  have "shape H' (h_left H a) l" by (rule shape_cong[OF shs(1)]) (use na in \<open>auto simp: H'_def\<close>)
  moreover have "shape H' (h_right H a) r" by (rule shape_cong[OF shs(2)]) (use na in \<open>auto simp: H'_def\<close>)
  moreover have "sized H' l" by (rule sized_cong[OF szs(1)]) (use na in \<open>auto simp: H'_def\<close>)
  moreover have "sized H' r" by (rule sized_cong[OF szs(2)]) (use na in \<open>auto simp: H'_def\<close>)
  moreover have "frame (insert n (addrs (Node l (a, k) r))) H H'"
    using v shape_root[OF shs(2)] by (auto simp: frame_def H'_def adopted_def)
  moreover have "h_right H' n = h_right H a" "h_right H' a = 0" "h_left H' n = a"
    "h_left H' a = h_left H a" "h_key H' = h_key H" "valid_ptr H' a" "valid_ptr H' n"
    "h_size H' a = of_nat (size l + 1)" "h_size H' n = of_nat (size l + 1 + size r + 1)"
    using v na psz sz by (simp_all add: H'_def algebra_simps)
  ultimately show ?thesis using run v by simp
qed

lemma frame_step_frame:
  "frame S H H' \<Longrightarrow> (\<forall>x \<in> S. h_alloc H x) \<Longrightarrow> heap_step_frame S H S H'"
  by (auto simp: frame_def heap_step_frame_def)

lemma step_frame_mono:
  "heap_step_frame S H S' H' \<Longrightarrow> T \<inter> S = {} \<Longrightarrow> (\<forall>x \<in> T. h_alloc H x)
    \<Longrightarrow> heap_step_frame (T \<union> S) H (T \<union> S') H'"
  unfolding heap_step_frame_def by blast

lemma step_frame_loose:
  "heap_step_frame S H S' H' \<Longrightarrow> loose H n key \<Longrightarrow> n \<notin> S \<Longrightarrow> loose H' n key"
  unfolding heap_step_frame_def loose_def valid_ptr_def by simp

lemma sorted_insert_root:
  assumes "sorted_wrt (<) (map snd (inorder (Node l (a, k) r)))" "partitioned key (Node l (a, k) r)"
  shows "key < k \<Longrightarrow> sorted_wrt (<) (map snd (inorder (Node l (n, key) (Node Leaf (a, k) r))))"
    "k < key \<Longrightarrow> sorted_wrt (<) (map snd (inorder (Node (Node l (a, k) Leaf) (n, key) r)))"
  using assms by (auto simp: sorted_wrt_append partitioned_def keys_def)

lemma grown_rep:
  assumes r: "rep H1 a t1" and n: "loose H1 n key" "key \<noteq> 0"
    and 2: "shape H2 n t2" "sized H2 t2" "frame (insert n (addrs t1)) H1 H2"
    and t2: "sorted_wrt (<) (map snd (inorder t2))" "distinct (map fst (inorder t2))"
      "addrs t2 = insert n (addrs t1)" "keys t2 = insert key (keys t1)"
  shows "rep H2 n t2 \<and> heap_step_frame (insert n (addrs t1)) H1 (addrs t2) H2"
proof -
  have al: "\<forall>y \<in> insert n (addrs t1). h_alloc H1 y"
    using rep_alloc[OF r] n(1) by (auto simp: loose_def valid_ptr_def)
  show ?thesis
    using repD(1,6)[OF r] 2 t2 n(2) frame_step_frame[OF 2(3) al]
    by (auto simp: rep_def wf_heap_def frame_def)
qed

lemma insert_at_root_ok:
  assumes r: "rep H a t" "t \<noteq> Leaf" "partitioned key t"
    and n: "loose H n key" "n \<notin> addrs t" and k: "key \<noteq> 0"
  shows "\<exists>root' H' t'. insert_at_root key n a H = Some (root', H') \<and> rep H' root' t'
    \<and> keys t' = insert key (keys t) \<and> heap_step_frame (insert n (addrs t)) H (addrs t') H'"
proof -
  note d = repD[OF r(1)]
  obtain l x q where T: "t = Node l (a, x) q" using shape_rootE[OF d(2) r(2)] .
  have va: "valid_ptr H a" "h_key H a = x" using d(2) by (auto simp: T)
  note sm = d(2,3,4)[unfolded T] n[unfolded T]
  note so = sorted_insert_root[OF d(5)[unfolded T] r(3)[unfolded T], of n]
  consider (below) "key < x" | (above) "x < key" | (same) "key = x" by fastforce
  then show ?thesis
  proof cases
    case below
    let ?t = "Node l (n, key) (Node Leaf (a, x) q)"
    obtain H2 where 2: "insert_below n a H = Some (n, H2)" "shape H2 n ?t" "sized H2 ?t"
      "frame (insert n (addrs t)) H H2"
      using insert_below_ok[OF sm] unfolding T by blast
    have "rep H2 n ?t \<and> heap_step_frame (insert n (addrs t)) H (addrs ?t) H2"
      by (rule grown_rep[OF r(1) n(1) k 2(2-4) so(1)[OF below]])
         (use d(4) n(2) in \<open>auto simp: T addrs_inorder\<close>)
    then show ?thesis using 2(1) va below
      by (intro exI[of _ n] exI[of _ H2] exI[of _ ?t]) (auto simp: insert_at_root_def rd_ok T)
  next
    case above
    let ?t = "Node (Node l (a, x) Leaf) (n, key) q"
    obtain H2 where 2: "insert_above n a H = Some (n, H2)" "shape H2 n ?t" "sized H2 ?t"
      "frame (insert n (addrs t)) H H2"
      using insert_above_ok[OF sm] unfolding T by blast
    have "rep H2 n ?t \<and> heap_step_frame (insert n (addrs t)) H (addrs ?t) H2"
      by (rule grown_rep[OF r(1) n(1) k 2(2-4) so(2)[OF above]])
         (use d(4) n(2) in \<open>auto simp: T addrs_inorder\<close>)
    then show ?thesis using 2(1) va above
      by (intro exI[of _ n] exI[of _ H2] exI[of _ ?t]) (auto simp: insert_at_root_def rd_ok T)
  next
    case same
    define H2 where "H2 = H\<lparr>h_alloc := (h_alloc H)(n := False)\<rparr>"
    have "shape H2 a t" by (rule shape_cong[OF d(2)]) (use n in \<open>auto simp: H2_def\<close>)
    then have "rep H2 a t" using d(1,3,4,5,6) by (simp add: rep_def H2_def wf_heap_def)
    moreover have "heap_step_frame (insert n (addrs t)) H (addrs t) H2"
      using n rep_alloc[OF r(1)] by (auto simp: heap_step_frame_def H2_def)
    ultimately show ?thesis using va same n(1)
      by (intro exI[of _ a] exI[of _ H2] exI[of _ t])
         (auto simp: insert_at_root_def rd_ok delete_addr_def H2_def loose_def T)
  qed
qed

lemma insert_node_ok:
  assumes r: "rep H root t" and n: "loose H n key" "n \<notin> addrs t" and k: "key \<noteq> 0"
  shows "\<exists>root' H' t'. insert_node key n root H = Some (root', H') \<and> rep H' root' t'
    \<and> keys t' = insert key (keys t) \<and> heap_step_frame (insert n (addrs t)) H (addrs t') H'"
proof (cases "t = Leaf")
  case True
  note d = repD[OF r]
  have "root = 0" using True d(2) by simp
  moreover have "rep H n (Node Leaf (n, key) Leaf)"
    using d(1) n(1) k by (simp add: rep_def loose_def)
  ultimately show ?thesis using True n
    by (intro exI[of _ n] exI[of _ H] exI[of _ "Node Leaf (n, key) Leaf"])
       (auto simp: insert_node_def heap_step_frame_def loose_def valid_ptr_def)
next
  case False
  then have root: "root \<noteq> 0" using repD(2)[OF r] by (metis shape_0)
  obtain a H1 t1 where 1: "Splay key root H = Some (a, H1)" "rep H1 a t1" "inorder t1 = inorder t"
    "partitioned key t1" "heap_step_frame (addrs t) H (addrs t) H1"
    using Splay_ok[OF r] by blast
  have t1: "t1 \<noteq> Leaf" using False 1(3) by (metis inorder.simps(1) eq_Nil_inorder)
  have ad: "addrs t1 = addrs t" "keys t1 = keys t" using 1(3) by (simp_all add: addrs_inorder keys_inorder)
  have n1: "loose H1 n key" "n \<notin> addrs t1" using step_frame_loose[OF 1(5) n] n(2) ad by auto
  have "heap_step_frame (insert n (addrs t)) H (insert n (addrs t1)) H1"
    using step_frame_mono[OF 1(5), of "{n}"] n ad by (simp add: loose_def valid_ptr_def)
  then show ?thesis
    using insert_at_root_ok[OF 1(2) t1 1(4) n1 k] heap_step_frame_trans ad
    root 1(1) unfolding insert_node_def by fastforce
qed

lemma with_ref_loose: "wf_heap H \<Longrightarrow> loose (with_ref key H) (h_next H) key"
  using valid_with_ref[of H key] by (simp add: loose_def with_ref_fields)

lemma with_ref_rep: "rep H root t \<Longrightarrow> rep (with_ref k H) root t"
  by (auto simp: rep_def with_ref_shape with_ref_sized) (auto simp: wf_heap_def with_ref_fields)

lemma with_ref_step: "rep H root t \<Longrightarrow>
    heap_step_frame (addrs t) H (insert (h_next H) (addrs t)) (with_ref k H)"
  using rep_alloc fresh_not_alloc[OF repD(1)]
  by (fastforce simp: heap_step_frame_def with_ref_fields)

lemma Insert_ok:
  assumes r: "rep H root t" and k: "key \<noteq> 0"
  shows "\<exists>root' H' t'. Insert key root H = Some (root', H') \<and> rep H' root' t'
    \<and> keys t' = insert key (keys t) \<and> heap_step_frame (addrs t) H (addrs t') H'"
proof -
  note d = repD[OF r]
  have n: "h_next H \<notin> addrs t" using rep_alloc[OF r] fresh_not_alloc[OF d(1)] by blast
  show ?thesis
    using insert_node_ok[OF with_ref_rep[OF r, of key] with_ref_loose[OF d(1)] n k]
      heap_step_frame_trans[OF with_ref_step[OF r, of key]]
    unfolding Insert_def NewNode_ok[OF d(1)] by fastforce
qed

end
