(* ===== verification/Splay_Ops.thy ===== *)
theory Splay_Ops
  imports Splay_Correct
begin

text \<open>
  The contracts of \<open>Delete\<close>, \<open>Update\<close>, \<open>ComputeDistance\<close>, \<open>TreeSize\<close> and \<open>DeleteAll\<close>
  of \<open>library/splay.cc\<close>.
\<close>

lemma rep_subtrees:
  assumes "rep H a (Node l (a, k) r)"
  shows "rep H (h_left H a) l" "rep H (h_right H a) r"
  using assms by (auto simp: rep_def sorted_wrt_append)

lemma rep_node_facts:
  assumes "rep H a (Node l (a, k) r)"
  shows "a \<notin> addrs l" "a \<notin> addrs r" "addrs l \<inter> addrs r = {}" "k \<notin> keys l" "k \<notin> keys r"
    "x \<in> keys l \<Longrightarrow> x < k" "x \<in> keys r \<Longrightarrow> k < x" "valid_ptr H a" "h_key H a = k"
proof -
  note d = repD(2,4,5)[OF assms]
  show "a \<notin> addrs l" "a \<notin> addrs r" "addrs l \<inter> addrs r = {}"
    using d(2) by (auto simp: addrs_inorder)
  show k: "x \<in> keys l \<Longrightarrow> x < k" "x \<in> keys r \<Longrightarrow> k < x" for x
    using d(3) by (auto simp: keys_def sorted_wrt_append)
  show "k \<notin> keys l" "k \<notin> keys r" using k by blast+
  show "valid_ptr H a" "h_key H a = k" using d(1) by auto
qed

lemma rep_step:
  assumes "rep H q t" "heap_step_frame S H S' H'" "addrs t \<inter> S = {}" "wf_heap H'"
  shows "rep H' q t"
proof -
  have f: "h_alloc H' x = h_alloc H x \<and> h_key H' x = h_key H x \<and> h_left H' x = h_left H x
      \<and> h_right H' x = h_right H x \<and> h_size H' x = h_size H x" if "x \<in> addrs t" for x
    using assms(2,3) rep_alloc[OF assms(1) that] that unfolding heap_step_frame_def by blast
  note d = repD[OF assms(1)]
  show ?thesis using shape_cong[OF d(2)] sized_cong[OF d(3)] f d assms(4) by (auto simp: rep_def)
qed

lemma hang_right_ok:
  assumes l: "rep H b (Node l (b, k) Leaf)" and r: "rep H q r"
    and d: "addrs (Node l (b, k) Leaf) \<inter> addrs r = {}" and lt: "\<And>x. x \<in> keys r \<Longrightarrow> k < x"
  shows "\<exists>H'. hang_right b q H = Some H' \<and> rep H' b (Node l (b, k) r)
    \<and> heap_step_frame (addrs (Node l (b, k) r)) H (addrs (Node l (b, k) r)) H'"
proof -
  note L = repD[OF l] and R = repD[OF r] and f = rep_node_facts[OF l]
  have v: "valid_ptr H b" "b \<noteq> 0" "h_key H b = k" using f by (auto simp: valid_ptr_def)
  have shs: "shape H (h_left H b) l" "shape H q r" using L(2) R(2) by auto
  note cv = shs[THEN shape_child_valid]
  have szs: "sized H l" "sized H r" using L(3) R(3) by auto
  note psz = psz_shape[OF shs(1) szs(1)] psz_shape[OF shs(2) szs(2)]
  have b: "b \<notin> addrs l" "b \<notin> addrs r" "q \<noteq> b" "h_left H b \<noteq> b"
    using d f(1) shape_root[OF shs(1)] shape_root[OF shs(2)] v(2) by auto
  define H' where "H' = H\<lparr>h_right := (h_right H)(b := q), h_p := adopted q b (h_p H),
     h_size := (h_size H)(b := 1 + psz (h_size H) q + psz (h_size H) (h_left H b))\<rparr>"
  have run: "hang_right b q H = Some H'"
    using v b cv by (simp add: hang_right_def heap_step H'_def)
  have "shape H' (h_left H b) l" by (rule shape_cong[OF shs(1)]) (use b in \<open>auto simp: H'_def\<close>)
  moreover have "shape H' q r" by (rule shape_cong[OF shs(2)]) (use b in \<open>auto simp: H'_def\<close>)
  moreover have "sized H' l" by (rule sized_cong[OF szs(1)]) (use b in \<open>auto simp: H'_def\<close>)
  moreover have "sized H' r" by (rule sized_cong[OF szs(2)]) (use b in \<open>auto simp: H'_def\<close>)
  moreover have "wf_heap H'" using L(1) by (simp add: H'_def wf_heap_def)
  moreover have "h_size H' b = of_nat (size l + size r + 1)" "valid_ptr H' b"
    using v b psz by (simp_all add: H'_def)
  moreover have "sorted_wrt (<) (map snd (inorder (Node l (b, k) r)))"
    using L(5) R(5) f(6) lt unfolding keys_inorder by (fastforce simp: sorted_wrt_append)
  moreover have "distinct (map fst (inorder (Node l (b, k) r)))"
    using L(4) R(4) d by (auto simp: addrs_inorder)
  ultimately have "rep H' b (Node l (b, k) r)"
    using v L(6) R(6) by (simp add: rep_def) (simp add: H'_def)
  moreover have "heap_step_frame (addrs (Node l (b, k) r)) H (addrs (Node l (b, k) r)) H'"
    using rep_alloc[OF l] rep_alloc[OF r] shape_root[OF shs(2)]
    by (auto simp: heap_step_frame_def H'_def adopted_def)
  ultimately show ?thesis using run by blast
qed

lemma unlink_root_ok:
  assumes r: "rep H a (Node l (a, key) r)"
  shows "\<exists>root' H' t'. unlink_root key a H = Some (a, root', H') \<and> rep H' root' t'
    \<and> keys t' = keys (Node l (a, key) r) - {key} \<and> addrs t' = addrs (Node l (a, key) r) - {a}
    \<and> valid_ptr H' a
    \<and> heap_step_frame (addrs (Node l (a, key) r)) H (addrs (Node l (a, key) r)) H'"
proof (cases "l = Leaf")
  case True
  then show ?thesis using rep_subtrees[OF r] rep_node_facts[OF r] rep_alloc[OF r] repD(2)[OF r]
    by (intro exI[of _ "h_right H a"] exI[of _ H] exI[of _ r])
       (auto simp: unlink_root_def rd_ok heap_step_frame_def)
next
  case False
  note f = rep_node_facts[OF r] and st = rep_subtrees[OF r]
  have l0: "h_left H a \<noteq> 0" using repD(2)[OF st(1)] False by (metis shape_0)
  obtain b H1 l1 where 1: "Splay key (h_left H a) H = Some (b, H1)" "rep H1 b l1"
    "inorder l1 = inorder l" "partitioned key l1" "heap_step_frame (addrs l) H (addrs l) H1"
    using Splay_ok[OF st(1)] by blast
  have ad: "addrs l1 = addrs l" "keys l1 = keys l" using 1(3) by (simp_all add: addrs_inorder keys_inorder)
  have "l1 \<noteq> Leaf" using False 1(3) by (metis inorder.simps(1) eq_Nil_inorder)
  then obtain l2 kb r2 where l1: "l1 = Node l2 (b, kb) r2" using shape_rootE[OF repD(2)[OF 1(2)]] by blast
  have "r2 = Leaf"
  proof (rule ccontr)
    assume "r2 \<noteq> Leaf"
    then obtain x where x: "x \<in> keys r2" by (cases r2) (auto simp: keys_def)
    then have "x \<in> keys l" using ad(2) unfolding l1 keys_simps by blast
    then show False using f(6) 1(4) x by (force simp: l1 partitioned_def)
  qed
  note l1' = l1[unfolded this]
  have a1: "valid_ptr H1 a" "h_right H1 a = h_right H a"
    using 1(5) f(1,8) by (auto simp: heap_step_frame_def valid_ptr_def)
  have r1: "rep H1 (h_right H a) r"
    using rep_step[OF st(2) 1(5) _ repD(1)[OF 1(2)]] f(3) by blast
  have kb: "kb \<in> keys l" using ad(2) by (auto simp: l1)
  have "addrs (Node l2 (b, kb) Leaf) \<inter> addrs r = {}" using ad f(3) l1' by simp
  then obtain H2 where 2: "hang_right b (h_right H a) H1 = Some H2" "rep H2 b (Node l2 (b, kb) r)"
    "heap_step_frame (addrs (Node l2 (b, kb) r)) H1 (addrs (Node l2 (b, kb) r)) H2"
    using hang_right_ok[OF 1(2)[unfolded l1'] r1] f(6)[OF kb] f(7) by (meson order.strict_trans)
  have A: "addrs (Node l2 (b, kb) r) = addrs l \<union> addrs r" "keys (Node l2 (b, kb) r) = keys l \<union> keys r"
    using ad by (auto simp: l1')
  have a2: "valid_ptr H2 a"
    using 2(3) a1 f(1,2) unfolding A heap_step_frame_def valid_ptr_def by blast
  have al: "\<forall>x \<in> addrs r. h_alloc H x" "h_alloc H a" "h_alloc H1 a"
    using rep_alloc[OF r] a1(1) by (auto simp: valid_ptr_def)
  have "heap_step_frame (insert a (addrs r) \<union> addrs l) H (insert a (addrs r) \<union> addrs l) H1"
    by (rule step_frame_mono[OF 1(5)]) (use al f in auto)
  moreover have "heap_step_frame ({a} \<union> (addrs l \<union> addrs r)) H1 ({a} \<union> (addrs l \<union> addrs r)) H2"
    by (rule step_frame_mono[OF 2(3)[unfolded A]]) (use al f in auto)
  ultimately have "heap_step_frame (addrs (Node l (a, key) r)) H (addrs (Node l (a, key) r)) H2"
    using heap_step_frame_trans by (simp add: Un_commute)
  moreover have "unlink_root key a H = Some (a, b, H2)"
    using l0 1(1) 2(1) a1 f(8) by (simp add: unlink_root_def rd_ok)
  ultimately show ?thesis using 2(2) A a2 f(1,2,4,5)
    by (intro exI[of _ b] exI[of _ H2] exI[of _ "Node l2 (b, kb) r"]) (simp add: insert_Diff_if)
qed

lemma inorder_eq_keys:
  "inorder t' = inorder t \<Longrightarrow> addrs t' = addrs t \<and> keys t' = keys t \<and> (t' = Leaf \<longleftrightarrow> t = Leaf)"
  by (metis addrs_inorder keys_inorder inorder.simps(1) eq_Nil_inorder)

lemma Splay_node:
  assumes r: "rep H root t" "root \<noteq> 0"
  obtains a H' l k q where "Splay key root H = Some (a, H')" "rep H' a (Node l (a, k) q)"
    "addrs (Node l (a, k) q) = addrs t" "keys (Node l (a, k) q) = keys t"
    "partitioned key (Node l (a, k) q)" "heap_step_frame (addrs t) H (addrs t) H'"
    "key = k \<longleftrightarrow> key \<in> keys t"
proof -
  obtain a H' t' where 1: "Splay key root H = Some (a, H')" "rep H' a t'" "inorder t' = inorder t"
    "partitioned key t'" "heap_step_frame (addrs t) H (addrs t) H'"
    using Splay_ok[OF r(1)] by blast
  note e = inorder_eq_keys[OF 1(3)]
  have "t' \<noteq> Leaf" using e r repD(2)[OF r(1)] by (metis shape.simps(1))
  then obtain l k q where t': "t' = Node l (a, k) q" using shape_rootE[OF repD(2)[OF 1(2)]] by blast
  have "key = k \<longleftrightarrow> key \<in> keys t"
    using 1(4) e[THEN conjunct2, THEN conjunct1, symmetric] by (auto simp: t' partitioned_def)
  then show ?thesis using that 1 e unfolding t' by blast
qed

subsection \<open>Delete\<close>

lemma delete_addr_ok:
  assumes r: "rep H q t" and a: "valid_ptr H a" "a \<notin> addrs t"
  shows "\<exists>H'. delete_addr a H = Some H' \<and> rep H' q t \<and> heap_step_frame {a} H {} H'"
proof -
  define H' where "H' = H\<lparr>h_alloc := (h_alloc H)(a := False)\<rparr>"
  note d = repD[OF r]
  have "shape H' q t" by (rule shape_cong[OF d(2)]) (use a in \<open>auto simp: H'_def\<close>)
  then have "rep H' q t" using d by (simp add: rep_def H'_def wf_heap_def)
  moreover have "heap_step_frame {a} H {} H'" by (auto simp: heap_step_frame_def H'_def)
  moreover have "delete_addr a H = Some H'" using a(1) by (simp add: delete_addr_def H'_def)
  ultimately show ?thesis by blast
qed

lemma Delete_ok:
  assumes r: "rep H root t"
  shows "\<exists>root' H' t'. Delete key root H = Some (root', H') \<and> rep H' root' t'
    \<and> keys t' = keys t - {key} \<and> heap_step_frame (addrs t) H (addrs t') H'"
proof (cases "root = 0")
  case True
  then have "t = Leaf" using repD(2)[OF r] by simp
  then show ?thesis using r True
    by (intro exI[of _ 0] exI[of _ H] exI[of _ Leaf]) (auto simp: Delete_def heap_step_frame_def)
next
  case False
  obtain a H1 l k q where 1: "Splay key root H = Some (a, H1)" "rep H1 a (Node l (a, k) q)"
    "addrs (Node l (a, k) q) = addrs t" "keys (Node l (a, k) q) = keys t"
    "heap_step_frame (addrs t) H (addrs t) H1" "key = k \<longleftrightarrow> key \<in> keys t"
    using Splay_node[OF r False] by metis
  note f = rep_node_facts[OF 1(2)]
  show ?thesis
  proof (cases "key = k")
    case False
    then show ?thesis using 1 f
      by (intro exI[of _ a] exI[of _ H1] exI[of _ "Node l (a, k) q"])
         (simp add: Delete_def \<open>root \<noteq> 0\<close> rd_ok)
  next
    case True
    obtain b H2 t2 where 2: "unlink_root key a H1 = Some (a, b, H2)" "rep H2 b t2"
      "keys t2 = keys t - {key}" "addrs t2 = addrs t - {a}" "valid_ptr H2 a"
      "heap_step_frame (addrs t) H1 (addrs t) H2"
      using unlink_root_ok[OF 1(2)[folded True]] 1(3,4) True by metis
    obtain H3 where 3: "delete_addr a H2 = Some H3" "rep H3 b t2" "heap_step_frame {a} H2 {} H3"
      using delete_addr_ok[OF 2(2,5)] 2(4) by blast
    have "heap_step_frame (addrs t2 \<union> {a}) H2 (addrs t2 \<union> {}) H3"
      by (rule step_frame_mono[OF 3(3)]) (use 2(4) rep_alloc[OF 2(2)] in auto)
    moreover have "addrs t2 \<union> {a} = addrs t" using 2(4) 1(3) by auto
    ultimately have "heap_step_frame (addrs t) H (addrs t2) H3"
      using heap_step_frame_trans[OF 1(5)] heap_step_frame_trans[OF 2(6)] by simp
    then show ?thesis using 1(1) 2(1,3) 3(1,2) f(8,9) True \<open>root \<noteq> 0\<close>
      by (intro exI[of _ b] exI[of _ H3] exI[of _ t2]) (simp add: Delete_def rd_ok)
  qed
qed

subsection \<open>Update\<close>

lemma CleanNode_ok:
  assumes r: "rep H q t" and a: "valid_ptr H a" "a \<notin> addrs t"
  shows "\<exists>H'. CleanNode a k H = Some H' \<and> rep H' q t \<and> loose H' a k \<and> heap_step_frame {a} H {a} H'"
proof -
  define H' where "H' = H\<lparr>h_key := (h_key H)(a := k), h_size := (h_size H)(a := 1),
    h_p := (h_p H)(a := 0), h_left := (h_left H)(a := 0), h_right := (h_right H)(a := 0)\<rparr>"
  note d = repD[OF r]
  have fr: "heap_step_frame {a} H {a} H'"
    using a(1) by (auto simp: heap_step_frame_def H'_def valid_ptr_def)
  have "wf_heap H'" using d(1) by (simp add: wf_heap_def H'_def)
  then have "rep H' q t" using rep_step[OF r fr] a(2) by blast
  moreover have "loose H' a k" using a(1) by (simp add: loose_def H'_def)
  moreover have "CleanNode a k H = Some H'" using a(1)
    by (simp add: CleanNode_def heap_step H'_def) (simp add: valid_ptr_def)
  ultimately show ?thesis using fr by blast
qed

lemma fresh_insert_ok:
  assumes r: "rep H root t" and k: "key \<noteq> 0"
  shows "\<exists>root' H' t'. Option.bind (NewNode key H) (\<lambda>(tmp, H). insert_node key tmp root H) = Some (root', H')
    \<and> rep H' root' t' \<and> keys t' = insert key (keys t) \<and> heap_step_frame (addrs t) H (addrs t') H'"
  using Insert_ok[OF r k] by (simp add: Insert_def)

lemma relocate_ok:
  assumes r: "rep H q t" and a: "valid_ptr H a" "a \<notin> addrs t" and k: "key \<noteq> 0"
  shows "\<exists>H1 root' H' t'. CleanNode a key H = Some H1 \<and> insert_node key a q H1 = Some (root', H')
    \<and> rep H' root' t' \<and> keys t' = insert key (keys t)
    \<and> heap_step_frame (insert a (addrs t)) H (addrs t') H'"
proof -
  obtain H1 where 1: "CleanNode a key H = Some H1" "rep H1 q t" "loose H1 a key"
    "heap_step_frame {a} H {a} H1"
    using CleanNode_ok[OF r a] by blast
  have "heap_step_frame (addrs t \<union> {a}) H (addrs t \<union> {a}) H1"
    by (rule step_frame_mono[OF 1(4)]) (use a rep_alloc[OF r] in auto)
  then have step: "heap_step_frame (insert a (addrs t)) H (insert a (addrs t)) H1" by simp
  obtain root' H' t' where 2: "insert_node key a q H1 = Some (root', H')" "rep H' root' t'" "keys t' = insert key (keys t)"
    "heap_step_frame (insert a (addrs t)) H1 (addrs t') H'"
    using insert_node_ok[OF 1(2,3) a(2) k] by auto
  show ?thesis using 1(1) 2(1-3) heap_step_frame_trans[OF step 2(4)] by auto
qed

lemma Update_ok:
  assumes r: "rep H root t" and k: "newKey \<noteq> 0"
  shows "\<exists>root' H' t'. Update previousKey newKey root H = Some (root', H') \<and> rep H' root' t'
    \<and> keys t' = insert newKey (keys t - {previousKey}) \<and> heap_step_frame (addrs t) H (addrs t') H'"
proof (cases "root = 0")
  case True
  then have "t = Leaf" using repD(2)[OF r] by simp
  then show ?thesis using fresh_insert_ok[OF r k] True
    by (auto simp: Update_def split: Option.bind_splits)
next
  case False
  obtain a H1 l x q where 1: "Splay previousKey root H = Some (a, H1)" "rep H1 a (Node l (a, x) q)"
    "addrs (Node l (a, x) q) = addrs t" "keys (Node l (a, x) q) = keys t"
    "heap_step_frame (addrs t) H (addrs t) H1" "previousKey = x \<longleftrightarrow> previousKey \<in> keys t"
    using Splay_node[OF r False] by metis
  note f = rep_node_facts[OF 1(2)]
  show ?thesis
  proof (cases "previousKey = x")
    case ne: False
    then have "Update previousKey newKey root H
        = Option.bind (NewNode newKey H1) (\<lambda>(tmp, H). insert_node newKey tmp a H)"
      using False 1(1) f(8,9) by (simp add: Update_def rd_ok NewNode_ok[OF repD(1)[OF 1(2)]])
    then show ?thesis using fresh_insert_ok[OF 1(2) k] heap_step_frame_trans[OF 1(5)] 1(3,4,6) ne
      by (metis Diff_empty Diff_insert0)
  next
    case True
    obtain b H2 t2 where 2: "unlink_root previousKey a H1 = Some (a, b, H2)" "rep H2 b t2"
      "keys t2 = keys t - {previousKey}" "addrs t2 = addrs t - {a}" "valid_ptr H2 a"
      "heap_step_frame (addrs t) H1 (addrs t) H2"
      using unlink_root_ok[OF 1(2)[folded True]] 1(3,4) True by metis
    have a: "insert a (addrs t2) = addrs t" using 2(4) 1(3) by auto
    obtain H3 root' H' t' where 3: "CleanNode a newKey H2 = Some H3"
      "insert_node newKey a b H3 = Some (root', H')" "rep H' root' t'"
      "keys t' = insert newKey (keys t2)" "heap_step_frame (addrs t) H2 (addrs t') H'"
      using relocate_ok[OF 2(2,5) _ k] 2(4) a by (metis Diff_iff insertI1)
    have "Update previousKey newKey root H = Some (root', H')"
      using False True 1(1) f(8,9) 2(1) 3(1,2) by (simp add: Update_def rd_ok)
    then show ?thesis
      using 3(3,4,5) 2(3,6) 1(5) heap_step_frame_trans by metis
  qed
qed

subsection \<open>The queries\<close>

lemma rep_card: "rep H q t \<Longrightarrow> card (keys t) = size t"
proof -
  assume "rep H q t"
  then have "distinct (map snd (inorder t))"
    using repD(5) by (auto simp: strict_sorted_iff)
  then show ?thesis
    by (metis distinct_card keys_inorder length_inorder length_map list.set_map)
qed

lemma partitioned_greater:
  assumes "rep H a (Node l (a, k) q)"
  shows "{x \<in> keys (Node l (a, k) q). k < x} = keys q"
  using rep_node_facts[OF assms] by force

lemma ComputeDistance_ok:
  assumes r: "rep H root t"
  shows "\<exists>root' H' t'. ComputeDistance key root H
      = Some (root', if key \<in> keys t then of_nat (card {x \<in> keys t. key < x}) else 0, H')
    \<and> rep H' root' t' \<and> addrs t' = addrs t \<and> keys t' = keys t
    \<and> (root' \<noteq> 0 \<and> h_key H' root' = key \<longleftrightarrow> key \<in> keys t)
    \<and> heap_step_frame (addrs t) H (addrs t) H'"
proof (cases "root = 0")
  case True
  then have "t = Leaf" using repD(2)[OF r] by simp
  then show ?thesis using r True
    by (intro exI[of _ 0] exI[of _ H] exI[of _ Leaf])
       (auto simp: ComputeDistance_def Splay_def heap_step_frame_def)
next
  case False
  obtain a H1 l k q where 1: "Splay key root H = Some (a, H1)" "rep H1 a (Node l (a, k) q)"
    "addrs (Node l (a, k) q) = addrs t" "keys (Node l (a, k) q) = keys t"
    "heap_step_frame (addrs t) H (addrs t) H1" "key = k \<longleftrightarrow> key \<in> keys t"
    using Splay_node[OF r False] by metis
  note f = rep_node_facts[OF 1(2)] and st = rep_subtrees(2)[OF 1(2)]
  have a0: "a \<noteq> 0" using f(8) by (simp add: valid_ptr_def)
  have psz: "psz (h_size H1) (h_right H1 a) = of_nat (card (keys q))"
    using psz_shape[OF repD(2,3)[OF st]] rep_card[OF st] by simp
  have "ComputeDistance key root H
      = Some (a, if key = k then psz (h_size H1) (h_right H1 a) else 0, H1)"
    using 1(1) a0 f(8,9) repD(2)[OF st]
    by (auto simp: ComputeDistance_def rd_ok psz_def dest!: shape_child_valid)
  moreover have "keys q = {x \<in> keys t. key < x}" if "key = k"
    using partitioned_greater[OF 1(2)] unfolding 1(4) that by simp
  ultimately show ?thesis using 1 psz f(9) a0 by (intro exI[of _ a] exI[of _ H1] exI) auto
qed

lemma TreeSize_ok: "shape H q t \<Longrightarrow> TreeSize q H = Some (of_nat (size t))"
proof (induction H q t rule: shape.induct)
  case (1 H q)
  then show ?case by (simp add: TreeSize.simps)
next
  case (2 H q l a k r)
  then have "valid_ptr H a" "a \<noteq> 0" by (auto simp: valid_ptr_def)
  then show ?case using 2 by (subst TreeSize.simps) (simp add: rd_ok)
qed

lemma step_frame_shape:
  assumes "shape H q t" "heap_step_frame S H S' H'" "addrs t \<inter> S = {}"
  shows "shape H' q t"
  using assms shape_valid[OF assms(1)]
  by (intro shape_cong[OF assms(1)]) (fastforce simp: heap_step_frame_def valid_ptr_def)

lemma DeleteAll_step:
  assumes "valid_ptr H a"
  shows "DeleteAll a H = Option.bind (DeleteAll (h_right H a) H) (\<lambda>H. Option.bind (rd h_left a H)
     (\<lambda>l. Option.bind (DeleteAll l H) (delete_addr a)))"
proof -
  have 0: "DeleteAll 0 H = Some H" for H by (simp add: DeleteAll.simps)
  have "(if q \<noteq> 0 then DeleteAll q H else Some H) = DeleteAll q H" for q H by (simp add: 0)
  moreover have "a \<noteq> 0" using assms by (simp add: valid_ptr_def)
  ultimately show ?thesis using assms by (subst DeleteAll.simps) (simp add: rd_ok)
qed

lemma DeleteAll_ok:
  assumes "shape H q t" "distinct (map fst (inorder t))"
  shows "\<exists>H'. DeleteAll q H = Some H' \<and> heap_step_frame (addrs t) H {} H'"
  using assms
proof (induction t arbitrary: H q)
  case Leaf
  then show ?case by (simp add: DeleteAll.simps heap_step_frame_def)
next
  case (Node l ak r)
  obtain a k where ak: "ak = (a, k)" by (cases ak)
  note P = Node.prems[unfolded ak]
  have v: "q = a" "valid_ptr H a" "a \<noteq> 0" and sh: "shape H (h_left H a) l" "shape H (h_right H a) r"
    using P(1) by (auto simp: valid_ptr_def)
  have d: "distinct (map fst (inorder l))" "distinct (map fst (inorder r))"
    and dj: "addrs l \<inter> addrs r = {}" "a \<notin> addrs l" "a \<notin> addrs r"
    using P(2) by (auto simp: addrs_inorder)
  obtain H1 where 1: "DeleteAll (h_right H a) H = Some H1" "heap_step_frame (addrs r) H {} H1"
    using Node.IH(2)[OF sh(2) d(2)] by blast
  have a1: "valid_ptr H1 a" "h_left H1 a = h_left H a"
    using 1(2) v dj(3) by (auto simp: heap_step_frame_def valid_ptr_def)
  obtain H2 where 2: "DeleteAll (h_left H a) H1 = Some H2" "heap_step_frame (addrs l) H1 {} H2"
    using Node.IH(1)[OF step_frame_shape[OF sh(1) 1(2) dj(1)] d(1)] by blast
  have a2: "valid_ptr H2 a" using 2(2) a1 dj(2) by (auto simp: heap_step_frame_def valid_ptr_def)
  define H3 where "H3 = H2\<lparr>h_alloc := (h_alloc H2)(a := False)\<rparr>"
  have "DeleteAll q H = Some H3"
    using v a1 1(1) 2(1) a2
    by (simp add: DeleteAll_step rd_ok delete_addr_def H3_def)
  moreover have "heap_step_frame (addrs (Node l ak r)) H {} H3"
    using 1(2) 2(2) dj by (simp add: heap_step_frame_def H3_def ak) blast
  ultimately show ?case by blast
qed

end
