(* ===== verification/Splay_Properties.thy ===== *)
theory Splay_Properties
  imports Splay_Ops
begin

text \<open>
  What the clients of \<open>library/splay.cc\<close> may rely on: any sequence of its operations, started with
  an empty tree, behaves like the operations on a set of keys; the reported distance is the number
  of the greater keys; deletion gives every node back.  The key 0 marks the local node of \<open>Splay\<close>
  and is not stored by the clients, whose keys are counts of executed instructions.
\<close>

subsection \<open>Sequences of operations\<close>

datatype tree_op = T_Insert u64 | T_Delete u64 | T_Update u64 u64 | T_Find u64 | T_Distance u64

fun tree_op_step :: "tree_op \<Rightarrow> nat \<times> heap \<Rightarrow> (nat \<times> heap) option" where
  "tree_op_step (T_Insert k) (q, H) = Insert k q H"
| "tree_op_step (T_Delete k) (q, H) = Delete k q H"
| "tree_op_step (T_Update old new) (q, H) = Update old new q H"
| "tree_op_step (T_Find k) (q, H) = Find k q H"
| "tree_op_step (T_Distance k) (q, H) = map_option (\<lambda>(q, d, H). (q, H)) (ComputeDistance k q H)"

fun set_op_step :: "tree_op \<Rightarrow> u64 set \<Rightarrow> u64 set" where
  "set_op_step (T_Insert k) K = insert k K"
| "set_op_step (T_Delete k) K = K - {k}"
| "set_op_step (T_Update old new) K = insert new (K - {old})"
| "set_op_step (T_Find k) K = K"
| "set_op_step (T_Distance k) K = K"

fun tree_ops_run :: "tree_op list \<Rightarrow> nat \<times> heap \<Rightarrow> (nat \<times> heap) option" where
  "tree_ops_run [] t = Some t"
| "tree_ops_run (p # ps) t = Option.bind (tree_op_step p t) (tree_ops_run ps)"

text \<open>No operation stores the key 0, the mark of the local node of \<open>Splay\<close>.\<close>

fun stores_nonzero :: "tree_op \<Rightarrow> bool" where
  "stores_nonzero (T_Insert k) \<longleftrightarrow> k \<noteq> 0"
| "stores_nonzero (T_Update old new) \<longleftrightarrow> new \<noteq> 0"
| "stores_nonzero _ \<longleftrightarrow> True"

text \<open>The heap holds the tree and nothing else.\<close>

definition exactly :: "heap \<Rightarrow> nat \<Rightarrow> atree \<Rightarrow> bool" where
  "exactly H q T \<longleftrightarrow> rep H q T \<and> (\<forall>x. h_alloc H x \<longleftrightarrow> x \<in> addrs T)"

lemma step_frame_exactly:
  assumes "exactly H q T" "heap_step_frame (addrs T) H (addrs T') H'" "rep H' q' T'"
  shows "exactly H' q' T'"
  using assms by (auto simp: exactly_def heap_step_frame_def)

lemma tree_op_step_ok:
  assumes e: "exactly H q T" and k: "stores_nonzero p"
  shows "\<exists>q' H' T'. tree_op_step p (q, H) = Some (q', H') \<and> exactly H' q' T'
    \<and> keys T' = set_op_step p (keys T)"
proof -
  have r: "rep H q T" using e by (simp add: exactly_def)
  note ex = step_frame_exactly[OF e]
  show ?thesis
  proof (cases p)
    case (T_Insert k)
    then have "k \<noteq> 0" using assms(2) by simp
    then obtain q' H' T' where "Insert k q H = Some (q', H')" "rep H' q' T'" "keys T' = insert k (keys T)"
      "heap_step_frame (addrs T) H (addrs T') H'"
      using Insert_ok[OF r] by blast
    then show ?thesis using T_Insert ex[of T' H' q'] by auto
  next
    case (T_Delete k)
    obtain q' H' T' where "Delete k q H = Some (q', H')" "rep H' q' T'" "keys T' = keys T - {k}"
      "heap_step_frame (addrs T) H (addrs T') H'"
      using Delete_ok[OF r] by blast
    then show ?thesis using T_Delete ex[of T' H' q'] by auto
  next
    case (T_Update old new)
    then have "new \<noteq> 0" using assms(2) by simp
    then obtain q' H' T' where "Update old new q H = Some (q', H')" "rep H' q' T'"
      "keys T' = insert new (keys T - {old})" "heap_step_frame (addrs T) H (addrs T') H'"
      using Update_ok[OF r] by blast
    then show ?thesis using T_Update ex[of T' H' q'] by auto
  next
    case (T_Find k)
    obtain q' H' T' where "Splay k q H = Some (q', H')" "rep H' q' T'" "inorder T' = inorder T"
      "heap_step_frame (addrs T) H (addrs T) H'"
      using Splay_ok[OF r] by blast
    then show ?thesis using T_Find ex[of T' H' q'] inorder_eq_keys[of T' T] by (auto simp: Find_def)
  next
    case (T_Distance k)
    obtain q' d H' T' where "ComputeDistance k q H = Some (q', d, H')" "rep H' q' T'"
      "addrs T' = addrs T" "keys T' = keys T" "heap_step_frame (addrs T) H (addrs T) H'"
      using ComputeDistance_ok[OF r, of k] by blast
    then show ?thesis using T_Distance ex[of T' H' q'] by auto
  qed
qed

lemma tree_ops_run_ok:
  "exactly H q T \<Longrightarrow> \<forall>p \<in> set ps. stores_nonzero p \<Longrightarrow>
    \<exists>q' H' T'. tree_ops_run ps (q, H) = Some (q', H') \<and> exactly H' q' T'
      \<and> keys T' = fold set_op_step ps (keys T)"
proof (induction ps arbitrary: q H T)
  case (Cons p ps)
  obtain q1 H1 T1 where 1: "tree_op_step p (q, H) = Some (q1, H1)" "exactly H1 q1 T1"
    "keys T1 = set_op_step p (keys T)"
    using tree_op_step_ok[OF Cons.prems(1), of p] Cons.prems(2) by auto
  show ?case using Cons.IH[OF 1(2)] Cons.prems(2) 1(1,3) by auto
qed auto

lemma exactly_empty: "exactly empty_heap 0 Leaf"
  using rep_empty by (simp add: exactly_def) (simp add: empty_heap_def)

subsection \<open>Properties\<close>

text \<open>C1: Any sequence of calls of \<open>Insert\<close>, \<open>Delete\<close>, \<open>Update\<close>, \<open>Find\<close> and \<open>ComputeDistance\<close>, started
  with an empty tree, returns (no null or dangling pointer is followed and no loop runs for ever);
  the keys of the tree are the ones of the same operations on a set; the tree is a search tree
  with right subtree sizes, and no node is leaked.\<close>

theorem splay_refines_set:
  assumes "\<forall>p \<in> set ps. stores_nonzero p"
  shows "\<exists>q H T. tree_ops_run ps (0, empty_heap) = Some (q, H) \<and> exactly H q T
    \<and> keys T = fold set_op_step ps {}"
  using tree_ops_run_ok[OF exactly_empty assms] by simp

theorem splay_refines_set_witness:
  "\<exists>q H T. tree_ops_run [T_Insert 5, T_Insert 3, T_Update 5 9, T_Delete 3, T_Distance 9] (0, empty_heap) = Some (q, H)
    \<and> exactly H q T \<and> keys T = {9}"
proof -
  have "fold set_op_step [T_Insert 5, T_Insert 3, T_Update 5 9, T_Delete 3, T_Distance 9] {} = {9}"
    by auto
  then show ?thesis
    using splay_refines_set[of "[T_Insert 5, T_Insert 3, T_Update 5 9, T_Delete 3, T_Distance 9]"]
    by (simp del: fold.simps)
qed

text \<open>\<open>ComputeDistance\<close> reports for a stored key the number of the greater keys, and 0 for
  another key; it changes neither the keys nor the nodes, and the key, when it is stored, is at
  the new root.\<close>

theorem distance_counts_greater:
  assumes "rep H q T"
  shows "\<exists>q' H' T'. ComputeDistance key q H
      = Some (q', if key \<in> keys T then of_nat (card {x \<in> keys T. key < x}) else 0, H')
    \<and> rep H' q' T' \<and> addrs T' = addrs T \<and> keys T' = keys T
    \<and> (q' \<noteq> 0 \<and> h_key H' q' = key \<longleftrightarrow> key \<in> keys T)"
  using ComputeDistance_ok[OF assms] by blast

theorem distance_counts_greater_witness:
  "\<exists>q H q' H'. tree_ops_run [T_Insert 5, T_Insert 3, T_Insert 9] (0, empty_heap) = Some (q, H)
    \<and> ComputeDistance 3 q H = Some (q', 2, H')"
proof -
  obtain q H T where t: "tree_ops_run [T_Insert 5, T_Insert 3, T_Insert 9] (0, empty_heap) = Some (q, H)"
    "exactly H q T" "keys T = {9, 3, 5}"
    using tree_ops_run_ok[OF exactly_empty, of "[T_Insert 5, T_Insert 3, T_Insert 9]"] by auto
  have "{x \<in> {9, 3, 5}. 3 < x} = {9, 5 :: u64}" by auto
  then show ?thesis using distance_counts_greater[of H q T 3] t by (fastforce simp: exactly_def)
qed

text \<open>C33: \<open>DeleteAll\<close> of the tree of an analysis frees every node once: it returns, and of a heap that
  holds nothing else no node is left.\<close>

theorem delete_all_frees:
  assumes "exactly H q T"
  shows "\<exists>H'. DeleteAll q H = Some H' \<and> (\<forall>x. \<not> h_alloc H' x)"
proof -
  have r: "rep H q T" using assms by (simp add: exactly_def)
  show ?thesis using DeleteAll_ok[OF repD(2,4)[OF r]] assms
    by (auto simp: exactly_def heap_step_frame_def)
qed

theorem delete_all_frees_witness:
  "\<exists>q H H'. tree_ops_run [T_Insert 5, T_Insert 3] (0, empty_heap) = Some (q, H)
    \<and> DeleteAll q H = Some H' \<and> (\<forall>x. \<not> h_alloc H' x)"
proof -
  obtain q H T where "tree_ops_run [T_Insert 5, T_Insert 3] (0, empty_heap) = Some (q, H)" "exactly H q T"
    using tree_ops_run_ok[OF exactly_empty, of "[T_Insert 5, T_Insert 3]"] by auto
  then show ?thesis using delete_all_frees[of H q T] by blast
qed

end
