(* ===== verification/Cpp_Map.thy ===== *)
theory Cpp_Map
  imports Pisa_Prelude
begin

text \<open>
  \<open>std::map\<close> as the code uses it: an association list in increasing order of its keys, so that an
  iteration over the map is a traversal of the list.  \<open>mp_get\<close> is \<open>find\<close>, \<open>mp_put\<close> is the
  assignment \<open>m[k] = v\<close> (or \<open>it->second = v\<close>), \<open>mp_insert\<close> is \<open>insert\<close>, which keeps an old
  entry, and \<open>mp_bump\<close> is the update of a counter.  \<open>set_intersection\<close> is the algorithm of the
  standard library on two sorted ranges.
\<close>

type_synonym ('k, 'v) cmap = "('k \<times> 'v) list"

definition mp_ok :: "('k :: linorder, 'v) cmap \<Rightarrow> bool" where
  "mp_ok m \<longleftrightarrow> sorted_wrt (<) (map fst m)"

definition mp_get :: "'k \<Rightarrow> ('k, 'v) cmap \<Rightarrow> 'v option" where
  "mp_get k m = map_of m k"

fun mp_put :: "'k :: linorder \<Rightarrow> 'v \<Rightarrow> ('k, 'v) cmap \<Rightarrow> ('k, 'v) cmap" where
  "mp_put k v [] = [(k, v)]"
| "mp_put k v ((k', v') # m) =
    (if k < k' then (k, v) # (k', v') # m
     else if k = k' then (k, v) # m
     else (k', v') # mp_put k v m)"

definition mp_insert :: "'k :: linorder \<Rightarrow> 'v \<Rightarrow> ('k, 'v) cmap \<Rightarrow> ('k, 'v) cmap" where
  "mp_insert k v m = (case mp_get k m of None \<Rightarrow> mp_put k v m | Some _ \<Rightarrow> m)"

definition mp_keys :: "('k, 'v) cmap \<Rightarrow> 'k set" where
  "mp_keys m = fst ` set m"

lemma mp_ok_Nil [simp]: "mp_ok []"
  by (simp add: mp_ok_def)

lemma mp_get_Nil [simp]: "mp_get k [] = None"
  by (simp add: mp_get_def)

lemma mp_keys_put [simp]: "mp_keys (mp_put k v m) = insert k (mp_keys m)"
  by (induction k v m rule: mp_put.induct) (auto simp: mp_keys_def)

lemma mp_keys_Nil [simp]: "mp_keys [] = {}"
  by (simp add: mp_keys_def)

lemma mp_keys_Cons [simp]: "mp_keys (x # m) = insert (fst x) (mp_keys m)"
  by (simp add: mp_keys_def)

lemma mp_keys_dom: "mp_keys m = dom (\<lambda>k. mp_get k m)"
  by (simp add: mp_keys_def mp_get_def dom_map_of_conv_image_fst)

lemma mp_get_None_iff: "mp_get k m = None \<longleftrightarrow> k \<notin> mp_keys m"
  by (auto simp: mp_keys_dom)

lemma mp_ok_Cons: "mp_ok ((k, v) # m) \<longleftrightarrow> (\<forall>x \<in> mp_keys m. k < x) \<and> mp_ok m"
  by (auto simp: mp_ok_def mp_keys_def)

lemma mp_ok_put [simp]: "mp_ok m \<Longrightarrow> mp_ok (mp_put k v m)"
  by (induction k v m rule: mp_put.induct) (fastforce simp: mp_ok_Cons)+

lemma mp_get_put:
  "mp_ok m \<Longrightarrow> mp_get j (mp_put k v m) = (if j = k then Some v else mp_get j m)"
proof (induction k v m rule: mp_put.induct)
  case (2 k v k' v' m)
  have "mp_get k' m = None" using 2(2) by (auto simp: mp_ok_Cons mp_get_None_iff)
  then show ?case using 2 by (auto simp: mp_ok_Cons mp_get_def)
qed (simp add: mp_get_def)

lemma mp_get_put_same [simp]: "mp_ok m \<Longrightarrow> mp_get k (mp_put k v m) = Some v"
  by (simp add: mp_get_put)

lemma mp_ok_insert [simp]: "mp_ok m \<Longrightarrow> mp_ok (mp_insert k v m)"
  by (simp add: mp_insert_def split: option.split)

lemma mp_get_insert:
  "mp_ok m \<Longrightarrow> mp_get j (mp_insert k v m) = (if j = k \<and> mp_get k m = None then Some v else mp_get j m)"
  by (auto simp: mp_insert_def mp_get_put split: option.split)

lemma mp_keys_insert [simp]: "mp_keys (mp_insert k v m) = insert k (mp_keys m)"
  using mp_get_None_iff[of k m] by (auto simp: mp_insert_def split: option.split)

lemma mp_get_in: "mp_get k m = Some v \<Longrightarrow> (k, v) \<in> set m"
  by (simp add: mp_get_def map_of_SomeD)

lemma mp_in_get: "mp_ok m \<Longrightarrow> (k, v) \<in> set m \<Longrightarrow> mp_get k m = Some v"
  by (metis mp_get_def mp_ok_def strict_sorted_iff map_of_is_SomeI)

lemma mp_length: "mp_ok m \<Longrightarrow> length m = card (mp_keys m)"
  unfolding mp_ok_def mp_keys_def strict_sorted_iff
  by (metis distinct_card length_map list.set_map)

subsection \<open>Maps of counters\<close>

definition mp_bump :: "'k :: linorder \<Rightarrow> ('k, u64) cmap \<Rightarrow> ('k, u64) cmap" where
  "mp_bump k m = (case mp_get k m of None \<Rightarrow> mp_put k 1 m | Some n \<Rightarrow> mp_put k (n + 1) m)"

definition mp_total :: "('k, u64) cmap \<Rightarrow> u64" where
  "mp_total m = sum_list (map snd m)"

lemma mp_ok_bump [simp]: "mp_ok m \<Longrightarrow> mp_ok (mp_bump k m)"
  by (simp add: mp_bump_def split: option.split)

lemma mp_get_bump:
  "mp_ok m \<Longrightarrow> mp_get j (mp_bump k m)
    = (if j = k then Some (case mp_get k m of None \<Rightarrow> 1 | Some n \<Rightarrow> n + 1) else mp_get j m)"
  by (auto simp: mp_bump_def mp_get_put split: option.split)

lemma mp_keys_bump [simp]: "mp_keys (mp_bump k m) = insert k (mp_keys m)"
  by (simp add: mp_bump_def split: option.split)

lemma mp_total_put:
  "mp_ok m \<Longrightarrow> mp_total (mp_put k v m) = mp_total m + v - (case mp_get k m of None \<Rightarrow> 0 | Some n \<Rightarrow> n)"
proof (induction k v m rule: mp_put.induct)
  case (2 k v k' v' m)
  have "k < k' \<Longrightarrow> mp_get k m = None" using 2(2) by (force simp: mp_ok_Cons mp_get_None_iff)
  then show ?case using 2 by (auto simp: mp_ok_Cons mp_get_def mp_total_def)
qed (simp add: mp_total_def)

lemma mp_total_bump [simp]: "mp_ok m \<Longrightarrow> mp_total (mp_bump k m) = mp_total m + 1"
  by (auto simp: mp_bump_def mp_total_put split: option.split)

subsection \<open>The intersection of sorted ranges\<close>

fun set_intersection :: "('k :: linorder \<times> 'v) list \<Rightarrow> ('k \<times> 'w) list \<Rightarrow> ('k \<times> 'v) list" where
  "set_intersection [] ys = []"
| "set_intersection (x # xs) [] = []"
| "set_intersection (x # xs) (y # ys) =
    (if fst x < fst y then set_intersection xs (y # ys)
     else if fst y < fst x then set_intersection (x # xs) ys
     else x # set_intersection xs ys)"

lemma set_intersection_filter:
  "mp_ok xs \<Longrightarrow> mp_ok ys \<Longrightarrow> set_intersection xs ys = filter (\<lambda>x. fst x \<in> mp_keys ys) xs"
proof (induction xs ys rule: set_intersection.induct)
  case (3 x xs y ys)
  obtain kx vx ky vy where xy: "x = (kx, vx)" "y = (ky, vy)" by (cases x, cases y)
  note ok = 3(4,5)[unfolded xy mp_ok_Cons]
  consider "kx < ky" | "ky < kx" | "kx = ky" by fastforce
  then show ?case
  proof cases
    case 1
    then have "kx \<noteq> ky" "kx \<notin> mp_keys ys" using ok by force+
    then show ?thesis using "3.IH"(1) 3(4,5) 1 ok by (simp add: xy mp_ok_Cons)
  next
    case 2
    then have lt: "\<not> kx < ky" by (rule less_not_sym)
    from 2 have "fst z \<noteq> ky" if "z \<in> set (x # xs)" for z using ok that by (force simp: xy mp_keys_def)
    then have "filter (\<lambda>z. fst z \<in> mp_keys (y # ys)) (x # xs) = filter (\<lambda>z. fst z \<in> mp_keys ys) (x # xs)"
      by (intro filter_cong) (auto simp: xy)
    moreover have "set_intersection (x # xs) (y # ys) = set_intersection (x # xs) ys"
      using 2 lt by (simp add: xy)
    ultimately show ?thesis using "3.IH"(2) 3(4) 2 ok by (simp add: xy mp_ok_Cons lt)
  next
    case 3
    then have "fst z \<noteq> ky" if "z \<in> set xs" for z using ok that by (force simp: xy mp_keys_def)
    then have "filter (\<lambda>z. fst z \<in> mp_keys (y # ys)) xs = filter (\<lambda>z. fst z \<in> mp_keys ys) xs"
      by (intro filter_cong) (auto simp: xy)
    then show ?thesis using "3.IH"(3) 3 ok by (simp add: xy)
  qed
qed (simp_all add: mp_keys_def)

lemma mp_ok_filter: "mp_ok m \<Longrightarrow> mp_ok (filter P m)"
  by (induction m) (auto simp: mp_ok_def)

lemma set_intersection_ok:
  assumes "mp_ok xs" "mp_ok ys"
  shows "mp_ok (set_intersection xs ys)" "mp_keys (set_intersection xs ys) = mp_keys xs \<inter> mp_keys ys"
    "length (set_intersection xs ys) \<le> length xs"
  unfolding set_intersection_filter[OF assms]
  using assms(1) by (auto simp: mp_ok_filter mp_keys_def)

end
