(* ===== verification/Cpp_Double.thy ===== *)
theory Cpp_Double
  imports Complex_Main Cpp_Map
begin

text \<open>
  The arithmetic on \<open>double\<close>: a finite value is a rational, and every operation rounds its exact
  result to the nearest value with a 53 bit significand, ties to even.  The range of the exponent
  is not bounded (the quotients of 64 bit counters that the code prints are far from its ends).
  \<open>None\<close> is a value that is not finite, or the result of a conversion that C++ leaves undefined.
\<close>

type_synonym dbl = "rat option"

fun bit_count :: "nat \<Rightarrow> nat" where
  "bit_count n = (if n = 0 then 0 else Suc (bit_count (n div 2)))"

declare bit_count.simps [simp del]

definition round_half_even :: "rat \<Rightarrow> int" where
  "round_half_even y =
    (let f = \<lfloor>y\<rfloor>; d = y - of_int f
     in if d < 1 / 2 then f else if 1 / 2 < d then f + 1 else if even f then f else f + 1)"

text \<open>The exponent of the binade of a positive rational.\<close>

definition binade :: "rat \<Rightarrow> int" where
  "binade x = (case quotient_of x of (p, q) \<Rightarrow>
     let e = int (bit_count (nat p)) - int (bit_count (nat q))
     in if 2 powi e \<le> x then e else e - 1)"

definition round_double :: "rat \<Rightarrow> rat" where
  "round_double x =
    (if x = 0 then 0
     else let u = 2 powi (binade \<bar>x\<bar> - 52)
          in sgn x * (of_int (round_half_even (\<bar>x\<bar> / u)) * u))"

lemma bit_count_bounds: "n \<noteq> 0 \<Longrightarrow> 2 ^ bit_count n \<le> 2 * n \<and> n < 2 ^ bit_count n"
proof (induction n rule: bit_count.induct)
  case (1 n)
  show ?case
  proof (cases "n div 2 = 0")
    case True
    then have "n = 1" using 1(2) by simp
    then show ?thesis by (simp add: bit_count.simps)
  next
    case False
    have "2 ^ bit_count (n div 2) \<le> 2 * (n div 2) \<and> n div 2 < 2 ^ bit_count (n div 2)"
      using 1 False by blast
    then have "2 * 2 ^ bit_count (n div 2) \<le> 2 * n \<and> n < 2 * 2 ^ bit_count (n div 2)"
      by linarith
    then show ?thesis using 1(2) by (subst (1 2) bit_count.simps) simp
  qed
qed

lemma binade_bounds:
  assumes x: "0 < x" shows "2 powi (binade x) \<le> x" "x < 2 powi (binade x + 1)"
proof -
  obtain p q where pq: "quotient_of x = (p, q)" by (cases "quotient_of x")
  have q: "0 < q" and eq: "x = of_int p / of_int q"
    using quotient_of_denom_pos[OF pq] quotient_of_div[OF pq] by auto
  have p: "0 < p" using x q unfolding eq by (simp add: zero_less_divide_iff)
  define a b where "a = bit_count (nat p)" and "b = bit_count (nat q)"
  have B: "(2::rat) ^ bit_count (nat z) \<le> 2 * of_int z" "of_int z < (2::rat) ^ bit_count (nat z)"
    if z: "0 < z" for z
  proof -
    have "2 ^ bit_count (nat z) \<le> 2 * nat z" "nat z < 2 ^ bit_count (nat z)"
      using bit_count_bounds[of "nat z"] z by simp_all
    then have "of_nat (2 ^ bit_count (nat z)) \<le> (of_nat (2 * nat z) :: rat)"
      "of_nat (nat z) < (of_nat (2 ^ bit_count (nat z)) :: rat)"
      unfolding of_nat_le_iff of_nat_less_iff by blast+
    then show "(2::rat) ^ bit_count (nat z) \<le> 2 * of_int z" "of_int z < (2::rat) ^ bit_count (nat z)"
      using z by simp_all
  qed
  note P = B[OF p, folded a_def] and Q = B[OF q, folded b_def]
  have q': "0 < (of_int q :: rat)" using q by simp
  have e: "(2::rat) powi (int a - int b) = 2 ^ a / 2 ^ b"
    by (simp add: power_int_diff)
  have up: "x < 2 powi (int a - int b + 1)"
  proof -
    have "of_int p * (2::rat) ^ b < 2 ^ a * 2 ^ b" using P(2) by (rule mult_strict_right_mono) simp
    also have "\<dots> \<le> 2 ^ a * (2 * of_int q)" using Q(1) by (rule mult_left_mono) simp
    finally have "x < 2 * (2 ^ a / 2 ^ b)" using q' by (simp add: eq field_simps)
    then show ?thesis by (simp add: power_int_add e mult.commute)
  qed
  have lo: "2 powi (int a - int b - 1) \<le> x"
  proof -
    have "(2::rat) ^ a * of_int q \<le> 2 * of_int p * 2 ^ b"
      by (rule mult_mono) (use P Q q' p in auto)
    then have "2 ^ a / 2 ^ b / 2 \<le> x" using q' by (simp add: eq field_simps)
    then show ?thesis by (simp add: power_int_diff)
  qed
  have "binade x = (if 2 powi (int a - int b) \<le> x then int a - int b else int a - int b - 1)"
    by (simp add: binade_def pq a_def b_def Let_def)
  then show "2 powi (binade x) \<le> x" "x < 2 powi (binade x + 1)"
    using up lo by (auto split: if_splits)
qed

lemma round_half_even_int [simp]: "round_half_even (of_int n) = n"
  by (simp add: round_half_even_def)

lemma round_half_even_mono:
  assumes "x \<le> y" shows "round_half_even x \<le> round_half_even y"
proof -
  have f: "\<lfloor>x\<rfloor> \<le> \<lfloor>y\<rfloor>" using assms by (rule floor_mono)
  show ?thesis
  proof (cases "\<lfloor>x\<rfloor> = \<lfloor>y\<rfloor>")
    case True
    then show ?thesis using assms by (auto simp: round_half_even_def Let_def)
  next
    case False
    then have "\<lfloor>x\<rfloor> + 1 \<le> \<lfloor>y\<rfloor>" using f by simp
    moreover have "round_half_even x \<le> \<lfloor>x\<rfloor> + 1" "\<lfloor>y\<rfloor> \<le> round_half_even y"
      by (auto simp: round_half_even_def Let_def)
    ultimately show ?thesis by linarith
  qed
qed

lemma round_double_pos:
  "0 < x \<Longrightarrow> round_double x
    = of_int (round_half_even (x / 2 powi (binade x - 52))) * 2 powi (binade x - 52)"
  by (simp add: round_double_def Let_def)

lemma round_double_bounds:
  assumes x: "0 < x"
  shows "2 powi (binade x) \<le> round_double x" "round_double x \<le> 2 powi (binade x + 1)"
proof -
  define u :: rat where "u = 2 powi (binade x - 52)"
  have u: "0 < u" by (simp add: u_def)
  have b: "2 powi (binade x) = of_int (2 ^ 52) * u" "2 powi (binade x + 1) = of_int (2 ^ 53) * u"
    by (simp_all add: u_def power_int_diff power_int_add)
  have "of_int (2 ^ 52) \<le> x / u" "x / u \<le> of_int (2 ^ 53)"
    using binade_bounds[OF x] u unfolding b by (simp_all add: field_simps)
  from this[THEN round_half_even_mono]
  have "2 ^ 52 \<le> round_half_even (x / u)" "round_half_even (x / u) \<le> 2 ^ 53"
    unfolding round_half_even_int by simp_all
  then have "(of_int (2 ^ 52) :: rat) \<le> of_int (round_half_even (x / u))"
      "of_int (round_half_even (x / u)) \<le> (of_int (2 ^ 53) :: rat)"
    unfolding of_int_le_iff .
  then show "2 powi (binade x) \<le> round_double x" "round_double x \<le> 2 powi (binade x + 1)"
    unfolding b round_double_pos[OF x] u_def[symmetric] using u
    by (simp_all add: mult_right_mono)
qed

lemma binade_mono: assumes "0 < x" "x \<le> y" shows "binade x \<le> binade y"
proof (rule ccontr)
  assume "\<not> binade x \<le> binade y"
  then have "(2::rat) powi (binade y + 1) \<le> 2 powi binade x"
    by (intro power_int_increasing) auto
  then show False using binade_bounds(1)[OF assms(1)] binade_bounds(2)[of y] assms by simp
qed

lemma round_double_mono:
  assumes "0 \<le> x" "x \<le> y" shows "round_double x \<le> round_double y"
proof (cases "x = 0")
  case True
  show ?thesis
  proof (cases "y = 0")
    case False
    then have "0 < y" using assms by simp
    then show ?thesis using round_double_bounds(1)[of y] True
      by (simp add: round_double_def[of 0]) (meson order.trans zero_le_power_int zero_le_numeral)
  qed (use True in simp)
next
  case False
  then have x: "0 < x" and y: "0 < y" using assms by auto
  show ?thesis
  proof (cases "binade x = binade y")
    case True
    then show ?thesis using assms(2) unfolding round_double_pos[OF x] round_double_pos[OF y] True
      by (intro mult_right_mono of_int_le_iff[THEN iffD2] round_half_even_mono divide_right_mono) auto
  next
    case False
    then have "(2::rat) powi (binade x + 1) \<le> 2 powi binade y"
      using binade_mono[OF x assms(2)] by (intro power_int_increasing) auto
    then show ?thesis using round_double_bounds(2)[OF x] round_double_bounds(1)[OF y] by simp
  qed
qed

lemma round_double_nonneg: "0 \<le> x \<Longrightarrow> 0 \<le> round_double x"
  using round_double_mono[of 0 x] by (simp add: round_double_def[of 0])

lemma round_double_nat:
  assumes "n < 2 ^ 53" shows "round_double (of_nat n) = of_nat n"
proof (cases "n = 0")
  case False
  then have x: "0 < (of_nat n :: rat)" by simp
  have "(of_nat n :: rat) < 2 ^ 53" using assms by (metis of_nat_less_iff of_nat_numeral of_nat_power)
  then have "(2::rat) powi (binade (of_nat n)) < 2 powi 53"
    using binade_bounds(1)[OF x] by simp
  then have e: "binade (of_nat n) \<le> 52"
    using power_int_increasing[of 53 "binade (of_nat n)" "2::rat"] by fastforce
  define k where "k = nat (52 - binade (of_nat n))"
  have u: "(2::rat) powi (binade (of_nat n) - 52) = 1 / 2 ^ k"
    using e by (simp add: k_def power_int_def power_one_over)
  have "of_nat n / (2 powi (binade (of_nat n) - 52)) = (of_int (int n * 2 ^ k) :: rat)"
    by (simp add: u)
  then have "round_half_even (of_nat n / (2 powi (binade (of_nat n) - 52))) = int n * 2 ^ k"
    by (simp only: round_half_even_int)
  then show ?thesis unfolding round_double_pos[OF x] by (simp add: u)
qed (simp add: round_double_def)

subsection \<open>The expressions of the code\<close>

definition u64_rat :: "u64 \<Rightarrow> rat" where
  "u64_rat a = of_nat (unat a)"

lemma u64_rat_nonneg [simp]: "0 \<le> u64_rat a"
  unfolding u64_rat_def by (rule of_nat_0_le_iff)

lemma u64_rat_mono: "a \<le> b \<Longrightarrow> u64_rat a \<le> u64_rat b"
  unfolding u64_rat_def of_nat_le_iff by (simp add: word_le_nat_alt)

lemma u64_rat_pos: "a \<noteq> 0 \<Longrightarrow> 1 \<le> u64_rat a"
proof -
  assume "a \<noteq> 0"
  then have "1 \<le> unat a" by (simp add: Suc_leI unat_gt_0)
  then have "of_nat 1 \<le> (of_nat (unat a) :: rat)" unfolding of_nat_le_iff .
  then show ?thesis by (simp add: u64_rat_def del: of_nat_unat)
qed

text \<open>\<open>(double) a / b\<close> for two counters.\<close>

definition u64_ratio :: "u64 \<Rightarrow> u64 \<Rightarrow> dbl" where
  "u64_ratio a b = (if b = 0 then None
     else Some (round_double (round_double (u64_rat a) / round_double (u64_rat b))))"

definition double4 :: "dbl \<Rightarrow> dbl" where
  "double4 x = (case x of None \<Rightarrow> None
     | Some x \<Rightarrow> let y = round_double (x * 10000)
       in if - 1 < y \<and> y < 2 ^ 64
          then Some (round_double (round_double (of_int (if 0 \<le> y then \<lfloor>y\<rfloor> else 0)) / 10000))
          else None)"

lemma u64_ratio_mono:
  assumes "a \<le> b" "u64_ratio a n = Some x" "u64_ratio b n = Some y" shows "x \<le> y"
proof -
  have "round_double (u64_rat a) \<le> round_double (u64_rat b)"
    using assms(1) by (intro round_double_mono u64_rat_mono) auto
  then show ?thesis using assms(2,3)
    by (auto simp: u64_ratio_def split: if_splits
        intro!: round_double_mono divide_right_mono divide_nonneg_nonneg round_double_nonneg)
qed

lemma u64_ratio_nonneg: "u64_ratio a n = Some x \<Longrightarrow> 0 \<le> x"
  by (auto simp: u64_ratio_def split: if_splits
      intro!: divide_nonneg_nonneg round_double_nonneg)

lemma double4_mono:
  assumes "0 \<le> x" "x \<le> y" "double4 (Some x) = Some u" "double4 (Some y) = Some v" shows "u \<le> v"
proof -
  have m: "round_double (x * 10000) \<le> round_double (y * 10000)" and n: "0 \<le> round_double (x * 10000)"
    using assms(1,2) by (auto intro!: round_double_mono round_double_nonneg)
  then have "0 \<le> round_double (y * 10000)" by simp
  then show ?thesis using assms(3,4) n floor_mono[OF m]
    by (auto simp: double4_def Let_def split: if_splits
        intro!: round_double_mono divide_right_mono divide_nonneg_nonneg round_double_nonneg)
qed

lemma double4_1: "double4 (u64_ratio n n) = (if n = 0 then None else Some 1)"
proof -
  have "round_double (u64_rat n) \<noteq> 0" if "n \<noteq> 0"
    using round_double_mono[OF _ u64_rat_pos[OF that]] round_double_nat[of 1] by auto
  then show ?thesis using round_double_nat[of 1] round_double_nat[of 10000]
    by (simp add: u64_ratio_def double4_def)
qed

text \<open>Every ratio of a counter to a norm that is not smaller can be printed.\<close>

lemma double4_defined:
  assumes "0 \<le> x" "x \<le> 1" shows "\<exists>u. double4 (Some x) = Some u"
proof -
  have "round_double (x * 10000) \<le> round_double (of_nat 10000)" "0 \<le> round_double (x * 10000)"
    using assms by (auto intro!: round_double_mono round_double_nonneg)
  then show ?thesis using round_double_nat[of 10000] by (simp add: double4_def Let_def)
qed

end
