(* ===== verification/Pisa_Utils.thy ===== *)
theory Pisa_Utils
  imports Cpp_Double
begin

text \<open>
  \<open>library/utils.cc\<close>: the power-of-two binning of the reuse distances, the rounding of the
  printed ratios, the matching of MPI names, and the intersections of the address maps.  The
  functions that look up an element of the LLVM module are in the theory of the LLVM interface.
\<close>

unbundle bit_operations_syntax

subsection \<open>upperPowerOfTwo\<close>

definition smear :: "nat \<Rightarrow> u64 \<Rightarrow> u64" where
  "smear n v = v OR drop_bit n v"

definition upperPowerOfTwo :: "u64 \<Rightarrow> u64" where
  "upperPowerOfTwo v =
    (if v = 0 then v
     else let v = v - 1;
              v = smear 1 v; v = smear 2 v; v = smear 4 v;
              v = smear 8 v; v = smear 16 v; v = smear 32 v
          in v + 1)"

definition smeared :: "u64 \<Rightarrow> nat \<Rightarrow> u64 \<Rightarrow> bool" where
  "smeared v n w \<longleftrightarrow> (\<forall>i. bit w i \<longleftrightarrow> (\<exists>j. i \<le> j \<and> j < i + n \<and> bit v j))"

lemma smear_step:
  assumes "smeared v n w" shows "smeared v (n + n) (smear n w)"
  unfolding smeared_def
proof
  fix i
  have "bit (smear n w) i \<longleftrightarrow> bit w i \<or> bit w (i + n)"
    by (simp add: smear_def bit_or_iff bit_drop_bit_eq add.commute)
  also have "\<dots> \<longleftrightarrow> (\<exists>j. i \<le> j \<and> j < i + (n + n) \<and> bit v j)"
    using assms unfolding smeared_def
    by (metis (no_types, opaque_lifting) add.assoc le_add1 le_trans less_le_trans linorder_not_less nat_le_linear)
  finally show "bit (smear n w) i \<longleftrightarrow> (\<exists>j. i \<le> j \<and> j < i + (n + n) \<and> bit v j)" .
qed

lemma smear_all:
  "bit (smear 32 (smear 16 (smear 8 (smear 4 (smear 2 (smear 1 v)))))) i \<longleftrightarrow> (\<exists>j\<ge>i. bit v j)"
proof -
  have 1: "smeared v 1 v"
    by (auto simp: smeared_def) (metis le_antisym less_Suc_eq_le)
  have "smeared v 64 (smear 32 (smear 16 (smear 8 (smear 4 (smear 2 (smear 1 v))))))"
    using 1[THEN smear_step, THEN smear_step, THEN smear_step, THEN smear_step, THEN smear_step, THEN smear_step]
    by (simp del: One_nat_def)
  then show ?thesis
    unfolding smeared_def using bit_imp_le_length[of v] by (auto; fastforce)
qed

lemma smear_mask:
  assumes "v \<noteq> 0"
  obtains k where "k < 64" "2 ^ k \<le> unat v" "unat v < 2 ^ Suc k"
    "smear 32 (smear 16 (smear 8 (smear 4 (smear 2 (smear 1 v))))) = mask (Suc k)"
proof -
  define k where "k = Max {j. bit v j}"
  have fin: "finite {j. bit v j}"
    by (rule finite_subset[of _ "{..<64}"]) (use bit_imp_le_length[of v] in auto)
  have ne: "{j. bit v j} \<noteq> {}" using assms bit_eq_iff[of v 0] by auto
  have k: "bit v k" "\<And>j. bit v j \<Longrightarrow> j \<le> k"
    using Max_in[OF fin ne] Max_ge[OF fin] by (auto simp: k_def)
  have k64: "k < 64" using bit_imp_le_length[OF k(1)] by simp
  have "unat v < 2 ^ Suc k"
  proof (rule ccontr)
    assume "\<not> unat v < 2 ^ Suc k"
    then have "take_bit (Suc k) v \<noteq> v"
      by (metis take_bit_nat_less_exp unsigned_take_bit_eq)
    then obtain i where "bit v i" "Suc k \<le> i"
      by (metis bit_eqI bit_take_bit_iff not_less_eq_eq linorder_not_le)
    then show False using k(2) by fastforce
  qed
  moreover have "2 ^ k \<le> unat v"
  proof (rule ccontr)
    assume "\<not> 2 ^ k \<le> unat v"
    then have "take_bit k (unat v) = unat v" by (simp add: take_bit_nat_eq_self_iff)
    then have "\<not> bit (unat v) k" by (metis bit_take_bit_iff less_irrefl)
    then show False using k(1) by (simp add: bit_unsigned_iff)
  qed
  moreover have "smear 32 (smear 16 (smear 8 (smear 4 (smear 2 (smear 1 v))))) = mask (Suc k)"
  proof (rule bit_eqI)
    fix i
    show "bit (smear 32 (smear 16 (smear 8 (smear 4 (smear 2 (smear 1 v)))))) i = bit (mask (Suc k) :: u64) i"
      unfolding smear_all bit_mask_iff using k k64 by (auto simp: less_Suc_eq_le) (meson le_less_trans le_trans)+
  qed
  ultimately show thesis using that k64 by blast
qed


lemma mask_plus_1: "k < 63 \<Longrightarrow> mask (Suc k) + 1 = (2 ^ Suc k :: u64)" "mask 64 + 1 = (0 :: u64)"
  by (simp_all add: mask_eq_decr_exp)

lemma upperPowerOfTwo_small:
  assumes "v \<noteq> 0" "unat v \<le> 2 ^ 63"
  obtains n where "n \<le> 63" "upperPowerOfTwo v = 2 ^ n" "unat v \<le> 2 ^ n" "n = 0 \<or> 2 ^ (n - 1) < unat v"
proof (cases "v = 1")
  case True
  then show ?thesis using that[of 0] by (simp add: upperPowerOfTwo_def smear_def)
next
  case False
  then have "v - 1 \<noteq> 0" by simp
  then obtain k where k: "k < 64" "2 ^ k \<le> unat (v - 1)" "unat (v - 1) < 2 ^ Suc k"
    "smear 32 (smear 16 (smear 8 (smear 4 (smear 2 (smear 1 (v - 1)))))) = mask (Suc k)"
    by (rule smear_mask)
  have u: "unat (v - 1) = unat v - 1" using assms(1) by (simp add: unat_minus_one)
  have "k < 63"
  proof (rule ccontr)
    assume "\<not> k < 63"
    then have "k = 63" using k(1) by simp
    then show False using k(2) assms u by (simp add: unat_eq_0[symmetric])
  qed
  then have "upperPowerOfTwo v = 2 ^ Suc k"
    using assms(1) k(4) mask_plus_1(1)[of k] by (simp add: upperPowerOfTwo_def Let_def del: One_nat_def)
  moreover have "unat v \<noteq> 0" using assms(1) by (simp add: unat_eq_0)
  ultimately show ?thesis using that[of "Suc k"] k(2,3) u \<open>k < 63\<close> by simp
qed

lemma upperPowerOfTwo_wraps:
  assumes "2 ^ 63 < unat v" shows "upperPowerOfTwo v = 0"
proof -
  have v: "v \<noteq> 0" using assms by auto
  have u: "unat (v - 1) = unat v - 1" using v by (simp add: unat_minus_one)
  then have "v - 1 \<noteq> 0" using assms by (auto simp: unat_eq_0[symmetric])
  then obtain k where k: "k < 64" "2 ^ k \<le> unat (v - 1)" "unat (v - 1) < 2 ^ Suc k"
    "smear 32 (smear 16 (smear 8 (smear 4 (smear 2 (smear 1 (v - 1)))))) = mask (Suc k)"
    by (rule smear_mask)
  have "2 ^ 63 < (2::nat) ^ Suc k" using k(3) u assms by linarith
  then have "63 < Suc k" by (rule power_less_imp_less_exp[rotated]) simp
  then have "Suc k = 64" using k(1) by simp
  then show ?thesis using v k(4) mask_plus_1(2) by (simp add: upperPowerOfTwo_def Let_def del: One_nat_def)
qed

subsection \<open>Names of MPI functions\<close>

text \<open>The characters of a \<open>std::string\<close> that a C function sees.\<close>

definition c_str :: "string \<Rightarrow> string" where
  "c_str s = takeWhile (\<lambda>c. c \<noteq> CHR 0x00) s"

definition tolower :: "char \<Rightarrow> char" where
  "tolower c = (let n = of_char c :: nat in if 65 \<le> n \<and> n \<le> 90 then char_of (n + 32) else c)"

definition strcaseeq :: "string \<Rightarrow> string \<Rightarrow> bool" where
  "strcaseeq a b \<longleftrightarrow> map tolower a = map tolower b"

definition strncaseeq :: "string \<Rightarrow> string \<Rightarrow> nat \<Rightarrow> bool" where
  "strncaseeq a b n \<longleftrightarrow> map tolower (take n a) = map tolower (take n b)"

definition mpiMatchName :: "string \<Rightarrow> string \<Rightarrow> bool" where
  "mpiMatchName callName mpiCallPattern =
    (let len = length mpiCallPattern;
         res = strncaseeq (c_str callName) mpiCallPattern len
     in if res
        then let e = (if len < length callName then callName ! len else CHR 0x00)
             in e = CHR 0x00 \<or> e = CHR ''_''
        else res)"

text \<open>The operations that the analyses treat as synchronising.  \<open>name.back()\<close> is not defined on an
  empty name.\<close>

definition mpi_sync_names :: "string list" where
  "mpi_sync_names = [''MPI_Send'', ''MPI_Recv'', ''MPI_Sendrecv'', ''MPI_Sendrecv_replace'',
     ''MPI_Isend'', ''MPI_Irecv'', ''MPI_Wait'', ''MPI_Test'', ''MPI_Bcast'', ''MPI_Reduce'',
     ''MPI_Gather'', ''MPI_Gatherv'', ''MPI_Allreduce'', ''MPI_Allgather'', ''MPI_Allgatherv'',
     ''MPI_Alltoall'', ''MPI_Alltoallv'', ''MPI_Scatter'', ''MPI_Scatterv'']"

definition is_mpi_sync_call :: "string \<Rightarrow> bool option" where
  "is_mpi_sync_call name =
    (if name = [] then None
     else let name = (if last name = CHR ''_'' then butlast name else name)
          in Some (\<exists>p \<in> set mpi_sync_names. strcaseeq (c_str name) p))"

lemma tolower_eq_nonletter:
  fixes d :: char
  assumes "of_char d < (65 :: nat) \<or> 90 < (of_char d :: nat) \<and> (of_char d < (97 :: nat) \<or> 122 < (of_char d :: nat))"
  shows "tolower c = d \<longleftrightarrow> c = d"
proof (cases "65 \<le> (of_char c :: nat) \<and> (of_char c :: nat) \<le> 90")
  case True
  then have "take_bit 8 (of_char c + 32 :: nat) = of_char c + 32"
    by (simp add: take_bit_nat_eq_self_iff)
  then have "tolower c = d \<longleftrightarrow> of_char d = (of_char c + 32 :: nat)"
    using True by (auto simp: tolower_def Let_def char_of_eq_iff)
  then show ?thesis using True assms by auto
next
  case False
  then show ?thesis by (auto simp: tolower_def Let_def)
qed

lemma tolower_underscore [simp]: "tolower c = CHR ''_'' \<longleftrightarrow> c = CHR ''_''"
  by (rule tolower_eq_nonletter) simp

lemma c_str_id: "CHR 0x00 \<notin> set s \<Longrightarrow> c_str s = s"
  by (auto simp: c_str_def)

lemma mpiMatchName_iff:
  assumes n: "CHR 0x00 \<notin> set n" and p: "CHR 0x00 \<notin> set p"
  shows "mpiMatchName n p \<longleftrightarrow> strcaseeq n p \<or> (\<exists>s. strcaseeq n (p @ CHR ''_'' # s))"
proof
  assume "mpiMatchName n p"
  then have t: "map tolower (take (length p) n) = map tolower p"
    and e: "length p < length n \<Longrightarrow> n ! length p = CHR 0x00 \<or> n ! length p = CHR ''_''"
    using n by (auto simp: mpiMatchName_def c_str_id strncaseeq_def Let_def split: if_splits)
  show "strcaseeq n p \<or> (\<exists>s. strcaseeq n (p @ CHR ''_'' # s))"
  proof (cases "length p < length n")
    case True
    then have "n ! length p = CHR ''_''" using e n nth_mem by fastforce
    then have "n = take (length p) n @ CHR ''_'' # drop (Suc (length p)) n"
      using True id_take_nth_drop by fastforce
    then have "map tolower n = map tolower (p @ CHR ''_'' # drop (Suc (length p)) n)"
      using t by (metis list.simps(9) map_append)
    then show ?thesis by (auto simp: strcaseeq_def)
  next
    case False
    then show ?thesis using t by (simp add: strcaseeq_def)
  qed
next
  assume "strcaseeq n p \<or> (\<exists>s. strcaseeq n (p @ CHR ''_'' # s))"
  then show "mpiMatchName n p"
  proof
    assume "strcaseeq n p"
    then have "map tolower n = map tolower p" "length n = length p"
      using map_eq_imp_length_eq by (auto simp: strcaseeq_def)
    then show ?thesis using n by (simp add: mpiMatchName_def c_str_id strncaseeq_def)
  next
    assume "\<exists>s. strcaseeq n (p @ CHR ''_'' # s)"
    then obtain s where s: "map tolower n = map tolower p @ CHR ''_'' # map tolower s"
      by (auto simp: strcaseeq_def)
    then have "length p < length n" "take (length p) (map tolower n) = map tolower p"
      "map tolower n ! length p = CHR ''_''"
      by (auto simp: nth_append dest: arg_cong[where f = length])
    then show ?thesis using n
      by (simp add: mpiMatchName_def c_str_id strncaseeq_def take_map)
  qed
qed

lemma is_mpi_sync_call_match:
  assumes "CHR 0x00 \<notin> set n" "is_mpi_sync_call n = Some True"
  shows "\<exists>p \<in> set mpi_sync_names. mpiMatchName n p"
proof -
  define m where "m = (if last n = CHR ''_'' then butlast n else n)"
  have n: "n \<noteq> []" using assms(2) by (auto simp: is_mpi_sync_call_def)
  have "set m \<subseteq> set n" by (auto simp: m_def dest: in_set_butlastD)
  then have m: "c_str m = m" using assms(1) by (auto intro: c_str_id)
  obtain p where p: "p \<in> set mpi_sync_names" "strcaseeq m p"
    using assms(2) n m unfolding is_mpi_sync_call_def m_def[symmetric] by (auto simp: Let_def m_def)
  have p0: "CHR 0x00 \<notin> set p" using p(1) by (auto simp: mpi_sync_names_def)
  have "strcaseeq n p \<or> strcaseeq n (p @ [CHR ''_''])"
  proof (cases "last n = CHR ''_''")
    case True
    then have "n = m @ [CHR ''_'']" using n by (simp add: m_def) (metis append_butlast_last_id)
    then show ?thesis using p(2) by (simp add: strcaseeq_def)
  qed (use p(2) in \<open>simp add: m_def\<close>)
  then show ?thesis using p(1) mpiMatchName_iff[OF assms(1) p0] by blast
qed

subsection \<open>Intersections of address maps\<close>

text \<open>The result overwrites \<open>output\<close> from its first element and \<open>output\<close> is cut at its end; the
  algorithm does not enlarge it, so that more results than \<open>output\<close> has elements are written
  past its end.\<close>

definition intersectTwoMaps ::
  "(u64, 'v) cmap \<Rightarrow> (u64, 'w) cmap \<Rightarrow> (u64 \<times> 'v) list \<Rightarrow> (u64 \<times> 'v) list option" where
  "intersectTwoMaps m1 m2 output =
    (let r = set_intersection m1 m2 in if length r \<le> length output then Some r else None)"

definition intersectMore ::
  "(u64 \<times> 'v) list \<Rightarrow> (u64, 'w) cmap \<Rightarrow> (u64 \<times> 'v) list \<Rightarrow> (u64 \<times> 'v) list option" where
  "intersectMore crtOutput m output =
    (let r = set_intersection crtOutput m in if length r \<le> length output then Some r else None)"

end
