(* ===== verification/LLVM_IR.thy ===== *)
theory LLVM_IR
  imports Pisa_Utils
begin

text \<open>
  What the analyses read of an LLVM module.  LLVM is not part of the program: a record or a
  datatype below holds the values that the accessors of its classes return (\<open>getOpcode\<close>,
  \<open>getOperand\<close>, \<open>getType\<close>, \<open>getParent\<close>, \<open>getSuccessor\<close>, ...), and pointers to LLVM objects are
  natural numbers.  The functions of \<open>library/utils.cc\<close> that search a module follow.
\<close>

datatype opcode =
    Op_Ret | Op_Br | Op_Switch | Op_IndirectBr | Op_Invoke | Op_Resume | Op_Unreachable
  | Op_Add | Op_FAdd | Op_Sub | Op_FSub | Op_Mul | Op_FMul | Op_UDiv | Op_SDiv | Op_FDiv
  | Op_URem | Op_SRem | Op_FRem
  | Op_Shl | Op_LShr | Op_AShr | Op_And | Op_Or | Op_Xor
  | Op_Alloca | Op_Load | Op_Store | Op_GetElementPtr | Op_Fence | Op_AtomicCmpXchg | Op_AtomicRMW
  | Op_Trunc | Op_ZExt | Op_SExt | Op_FPToUI | Op_FPToSI | Op_UIToFP | Op_SIToFP | Op_FPTrunc
  | Op_FPExt | Op_PtrToInt | Op_IntToPtr | Op_BitCast | Op_AddrSpaceCast
  | Op_ICmp | Op_FCmp | Op_PHI | Op_Call | Op_Select | Op_UserOp1 | Op_UserOp2 | Op_VAArg
  | Op_ExtractElement | Op_InsertElement | Op_ShuffleVector | Op_ExtractValue | Op_InsertValue
  | Op_LandingPad

datatype ir_tyid =
    VoidTyID | HalfTyID | FloatTyID | DoubleTyID | X86_FP80TyID | FP128TyID | PPC_FP128TyID
  | LabelTyID | MetadataTyID | X86_MMXTyID | IntegerTyID | FunctionTyID | StructTyID | ArrayTyID
  | PointerTyID | VectorTyID

datatype ir_type =
    VoidTy | HalfTy | FloatTy | DoubleTy | X86_FP80Ty | FP128Ty | PPC_FP128Ty
  | LabelTy | MetadataTy | X86_MMXTy | IntegerTy nat | FunctionTy | StructTy "ir_type list"
  | ArrayTy nat ir_type | PointerTy ir_type | VectorTy nat ir_type

fun getTypeID :: "ir_type \<Rightarrow> ir_tyid" where
  "getTypeID VoidTy = VoidTyID"
| "getTypeID HalfTy = HalfTyID"
| "getTypeID FloatTy = FloatTyID"
| "getTypeID DoubleTy = DoubleTyID"
| "getTypeID X86_FP80Ty = X86_FP80TyID"
| "getTypeID FP128Ty = FP128TyID"
| "getTypeID PPC_FP128Ty = PPC_FP128TyID"
| "getTypeID LabelTy = LabelTyID"
| "getTypeID MetadataTy = MetadataTyID"
| "getTypeID X86_MMXTy = X86_MMXTyID"
| "getTypeID (IntegerTy _) = IntegerTyID"
| "getTypeID FunctionTy = FunctionTyID"
| "getTypeID (StructTy _) = StructTyID"
| "getTypeID (ArrayTy _ _) = ArrayTyID"
| "getTypeID (PointerTy _) = PointerTyID"
| "getTypeID (VectorTy _ _) = VectorTyID"

text \<open>An operand is an instruction of the module, a block, a constant (functions are constants) or
  another value, such as an argument; the number is its address.\<close>

datatype ir_value = V_Inst nat | V_Block nat | V_Const nat | V_Other nat

text \<open>What a call calls: a function (its position in the module), a constant expression, whose
  first operand may be a function, or another value (at its address).\<close>

datatype callee = Callee_Func nat | Callee_ConstExpr "nat option" | Callee_Value nat

record instr =
  i_id :: nat
  i_opcode :: opcode
  i_type :: ir_type
  i_operands :: "(ir_value \<times> ir_type) list"
  i_block :: nat
  i_succs :: "nat list"
  i_incoming :: "(ir_value \<times> nat) list"
  i_callee :: callee
  i_args :: "ir_value list"

record ir_block =
  b_id :: nat
  b_insts :: "instr list"

record ir_func =
  f_name :: string
  f_blocks :: "ir_block list"

type_synonym ir_module = "ir_func list"

text \<open>An instruction without operands, for examples.\<close>

definition plain_instr :: "nat \<Rightarrow> opcode \<Rightarrow> instr" where
  "plain_instr n op = \<lparr>i_id = n, i_opcode = op, i_type = VoidTy, i_operands = [], i_block = 0,
     i_succs = [], i_incoming = [], i_callee = Callee_Value 0, i_args = []\<rparr>"

text \<open>\<open>F->begin() == F->end()\<close>: the function has no body in the module.\<close>

definition is_external :: "ir_func \<Rightarrow> bool" where
  "is_external F \<longleftrightarrow> f_blocks F = []"

definition isa_Instruction :: "ir_value \<Rightarrow> bool" where
  "isa_Instruction v = (case v of V_Inst _ \<Rightarrow> True | _ \<Rightarrow> False)"

definition isa_Constant :: "ir_value \<Rightarrow> bool" where
  "isa_Constant v = (case v of V_Const _ \<Rightarrow> True | _ \<Rightarrow> False)"

text \<open>The address of a value.\<close>

definition value_addr :: "ir_value \<Rightarrow> nat" where
  "value_addr v = (case v of V_Inst n \<Rightarrow> n | V_Block n \<Rightarrow> n | V_Const n \<Rightarrow> n | V_Other n \<Rightarrow> n)"

subsection \<open>The searches of utils.cc\<close>

fun iter_find :: "int \<Rightarrow> int \<Rightarrow> 'a list \<Rightarrow> 'a option" where
  "iter_find n k [] = None"
| "iter_find n k (x # xs) = (if n = k then Some x else iter_find (n + 1) k xs)"

text \<open>The inner option is the null iterator, the outer one the access through a null iterator.\<close>

definition get_function :: "int \<Rightarrow> ir_module option \<Rightarrow> ir_func option" where
  "get_function f M = (case M of None \<Rightarrow> None | Some M \<Rightarrow> iter_find 0 f M)"

definition get_basicblock :: "int \<Rightarrow> int \<Rightarrow> ir_module option \<Rightarrow> ir_block option option" where
  "get_basicblock f bb M = (case M of None \<Rightarrow> Some None
     | Some _ \<Rightarrow> (case get_function f M of None \<Rightarrow> None
         | Some F \<Rightarrow> Some (iter_find 0 bb (f_blocks F))))"

definition get_instruction :: "int \<Rightarrow> int \<Rightarrow> int \<Rightarrow> ir_module option \<Rightarrow> instr option option" where
  "get_instruction f bb i M = (case M of None \<Rightarrow> Some None
     | Some _ \<Rightarrow> (case get_basicblock f bb M of None \<Rightarrow> None
         | Some None \<Rightarrow> None
         | Some (Some BB) \<Rightarrow> Some (iter_find 0 i (b_insts BB))))"

definition get_calledFunction :: "instr \<Rightarrow> nat option" where
  "get_calledFunction call = (case i_callee call of
     Callee_Func f \<Rightarrow> Some f
   | Callee_ConstExpr f \<Rightarrow> f
   | Callee_Value _ \<Rightarrow> None)"

text \<open>The shared tables of \<open>utils.cc\<close> that the analyses read.\<close>

record shared_tables =
  max_expected_threads :: int
  InitializedThreads :: "bool list"
  MemoryForThreads :: "(nat, u64) cmap list"
  FunctionsAddresses :: "(u64, nat) cmap"

definition getMemoryAddress :: "shared_tables \<Rightarrow> nat \<Rightarrow> int \<Rightarrow> u64 option" where
  "getMemoryAddress S I thread_id =
    (if thread_id < max_expected_threads S
     then if 0 \<le> thread_id \<and> nat thread_id < length (InitializedThreads S)
             \<and> (InitializedThreads S ! nat thread_id \<longrightarrow> nat thread_id < length (MemoryForThreads S))
          then Some (if InitializedThreads S ! nat thread_id
                     then case mp_get I (MemoryForThreads S ! nat thread_id) of Some a \<Rightarrow> a | None \<Rightarrow> 0
                     else 0)
          else None
     else Some 0)"

definition getFunctionAddress :: "shared_tables \<Rightarrow> u64 \<Rightarrow> nat option" where
  "getFunctionAddress S addr = mp_get addr (FunctionsAddresses S)"

lemma iter_find_nth:
  "iter_find n k xs = (if n \<le> k \<and> nat (k - n) < length xs then Some (xs ! nat (k - n)) else None)"
proof (induction n k xs rule: iter_find.induct)
  case (2 n k x xs)
  show ?case
  proof (cases "n < k")
    case True
    then have "nat (k - n) = Suc (nat (k - (n + 1)))" by simp
    then show ?thesis using 2 True by simp
  next
    case False
    then show ?thesis using 2 by (cases "n = k") simp_all
  qed
qed simp

text \<open>The three identifiers of an instruction in a notification of the client are its position.\<close>

lemma get_instruction_eq:
  "get_instruction (int f) (int bb) (int i) (Some M) =
    (if f < length M \<and> bb < length (f_blocks (M ! f))
     then let xs = b_insts (f_blocks (M ! f) ! bb) in Some (if i < length xs then Some (xs ! i) else None)
     else None)"
  by (simp add: get_instruction_def get_basicblock_def get_function_def iter_find_nth Let_def)

end
