(* ===== verification/Inst_Analysis.thy ===== *)
theory Inst_Analysis
  imports LLVM_IR
begin

text \<open>
  \<open>library/InstructionAnalysis.cc\<close>: the class of an instruction, which the other analyses use.
\<close>

abbreviation (input) CTRL_TYPE :: int where "CTRL_TYPE \<equiv> 0"
abbreviation (input) INT_ADD_TYPE :: int where "INT_ADD_TYPE \<equiv> 1"
abbreviation (input) INT_SUB_TYPE :: int where "INT_SUB_TYPE \<equiv> 2"
abbreviation (input) INT_MUL_TYPE :: int where "INT_MUL_TYPE \<equiv> 3"
abbreviation (input) INT_UDIV_TYPE :: int where "INT_UDIV_TYPE \<equiv> 4"
abbreviation (input) INT_SDIV_TYPE :: int where "INT_SDIV_TYPE \<equiv> 5"
abbreviation (input) INT_UREM_TYPE :: int where "INT_UREM_TYPE \<equiv> 6"
abbreviation (input) INT_SREM_TYPE :: int where "INT_SREM_TYPE \<equiv> 7"
abbreviation (input) FP_ADD_TYPE :: int where "FP_ADD_TYPE \<equiv> 8"
abbreviation (input) FP_SUB_TYPE :: int where "FP_SUB_TYPE \<equiv> 9"
abbreviation (input) FP_MUL_TYPE :: int where "FP_MUL_TYPE \<equiv> 10"
abbreviation (input) FP_DIV_TYPE :: int where "FP_DIV_TYPE \<equiv> 11"
abbreviation (input) FP_REM_TYPE :: int where "FP_REM_TYPE \<equiv> 12"
abbreviation (input) LD_FP_16BITS_TYPE :: int where "LD_FP_16BITS_TYPE \<equiv> 13"
abbreviation (input) LD_FP_32BITS_TYPE :: int where "LD_FP_32BITS_TYPE \<equiv> 14"
abbreviation (input) LD_FP_64BITS_TYPE :: int where "LD_FP_64BITS_TYPE \<equiv> 15"
abbreviation (input) LD_FP_80BITS_TYPE :: int where "LD_FP_80BITS_TYPE \<equiv> 16"
abbreviation (input) LD_FP_128BITS_TYPE :: int where "LD_FP_128BITS_TYPE \<equiv> 17"
abbreviation (input) LD_INT_4BITS_TYPE :: int where "LD_INT_4BITS_TYPE \<equiv> 18"
abbreviation (input) LD_INT_8BITS_TYPE :: int where "LD_INT_8BITS_TYPE \<equiv> 19"
abbreviation (input) LD_INT_16BITS_TYPE :: int where "LD_INT_16BITS_TYPE \<equiv> 20"
abbreviation (input) LD_INT_32BITS_TYPE :: int where "LD_INT_32BITS_TYPE \<equiv> 21"
abbreviation (input) LD_INT_64BITS_TYPE :: int where "LD_INT_64BITS_TYPE \<equiv> 22"
abbreviation (input) STORE_FP_16BITS_TYPE :: int where "STORE_FP_16BITS_TYPE \<equiv> 23"
abbreviation (input) STORE_FP_32BITS_TYPE :: int where "STORE_FP_32BITS_TYPE \<equiv> 24"
abbreviation (input) STORE_FP_64BITS_TYPE :: int where "STORE_FP_64BITS_TYPE \<equiv> 25"
abbreviation (input) STORE_FP_80BITS_TYPE :: int where "STORE_FP_80BITS_TYPE \<equiv> 26"
abbreviation (input) STORE_FP_128BITS_TYPE :: int where "STORE_FP_128BITS_TYPE \<equiv> 27"
abbreviation (input) STORE_INT_4BITS_TYPE :: int where "STORE_INT_4BITS_TYPE \<equiv> 28"
abbreviation (input) STORE_INT_8BITS_TYPE :: int where "STORE_INT_8BITS_TYPE \<equiv> 29"
abbreviation (input) STORE_INT_16BITS_TYPE :: int where "STORE_INT_16BITS_TYPE \<equiv> 30"
abbreviation (input) STORE_INT_32BITS_TYPE :: int where "STORE_INT_32BITS_TYPE \<equiv> 31"
abbreviation (input) STORE_INT_64BITS_TYPE :: int where "STORE_INT_64BITS_TYPE \<equiv> 32"
abbreviation (input) MISC_MEM_TYPE :: int where "MISC_MEM_TYPE \<equiv> 33"
abbreviation (input) BITWISE_TYPE :: int where "BITWISE_TYPE \<equiv> 34"
abbreviation (input) CONV_TYPE :: int where "CONV_TYPE \<equiv> 35"
abbreviation (input) MISC_TYPE :: int where "MISC_TYPE \<equiv> 36"
abbreviation (input) INT_CMP_TYPE :: int where "INT_CMP_TYPE \<equiv> 40"
abbreviation (input) FP_CMP_TYPE :: int where "FP_CMP_TYPE \<equiv> 41"
abbreviation (input) PHI_TYPE :: int where "PHI_TYPE \<equiv> 42"
abbreviation (input) ATOMIC_MEM_TYPE :: int where "ATOMIC_MEM_TYPE \<equiv> 43"
abbreviation (input) ARITH_ADDRESS_TYPE :: int where "ARITH_ADDRESS_TYPE \<equiv> 44"
abbreviation (input) MISC_VECTOR_TYPE :: int where "MISC_VECTOR_TYPE \<equiv> 45"
abbreviation (input) MISC_AGGREGATE_TYPE :: int where "MISC_AGGREGATE_TYPE \<equiv> 46"
abbreviation (input) SYNC_TYPE :: int where "SYNC_TYPE \<equiv> 47"
abbreviation (input) N_INST_TYPES :: nat where "N_INST_TYPES \<equiv> 37"

text \<open>The type of operand \<open>n\<close>; an operand that does not exist has none.\<close>

definition operand_type :: "instr \<Rightarrow> nat \<Rightarrow> ir_type option" where
  "operand_type I n = (if n < length (i_operands I) then Some (snd (i_operands I ! n)) else None)"

definition load_type_of :: "ir_type \<Rightarrow> int" where
  "load_type_of T = (case T of
     HalfTy \<Rightarrow> LD_FP_16BITS_TYPE
   | FloatTy \<Rightarrow> LD_FP_32BITS_TYPE
   | DoubleTy \<Rightarrow> LD_FP_64BITS_TYPE
   | X86_FP80Ty \<Rightarrow> LD_FP_80BITS_TYPE
   | FP128Ty \<Rightarrow> LD_FP_128BITS_TYPE
   | PPC_FP128Ty \<Rightarrow> LD_FP_128BITS_TYPE
   | X86_MMXTy \<Rightarrow> LD_FP_64BITS_TYPE
   | IntegerTy w \<Rightarrow>
       (if w = 4 then LD_INT_4BITS_TYPE
        else if w = 8 then LD_INT_8BITS_TYPE
        else if w = 16 then LD_INT_16BITS_TYPE
        else if w = 32 then LD_INT_32BITS_TYPE
        else if w = 64 then LD_INT_64BITS_TYPE
        else MISC_MEM_TYPE)
   | _ \<Rightarrow> MISC_MEM_TYPE)"

definition store_type_of :: "ir_type \<Rightarrow> int" where
  "store_type_of T = (case T of
     HalfTy \<Rightarrow> STORE_FP_16BITS_TYPE
   | FloatTy \<Rightarrow> STORE_FP_32BITS_TYPE
   | DoubleTy \<Rightarrow> STORE_FP_64BITS_TYPE
   | X86_FP80Ty \<Rightarrow> STORE_FP_80BITS_TYPE
   | FP128Ty \<Rightarrow> STORE_FP_128BITS_TYPE
   | PPC_FP128Ty \<Rightarrow> STORE_FP_128BITS_TYPE
   | X86_MMXTy \<Rightarrow> STORE_FP_64BITS_TYPE
   | IntegerTy w \<Rightarrow>
       (if w = 4 then STORE_INT_4BITS_TYPE
        else if w = 8 then STORE_INT_8BITS_TYPE
        else if w = 16 then STORE_INT_16BITS_TYPE
        else if w = 32 then STORE_INT_32BITS_TYPE
        else if w = 64 then STORE_INT_64BITS_TYPE
        else MISC_MEM_TYPE)
   | _ \<Rightarrow> MISC_MEM_TYPE)"

text \<open>Where the operand is no pointer, and for another opcode, the code prints a warning and
  returns 0.  A load or a store without its operand does not exist in LLVM.\<close>

definition getMemoryInstType :: "instr \<Rightarrow> int" where
  "getMemoryInstType I =
    (if i_opcode I = Op_Load then
       (case operand_type I 0 of Some (PointerTy T) \<Rightarrow> load_type_of T | _ \<Rightarrow> 0)
     else if i_opcode I = Op_Store then
       (case operand_type I 1 of Some (PointerTy T) \<Rightarrow> store_type_of T | _ \<Rightarrow> 0)
     else 0)"

definition getInstType :: "instr \<Rightarrow> int" where
  "getInstType I = (case i_opcode I of
     Op_Ret \<Rightarrow> CTRL_TYPE
   | Op_Br \<Rightarrow> CTRL_TYPE
   | Op_Switch \<Rightarrow> CTRL_TYPE
   | Op_IndirectBr \<Rightarrow> CTRL_TYPE
   | Op_Invoke \<Rightarrow> CTRL_TYPE
   | Op_Resume \<Rightarrow> CTRL_TYPE
   | Op_Unreachable \<Rightarrow> CTRL_TYPE
   | Op_Call \<Rightarrow> CTRL_TYPE
   | Op_ICmp \<Rightarrow> INT_CMP_TYPE
   | Op_FCmp \<Rightarrow> FP_CMP_TYPE
   | Op_PHI \<Rightarrow> PHI_TYPE
   | Op_Select \<Rightarrow> MISC_TYPE
   | Op_Add \<Rightarrow> INT_ADD_TYPE
   | Op_Sub \<Rightarrow> INT_SUB_TYPE
   | Op_Mul \<Rightarrow> INT_MUL_TYPE
   | Op_UDiv \<Rightarrow> INT_UDIV_TYPE
   | Op_SDiv \<Rightarrow> INT_SDIV_TYPE
   | Op_URem \<Rightarrow> INT_UREM_TYPE
   | Op_SRem \<Rightarrow> INT_SREM_TYPE
   | Op_FAdd \<Rightarrow> FP_ADD_TYPE
   | Op_FSub \<Rightarrow> FP_SUB_TYPE
   | Op_FMul \<Rightarrow> FP_MUL_TYPE
   | Op_FDiv \<Rightarrow> FP_DIV_TYPE
   | Op_FRem \<Rightarrow> FP_REM_TYPE
   | Op_Load \<Rightarrow> getMemoryInstType I
   | Op_Store \<Rightarrow> getMemoryInstType I
   | Op_Alloca \<Rightarrow> ARITH_ADDRESS_TYPE
   | Op_AtomicCmpXchg \<Rightarrow> ATOMIC_MEM_TYPE
   | Op_AtomicRMW \<Rightarrow> ATOMIC_MEM_TYPE
   | Op_Fence \<Rightarrow> SYNC_TYPE
   | Op_GetElementPtr \<Rightarrow> ARITH_ADDRESS_TYPE
   | Op_And \<Rightarrow> BITWISE_TYPE
   | Op_Or \<Rightarrow> BITWISE_TYPE
   | Op_Xor \<Rightarrow> BITWISE_TYPE
   | Op_Shl \<Rightarrow> BITWISE_TYPE
   | Op_LShr \<Rightarrow> BITWISE_TYPE
   | Op_AShr \<Rightarrow> BITWISE_TYPE
   | Op_Trunc \<Rightarrow> CONV_TYPE
   | Op_ZExt \<Rightarrow> CONV_TYPE
   | Op_SExt \<Rightarrow> CONV_TYPE
   | Op_FPTrunc \<Rightarrow> CONV_TYPE
   | Op_FPExt \<Rightarrow> CONV_TYPE
   | Op_FPToUI \<Rightarrow> CONV_TYPE
   | Op_FPToSI \<Rightarrow> CONV_TYPE
   | Op_UIToFP \<Rightarrow> CONV_TYPE
   | Op_SIToFP \<Rightarrow> CONV_TYPE
   | Op_IntToPtr \<Rightarrow> CONV_TYPE
   | Op_PtrToInt \<Rightarrow> CONV_TYPE
   | Op_BitCast \<Rightarrow> CONV_TYPE
   | Op_AddrSpaceCast \<Rightarrow> CONV_TYPE
   | Op_VAArg \<Rightarrow> MISC_TYPE
   | Op_LandingPad \<Rightarrow> MISC_TYPE
   | Op_ExtractElement \<Rightarrow> MISC_VECTOR_TYPE
   | Op_InsertElement \<Rightarrow> MISC_VECTOR_TYPE
   | Op_ShuffleVector \<Rightarrow> MISC_VECTOR_TYPE
   | Op_ExtractValue \<Rightarrow> MISC_AGGREGATE_TYPE
   | Op_InsertValue \<Rightarrow> MISC_AGGREGATE_TYPE
   | _ \<Rightarrow> - 1)"

definition isOfIntegerType :: "instr \<Rightarrow> bool" where
  "isOfIntegerType I = (let t = getInstType I in
     t = CONV_TYPE \<or> t = BITWISE_TYPE
     \<or> t = INT_ADD_TYPE \<or> t = INT_SUB_TYPE \<or> t = INT_MUL_TYPE \<or> t = INT_UDIV_TYPE
     \<or> t = INT_SDIV_TYPE \<or> t = INT_UREM_TYPE \<or> t = INT_SREM_TYPE
     \<or> t = INT_CMP_TYPE \<or> t = ARITH_ADDRESS_TYPE)"

definition isOfControlType :: "instr \<Rightarrow> bool" where
  "isOfControlType I \<longleftrightarrow> getInstType I = CTRL_TYPE"

definition isOfFloatingPointType :: "instr \<Rightarrow> bool" where
  "isOfFloatingPointType I = (let t = getInstType I in
     t = FP_ADD_TYPE \<or> t = FP_SUB_TYPE \<or> t = FP_MUL_TYPE \<or> t = FP_DIV_TYPE \<or> t = FP_REM_TYPE
     \<or> t = FP_CMP_TYPE)"

definition isOfMemoryType :: "instr \<Rightarrow> bool" where
  "isOfMemoryType I \<longleftrightarrow> getInstType I = ATOMIC_MEM_TYPE \<or> i_opcode I = Op_Load \<or> i_opcode I = Op_Store"

text \<open>\<open>cast<StoreInst>\<close> on anything else than a store is not defined.  The size that LLVM's
  \<open>DataLayout\<close> reports for a type is the parameter \<open>alloc_size\<close>.\<close>

definition getMemoryAccessSize :: "(ir_type \<Rightarrow> u64) \<Rightarrow> instr \<Rightarrow> u32 option" where
  "getMemoryAccessSize alloc_size I =
    (case (if i_opcode I = Op_Load then operand_type I 0
           else if i_opcode I = Op_Store then operand_type I 1 else None) of
       None \<Rightarrow> None
     | Some T \<Rightarrow>
         (let T = (case T of PointerTy U \<Rightarrow> U | _ \<Rightarrow> T);
              v = ucast (alloc_size T) :: u32
          in Some (if v = 0 then 4 else v)))"

subsection \<open>The classes exclude each other\<close>

text \<open>What LLVM's verifier guarantees: the address of a load and of a store is a pointer.\<close>

definition mem_operands_ok :: "instr \<Rightarrow> bool" where
  "mem_operands_ok I \<longleftrightarrow>
     (i_opcode I = Op_Load \<longrightarrow> (\<exists>T. operand_type I 0 = Some (PointerTy T)))
   \<and> (i_opcode I = Op_Store \<longrightarrow> (\<exists>T. operand_type I 1 = Some (PointerTy T)))"

lemma load_type_of_range: "13 \<le> load_type_of T \<and> load_type_of T \<le> 22 \<or> load_type_of T = MISC_MEM_TYPE"
  by (auto simp: load_type_of_def split: ir_type.split)

lemma store_type_of_range: "23 \<le> store_type_of T \<and> store_type_of T \<le> 33"
  by (auto simp: store_type_of_def split: ir_type.split)

lemma getMemoryInstType_range:
  assumes "mem_operands_ok I" "i_opcode I = Op_Load \<or> i_opcode I = Op_Store"
  shows "13 \<le> getMemoryInstType I \<and> getMemoryInstType I \<le> 33"
proof (cases "i_opcode I = Op_Load")
  case True
  then obtain T where "operand_type I 0 = Some (PointerTy T)" using assms by (auto simp: mem_operands_ok_def)
  then show ?thesis using True load_type_of_range[of T] by (auto simp: getMemoryInstType_def)
next
  case False
  then obtain T where "operand_type I 1 = Some (PointerTy T)" using assms by (auto simp: mem_operands_ok_def)
  then show ?thesis using False assms(2) store_type_of_range[of T] by (auto simp: getMemoryInstType_def)
qed

lemma getInstType_mem: "i_opcode I = Op_Load \<or> i_opcode I = Op_Store \<Longrightarrow> getInstType I = getMemoryInstType I"
  by (auto simp: getInstType_def)

lemma getInstType_not_mem:
  assumes "i_opcode I \<noteq> Op_Load" "i_opcode I \<noteq> Op_Store"
  shows "getInstType I \<notin> {13..33}"
  using assms by (cases "i_opcode I") (simp_all add: getInstType_def)

end
