(* ===== verification/Util_Properties.thy ===== *)
theory Util_Properties
  imports Inst_Analysis
begin

text \<open>
  Properties of the functions of \<open>library/utils.cc\<close> and of \<open>library/InstructionAnalysis.cc\<close>.
\<close>

text \<open>\<open>upperPowerOfTwo\<close> returns the least power of two that is not smaller than its argument; 0 for
  0, and 0 where that power does not fit into 64 bits.\<close>

theorem upperPowerOfTwo_least:
  "upperPowerOfTwo 0 = 0
   \<and> (v \<noteq> 0 \<longrightarrow> unat v \<le> 2 ^ 63 \<longrightarrow>
      (\<exists>n \<le> 63. upperPowerOfTwo v = 2 ^ n \<and> unat v \<le> 2 ^ n \<and> (\<forall>m. unat v \<le> 2 ^ m \<longrightarrow> n \<le> m)))
   \<and> (2 ^ 63 < unat v \<longrightarrow> upperPowerOfTwo v = 0)"
proof (intro conjI impI)
  show "upperPowerOfTwo 0 = 0" by (simp add: upperPowerOfTwo_def)
  show "upperPowerOfTwo v = 0" if "2 ^ 63 < unat v" using that by (rule upperPowerOfTwo_wraps)
  show "\<exists>n \<le> 63. upperPowerOfTwo v = 2 ^ n \<and> unat v \<le> 2 ^ n \<and> (\<forall>m. unat v \<le> 2 ^ m \<longrightarrow> n \<le> m)"
    if v: "v \<noteq> 0" "unat v \<le> 2 ^ 63"
  proof -
    obtain n where n: "n \<le> 63" "upperPowerOfTwo v = 2 ^ n" "unat v \<le> 2 ^ n" "n = 0 \<or> 2 ^ (n - 1) < unat v"
      using upperPowerOfTwo_small[OF v] .
    have "n \<le> m" if "unat v \<le> 2 ^ m" for m
    proof (rule ccontr)
      assume "\<not> n \<le> m"
      then have "(2::nat) ^ m \<le> 2 ^ (n - 1)" "n \<noteq> 0" by (auto intro: power_increasing)
      then show False using n(4) that by linarith
    qed
    then show ?thesis using n by blast
  qed
qed

theorem upperPowerOfTwo_least_witness:
  "(\<exists>n \<le> 63. upperPowerOfTwo 5 = 2 ^ n \<and> (5::nat) \<le> 2 ^ n) \<and> upperPowerOfTwo (2 ^ 63 + 1) = 0"
  using upperPowerOfTwo_least[of 5] upperPowerOfTwo_least[of "2 ^ 63 + 1"] by auto

text \<open>\<open>mpiMatchName\<close> accepts, without regard to the case of letters, exactly the pattern and the
  pattern followed by an underscore and anything else.\<close>

theorem mpiMatchName_exact:
  assumes "CHR 0x00 \<notin> set n" "CHR 0x00 \<notin> set p"
  shows "mpiMatchName n p \<longleftrightarrow> strcaseeq n p \<or> (\<exists>s. strcaseeq n (p @ CHR ''_'' # s))"
  by (rule mpiMatchName_iff[OF assms])

theorem mpiMatchName_exact_witness:
  "mpiMatchName ''mpi_send_'' ''MPI_Send'' \<and> \<not> mpiMatchName ''MPI_Sendrecv'' ''MPI_Send''"
proof
  have "strcaseeq ''mpi_send_'' (''MPI_Send'' @ CHR ''_'' # [])" by code_simp
  then show "mpiMatchName ''mpi_send_'' ''MPI_Send''"
    using mpiMatchName_exact[of "''mpi_send_''" "''MPI_Send''"] by auto
  show "\<not> mpiMatchName ''MPI_Sendrecv'' ''MPI_Send''"
    by (simp add: mpiMatchName_def c_str_def strncaseeq_def tolower_def)
qed

text \<open>A function that \<open>is_mpi_sync_call\<close> accepts is matched by \<open>mpiMatchName\<close> with one of the 19 names
  of the list; but the match is wider: \<open>MPI_Sendrecv_replace\<close> matches the pattern of \<open>MPI_Sendrecv\<close>,
  and \<open>MPI_Reduce_scatter\<close>, which is not in the list, the one of \<open>MPI_Reduce\<close>.\<close>

theorem mpi_sync_call_matched:
  assumes "CHR 0x00 \<notin> set n" "is_mpi_sync_call n = Some True"
  shows "(\<exists>p \<in> set mpi_sync_names. mpiMatchName n p)
    \<and> mpiMatchName ''MPI_Sendrecv_replace'' ''MPI_Sendrecv''
    \<and> mpiMatchName ''MPI_Reduce_scatter'' ''MPI_Reduce''
    \<and> is_mpi_sync_call ''MPI_Reduce_scatter'' = Some False"
proof -
  have "mpiMatchName ''MPI_Sendrecv_replace'' ''MPI_Sendrecv''"
    "mpiMatchName ''MPI_Reduce_scatter'' ''MPI_Reduce''"
    "is_mpi_sync_call ''MPI_Reduce_scatter'' = Some False"
    by (simp_all add: mpiMatchName_def is_mpi_sync_call_def mpi_sync_names_def c_str_def strncaseeq_def
        strcaseeq_def tolower_def)
  then show ?thesis using is_mpi_sync_call_match[OF assms] by blast
qed

theorem mpi_sync_call_matched_witness:
  "\<exists>p \<in> set mpi_sync_names. mpiMatchName ''mpi_wait_'' p"
proof -
  have "is_mpi_sync_call ''mpi_wait_'' = Some True" by code_simp
  then show ?thesis using mpi_sync_call_matched[of "''mpi_wait_''"] by simp
qed

text \<open>The four classes of \<open>InstructionAnalysis\<close> (integer, floating point, control, memory) exclude
  each other on instructions that LLVM's verifier accepts.\<close>

theorem instruction_classes_disjoint:
  assumes "mem_operands_ok I"
  shows "\<not> (isOfIntegerType I \<and> isOfFloatingPointType I) \<and> \<not> (isOfIntegerType I \<and> isOfControlType I)
    \<and> \<not> (isOfFloatingPointType I \<and> isOfControlType I)
    \<and> (isOfMemoryType I \<longrightarrow> \<not> isOfIntegerType I \<and> \<not> isOfFloatingPointType I \<and> \<not> isOfControlType I)"
proof -
  have "13 \<le> getInstType I \<and> getInstType I \<le> 33 \<or> getInstType I = ATOMIC_MEM_TYPE" if "isOfMemoryType I"
  proof (cases "i_opcode I = Op_Load \<or> i_opcode I = Op_Store")
    case True
    then show ?thesis using getMemoryInstType_range[OF assms True] getInstType_mem[OF True] by simp
  next
    case False
    then show ?thesis using that by (auto simp: isOfMemoryType_def)
  qed
  then show ?thesis
    by (auto simp: isOfIntegerType_def isOfFloatingPointType_def isOfControlType_def Let_def)
qed

theorem instruction_classes_disjoint_witness:
  "isOfMemoryType ((plain_instr 1 Op_Load)\<lparr>i_operands := [(V_Other 2, PointerTy FloatTy)]\<rparr>)
   \<and> \<not> isOfControlType ((plain_instr 1 Op_Load)\<lparr>i_operands := [(V_Other 2, PointerTy FloatTy)]\<rparr>)"
  using instruction_classes_disjoint[of "(plain_instr 1 Op_Load)\<lparr>i_operands := [(V_Other 2, PointerTy FloatTy)]\<rparr>"]
  by (simp add: isOfMemoryType_def mem_operands_ok_def plain_instr_def operand_type_def)

end
