(* ===== verification/Timestamp_Tree.thy ===== *)
theory Timestamp_Tree
  imports Splay_Ops Pisa_Utils
begin

text \<open>
  The interface between the temporal reuse analyses and the splay tree: a set of time stamps with
  an insertion, the replacement of a stamp, and the number of the later stamps.  The lemmas of the
  analyses are proved once from the laws of this interface; the interpretation discharges the laws
  for the heap operations of \<open>splay.cc\<close>.
\<close>

locale timestamp_set =
  fixes holds :: "'t \<Rightarrow> u64 set \<Rightarrow> bool"
    and ins :: "u64 \<Rightarrow> 't \<Rightarrow> 't option"
    and upd :: "u64 \<Rightarrow> u64 \<Rightarrow> 't \<Rightarrow> 't option"
    and dist :: "u64 \<Rightarrow> 't \<Rightarrow> (u64 \<times> bool \<times> 't) option"
  assumes ins_law: "holds t K \<Longrightarrow> k \<noteq> 0 \<Longrightarrow> \<exists>t'. ins k t = Some t' \<and> holds t' (insert k K)"
    and upd_law: "holds t K \<Longrightarrow> k \<noteq> 0 \<Longrightarrow> \<exists>t'. upd old k t = Some t' \<and> holds t' (insert k (K - {old}))"
    and dist_law: "holds t K \<Longrightarrow> \<exists>t'. dist k t
      = Some (if k \<in> K then of_nat (card {x \<in> K. k < x}) else 0, k \<in> K, t') \<and> holds t' K"
begin

text \<open>The set holds the last time of every cell that was accessed, no time twice, and no time after
  \<open>now\<close>.\<close>

definition tracks :: "'t \<Rightarrow> (u64 \<rightharpoonup> u64) \<Rightarrow> u64 \<Rightarrow> bool" where
  "tracks t L now \<longleftrightarrow> holds t (ran L) \<and> inj_on L (dom L) \<and> 0 \<notin> ran L \<and> (\<forall>x \<in> ran L. x \<le> now)"

lemma later_cells:
  assumes "inj_on L (dom L)"
  shows "card {x \<in> ran L. k < x} = card {b \<in> dom L. k < the (L b)}"
proof -
  have "{x \<in> ran L. k < x} = (\<lambda>b. the (L b)) ` {b \<in> dom L. k < the (L b)}"
    by (auto simp: ran_def) (metis (mono_tags, lifting) domI image_eqI mem_Collect_eq option.sel)
  moreover have "inj_on (\<lambda>b. the (L b)) {b \<in> dom L. k < the (L b)}"
    using assms by (auto simp: inj_on_def dom_def)
  ultimately show ?thesis by (simp add: card_image)
qed

lemma tracks_next:
  assumes t: "tracks t L now" and n: "now < now'"
  shows "holds t (ran L)" "inj_on L (dom L)" "now' \<notin> ran L" "now' \<noteq> 0"
  using assms by (auto simp: tracks_def)

lemma tracks_upd:
  assumes t: "tracks t L now" and n: "now < now'" and h: "holds t' (ran (L(a \<mapsto> now')))"
  shows "tracks t' (L(a \<mapsto> now')) now'"
proof -
  have "ran (L(a \<mapsto> now')) \<subseteq> insert now' (ran L)" by (auto simp: ran_def)
  moreover have "inj_on (L(a \<mapsto> now')) (dom (L(a \<mapsto> now')))"
    using inj_on_map_upd_fresh[OF tracks_next(2,3)[OF t n]] .
  ultimately show ?thesis using assms by (fastforce simp: tracks_def)
qed

lemma access_known:
  assumes t: "tracks t L now" and a: "L a = Some prev" and n: "now < now'"
  shows "\<exists>t1 t2. dist prev t = Some (of_nat (card {b \<in> dom L. prev < the (L b)}), True, t1)
    \<and> upd prev now' t1 = Some t2 \<and> tracks t2 (L(a \<mapsto> now')) now'"
proof -
  note K = tracks_next[OF t n]
  have p: "prev \<in> ran L" using a by (auto simp: ran_def)
  obtain t1 where 1: "dist prev t = Some (of_nat (card {x \<in> ran L. prev < x}), True, t1)" "holds t1 (ran L)"
    using dist_law[OF K(1), of prev] p by auto
  obtain t2 where 2: "upd prev now' t1 = Some t2" "holds t2 (insert now' (ran L - {prev}))"
    using upd_law[OF 1(2) K(4)] by blast
  have "tracks t2 (L(a \<mapsto> now')) now'"
    by (rule tracks_upd[OF t n]) (simp only: ran_map_upd_inj[OF K(2) a] 2(2))
  then show ?thesis using 1(1) 2(1) later_cells[OF K(2)] by auto
qed

lemma access_new:
  assumes t: "tracks t L now" and a: "L a = None" and n: "now < now'"
  shows "\<exists>t2. ins now' t = Some t2 \<and> tracks t2 (L(a \<mapsto> now')) now'"
proof -
  note K = tracks_next[OF t n]
  obtain t2 where 2: "ins now' t = Some t2" "holds t2 (insert now' (ran L))"
    using ins_law[OF K(1,4)] by blast
  have "tracks t2 (L(a \<mapsto> now')) now'"
    by (rule tracks_upd[OF t n]) (use a 2(2) in simp)
  then show ?thesis using 2(1) by blast
qed

end

subsection \<open>The splay tree provides the interface\<close>

text \<open>The tree pointer of an analysis and the heap.  The analyses ask after \<open>ComputeDistance\<close>
  whether the new root has the key: \<open>DistanceTree && DistanceTree->key == PreviousIssueCycle\<close>.\<close>

type_synonym splay_state = "nat \<times> heap"

definition splay_holds :: "splay_state \<Rightarrow> u64 set \<Rightarrow> bool" where
  "splay_holds t K \<longleftrightarrow> (\<exists>T. rep (snd t) (fst t) T \<and> keys T = K)"

definition splay_insert :: "u64 \<Rightarrow> splay_state \<Rightarrow> splay_state option" where
  "splay_insert k t = (case t of (q, H) \<Rightarrow> Insert k q H)"

definition splay_update :: "u64 \<Rightarrow> u64 \<Rightarrow> splay_state \<Rightarrow> splay_state option" where
  "splay_update old k t = (case t of (q, H) \<Rightarrow> Update old k q H)"

definition splay_distance :: "u64 \<Rightarrow> splay_state \<Rightarrow> (u64 \<times> bool \<times> splay_state) option" where
  "splay_distance k t = (case t of (q, H) \<Rightarrow> do {
     (q, d, H) \<leftarrow> ComputeDistance k q H;
     if q = 0 then Some (d, False, q, H)
     else do {
       k' \<leftarrow> rd h_key q H;
       Some (d, k' = k, q, H) } })"

lemma splay_distance_law:
  assumes "splay_holds t K"
  shows "\<exists>t'. splay_distance k t
      = Some (if k \<in> K then of_nat (card {x \<in> K. k < x}) else 0, k \<in> K, t') \<and> splay_holds t' K"
proof -
  obtain q H T where t: "t = (q, H)" "rep H q T" "keys T = K"
    using assms by (cases t) (auto simp: splay_holds_def)
  obtain root' H' T' where 1: "ComputeDistance k q H
      = Some (root', if k \<in> keys T then of_nat (card {x \<in> keys T. k < x}) else 0, H')"
    "rep H' root' T'" "keys T' = keys T" "root' \<noteq> 0 \<and> h_key H' root' = k \<longleftrightarrow> k \<in> keys T"
    using ComputeDistance_ok[OF t(2), of k] by blast
  have "root' \<noteq> 0 \<Longrightarrow> rd h_key root' H' = Some (h_key H' root')"
    using shape_child_valid[OF repD(2)[OF 1(2)]] by (simp add: rd_ok)
  then have "splay_distance k t
      = Some (if k \<in> K then of_nat (card {x \<in> K. k < x}) else 0, k \<in> K, root', H')"
    using 1(1,4) by (simp add: splay_distance_def t(1,3)) (auto simp: t(3))
  moreover have "splay_holds (root', H') K" using 1(2,3) t(3) by (auto simp: splay_holds_def)
  ultimately show ?thesis by blast
qed

interpretation splay: timestamp_set splay_holds splay_insert splay_update splay_distance
proof
  show "\<exists>t'. splay_insert k t = Some t' \<and> splay_holds t' (insert k K)"
    if "splay_holds t K" "k \<noteq> 0" for t K k
    using that Insert_ok[of "snd t" "fst t" _ k]
    by (cases t) (fastforce simp: splay_holds_def splay_insert_def)
  show "\<exists>t'. splay_update old k t = Some t' \<and> splay_holds t' (insert k (K - {old}))"
    if "splay_holds t K" "k \<noteq> 0" for t K k old
    using that Update_ok[of "snd t" "fst t" _ k old]
    by (cases t) (fastforce simp: splay_holds_def splay_update_def)
qed (rule splay_distance_law)

lemma splay_holds_empty: "splay_holds (0, empty_heap) {}"
  using rep_empty by (auto simp: splay_holds_def)

end
