(* ===== verification/Reuse_Distance.thy ===== *)
theory Reuse_Distance
  imports Timestamp_Tree
begin

text \<open>
  The specification of the two temporal reuse analyses: the reuse distances of a sequence of
  accesses to cells, and their histogram for a binning of the distances.
\<close>

text \<open>The number of the other cells that were accessed since the last access to \<open>a\<close>; the history
  has the last access first.\<close>

definition reuse_distance :: "'a \<Rightarrow> 'a list \<Rightarrow> nat" where
  "reuse_distance a past = card (set (takeWhile (\<lambda>b. b \<noteq> a) past))"

fun reuse_histogram :: "(u64 \<Rightarrow> u64) \<Rightarrow> u64 list \<Rightarrow> u64 \<Rightarrow> nat" where
  "reuse_histogram bin [] d = 0"
| "reuse_histogram bin (a # past) d = reuse_histogram bin past d
    + (if a \<in> set past \<and> bin (of_nat (reuse_distance a past)) = d then 1 else 0)"

text \<open>The time stamps of the last accesses order the cells as the history does.\<close>

definition in_order :: "(u64 \<rightharpoonup> u64) \<Rightarrow> u64 list \<Rightarrow> bool" where
  "in_order L past \<longleftrightarrow> dom L = set past
    \<and> (\<forall>a \<in> set past. {b \<in> set past. the (L a) < the (L b)} = set (takeWhile (\<lambda>b. b \<noteq> a) past))"

lemma in_order_access:
  assumes o: "in_order L past" and lt: "\<forall>x \<in> ran L. x \<le> now" "now < now'"
  shows "in_order (L(a \<mapsto> now')) (a # past)"
proof -
  have d: "dom L = set past" and t: "\<And>c. c \<in> set past \<Longrightarrow>
      {b \<in> set past. the (L c) < the (L b)} = set (takeWhile (\<lambda>b. b \<noteq> c) past)"
    using o by (auto simp: in_order_def)
  have l: "the (L b) < now'" if b: "b \<in> set past" for b
  proof -
    have "b \<in> dom L" using b d by simp
    then obtain x where x: "L b = Some x" by (auto simp: dom_def)
    then have "x \<le> now" using lt(1) by (auto simp: ran_def)
    then show ?thesis using x lt(2) by simp
  qed
  show ?thesis unfolding in_order_def
  proof (intro conjI ballI)
    show "dom (L(a \<mapsto> now')) = set (a # past)" using d by auto
  next
    fix c assume c: "c \<in> set (a # past)"
    show "{b \<in> set (a # past). the ((L(a \<mapsto> now')) c) < the ((L(a \<mapsto> now')) b)}
        = set (takeWhile (\<lambda>b. b \<noteq> c) (a # past))"
    proof (cases "c = a")
      case True
      then show ?thesis using l by (auto dest: less_asym)
    next
      case False
      then have cp: "c \<in> set past" using c by simp
      have "{b \<in> set (a # past). the ((L(a \<mapsto> now')) c) < the ((L(a \<mapsto> now')) b)}
          = insert a {b \<in> set past. the (L c) < the (L b)}"
        using False l[OF cp] by auto
      then show ?thesis using t[OF cp] False by simp
    qed
  qed
qed

lemma in_order_later:
  assumes "in_order L past" "L a = Some prev"
  shows "card {b \<in> dom L. prev < the (L b)} = reuse_distance a past"
proof -
  have "a \<in> set past" using assms by (auto simp: in_order_def)
  then have "{b \<in> dom L. prev < the (L b)} = set (takeWhile (\<lambda>b. b \<noteq> a) past)"
    using assms unfolding in_order_def by force
  then show ?thesis by (simp add: reuse_distance_def)
qed

definition count_of :: "u64 \<Rightarrow> (u64, u64) cmap \<Rightarrow> u64" where
  "count_of d m = (case mp_get d m of None \<Rightarrow> 0 | Some n \<Rightarrow> n)"

lemma count_of_bump: "mp_ok m \<Longrightarrow> count_of d (mp_bump e m) = count_of d m + (if e = d then 1 else 0)"
  by (auto simp: count_of_def mp_get_bump split: option.splits)

text \<open>A known cell: the tree reports its reuse distance and moves its time stamp.\<close>

lemma splay_reuse:
  assumes tr: "splay.tracks T L now" and o: "in_order L past" and a: "L a = Some prev" and n: "now < now'"
  shows "\<exists>T1 T2. splay_distance prev T = Some (of_nat (reuse_distance a past), True, T1)
    \<and> splay_update prev now' T1 = Some T2 \<and> splay.tracks T2 (L(a \<mapsto> now')) now'"
  using splay.access_known[OF tr a n] in_order_later[OF o a] by simp

lemma in_order_next:
  assumes "splay.tracks T L now" "in_order L past" "now < now'"
  shows "in_order (L(a \<mapsto> now')) (a # past)"
  by (rule in_order_access[OF assms(2) _ assms(3)]) (use assms(1) in \<open>simp add: splay.tracks_def\<close>)

end
