(* ===== verification/Json_Events.thy ===== *)
theory Json_Events
  imports Pisa_Utils
begin

text \<open>
  The calls of \<open>StartObject\<close>, \<open>String\<close>, \<open>Uint64\<close>, ... of \<open>JSONmanager\<close> as a list of events, and the
  check that such a list is a well formed piece of JSON: in an object a name and a value take
  turns, and every bracket is closed.  \<open>JSONmanager\<close> passes the events to \<open>rapidjson\<close>, which
  writes them without reordering.
\<close>

datatype json_event =
    StartObject | EndObject | StartArray | EndArray
  | JString string | JUint64 u64 | JDouble dbl | JInt int

text \<open>Where the next event stands: after an opening bracket or an element of an array, before a
  name, or before the value of a name.\<close>

datatype json_ctx = InArray | AtName | AtValue

fun json_value :: "json_ctx list \<Rightarrow> json_ctx list option" where
  "json_value (InArray # cs) = Some (InArray # cs)"
| "json_value (AtValue # cs) = Some (AtName # cs)"
| "json_value _ = None"

definition json_step :: "json_ctx list \<Rightarrow> json_event \<Rightarrow> json_ctx list option" where
  "json_step cs e = (case e of
     StartObject \<Rightarrow> map_option ((#) AtName) (json_value cs)
   | StartArray \<Rightarrow> map_option ((#) InArray) (json_value cs)
   | EndObject \<Rightarrow> (case cs of AtName # cs \<Rightarrow> Some cs | _ \<Rightarrow> None)
   | EndArray \<Rightarrow> (case cs of InArray # cs \<Rightarrow> Some cs | _ \<Rightarrow> None)
   | JString s \<Rightarrow> (case cs of AtName # cs \<Rightarrow> Some (AtValue # cs) | _ \<Rightarrow> json_value cs)
   | JUint64 n \<Rightarrow> json_value cs
   | JDouble d \<Rightarrow> json_value cs
   | JInt i \<Rightarrow> json_value cs)"

fun json_run :: "json_ctx list \<Rightarrow> json_event list \<Rightarrow> json_ctx list option" where
  "json_run cs [] = Some cs"
| "json_run cs (e # es) = (case json_step cs e of None \<Rightarrow> None | Some cs \<Rightarrow> json_run cs es)"

text \<open>A sequence of members of an object, and one value.\<close>

definition json_members :: "json_event list \<Rightarrow> bool" where
  "json_members es \<longleftrightarrow> (\<forall>cs. json_run (AtName # cs) es = Some (AtName # cs))"

definition json_one_value :: "json_event list \<Rightarrow> bool" where
  "json_one_value es \<longleftrightarrow> (\<forall>cs cs'. json_value cs = Some cs' \<longrightarrow> json_run cs es = Some cs')"

definition json_elements :: "json_event list \<Rightarrow> bool" where
  "json_elements es \<longleftrightarrow> (\<forall>cs. json_run (InArray # cs) es = Some (InArray # cs))"

lemma json_run_append:
  "json_run cs (es @ es') = (case json_run cs es of None \<Rightarrow> None | Some cs \<Rightarrow> json_run cs es')"
  by (induction es arbitrary: cs) (auto split: option.split)

named_theorems json_wf

lemma json_members_Nil [json_wf]: "json_members []"
  by (simp add: json_members_def)

lemma json_members_append [json_wf]: "json_members a \<Longrightarrow> json_members b \<Longrightarrow> json_members (a @ b)"
  by (simp add: json_members_def json_run_append)

lemma json_elements_Nil [json_wf]: "json_elements []"
  by (simp add: json_elements_def)

lemma json_elements_append [json_wf]: "json_elements a \<Longrightarrow> json_elements b \<Longrightarrow> json_elements (a @ b)"
  by (simp add: json_elements_def json_run_append)

lemma json_elements_concat [json_wf]: "(\<And>e. e \<in> set es \<Longrightarrow> json_elements e) \<Longrightarrow> json_elements (concat es)"
  by (induction es) (auto intro: json_wf)

lemma json_members_concat [json_wf]: "(\<And>e. e \<in> set es \<Longrightarrow> json_members e) \<Longrightarrow> json_members (concat es)"
  by (induction es) (auto intro: json_wf)

lemma json_one_value_element: "json_one_value es \<Longrightarrow> json_elements es"
  by (simp add: json_one_value_def json_elements_def)

lemma json_value_uint [json_wf]: "json_one_value [JUint64 n]"
  by (simp add: json_one_value_def json_step_def)

lemma json_value_double [json_wf]: "json_one_value [JDouble d]"
  by (simp add: json_one_value_def json_step_def)

lemma json_value_string [json_wf]: "json_one_value [JString s]"
  by (auto simp: json_one_value_def json_step_def elim: json_value.elims split: list.split json_ctx.split)

lemma json_value_int [json_wf]: "json_one_value [JInt i]"
  by (simp add: json_one_value_def json_step_def)

lemma json_value_array [json_wf]: "json_elements es \<Longrightarrow> json_one_value (StartArray # es @ [EndArray])"
  by (simp add: json_one_value_def json_elements_def json_step_def json_run_append)

lemma json_value_object [json_wf]: "json_members es \<Longrightarrow> json_one_value (StartObject # es @ [EndObject])"
  by (simp add: json_one_value_def json_members_def json_step_def json_run_append)

lemma json_member [json_wf]:
  "json_one_value v \<Longrightarrow> json_members es \<Longrightarrow> json_members (JString s # v @ es)"
  by (simp add: json_one_value_def json_members_def json_step_def json_run_append)

lemma json_member_uint [json_wf]: "json_members es \<Longrightarrow> json_members (JString s # JUint64 n # es)"
  using json_member[OF json_value_uint, of es s n] by simp

lemma json_member_double [json_wf]: "json_members es \<Longrightarrow> json_members (JString s # JDouble d # es)"
  using json_member[OF json_value_double, of es s d] by simp

lemma json_pair [json_wf]: "json_elements es \<Longrightarrow> json_elements (StartArray # JUint64 a # JUint64 b # EndArray # es)"
  by (simp add: json_elements_def json_step_def)

lemma json_pair_double [json_wf]:
  "json_elements es \<Longrightarrow> json_elements (StartArray # JUint64 a # JDouble b # EndArray # es)"
  by (simp add: json_elements_def json_step_def)

end
