(* ===== verification/Histogram.thy ===== *)
theory Histogram
  imports Json_Events
begin

text \<open>
  The output of the histograms of \<open>InstTempReuse\<close> and \<open>DataTempReuse\<close>: the pairs of a bin and a
  count, and the cumulative distribution, the count up to a bin divided by a norm.
\<close>

text \<open>The value of a row is \<open>None\<close> where the conversion of \<open>double4\<close> is not defined.\<close>

fun cdf_rows :: "u64 \<Rightarrow> u64 \<Rightarrow> (u64, u64) cmap \<Rightarrow> (u64 \<times> dbl) list" where
  "cdf_rows nf acc [] = []"
| "cdf_rows nf acc ((d, n) # m) = (d, double4 (u64_ratio (acc + n) nf)) # cdf_rows nf (acc + n) m"

definition histogram_events :: "(u64, u64) cmap \<Rightarrow> json_event list" where
  "histogram_events m = concat (map (\<lambda>(d, n). [StartArray, JUint64 d, JUint64 n, EndArray]) m)"

definition cdf_events :: "(u64 \<times> dbl) list \<Rightarrow> json_event list" where
  "cdf_events rows = concat (map (\<lambda>(d, x). [StartArray, JUint64 d, JDouble x, EndArray]) rows)"

lemma histogram_events_wf [json_wf]: "json_elements (histogram_events m)"
  by (auto simp: histogram_events_def intro!: json_wf)

lemma cdf_events_wf [json_wf]: "json_elements (cdf_events rows)"
  by (auto simp: cdf_events_def intro!: json_wf)

subsection \<open>The cumulative distribution\<close>

definition count_sum :: "(u64, u64) cmap \<Rightarrow> nat" where
  "count_sum m = sum_list (map (unat \<circ> snd) m)"

text \<open>Defined values that do not decrease and stay in the interval from \<open>lo\<close> to 1.\<close>

fun cdf_ok :: "rat \<Rightarrow> (u64 \<times> dbl) list \<Rightarrow> bool" where
  "cdf_ok lo [] \<longleftrightarrow> True"
| "cdf_ok lo ((d, x) # rows) \<longleftrightarrow> (case x of None \<Rightarrow> False | Some x \<Rightarrow> lo \<le> x \<and> x \<le> 1 \<and> cdf_ok x rows)"

lemma u64_ratio_defined: "nf \<noteq> 0 \<Longrightarrow> \<exists>x. u64_ratio a nf = Some x"
  by (simp add: u64_ratio_def)

lemma u64_ratio_le_1:
  assumes "a \<le> nf" "u64_ratio a nf = Some x" shows "x \<le> 1"
proof -
  have nf: "nf \<noteq> 0" using assms(2) by (auto simp: u64_ratio_def split: if_splits)
  then obtain y where y: "u64_ratio nf nf = Some y" using u64_ratio_defined by blast
  have "round_double (u64_rat nf) \<noteq> 0"
    using round_double_mono[OF _ u64_rat_pos[OF nf]] round_double_nat[of 1] by auto
  then have "y = 1" using y nf round_double_nat[of 1] by (simp add: u64_ratio_def)
  then show ?thesis using u64_ratio_mono[OF assms(1,2) y] by simp
qed

lemma double4_le_1:
  assumes "0 \<le> x" "x \<le> 1" "double4 (Some x) = Some u" shows "u \<le> 1"
proof -
  have "double4 (Some 1) = Some 1" using double4_1[of 1] round_double_nat[of 1]
    by (simp add: u64_ratio_def u64_rat_def)
  then show ?thesis using double4_mono[OF assms] by simp
qed

lemma double4_nonneg:
  assumes "0 \<le> x" "double4 (Some x) = Some u" shows "0 \<le> u"
proof -
  have "double4 (Some 0) = Some 0" using round_double_nat[of 0] by (simp add: double4_def)
  then show ?thesis using double4_mono[OF _ assms(1) _ assms(2)] by simp
qed

lemma cdf_rows_ok:
  assumes "nf \<noteq> 0" "unat acc + count_sum m \<le> unat nf"
    "double4 (u64_ratio acc nf) = Some lo"
  shows "cdf_ok lo (cdf_rows nf acc m)
    \<and> (m \<noteq> [] \<longrightarrow> snd (last (cdf_rows nf acc m)) = double4 (u64_ratio (acc + of_nat (count_sum m)) nf))"
  using assms
proof (induction nf acc m arbitrary: lo rule: cdf_rows.induct)
  case (2 nf acc d n m)
  have s: "unat acc + (unat n + count_sum m) \<le> unat nf" using 2(3) by (simp add: count_sum_def)
  then have "unat acc + unat n < 2 ^ 64" using s unsigned_less[of nf, where ?'a = nat] by simp
  then have un: "unat (acc + n) = unat acc + unat n" by (simp add: unat_word_ariths)
  obtain x y where x: "u64_ratio acc nf = Some x" and y: "u64_ratio (acc + n) nf = Some y"
    using u64_ratio_defined[OF 2(2)] by blast
  have xy: "x \<le> y" by (rule u64_ratio_mono[OF _ x y]) (simp add: word_le_nat_alt un)
  have y1: "y \<le> 1" by (rule u64_ratio_le_1[OF _ y]) (use s un in \<open>simp add: word_le_nat_alt\<close>)
  have x0: "0 \<le> x" by (rule u64_ratio_nonneg[OF x])
  obtain v where v: "double4 (Some y) = Some v" using double4_defined[of y] x0 xy y1 by force
  have lv: "lo \<le> v" using double4_mono[OF x0 xy _ v] 2(4) x by simp
  have v1: "v \<le> 1" by (rule double4_le_1[OF _ y1 v]) (use x0 xy in simp)
  have IH: "cdf_ok v (cdf_rows nf (acc + n) m)
      \<and> (m \<noteq> [] \<longrightarrow> snd (last (cdf_rows nf (acc + n) m))
          = double4 (u64_ratio (acc + n + of_nat (count_sum m)) nf))"
    by (rule 2(1)[OF 2(2)]) (use s un y v in simp_all)
  show ?case using IH lv v1 y v by (cases m) (auto simp: count_sum_def add.assoc)
qed simp

lemma cdf_rows_from_0:
  assumes "count_sum m \<le> unat nf" "nf \<noteq> 0"
  shows "cdf_ok 0 (cdf_rows nf 0 m)"
    "m \<noteq> [] \<Longrightarrow> count_sum m = unat nf \<Longrightarrow> snd (last (cdf_rows nf 0 m)) = Some 1"
proof -
  have 0: "double4 (u64_ratio 0 nf) = Some 0"
    using assms(2) round_double_nat[of 0]
    by (simp add: u64_ratio_def double4_def u64_rat_def round_double_def[of 0])
  show "cdf_ok 0 (cdf_rows nf 0 m)" using cdf_rows_ok[OF assms(2) _ 0, of m] assms(1) by simp
  show "m \<noteq> [] \<Longrightarrow> count_sum m = unat nf \<Longrightarrow> snd (last (cdf_rows nf 0 m)) = Some 1"
    using cdf_rows_ok[OF assms(2) _ 0, of m] double4_1[of nf] assms by simp
qed

lemma count_sum_put:
  "mp_ok m \<Longrightarrow> count_sum (mp_put k v m) + (case mp_get k m of None \<Rightarrow> 0 | Some n \<Rightarrow> unat n) = count_sum m + unat v"
proof (induction k v m rule: mp_put.induct)
  case (2 k v k' v' m)
  have "k < k' \<Longrightarrow> mp_get k m = None" using 2(2) by (force simp: mp_ok_Cons mp_get_None_iff)
  then show ?case using 2 by (auto simp: mp_ok_Cons mp_get_def count_sum_def)
qed (simp add: count_sum_def)

lemma count_sum_bump: "mp_ok m \<Longrightarrow> count_sum (mp_bump k m) \<le> count_sum m + 1"
proof (cases "mp_get k m")
  case (Some n)
  moreover assume "mp_ok m"
  moreover have "unat (n + 1) \<le> unat n + 1" by (simp add: unat_word_ariths)
  ultimately show ?thesis using count_sum_put[of m k "n + 1"] by (simp add: mp_bump_def)
qed (use count_sum_put[of m k 1] in \<open>simp add: mp_bump_def\<close>)

end
