(* ===== verification/Inst_Temp_Reuse.thy ===== *)
theory Inst_Temp_Reuse
  imports Reuse_Distance Histogram Inst_Analysis "HOL-Library.Signed_Division"
begin

text \<open>
  \<open>library/InstTempReuse.cc\<close>: the reuse distances of the instructions (or of the cache lines that
  hold them).  The theorem of the component compares the histogram that \<open>visit\<close> builds with the
  reuse distances of the sequence of the accessed cells.
\<close>

record inst_temp_reuse =
  itr_cache_line_size :: int
  itr_inst_size :: int
  InstructionsIndex :: "(nat, u64) cmap"
  itr_LastMemoryAccess :: "(u64, u64) cmap"
  itr_DistanceTree :: splay_state
  itr_DistanceDistributionMap :: "(u64, u64) cmap"

definition module_insts :: "ir_module \<Rightarrow> instr list" where
  "module_insts M = concat (map (\<lambda>F. concat (map b_insts (f_blocks F))) M)"

fun index_insts :: "u64 \<Rightarrow> instr list \<Rightarrow> (nat, u64) cmap \<Rightarrow> (nat, u64) cmap" where
  "index_insts index [] m = m"
| "index_insts index (I # Is) m = index_insts (index + 1) Is (mp_insert (i_id I) index m)"

definition InstTempReuse :: "ir_module \<Rightarrow> int \<Rightarrow> int \<Rightarrow> inst_temp_reuse" where
  "InstTempReuse M inst_cache_line_size inst_size =
    \<lparr>itr_cache_line_size = inst_cache_line_size, itr_inst_size = inst_size,
     InstructionsIndex =
       (if inst_cache_line_size \<noteq> 0 \<and> inst_size \<noteq> 0
        then index_insts (of_int inst_cache_line_size) (module_insts M) [] else []),
     itr_LastMemoryAccess = [], itr_DistanceTree = (0, empty_heap), itr_DistanceDistributionMap = []\<rparr>"

definition delete_InstTempReuse :: "inst_temp_reuse \<Rightarrow> heap option" where
  "delete_InstTempReuse s = (case itr_DistanceTree s of (q, H) \<Rightarrow> DeleteAll q H)"

text \<open>The cell of an instruction.  An instruction that is not in the map, and a division by zero
  (an instruction that is larger than a cache line), are not defined.\<close>

definition itr_cell :: "inst_temp_reuse \<Rightarrow> instr \<Rightarrow> u64 option" where
  "itr_cell s I =
    (if itr_cache_line_size s \<noteq> 0 \<and> itr_inst_size s \<noteq> 0
     then let line = itr_cache_line_size s sdiv itr_inst_size s
          in case mp_get (i_id I) (InstructionsIndex s) of
               None \<Rightarrow> None
             | Some index \<Rightarrow> if line = 0 then None else Some (index div of_int line)
     else Some (of_nat (i_id I)))"

text \<open>The part of \<open>visit\<close> after the cell is known.\<close>

definition itr_access :: "u64 \<Rightarrow> u64 \<Rightarrow> inst_temp_reuse \<Rightarrow> inst_temp_reuse option" where
  "itr_access CurrentMemoryAccess CurrentIssueCycle s =
    (case mp_get CurrentMemoryAccess (itr_LastMemoryAccess s) of
       Some PreviousIssueCycle \<Rightarrow> do {
         let s = s\<lparr>itr_LastMemoryAccess :=
           mp_put CurrentMemoryAccess CurrentIssueCycle (itr_LastMemoryAccess s)\<rparr>;
         (distance, found, T) \<leftarrow> splay_distance PreviousIssueCycle (itr_DistanceTree s);
         T \<leftarrow> (if found then splay_update PreviousIssueCycle CurrentIssueCycle T
               else splay_insert CurrentIssueCycle T);
         let distance = upperPowerOfTwo distance;
         Some (s\<lparr>itr_DistanceTree := T,
                 itr_DistanceDistributionMap := mp_bump distance (itr_DistanceDistributionMap s)\<rparr>) }
     | None \<Rightarrow> do {
         let s = s\<lparr>itr_LastMemoryAccess :=
           mp_put CurrentMemoryAccess CurrentIssueCycle (itr_LastMemoryAccess s)\<rparr>;
         T \<leftarrow> splay_insert CurrentIssueCycle (itr_DistanceTree s);
         Some (s\<lparr>itr_DistanceTree := T\<rparr>) })"

definition itr_visit :: "instr \<Rightarrow> u64 \<Rightarrow> inst_temp_reuse \<Rightarrow> inst_temp_reuse option" where
  "itr_visit I CurrentIssueCycle s = do {
     c \<leftarrow> itr_cell s I;
     itr_access c CurrentIssueCycle s }"

definition itr_JSONdump :: "u64 \<Rightarrow> inst_temp_reuse \<Rightarrow> json_event list" where
  "itr_JSONdump nf s =
    [StartObject,
     JString ''instructionSize'', JUint64 (of_int (itr_inst_size s)),
     JString ''cacheLineSize'', JUint64 (of_int (itr_cache_line_size s)),
     JString ''statistics'', StartObject,
       JString ''instructions'', StartArray]
    @ histogram_events (itr_DistanceDistributionMap s)
    @ [EndArray, JString ''instructionsCDF'', StartArray]
    @ cdf_events (cdf_rows nf 0 (itr_DistanceDistributionMap s))
    @ [EndArray, EndObject, EndObject]"

subsection \<open>The invariant\<close>

definition itr_inv :: "u64 list \<Rightarrow> u64 \<Rightarrow> inst_temp_reuse \<Rightarrow> bool" where
  "itr_inv past now s \<longleftrightarrow>
     mp_ok (itr_LastMemoryAccess s) \<and> mp_ok (itr_DistanceDistributionMap s)
   \<and> splay.tracks (itr_DistanceTree s) (\<lambda>a. mp_get a (itr_LastMemoryAccess s)) now
   \<and> in_order (\<lambda>a. mp_get a (itr_LastMemoryAccess s)) past
   \<and> (\<forall>d. count_of d (itr_DistanceDistributionMap s)
        = of_nat (reuse_histogram upperPowerOfTwo past d))"

lemma itr_access_ok:
  assumes i: "itr_inv past now s" and n: "now < now'"
  shows "\<exists>s'. itr_access a now' s = Some s' \<and> itr_inv (a # past) now' s'
    \<and> itr_cache_line_size s' = itr_cache_line_size s \<and> itr_inst_size s' = itr_inst_size s
    \<and> InstructionsIndex s' = InstructionsIndex s"
proof -
  let ?L = "\<lambda>b. mp_get b (itr_LastMemoryAccess s)"
  let ?L' = "mp_put a now' (itr_LastMemoryAccess s)"
  have ok: "mp_ok (itr_LastMemoryAccess s)" "mp_ok (itr_DistanceDistributionMap s)"
    and tr: "splay.tracks (itr_DistanceTree s) ?L now" and o: "in_order ?L past"
    and h: "\<And>d. count_of d (itr_DistanceDistributionMap s)
        = of_nat (reuse_histogram upperPowerOfTwo past d)"
    using i by (auto simp: itr_inv_def)
  have L': "(\<lambda>b. mp_get b ?L') = ?L(a \<mapsto> now')" using ok by (auto simp: mp_get_put)
  note o' = in_order_next[OF tr o n, of a]
  have dm: "dom ?L = set past" using o by (simp add: in_order_def)
  show ?thesis
  proof (cases "?L a")
    case None
    then have "a \<notin> set past" using dm by blast
    obtain T where "splay_insert now' (itr_DistanceTree s) = Some T" "splay.tracks T (?L(a \<mapsto> now')) now'"
      using splay.access_new[OF tr None n] by blast
    then show ?thesis using None ok o' h \<open>a \<notin> set past\<close>
      by (auto simp: itr_access_def itr_inv_def L')
  next
    case (Some prev)
    then have ap: "a \<in> set past" using dm by blast
    obtain T1 T2 where T: "splay_distance prev (itr_DistanceTree s)
        = Some (of_nat (reuse_distance a past), True, T1)"
      "splay_update prev now' T1 = Some T2" "splay.tracks T2 (?L(a \<mapsto> now')) now'"
      using splay_reuse[OF tr o Some n] by blast
    then have "itr_access a now' s = Some (s\<lparr>itr_LastMemoryAccess := ?L', itr_DistanceTree := T2,
        itr_DistanceDistributionMap := mp_bump (upperPowerOfTwo (of_nat (reuse_distance a past)))
          (itr_DistanceDistributionMap s)\<rparr>)"
      using Some by (simp add: itr_access_def)
    then show ?thesis using ok o' T(3) ap h
      by (auto simp: itr_inv_def L' count_of_bump)
  qed
qed

subsection \<open>A run of the analysis\<close>

fun itr_visits :: "(instr \<times> u64) list \<Rightarrow> inst_temp_reuse \<Rightarrow> inst_temp_reuse option" where
  "itr_visits [] s = Some s"
| "itr_visits ((I, cycle) # Is) s = Option.bind (itr_visit I cycle s) (itr_visits Is)"

lemma itr_inv_init: "itr_inv [] now (InstTempReuse M cls isz)"
  using splay_holds_empty
  by (simp add: itr_inv_def InstTempReuse_def splay.tracks_def in_order_def count_of_def)

lemma itr_cell_cong:
  assumes "itr_cache_line_size s' = itr_cache_line_size s" "itr_inst_size s' = itr_inst_size s"
    "InstructionsIndex s' = InstructionsIndex s"
  shows "itr_cell s' I = itr_cell s I"
  using assms by (simp add: itr_cell_def)

lemma itr_visits_ok:
  assumes "itr_inv past now s" "sorted_wrt (<) (now # map snd Is)"
    "map (\<lambda>(I, c). itr_cell s I) Is = map Some cells"
  shows "\<exists>s'. itr_visits Is s = Some s' \<and> itr_inv (rev cells @ past) (last (now # map snd Is)) s'"
  using assms
proof (induction Is arbitrary: now past s cells)
  case Nil
  then show ?case by simp
next
  case (Cons Ic Is)
  obtain I c where Ic: "Ic = (I, c)" by (cases Ic)
  obtain a cs where cells: "cells = a # cs" "itr_cell s I = Some a"
    "map (\<lambda>(I, c). itr_cell s I) Is = map Some cs"
    using Cons.prems(3) Ic by (cases cells) auto
  have n: "now < c" "sorted_wrt (<) (c # map snd Is)" using Cons.prems(2) Ic by auto
  obtain s1 where 1: "itr_access a c s = Some s1" "itr_inv (a # past) c s1"
    and same: "itr_cache_line_size s1 = itr_cache_line_size s" "itr_inst_size s1 = itr_inst_size s"
      "InstructionsIndex s1 = InstructionsIndex s"
    using itr_access_ok[OF Cons.prems(1) n(1)] by blast
  have "map (\<lambda>(I, c). itr_cell s1 I) Is = map Some cs"
    using cells(3) by (simp add: itr_cell_cong[OF same])
  then show ?case
    using Cons.IH[OF 1(2) n(2)] 1(1) cells(1,2) by (auto simp: Ic itr_visit_def)
qed

subsection \<open>Properties\<close>

text \<open>C3: Over any run whose issue cycles increase, \<open>InstTempReuse::visit\<close> never follows a null or
  dangling pointer, and the histogram that it leaves has in every bin the number of accesses to a
  known cell whose reuse distance, the number of the other cells accessed since, rounds up to it.\<close>

theorem itr_run_histogram:
  assumes "sorted_wrt (<) (0 # map snd Is)"
    and "map (\<lambda>(I, c). itr_cell (InstTempReuse M cls isz) I) Is = map Some cells"
  shows "\<exists>s. itr_visits Is (InstTempReuse M cls isz) = Some s
    \<and> (\<forall>d. count_of d (itr_DistanceDistributionMap s)
          = of_nat (reuse_histogram upperPowerOfTwo (rev cells) d))"
  using itr_visits_ok[OF itr_inv_init assms] by (auto simp: itr_inv_def)

theorem itr_run_histogram_witness:
  "\<exists>s. itr_visits [(plain_instr 7 Op_Add, 5), (plain_instr 8 Op_Add, 6), (plain_instr 9 Op_Add, 7),
        (plain_instr 7 Op_Add, 9)] (InstTempReuse [] 0 0) = Some s
    \<and> count_of 2 (itr_DistanceDistributionMap s) = 1"
proof -
  have "reuse_histogram upperPowerOfTwo (rev [7, 8, 9, 7]) 2 = 1"
    by (simp add: reuse_distance_def upperPowerOfTwo_def smear_def)
  then show ?thesis
    using itr_run_histogram[of "[(plain_instr 7 Op_Add, 5), (plain_instr 8 Op_Add, 6),
        (plain_instr 9 Op_Add, 7), (plain_instr 7 Op_Add, 9)]" "[]" 0 0 "[7, 8, 9, 7]"]
    by (auto simp: itr_cell_def InstTempReuse_def plain_instr_def)
qed

text \<open>The JSON output of \<open>InstTempReuse::JSONdump\<close> is one well formed value.\<close>

lemma itr_JSONdump_wf: "json_one_value (itr_JSONdump nf s)"
proof -
  have "json_members (JString ''instructionSize'' # JUint64 (of_int (itr_inst_size s))
    # JString ''cacheLineSize'' # JUint64 (of_int (itr_cache_line_size s))
    # JString ''statistics'' # (StartObject #
        (JString ''instructions'' # (StartArray # histogram_events (itr_DistanceDistributionMap s) @ [EndArray])
         @ JString ''instructionsCDF'' # (StartArray # cdf_events (cdf_rows nf 0 (itr_DistanceDistributionMap s)) @ [EndArray]) @ [])
       @ [EndObject]) @ [])"
    by (intro json_wf)
  from json_value_object[OF this] show ?thesis by (simp add: itr_JSONdump_def)
qed

end
