(* ===== verification/Data_Temp_Reuse.thy ===== *)
theory Data_Temp_Reuse
  imports Inst_Temp_Reuse
begin

text \<open>
  \<open>library/DataTempReuse.cc\<close>: the reuse distances of the data accesses, per cache line or per byte,
  the memory footprint, and the addresses that all threads share.
\<close>

record data_temp_reuse =
  dtr_cache_line_size :: int
  dtr_mem_footprint :: int
  dtr_resolution :: u64
  dtr_resolution_final_bin :: u64
  dtr_thread_id :: int
  dtr_LastMemoryAccess :: "(u64, u64) cmap"
  dtr_LastMemoryAccessByte :: "(u64, bool) cmap"
  dtr_DistanceTree :: splay_state
  dtr_DistanceDistributionMap :: "(u64, u64) cmap"

definition DataTempReuse :: "int \<Rightarrow> int \<Rightarrow> int \<Rightarrow> int \<Rightarrow> int \<Rightarrow> data_temp_reuse" where
  "DataTempReuse data_cache_line_size resolution final_bin thread_id mem_footprint =
    \<lparr>dtr_cache_line_size = data_cache_line_size, dtr_mem_footprint = mem_footprint,
     dtr_resolution = of_int resolution, dtr_resolution_final_bin = of_int final_bin,
     dtr_thread_id = thread_id, dtr_LastMemoryAccess = [], dtr_LastMemoryAccessByte = [],
     dtr_DistanceTree = (0, empty_heap), dtr_DistanceDistributionMap = []\<rparr>"

definition delete_DataTempReuse :: "data_temp_reuse \<Rightarrow> heap option" where
  "delete_DataTempReuse s = (case dtr_DistanceTree s of (q, H) \<Rightarrow> DeleteAll q H)"

subsection \<open>visit\<close>

text \<open>The local variables of the loop over the bytes of an access.\<close>

record dtr_locals =
  l_found :: bool
  l_distance :: u64
  l_PreviousIssueCycle :: u64

definition dtr_byte ::
  "u64 \<Rightarrow> u64 \<Rightarrow> dtr_locals \<times> data_temp_reuse \<Rightarrow> (dtr_locals \<times> data_temp_reuse) option" where
  "dtr_byte CurrentMemoryAccess CurrentIssueCycle ls = (case ls of (l, s) \<Rightarrow>
    (let (l, prev) = (case mp_get CurrentMemoryAccess (dtr_LastMemoryAccess s) of
           Some p \<Rightarrow> (l\<lparr>l_found := True\<rparr>, p) | None \<Rightarrow> (l, 0));
         s = s\<lparr>dtr_LastMemoryAccess :=
               mp_put CurrentMemoryAccess CurrentIssueCycle (dtr_LastMemoryAccess s)\<rparr>
     in if l_found l then do {
          (d, at_root, T) \<leftarrow> splay_distance prev (dtr_DistanceTree s);
          let l = (if at_root \<and> (l_distance l = 0 \<or> d < l_distance l)
                   then l\<lparr>l_distance := d, l_PreviousIssueCycle := prev\<rparr> else l);
          Some (l, s\<lparr>dtr_DistanceTree := T\<rparr>) }
        else Some (l, s)))"

fun footprint_bytes :: "u64 \<Rightarrow> nat \<Rightarrow> nat \<Rightarrow> (u64, bool) cmap \<Rightarrow> (u64, bool) cmap" where
  "footprint_bytes addr j 0 m = m"
| "footprint_bytes addr j (Suc n) m = footprint_bytes addr (Suc j) n (mp_insert (addr + of_nat j) True m)"

text \<open>The loop \<open>for (i = 0; i < MemoryAccessSize; i++)\<close>; \<open>n\<close> rounds are left.  With a cache line
  size the first round ends it.\<close>

fun dtr_loop :: "u64 \<Rightarrow> u64 \<Rightarrow> nat \<Rightarrow> u64 \<Rightarrow> nat \<Rightarrow> nat
    \<Rightarrow> dtr_locals \<times> data_temp_reuse \<Rightarrow> (dtr_locals \<times> data_temp_reuse) option" where
  "dtr_loop MemoryAddress MemoryAddressReal sz cycle i 0 ls = Some ls"
| "dtr_loop MemoryAddress MemoryAddressReal sz cycle i (Suc n) ls = do {
     (l, s) \<leftarrow> dtr_byte (MemoryAddress + of_nat i) cycle ls;
     if dtr_cache_line_size s \<noteq> 0
     then Some (l, if dtr_mem_footprint s = 1
                   then s\<lparr>dtr_LastMemoryAccessByte :=
                          footprint_bytes MemoryAddressReal 0 sz (dtr_LastMemoryAccessByte s)\<rparr>
                   else s)
     else dtr_loop MemoryAddress MemoryAddressReal sz cycle (Suc i) n (l, s) }"

definition dtr_bin :: "data_temp_reuse \<Rightarrow> u64 \<Rightarrow> u64" where
  "dtr_bin s distance =
    (if dtr_resolution_final_bin s < distance \<or> dtr_resolution s < 1
     then upperPowerOfTwo distance
     else distance + (dtr_resolution s - distance mod dtr_resolution s))"

definition dtr_access :: "u64 \<Rightarrow> u32 \<Rightarrow> u64 \<Rightarrow> data_temp_reuse \<Rightarrow> data_temp_reuse option" where
  "dtr_access MemoryAddressReal MemoryAccessSize CurrentIssueCycle s = do {
     let MemoryAddress =
       (if dtr_cache_line_size s \<noteq> 0 then MemoryAddressReal div of_int (dtr_cache_line_size s)
        else MemoryAddressReal);
     (l, s) \<leftarrow> dtr_loop MemoryAddress MemoryAddressReal (unat MemoryAccessSize) CurrentIssueCycle 0
        (unat MemoryAccessSize) (\<lparr>l_found = False, l_distance = 0, l_PreviousIssueCycle = 0\<rparr>, s);
     T \<leftarrow> (if l_found l then splay_update (l_PreviousIssueCycle l) CurrentIssueCycle (dtr_DistanceTree s)
           else splay_insert CurrentIssueCycle (dtr_DistanceTree s));
     let s = s\<lparr>dtr_DistanceTree := T\<rparr>;
     Some (if l_found l
           then s\<lparr>dtr_DistanceDistributionMap :=
                  mp_bump (dtr_bin s (l_distance l)) (dtr_DistanceDistributionMap s)\<rparr>
           else s) }"

definition dtr_visit :: "(ir_type \<Rightarrow> u64) \<Rightarrow> shared_tables \<Rightarrow> instr \<Rightarrow> u64
    \<Rightarrow> data_temp_reuse \<Rightarrow> data_temp_reuse option" where
  "dtr_visit alloc_size S I CurrentIssueCycle s =
    (if i_opcode I \<noteq> Op_Load \<and> i_opcode I \<noteq> Op_Store then Some s
     else do {
       MemoryAccessSize \<leftarrow> getMemoryAccessSize alloc_size I;
       MemoryAddressReal \<leftarrow> getMemoryAddress S (i_id I) (dtr_thread_id s);
       dtr_access MemoryAddressReal MemoryAccessSize CurrentIssueCycle s })"

subsection \<open>JSONdump\<close>

text \<open>With a resolution, a row is left out when the printed ratio is the one of the last row.  The
  code compares the texts of the two doubles; equal texts are equal doubles.\<close>

fun dtr_rows :: "bool \<Rightarrow> dbl option \<Rightarrow> (u64 \<times> dbl) list \<Rightarrow> (u64 \<times> dbl) list" where
  "dtr_rows compress lastWrote [] = []"
| "dtr_rows compress lastWrote ((d, x) # rows) =
    (if Some x \<noteq> lastWrote \<or> \<not> compress then (d, x) # dtr_rows compress (Some x) rows
     else dtr_rows compress lastWrote rows)"

definition dtr_footprint_events :: "u64 \<Rightarrow> u64 \<Rightarrow> data_temp_reuse \<Rightarrow> json_event list option" where
  "dtr_footprint_events sharedBytes sharedAccesses s = do {
     tree_size \<leftarrow> (case dtr_DistanceTree s of (q, H) \<Rightarrow> TreeSize q H);
     Some ([JString ''memoryFootprint'', StartObject,
       JString ''shared_addresses_byte_granularity'', JUint64 sharedBytes]
     @ (if dtr_mem_footprint s = 1 then
          (if dtr_cache_line_size s \<noteq> 0
           then [JString ''total_distinct_addresses_byte_granularity'',
                 JUint64 (of_nat (length (dtr_LastMemoryAccessByte s)))]
           else [JString ''total_distinct_addresses_byte_granularity'',
                 JUint64 (of_nat (length (dtr_LastMemoryAccess s)))])
        else if dtr_cache_line_size s = 0
        then [JString ''total_distinct_addresses_byte_granularity'',
              JUint64 (of_nat (length (dtr_LastMemoryAccess s)))]
        else [])
     @ [JString ''shared_accesses'', JUint64 sharedAccesses,
        JString ''total_distinct_accesses_starting_addresses'', JUint64 tree_size,
        JString ''cache_line_size'',
        JUint64 (if dtr_cache_line_size s = 0 then 1 else of_int (dtr_cache_line_size s)),
        EndObject]) }"

definition dtr_JSONdump :: "u64 \<Rightarrow> u64 \<Rightarrow> u64 \<Rightarrow> data_temp_reuse \<Rightarrow> json_event list option" where
  "dtr_JSONdump NormFactor sharedBytes sharedAccesses s = do {
     let compressOutput = 0 < dtr_resolution s;
     let m = dtr_DistanceDistributionMap s;
     fp \<leftarrow> (if dtr_cache_line_size s = 0 \<or> dtr_mem_footprint s \<noteq> 0
            then dtr_footprint_events sharedBytes sharedAccesses s else Some []);
     Some ([StartArray, StartObject,
       JString ''cacheLineSize'', JUint64 (of_int (dtr_cache_line_size s)),
       JString ''statistics'', StartObject]
     @ (if compressOutput then []
        else [JString ''data'', StartArray] @ histogram_events m @ [EndArray])
     @ [JString ''dataCDF'', StartArray]
     @ cdf_events (dtr_rows compressOutput None (cdf_rows NormFactor 0 m))
     @ [EndArray, EndObject, EndObject, EndArray] @ fp) }"

subsection \<open>compute_shared_memory\<close>

text \<open>The two buffers that the intersections use in turn; \<open>b\<close> is the parity.\<close>

definition buf :: "nat \<Rightarrow> 'a \<times> 'a \<Rightarrow> 'a" where
  "buf i bs = (if even i then fst bs else snd bs)"

definition set_buf :: "nat \<Rightarrow> 'a \<Rightarrow> 'a \<times> 'a \<Rightarrow> 'a \<times> 'a" where
  "set_buf i x bs = (if even i then (x, snd bs) else (fst bs, x))"

text \<open>The loop over the threads from 2 on; the threads are given with their flag of
  \<open>InitializedThreads\<close>.\<close>

fun shared_loop :: "nat \<Rightarrow> nat \<Rightarrow> (bool \<times> (u64, 'v) cmap) list
    \<Rightarrow> (u64 \<times> 'v) list \<times> (u64 \<times> 'v) list
    \<Rightarrow> (nat \<times> (u64 \<times> 'v) list \<times> (u64 \<times> 'v) list) option" where
  "shared_loop i realSize [] bs = Some (realSize, bs)"
| "shared_loop i realSize ((init, m) # ms) bs =
    (if init then do {
       r \<leftarrow> intersectMore (buf i bs) m (buf (i + 1) bs);
       shared_loop (i + 1) (realSize + 1) ms (set_buf (i + 1) r bs) }
     else shared_loop (i + 1) realSize ms bs)"

definition shared_maps :: "'v \<Rightarrow> (bool \<times> (u64, 'v) cmap) list
    \<Rightarrow> (nat \<times> (u64 \<times> 'v) list \<times> (u64 \<times> 'v) list) option" where
  "shared_maps z ms = (case ms of (_, m0) # (_, m1) # rest \<Rightarrow> do {
       let n = length m0;
       let bs = (replicate n (0, z), replicate n (0, z));
       r \<leftarrow> intersectTwoMaps m0 m1 (buf 0 bs);
       shared_loop 2 2 rest (set_buf 0 r bs) }
     | _ \<Rightarrow> None)"

definition ANALYZE_DTR :: u64 where "ANALYZE_DTR = 32"
definition ANALYZE_MEM_FOOTPRINT :: u64 where "ANALYZE_MEM_FOOTPRINT = 65536"

definition compute_shared_memory :: "(bool \<times> data_temp_reuse) list \<Rightarrow> u64 \<Rightarrow> u64 \<Rightarrow> u64 \<Rightarrow> (u64 \<times> u64) option" where
  "compute_shared_memory ts options sharedBytes sharedAccesses =
    (case ts of (init0, t0) # (init1, t1) # rest \<Rightarrow>
       if options AND ANALYZE_DTR \<noteq> 0 \<and> init0 \<and> init1 then
         (let accesses = map (\<lambda>(i, t). (i, dtr_LastMemoryAccess t)) ts;
              bytes = map (\<lambda>(i, t). (i, dtr_LastMemoryAccessByte t)) ts
          in if dtr_cache_line_size t0 = 0 then do {
               (realSize, bs) \<leftarrow> shared_maps 0 accesses;
               let n = of_nat (length (buf realSize bs));
               Some (n, n) }
             else if options AND ANALYZE_MEM_FOOTPRINT \<noteq> 0 then do {
               (realSize, bs) \<leftarrow> shared_maps False bytes;
               (_, bs') \<leftarrow> shared_maps 0 accesses;
               Some (of_nat (length (buf realSize bs)), of_nat (length (buf realSize bs'))) }
             else Some (sharedBytes, sharedAccesses))
       else Some (sharedBytes, sharedAccesses)
     | _ \<Rightarrow> Some (sharedBytes, sharedAccesses))"

subsection \<open>Every access returns\<close>

text \<open>Whatever the mode: the tree of an analysis is a search tree of time stamps, and the maps are
  maps.\<close>

definition dtr_safe :: "data_temp_reuse \<Rightarrow> bool" where
  "dtr_safe s \<longleftrightarrow> mp_ok (dtr_LastMemoryAccess s) \<and> mp_ok (dtr_LastMemoryAccessByte s)
     \<and> mp_ok (dtr_DistanceDistributionMap s) \<and> (\<exists>K. splay_holds (dtr_DistanceTree s) K)"

text \<open>What the operations do not change.\<close>

definition dtr_same :: "data_temp_reuse \<Rightarrow> data_temp_reuse \<Rightarrow> bool" where
  "dtr_same s s' \<longleftrightarrow> dtr_cache_line_size s' = dtr_cache_line_size s \<and> dtr_mem_footprint s' = dtr_mem_footprint s
     \<and> dtr_resolution s' = dtr_resolution s \<and> dtr_resolution_final_bin s' = dtr_resolution_final_bin s
     \<and> dtr_thread_id s' = dtr_thread_id s"

lemma dtr_byte_safe:
  assumes "dtr_safe s"
  shows "\<exists>l' s'. dtr_byte a c (l, s) = Some (l', s') \<and> dtr_safe s' \<and> dtr_same s s'"
proof -
  obtain K where K: "splay_holds (dtr_DistanceTree s) K" using assms by (auto simp: dtr_safe_def)
  define prev where "prev = (case mp_get a (dtr_LastMemoryAccess s) of None \<Rightarrow> 0 | Some p \<Rightarrow> p)"
  obtain d f T where T: "splay_distance prev (dtr_DistanceTree s) = Some (d, f, T)" "splay_holds T K"
    using splay.dist_law[OF K, of prev] by blast
  define s1 where "s1 = s\<lparr>dtr_LastMemoryAccess := mp_put a c (dtr_LastMemoryAccess s)\<rparr>"
  have s1: "dtr_safe s1" "dtr_same s s1" "dtr_safe (s1\<lparr>dtr_DistanceTree := T\<rparr>)"
    "dtr_same s (s1\<lparr>dtr_DistanceTree := T\<rparr>)"
    using assms T(2) by (auto simp: dtr_safe_def dtr_same_def s1_def)
  have "(\<exists>l'. dtr_byte a c (l, s) = Some (l', s1\<lparr>dtr_DistanceTree := T\<rparr>)) \<or> (\<exists>l'. dtr_byte a c (l, s) = Some (l', s1))"
    using T(1) unfolding prev_def s1_def
    by (cases "mp_get a (dtr_LastMemoryAccess s)") (auto simp: dtr_byte_def Let_def)
  then show ?thesis using s1 by blast
qed

lemma dtr_same_trans: "dtr_same s s' \<Longrightarrow> dtr_same s' s'' \<Longrightarrow> dtr_same s s''"
  by (simp add: dtr_same_def)

lemma mp_ok_footprint: "mp_ok m \<Longrightarrow> mp_ok (footprint_bytes a j n m)"
  by (induction a j n m rule: footprint_bytes.induct) auto

lemma mp_keys_footprint:
  "mp_keys (footprint_bytes a j n m) = mp_keys m \<union> (\<lambda>k. a + of_nat (j + k)) ` {..<n}"
proof (induction a j n m rule: footprint_bytes.induct)
  case (2 a j n m)
  have "(\<lambda>k. a + of_nat (j + k)) ` {..<Suc n} = insert (a + of_nat j) ((\<lambda>k. a + of_nat (Suc j + k)) ` {..<n})"
    unfolding lessThan_Suc_eq_insert_0 image_insert image_image by simp
  then show ?case using 2 by auto
qed simp

lemma dtr_loop_safe:
  assumes "dtr_safe s"
  shows "\<exists>l' s'. dtr_loop addr adr sz c i n (l, s) = Some (l', s') \<and> dtr_safe s' \<and> dtr_same s s'"
  using assms
proof (induction n arbitrary: i l s)
  case 0
  then show ?case by (simp add: dtr_same_def)
next
  case (Suc n)
  obtain l1 s1 where 1: "dtr_byte (addr + of_nat i) c (l, s) = Some (l1, s1)" "dtr_safe s1" "dtr_same s s1"
    using dtr_byte_safe[OF Suc.prems] by blast
  show ?case
  proof (cases "dtr_cache_line_size s1 = 0")
    case True
    then show ?thesis using Suc.IH[OF 1(2)] 1 dtr_same_trans by (fastforce simp: dtr_same_def)
  next
    case False
    then show ?thesis using 1 by (auto simp: dtr_safe_def dtr_same_def mp_ok_footprint)
  qed
qed

lemma dtr_access_safe:
  assumes "dtr_safe s" "c \<noteq> 0"
  shows "\<exists>s'. dtr_access adr sz c s = Some s' \<and> dtr_safe s' \<and> dtr_same s s'"
proof -
  let ?addr = "if dtr_cache_line_size s \<noteq> 0 then adr div of_int (dtr_cache_line_size s) else adr"
  obtain l1 s1 where 1: "dtr_loop ?addr adr (unat sz) c 0 (unat sz)
      (\<lparr>l_found = False, l_distance = 0, l_PreviousIssueCycle = 0\<rparr>, s) = Some (l1, s1)"
    "dtr_safe s1" "dtr_same s s1"
    using dtr_loop_safe[OF assms(1)] by blast
  obtain K where K: "splay_holds (dtr_DistanceTree s1) K" using 1(2) by (auto simp: dtr_safe_def)
  obtain T where T: "splay_insert c (dtr_DistanceTree s1) = Some T" "splay_holds T (insert c K)"
    using splay.ins_law[OF K assms(2)] by blast
  obtain U where U: "splay_update (l_PreviousIssueCycle l1) c (dtr_DistanceTree s1) = Some U"
      "splay_holds U (insert c (K - {l_PreviousIssueCycle l1}))"
    using splay.upd_law[OF K assms(2)] by blast
  show ?thesis using 1 T U
    by (cases "l_found l1") (auto simp: dtr_access_def Let_def dtr_safe_def dtr_same_def)
qed

subsection \<open>The reuse distances of cache lines\<close>

definition dtr_line :: "data_temp_reuse \<Rightarrow> u64 \<Rightarrow> u64" where
  "dtr_line s a = a div of_int (dtr_cache_line_size s)"

definition dtr_line_inv :: "u64 list \<Rightarrow> u64 \<Rightarrow> data_temp_reuse \<Rightarrow> bool" where
  "dtr_line_inv past now s \<longleftrightarrow>
     mp_ok (dtr_LastMemoryAccess s) \<and> mp_ok (dtr_DistanceDistributionMap s)
   \<and> splay.tracks (dtr_DistanceTree s) (\<lambda>a. mp_get a (dtr_LastMemoryAccess s)) now
   \<and> in_order (\<lambda>a. mp_get a (dtr_LastMemoryAccess s)) past
   \<and> (\<forall>d. count_of d (dtr_DistanceDistributionMap s) = of_nat (reuse_histogram (dtr_bin s) past d))"

lemma dtr_bin_same: "dtr_same s s' \<Longrightarrow> dtr_bin s' = dtr_bin s"
  by (auto simp: dtr_same_def dtr_bin_def fun_eq_iff)

lemma dtr_bin_upd [simp]:
  "dtr_bin (s\<lparr>dtr_LastMemoryAccess := m\<rparr>) = dtr_bin s"
  "dtr_bin (s\<lparr>dtr_LastMemoryAccessByte := b\<rparr>) = dtr_bin s"
  "dtr_bin (s\<lparr>dtr_DistanceTree := t\<rparr>) = dtr_bin s"
  by (simp_all add: dtr_bin_def fun_eq_iff)

lemma dtr_line_access_ok:
  assumes i: "dtr_line_inv past now s" and n: "now < now'"
    and c: "dtr_cache_line_size s \<noteq> 0" and sz: "sz \<noteq> 0"
  shows "\<exists>s'. dtr_access adr sz now' s = Some s' \<and> dtr_line_inv (dtr_line s adr # past) now' s'
    \<and> dtr_same s s'"
proof -
  let ?L = "\<lambda>b. mp_get b (dtr_LastMemoryAccess s)" and ?a = "dtr_line s adr"
  let ?L' = "mp_put ?a now' (dtr_LastMemoryAccess s)"
  define fb where "fb = (if dtr_mem_footprint s = 1
    then footprint_bytes adr 0 (unat sz) (dtr_LastMemoryAccessByte s) else dtr_LastMemoryAccessByte s)"
  have ok: "mp_ok (dtr_LastMemoryAccess s)" "mp_ok (dtr_DistanceDistributionMap s)"
    and tr: "splay.tracks (dtr_DistanceTree s) ?L now" and o: "in_order ?L past"
    and h: "\<And>d. count_of d (dtr_DistanceDistributionMap s) = of_nat (reuse_histogram (dtr_bin s) past d)"
    using i by (auto simp: dtr_line_inv_def)
  have L': "(\<lambda>b. mp_get b ?L') = ?L(?a \<mapsto> now')" using ok by (auto simp: mp_get_put)
  note o' = in_order_next[OF tr o n, of ?a]
  have dm: "dom ?L = set past" using o by (simp add: in_order_def)
  obtain m where m: "unat sz = Suc m" using sz by (metis not0_implies_Suc unat_eq_0)
  show ?thesis
  proof (cases "?L ?a")
    case None
    then have ap: "?a \<notin> set past" using dm by blast
    obtain T where T: "splay_insert now' (dtr_DistanceTree s) = Some T" "splay.tracks T (?L(?a \<mapsto> now')) now'"
      using splay.access_new[OF tr None n] by blast
    define s' where "s' = s\<lparr>dtr_LastMemoryAccess := ?L', dtr_LastMemoryAccessByte := fb, dtr_DistanceTree := T\<rparr>"
    have "dtr_access adr sz now' s = Some s'" using None T(1) c
      by (simp add: dtr_access_def dtr_byte_def m dtr_line_def s'_def fb_def Let_def)
    moreover have same: "dtr_same s s'" by (simp add: dtr_same_def s'_def)
    moreover have "dtr_line_inv (?a # past) now' s'" using ok o' h ap T(2) dtr_bin_same[OF same]
      by (simp add: dtr_line_inv_def) (simp add: s'_def L')
    ultimately show ?thesis by blast
  next
    case (Some prev)
    then have ap: "?a \<in> set past" using dm by blast
    obtain T1 T2 where T: "splay_distance prev (dtr_DistanceTree s)
        = Some (of_nat (reuse_distance ?a past), True, T1)"
      "splay_update prev now' T1 = Some T2" "splay.tracks T2 (?L(?a \<mapsto> now')) now'"
      using splay_reuse[OF tr o Some n] by blast
    define s' where "s' = s\<lparr>dtr_LastMemoryAccess := ?L', dtr_LastMemoryAccessByte := fb, dtr_DistanceTree := T2,
        dtr_DistanceDistributionMap :=
          mp_bump (dtr_bin s (of_nat (reuse_distance ?a past))) (dtr_DistanceDistributionMap s)\<rparr>"
    have "dtr_access adr sz now' s = Some s'" using Some T(1,2) c
      by (simp add: dtr_access_def dtr_byte_def m dtr_line_def s'_def fb_def Let_def)
    moreover have same: "dtr_same s s'" by (simp add: dtr_same_def s'_def)
    moreover have "dtr_line_inv (?a # past) now' s'" using ok o' h ap T(3) dtr_bin_same[OF same]
      by (simp add: dtr_line_inv_def) (simp add: s'_def L' count_of_bump)
    ultimately show ?thesis by blast
  qed
qed

subsection \<open>Runs\<close>

text \<open>A run: the address, the size and the issue cycle of every load and store.\<close>

fun dtr_run :: "(u64 \<times> u32 \<times> u64) list \<Rightarrow> data_temp_reuse \<Rightarrow> data_temp_reuse option" where
  "dtr_run [] s = Some s"
| "dtr_run ((adr, sz, cycle) # xs) s = Option.bind (dtr_access adr sz cycle s) (dtr_run xs)"

definition run_cycles :: "(u64 \<times> u32 \<times> u64) list \<Rightarrow> u64 list" where
  "run_cycles xs = map (\<lambda>(a, sz, c). c) xs"

lemma run_cycles_simps [simp]:
  "run_cycles [] = []" "run_cycles ((a, sz, c) # xs) = c # run_cycles xs"
  by (simp_all add: run_cycles_def)

lemma dtr_line_same: "dtr_same s s' \<Longrightarrow> dtr_line s' a = dtr_line s a"
  by (simp add: dtr_same_def dtr_line_def)

lemma dtr_line_run:
  assumes "dtr_line_inv past now s" "sorted_wrt (<) (now # run_cycles xs)"
    "dtr_cache_line_size s \<noteq> 0" "\<forall>(a, sz, c) \<in> set xs. sz \<noteq> 0"
  shows "\<exists>s'. dtr_run xs s = Some s' \<and> dtr_same s s'
    \<and> dtr_line_inv (rev (map (\<lambda>x. dtr_line s (fst x)) xs) @ past) (last (now # run_cycles xs)) s'"
  using assms
proof (induction xs arbitrary: now past s)
  case Nil
  then show ?case by (simp add: dtr_same_def)
next
  case (Cons x xs)
  obtain a sz c where x: "x = (a, sz, c)" by (cases x) auto
  have p: "now < c" "sorted_wrt (<) (c # run_cycles xs)" "sz \<noteq> 0" "\<forall>(a, sz, c) \<in> set xs. sz \<noteq> 0"
    using Cons.prems(2,4) by (auto simp: x)
  obtain s1 where 1: "dtr_access a sz c s = Some s1" "dtr_line_inv (dtr_line s a # past) c s1" "dtr_same s s1"
    using dtr_line_access_ok[OF Cons.prems(1) p(1) Cons.prems(3) p(3)] by blast
  have c1: "dtr_cache_line_size s1 \<noteq> 0" using 1(3) Cons.prems(3) by (simp add: dtr_same_def)
  obtain s2 where 2: "dtr_run xs s1 = Some s2" "dtr_same s1 s2"
    "dtr_line_inv (rev (map (\<lambda>x. dtr_line s1 (fst x)) xs) @ dtr_line s a # past) (last (c # run_cycles xs)) s2"
    using Cons.IH[OF 1(2) p(2) c1 p(4)] by blast
  have "dtr_line s1 = dtr_line s" using dtr_line_same[OF 1(3)] by (simp add: fun_eq_iff)
  then show ?case using 2 1(1) dtr_same_trans[OF 1(3) 2(2)] by (simp add: x)
qed

lemma dtr_run_safe:
  assumes "dtr_safe s" "\<forall>(a, sz, c) \<in> set xs. c \<noteq> 0"
  shows "\<exists>s'. dtr_run xs s = Some s' \<and> dtr_safe s' \<and> dtr_same s s'"
  using assms
proof (induction xs arbitrary: s)
  case Nil
  then show ?case by (simp add: dtr_same_def)
next
  case (Cons x xs)
  obtain a sz c where x: "x = (a, sz, c)" by (cases x) auto
  obtain s1 where 1: "dtr_access a sz c s = Some s1" "dtr_safe s1" "dtr_same s s1"
    using dtr_access_safe[OF Cons.prems(1)] Cons.prems(2) unfolding x by (metis (mono_tags, lifting) case_prod_conv list.set_intros(1))
  then show ?case using Cons.IH[OF 1(2)] Cons.prems(2) dtr_same_trans by (fastforce simp: x)
qed

lemma dtr_safe_init: "dtr_safe (DataTempReuse cls res fin thr fp)"
  using splay_holds_empty by (auto simp: dtr_safe_def DataTempReuse_def)

lemma dtr_line_inv_init: "dtr_line_inv [] now (DataTempReuse cls res fin thr fp)"
  using splay_holds_empty
  by (simp add: dtr_line_inv_def DataTempReuse_def splay.tracks_def in_order_def count_of_def)

subsection \<open>Shared addresses\<close>

lemma set_buf_get [simp]:
  "buf i (set_buf i x bs) = x" "buf i (set_buf (Suc i) x bs) = buf i bs"
  "buf (Suc i) (set_buf i x bs) = buf (Suc i) bs" "buf (Suc i) (set_buf (Suc i) x bs) = x"
  by (auto simp: buf_def set_buf_def)

lemma buf_Suc_Suc [simp]: "buf (Suc (Suc i)) bs = buf i bs"
  by (simp add: buf_def)

text \<open>When every thread is initialised the buffers change places in step with the count of the
  threads, and the last one holds the intersection.\<close>

lemma shared_loop_ok:
  assumes "mp_ok (buf i bs)" "length (buf i bs) \<le> length (buf (Suc i) bs)"
    "\<forall>(init, m) \<in> set ms. init \<and> mp_ok m"
  shows "\<exists>bs'. shared_loop i k ms bs = Some (k + length ms, bs')
    \<and> mp_ok (buf (i + length ms) bs')
    \<and> mp_keys (buf (i + length ms) bs') = mp_keys (buf i bs) \<inter> (\<Inter>(init, m) \<in> set ms. mp_keys m)"
  using assms
proof (induction ms arbitrary: i k bs)
  case Nil
  then show ?case by simp
next
  case (Cons x ms)
  obtain m where x: "x = (True, m)" "mp_ok m" using Cons.prems(3) by (cases x) auto
  define r where "r = set_intersection (buf i bs) m"
  note r = set_intersection_ok[OF Cons.prems(1) x(2), folded r_def]
  let ?bs = "set_buf (Suc i) r bs"
  have "mp_ok (buf (Suc i) ?bs)" "length (buf (Suc i) ?bs) \<le> length (buf (Suc (Suc i)) ?bs)"
    using r by simp_all
  from Cons.IH[OF this, of "Suc k"] Cons.prems(3) obtain bs' where
    b: "shared_loop (Suc i) (Suc k) ms ?bs = Some (Suc k + length ms, bs')"
    "mp_ok (buf (Suc i + length ms) bs')"
    "mp_keys (buf (Suc i + length ms) bs') = mp_keys r \<inter> (\<Inter>(init, m) \<in> set ms. mp_keys m)"
    by auto
  have "intersectMore (buf i bs) m (buf (Suc i) bs) = Some r"
    using r(3) Cons.prems(2) by (simp add: intersectMore_def r_def[symmetric])
  then show ?case using b by (intro exI[of _ bs']) (simp add: x(1) r(2) Int_assoc)
qed

lemma shared_maps_ok:
  assumes "\<forall>(init, m) \<in> set ms. init \<and> mp_ok m" "1 < length ms"
  shows "\<exists>bs. shared_maps z ms = Some (length ms, bs)
    \<and> length (buf (length ms) bs) = card (\<Inter>(init, m) \<in> set ms. mp_keys m)"
proof -
  obtain m0 m1 rest where ms: "ms = (True, m0) # (True, m1) # rest" "mp_ok m0" "mp_ok m1"
    "\<forall>(init, m) \<in> set rest. init \<and> mp_ok m"
    using assms by (cases ms; cases "tl ms") auto
  define r where "r = set_intersection m0 m1"
  note r = set_intersection_ok[OF ms(2,3), folded r_def]
  let ?bs = "(r, replicate (length m0) (0, z))"
  have i: "mp_ok (buf 2 ?bs)" "length (buf 2 ?bs) \<le> length (buf (Suc 2) ?bs)"
    using r by (simp_all add: buf_def)
  obtain bs where b: "shared_loop 2 2 rest ?bs = Some (2 + length rest, bs)"
    "mp_ok (buf (2 + length rest) bs)"
    "mp_keys (buf (2 + length rest) bs) = mp_keys (buf 2 ?bs) \<inter> (\<Inter>(init, m) \<in> set rest. mp_keys m)"
    using shared_loop_ok[OF i ms(4), of 2] by blast
  have "mp_keys (buf (2 + length rest) bs) = (\<Inter>(init, m) \<in> set ms. mp_keys m)"
    using b(3) r(2) by (auto simp: ms(1) buf_def)
  moreover have "shared_maps z ms = Some (length ms, bs)"
    using b(1) r(3) by (simp add: shared_maps_def ms(1) intersectTwoMaps_def r_def[symmetric] buf_def set_buf_def)
  ultimately show ?thesis using mp_length[OF b(2)] by (simp add: ms(1))
qed

lemma compute_shared_memory_bytes:
  assumes "1 < length ts" "\<forall>(init, t) \<in> set ts. init \<and> dtr_safe t"
    "dtr_cache_line_size (snd (hd ts)) = 0" "options AND ANALYZE_DTR \<noteq> 0"
  shows "compute_shared_memory ts options b a =
    (let n = of_nat (card (\<Inter>(init, t) \<in> set ts. mp_keys (dtr_LastMemoryAccess t))) in Some (n, n))"
proof -
  let ?ms = "map (\<lambda>(i, t). (i, dtr_LastMemoryAccess t)) ts"
  obtain t0 t1 rest where ts: "ts = (True, t0) # (True, t1) # rest"
    using assms(1,2) by (cases ts; cases "tl ts") auto
  have "\<forall>(init, m) \<in> set ?ms. init \<and> mp_ok m" using assms(2) by (auto simp: dtr_safe_def)
  from shared_maps_ok[OF this, of 0] assms(1)
  obtain bs where "shared_maps 0 ?ms = Some (length ts, bs)"
    "length (buf (length ts) bs) = card (\<Inter>(init, m) \<in> set ?ms. mp_keys m)"
    by auto
  moreover have "(\<Inter>(init, m) \<in> set ?ms. mp_keys m) = (\<Inter>(init, t) \<in> set ts. mp_keys (dtr_LastMemoryAccess t))"
    by auto
  ultimately show ?thesis using assms(3,4) by (simp add: compute_shared_memory_def ts)
qed

lemma dtr_rows_subset: "set (dtr_rows cp lw rows) \<subseteq> set rows"
  by (induction cp lw rows rule: dtr_rows.induct) auto

lemma cdf_ok_weaken: "cdf_ok lo rows \<Longrightarrow> lo' \<le> lo \<Longrightarrow> cdf_ok lo' rows"
  by (cases rows) (auto split: option.splits)

lemma dtr_rows_cdf: "cdf_ok lo rows \<Longrightarrow> cdf_ok lo (dtr_rows cp lw rows)"
  by (induction cp lw rows arbitrary: lo rule: dtr_rows.induct)
     (auto split: option.splits intro: cdf_ok_weaken)

subsection \<open>Counts and output\<close>

lemma dtr_byte_dist:
  "dtr_byte a c (l, s) = Some (l', s') \<Longrightarrow> dtr_DistanceDistributionMap s' = dtr_DistanceDistributionMap s"
  by (auto simp: dtr_byte_def Let_def split: if_splits prod.splits option.splits Option.bind_splits)

lemma dtr_loop_dist:
  "dtr_loop addr adr sz c i n (l, s) = Some (l', s')
    \<Longrightarrow> dtr_DistanceDistributionMap s' = dtr_DistanceDistributionMap s"
proof (induction n arbitrary: i l s)
  case (Suc n)
  obtain l1 s1 where 1: "dtr_byte (addr + of_nat i) c (l, s) = Some (l1, s1)"
    using Suc.prems by (cases "dtr_byte (addr + of_nat i) c (l, s)") auto
  show ?case using Suc.IH[of "Suc i" l1 s1] Suc.prems 1 dtr_byte_dist[OF 1]
    by (auto split: if_splits)
qed simp

lemma dtr_access_count:
  assumes "dtr_access adr sz c s = Some s'" "dtr_safe s"
  shows "count_sum (dtr_DistanceDistributionMap s') \<le> count_sum (dtr_DistanceDistributionMap s) + 1"
proof -
  let ?addr = "if dtr_cache_line_size s \<noteq> 0 then adr div of_int (dtr_cache_line_size s) else adr"
  obtain l1 s1 where 1: "dtr_loop ?addr adr (unat sz) c 0 (unat sz)
      (\<lparr>l_found = False, l_distance = 0, l_PreviousIssueCycle = 0\<rparr>, s) = Some (l1, s1)"
    using dtr_loop_safe[OF assms(2)] by blast
  note d = dtr_loop_dist[OF 1]
  have "mp_ok (dtr_DistanceDistributionMap s1)" using assms(2) d by (simp add: dtr_safe_def)
  then show ?thesis using assms(1) 1 d count_sum_bump
    by (auto simp: dtr_access_def Let_def split: if_splits Option.bind_splits)
qed

lemma dtr_run_count:
  "dtr_run xs s = Some s' \<Longrightarrow> dtr_safe s \<Longrightarrow> 0 \<notin> set (run_cycles xs)
    \<Longrightarrow> count_sum (dtr_DistanceDistributionMap s') \<le> count_sum (dtr_DistanceDistributionMap s) + length xs"
proof (induction xs arbitrary: s)
  case (Cons x xs)
  obtain a sz c where x: "x = (a, sz, c)" by (cases x) auto
  have c: "c \<noteq> 0" "0 \<notin> set (run_cycles xs)" using Cons.prems(3) by (auto simp: x)
  obtain s1 where 1: "dtr_access a sz c s = Some s1" "dtr_safe s1"
    using dtr_access_safe[OF Cons.prems(2) c(1)] by blast
  then show ?case using Cons.IH[of s1] Cons.prems(1) c(2) dtr_access_count[OF 1(1) Cons.prems(2)]
    by (simp add: x)
qed simp

lemma dtr_footprint_events_ok:
  assumes "dtr_safe s"
  shows "\<exists>es. dtr_footprint_events b a s = Some es \<and> json_members es"
proof -
  obtain q H K where t: "dtr_DistanceTree s = (q, H)" "splay_holds (q, H) K"
    using assms by (cases "dtr_DistanceTree s") (auto simp: dtr_safe_def)
  then obtain T where T: "rep H q T" by (auto simp: splay_holds_def)
  define ts where "ts = (of_nat (size T) :: u64)"
  have ts: "TreeSize q H = Some ts" using TreeSize_ok[OF repD(2)[OF T]] by (simp add: ts_def)
  have "json_members (JString ''memoryFootprint'' # (StartObject # (JString a1 # JUint64 n1 # m @
     [JString a2, JUint64 n2, JString a3, JUint64 n3, JString a4, JUint64 n4]) @ [EndObject]) @ [])"
    if "json_members m" for m a1 n1 a2 n2 a3 n3 a4 n4
    using that by (intro json_wf)
  from this[of "[]"] this[of "[JString a5, JUint64 n5]" for a5 n5] show ?thesis
    by (simp add: dtr_footprint_events_def t(1) ts json_wf)
qed

subsection \<open>Properties\<close>

text \<open>C2: With a cache line size, a run of \<open>DataTempReuse::visit\<close> with increasing issue cycles
  leaves in every bin the number of accesses to a known line whose reuse distance falls into it;
  the bin of a distance is the one of the resolution that the analysis was given.\<close>

theorem dtr_line_histogram:
  assumes "sorted_wrt (<) (0 # run_cycles xs)" "\<forall>(a, sz, c) \<in> set xs. sz \<noteq> 0" "cls \<noteq> 0"
  shows "\<exists>s. dtr_run xs (DataTempReuse cls res fin thr fp) = Some s
    \<and> (\<forall>d. count_of d (dtr_DistanceDistributionMap s)
          = of_nat (reuse_histogram (dtr_bin (DataTempReuse cls res fin thr fp))
              (rev (map (\<lambda>x. fst x div of_int cls) xs)) d))"
proof -
  let ?s0 = "DataTempReuse cls res fin thr fp"
  have c: "dtr_cache_line_size ?s0 = cls" by (simp add: DataTempReuse_def)
  obtain s where s: "dtr_run xs ?s0 = Some s" "dtr_same ?s0 s"
    "dtr_line_inv (rev (map (\<lambda>x. dtr_line ?s0 (fst x)) xs) @ []) (last (0 # run_cycles xs)) s"
    using dtr_line_run[OF dtr_line_inv_init assms(1) _ assms(2), of cls] assms(3) c by metis
  then show ?thesis using dtr_bin_same[OF s(2)]
    by (auto simp: dtr_line_inv_def dtr_line_def c)
qed

theorem dtr_line_histogram_witness:
  "\<exists>s. dtr_run [(0, 8, 1), (64, 8, 2), (128, 4, 5), (8, 8, 6)] (DataTempReuse 64 0 0 0 1) = Some s
    \<and> count_of 2 (dtr_DistanceDistributionMap s) = 1"
proof -
  have "reuse_histogram (dtr_bin (DataTempReuse 64 0 0 0 1)) [0, 2, 1, 0] 2 = 1"
    by (simp add: reuse_distance_def dtr_bin_def DataTempReuse_def upperPowerOfTwo_def smear_def)
  then show ?thesis
    using dtr_line_histogram[of "[(0, 8, 1), (64, 8, 2), (128, 4, 5), (8, 8, 6)]" 64 0 0 0 1] by auto
qed

text \<open>C20: In every mode a run of \<open>DataTempReuse::visit\<close> with issue cycles that are not 0 returns, with
  a search tree and sorted maps, and the histogram counts at most one distance per access: the
  cumulative distribution that is printed for a norm of at least the number of the accesses has
  defined values in \<open>[0, 1]\<close> that do not decrease.\<close>

theorem dtr_run_returns:
  assumes "0 \<notin> set (run_cycles xs)" "length xs \<le> unat nf" "nf \<noteq> 0"
  shows "\<exists>s. dtr_run xs (DataTempReuse cls res fin thr fp) = Some s \<and> dtr_safe s
    \<and> cdf_ok 0 (dtr_rows (0 < dtr_resolution s) None (cdf_rows nf 0 (dtr_DistanceDistributionMap s)))"
proof -
  let ?s0 = "DataTempReuse cls res fin thr fp"
  have c: "\<forall>(a, sz, c) \<in> set xs. c \<noteq> 0" using assms(1) by (force simp: run_cycles_def)
  obtain s where s: "dtr_run xs ?s0 = Some s" "dtr_safe s"
    using dtr_run_safe[OF dtr_safe_init c] by blast
  have "count_sum (dtr_DistanceDistributionMap s) \<le> length xs"
    using dtr_run_count[OF s(1) dtr_safe_init assms(1)] by (simp add: DataTempReuse_def count_sum_def)
  then have "cdf_ok 0 (cdf_rows nf 0 (dtr_DistanceDistributionMap s))"
    using cdf_rows_from_0(1) assms(2,3) by simp
  then show ?thesis using s dtr_rows_cdf by blast
qed

theorem dtr_run_returns_witness:
  "\<exists>s. dtr_run [(100, 4, 1), (102, 4, 2)] (DataTempReuse 0 0 0 0 0) = Some s \<and> dtr_safe s"
  using dtr_run_returns[of "[(100, 4, 1), (102, 4, 2)]" 2 0 0 0 0 0] by auto

text \<open>Without a cache line size the distance of a byte is lost when another byte of the access
  that touched it last has been accessed again: the code reports 0 although two accesses lie
  between (a four byte access, an access to its first byte, one elsewhere, one to its second).\<close>

theorem dtr_byte_distance_lost:
  "map_option (count_of 0 \<circ> dtr_DistanceDistributionMap)
     (dtr_run [(100, 4, 1), (100, 1, 2), (200, 1, 3), (101, 1, 4)] (DataTempReuse 0 0 0 0 0)) = Some 2
   \<and> map_option (count_of 2 \<circ> dtr_DistanceDistributionMap)
     (dtr_run [(100, 4, 1), (200, 1, 2), (300, 1, 3), (101, 1, 4)] (DataTempReuse 0 0 0 0 0)) = Some 1"
  by code_simp

text \<open>C34: When all threads are initialised, the shared bytes and the shared accesses that
  \<open>compute_shared_memory\<close> reports without a cache line size are the number of the addresses that
  every thread accessed.\<close>

theorem shared_memory_exact:
  assumes "1 < length ts" "\<forall>(init, t) \<in> set ts. init \<and> dtr_safe t"
    "dtr_cache_line_size (snd (hd ts)) = 0" "options AND ANALYZE_DTR \<noteq> 0"
  shows "compute_shared_memory ts options b a =
    (let n = of_nat (card (\<Inter>(init, t) \<in> set ts. mp_keys (dtr_LastMemoryAccess t))) in Some (n, n))"
  by (rule compute_shared_memory_bytes[OF assms])

theorem shared_memory_exact_witness:
  "compute_shared_memory
     [(True, (DataTempReuse 0 0 0 0 0)\<lparr>dtr_LastMemoryAccess := [(1, 5), (2, 6)]\<rparr>),
      (True, (DataTempReuse 0 0 0 1 0)\<lparr>dtr_LastMemoryAccess := [(2, 3), (9, 4)]\<rparr>)] 32 0 0 = Some (1, 1)"
proof -
  have "ANALYZE_DTR AND ANALYZE_DTR \<noteq> 0" by (simp add: ANALYZE_DTR_def)
  then show ?thesis
    using shared_memory_exact[of "[(True, (DataTempReuse 0 0 0 0 0)\<lparr>dtr_LastMemoryAccess := [(1, 5), (2, 6)]\<rparr>),
      (True, (DataTempReuse 0 0 0 1 0)\<lparr>dtr_LastMemoryAccess := [(2, 3), (9, 4)]\<rparr>)]" 32 0 0]
      splay_holds_empty
    by (auto simp: dtr_safe_def DataTempReuse_def mp_ok_def ANALYZE_DTR_def)
qed

text \<open>With a thread that is not initialised between two that are, the buffers and the count of the
  threads fall out of step: \<open>compute_shared_memory\<close> reports two shared addresses for threads that
  share none.\<close>

theorem shared_memory_gap:
  "(let t = (\<lambda>xs. (DataTempReuse 0 0 0 0 0)\<lparr>dtr_LastMemoryAccess := xs\<rparr>)
    in compute_shared_memory [(True, t [(1, 5), (2, 6)]), (True, t [(1, 7), (2, 8)]), (False, t []),
         (True, t [(3, 9)])] 32 0 0) = Some (2, 2)"
  by code_simp

text \<open>\<open>DataTempReuse::JSONdump\<close> returns, and what it writes after the name of its member is well
  formed.\<close>

lemma dtr_JSONdump_wf:
  assumes "dtr_safe s"
  shows "\<exists>es. dtr_JSONdump nf b a s = Some es \<and> json_members (JString name # es)"
proof -
  let ?comp = "0 < dtr_resolution s" and ?m = "dtr_DistanceDistributionMap s"
  obtain fp where fp: "(if dtr_cache_line_size s = 0 \<or> dtr_mem_footprint s \<noteq> 0
      then dtr_footprint_events b a s else Some []) = Some fp" "json_members fp"
    using dtr_footprint_events_ok[OF assms, of b a] json_members_Nil by (cases "dtr_cache_line_size s = 0 \<or> dtr_mem_footprint s \<noteq> 0") auto
  define data where "data = (if ?comp then []
     else [JString ''data'', StartArray] @ histogram_events ?m @ [EndArray])"
  have "json_members (JString ''data'' # (StartArray # histogram_events ?m @ [EndArray]) @ [])"
    by (intro json_wf)
  then have "json_members data" by (simp add: data_def json_members_Nil)
  then have "json_members (JString ''cacheLineSize'' # JUint64 (of_int (dtr_cache_line_size s))
    # JString ''statistics'' # (StartObject # (data @ JString ''dataCDF'' #
        (StartArray # cdf_events (dtr_rows ?comp None (cdf_rows nf 0 ?m)) @ [EndArray]) @ [])
        @ [EndObject]) @ [])"
    by (intro json_wf)
  note 1 = json_member[OF json_value_array[OF json_one_value_element[OF json_value_object[OF this]]] fp(2), of name]
  then show ?thesis using fp(1) by (simp add: dtr_JSONdump_def data_def Let_def)
qed

theorem dtr_JSONdump_wf_witness:
  "\<exists>es. dtr_JSONdump 10 0 0 (DataTempReuse 0 0 0 0 1) = Some es \<and> json_members (JString ''dtr'' # es)"
  by (rule dtr_JSONdump_wf[OF dtr_safe_init])

end
