(* ===== verification/Instruction_Mix.thy ===== *)
theory Instruction_Mix
  imports Inst_Analysis Cpp_Map Json_Events "HOL-Library.Product_Lexorder"
begin

text \<open>
  \<open>library/InstructionMix.cc\<close>: the counters of the executed instructions.  A \<open>Num<Opcode>Inst\<close> per
  opcode (the macro \<open>HANDLE_INST\<close>) is the function \<open>NumInst\<close>, the counters of loads and stores per
  type are \<open>NumLoadTy\<close> and \<open>NumStoreTy\<close>, and the nested map \<open>counters[OpCode][ScalarType]
  [VectorSize][OperandTypeID]\<close> is a map from triples per opcode; a triple that is read through
  \<open>operator[]\<close> is inserted with the count 0.  The numbers of LLVM's enumeration \<open>TypeID\<close>, which are
  keys of \<open>counters\<close>, are the parameter \<open>tid\<close>.
\<close>

datatype mem_kind =
    HalfTyK | FloatTyK | DoubleTyK | X86_FP80TyK | FP128TyK | PPC_FP128TyK | X86_MMXTyK
  | Bits4K | Bits8K | Bits16K | Bits32K | Bits64K | MiscTyK

type_synonym mix_counters = "opcode \<Rightarrow> (nat \<times> nat \<times> nat, u64) cmap"

record instr_mix =
  NumInst :: "opcode \<Rightarrow> u64"
  NumTotalInsts :: u64
  NumLoadTy :: "mem_kind \<Rightarrow> u64"
  NumStoreTy :: "mem_kind \<Rightarrow> u64"
  counters :: mix_counters

abbreviation (input) TY_SCALAR :: nat where "TY_SCALAR \<equiv> 0"
abbreviation (input) TY_VECTOR :: nat where "TY_VECTOR \<equiv> 1"
abbreviation (input) TY_MISC :: nat where "TY_MISC \<equiv> 2"
abbreviation (input) VECTOR_SIZE_SCALAR :: nat where "VECTOR_SIZE_SCALAR \<equiv> 0"
abbreviation (input) VECTOR_SIZE_MISC :: nat where "VECTOR_SIZE_MISC \<equiv> 0"
abbreviation (input) INT_4BITS :: nat where "INT_4BITS \<equiv> 114"
abbreviation (input) INT_8BITS :: nat where "INT_8BITS \<equiv> 118"
abbreviation (input) INT_16BITS :: nat where "INT_16BITS \<equiv> 1116"
abbreviation (input) INT_32BITS :: nat where "INT_32BITS \<equiv> 1132"
abbreviation (input) INT_64BITS :: nat where "INT_64BITS \<equiv> 1164"
abbreviation (input) INT_MISCBITS :: nat where "INT_MISCBITS \<equiv> 1199"
abbreviation (input) PRINT_ONLY_INTS :: nat where "PRINT_ONLY_INTS \<equiv> 0"
abbreviation (input) PRINT_ONLY_FLOATS :: nat where "PRINT_ONLY_FLOATS \<equiv> 1"
abbreviation (input) PRINT_FLOATS_INTS :: nat where "PRINT_FLOATS_INTS \<equiv> 2"

definition instr_mix_init :: instr_mix where
  "instr_mix_init = \<lparr>NumInst = (\<lambda>_. 0), NumTotalInsts = 0, NumLoadTy = (\<lambda>_. 0), NumStoreTy = (\<lambda>_. 0),
     counters = (\<lambda>_. [])\<rparr>"

definition mix_visit :: "instr \<Rightarrow> instr_mix \<Rightarrow> instr_mix" where
  "mix_visit I m = m\<lparr>NumInst := (NumInst m)(i_opcode I := NumInst m (i_opcode I) + 1),
     NumTotalInsts := NumTotalInsts m + 1\<rparr>"

subsection \<open>The totals\<close>

definition getNumCtrlInst :: "instr_mix \<Rightarrow> u64" where
  "getNumCtrlInst m = NumInst m Op_Ret + NumInst m Op_Br + NumInst m Op_Switch + NumInst m Op_IndirectBr + NumInst m Op_Invoke + NumInst m Op_Resume + NumInst m Op_Unreachable + NumInst m Op_Call"

definition getNumRetInst :: "instr_mix \<Rightarrow> u64" where
  "getNumRetInst m = NumInst m Op_Ret"

definition getNumBrInst :: "instr_mix \<Rightarrow> u64" where
  "getNumBrInst m = NumInst m Op_Br"

definition getNumSwitchInst :: "instr_mix \<Rightarrow> u64" where
  "getNumSwitchInst m = NumInst m Op_Switch"

definition getNumCallInst :: "instr_mix \<Rightarrow> u64" where
  "getNumCallInst m = NumInst m Op_Call"

definition getNumIndirectBrInst :: "instr_mix \<Rightarrow> u64" where
  "getNumIndirectBrInst m = NumInst m Op_IndirectBr"

definition getNumInvokeInst :: "instr_mix \<Rightarrow> u64" where
  "getNumInvokeInst m = NumInst m Op_Invoke"

definition getNumResumeInst :: "instr_mix \<Rightarrow> u64" where
  "getNumResumeInst m = NumInst m Op_Resume"

definition getNumUnreachableInst :: "instr_mix \<Rightarrow> u64" where
  "getNumUnreachableInst m = NumInst m Op_Unreachable"

definition getNumIntInst :: "instr_mix \<Rightarrow> u64" where
  "getNumIntInst m = NumInst m Op_Add + NumInst m Op_Sub + NumInst m Op_Mul + NumInst m Op_UDiv + NumInst m Op_SDiv + NumInst m Op_URem + NumInst m Op_SRem"

definition getNumIntAddInst :: "instr_mix \<Rightarrow> u64" where
  "getNumIntAddInst m = NumInst m Op_Add"

definition getNumIntSubInst :: "instr_mix \<Rightarrow> u64" where
  "getNumIntSubInst m = NumInst m Op_Sub"

definition getNumIntMulInst :: "instr_mix \<Rightarrow> u64" where
  "getNumIntMulInst m = NumInst m Op_Mul"

definition getNumIntUDivInst :: "instr_mix \<Rightarrow> u64" where
  "getNumIntUDivInst m = NumInst m Op_UDiv"

definition getNumIntSDivInst :: "instr_mix \<Rightarrow> u64" where
  "getNumIntSDivInst m = NumInst m Op_SDiv"

definition getNumIntURemInst :: "instr_mix \<Rightarrow> u64" where
  "getNumIntURemInst m = NumInst m Op_URem"

definition getNumIntSRemInst :: "instr_mix \<Rightarrow> u64" where
  "getNumIntSRemInst m = NumInst m Op_SRem"

definition getNumICmpInst :: "instr_mix \<Rightarrow> u64" where
  "getNumICmpInst m = NumInst m Op_ICmp"

definition getNumAddrArithInst :: "instr_mix \<Rightarrow> u64" where
  "getNumAddrArithInst m = NumInst m Op_Alloca + NumInst m Op_GetElementPtr"

definition getNumFCmpInst :: "instr_mix \<Rightarrow> u64" where
  "getNumFCmpInst m = NumInst m Op_FCmp"

definition getNumPHIInst :: "instr_mix \<Rightarrow> u64" where
  "getNumPHIInst m = NumInst m Op_PHI"

definition getNumMemInst :: "instr_mix \<Rightarrow> u64" where
  "getNumMemInst m = NumInst m Op_Load + NumInst m Op_Store + NumInst m Op_AtomicCmpXchg + NumInst m Op_AtomicRMW"

definition getNumLoadInst :: "instr_mix \<Rightarrow> u64" where
  "getNumLoadInst m = NumInst m Op_Load"

definition getNumStoreInst :: "instr_mix \<Rightarrow> u64" where
  "getNumStoreInst m = NumInst m Op_Store"

definition getNumFPInst :: "instr_mix \<Rightarrow> u64" where
  "getNumFPInst m = NumInst m Op_FAdd + NumInst m Op_FSub + NumInst m Op_FMul + NumInst m Op_FDiv + NumInst m Op_FRem"

definition getNumFAddInst :: "instr_mix \<Rightarrow> u64" where
  "getNumFAddInst m = NumInst m Op_FAdd"

definition getNumFSubInst :: "instr_mix \<Rightarrow> u64" where
  "getNumFSubInst m = NumInst m Op_FSub"

definition getNumFMulInst :: "instr_mix \<Rightarrow> u64" where
  "getNumFMulInst m = NumInst m Op_FMul"

definition getNumFDivInst :: "instr_mix \<Rightarrow> u64" where
  "getNumFDivInst m = NumInst m Op_FDiv"

definition getNumFRemInst :: "instr_mix \<Rightarrow> u64" where
  "getNumFRemInst m = NumInst m Op_FRem"

definition getNumConversionInst :: "instr_mix \<Rightarrow> u64" where
  "getNumConversionInst m = NumInst m Op_Trunc + NumInst m Op_ZExt + NumInst m Op_SExt + NumInst m Op_FPTrunc + NumInst m Op_FPExt + NumInst m Op_FPToUI + NumInst m Op_FPToSI + NumInst m Op_UIToFP + NumInst m Op_SIToFP + NumInst m Op_IntToPtr + NumInst m Op_PtrToInt + NumInst m Op_BitCast + NumInst m Op_AddrSpaceCast"

definition getNumBitwiseInst :: "instr_mix \<Rightarrow> u64" where
  "getNumBitwiseInst m = NumInst m Op_And + NumInst m Op_Or + NumInst m Op_Xor + NumInst m Op_Shl + NumInst m Op_LShr + NumInst m Op_AShr"

definition getNumMiscInst :: "instr_mix \<Rightarrow> u64" where
  "getNumMiscInst m = NumInst m Op_VAArg + NumInst m Op_ExtractElement + NumInst m Op_InsertElement + NumInst m Op_ShuffleVector + NumInst m Op_ExtractValue + NumInst m Op_InsertValue"

definition getNumTotalInsts :: "instr_mix \<Rightarrow> u64" where
  "getNumTotalInsts m = NumTotalInsts m"

subsection \<open>The breakdown by type\<close>

definition count_at :: "opcode \<Rightarrow> nat \<times> nat \<times> nat \<Rightarrow> instr_mix \<Rightarrow> instr_mix" where
  "count_at op k m = m\<lparr>counters := (counters m)(op := mp_bump k (counters m op))\<rparr>"

definition bump_load :: "mem_kind \<Rightarrow> instr_mix \<Rightarrow> instr_mix" where
  "bump_load k m = m\<lparr>NumLoadTy := (NumLoadTy m)(k := NumLoadTy m k + 1)\<rparr>"

definition bump_store :: "mem_kind \<Rightarrow> instr_mix \<Rightarrow> instr_mix" where
  "bump_store k m = m\<lparr>NumStoreTy := (NumStoreTy m)(k := NumStoreTy m k + 1)\<rparr>"

definition visit_load :: "(ir_tyid \<Rightarrow> nat) \<Rightarrow> ir_type \<Rightarrow> instr_mix \<Rightarrow> instr_mix" where
  "visit_load tid T m = (let typeID = tid (getTypeID T); scalar = (\<lambda>t. count_at Op_Load (TY_SCALAR, VECTOR_SIZE_SCALAR, t)) in
    (case T of
       HalfTy \<Rightarrow> bump_load HalfTyK (scalar typeID m)
     | FloatTy \<Rightarrow> bump_load FloatTyK (scalar typeID m)
     | DoubleTy \<Rightarrow> bump_load DoubleTyK (scalar typeID m)
     | X86_FP80Ty \<Rightarrow> bump_load X86_FP80TyK (scalar typeID m)
     | FP128Ty \<Rightarrow> bump_load FP128TyK (scalar typeID m)
     | PPC_FP128Ty \<Rightarrow> bump_load PPC_FP128TyK (scalar typeID m)
     | X86_MMXTy \<Rightarrow> bump_load X86_MMXTyK (scalar typeID m)
     | IntegerTy w \<Rightarrow>
          (if w = 4 then bump_load Bits4K (scalar INT_4BITS m)
           else if w = 8 then bump_load Bits8K (scalar INT_8BITS m)
           else if w = 16 then bump_load Bits16K (scalar INT_16BITS m)
           else if w = 32 then bump_load Bits32K (scalar INT_32BITS m)
           else if w = 64 then bump_load Bits64K (scalar INT_64BITS m)
           else scalar INT_MISCBITS m)
     | VectorTy n E \<Rightarrow>
          (let vectorOperandType = tid (getTypeID E); vector = (\<lambda>t. count_at Op_Load (TY_VECTOR, n, t)) in
           if vectorOperandType \<le> 6 \<or> vectorOperandType = 9 then vector vectorOperandType m
           else (case E of
             IntegerTy w \<Rightarrow>
               (if w = 4 then bump_load Bits4K (vector INT_4BITS m)
                else if w = 8 then bump_load Bits8K (vector INT_8BITS m)
                else if w = 16 then bump_load Bits16K (vector INT_16BITS m)
                else if w = 32 then bump_load Bits32K (vector INT_32BITS m)
                else if w = 64 then bump_load Bits64K (vector INT_64BITS m)
                else vector INT_MISCBITS m)
           | _ \<Rightarrow> vector vectorOperandType m))
     | StructTy _ \<Rightarrow> scalar typeID m
     | ArrayTy _ _ \<Rightarrow> scalar typeID m
     | PointerTy _ \<Rightarrow> scalar typeID m
     | _ \<Rightarrow> bump_load MiscTyK (count_at Op_Load (TY_MISC, VECTOR_SIZE_MISC, 0) m)))"

text \<open>For a vector of integers the store updates the counters of the loads, as the code does.\<close>

definition visit_store :: "(ir_tyid \<Rightarrow> nat) \<Rightarrow> ir_type \<Rightarrow> instr_mix \<Rightarrow> instr_mix" where
  "visit_store tid T m = (let typeID = tid (getTypeID T); scalar = (\<lambda>t. count_at Op_Store (TY_SCALAR, VECTOR_SIZE_SCALAR, t)) in
    (case T of
       HalfTy \<Rightarrow> bump_store HalfTyK (scalar typeID m)
     | FloatTy \<Rightarrow> bump_store FloatTyK (scalar typeID m)
     | DoubleTy \<Rightarrow> bump_store DoubleTyK (scalar typeID m)
     | X86_FP80Ty \<Rightarrow> bump_store X86_FP80TyK (scalar typeID m)
     | FP128Ty \<Rightarrow> bump_store FP128TyK (scalar typeID m)
     | PPC_FP128Ty \<Rightarrow> bump_store PPC_FP128TyK (scalar typeID m)
     | X86_MMXTy \<Rightarrow> bump_store X86_MMXTyK (scalar typeID m)
     | IntegerTy w \<Rightarrow>
          (if w = 4 then bump_store Bits4K (scalar INT_4BITS m)
           else if w = 8 then bump_store Bits8K (scalar INT_8BITS m)
           else if w = 16 then bump_store Bits16K (scalar INT_16BITS m)
           else if w = 32 then bump_store Bits32K (scalar INT_32BITS m)
           else if w = 64 then bump_store Bits64K (scalar INT_64BITS m)
           else scalar INT_MISCBITS m)
     | VectorTy n E \<Rightarrow>
          (let vectorOperandType = tid (getTypeID E); vector = (\<lambda>t. count_at Op_Store (TY_VECTOR, n, t)) in
           if vectorOperandType \<le> 6 \<or> vectorOperandType = 9 then vector vectorOperandType m
           else (case E of
             IntegerTy w \<Rightarrow>
               (if w = 4 then bump_load Bits4K (vector INT_4BITS m)
                else if w = 8 then bump_load Bits8K (vector INT_8BITS m)
                else if w = 16 then bump_load Bits16K (vector INT_16BITS m)
                else if w = 32 then bump_load Bits32K (vector INT_32BITS m)
                else if w = 64 then bump_load Bits64K (vector INT_64BITS m)
                else vector INT_MISCBITS m)
           | _ \<Rightarrow> vector vectorOperandType m))
     | StructTy _ \<Rightarrow> scalar typeID m
     | ArrayTy _ _ \<Rightarrow> scalar typeID m
     | PointerTy _ \<Rightarrow> scalar typeID m
     | _ \<Rightarrow> bump_store MiscTyK (count_at Op_Store (TY_MISC, VECTOR_SIZE_MISC, 0) m)))"

text \<open>A load or a store always has its operands; an address that is no pointer is passed over.\<close>

definition visitMemoryInstruction :: "(ir_tyid \<Rightarrow> nat) \<Rightarrow> instr \<Rightarrow> instr_mix \<Rightarrow> instr_mix option" where
  "visitMemoryInstruction tid I m =
    (if i_opcode I = Op_Load then
       (case operand_type I 0 of None \<Rightarrow> None
        | Some (PointerTy T) \<Rightarrow> Some (visit_load tid T m) | Some _ \<Rightarrow> Some m)
     else if i_opcode I = Op_Store then
       (case operand_type I 1 of None \<Rightarrow> None
        | Some (PointerTy T) \<Rightarrow> Some (visit_store tid T m) | Some _ \<Rightarrow> Some m)
     else Some m)"

definition int_key :: "nat \<Rightarrow> nat" where
  "int_key w = (if w = 4 then INT_4BITS else if w = 8 then INT_8BITS else if w = 16 then INT_16BITS
     else if w = 32 then INT_32BITS else if w = 64 then INT_64BITS else INT_MISCBITS)"

text \<open>The count of a vector of \<open>n\<close> elements of type \<open>E\<close>.\<close>

definition count_vector :: "(ir_tyid \<Rightarrow> nat) \<Rightarrow> opcode \<Rightarrow> nat \<Rightarrow> ir_type \<Rightarrow> instr_mix \<Rightarrow> instr_mix" where
  "count_vector tid op n E m = (let vectorOperandType = tid (getTypeID E) in
     if vectorOperandType \<le> 6 \<or> vectorOperandType = 9 then count_at op (TY_VECTOR, n, vectorOperandType) m
     else (case E of IntegerTy w \<Rightarrow> count_at op (TY_VECTOR, n, int_key w) m
           | _ \<Rightarrow> count_at op (TY_VECTOR, n, vectorOperandType) m))"

definition count_type :: "(ir_tyid \<Rightarrow> nat) \<Rightarrow> opcode \<Rightarrow> ir_type \<Rightarrow> instr_mix \<Rightarrow> instr_mix" where
  "count_type tid op T m = (let scalar = (\<lambda>t. count_at op (TY_SCALAR, VECTOR_SIZE_SCALAR, t) m) in
    (case T of
       VoidTy \<Rightarrow> scalar 0
     | HalfTy \<Rightarrow> scalar 1
     | FloatTy \<Rightarrow> scalar 2
     | DoubleTy \<Rightarrow> scalar 3
     | X86_FP80Ty \<Rightarrow> scalar 4
     | FP128Ty \<Rightarrow> scalar 5
     | PPC_FP128Ty \<Rightarrow> scalar 6
     | X86_MMXTy \<Rightarrow> scalar 9
     | IntegerTy w \<Rightarrow> scalar (int_key w)
     | VectorTy n E \<Rightarrow> count_vector tid op n E m
     | _ \<Rightarrow> count_at op (TY_MISC, VECTOR_SIZE_MISC, 0) m))"

definition count_gep :: "(ir_tyid \<Rightarrow> nat) \<Rightarrow> instr \<Rightarrow> instr_mix \<Rightarrow> instr_mix" where
  "count_gep tid I m =
    (case (if length (i_operands I) = 3 then operand_type I 2 else None) of
       Some (VectorTy n E) \<Rightarrow> count_vector tid Op_GetElementPtr n E m
     | _ \<Rightarrow> count_at Op_GetElementPtr (TY_MISC, VECTOR_SIZE_MISC, 0) m)"

definition visitBinaryArithBitwiseCmpConvertSelectInstruction ::
  "(ir_tyid \<Rightarrow> nat) \<Rightarrow> instr \<Rightarrow> instr_mix \<Rightarrow> instr_mix option" where
  "visitBinaryArithBitwiseCmpConvertSelectInstruction tid I m = (let OpCode = i_opcode I in
     if OpCode \<in> {Op_Add, Op_Mul, Op_UDiv, Op_Sub, Op_SDiv, Op_URem, Op_SRem,
                  Op_FAdd, Op_FSub, Op_FMul, Op_FDiv, Op_FRem,
                  Op_And, Op_Or, Op_Xor, Op_Shl, Op_LShr, Op_AShr}
     then map_option (\<lambda>T. count_type tid OpCode T m) (operand_type I 1)
     else if OpCode = Op_ICmp \<or> OpCode = Op_FCmp
     then map_option (\<lambda>T. count_type tid OpCode T m) (operand_type I 0)
     else if OpCode = Op_Select
     then map_option (\<lambda>T. count_type tid OpCode T m) (operand_type I 1)
     else if getInstType I = CONV_TYPE
     then Some (count_type tid OpCode (i_type I) m)
     else if OpCode = Op_GetElementPtr
     then Some (count_gep tid I m)
     else if OpCode = Op_ExtractElement \<or> OpCode = Op_InsertElement \<or> OpCode = Op_ShuffleVector
     then map_option (\<lambda>T. count_type tid OpCode T m) (operand_type I 0)
     else Some m)"

text \<open>The three visits of \<open>WKLDchar::analyze\<close>.\<close>

definition mix_analyze :: "(ir_tyid \<Rightarrow> nat) \<Rightarrow> instr \<Rightarrow> instr_mix \<Rightarrow> instr_mix option" where
  "mix_analyze tid I m = do {
     m \<leftarrow> visitMemoryInstruction tid I (mix_visit I m);
     visitBinaryArithBitwiseCmpConvertSelectInstruction tid I m }"

fun mix_run :: "(ir_tyid \<Rightarrow> nat) \<Rightarrow> instr list \<Rightarrow> instr_mix \<Rightarrow> instr_mix option" where
  "mix_run tid [] m = Some m"
| "mix_run tid (I # xs) m = (case mix_analyze tid I m of None \<Rightarrow> None | Some m \<Rightarrow> mix_run tid xs m)"

end
