(* ===== verification/Mix_Dump.thy ===== *)
theory Mix_Dump
  imports Instruction_Mix
begin

text \<open>
  \<open>library/InstructionMix.cc\<close>: what the instruction mix prints.  A row is a name with a count, or a
  name with the breakdown of one opcode.
\<close>

definition dump_memory_rows :: "instr_mix \<Rightarrow> (string \<times> u64) list" where
  "dump_memory_rows m =
   [(''instructions_analyzed'', NumTotalInsts m),
    (''load_instructions'', getNumLoadInst m),
    (''load_float_16bits_instructions'', NumLoadTy m HalfTyK),
    (''load_float_32bits_instructions'', NumLoadTy m FloatTyK),
    (''load_float_64bits_instructions'', NumLoadTy m DoubleTyK),
    (''load_float_80bits_instructions'', NumLoadTy m X86_FP80TyK),
    (''load_float_128bits_instructions'', NumLoadTy m FP128TyK),
    (''load_float_128bits_powerpc_instructions'', NumLoadTy m PPC_FP128TyK),
    (''load_float_64bits_mmx_instructions'', NumLoadTy m X86_MMXTyK),
    (''load_int_4bits_instructions'', NumLoadTy m Bits4K),
    (''load_int_8bits_instructions'', NumLoadTy m Bits8K),
    (''load_int_16bits_instructions'', NumLoadTy m Bits16K),
    (''load_int_32bits_instructions'', NumLoadTy m Bits32K),
    (''load_int_64bits_instructions'', NumLoadTy m Bits64K),
    (''load_misc_instructions'', NumLoadTy m MiscTyK),
    (''store_instructions'', getNumStoreInst m),
    (''store_float_16bits_instructions'', NumStoreTy m HalfTyK),
    (''store_float_32bits_instructions'', NumStoreTy m FloatTyK),
    (''store_float_64bits_instructions'', NumStoreTy m DoubleTyK),
    (''store_float_80bits_instructions'', NumStoreTy m X86_FP80TyK),
    (''store_float_128bits_instructions'', NumStoreTy m FP128TyK),
    (''store_float_128bits_powerpc_instructions'', NumStoreTy m PPC_FP128TyK),
    (''store_float_64bits_mmx_instructions'', NumStoreTy m X86_MMXTyK),
    (''store_int_4bits_instructions'', NumStoreTy m Bits4K),
    (''store_int_8bits_instructions'', NumStoreTy m Bits8K),
    (''store_int_16bits_instructions'', NumStoreTy m Bits16K),
    (''store_int_32bits_instructions'', NumStoreTy m Bits32K),
    (''store_int_64bits_instructions'', NumStoreTy m Bits64K),
    (''store_misc_instructions'', NumStoreTy m MiscTyK),
    (''atomic_memory_instructions'', NumInst m Op_AtomicCmpXchg + NumInst m Op_AtomicRMW),
    (''atomic_memory_cmpxchg_instructions'', NumInst m Op_AtomicCmpXchg),
    (''atomic_memory_rmw_instructions'', NumInst m Op_AtomicRMW)]"

definition dump_arith_rows :: "instr_mix \<Rightarrow> (string \<times> u64) list" where
  "dump_arith_rows m =
   [(''int_arith_instructions'', getNumIntInst m),
    (''int_arith_add_instructions'', getNumIntAddInst m),
    (''int_arith_sub_instructions'', getNumIntSubInst m),
    (''int_arith_mul_instructions'', getNumIntMulInst m),
    (''int_arith_udiv_instructions'', getNumIntUDivInst m),
    (''int_arith_sdiv_instructions'', getNumIntSDivInst m),
    (''int_arith_urem_instructions'', getNumIntURemInst m),
    (''int_arith_srem_instructions'', getNumIntSRemInst m),
    (''int_cmp_instructions'', NumInst m Op_ICmp),
    (''bitwise_instructions'', getNumBitwiseInst m),
    (''bitwise_and_instructions'', NumInst m Op_And),
    (''bitwise_or_instructions'', NumInst m Op_Or),
    (''bitwise_xor_instructions'', NumInst m Op_Xor),
    (''bitwise_shift_left_instructions'', NumInst m Op_Shl),
    (''bitwise_logical_shift_right_instructions'', NumInst m Op_LShr),
    (''bitwise_arith_shift_right_instructions'', NumInst m Op_AShr),
    (''conversion_instructions'', getNumConversionInst m),
    (''conversion_trunc_instructions'', NumInst m Op_Trunc),
    (''conversion_zext_instructions'', NumInst m Op_ZExt),
    (''conversion_sext_instructions'', NumInst m Op_SExt),
    (''conversion_fptrunc_instructions'', NumInst m Op_FPTrunc),
    (''conversion_fpext_instructions'', NumInst m Op_FPExt),
    (''conversion_fptoui_instructions'', NumInst m Op_FPToUI),
    (''conversion_fptosi_instructions'', NumInst m Op_FPToSI),
    (''conversion_uitofp_instructions'', NumInst m Op_UIToFP),
    (''conversion_sitofp_instructions'', NumInst m Op_SIToFP),
    (''conversion_inttoptr_instructions'', NumInst m Op_IntToPtr),
    (''conversion_ptrtoint_instructions'', NumInst m Op_PtrToInt),
    (''conversion_bitcast_instructions'', NumInst m Op_BitCast),
    (''conversion_address_space_cast_instructions'', NumInst m Op_AddrSpaceCast),
    (''address_arith_instructions'', NumInst m Op_Alloca + NumInst m Op_GetElementPtr),
    (''address_arith_alloca_arith_instructions'', NumInst m Op_Alloca),
    (''address_arith_get_elem_ptr_arith_instructions'', NumInst m Op_GetElementPtr)]"

definition dump_other_rows :: "instr_mix \<Rightarrow> (string \<times> u64) list" where
  "dump_other_rows m =
   [(''fp_arith_instructions'', getNumFPInst m),
    (''fp_arith_add_instructions'', getNumFAddInst m),
    (''fp_arith_sub_instructions'', getNumFSubInst m),
    (''fp_arith_mul_instructions'', getNumFMulInst m),
    (''fp_arith_div_instructions'', getNumFDivInst m),
    (''fp_arith_rem_instructions'', getNumFRemInst m),
    (''fp_cmp_instructions'', NumInst m Op_FCmp),
    (''control_instructions'', getNumCtrlInst m),
    (''control_call_instructions'', NumInst m Op_Call),
    (''control_ret_instructions'', NumInst m Op_Ret),
    (''control_branch_instructions'', NumInst m Op_Br),
    (''control_switch_instructions'', NumInst m Op_Switch),
    (''control_indirectBr_instructions'', NumInst m Op_IndirectBr),
    (''control_invoke_instructions'', NumInst m Op_Invoke),
    (''control_resume_instructions'', NumInst m Op_Resume),
    (''control_unreachable_instructions'', NumInst m Op_Unreachable),
    (''phi_instructions'', NumInst m Op_PHI),
    (''sync_instructions'', NumInst m Op_Fence),
    (''sync_fence_instructions'', NumInst m Op_Fence),
    (''vector_instructions'', NumInst m Op_ExtractElement + NumInst m Op_InsertElement + NumInst m Op_ShuffleVector),
    (''vector_extract_element_instructions'', NumInst m Op_ExtractElement),
    (''vector_insert_element_instructions'', NumInst m Op_InsertElement),
    (''vector_shuffle_vector_instructions'', NumInst m Op_ShuffleVector),
    (''aggregate_nonvector_instructions'', NumInst m Op_ExtractValue + NumInst m Op_InsertValue),
    (''aggregate_extract_value_instructions'', NumInst m Op_ExtractValue),
    (''aggregate_insert_value_instructions'', NumInst m Op_InsertValue),
    (''misc_instructions'', NumInst m Op_Select + NumInst m Op_LandingPad + NumInst m Op_VAArg),
    (''misc_select_instructions'', NumInst m Op_Select),
    (''misc_landingpad_instructions'', NumInst m Op_LandingPad),
    (''misc_va_arg_instructions'', NumInst m Op_VAArg)]"

definition mix_JSONdump_rows :: "instr_mix \<Rightarrow> (string \<times> u64) list" where
  "mix_JSONdump_rows m = dump_memory_rows m @ dump_arith_rows m @ dump_other_rows m"

definition mix_JSONdump :: "instr_mix \<Rightarrow> json_event list" where
  "mix_JSONdump m = JString ''instructionMix'' # StartObject #
     concat (map (\<lambda>(name, n). [JString name, JUint64 n]) (mix_JSONdump_rows m)) @ [EndObject]"

text \<open>\<open>operator<<\<close> prints one line per count, in the order of the maps; \<open>order\<close> is the order of the
  opcodes in LLVM.\<close>

definition mix_print :: "opcode list \<Rightarrow> mix_counters \<Rightarrow> (opcode \<times> nat \<times> nat \<times> nat \<times> u64) list" where
  "mix_print order c = concat (map (\<lambda>op. map (\<lambda>((s, v, t), n). (op, s, v, t, n)) (c op)) order)"

definition counter_at :: "opcode \<Rightarrow> nat \<times> nat \<times> nat \<Rightarrow> mix_counters \<Rightarrow> u64" where
  "counter_at op k c = (case mp_get k (c op) of None \<Rightarrow> 0 | Some n \<Rightarrow> n)"

definition touch :: "opcode \<Rightarrow> nat \<times> nat \<times> nat \<Rightarrow> mix_counters \<Rightarrow> mix_counters" where
  "touch op k c = c(op := mp_insert k 0 (c op))"

definition float_rows :: "(ir_tyid \<Rightarrow> nat) \<Rightarrow> (string \<times> nat) list" where
  "float_rows tid = [(''float_16bits'', tid HalfTyID), (''float_32bits'', tid FloatTyID),
     (''float_64bits'', tid DoubleTyID), (''float_80bits'', tid X86_FP80TyID),
     (''float_128bits'', tid FP128TyID), (''float_128bits_powerpc'', tid PPC_FP128TyID),
     (''float_64bits_mmx'', tid X86_MMXTyID)]"

definition int_rows :: "(string \<times> nat) list" where
  "int_rows = [(''int_4bits'', INT_4BITS), (''int_8bits'', INT_8BITS), (''int_16bits'', INT_16BITS),
     (''int_32bits'', INT_32BITS), (''int_64bits'', INT_64BITS), (''int_misc'', INT_MISCBITS)]"

definition aggregate_rows :: "(ir_tyid \<Rightarrow> nat) \<Rightarrow> (string \<times> nat) list" where
  "aggregate_rows tid = [(''struct_type'', tid StructTyID), (''array_type'', tid ArrayTyID),
     (''pointer_type'', tid PointerTyID)]"

definition partial_rows :: "(ir_tyid \<Rightarrow> nat) \<Rightarrow> nat \<Rightarrow> (string \<times> nat) list" where
  "partial_rows tid isFloat =
    (if isFloat = PRINT_ONLY_FLOATS \<or> isFloat = PRINT_FLOATS_INTS then float_rows tid else [])
    @ (if isFloat = PRINT_ONLY_INTS \<or> isFloat = PRINT_FLOATS_INTS then int_rows else [])
    @ aggregate_rows tid"

fun dump_rows :: "opcode \<Rightarrow> nat \<Rightarrow> nat \<Rightarrow> (string \<times> nat) list \<Rightarrow> mix_counters \<Rightarrow> u64
    \<Rightarrow> json_event list \<times> mix_counters \<times> u64" where
  "dump_rows op s v [] c acc = ([], c, acc)"
| "dump_rows op s v ((name, t) # rows) c acc =
    (let n = counter_at op (s, v, t) c;
         (es, c, acc) = dump_rows op s v rows (touch op (s, v, t) c) (acc + n)
     in (JString name # JUint64 n # es, c, acc))"

definition JSONdump_partial :: "(ir_tyid \<Rightarrow> nat) \<Rightarrow> opcode \<Rightarrow> nat \<Rightarrow> nat \<Rightarrow> nat \<Rightarrow> mix_counters \<Rightarrow> u64
    \<Rightarrow> json_event list \<times> mix_counters \<times> u64" where
  "JSONdump_partial tid op s v isFloat c acc = dump_rows op s v (partial_rows tid isFloat) c acc"

text \<open>The sizes of the vectors that an opcode has been counted for.\<close>

definition vector_sizes :: "(nat \<times> nat \<times> nat, u64) cmap \<Rightarrow> nat list" where
  "vector_sizes m = remdups_adj (map (fst \<circ> snd) (filter (\<lambda>k. fst k = TY_VECTOR) (map fst m)))"

fun dump_vectors :: "(ir_tyid \<Rightarrow> nat) \<Rightarrow> opcode \<Rightarrow> nat \<Rightarrow> nat list \<Rightarrow> mix_counters \<Rightarrow> u64
    \<Rightarrow> json_event list \<times> mix_counters \<times> u64" where
  "dump_vectors tid op isFloat [] c vectorInst = ([], c, vectorInst)"
| "dump_vectors tid op isFloat (v # vs) c vectorInst =
    (let (es, c, sum_partial) = JSONdump_partial tid op TY_VECTOR v isFloat c 0;
         (es', c, vectorInst) = dump_vectors tid op isFloat vs c (vectorInst + sum_partial)
     in (StartObject # (JString ''vector_size'' # JUint64 (of_nat v) # es
           @ [JString ''instructions'', JUint64 sum_partial]) @ EndObject # es', c, vectorInst))"

text \<open>The parameter \<open>inst_type_name\<close> only goes into a string that is not used.\<close>

definition JSONdump_perType :: "(ir_tyid \<Rightarrow> nat) \<Rightarrow> opcode \<Rightarrow> u64 \<Rightarrow> nat \<Rightarrow> mix_counters
    \<Rightarrow> json_event list \<times> mix_counters" where
  "JSONdump_perType tid op inst isFloat c =
    (let (es, c, scalarInst) = JSONdump_partial tid op TY_SCALAR VECTOR_SIZE_SCALAR isFloat c 0;
         (vs, c, vectorInst) = dump_vectors tid op isFloat (vector_sizes (c op)) c 0;
         miscInst = counter_at op (TY_MISC, VECTOR_SIZE_MISC, 0) c
     in (StartArray # (StartObject # (
           JString ''total_instructions'' # JUint64 inst #
           JString ''mix'' # (StartArray # (
             (StartObject # (JString ''vector_size'' # JUint64 1 # es
                @ [JString ''instructions'', JUint64 scalarInst]) @ [EndObject])
             @ vs) @ [EndArray])
           @ [JString ''scalar_instructions'', JUint64 scalarInst,
              JString ''vector_instructions'', JUint64 vectorInst,
              JString ''misc_instructions'', JUint64 miscInst]) @ [EndObject]) @ [EndArray],
         touch op (TY_MISC, VECTOR_SIZE_MISC, 0) c))"

datatype mix_row = Plain string u64 | PerType string opcode u64 nat

definition vector_memory_arith_rows :: "instr_mix \<Rightarrow> mix_row list" where
  "vector_memory_arith_rows m =
   [Plain ''instructions_analyzed'' (NumTotalInsts m),
    PerType ''load_instructions'' Op_Load (getNumLoadInst m) PRINT_FLOATS_INTS,
    PerType ''store_instructions'' Op_Store (getNumStoreInst m) PRINT_FLOATS_INTS,
    Plain ''atomic_memory_instructions'' (NumInst m Op_AtomicCmpXchg + NumInst m Op_AtomicRMW),
    Plain ''atomic_memory_cmpxchg_instructions'' (NumInst m Op_AtomicCmpXchg),
    Plain ''atomic_memory_rmw_instructions'' (NumInst m Op_AtomicRMW),
    Plain ''int_arith_instructions'' (getNumIntInst m),
    PerType ''int_arith_add_instructions'' Op_Add (getNumIntAddInst m) PRINT_ONLY_INTS,
    PerType ''int_arith_sub_instructions'' Op_Sub (getNumIntSubInst m) PRINT_ONLY_INTS,
    PerType ''int_arith_mul_instructions'' Op_Mul (getNumIntMulInst m) PRINT_ONLY_INTS,
    PerType ''int_arith_udiv_instructions'' Op_UDiv (getNumIntUDivInst m) PRINT_ONLY_INTS,
    PerType ''int_arith_sdiv_instructions'' Op_SDiv (getNumIntSDivInst m) PRINT_ONLY_INTS,
    PerType ''int_arith_urem_instructions'' Op_URem (getNumIntURemInst m) PRINT_ONLY_INTS,
    PerType ''int_arith_srem_instructions'' Op_SRem (getNumIntSRemInst m) PRINT_ONLY_INTS,
    PerType ''int_cmp_instructions'' Op_ICmp (NumInst m Op_ICmp) PRINT_ONLY_INTS,
    Plain ''fp_arith_instructions'' (getNumFPInst m),
    PerType ''fp_arith_add_instructions'' Op_FAdd (getNumFAddInst m) PRINT_ONLY_FLOATS,
    PerType ''fp_arith_sub_instructions'' Op_FSub (getNumFSubInst m) PRINT_ONLY_FLOATS,
    PerType ''fp_arith_mul_instructions'' Op_FMul (getNumFMulInst m) PRINT_ONLY_FLOATS,
    PerType ''fp_arith_div_instructions'' Op_FDiv (getNumFDivInst m) PRINT_ONLY_FLOATS,
    PerType ''fp_arith_rem_instructions'' Op_FRem (getNumFRemInst m) PRINT_ONLY_FLOATS,
    PerType ''fp_cmp_instructions'' Op_FCmp (NumInst m Op_FCmp) PRINT_ONLY_FLOATS]"

definition vector_bitwise_conversion_rows :: "instr_mix \<Rightarrow> mix_row list" where
  "vector_bitwise_conversion_rows m =
   [Plain ''bitwise_instructions'' (getNumBitwiseInst m),
    PerType ''bitwise_and_instructions'' Op_And (NumInst m Op_And) PRINT_FLOATS_INTS,
    PerType ''bitwise_or_instructions'' Op_Or (NumInst m Op_Or) PRINT_FLOATS_INTS,
    PerType ''bitwise_xor_instructions'' Op_Xor (NumInst m Op_Xor) PRINT_FLOATS_INTS,
    PerType ''bitwise_shift_left_instructions'' Op_Shl (NumInst m Op_Shl) PRINT_FLOATS_INTS,
    PerType ''bitwise_logical_shift_right_instructions'' Op_LShr (NumInst m Op_LShr) PRINT_FLOATS_INTS,
    PerType ''bitwise_arith_shift_right_instructions'' Op_AShr (NumInst m Op_AShr) PRINT_FLOATS_INTS,
    Plain ''conversion_instructions'' (getNumConversionInst m),
    PerType ''conversion_trunc_instructions'' Op_Trunc (NumInst m Op_Trunc) PRINT_ONLY_INTS,
    PerType ''conversion_zext_instructions'' Op_ZExt (NumInst m Op_ZExt) PRINT_ONLY_INTS,
    PerType ''conversion_sext_instructions'' Op_SExt (NumInst m Op_SExt) PRINT_ONLY_INTS,
    PerType ''conversion_fptrunc_instructions'' Op_FPTrunc (NumInst m Op_FPTrunc) PRINT_ONLY_FLOATS,
    PerType ''conversion_fpext_instructions'' Op_FPExt (NumInst m Op_FPExt) PRINT_ONLY_FLOATS,
    PerType ''conversion_fptoui_instructions'' Op_FPToUI (NumInst m Op_FPToUI) PRINT_ONLY_INTS,
    PerType ''conversion_fptosi_instructions'' Op_FPToSI (NumInst m Op_FPToSI) PRINT_ONLY_INTS,
    PerType ''conversion_uitofp_instructions'' Op_UIToFP (NumInst m Op_UIToFP) PRINT_ONLY_FLOATS,
    PerType ''conversion_sitofp_instructions'' Op_SIToFP (NumInst m Op_SIToFP) PRINT_ONLY_FLOATS,
    PerType ''conversion_inttoptr_instructions'' Op_IntToPtr (NumInst m Op_IntToPtr) PRINT_FLOATS_INTS,
    PerType ''conversion_ptrtoint_instructions'' Op_PtrToInt (NumInst m Op_PtrToInt) PRINT_ONLY_FLOATS,
    PerType ''conversion_bitcast_instructions'' Op_BitCast (NumInst m Op_BitCast) PRINT_FLOATS_INTS,
    PerType ''conversion_address_space_cast_instructions'' Op_AddrSpaceCast (NumInst m Op_AddrSpaceCast) PRINT_FLOATS_INTS]"

definition vector_other_rows :: "instr_mix \<Rightarrow> mix_row list" where
  "vector_other_rows m =
   [Plain ''address_arith_instructions'' (NumInst m Op_Alloca + NumInst m Op_GetElementPtr),
    Plain ''address_arith_alloca_arith_instructions'' (NumInst m Op_Alloca),
    PerType ''address_arith_get_elem_ptr_arith_instructions'' Op_GetElementPtr (NumInst m Op_GetElementPtr) PRINT_FLOATS_INTS,
    Plain ''control_instructions'' (getNumCtrlInst m),
    Plain ''control_call_instructions'' (NumInst m Op_Call),
    Plain ''control_ret_instructions'' (NumInst m Op_Ret),
    Plain ''control_branch_instructions'' (NumInst m Op_Br),
    Plain ''control_switch_instructions'' (NumInst m Op_Switch),
    Plain ''control_indirectBr_instructions'' (NumInst m Op_IndirectBr),
    Plain ''control_invoke_instructions'' (NumInst m Op_Invoke),
    Plain ''control_resume_instructions'' (NumInst m Op_Resume),
    Plain ''control_unreachable_instructions'' (NumInst m Op_Unreachable),
    Plain ''phi_instructions'' (NumInst m Op_PHI),
    Plain ''sync_instructions'' (NumInst m Op_Fence),
    Plain ''sync_fence_instructions'' (NumInst m Op_Fence),
    Plain ''llvm_vector_instructions'' (NumInst m Op_ExtractElement + NumInst m Op_InsertElement + NumInst m Op_ShuffleVector),
    PerType ''llvm_vector_extract_element_instructions'' Op_ExtractElement (NumInst m Op_ExtractElement) PRINT_FLOATS_INTS,
    PerType ''llvm_vector_insert_element_instructions'' Op_InsertElement (NumInst m Op_InsertElement) PRINT_FLOATS_INTS,
    PerType ''llvm_vector_shuffle_vector_instructions'' Op_ShuffleVector (NumInst m Op_ShuffleVector) PRINT_FLOATS_INTS,
    Plain ''aggregate_nonvector_instructions'' (NumInst m Op_ExtractValue + NumInst m Op_InsertValue),
    PerType ''aggregate_extract_value_instructions'' Op_ExtractValue (NumInst m Op_ExtractValue) PRINT_FLOATS_INTS,
    PerType ''aggregate_insert_value_instructions'' Op_InsertValue (NumInst m Op_InsertValue) PRINT_FLOATS_INTS,
    Plain ''misc_instructions'' (NumInst m Op_Select + NumInst m Op_LandingPad + NumInst m Op_VAArg),
    PerType ''misc_select_instructions'' Op_Select (NumInst m Op_Select) PRINT_FLOATS_INTS,
    Plain ''misc_landingpad_instructions'' (NumInst m Op_LandingPad),
    Plain ''misc_va_arg_instructions'' (NumInst m Op_VAArg)]"

definition vectorIncluded_rows :: "instr_mix \<Rightarrow> mix_row list" where
  "vectorIncluded_rows m = vector_memory_arith_rows m @ vector_bitwise_conversion_rows m @ vector_other_rows m"

fun dump_mix_rows :: "(ir_tyid \<Rightarrow> nat) \<Rightarrow> mix_row list \<Rightarrow> mix_counters \<Rightarrow> json_event list \<times> mix_counters" where
  "dump_mix_rows tid [] c = ([], c)"
| "dump_mix_rows tid (Plain name n # rows) c =
    (let (es, c) = dump_mix_rows tid rows c in (JString name # JUint64 n # es, c))"
| "dump_mix_rows tid (PerType name op n isFloat # rows) c =
    (let (v, c) = JSONdump_perType tid op n isFloat c;
         (es, c) = dump_mix_rows tid rows c
     in (JString name # v @ es, c))"

definition JSONdump_vectorIncluded :: "(ir_tyid \<Rightarrow> nat) \<Rightarrow> instr_mix \<Rightarrow> json_event list \<times> instr_mix" where
  "JSONdump_vectorIncluded tid m =
    (let (es, c) = dump_mix_rows tid (vectorIncluded_rows m) (counters m)
     in (JString ''instructionMix'' # (StartObject # es @ [EndObject]), m\<lparr>counters := c\<rparr>))"

end
