(* ===== verification/Mix_Count.thy ===== *)
theory Mix_Count
  imports Mix_Dump
begin

text \<open>
  The counters of the instruction mix agree with each other: every analysed instruction adds one to
  one counter of its opcode and to one counter of the breakdown of that opcode.
\<close>

text \<open>The numbers of LLVM's types on which the code relies: those it writes as literals, and that
  all of them are below the keys of its own for the integer types.\<close>

definition tid_ok :: "(ir_tyid \<Rightarrow> nat) \<Rightarrow> bool" where
  "tid_ok tid \<longleftrightarrow> inj tid \<and> (\<forall>t. tid t < INT_4BITS)
     \<and> tid VoidTyID = 0 \<and> tid HalfTyID = 1 \<and> tid FloatTyID = 2 \<and> tid DoubleTyID = 3
     \<and> tid X86_FP80TyID = 4 \<and> tid FP128TyID = 5 \<and> tid PPC_FP128TyID = 6 \<and> tid X86_MMXTyID = 9"

lemma tid_ok_eq: "tid_ok tid \<Longrightarrow> tid a = tid b \<longleftrightarrow> a = b"
  by (auto simp: tid_ok_def dest: injD)

lemma tid_ok_integer: "tid_ok tid \<Longrightarrow> \<not> tid IntegerTyID \<le> 6 \<and> tid IntegerTyID \<noteq> 9"
  using tid_ok_eq[of tid IntegerTyID VoidTyID] tid_ok_eq[of tid IntegerTyID HalfTyID]
    tid_ok_eq[of tid IntegerTyID FloatTyID] tid_ok_eq[of tid IntegerTyID DoubleTyID]
    tid_ok_eq[of tid IntegerTyID X86_FP80TyID] tid_ok_eq[of tid IntegerTyID FP128TyID]
    tid_ok_eq[of tid IntegerTyID PPC_FP128TyID] tid_ok_eq[of tid IntegerTyID X86_MMXTyID]
  by (simp add: tid_ok_def)

subsection \<open>Which counter an instruction adds to\<close>

definition elem_key :: "(ir_tyid \<Rightarrow> nat) \<Rightarrow> ir_type \<Rightarrow> nat" where
  "elem_key tid T = (case T of IntegerTy w \<Rightarrow> int_key w | _ \<Rightarrow> tid (getTypeID T))"

definition mem_key :: "(ir_tyid \<Rightarrow> nat) \<Rightarrow> ir_type \<Rightarrow> nat \<times> nat \<times> nat" where
  "mem_key tid T = (case T of VectorTy n E \<Rightarrow> (TY_VECTOR, n, elem_key tid E)
     | VoidTy \<Rightarrow> (TY_MISC, 0, 0) | LabelTy \<Rightarrow> (TY_MISC, 0, 0) | MetadataTy \<Rightarrow> (TY_MISC, 0, 0)
     | FunctionTy \<Rightarrow> (TY_MISC, 0, 0) | _ \<Rightarrow> (TY_SCALAR, 0, elem_key tid T))"

definition value_key :: "(ir_tyid \<Rightarrow> nat) \<Rightarrow> ir_type \<Rightarrow> nat \<times> nat \<times> nat" where
  "value_key tid T = (case T of VectorTy n E \<Rightarrow> (TY_VECTOR, n, elem_key tid E)
     | LabelTy \<Rightarrow> (TY_MISC, 0, 0) | MetadataTy \<Rightarrow> (TY_MISC, 0, 0) | FunctionTy \<Rightarrow> (TY_MISC, 0, 0)
     | StructTy _ \<Rightarrow> (TY_MISC, 0, 0) | ArrayTy _ _ \<Rightarrow> (TY_MISC, 0, 0) | PointerTy _ \<Rightarrow> (TY_MISC, 0, 0)
     | _ \<Rightarrow> (TY_SCALAR, 0, elem_key tid T))"

lemma count_at_sel [simp]:
  "counters (count_at op k m) = (counters m)(op := mp_bump k (counters m op))"
  "NumInst (count_at op k m) = NumInst m" "NumTotalInsts (count_at op k m) = NumTotalInsts m"
  by (simp_all add: count_at_def)

lemma bump_sel [simp]:
  "counters (bump_load k m) = counters m" "counters (bump_store k m) = counters m"
  "NumInst (bump_load k m) = NumInst m" "NumInst (bump_store k m) = NumInst m"
  "NumTotalInsts (bump_load k m) = NumTotalInsts m" "NumTotalInsts (bump_store k m) = NumTotalInsts m"
  by (simp_all add: bump_load_def bump_store_def)

text \<open>What a step leaves of the totals, and the counter it adds to.\<close>

definition counts_one :: "opcode \<Rightarrow> nat \<times> nat \<times> nat \<Rightarrow> instr_mix \<Rightarrow> instr_mix \<Rightarrow> bool" where
  "counts_one op k m m' \<longleftrightarrow> NumInst m' = NumInst m \<and> NumTotalInsts m' = NumTotalInsts m
     \<and> counters m' = (counters m)(op := mp_bump k (counters m op))"

lemma visit_load_counts: "tid_ok tid \<Longrightarrow> counts_one Op_Load (mem_key tid T) m (visit_load tid T m)"
proof (cases T)
  case (VectorTy n E)
  assume "tid_ok tid"
  then show ?thesis unfolding VectorTy
    by (cases E) (simp_all add: counts_one_def visit_load_def mem_key_def elem_key_def int_key_def
        tid_ok_integer Let_def)
qed (simp_all add: counts_one_def visit_load_def mem_key_def elem_key_def int_key_def)

lemma visit_store_counts: "tid_ok tid \<Longrightarrow> counts_one Op_Store (mem_key tid T) m (visit_store tid T m)"
proof (cases T)
  case (VectorTy n E)
  assume "tid_ok tid"
  then show ?thesis unfolding VectorTy
    by (cases E) (simp_all add: counts_one_def visit_store_def mem_key_def elem_key_def int_key_def
        tid_ok_integer Let_def)
qed (simp_all add: counts_one_def visit_store_def mem_key_def elem_key_def int_key_def)

lemma count_vector_counts:
  "tid_ok tid \<Longrightarrow> counts_one op (TY_VECTOR, n, elem_key tid E) m (count_vector tid op n E m)"
  by (cases E) (simp_all add: counts_one_def count_vector_def elem_key_def tid_ok_integer Let_def)

lemma count_type_counts: "tid_ok tid \<Longrightarrow> counts_one op (value_key tid T) m (count_type tid op T m)"
  by (cases T) (use count_vector_counts in \<open>simp_all add: counts_one_def count_type_def value_key_def
      elem_key_def tid_ok_def Let_def\<close>)

lemma count_gep_counts:
  "tid_ok tid \<Longrightarrow> \<exists>k. counts_one Op_GetElementPtr k m (count_gep tid I m) \<and>
    (k = (TY_MISC, 0, 0) \<or> (\<exists>n E. operand_type I 2 = Some (VectorTy n E) \<and> k = (TY_VECTOR, n, elem_key tid E)))"
  using count_vector_counts[of tid Op_GetElementPtr]
  by (auto simp: count_gep_def counts_one_def split: option.split ir_type.split)

subsection \<open>One instruction\<close>

definition int_fp_bitwise :: "opcode set" where
  "int_fp_bitwise = {Op_Add, Op_Mul, Op_UDiv, Op_Sub, Op_SDiv, Op_URem, Op_SRem,
     Op_FAdd, Op_FSub, Op_FMul, Op_FDiv, Op_FRem, Op_And, Op_Or, Op_Xor, Op_Shl, Op_LShr, Op_AShr}"

definition conversions :: "opcode set" where
  "conversions = {Op_Trunc, Op_ZExt, Op_SExt, Op_FPTrunc, Op_FPExt, Op_FPToUI, Op_FPToSI, Op_UIToFP,
     Op_SIToFP, Op_IntToPtr, Op_PtrToInt, Op_BitCast, Op_AddrSpaceCast}"

definition broken_down :: "opcode set" where
  "broken_down = {Op_Load, Op_Store} \<union> int_fp_bitwise \<union> conversions \<union>
     {Op_ICmp, Op_FCmp, Op_Select, Op_GetElementPtr, Op_ExtractElement, Op_InsertElement, Op_ShuffleVector}"

lemma conversions_type:
  "mem_operands_ok I \<Longrightarrow> getInstType I = CONV_TYPE \<longleftrightarrow> i_opcode I \<in> conversions"
  using getMemoryInstType_range[of I]
  by (cases "i_opcode I") (auto simp: getInstType_def conversions_def)

text \<open>The type whose counter a value instruction adds to, and the counter of an instruction.\<close>

definition value_type :: "instr \<Rightarrow> ir_type option" where
  "value_type I = (let op = i_opcode I in
     if op \<in> int_fp_bitwise \<or> op = Op_Select then operand_type I 1
     else if op \<in> conversions then Some (i_type I)
     else operand_type I 0)"

definition instr_key :: "(ir_tyid \<Rightarrow> nat) \<Rightarrow> instr \<Rightarrow> nat \<times> nat \<times> nat \<Rightarrow> bool" where
  "instr_key tid I k \<longleftrightarrow>
     (if i_opcode I = Op_Load then \<exists>T. operand_type I 0 = Some (PointerTy T) \<and> k = mem_key tid T
      else if i_opcode I = Op_Store then \<exists>T. operand_type I 1 = Some (PointerTy T) \<and> k = mem_key tid T
      else if i_opcode I = Op_GetElementPtr
      then k = (TY_MISC, 0, 0) \<or> (\<exists>n E. operand_type I 2 = Some (VectorTy n E) \<and> k = (TY_VECTOR, n, elem_key tid E))
      else \<exists>T. value_type I = Some T \<and> k = value_key tid T)"

definition counted :: "(ir_tyid \<Rightarrow> nat) \<Rightarrow> instr \<Rightarrow> instr_mix \<Rightarrow> instr_mix \<Rightarrow> bool" where
  "counted tid I m m' \<longleftrightarrow> (if i_opcode I \<in> broken_down
     then \<exists>k. instr_key tid I k \<and> counts_one (i_opcode I) k m m' else m' = m)"

lemma visitMemory_counts:
  assumes "tid_ok tid" "mem_operands_ok I"
  shows "\<exists>m'. visitMemoryInstruction tid I m = Some m'
    \<and> (if i_opcode I = Op_Load \<or> i_opcode I = Op_Store then counted tid I m m' else m' = m)"
proof -
  consider T where "i_opcode I = Op_Load" "operand_type I 0 = Some (PointerTy T)"
    | T where "i_opcode I = Op_Store" "operand_type I 1 = Some (PointerTy T)"
    | "i_opcode I \<noteq> Op_Load" "i_opcode I \<noteq> Op_Store"
    using assms(2) by (auto simp: mem_operands_ok_def)
  then show ?thesis
  proof cases
    case (1 T) then show ?thesis
      using visit_load_counts[OF assms(1), of T m] by (auto simp: visitMemoryInstruction_def counted_def broken_down_def instr_key_def simp del: split_paired_Ex)
  next
    case (2 T) then show ?thesis
      using visit_store_counts[OF assms(1), of T m] by (auto simp: visitMemoryInstruction_def counted_def broken_down_def instr_key_def simp del: split_paired_Ex)
  qed (simp add: visitMemoryInstruction_def)
qed

lemma broken_down_iff:
  "op \<in> broken_down \<longleftrightarrow> op = Op_Load \<or> op = Op_Store \<or> op \<in> int_fp_bitwise \<or> op \<in> conversions
     \<or> op = Op_ICmp \<or> op = Op_FCmp \<or> op = Op_Select \<or> op = Op_GetElementPtr \<or> op = Op_ExtractElement
     \<or> op = Op_InsertElement \<or> op = Op_ShuffleVector"
  by (auto simp: broken_down_def)

lemma other_values:
  "{Op_Select, Op_ICmp, Op_FCmp, Op_ExtractElement, Op_InsertElement, Op_ShuffleVector} \<inter> int_fp_bitwise = {}"
  "{Op_Select, Op_ICmp, Op_FCmp, Op_ExtractElement, Op_InsertElement, Op_ShuffleVector} \<inter> conversions = {}"
  by (auto simp: int_fp_bitwise_def conversions_def)

lemma visitBinary_eq:
  assumes "mem_operands_ok I"
  shows "visitBinaryArithBitwiseCmpConvertSelectInstruction tid I m = (let op = i_opcode I in
     if op \<in> int_fp_bitwise \<or> op = Op_Select then map_option (\<lambda>T. count_type tid op T m) (operand_type I 1)
     else if op \<in> {Op_ICmp, Op_FCmp, Op_ExtractElement, Op_InsertElement, Op_ShuffleVector}
     then map_option (\<lambda>T. count_type tid op T m) (operand_type I 0)
     else if op \<in> conversions then Some (count_type tid op (i_type I) m)
     else if op = Op_GetElementPtr then Some (count_gep tid I m)
     else Some m)"
  unfolding visitBinaryArithBitwiseCmpConvertSelectInstruction_def Let_def
    conversions_type[OF assms] int_fp_bitwise_def[symmetric]
  using other_values by auto

lemma mem_not_value: "op = Op_Load \<or> op = Op_Store \<Longrightarrow> op \<notin> int_fp_bitwise \<and> op \<notin> conversions"
  by (auto simp: int_fp_bitwise_def conversions_def)

lemma visitBinary_counts:
  assumes "tid_ok tid" "mem_operands_ok I"
    and run: "visitBinaryArithBitwiseCmpConvertSelectInstruction tid I m = Some m'"
  shows "if i_opcode I = Op_Load \<or> i_opcode I = Op_Store then m' = m else counted tid I m m'"
proof (cases "i_opcode I \<in> broken_down - {Op_Load, Op_Store}")
  case True
  have op: "i_opcode I \<noteq> Op_Load" "i_opcode I \<noteq> Op_Store" using True by auto
  have "\<exists>k. instr_key tid I k \<and> counts_one (i_opcode I) k m m'"
  proof (cases "i_opcode I = Op_GetElementPtr")
    case True
    then have "m' = count_gep tid I m"
      using run by (simp add: visitBinary_eq[OF assms(2)] int_fp_bitwise_def conversions_def)
    then show ?thesis using count_gep_counts[OF assms(1), of m I] True
      by (auto simp: instr_key_def simp del: split_paired_Ex)
  next
    case False
    then obtain T where "value_type I = Some T" "m' = count_type tid (i_opcode I) T m"
      using run \<open>i_opcode I \<in> broken_down - {Op_Load, Op_Store}\<close>
      unfolding visitBinary_eq[OF assms(2)] Let_def broken_down_iff Diff_iff value_type_def
      using other_values by (auto split: if_splits)
    then show ?thesis using count_type_counts[OF assms(1), of "i_opcode I" T m] False op
      by (auto simp: instr_key_def simp del: split_paired_Ex)
  qed
  then show ?thesis using True by (auto simp: counted_def)
next
  case False
  then have "m' = m"
    using run mem_not_value[of "i_opcode I"]
    unfolding visitBinary_eq[OF assms(2)] Let_def broken_down_iff Diff_iff by (auto split: if_splits)
  then show ?thesis using False by (auto simp: counted_def)
qed

lemma mix_analyze_counts:
  assumes "tid_ok tid" "mem_operands_ok I" "mix_analyze tid I m = Some m'"
  shows "counted tid I (mix_visit I m) m'"
  using visitMemory_counts[OF assms(1,2), of "mix_visit I m"] visitBinary_counts[OF assms(1,2)] assms(3)
  by (fastforce simp: mix_analyze_def bind_eq_Some split: if_splits)

subsection \<open>A run\<close>

definition mix_ok :: "instr_mix \<Rightarrow> bool" where
  "mix_ok m \<longleftrightarrow> (\<forall>op. mp_ok (counters m op))
     \<and> (\<forall>op. mp_total (counters m op) = (if op \<in> broken_down then NumInst m op else 0))"

lemma mix_ok_init: "mix_ok instr_mix_init"
  by (simp add: mix_ok_def instr_mix_init_def mp_total_def)

lemma mix_analyze_step:
  assumes "tid_ok tid" "mem_operands_ok I" "mix_analyze tid I m = Some m'" "mix_ok m"
  shows "mix_ok m' \<and> NumTotalInsts m' = NumTotalInsts m + 1
    \<and> NumInst m' = (NumInst m)(i_opcode I := NumInst m (i_opcode I) + 1)"
  using mix_analyze_counts[OF assms(1,2,3)] assms(4)
  by (auto simp: counted_def counts_one_def mix_ok_def mix_visit_def split: if_splits)

lemma mix_run_step:
  assumes "tid_ok tid" "\<forall>I \<in> set xs. mem_operands_ok I" "mix_run tid xs m = Some m'" "mix_ok m"
  shows "mix_ok m' \<and> NumTotalInsts m' = NumTotalInsts m + of_nat (length xs)
    \<and> NumInst m' = (\<lambda>op. NumInst m op + of_nat (length (filter (\<lambda>I. i_opcode I = op) xs)))"
  using assms(2-)
proof (induction xs arbitrary: m)
  case (Cons I xs)
  then obtain m1 where m1: "mix_analyze tid I m = Some m1" "mix_run tid xs m1 = Some m'"
    by (auto split: option.splits)
  have "mem_operands_ok I" using Cons.prems(1) by simp
  from mix_analyze_step[OF assms(1) this m1(1) Cons.prems(3)] Cons.IH[OF _ m1(2)] Cons.prems(1)
  show ?case by (auto simp: fun_eq_iff)
qed simp

end
