(* ===== verification/Mix_Breakdown.thy ===== *)
theory Mix_Breakdown
  imports Mix_Count
begin

text \<open>
  What the instruction mix prints of one opcode adds up to the number of its instructions.
\<close>

subsection \<open>Reading counters\<close>

lemma counter_touch [simp]: "mp_ok (c op') \<Longrightarrow> counter_at op k (touch op' k' c) = counter_at op k c"
  by (auto simp: counter_at_def touch_def mp_get_insert split: option.split)

lemma touch_ok [simp]: "mp_ok (c op') \<Longrightarrow> mp_ok (touch op k c op')"
  by (auto simp: touch_def)

lemma touch_keys [simp]: "mp_keys (touch op k c op') = (if op' = op then insert k (mp_keys (c op')) else mp_keys (c op'))"
  by (simp add: touch_def)

definition row_sum :: "opcode \<Rightarrow> nat \<Rightarrow> nat \<Rightarrow> (string \<times> nat) list \<Rightarrow> mix_counters \<Rightarrow> u64" where
  "row_sum op s v rows c = sum_list (map (\<lambda>r. counter_at op (s, v, snd r) c) rows)"

lemma dump_rows_sum:
  assumes "mp_ok (c op)" "dump_rows op s v rows c acc = (es, c', acc')"
  shows "acc' = acc + row_sum op s v rows c \<and> mp_ok (c' op) \<and> (\<forall>k. counter_at op k c' = counter_at op k c)
    \<and> mp_keys (c' op) = mp_keys (c op) \<union> (\<lambda>r. (s, v, snd r)) ` set rows"
  using assms
proof (induction op s v rows c acc arbitrary: es c' acc' rule: dump_rows.induct)
  case (2 op s v name t rows c acc)
  obtain es1 c1 acc1 where d: "dump_rows op s v rows (touch op (s, v, t) c) (acc + counter_at op (s, v, t) c) = (es1, c1, acc1)"
    by (metis prod_cases3)
  from 2(3) d have "c' = c1" "acc' = acc1" by (simp_all add: Let_def)
  with "2.IH"[OF refl _ d] 2(2) show ?case by (auto simp: row_sum_def add.assoc)
qed (simp add: row_sum_def)

lemma dump_vectors_sum:
  assumes "mp_ok (c op)" "dump_vectors tid op f vs c acc = (es, c', acc')"
  shows "acc' = acc + (\<Sum>v\<leftarrow>vs. row_sum op TY_VECTOR v (partial_rows tid f) c)
    \<and> mp_ok (c' op) \<and> (\<forall>k. counter_at op k c' = counter_at op k c)"
  using assms
proof (induction vs arbitrary: c acc es c' acc')
  case (Cons v vs)
  obtain es1 c1 n1 where d1: "dump_rows op TY_VECTOR v (partial_rows tid f) c 0 = (es1, c1, n1)"
    by (metis prod_cases3)
  obtain es2 c2 n2 where d2: "dump_vectors tid op f vs c1 (acc + n1) = (es2, c2, n2)"
    by (metis prod_cases3)
  note r1 = dump_rows_sum[OF Cons.prems(1) d1]
  then have ok: "mp_ok (c1 op)" by simp
  have eq: "row_sum op s w rows c1 = row_sum op s w rows c" for s w rows
    using r1 by (simp add: row_sum_def)
  have "c' = c2" "acc' = n2" using Cons.prems(2) d1 d2 by (simp_all add: JSONdump_partial_def)
  with Cons.IH[OF ok d2] r1 show ?case by (simp add: eq add.assoc)
qed simp

subsection \<open>The sum over a map\<close>

lemma mp_total_over:
  assumes "mp_ok (c op)" "distinct L" "mp_keys (c op) \<subseteq> set L"
  shows "mp_total (c op) = (\<Sum>k\<leftarrow>L. counter_at op k c)"
proof -
  have d: "distinct (map fst (c op))" using assms(1) by (simp add: mp_ok_def strict_sorted_iff)
  have "counter_at op (fst x) c = snd x" if "x \<in> set (c op)" for x
    using mp_in_get[OF assms(1), of "fst x" "snd x"] that by (simp add: counter_at_def)
  then have "mp_total (c op) = (\<Sum>k\<leftarrow>map fst (c op). counter_at op k c)"
    by (simp add: mp_total_def o_def cong: map_cong)
  also have "\<dots> = (\<Sum>k \<in> mp_keys (c op). counter_at op k c)"
    using d by (simp add: sum_list_distinct_conv_sum_set mp_keys_def del: map_map)
  also have "\<dots> = (\<Sum>k \<in> set L. counter_at op k c)"
    using assms(3) by (intro sum.mono_neutral_left) (auto simp: counter_at_def mp_get_None_iff[symmetric] subset_iff)
  also have "\<dots> = (\<Sum>k\<leftarrow>L. counter_at op k c)"
    using assms(2) by (simp add: sum_list_distinct_conv_sum_set)
  finally show ?thesis .
qed

lemma set_vector_sizes: "set (vector_sizes m) = {v. \<exists>t. (TY_VECTOR, v, t) \<in> mp_keys m}"
  by (force simp: vector_sizes_def mp_keys_def)

lemma sorted_vector_sizes:
  assumes "mp_ok m"
  shows "sorted (map (fst \<circ> snd) (filter (\<lambda>k. fst k = TY_VECTOR) (map fst m)))"
  using assms
proof (induction m)
  case (Cons x m)
  obtain s v t n where x: "x = ((s, v, t), n)" by (metis prod.exhaust)
  have "v \<le> w" if "(s, w, u) \<in> mp_keys m" for w u
    using Cons.prems that by (force simp: x mp_ok_Cons)
  then show ?case using Cons by (force simp: x mp_ok_Cons mp_keys_def)
qed simp

lemma distinct_remdups_adj: "sorted xs \<Longrightarrow> distinct (remdups_adj (xs :: nat list))"
  by (induction xs rule: remdups_adj.induct) auto

lemma distinct_vector_sizes: "mp_ok m \<Longrightarrow> distinct (vector_sizes m)"
  unfolding vector_sizes_def using sorted_vector_sizes[of m]
  by (simp add: distinct_remdups_adj)

subsection \<open>The three printed sums\<close>

definition type_keys :: "(ir_tyid \<Rightarrow> nat) \<Rightarrow> nat \<Rightarrow> nat list" where
  "type_keys tid f = map snd (partial_rows tid f)"

lemma type_keys_eq:
  "type_keys tid f =
    (if f = PRINT_ONLY_FLOATS \<or> f = PRINT_FLOATS_INTS
     then [tid HalfTyID, tid FloatTyID, tid DoubleTyID, tid X86_FP80TyID, tid FP128TyID,
       tid PPC_FP128TyID, tid X86_MMXTyID] else [])
    @ (if f = PRINT_ONLY_INTS \<or> f = PRINT_FLOATS_INTS
       then [INT_4BITS, INT_8BITS, INT_16BITS, INT_32BITS, INT_64BITS, INT_MISCBITS] else [])
    @ [tid StructTyID, tid ArrayTyID, tid PointerTyID]"
  by (simp add: type_keys_def partial_rows_def float_rows_def int_rows_def aggregate_rows_def)

definition printed_keys :: "(ir_tyid \<Rightarrow> nat) \<Rightarrow> nat \<Rightarrow> nat list \<Rightarrow> (nat \<times> nat \<times> nat) list" where
  "printed_keys tid f sizes = map (\<lambda>t. (TY_SCALAR, 0, t)) (type_keys tid f)
     @ concat (map (\<lambda>v. map (\<lambda>t. (TY_VECTOR, v, t)) (type_keys tid f)) sizes) @ [(TY_MISC, 0, 0)]"

lemma distinct_type_keys:
  assumes tid: "tid_ok tid"
  shows "distinct (type_keys tid f)"
proof -
  have ne: "tid a \<noteq> n" if "114 \<le> n" for a n using tid that by (auto simp: tid_ok_def simp flip: not_le)
  then have "n \<noteq> tid a" if "114 \<le> n" for a n using that by metis
  with ne show ?thesis
    by (auto simp: type_keys_eq tid_ok_eq[OF tid])
qed

lemma distinct_printed_keys:
  assumes "tid_ok tid" "distinct sizes"
  shows "distinct (printed_keys tid f sizes)"
proof -
  have "distinct (concat (map (\<lambda>v. map (\<lambda>t. (TY_VECTOR, v, t)) (type_keys tid f)) sizes))"
    using assms(2) distinct_type_keys[OF assms(1), of f]
    by (induction sizes) (auto simp: distinct_map inj_on_def)
  then show ?thesis using distinct_type_keys[OF assms(1), of f]
    by (auto simp: printed_keys_def distinct_map inj_on_def)
qed

text \<open>The object printed for one opcode, and its three sums.\<close>

definition perType_prints :: "json_event list \<Rightarrow> u64 \<Rightarrow> u64 \<Rightarrow> u64 \<Rightarrow> u64 \<Rightarrow> bool" where
  "perType_prints es inst s v mi \<longleftrightarrow> (\<exists>mid. es =
     [StartArray, StartObject, JString ''total_instructions'', JUint64 inst] @ mid
     @ [JString ''scalar_instructions'', JUint64 s, JString ''vector_instructions'', JUint64 v,
        JString ''misc_instructions'', JUint64 mi, EndObject, EndArray])"

lemma perType_sums:
  assumes "mp_ok (c op)"
  obtains sizes where "distinct sizes" "set sizes = {v. \<exists>t. (TY_VECTOR, v, t) \<in> mp_keys (c op)}"
    "perType_prints (fst (JSONdump_perType tid op inst f c)) inst
       (row_sum op TY_SCALAR 0 (partial_rows tid f) c)
       (\<Sum>v\<leftarrow>sizes. row_sum op TY_VECTOR v (partial_rows tid f) c)
       (counter_at op (TY_MISC, 0, 0) c)"
proof -
  obtain es1 c1 n1 where d1: "dump_rows op TY_SCALAR 0 (partial_rows tid f) c 0 = (es1, c1, n1)"
    by (metis prod_cases3)
  obtain es2 c2 n2 where d2: "dump_vectors tid op f (vector_sizes (c1 op)) c1 0 = (es2, c2, n2)"
    by (metis prod_cases3)
  note r1 = dump_rows_sum[OF assms d1]
  then have ok: "mp_ok (c1 op)" by simp
  note r2 = dump_vectors_sum[OF ok d2]
  have eq: "row_sum op s w rows c1 = row_sum op s w rows c" for s w rows using r1 by (simp add: row_sum_def)
  have "set (vector_sizes (c1 op)) = {v. \<exists>t. (TY_VECTOR, v, t) \<in> mp_keys (c op)}"
    using r1 by (auto simp: set_vector_sizes)
  moreover have "distinct (vector_sizes (c1 op))" by (rule distinct_vector_sizes[OF ok])
  moreover have "perType_prints (fst (JSONdump_perType tid op inst f c)) inst n1 n2 (counter_at op (TY_MISC, 0, 0) c)"
    using d1 d2 r1 r2 by (simp add: JSONdump_perType_def JSONdump_partial_def perType_prints_def)
  ultimately show thesis using that[of "vector_sizes (c1 op)"] r1 r2 by (simp add: eq)
qed

text \<open>If every counter that has been used is one of those that are printed, nothing is missing.\<close>

lemma sum_list_map_concat:
  "sum_list (map f (concat xss)) = (\<Sum>xs\<leftarrow>xss. sum_list (map (f :: 'a \<Rightarrow> u64) xs))"
  by (induction xss) simp_all

lemma perType_complete:
  assumes tid: "tid_ok tid" and ok: "mp_ok (c op)"
    and keys: "\<And>k. k \<in> mp_keys (c op) \<Longrightarrow>
      fst k = TY_SCALAR \<and> fst (snd k) = 0 \<and> snd (snd k) \<in> set (type_keys tid f)
      \<or> fst k = TY_VECTOR \<and> snd (snd k) \<in> set (type_keys tid f) \<or> k = (TY_MISC, 0, 0)"
  shows "\<exists>s v mi. perType_prints (fst (JSONdump_perType tid op inst f c)) inst s v mi
    \<and> s + v + mi = mp_total (c op)"
proof -
  obtain sizes where sizes: "distinct sizes" "set sizes = {v. \<exists>t. (TY_VECTOR, v, t) \<in> mp_keys (c op)}"
    and prints: "perType_prints (fst (JSONdump_perType tid op inst f c)) inst
       (row_sum op TY_SCALAR 0 (partial_rows tid f) c)
       (\<Sum>v\<leftarrow>sizes. row_sum op TY_VECTOR v (partial_rows tid f) c)
       (counter_at op (TY_MISC, 0, 0) c)"
    by (rule perType_sums[of c op, OF ok])
  have "mp_keys (c op) \<subseteq> set (printed_keys tid f sizes)"
  proof
    fix k assume k: "k \<in> mp_keys (c op)"
    obtain s v t where "k = (s, v, t)" by (cases k)
    then show "k \<in> set (printed_keys tid f sizes)" using keys[OF k] k
      by (auto simp: printed_keys_def sizes(2))
  qed
  from mp_total_over[of c op, OF ok distinct_printed_keys[OF tid sizes(1)] this]
  have "mp_total (c op) = row_sum op TY_SCALAR 0 (partial_rows tid f) c
      + (\<Sum>v\<leftarrow>sizes. row_sum op TY_VECTOR v (partial_rows tid f) c) + counter_at op (TY_MISC, 0, 0) c"
    by (simp add: printed_keys_def row_sum_def type_keys_def sum_list_map_concat o_def)
  with prints show ?thesis by metis
qed

subsection \<open>The types that the instructions of a module have\<close>

text \<open>What LLVM's verifier guarantees of the operands: integer operations work on integers (or
  pointers, for comparisons and casts), floating point operations on floating point numbers, each
  on vectors of them too, and the others on first class values.\<close>

definition int_valued :: "opcode set" where
  "int_valued = {Op_Add, Op_Sub, Op_Mul, Op_UDiv, Op_SDiv, Op_URem, Op_SRem, Op_ICmp, Op_Trunc, Op_ZExt,
     Op_SExt, Op_FPToUI, Op_FPToSI, Op_PtrToInt}"

definition fp_valued :: "opcode set" where
  "fp_valued = {Op_FAdd, Op_FSub, Op_FMul, Op_FDiv, Op_FRem, Op_FCmp, Op_FPTrunc, Op_FPExt, Op_UIToFP,
     Op_SIToFP}"

definition int_or_ptr :: "ir_type \<Rightarrow> bool" where
  "int_or_ptr T = (case T of IntegerTy _ \<Rightarrow> True | PointerTy _ \<Rightarrow> True | _ \<Rightarrow> False)"

definition fp_type :: "ir_type \<Rightarrow> bool" where
  "fp_type T \<longleftrightarrow> T \<in> {HalfTy, FloatTy, DoubleTy, X86_FP80Ty, FP128Ty, PPC_FP128Ty}"

definition first_class :: "ir_type \<Rightarrow> bool" where
  "first_class T = (case T of VoidTy \<Rightarrow> False | LabelTy \<Rightarrow> False | MetadataTy \<Rightarrow> False
     | FunctionTy \<Rightarrow> False | VectorTy _ _ \<Rightarrow> False | _ \<Rightarrow> True)"

definition kind_ok :: "opcode \<Rightarrow> ir_type \<Rightarrow> bool" where
  "kind_ok op T = (if op \<in> int_valued then int_or_ptr T else if op \<in> fp_valued then fp_type T
     else first_class T)"

definition value_ok :: "opcode \<Rightarrow> ir_type \<Rightarrow> bool" where
  "value_ok op T = (case T of VectorTy _ E \<Rightarrow> kind_ok op E | _ \<Rightarrow> kind_ok op T)"

definition vector_ok :: "ir_type \<Rightarrow> bool" where
  "vector_ok T = (case T of VectorTy _ E \<Rightarrow> first_class E | _ \<Rightarrow> True)"

definition llvm_typed :: "instr \<Rightarrow> bool" where
  "llvm_typed I \<longleftrightarrow> mem_operands_ok I
     \<and> (\<forall>T. i_opcode I = Op_Load \<and> operand_type I 0 = Some (PointerTy T) \<longrightarrow> vector_ok T)
     \<and> (\<forall>T. i_opcode I = Op_Store \<and> operand_type I 1 = Some (PointerTy T) \<longrightarrow> vector_ok T)
     \<and> (\<forall>T. i_opcode I = Op_GetElementPtr \<and> operand_type I 2 = Some T \<longrightarrow> vector_ok T)
     \<and> (\<forall>T. i_opcode I \<notin> {Op_Load, Op_Store, Op_GetElementPtr} \<and> value_type I = Some T \<longrightarrow> value_ok (i_opcode I) T)"

subsection \<open>The counters that are printed\<close>

text \<open>The third argument that \<open>JSONdump_vectorIncluded\<close> gives for the opcode, except that the
  results of \<open>ptrtoint\<close> are integers.\<close>

definition print_mode :: "opcode \<Rightarrow> nat" where
  "print_mode op = (if op \<in> int_valued then PRINT_ONLY_INTS else if op \<in> fp_valued then PRINT_ONLY_FLOATS
     else PRINT_FLOATS_INTS)"

definition key_printed :: "(ir_tyid \<Rightarrow> nat) \<Rightarrow> nat \<Rightarrow> nat \<times> nat \<times> nat \<Rightarrow> bool" where
  "key_printed tid f k \<longleftrightarrow>
     fst k = TY_SCALAR \<and> fst (snd k) = 0 \<and> snd (snd k) \<in> set (type_keys tid f)
   \<or> fst k = TY_VECTOR \<and> snd (snd k) \<in> set (type_keys tid f) \<or> k = (TY_MISC, 0, 0)"

lemma int_key_in: "int_key w \<in> {INT_4BITS, INT_8BITS, INT_16BITS, INT_32BITS, INT_64BITS, INT_MISCBITS}"
  by (simp add: int_key_def)

lemma elem_key_printed: "kind_ok op E \<Longrightarrow> elem_key tid E \<in> set (type_keys tid (print_mode op))"
  using int_key_in
  by (cases E) (auto simp: kind_ok_def print_mode_def elem_key_def type_keys_eq int_or_ptr_def fp_type_def first_class_def split: if_splits)

lemma value_key_printed: "value_ok op T \<Longrightarrow> key_printed tid (print_mode op) (value_key tid T)"
  using elem_key_printed[of op] by (cases T) (auto simp: value_ok_def value_key_def key_printed_def kind_ok_def
      int_or_ptr_def fp_type_def first_class_def split: if_splits)

lemma first_class_printed: "first_class E \<Longrightarrow> elem_key tid E \<in> set (type_keys tid PRINT_FLOATS_INTS)"
  using elem_key_printed[of Op_Load E tid] by (simp add: kind_ok_def int_valued_def fp_valued_def print_mode_def)

lemma mem_key_printed: "vector_ok T \<Longrightarrow> key_printed tid PRINT_FLOATS_INTS (mem_key tid T)"
  using first_class_printed by (cases T) (auto simp: vector_ok_def mem_key_def key_printed_def first_class_def)

lemma instr_key_printed:
  assumes "llvm_typed I" "instr_key tid I k"
  shows "key_printed tid (print_mode (i_opcode I)) k"
proof -
  have modes: "print_mode Op_Load = 2" "print_mode Op_Store = 2" "print_mode Op_GetElementPtr = 2"
    by (simp_all add: print_mode_def int_valued_def fp_valued_def)
  consider "i_opcode I \<in> {Op_Load, Op_Store}" | "i_opcode I = Op_GetElementPtr"
    | "i_opcode I \<notin> {Op_Load, Op_Store, Op_GetElementPtr}" by auto
  then show ?thesis
  proof cases
    case 1 then show ?thesis using assms mem_key_printed modes
      by (auto simp: llvm_typed_def instr_key_def)
  next
    case 2 then show ?thesis using assms first_class_printed modes
      by (auto simp: llvm_typed_def instr_key_def key_printed_def vector_ok_def)
  next
    case 3 then show ?thesis using assms value_key_printed
      by (auto simp: llvm_typed_def instr_key_def)
  qed
qed

lemma mix_run_keys:
  assumes "tid_ok tid" "\<forall>I \<in> set xs. llvm_typed I" "mix_run tid xs m = Some m'"
    and "\<forall>op. \<forall>k \<in> mp_keys (counters m op). key_printed tid (print_mode op) k"
  shows "\<forall>op. \<forall>k \<in> mp_keys (counters m' op). key_printed tid (print_mode op) k"
  using assms(2-)
proof (induction xs arbitrary: m)
  case (Cons I xs)
  then obtain m1 where m1: "mix_analyze tid I m = Some m1" "mix_run tid xs m1 = Some m'"
    by (auto split: option.splits)
  have I: "llvm_typed I" "mem_operands_ok I" using Cons.prems(1) by (simp_all add: llvm_typed_def)
  have "\<forall>op. \<forall>k \<in> mp_keys (counters m1 op). key_printed tid (print_mode op) k"
    using mix_analyze_counts[OF assms(1) I(2) m1(1)] Cons.prems(3) instr_key_printed[OF I(1)]
    by (auto simp: counted_def counts_one_def mix_visit_def simp del: split_paired_All split_paired_Ex split: if_splits)
  then show ?case using Cons.IH[OF _ m1(2)] Cons.prems(1) by simp
qed simp

end
