(* ===== verification/Mix_Properties.thy ===== *)
theory Mix_Properties
  imports Mix_Breakdown
begin

text \<open>
  The properties of the instruction mix: exact counts, complete breakdowns, a partition of the total,
  well formed output, and the three places where the breakdown and the totals disagree.
\<close>

subsection \<open>Concrete data for the witnesses\<close>

text \<open>The numbers of the types in LLVM 3.4.\<close>

definition llvm_tid :: "ir_tyid \<Rightarrow> nat" where
  "llvm_tid t = (case t of VoidTyID \<Rightarrow> 0 | HalfTyID \<Rightarrow> 1 | FloatTyID \<Rightarrow> 2 | DoubleTyID \<Rightarrow> 3
     | X86_FP80TyID \<Rightarrow> 4 | FP128TyID \<Rightarrow> 5 | PPC_FP128TyID \<Rightarrow> 6 | LabelTyID \<Rightarrow> 7 | MetadataTyID \<Rightarrow> 8
     | X86_MMXTyID \<Rightarrow> 9 | IntegerTyID \<Rightarrow> 10 | FunctionTyID \<Rightarrow> 11 | StructTyID \<Rightarrow> 12 | ArrayTyID \<Rightarrow> 13
     | PointerTyID \<Rightarrow> 14 | VectorTyID \<Rightarrow> 15)"

lemma llvm_tid_ok: "tid_ok llvm_tid"
  by (simp add: tid_ok_def inj_def llvm_tid_def split: ir_tyid.split)

definition load_v4i32 :: instr where
  "load_v4i32 = (plain_instr 1 Op_Load)\<lparr>i_operands := [(V_Other 0, PointerTy (VectorTy 4 (IntegerTy 32)))]\<rparr>"

definition store_v4i32 :: instr where
  "store_v4i32 = (plain_instr 2 Op_Store)\<lparr>i_operands :=
     [(V_Other 0, VectorTy 4 (IntegerTy 32)), (V_Other 1, PointerTy (VectorTy 4 (IntegerTy 32)))]\<rparr>"

definition add_i32 :: instr where
  "add_i32 = (plain_instr 3 Op_Add)\<lparr>i_operands := [(V_Other 0, IntegerTy 32), (V_Other 1, IntegerTy 32)]\<rparr>"

definition ptrtoint_i64 :: instr where
  "ptrtoint_i64 = (plain_instr 4 Op_PtrToInt)\<lparr>i_type := IntegerTy 64,
     i_operands := [(V_Other 0, PointerTy (IntegerTy 8))]\<rparr>"

definition extract_i32 :: instr where
  "extract_i32 = (plain_instr 5 Op_ExtractValue)\<lparr>i_type := IntegerTy 32,
     i_operands := [(V_Other 0, StructTy [IntegerTy 32])]\<rparr>"

lemmas mix_examples = load_v4i32_def store_v4i32_def add_i32_def ptrtoint_i64_def extract_i32_def

lemma mix_init_keys: "\<forall>op. \<forall>k \<in> mp_keys (counters instr_mix_init op). key_printed tid (print_mode op) k"
  by (simp add: instr_mix_init_def)

subsection \<open>Lemmas on the rows\<close>

lemmas vector_rows_def = vectorIncluded_rows_def vector_memory_arith_rows_def
  vector_bitwise_conversion_rows_def vector_other_rows_def

lemma row_arguments:
  "PerType name op n f \<in> set (vectorIncluded_rows m) \<Longrightarrow>
     n = NumInst m op \<and> (op \<noteq> Op_PtrToInt \<longrightarrow> f = print_mode op)
     \<and> (op \<in> broken_down \<or> op = Op_ExtractValue \<or> op = Op_InsertValue)"
  by (auto simp: vector_rows_def print_mode_def int_valued_def fp_valued_def broken_down_def
      int_fp_bitwise_def conversions_def getNumLoadInst_def getNumStoreInst_def getNumIntAddInst_def
      getNumIntSubInst_def getNumIntMulInst_def getNumIntUDivInst_def getNumIntSDivInst_def
      getNumIntURemInst_def getNumIntSRemInst_def getNumFAddInst_def getNumFSubInst_def getNumFMulInst_def
      getNumFDivInst_def getNumFRemInst_def)

lemma mix_run_not_broken_down:
  assumes "tid_ok tid" "\<forall>I \<in> set xs. mem_operands_ok I" "mix_run tid xs m = Some m'" "op \<notin> broken_down"
  shows "counters m' op = counters m op"
  using assms(2,3)
proof (induction xs arbitrary: m)
  case (Cons I xs)
  then obtain m1 where m1: "mix_analyze tid I m = Some m1" "mix_run tid xs m1 = Some m'"
    by (auto split: option.splits)
  have "mem_operands_ok I" using Cons.prems(1) by simp
  from mix_analyze_counts[OF assms(1) this m1(1)] have "counters m1 op = counters m op"
    using assms(4) by (auto simp: counted_def counts_one_def mix_visit_def split: if_splits)
  then show ?case using Cons.IH[OF _ m1(2)] Cons.prems(1) by simp
qed simp

subsection \<open>The output is well formed\<close>

lemma dump_rows_wf: "json_members (fst (dump_rows op s v rows c acc))"
  by (induction op s v rows c acc rule: dump_rows.induct)
    (auto simp: Let_def case_prod_unfold intro: json_wf)

lemma size_entry_wf:
  "json_elements (StartObject # (JString ''vector_size'' # JUint64 v
      # fst (JSONdump_partial tid op s w f c acc) @ [JString ''instructions'', JUint64 n]) @ [EndObject])"
  unfolding JSONdump_partial_def
  by (rule json_one_value_element, rule json_value_object)
    (intro json_member_uint json_members_append dump_rows_wf json_members_Nil)

lemma dump_vectors_wf: "json_elements (fst (dump_vectors tid op f vs c acc))"
proof (induction vs arbitrary: c acc)
  case (Cons v vs)
  from json_elements_append[OF size_entry_wf Cons.IH]
  show ?case by (simp add: Let_def case_prod_unfold)
qed (simp add: json_wf)

lemma perType_wf: "json_one_value (fst (JSONdump_perType tid op inst f c))"
proof -
  have "json_elements (StartObject # (JString ''total_instructions'' # JUint64 inst # JString ''mix''
      # (StartArray # es @ [EndArray]) @ [JString a, JUint64 x, JString b, JUint64 y, JString d, JUint64 z])
      @ [EndObject])"
    if "json_elements es" for es a x b y d z
    by (rule json_one_value_element, rule json_value_object)
      (intro json_member_uint json_member[OF json_value_array[OF that]] json_members_Nil)
  from json_value_array[OF this[OF json_elements_append[OF size_entry_wf dump_vectors_wf]]]
  show ?thesis by (simp add: JSONdump_perType_def Let_def case_prod_unfold)
qed

lemma dump_mix_rows_wf: "json_members (fst (dump_mix_rows tid rows c))"
proof (induction rows arbitrary: c)
  case (Cons r rows)
  show ?case
  proof (cases r)
    case (Plain name n)
    then show ?thesis using json_member_uint[OF Cons.IH] by (simp add: case_prod_unfold Let_def)
  next
    case (PerType name op n f)
    then show ?thesis using json_member[OF perType_wf Cons.IH] by (simp add: Let_def case_prod_unfold)
  qed
qed (simp add: json_wf)

subsection \<open>The sum of all the counters\<close>

definition all_opcodes :: "opcode list" where
  "all_opcodes = [Op_Ret, Op_Br, Op_Switch, Op_IndirectBr, Op_Invoke, Op_Resume, Op_Unreachable,
     Op_Add, Op_FAdd, Op_Sub, Op_FSub, Op_Mul, Op_FMul, Op_UDiv, Op_SDiv, Op_FDiv, Op_URem, Op_SRem, Op_FRem,
     Op_Shl, Op_LShr, Op_AShr, Op_And, Op_Or, Op_Xor, Op_Alloca, Op_Load, Op_Store, Op_GetElementPtr, Op_Fence,
     Op_AtomicCmpXchg, Op_AtomicRMW, Op_Trunc, Op_ZExt, Op_SExt, Op_FPToUI, Op_FPToSI, Op_UIToFP, Op_SIToFP,
     Op_FPTrunc, Op_FPExt, Op_PtrToInt, Op_IntToPtr, Op_BitCast, Op_AddrSpaceCast, Op_ICmp, Op_FCmp, Op_PHI,
     Op_Call, Op_Select, Op_UserOp1, Op_UserOp2, Op_VAArg, Op_ExtractElement, Op_InsertElement,
     Op_ShuffleVector, Op_ExtractValue, Op_InsertValue, Op_LandingPad]"

lemma all_opcodes: "op \<in> set all_opcodes" "distinct all_opcodes"
  by (cases op) (simp_all add: all_opcodes_def)

lemma sum_upd_distinct:
  "distinct xs \<Longrightarrow> (\<Sum>y\<leftarrow>xs. (f(x := f x + 1)) y) = (\<Sum>y\<leftarrow>xs. f y) + (if x \<in> set xs then 1 else (0 :: u64))"
  by (induction xs) auto

lemma sum_counts:
  assumes "distinct ops" "\<And>I. I \<in> set xs \<Longrightarrow> i_opcode I \<in> set ops"
  shows "(\<Sum>op\<leftarrow>ops. of_nat (length (filter (\<lambda>I. i_opcode I = op) xs)) :: u64) = of_nat (length xs)"
  using assms(2)
proof (induction xs)
  case (Cons I xs)
  define g where "g = (\<lambda>op. of_nat (length (filter (\<lambda>I. i_opcode I = op) xs)) :: u64)"
  have "(\<lambda>op. of_nat (length (filter (\<lambda>I. i_opcode I = op) (I # xs)))) = g(i_opcode I := g (i_opcode I) + 1)"
    by (auto simp: g_def)
  then show ?case using Cons sum_upd_distinct[OF assms(1), of g "i_opcode I"] by (simp add: g_def del: fun_upd_apply)
qed (induction ops; simp)

subsection \<open>The properties\<close>

text \<open>C9: The counters are exact: after any sequence of instructions the counter of an opcode is the
  number of its instructions, the total is the number of all of them (both modulo 2 ^ 64), and the
  breakdown of every opcode that is broken down by type adds up to its counter.\<close>

theorem mix_counts_exact:
  assumes "tid_ok tid" "\<forall>I \<in> set xs. mem_operands_ok I" "mix_run tid xs instr_mix_init = Some m"
  shows "NumTotalInsts m = of_nat (length xs)
    \<and> (\<forall>op. NumInst m op = of_nat (length (filter (\<lambda>I. i_opcode I = op) xs)))
    \<and> (\<forall>op \<in> broken_down. mp_total (counters m op) = NumInst m op)"
  using mix_run_step[OF assms mix_ok_init] by (simp add: mix_ok_def instr_mix_init_def)

lemma mix_counts_exact_witness:
  "NumTotalInsts (the (mix_run llvm_tid [load_v4i32, add_i32, load_v4i32] instr_mix_init)) = 3"
  using mix_counts_exact[OF llvm_tid_ok, of "[load_v4i32, add_i32, load_v4i32]"
      "the (mix_run llvm_tid [load_v4i32, add_i32, load_v4i32] instr_mix_init)"]
  by (simp add: mem_operands_ok_def mix_examples plain_instr_def operand_type_def mix_analyze_def mix_visit_def
      visitMemoryInstruction_def visitBinaryArithBitwiseCmpConvertSelectInstruction_def)

text \<open>C10: The printed breakdown is complete: for every row of \<open>JSONdump_vectorIncluded\<close> that breaks
  an opcode down, except those of \<open>ptrtoint\<close>, \<open>extractvalue\<close> and \<open>insertvalue\<close>, the three sums it prints
  (scalar, vector and other instructions) add up to the number of the instructions with this opcode,
  which it prints too, if the module is typed as LLVM's verifier requires.\<close>

theorem mix_breakdown_complete:
  assumes "tid_ok tid" "\<forall>I \<in> set xs. llvm_typed I" "mix_run tid xs instr_mix_init = Some m"
    and row: "PerType name op inst f \<in> set (vectorIncluded_rows m)"
    and op: "op \<notin> {Op_PtrToInt, Op_ExtractValue, Op_InsertValue}"
  shows "\<exists>s v mi. perType_prints (fst (JSONdump_perType tid op inst f (counters m)))
      (of_nat (length (filter (\<lambda>I. i_opcode I = op) xs))) s v mi
    \<and> s + v + mi = of_nat (length (filter (\<lambda>I. i_opcode I = op) xs))"
proof -
  have mem: "\<forall>I \<in> set xs. mem_operands_ok I" using assms(2) by (simp add: llvm_typed_def)
  have args: "inst = NumInst m op" "f = print_mode op" "op \<in> broken_down" using row_arguments[OF row] op by auto
  from mix_run_step[OF assms(1) mem assms(3) mix_ok_init] have run: "mix_ok m"
    "NumInst m op = of_nat (length (filter (\<lambda>I. i_opcode I = op) xs))" by (simp_all add: instr_mix_init_def)
  then have ok: "mp_ok (counters m op)" "mp_total (counters m op) = NumInst m op"
    using args(3) by (simp_all add: mix_ok_def)
  from mix_run_keys[OF assms(1-3) mix_init_keys]
  have "key_printed tid (print_mode op) k" if "k \<in> mp_keys (counters m op)" for k using that by simp
  then show ?thesis
    using perType_complete[of tid "counters m" op "print_mode op" "NumInst m op", OF assms(1) ok(1)] ok(2) run(2)
    by (auto simp: key_printed_def args(1,2) simp del: split_paired_All)
qed

lemma mix_breakdown_complete_witness:
  "\<exists>s v mi. perType_prints (fst (JSONdump_perType llvm_tid Op_Load
      (getNumLoadInst (the (mix_run llvm_tid [load_v4i32, add_i32] instr_mix_init))) PRINT_FLOATS_INTS
      (counters (the (mix_run llvm_tid [load_v4i32, add_i32] instr_mix_init))))) 1 s v mi \<and> s + v + mi = 1"
  using mix_breakdown_complete[OF llvm_tid_ok, of "[load_v4i32, add_i32]"
      "the (mix_run llvm_tid [load_v4i32, add_i32] instr_mix_init)" "''load_instructions''" Op_Load
      "getNumLoadInst (the (mix_run llvm_tid [load_v4i32, add_i32] instr_mix_init))" PRINT_FLOATS_INTS]
  by (simp add: llvm_typed_def mem_operands_ok_def mix_examples plain_instr_def operand_type_def mix_analyze_def
      visitMemoryInstruction_def visitBinaryArithBitwiseCmpConvertSelectInstruction_def vector_ok_def
      first_class_def value_type_def value_ok_def kind_ok_def int_valued_def int_or_ptr_def int_fp_bitwise_def
      vector_rows_def)

text \<open>C25: The classes that are printed partition the instructions: the totals of loads, stores, atomic
  memory accesses, integer arithmetic and comparisons, bitwise operations, conversions, address
  arithmetic, floating point arithmetic and comparisons, control, phi, synchronisation, vector,
  aggregate and other instructions, with the two user operations that are not printed, add up to
  \<open>instructions_analyzed\<close>.\<close>

theorem mix_classes_partition:
  assumes "tid_ok tid" "\<forall>I \<in> set xs. mem_operands_ok I" "mix_run tid xs instr_mix_init = Some m"
  shows "getNumMemInst m + getNumIntInst m + getNumICmpInst m + getNumBitwiseInst m + getNumConversionInst m
    + getNumAddrArithInst m + getNumFPInst m + getNumFCmpInst m + getNumCtrlInst m + getNumPHIInst m
    + NumInst m Op_Fence + getNumMiscInst m + NumInst m Op_Select + NumInst m Op_LandingPad
    + NumInst m Op_UserOp1 + NumInst m Op_UserOp2 = getNumTotalInsts m"
proof -
  note run = mix_run_step[OF assms mix_ok_init]
  have "NumTotalInsts m = (\<Sum>op\<leftarrow>all_opcodes. NumInst m op)"
    using run sum_counts[OF all_opcodes(2), of xs] all_opcodes(1) by (simp add: instr_mix_init_def)
  then show ?thesis
    by (simp add: all_opcodes_def getNumMemInst_def getNumIntInst_def getNumICmpInst_def getNumBitwiseInst_def
        getNumConversionInst_def getNumAddrArithInst_def getNumFPInst_def getNumFCmpInst_def getNumCtrlInst_def
        getNumPHIInst_def getNumMiscInst_def getNumTotalInsts_def)
qed

lemma mix_classes_partition_witness:
  "getNumTotalInsts (the (mix_run llvm_tid [add_i32] instr_mix_init)) = 1"
  using mix_classes_partition[OF llvm_tid_ok, of "[add_i32]" "the (mix_run llvm_tid [add_i32] instr_mix_init)"]
  by (simp add: mem_operands_ok_def mix_examples plain_instr_def operand_type_def mix_analyze_def mix_visit_def
      visitMemoryInstruction_def visitBinaryArithBitwiseCmpConvertSelectInstruction_def getNumTotalInsts_def
      count_type_def count_at_def Let_def instr_mix_init_def)

text \<open>Both outputs of the instruction mix are members of an object, well formed.\<close>

lemma mix_JSON_wf:
  "json_members (fst (JSONdump_vectorIncluded tid m)) \<and> json_members (mix_JSONdump m)"
proof
  show "json_members (fst (JSONdump_vectorIncluded tid m))"
    using json_member[OF json_value_object[OF dump_mix_rows_wf] json_members_Nil]
    by (simp add: JSONdump_vectorIncluded_def case_prod_unfold Let_def)
  have "json_members (concat (map (\<lambda>(name, n). [JString name, JUint64 n]) rows))" for rows
    by (auto intro!: json_wf)
  from json_member[OF json_value_object[OF this] json_members_Nil]
  show "json_members (mix_JSONdump m)" by (simp add: mix_JSONdump_def)
qed

text \<open>A store of a vector of integers is counted in the counters of the loads: the counter of
  loads of that width goes up by one and no counter of stores changes.\<close>

theorem store_vector_counts_load:
  "(w, k) \<in> {(4, Bits4K), (8, Bits8K), (16, Bits16K), (32, Bits32K), (64, Bits64K)} \<and> tid_ok tid \<longrightarrow>
    NumStoreTy (visit_store tid (VectorTy n (IntegerTy w)) m) = NumStoreTy m
    \<and> NumLoadTy (visit_store tid (VectorTy n (IntegerTy w)) m) k = NumLoadTy m k + 1"
  by (auto simp: visit_store_def Let_def tid_ok_integer bump_load_def count_at_def)

lemma store_vector_counts_load_witness:
  "NumLoadTy (visit_store llvm_tid (VectorTy 4 (IntegerTy 32)) instr_mix_init) Bits32K = 1
    \<and> NumStoreTy (visit_store llvm_tid (VectorTy 4 (IntegerTy 32)) instr_mix_init) Bits32K = 0"
  using store_vector_counts_load[of 32 Bits32K llvm_tid 4 instr_mix_init] llvm_tid_ok
  by (simp add: instr_mix_init_def)

text \<open>The breakdown of \<open>extractvalue\<close> and \<open>insertvalue\<close> is printed, but their types are never
  counted: the three sums are always zero, whatever the total is.\<close>

theorem aggregate_breakdown_empty:
  assumes "tid_ok tid" "\<forall>I \<in> set xs. mem_operands_ok I" "mix_run tid xs instr_mix_init = Some m"
    and "op = Op_ExtractValue \<or> op = Op_InsertValue"
  shows "perType_prints (fst (JSONdump_perType tid op (NumInst m op) f (counters m)))
    (of_nat (length (filter (\<lambda>I. i_opcode I = op) xs))) 0 0 0"
proof -
  have "op \<notin> broken_down" using assms(4) by (auto simp: broken_down_def int_fp_bitwise_def conversions_def)
  from mix_run_not_broken_down[OF assms(1-3) this] have none: "counters m op = []"
    by (simp add: instr_mix_init_def)
  have "NumInst m op = of_nat (length (filter (\<lambda>I. i_opcode I = op) xs))"
    using mix_run_step[OF assms(1-3) mix_ok_init] by (simp add: instr_mix_init_def)
  moreover have zero: "counter_at op k (counters m) = 0" for k by (simp add: counter_at_def none)
  moreover have "perType_prints (fst (JSONdump_perType tid op (NumInst m op) f (counters m)))
      (NumInst m op) (row_sum op TY_SCALAR 0 (partial_rows tid f) (counters m)) 0
      (counter_at op (TY_MISC, 0, 0) (counters m))"
    by (rule perType_sums[of "counters m" op tid "NumInst m op" f]) (simp_all add: none)
  ultimately show ?thesis by (simp add: zero row_sum_def)
qed

lemma aggregate_breakdown_empty_witness:
  "perType_prints (fst (JSONdump_perType llvm_tid Op_ExtractValue
      (NumInst (the (mix_run llvm_tid [extract_i32] instr_mix_init)) Op_ExtractValue) PRINT_FLOATS_INTS
      (counters (the (mix_run llvm_tid [extract_i32] instr_mix_init))))) 1 0 0 0"
  using aggregate_breakdown_empty[OF llvm_tid_ok, of "[extract_i32]"
      "the (mix_run llvm_tid [extract_i32] instr_mix_init)" Op_ExtractValue PRINT_FLOATS_INTS]
  by (simp add: mem_operands_ok_def mix_examples plain_instr_def mix_analyze_def visitMemoryInstruction_def
      visitBinaryArithBitwiseCmpConvertSelectInstruction_def getInstType_def)

text \<open>The results of \<open>ptrtoint\<close> are integers, but its breakdown is printed as that of floating
  point instructions: one conversion of a pointer to a 64-bit integer is printed with the total 1 and
  the sums 0.\<close>

theorem ptrtoint_breakdown_lost:
  "\<exists>m mid. mix_run llvm_tid [ptrtoint_i64] instr_mix_init = Some m
    \<and> PerType ''conversion_ptrtoint_instructions'' Op_PtrToInt 1 PRINT_ONLY_FLOATS \<in> set (vectorIncluded_rows m)
    \<and> perType_prints (fst (JSONdump_perType llvm_tid Op_PtrToInt 1 PRINT_ONLY_FLOATS (counters m))) 1 0 0 0"
proof -
  define m where "m = instr_mix_init\<lparr>NumInst := (\<lambda>_. 0)(Op_PtrToInt := 1), NumTotalInsts := 1,
    counters := (\<lambda>_. [])(Op_PtrToInt := [((0, 0, 1164), 1)])\<rparr>"
  have run: "mix_run llvm_tid [ptrtoint_i64] instr_mix_init = Some m"
    by (simp add: m_def instr_mix_init_def mix_examples plain_instr_def mix_analyze_def visitMemoryInstruction_def
        visitBinaryArithBitwiseCmpConvertSelectInstruction_def getInstType_def mix_visit_def count_type_def
        int_key_def count_at_def mp_bump_def)
  have keys: "mp_keys (counters m Op_PtrToInt) = {(0, 0, 1164)}" "mp_ok (counters m Op_PtrToInt)"
    by (simp_all add: m_def mp_ok_def)
  have zero: "counter_at Op_PtrToInt k (counters m) = (if k = (0, 0, 1164) then 1 else 0)" for k
    by (simp add: counter_at_def m_def mp_get_def)
  have "perType_prints (fst (JSONdump_perType llvm_tid Op_PtrToInt 1 PRINT_ONLY_FLOATS (counters m))) 1 0 0 0"
  proof -
    obtain sizes where "set sizes = {v. \<exists>t. (TY_VECTOR, v, t) \<in> mp_keys (counters m Op_PtrToInt)}"
      and "perType_prints (fst (JSONdump_perType llvm_tid Op_PtrToInt 1 PRINT_ONLY_FLOATS (counters m)))
        1 (row_sum Op_PtrToInt TY_SCALAR 0 (partial_rows llvm_tid PRINT_ONLY_FLOATS) (counters m))
        (\<Sum>v\<leftarrow>sizes. row_sum Op_PtrToInt TY_VECTOR v (partial_rows llvm_tid PRINT_ONLY_FLOATS) (counters m))
        (counter_at Op_PtrToInt (TY_MISC, 0, 0) (counters m))"
      by (rule perType_sums[of "counters m" Op_PtrToInt]) (simp_all add: keys)
    then show ?thesis
      by (simp add: keys zero row_sum_def partial_rows_def float_rows_def aggregate_rows_def llvm_tid_def)
  qed
  moreover have "PerType ''conversion_ptrtoint_instructions'' Op_PtrToInt 1 PRINT_ONLY_FLOATS \<in> set (vectorIncluded_rows m)"
    by (simp add: vector_rows_def m_def)
  ultimately show ?thesis using run by blast
qed

end
