(* ===== verification/OpenMP_Stats.thy ===== *)
theory OpenMP_Stats
  imports LLVM_IR Json_Events
begin

text \<open>
  \<open>library/OpenMPstats.cc\<close>: the calls of the OpenMP runtime, counted by their names.  The counters of
  a group of functions are a function from a type with one constructor per counter; the counter of
  the whole group is a field of its own.
\<close>

datatype omp_startup_shutdown =
    NumBegin | NumEnd

datatype omp_parallel =
    NumPushNumThreads | NumForkCall | NumPushNumTeams | NumForkTeams | NumSerializedParallel |
    NumEndSerializedParallel

datatype omp_thread_info =
    NumGlobalThreadNum | NumGlobalNumThreads | NumBoundThreadNum | NumBoundNumThreads |
    NumInParallel

datatype omp_work_sharing =
    NumMaster | NumEndMaster | NumOrdered | NumEndOrdered | NumCritical | NumEndCritical |
    NumSingle | NumEndSingle | NumForStaticFini | NumDispatchInit4 | NumDispatchInit4u |
    NumDispatchInit8 | NumDispatchInit8u | NumDistDispatchInit4 | NumDispatchNext4 |
    NumDispatchNext4u | NumDispatchNext8 | NumDispatchNext8u | NumDispatchFini4 |
    NumDispatchFini4u | NumDispatchFini8 | NumDispatchFini8u | NumForStaticInit4 |
    NumForStaticInit4u | NumForStaticInit8 | NumForStaticInit8u | NumDistForStaticInit4 |
    NumDistForStaticInit4u | NumDistForStaticInit8 | NumDistForStaticInit8u | NumTeamStaticInit4 |
    NumTeamStaticInit4u | NumTeamStaticInit8 | NumTeamStaticInit8u

datatype omp_synchronization =
    NumFlush | NumBarrier | NumBarrierMaster | NumEndBarrierMaster | NumBarrierMasterNowait |
    NumReduceNowait | NumEndReduceNowait | NumReduce | NumEndReduce

datatype omp_thread_private_data_support =
    NumCopyprivate | NumThreadprivateRegister | NumThreadprivateCached |
    NumThreadprivateRegisterVec | NumCtor | NumDtor | NumCctor | NumCtorVec | NumDtorVec |
    NumCctorVec

datatype omp_tasking_support =
    NumOmpTaskWithDeps | NumOmpWaitDeps

record omp_stats =
  NumAtomic :: u64
  NumStartupShutdown :: u64
  startup_shutdown :: "omp_startup_shutdown \<Rightarrow> u64"
  NumParallel :: u64
  parallel :: "omp_parallel \<Rightarrow> u64"
  NumThreadInfo :: u64
  thread_info :: "omp_thread_info \<Rightarrow> u64"
  NumWorkSharing :: u64
  work_sharing :: "omp_work_sharing \<Rightarrow> u64"
  NumSynchronization :: u64
  synchronization :: "omp_synchronization \<Rightarrow> u64"
  NumThreadPrivateDataSupport :: u64
  thread_private_data_support :: "omp_thread_private_data_support \<Rightarrow> u64"
  NumTaskingSupport :: u64
  tasking_support :: "omp_tasking_support \<Rightarrow> u64"
  NumEndReduceWait :: u64
  NumOthers :: u64

definition omp_init :: omp_stats where
  "omp_init = \<lparr>NumAtomic = 0,
     NumStartupShutdown = 0, startup_shutdown = (\<lambda>_. 0),
     NumParallel = 0, parallel = (\<lambda>_. 0),
     NumThreadInfo = 0, thread_info = (\<lambda>_. 0),
     NumWorkSharing = 0, work_sharing = (\<lambda>_. 0),
     NumSynchronization = 0, synchronization = (\<lambda>_. 0),
     NumThreadPrivateDataSupport = 0, thread_private_data_support = (\<lambda>_. 0),
     NumTaskingSupport = 0, tasking_support = (\<lambda>_. 0),
     NumEndReduceWait = 0, NumOthers = 0\<rparr>"

subsection \<open>Counting a call\<close>

text \<open>\<open>std::string::find\<close>; \<open>None\<close> is \<open>npos\<close>.\<close>

fun str_find :: "string \<Rightarrow> string \<Rightarrow> nat option" where
  "str_find p [] = (if p = [] then Some 0 else None)"
| "str_find p (c # s) = (if take (length p) (c # s) = p then Some 0 else map_option Suc (str_find p s))"

text \<open>The chain of comparisons of one group: the first name that matches selects the counter.  A
  function returns \<open>None\<close> where the code returns \<open>false\<close>.\<close>

definition count_member :: "(string \<times> 'c) list \<Rightarrow> string \<Rightarrow> ('c \<Rightarrow> u64) \<Rightarrow> ('c \<Rightarrow> u64) option" where
  "count_member names name f = map_option (\<lambda>c. f(c := f c + 1)) (map_of names name)"

definition count_atomic :: "string \<Rightarrow> omp_stats \<Rightarrow> omp_stats option" where
  "count_atomic name s = (if str_find ''atomic'' name \<noteq> None then Some (s\<lparr>NumAtomic := NumAtomic s + 1\<rparr>) else None)"

definition startup_shutdown_names :: "(string \<times> omp_startup_shutdown) list" where
  "startup_shutdown_names = [
     (''__kmpc_begin'', NumBegin), (''__kmpc_end'', NumEnd)]"

definition count_startup_shutdown :: "string \<Rightarrow> omp_stats \<Rightarrow> omp_stats option" where
  "count_startup_shutdown name s = map_option
     (\<lambda>f. s\<lparr>startup_shutdown := f, NumStartupShutdown := NumStartupShutdown s + 1\<rparr>)
     (count_member startup_shutdown_names name (startup_shutdown s))"

definition parallel_names :: "(string \<times> omp_parallel) list" where
  "parallel_names = [
     (''__kmpc_push_num_threads'', NumPushNumThreads), (''__kmpc_fork_call'', NumForkCall),
     (''__kmpc_push_num_teams'', NumPushNumTeams), (''__kmpc_fork_teams'', NumForkTeams),
     (''__kmpc_serialized_parallel'', NumSerializedParallel),
     (''__kmpc_end_serialized_parallel'', NumEndSerializedParallel)]"

definition count_parallel :: "string \<Rightarrow> omp_stats \<Rightarrow> omp_stats option" where
  "count_parallel name s = map_option
     (\<lambda>f. s\<lparr>parallel := f, NumParallel := NumParallel s + 1\<rparr>)
     (count_member parallel_names name (parallel s))"

definition thread_info_names :: "(string \<times> omp_thread_info) list" where
  "thread_info_names = [
     (''__kmpc_global_thread_num'', NumGlobalThreadNum),
     (''__kmpc_global_num_threads'', NumGlobalNumThreads),
     (''__kmpc_bound_thread_num'', NumBoundThreadNum),
     (''__kmpc_bound_num_threads'', NumBoundNumThreads), (''__kmpc_in_parallel'', NumInParallel)]"

definition count_thread_info :: "string \<Rightarrow> omp_stats \<Rightarrow> omp_stats option" where
  "count_thread_info name s = map_option
     (\<lambda>f. s\<lparr>thread_info := f, NumThreadInfo := NumThreadInfo s + 1\<rparr>)
     (count_member thread_info_names name (thread_info s))"

definition work_sharing_names :: "(string \<times> omp_work_sharing) list" where
  "work_sharing_names = [
     (''__kmpc_master'', NumMaster), (''__kmpc_end_master'', NumEndMaster),
     (''__kmpc_ordered'', NumOrdered), (''__kmpc_end_ordered'', NumEndOrdered),
     (''__kmpc_critical'', NumCritical), (''__kmpc_end_critical'', NumEndCritical),
     (''__kmpc_single'', NumSingle), (''__kmpc_end_single'', NumEndSingle),
     (''__kmpc_for_static_fini'', NumForStaticFini), (''__kmpc_dispatch_init_4'', NumDispatchInit4),
     (''__kmpc_dispatch_init_4u'', NumDispatchInit4u),
     (''__kmpc_dispatch_init_8'', NumDispatchInit8),
     (''__kmpc_dispatch_init_8u'', NumDispatchInit8u),
     (''__kmpc_dist_dispatch_init_4'', NumDistDispatchInit4),
     (''__kmpc_dispatch_next_4'', NumDispatchNext4),
     (''__kmpc_dispatch_next_4u'', NumDispatchNext4u),
     (''__kmpc_dispatch_next_8'', NumDispatchNext8),
     (''__kmpc_dispatch_next_8u'', NumDispatchNext8u),
     (''__kmpc_dispatch_fini_4'', NumDispatchFini4),
     (''__kmpc_dispatch_fini_4u'', NumDispatchFini4u),
     (''__kmpc_dispatch_fini_8'', NumDispatchFini8),
     (''__kmpc_dispatch_fini_8u'', NumDispatchFini8u),
     (''__kmpc_for_static_init_4'', NumForStaticInit4),
     (''__kmpc_for_static_init_4u'', NumForStaticInit4u),
     (''__kmpc_for_static_init_8'', NumForStaticInit8),
     (''__kmpc_for_static_init_8u'', NumForStaticInit8u),
     (''__kmpc_dist_for_static_init_4'', NumDistForStaticInit4),
     (''__kmpc_dist_for_static_init_4u'', NumDistForStaticInit4u),
     (''__kmpc_dist_for_static_init_8'', NumDistForStaticInit8),
     (''__kmpc_dist_for_static_init_8u'', NumDistForStaticInit8u),
     (''__kmpc_team_static_init_4'', NumTeamStaticInit4),
     (''__kmpc_team_static_init_4u'', NumTeamStaticInit4u),
     (''__kmpc_team_static_init_8'', NumTeamStaticInit8),
     (''__kmpc_team_static_init_8u'', NumTeamStaticInit8u)]"

definition count_work_sharing :: "string \<Rightarrow> omp_stats \<Rightarrow> omp_stats option" where
  "count_work_sharing name s = map_option
     (\<lambda>f. s\<lparr>work_sharing := f, NumWorkSharing := NumWorkSharing s + 1\<rparr>)
     (count_member work_sharing_names name (work_sharing s))"

definition synchronization_names :: "(string \<times> omp_synchronization) list" where
  "synchronization_names = [
     (''__kmpc_flush'', NumFlush), (''__kmpc_barrier'', NumBarrier),
     (''__kmpc_barrier_master'', NumBarrierMaster),
     (''__kmpc_end_barrier_master'', NumEndBarrierMaster),
     (''__kmpc_barrier_master_nowait'', NumBarrierMasterNowait),
     (''__kmpc_reduce_nowait'', NumReduceNowait),
     (''__kmpc_end_reduce_nowait'', NumEndReduceNowait), (''__kmpc_reduce'', NumReduce),
     (''__kmpc_end_reduce'', NumEndReduce)]"

definition count_synchronization :: "string \<Rightarrow> omp_stats \<Rightarrow> omp_stats option" where
  "count_synchronization name s = map_option
     (\<lambda>f. s\<lparr>synchronization := f, NumSynchronization := NumSynchronization s + 1\<rparr>)
     (count_member synchronization_names name (synchronization s))"

definition thread_private_data_support_names :: "(string \<times> omp_thread_private_data_support) list" where
  "thread_private_data_support_names = [
     (''__kmpc_copyprivate'', NumCopyprivate),
     (''__kmpc_threadprivate_register'', NumThreadprivateRegister),
     (''__kmpc_threadprivate_cached'', NumThreadprivateCached),
     (''__kmpc_threadprivate_register_vec'', NumThreadprivateRegisterVec), (''kmpc_ctor'', NumCtor),
     (''kmpc_dtor'', NumDtor), (''kmpc_cctor'', NumCctor), (''kmpc_ctor_vec'', NumCtorVec),
     (''kmpc_dtor_vec'', NumDtorVec), (''kmpc_cctor_vec'', NumCctorVec)]"

definition count_thread_private_data_support :: "string \<Rightarrow> omp_stats \<Rightarrow> omp_stats option" where
  "count_thread_private_data_support name s = map_option
     (\<lambda>f. s\<lparr>thread_private_data_support := f, NumThreadPrivateDataSupport := NumThreadPrivateDataSupport s + 1\<rparr>)
     (count_member thread_private_data_support_names name (thread_private_data_support s))"

definition tasking_support_names :: "(string \<times> omp_tasking_support) list" where
  "tasking_support_names = [
     (''__kmpc_omp_task_with_deps'', NumOmpTaskWithDeps), (''__kmpc_omp_wait_deps'', NumOmpWaitDeps)]"

definition count_tasking_support :: "string \<Rightarrow> omp_stats \<Rightarrow> omp_stats option" where
  "count_tasking_support name s = map_option
     (\<lambda>f. s\<lparr>tasking_support := f, NumTaskingSupport := NumTaskingSupport s + 1\<rparr>)
     (count_member tasking_support_names name (tasking_support s))"

text \<open>The groups in the order in which \<open>visit\<close> tries them.\<close>

definition omp_count :: "string \<Rightarrow> omp_stats \<Rightarrow> omp_stats" where
  "omp_count name s =
    (case count_atomic name s of Some s \<Rightarrow> s | None \<Rightarrow>
    (case count_startup_shutdown name s of Some s \<Rightarrow> s | None \<Rightarrow>
    (case count_parallel name s of Some s \<Rightarrow> s | None \<Rightarrow>
    (case count_thread_info name s of Some s \<Rightarrow> s | None \<Rightarrow>
    (case count_work_sharing name s of Some s \<Rightarrow> s | None \<Rightarrow>
    (case count_synchronization name s of Some s \<Rightarrow> s | None \<Rightarrow>
    (case count_thread_private_data_support name s of Some s \<Rightarrow> s | None \<Rightarrow>
    (case count_tasking_support name s of Some s \<Rightarrow> s | None \<Rightarrow>
      s\<lparr>NumOthers := NumOthers s + 1\<rparr>))))))))"

text \<open>The name of the function that a call calls; \<open>M\<close> are the functions of the module.\<close>

definition called_name :: "ir_module \<Rightarrow> instr \<Rightarrow> string option" where
  "called_name M I = (if i_opcode I = Op_Call then
     (case get_calledFunction I of Some f \<Rightarrow> if f < length M then Some (f_name (M ! f)) else None | None \<Rightarrow> None)
     else None)"

definition omp_visit :: "ir_module \<Rightarrow> instr \<Rightarrow> omp_stats \<Rightarrow> omp_stats" where
  "omp_visit M I s = (case called_name M I of None \<Rightarrow> s
     | Some name \<Rightarrow> if str_find ''kmpc'' name \<noteq> None then omp_count name s else s)"

definition omp_run :: "ir_module \<Rightarrow> instr list \<Rightarrow> omp_stats \<Rightarrow> omp_stats" where
  "omp_run M xs s = fold (omp_visit M) xs s"

subsection \<open>The output\<close>

definition omp_control_rows :: "omp_stats \<Rightarrow> (string \<times> u64) list" where
  "omp_control_rows s =
   [(''openMP_synchronization'', NumSynchronization s),
    (''openMP_synchronization_flush'', synchronization s NumFlush),
    (''openMP_synchronization_barrier'', synchronization s NumBarrier),
    (''openMP_synchronization_barrier_master'', synchronization s NumBarrierMaster),
    (''openMP_synchronization_end_barrier_master'', synchronization s NumEndBarrierMaster),
    (''openMP_synchronization_barrier_master_nowait'', synchronization s NumBarrierMasterNowait),
    (''openMP_synchronization_reduce_nowait'', synchronization s NumReduceNowait),
    (''openMP_synchronization_end_reduce_wait'', NumEndReduceWait s),
    (''openMP_synchronization_reduce'', synchronization s NumReduce),
    (''openMP_synchronization_end_reduce'', synchronization s NumEndReduce),
    (''openMP_atomic'', NumAtomic s),
    (''openMP_startup_shutdown'', NumStartupShutdown s),
    (''openMP_startup_shutdown_begin'', startup_shutdown s NumBegin),
    (''openMP_startup_shutdown_end'', startup_shutdown s NumEnd),
    (''openMP_parallel'', NumParallel s),
    (''openMP_parallel_push_num_threads'', parallel s NumPushNumThreads),
    (''openMP_parallel_fork_call'', parallel s NumForkCall),
    (''openMP_parallel_push_num_teams'', parallel s NumPushNumTeams),
    (''openMP_parallel_fork_teams'', parallel s NumForkTeams),
    (''openMP_parallel_serialized_parallel'', parallel s NumSerializedParallel),
    (''openMP_parallel_end_serialized_parallel'', parallel s NumEndSerializedParallel),
    (''openMP_thread_info'', NumThreadInfo s),
    (''openMP_thread_info_global_thread_num'', thread_info s NumGlobalThreadNum),
    (''openMP_thread_info_global_num_threads'', thread_info s NumGlobalNumThreads),
    (''openMP_thread_info_bound_thread_num'', thread_info s NumBoundThreadNum),
    (''openMP_thread_info_bound_num_threads'', thread_info s NumBoundNumThreads),
    (''openMP_thread_info_in_parallel'', thread_info s NumInParallel)]"

definition omp_work_rows :: "omp_stats \<Rightarrow> (string \<times> u64) list" where
  "omp_work_rows s =
   [(''openMP_work_sharing'', NumWorkSharing s),
    (''openMP_work_sharing_master'', work_sharing s NumMaster),
    (''openMP_work_sharing_end_master'', work_sharing s NumEndMaster),
    (''openMP_work_sharing_ordered'', work_sharing s NumOrdered),
    (''openMP_work_sharing_end_ordered'', work_sharing s NumEndOrdered),
    (''openMP_work_sharing_critical'', work_sharing s NumCritical),
    (''openMP_work_sharing_end_critical'', work_sharing s NumEndCritical),
    (''openMP_work_sharing_single'', work_sharing s NumSingle),
    (''openMP_work_sharing_end_single'', work_sharing s NumEndSingle),
    (''openMP_work_sharing_for_static_fini'', work_sharing s NumForStaticFini),
    (''openMP_work_sharing_dispatch_init_4'', work_sharing s NumDispatchInit4),
    (''openMP_work_sharing_dispatch_init_4u'', work_sharing s NumDispatchInit4u),
    (''openMP_work_sharing_dispatch_init_8'', work_sharing s NumDispatchInit8),
    (''openMP_work_sharing_dispatch_init_8u'', work_sharing s NumDispatchInit8u),
    (''openMP_work_sharing_dist_dispatch_init_4'', work_sharing s NumDistDispatchInit4),
    (''openMP_work_sharing_dispatch_next_4'', work_sharing s NumDispatchNext4),
    (''openMP_work_sharing_dispatch_next_4u'', work_sharing s NumDispatchNext4u),
    (''openMP_work_sharing_dispatch_next_8'', work_sharing s NumDispatchNext8),
    (''openMP_work_sharing_dispatch_next_8u'', work_sharing s NumDispatchNext8u),
    (''openMP_work_sharing_dispatch_fini_4'', work_sharing s NumDispatchFini4),
    (''openMP_work_sharing_dispatch_fini_4u'', work_sharing s NumDispatchFini4u),
    (''openMP_work_sharing_dispatch_fini_8'', work_sharing s NumDispatchFini8),
    (''openMP_work_sharing_dispatch_fini_8u'', work_sharing s NumDispatchFini8u),
    (''openMP_work_sharing_for_static_init_4'', work_sharing s NumForStaticInit4),
    (''openMP_work_sharing_for_static_init_4u'', work_sharing s NumForStaticInit4u),
    (''openMP_work_sharing_for_static_init_8'', work_sharing s NumForStaticInit8),
    (''openMP_work_sharing_for_static_init_8u'', work_sharing s NumForStaticInit8u),
    (''openMP_work_sharing_dist_for_static_init_4'', work_sharing s NumDistForStaticInit4),
    (''openMP_work_sharing_dist_for_static_init_4u'', work_sharing s NumDistForStaticInit4u),
    (''openMP_work_sharing_dist_for_static_init_8'', work_sharing s NumDistForStaticInit8),
    (''openMP_work_sharing_dist_for_static_init_8u'', work_sharing s NumDistForStaticInit8u),
    (''openMP_work_sharing_team_static_init_4'', work_sharing s NumTeamStaticInit4),
    (''openMP_work_sharing_team_static_init_4u'', work_sharing s NumTeamStaticInit4u),
    (''openMP_work_sharing_team_static_init_8'', work_sharing s NumTeamStaticInit8),
    (''openMP_work_sharing_team_static_init_8u'', work_sharing s NumTeamStaticInit8u)]"

definition omp_data_rows :: "omp_stats \<Rightarrow> (string \<times> u64) list" where
  "omp_data_rows s =
   [(''openMP_thread_private_data_support'', NumThreadPrivateDataSupport s),
    (''openMP_thread_private_data_support_copy_private'', thread_private_data_support s NumCopyprivate),
    (''openMP_thread_private_data_support_thread_private_register'', thread_private_data_support s NumThreadprivateRegister),
    (''openMP_thread_private_data_support_thread_pivate_cached'', thread_private_data_support s NumThreadprivateCached),
    (''openMP_thread_private_data_support_thread_private_register_vec'', thread_private_data_support s NumThreadprivateRegisterVec),
    (''openMP_thread_private_data_support_ctor'', thread_private_data_support s NumCtor),
    (''openMP_thread_private_data_support_dtor'', thread_private_data_support s NumDtor),
    (''openMP_thread_private_data_support_cctor'', thread_private_data_support s NumCctor),
    (''openMP_thread_private_data_support_cctor_vec'', thread_private_data_support s NumCctorVec),
    (''openMP_thread_private_data_support_dtor_vec'', thread_private_data_support s NumDtorVec),
    (''openMP_thread_private_data_support_cctor_vec'', thread_private_data_support s NumCctorVec),
    (''openMP_tasking_support'', NumTaskingSupport s),
    (''openMP_tasking_support_omp_task_with_deps'', tasking_support s NumOmpTaskWithDeps),
    (''openMP_tasking_support_omp_wait_deps'', tasking_support s NumOmpWaitDeps),
    (''openMP_others'', NumOthers s)]"

definition omp_rows :: "omp_stats \<Rightarrow> (string \<times> u64) list" where
  "omp_rows s = omp_control_rows s @ omp_work_rows s @ omp_data_rows s"

definition omp_JSONdump :: "omp_stats \<Rightarrow> json_event list" where
  "omp_JSONdump s = JString ''openMPinstructionMix'' # (StartObject #
     concat (map (\<lambda>(name, n). [JString name, JUint64 n]) (omp_rows s)) @ [EndObject])"

subsection \<open>The counter of a group is the sum of its counters\<close>

definition member_sum :: "(string \<times> 'c) list \<Rightarrow> ('c \<Rightarrow> u64) \<Rightarrow> u64" where
  "member_sum names f = (\<Sum>c\<leftarrow>map snd names. f c)"

definition omp_ok :: "omp_stats \<Rightarrow> bool" where
  "omp_ok s \<longleftrightarrow>
     NumStartupShutdown s = member_sum startup_shutdown_names (startup_shutdown s)
   \<and> NumParallel s = member_sum parallel_names (parallel s)
   \<and> NumThreadInfo s = member_sum thread_info_names (thread_info s)
   \<and> NumWorkSharing s = member_sum work_sharing_names (work_sharing s)
   \<and> NumSynchronization s = member_sum synchronization_names (synchronization s)
   \<and> NumThreadPrivateDataSupport s = member_sum thread_private_data_support_names (thread_private_data_support s)
   \<and> NumTaskingSupport s = member_sum tasking_support_names (tasking_support s)"

definition omp_total :: "omp_stats \<Rightarrow> u64" where
  "omp_total s = NumAtomic s + NumStartupShutdown s + NumParallel s + NumThreadInfo s + NumWorkSharing s + NumSynchronization s + NumThreadPrivateDataSupport s + NumTaskingSupport s + NumOthers s"

lemma member_sum_upd:
  "distinct (map snd names) \<Longrightarrow> map_of names name = Some c
    \<Longrightarrow> member_sum names (f(c := f c + 1)) = member_sum names f + 1"
proof -
  assume d: "distinct (map snd names)" and "map_of names name = Some c"
  then have c: "c \<in> set (map snd names)" by (force dest: map_of_SomeD)
  have "(\<Sum>x\<leftarrow>xs. (f(c := f c + 1)) x) = (\<Sum>x\<leftarrow>xs. f x) + (if c \<in> set xs then 1 else 0)"
    if "distinct xs" for xs using that by (induction xs) auto
  from this[OF d] c show ?thesis by (simp add: member_sum_def)
qed

lemma names_distinct:
  "distinct (map snd startup_shutdown_names)"
  "distinct (map snd parallel_names)"
  "distinct (map snd thread_info_names)"
  "distinct (map snd work_sharing_names)"
  "distinct (map snd synchronization_names)"
  "distinct (map snd thread_private_data_support_names)"
  "distinct (map snd tasking_support_names)"
  by (simp_all add: startup_shutdown_names_def parallel_names_def thread_info_names_def work_sharing_names_def synchronization_names_def thread_private_data_support_names_def tasking_support_names_def)

lemmas omp_groups = count_startup_shutdown_def count_parallel_def count_thread_info_def count_work_sharing_def count_synchronization_def count_thread_private_data_support_def count_tasking_support_def

lemma count_startup_shutdown_ok:
  "count_startup_shutdown name s = Some s' \<Longrightarrow> omp_ok s \<Longrightarrow> omp_ok s' \<and> omp_total s' = omp_total s + 1"
  by (auto simp: count_startup_shutdown_def count_member_def omp_ok_def omp_total_def member_sum_upd names_distinct)

lemma count_parallel_ok:
  "count_parallel name s = Some s' \<Longrightarrow> omp_ok s \<Longrightarrow> omp_ok s' \<and> omp_total s' = omp_total s + 1"
  by (auto simp: count_parallel_def count_member_def omp_ok_def omp_total_def member_sum_upd names_distinct)

lemma count_thread_info_ok:
  "count_thread_info name s = Some s' \<Longrightarrow> omp_ok s \<Longrightarrow> omp_ok s' \<and> omp_total s' = omp_total s + 1"
  by (auto simp: count_thread_info_def count_member_def omp_ok_def omp_total_def member_sum_upd names_distinct)

lemma count_work_sharing_ok:
  "count_work_sharing name s = Some s' \<Longrightarrow> omp_ok s \<Longrightarrow> omp_ok s' \<and> omp_total s' = omp_total s + 1"
  by (auto simp: count_work_sharing_def count_member_def omp_ok_def omp_total_def member_sum_upd names_distinct)

lemma count_synchronization_ok:
  "count_synchronization name s = Some s' \<Longrightarrow> omp_ok s \<Longrightarrow> omp_ok s' \<and> omp_total s' = omp_total s + 1"
  by (auto simp: count_synchronization_def count_member_def omp_ok_def omp_total_def member_sum_upd names_distinct)

lemma count_thread_private_data_support_ok:
  "count_thread_private_data_support name s = Some s' \<Longrightarrow> omp_ok s \<Longrightarrow> omp_ok s' \<and> omp_total s' = omp_total s + 1"
  by (auto simp: count_thread_private_data_support_def count_member_def omp_ok_def omp_total_def member_sum_upd names_distinct)

lemma count_tasking_support_ok:
  "count_tasking_support name s = Some s' \<Longrightarrow> omp_ok s \<Longrightarrow> omp_ok s' \<and> omp_total s' = omp_total s + 1"
  by (auto simp: count_tasking_support_def count_member_def omp_ok_def omp_total_def member_sum_upd names_distinct)

lemma count_atomic_ok:
  "count_atomic name s = Some s' \<Longrightarrow> omp_ok s \<Longrightarrow> omp_ok s' \<and> omp_total s' = omp_total s + 1"
  by (auto simp: count_atomic_def omp_ok_def omp_total_def split: if_splits)

lemmas counts_ok = count_atomic_ok count_startup_shutdown_ok count_parallel_ok count_thread_info_ok count_work_sharing_ok count_synchronization_ok count_thread_private_data_support_ok count_tasking_support_ok

lemma omp_others_ok:
  "omp_ok s \<Longrightarrow> omp_ok (s\<lparr>NumOthers := NumOthers s + 1\<rparr>) \<and> omp_total (s\<lparr>NumOthers := NumOthers s + 1\<rparr>) = omp_total s + 1"
  by (simp add: omp_ok_def omp_total_def)

lemma omp_count_ok: "omp_ok s \<Longrightarrow> omp_ok (omp_count name s) \<and> omp_total (omp_count name s) = omp_total s + 1"
  unfolding omp_count_def by (auto split: option.split dest: counts_ok omp_others_ok)

definition is_kmpc_call :: "ir_module \<Rightarrow> instr \<Rightarrow> bool" where
  "is_kmpc_call M I = (case called_name M I of None \<Rightarrow> False | Some name \<Rightarrow> str_find ''kmpc'' name \<noteq> None)"

lemma omp_run_ok:
  "omp_ok s \<Longrightarrow> omp_ok (omp_run M xs s)
    \<and> omp_total (omp_run M xs s) = omp_total s + of_nat (length (filter (is_kmpc_call M) xs))"
proof (induction xs arbitrary: s)
  case (Cons I xs)
  have "omp_ok (omp_visit M I s)
      \<and> omp_total (omp_visit M I s) = omp_total s + (if is_kmpc_call M I then 1 else 0)"
    using Cons.prems omp_count_ok[OF Cons.prems]
    by (auto simp: omp_visit_def is_kmpc_call_def split: option.split)
  then show ?case using Cons.IH[of "omp_visit M I s"] by (auto simp: omp_run_def)
qed (simp add: omp_run_def)

end
