(* ===== verification/OpenMP_Properties.thy ===== *)
theory OpenMP_Properties
  imports OpenMP_Stats
begin

text \<open>
  The properties of the OpenMP statistics: exact totals, well formed output, and the counters that
  the output loses.
\<close>

definition omp_module :: ir_module where
  "omp_module = [\<lparr>f_name = ''__kmpc_barrier'', f_blocks = []\<rparr>, \<lparr>f_name = ''__kmpc_end_reduce_nowait'', f_blocks = []\<rparr>,
     \<lparr>f_name = ''main'', f_blocks = []\<rparr>]"

definition call_of :: "nat \<Rightarrow> instr" where
  "call_of f = (plain_instr 1 Op_Call)\<lparr>i_callee := Callee_Func f\<rparr>"

lemma omp_init_ok: "omp_ok omp_init"
  by (simp add: omp_ok_def omp_init_def member_sum_def o_def)

text \<open>C32: The counters of the OpenMP runtime calls are exact (modulo 2 ^ 64): after any sequence of
  instructions the counter of each group is the sum of the counters of its functions, and the
  counters of the groups, of the atomic and of the other calls add up to the number of calls of
  functions whose names contain \<open>kmpc\<close>.\<close>

theorem omp_counts_exact:
  "omp_ok (omp_run M xs omp_init)
    \<and> omp_total (omp_run M xs omp_init) = of_nat (length (filter (is_kmpc_call M) xs))"
  using omp_run_ok[OF omp_init_ok, of M xs] by (simp add: omp_total_def omp_init_def)

text \<open>The output of the OpenMP statistics is one well formed member of an object.\<close>

lemma omp_JSONdump_wf: "json_members (omp_JSONdump s)"
proof -
  have "json_members (concat (map (\<lambda>(name, n). [JString name, JUint64 n]) rows))" for rows
    by (auto intro!: json_wf)
  from json_member[OF json_value_object[OF this] json_members_Nil] show ?thesis by (simp add: omp_JSONdump_def)
qed

subsection \<open>Counters that are not printed\<close>

lemma end_reduce_wait_kept: "NumEndReduceWait (omp_visit M I s) = NumEndReduceWait s"
  by (auto simp: omp_visit_def omp_count_def count_atomic_def omp_groups split: option.split)

lemma end_reduce_wait_run: "NumEndReduceWait (omp_run M xs s) = NumEndReduceWait s"
  by (induction xs arbitrary: s) (simp_all add: omp_run_def end_reduce_wait_kept)

lemmas omp_row_defs = omp_rows_def omp_control_rows_def omp_work_rows_def omp_data_rows_def

text \<open>Two counters never reach the output: whatever the counts of \<open>__kmpc_end_reduce_nowait\<close> and of
  \<open>kmpc_ctor_vec\<close> are, the output is the same.  The row \<open>end_reduce_wait\<close> prints a counter that no call
  increments, and the row of \<open>kmpc_cctor_vec\<close> is printed twice under the same name.\<close>

theorem omp_lost_counters:
  "omp_JSONdump (s\<lparr>synchronization := (synchronization s)(NumEndReduceNowait := a),
       thread_private_data_support := (thread_private_data_support s)(NumCtorVec := b)\<rparr>) = omp_JSONdump s
    \<and> (''openMP_synchronization_end_reduce_wait'', 0) \<in> set (omp_rows (omp_run M xs omp_init))
    \<and> count_list (map fst (omp_rows s)) ''openMP_thread_private_data_support_cctor_vec'' = 2"
proof (intro conjI)
  show "omp_JSONdump (s\<lparr>synchronization := (synchronization s)(NumEndReduceNowait := a),
       thread_private_data_support := (thread_private_data_support s)(NumCtorVec := b)\<rparr>) = omp_JSONdump s"
    by (simp add: omp_JSONdump_def omp_row_defs)
  have "NumEndReduceWait (omp_run M xs omp_init) = 0"
    by (simp add: end_reduce_wait_run omp_init_def)
  then show "(''openMP_synchronization_end_reduce_wait'', 0) \<in> set (omp_rows (omp_run M xs omp_init))"
    by (simp add: omp_row_defs)
  show "count_list (map fst (omp_rows s)) ''openMP_thread_private_data_support_cctor_vec'' = 2"
    by (simp add: omp_row_defs)
qed

end
