(* ===== verification/Branch_Entropy.thy ===== *)
theory Branch_Entropy
  imports LLVM_IR Cpp_Map
begin

text \<open>
  \<open>library/BranchEntropy.cc\<close>: the trace of the executed branches, calls and returns.  A line is
  appended to a buffer, which is written to the current file when it has 8192 characters.  The lock
  around the accesses to the buffer is not modelled.
\<close>

subsection \<open>\<open>std::to_string\<close>\<close>

fun nat_string :: "nat \<Rightarrow> string" where
  "nat_string n = (if n < 10 then [char_of (48 + n)] else nat_string (n div 10) @ [char_of (48 + n mod 10)])"

declare nat_string.simps [simp del]

definition to_string :: "int \<Rightarrow> string" where
  "to_string i = (if i < 0 then CHR ''-'' # nat_string (nat (- i)) else nat_string (nat i))"

subsection \<open>State\<close>

record branch_entropy =
  be_thread_id :: int
  be_processor_id :: int
  only_cond :: bool
  shard_files :: bool
  current_file_entries :: int
  shard :: int
  filename :: string
  out_files :: "(string \<times> string) list"
  buffer :: string
  prevB :: "instr option"
  instructionIDs :: "(nat, int \<times> int \<times> int) cmap"

definition isCTRL :: "instr \<Rightarrow> bool" where
  "isCTRL I \<longleftrightarrow> i_opcode I \<in> {Op_Ret, Op_Br, Op_Switch, Op_IndirectBr, Op_Invoke, Op_Resume, Op_Unreachable, Op_Call}"

text \<open>The instructions of a module with their positions.\<close>

definition positions :: "ir_module \<Rightarrow> (instr \<times> int \<times> int \<times> int) list" where
  "positions M = concat (map (\<lambda>(f, F). concat (map (\<lambda>(bb, BB). map (\<lambda>(i, I). (I, int f, int bb, int i))
     (enumerate 0 (b_insts BB))) (enumerate 0 (f_blocks F)))) (enumerate 0 M))"

definition index_ctrl :: "ir_module \<Rightarrow> (nat, int \<times> int \<times> int) cmap" where
  "index_ctrl M = fold (\<lambda>(J, p) m. if isCTRL J then mp_put (i_id J) p m else m) (positions M) []"

text \<open>The constructor ignores its parameter \<open>shard_files\<close>.  It does not initialise the counters of
  the sharding; their values are \<open>entries\<close> and \<open>sh\<close>.\<close>

definition BranchEntropy :: "ir_module \<Rightarrow> int \<Rightarrow> int \<Rightarrow> bool \<Rightarrow> bool \<Rightarrow> string \<Rightarrow> int \<Rightarrow> int \<Rightarrow> branch_entropy" where
  "BranchEntropy M t p cond shard_arg name entries sh =
    \<lparr>be_thread_id = t, be_processor_id = p, only_cond = cond, shard_files = False,
     current_file_entries = entries, shard = sh, filename = name,
     out_files = [(if name = [] then ''stdout'' else name, [])], buffer = [], prevB = None,
     instructionIDs = index_ctrl M\<rparr>"

text \<open>A write to the current file.\<close>

fun write_out :: "string \<Rightarrow> (string \<times> string) list \<Rightarrow> (string \<times> string) list" where
  "write_out txt [] = []"
| "write_out txt ((name, content) # fs) = (name, content @ txt) # fs"

definition be_header :: string where
  "be_header = ''| Branch type | Function_ID | BasicBlock_ID | Instruction_ID | T/F | Thread_ID | Processor_ID|'' @ [CHR 0x0A]"

definition be_printHeader :: "branch_entropy \<Rightarrow> branch_entropy" where
  "be_printHeader s = s\<lparr>out_files := write_out be_header (out_files s)\<rparr>"

text \<open>The destructor.\<close>

definition delete_BranchEntropy :: "branch_entropy \<Rightarrow> (string \<times> string) list" where
  "delete_BranchEntropy s = write_out (buffer s) (out_files s)"

text \<open>An instruction that is not in the map violates the assertion.\<close>

definition getInstructionIDs :: "instr \<Rightarrow> branch_entropy \<Rightarrow> (int \<times> int \<times> int) option" where
  "getInstructionIDs I s = mp_get (i_id I) (instructionIDs s)"

subsection \<open>visit\<close>

text \<open>A line goes to the buffer; with sharding the 100000th line of a file opens the next file.\<close>

definition be_append :: "string \<Rightarrow> branch_entropy \<Rightarrow> branch_entropy" where
  "be_append line s = (let s = s\<lparr>buffer := buffer s @ line\<rparr> in
     if shard_files s
     then (let s = s\<lparr>current_file_entries := current_file_entries s + 1\<rparr> in
       if current_file_entries s mod 100000 = 0
       then (let s = s\<lparr>current_file_entries := 0, shard := shard s + 1\<rparr>
             in s\<lparr>out_files := (filename s @ to_string (shard s), []) # out_files s\<rparr>)
       else s)
     else s)"

definition be_line :: "string \<Rightarrow> int \<times> int \<times> int \<Rightarrow> int \<Rightarrow> int \<Rightarrow> int \<Rightarrow> string" where
  "be_line kind ids st t p = (case ids of (f, bb, i) \<Rightarrow>
     kind @ '' '' @ to_string f @ '' '' @ to_string bb @ '' '' @ to_string i @ '' '' @ to_string st @ '' ''
       @ to_string t @ '' '' @ to_string p @ [CHR 0x0A])"

definition switch_line :: "int \<Rightarrow> int \<Rightarrow> string" where
  "switch_line t p = ''switch instruction identified in '' @ to_string t @ '' '' @ to_string p @ [CHR 0x0A]"

text \<open>The line for an instruction with its position.\<close>

definition be_put :: "string \<Rightarrow> instr \<Rightarrow> int \<Rightarrow> branch_entropy \<Rightarrow> branch_entropy option" where
  "be_put kind I st s = map_option
     (\<lambda>ids. be_append (be_line kind ids st (be_thread_id s) (be_processor_id s)) s) (getInstructionIDs I s)"

text \<open>The outcome of a branch with two successors: the block of the next instruction decides.\<close>

definition branch_state :: "instr \<Rightarrow> instr \<Rightarrow> int" where
  "branch_state B I = (if i_block I = i_succs B ! 0 then 1 else if i_block I = i_succs B ! 1 then 0 else - 1)"

definition be_previous :: "instr \<Rightarrow> branch_entropy \<Rightarrow> branch_entropy option" where
  "be_previous I s = (case prevB s of None \<Rightarrow> Some s
     | Some B \<Rightarrow> map_option (\<lambda>s. s\<lparr>prevB := None\<rparr>)
         (if length (i_succs B) > 2
          then Some (be_append (switch_line (be_thread_id s) (be_processor_id s)) s)
          else if \<not> only_cond s \<and> length (i_succs B) < 2 then be_put ''ub'' B 1 s
          else if length (i_succs B) = 2 then be_put ''cb'' B (branch_state B I) s
          else Some s))"

text \<open>\<open>external f\<close> says whether function \<open>f\<close> of the module has no body.\<close>

definition be_current :: "(nat \<Rightarrow> bool) \<Rightarrow> instr \<Rightarrow> branch_entropy \<Rightarrow> branch_entropy option" where
  "be_current external I s =
    (if \<not> only_cond s \<and> i_opcode I = Op_Ret then be_put ''rint'' I 1 s
     else if \<not> only_cond s \<and> i_opcode I = Op_Call
     then be_put ''call'' I 1 s \<bind>
       (\<lambda>s. case get_calledFunction I of
          Some f \<Rightarrow> if external f then be_put ''rext'' I 1 s else Some s
        | None \<Rightarrow> Some s)
     else Some s)"

definition be_flush :: "branch_entropy \<Rightarrow> branch_entropy" where
  "be_flush s = (if length (buffer s) \<ge> 8192
     then s\<lparr>out_files := write_out (buffer s) (out_files s), buffer := []\<rparr> else s)"

definition be_visit :: "(nat \<Rightarrow> bool) \<Rightarrow> instr \<Rightarrow> branch_entropy \<Rightarrow> branch_entropy option" where
  "be_visit external I s = map_option be_flush
     (if i_opcode I = Op_Br then Some (s\<lparr>prevB := Some I\<rparr>)
      else be_previous I s \<bind> be_current external I)"

fun be_run :: "(nat \<Rightarrow> bool) \<Rightarrow> instr list \<Rightarrow> branch_entropy \<Rightarrow> branch_entropy option" where
  "be_run external [] s = Some s"
| "be_run external (I # xs) s = (case be_visit external I s of None \<Rightarrow> None | Some s \<Rightarrow> be_run external xs s)"

subsection \<open>The trace as a list of entries\<close>

text \<open>What the trace of an instruction sequence should hold, without buffers and files: one entry per
  line.  \<open>prev\<close> is the branch that waits for its successor.\<close>

datatype be_entry = SwitchEntry | Entry string instr int

definition previous_entries :: "bool \<Rightarrow> instr option \<Rightarrow> instr \<Rightarrow> be_entry list" where
  "previous_entries cond prev I = (case prev of None \<Rightarrow> []
     | Some B \<Rightarrow> if length (i_succs B) > 2 then [SwitchEntry]
         else if length (i_succs B) = 2 then [Entry ''cb'' B (branch_state B I)]
         else if cond then [] else [Entry ''ub'' B 1])"

definition current_entries :: "(nat \<Rightarrow> bool) \<Rightarrow> bool \<Rightarrow> instr \<Rightarrow> be_entry list" where
  "current_entries external cond I =
    (if cond then []
     else if i_opcode I = Op_Ret then [Entry ''rint'' I 1]
     else if i_opcode I = Op_Call
     then Entry ''call'' I 1 # (case get_calledFunction I of
            Some f \<Rightarrow> if external f then [Entry ''rext'' I 1] else [] | None \<Rightarrow> [])
     else [])"

fun be_entries :: "(nat \<Rightarrow> bool) \<Rightarrow> bool \<Rightarrow> instr option \<Rightarrow> instr list \<Rightarrow> be_entry list" where
  "be_entries external cond prev [] = []"
| "be_entries external cond prev (I # xs) =
    (if i_opcode I = Op_Br then be_entries external cond (Some I) xs
     else previous_entries cond prev I @ current_entries external cond I @ be_entries external cond None xs)"

text \<open>The line of an entry, and the text that has been written or waits in the buffer.\<close>

definition entry_line :: "(nat, int \<times> int \<times> int) cmap \<Rightarrow> int \<Rightarrow> int \<Rightarrow> be_entry \<Rightarrow> string" where
  "entry_line ids t p e = (case e of SwitchEntry \<Rightarrow> switch_line t p
     | Entry kind I st \<Rightarrow> be_line kind (the (mp_get (i_id I) ids)) st t p)"

definition be_text :: "branch_entropy \<Rightarrow> string" where
  "be_text s = (case out_files s of [] \<Rightarrow> [] | (name, content) # _ \<Rightarrow> content @ buffer s)"

end
