(* ===== verification/Branch_Properties.thy ===== *)
theory Branch_Properties
  imports Branch_Entropy
begin

text \<open>
  The trace that \<open>BranchEntropy\<close> writes is the list of its entries, line by line, whatever the buffer
  does; the positions in it lead back to the instructions; and a branch that is followed by a branch
  is missing.
\<close>

subsection \<open>Buffers and files are transparent\<close>

text \<open>\<open>emits\<close>: the text grows by the lines of the entries; the rest of the state stays.\<close>

definition be_plain :: "branch_entropy \<Rightarrow> bool" where
  "be_plain s \<longleftrightarrow> \<not> shard_files s \<and> out_files s \<noteq> []"

definition emits :: "branch_entropy \<Rightarrow> be_entry list \<Rightarrow> branch_entropy \<Rightarrow> bool" where
  "emits s es s' \<longleftrightarrow> be_plain s' \<and> map fst (out_files s') = map fst (out_files s) \<and> only_cond s' = only_cond s \<and> instructionIDs s' = instructionIDs s
     \<and> be_thread_id s' = be_thread_id s \<and> be_processor_id s' = be_processor_id s
     \<and> be_text s' = be_text s @ concat (map (entry_line (instructionIDs s) (be_thread_id s) (be_processor_id s)) es)"

lemma emits_refl: "be_plain s \<Longrightarrow> emits s [] s"
  by (simp add: emits_def)

lemma emits_trans: "emits s es s1 \<Longrightarrow> emits s1 es' s2 \<Longrightarrow> emits s (es @ es') s2"
  by (auto simp: emits_def)

lemma be_text_prev [simp]: "be_text (s\<lparr>prevB := b\<rparr>) = be_text s"
  by (cases "out_files s") (auto simp: be_text_def)

lemma emits_prev: "emits s es s' \<Longrightarrow> emits s es (s'\<lparr>prevB := b\<rparr>)"
  by (simp add: emits_def be_plain_def)

lemma emits_flush: "emits s es s' \<Longrightarrow> emits s es (be_flush s')"
  by (cases "out_files s'") (auto simp: emits_def be_plain_def be_text_def be_flush_def split: list.splits)

lemma be_append_emits:
  assumes "be_plain s" "line = concat (map (entry_line (instructionIDs s) (be_thread_id s) (be_processor_id s)) es)"
  shows "emits s es (be_append line s)"
  using assms by (auto simp: emits_def be_plain_def be_text_def be_append_def Let_def split: list.splits)

definition in_ids :: "instr \<Rightarrow> branch_entropy \<Rightarrow> bool" where
  "in_ids I s \<longleftrightarrow> i_id I \<in> mp_keys (instructionIDs s)"

lemma be_put_emits:
  assumes "be_plain s" "in_ids I s"
  obtains s' where "be_put kind I st s = Some s'" "emits s [Entry kind I st] s'" "prevB s' = prevB s"
proof -
  obtain ids where ids: "mp_get (i_id I) (instructionIDs s) = Some ids"
    using assms(2) mp_get_None_iff[of "i_id I" "instructionIDs s"] by (auto simp: in_ids_def)
  let ?s = "be_append (be_line kind ids st (be_thread_id s) (be_processor_id s)) s"
  have "emits s [Entry kind I st] ?s"
    by (rule be_append_emits[OF assms(1)]) (simp add: entry_line_def ids)
  moreover have "prevB ?s = prevB s" using assms(1) by (simp add: be_append_def be_plain_def Let_def)
  moreover have "be_put kind I st s = Some ?s" by (simp add: be_put_def getInstructionIDs_def ids)
  ultimately show thesis using that by blast
qed

lemma be_previous_emits:
  assumes "be_plain s" "\<And>B. prevB s = Some B \<Longrightarrow> in_ids B s"
  obtains s' where "be_previous I s = Some s'" "emits s (previous_entries (only_cond s) (prevB s) I) s'"
    "prevB s' = None"
proof (cases "prevB s")
  case None
  then show thesis using that[of s] emits_refl[OF assms(1)]
    by (simp add: be_previous_def previous_entries_def)
next
  case (Some B)
  note ids = assms(2)[OF Some]
  consider "length (i_succs B) > 2" | "length (i_succs B) = 2" | "length (i_succs B) < 2" "only_cond s"
    | "length (i_succs B) < 2" "\<not> only_cond s" by linarith
  then show thesis
  proof cases
    case 1
    have "emits s [SwitchEntry] (be_append (switch_line (be_thread_id s) (be_processor_id s)) s)"
      by (rule be_append_emits[OF assms(1)]) (simp add: entry_line_def)
    from emits_prev[OF this] show thesis using that 1 Some
      by (simp add: be_previous_def previous_entries_def)
  next
    case 2
    obtain s' where "be_put ''cb'' B (branch_state B I) s = Some s'" "emits s [Entry ''cb'' B (branch_state B I)] s'"
      using be_put_emits[OF assms(1) ids] by metis
    then show thesis using that emits_prev[of s _ s' None] 2 Some
      by (simp add: be_previous_def previous_entries_def)
  next
    case 3
    then show thesis using that emits_prev[OF emits_refl[OF assms(1)]] Some
      by (simp add: be_previous_def previous_entries_def)
  next
    case 4
    obtain s' where "be_put ''ub'' B 1 s = Some s'" "emits s [Entry ''ub'' B 1] s'"
      using be_put_emits[OF assms(1) ids] by metis
    then show thesis using that emits_prev[of s _ s' None] 4 Some
      by (simp add: be_previous_def previous_entries_def)
  qed
qed

lemma be_current_emits:
  assumes "be_plain s" "isCTRL I \<longrightarrow> in_ids I s"
  obtains s' where "be_current external I s = Some s'" "emits s (current_entries external (only_cond s) I) s'"
    "prevB s' = prevB s"
proof -
  consider "only_cond s \<or> i_opcode I \<notin> {Op_Ret, Op_Call}" | "\<not> only_cond s" "i_opcode I = Op_Ret"
    | "\<not> only_cond s" "i_opcode I = Op_Call" by auto
  then show thesis
  proof cases
    case 1
    then show thesis using that[of s] emits_refl[OF assms(1)] by (auto simp: be_current_def current_entries_def)
  next
    case 2
    then have "in_ids I s" using assms(2) by (simp add: isCTRL_def)
    from be_put_emits[OF assms(1) this, of "''rint''" 1] show thesis using that 2
      by (auto simp: be_current_def current_entries_def)
  next
    case 3
    then have ids: "in_ids I s" using assms(2) by (simp add: isCTRL_def)
    obtain s1 where s1: "be_put ''call'' I 1 s = Some s1" "emits s [Entry ''call'' I 1] s1" "prevB s1 = prevB s"
      using be_put_emits[OF assms(1) ids] by metis
    then have "be_plain s1" "in_ids I s1" using ids by (auto simp: emits_def in_ids_def)
    from be_put_emits[OF this, of "''rext''" 1] obtain s2 where
      s2: "be_put ''rext'' I 1 s1 = Some s2" "emits s1 [Entry ''rext'' I 1] s2" "prevB s2 = prevB s1" by metis
    show thesis
    proof (cases "\<exists>f. get_calledFunction I = Some f \<and> external f")
      case True
      then show thesis using that[of s2] s1 s2 emits_trans[OF s1(2) s2(2)] 3
        by (auto simp: be_current_def current_entries_def)
    next
      case False
      then show thesis using that[of s1] s1 3
        by (auto simp: be_current_def current_entries_def split: option.splits)
    qed
  qed
qed

lemma be_visit_emits:
  assumes "be_plain s" "isCTRL I \<Longrightarrow> in_ids I s" "\<And>B. prevB s = Some B \<Longrightarrow> in_ids B s"
  obtains s' where "be_visit external I s = Some s'"
    "emits s (if i_opcode I = Op_Br then [] else previous_entries (only_cond s) (prevB s) I
        @ current_entries external (only_cond s) I) s'"
    "prevB s' = (if i_opcode I = Op_Br then Some I else None)"
proof (cases "i_opcode I = Op_Br")
  case True
  have "emits s [] (be_flush (s\<lparr>prevB := Some I\<rparr>))"
    by (intro emits_flush emits_prev emits_refl assms(1))
  then show thesis using that True by (simp add: be_visit_def be_flush_def)
next
  case False
  obtain s1 where s1: "be_previous I s = Some s1" "emits s (previous_entries (only_cond s) (prevB s) I) s1"
    "prevB s1 = None" using be_previous_emits[OF assms(1,3)] by metis
  then have p1: "be_plain s1" and p2: "isCTRL I \<longrightarrow> in_ids I s1" and c: "only_cond s1 = only_cond s"
    using assms(2) by (auto simp: emits_def in_ids_def)
  obtain s2 where
    s2': "be_current external I s1 = Some s2" "emits s1 (current_entries external (only_cond s1) I) s2"
      "prevB s2 = prevB s1"
    by (rule be_current_emits[of s1 I external, OF p1 p2])
  note s2 = s2'[unfolded c s1(3)]
  from emits_flush[OF emits_trans[OF s1(2) s2(2)]] show thesis
    using that False s1 s2 by (simp add: be_visit_def be_flush_def)
qed

lemma be_run_emits:
  assumes "be_plain s" "\<forall>I \<in> set xs. isCTRL I \<longrightarrow> in_ids I s" "\<And>B. prevB s = Some B \<Longrightarrow> in_ids B s"
  shows "\<exists>s'. be_run external xs s = Some s' \<and> emits s (be_entries external (only_cond s) (prevB s) xs) s'"
  using assms
proof (induction xs arbitrary: s)
  case Nil
  then show ?case using emits_refl by simp
next
  case (Cons I xs)
  have I: "isCTRL I \<Longrightarrow> in_ids I s" using Cons.prems(2) by simp
  obtain s1 where s1: "be_visit external I s = Some s1"
    "emits s (if i_opcode I = Op_Br then [] else previous_entries (only_cond s) (prevB s) I
        @ current_entries external (only_cond s) I) s1"
    "prevB s1 = (if i_opcode I = Op_Br then Some I else None)"
    using be_visit_emits[OF Cons.prems(1) I Cons.prems(3), of external] by metis
  then have plain: "be_plain s1" and ids: "in_ids J s1 = in_ids J s" and c: "only_cond s1 = only_cond s" for J
    by (auto simp: emits_def in_ids_def)
  have "in_ids B s1" if "prevB s1 = Some B" for B
    using that s1(3) I by (auto simp: ids isCTRL_def split: if_splits)
  with Cons.IH[OF plain] Cons.prems(2) obtain s' where s': "be_run external xs s1 = Some s'"
    "emits s1 (be_entries external (only_cond s) (prevB s1) xs) s'" by (auto simp: ids c)
  from emits_trans[OF s1(2) s'(2)] show ?case using s1(1,3) s'(1) by (auto split: if_splits)
qed

subsection \<open>The positions\<close>

lemma positions_get:
  assumes "(I, f, bb, i) \<in> set (positions M)"
  shows "get_instruction f bb i (Some M) = Some (Some I)"
proof -
  have en: "x \<in> set (enumerate 0 xs) \<longleftrightarrow> fst x < length xs \<and> snd x = xs ! fst x" for x and xs :: "'b list"
    by (cases x) (auto simp: in_set_enumerate_eq)
  obtain m n k F BB where "(m, F) \<in> set (enumerate 0 M)" "(n, BB) \<in> set (enumerate 0 (f_blocks F))"
    "(k, I) \<in> set (enumerate 0 (b_insts BB))" "f = int m" "bb = int n" "i = int k"
    using assms by (auto simp: positions_def)
  then show ?thesis by (auto simp: en get_instruction_eq Let_def)
qed

lemma concat_enumerate: "concat (map (\<lambda>x. g (snd x)) (enumerate n xs)) = concat (map g xs)"
  by (induction xs arbitrary: n) simp_all

lemma positions_insts: "map fst (positions M) = concat (map (\<lambda>F. concat (map b_insts (f_blocks F))) M)"
  by (simp add: positions_def map_concat case_prod_unfold o_def
      concat_enumerate[of "\<lambda>F. concat (map b_insts (f_blocks F))"] concat_enumerate)

definition index_step :: "instr \<times> int \<times> int \<times> int \<Rightarrow> (nat, int \<times> int \<times> int) cmap \<Rightarrow> (nat, int \<times> int \<times> int) cmap" where
  "index_step = (\<lambda>(J, p) m. if isCTRL J then mp_put (i_id J) p m else m)"

lemma index_fold:
  assumes "distinct (map (i_id \<circ> fst) ps)" "mp_ok m" "\<forall>x \<in> set ps. i_id (fst x) \<notin> mp_keys m"
  shows "mp_ok (fold index_step ps m)
    \<and> (\<forall>(J, p) \<in> set ps. isCTRL J \<longrightarrow> mp_get (i_id J) (fold index_step ps m) = Some p)
    \<and> (\<forall>k. k \<notin> i_id ` fst ` set ps \<longrightarrow> mp_get k (fold index_step ps m) = mp_get k m)"
  using assms
proof (induction ps arbitrary: m)
  case (Cons x ps)
  obtain J p where x: "x = (J, p)" by (cases x)
  let ?m = "index_step x m"
  have "mp_ok ?m" "\<forall>y \<in> set ps. i_id (fst y) \<notin> mp_keys ?m"
    using Cons.prems by (auto simp: x index_step_def rev_image_eqI)
  from Cons.IH[OF _ this] Cons.prems(1) have IH: "mp_ok (fold index_step ps ?m)"
    "\<forall>(J, p) \<in> set ps. isCTRL J \<longrightarrow> mp_get (i_id J) (fold index_step ps ?m) = Some p"
    "\<forall>k. k \<notin> i_id ` fst ` set ps \<longrightarrow> mp_get k (fold index_step ps ?m) = mp_get k ?m" by auto
  have "i_id J \<notin> i_id ` fst ` set ps" using Cons.prems(1) by (auto simp: x o_def)
  then have "mp_get (i_id J) (fold index_step ps ?m) = mp_get (i_id J) ?m" using IH(3) by blast
  moreover have "isCTRL J \<Longrightarrow> mp_get (i_id J) ?m = Some p" using Cons.prems(2) by (simp add: x index_step_def)
  ultimately have "isCTRL J \<longrightarrow> mp_get (i_id J) (fold index_step ps ?m) = Some p" by simp
  moreover have "mp_get k (fold index_step ps ?m) = mp_get k m" if "k \<notin> i_id ` fst ` set (x # ps)" for k
    using IH(3) that Cons.prems(2) by (auto simp: x index_step_def mp_get_put)
  ultimately show ?case using IH(1,2) by (auto simp: x)
qed simp

lemma index_ctrl_get:
  assumes "distinct (map i_id (map fst (positions M)))" "(I, p) \<in> set (positions M)" "isCTRL I"
  shows "mp_get (i_id I) (index_ctrl M) = Some p"
  using index_fold[of "positions M" "[]"] assms by (auto simp: index_ctrl_def index_step_def)

subsection \<open>The properties\<close>

definition module_ok :: "ir_module \<Rightarrow> bool" where
  "module_ok M \<longleftrightarrow> distinct (map i_id (map fst (positions M)))"

lemma BranchEntropy_sel [simp]:
  "be_plain (BranchEntropy M t p cond sh name e k)" "prevB (BranchEntropy M t p cond sh name e k) = None"
  "only_cond (BranchEntropy M t p cond sh name e k) = cond"
  "be_thread_id (BranchEntropy M t p cond sh name e k) = t"
  "be_processor_id (BranchEntropy M t p cond sh name e k) = p"
  "be_text (BranchEntropy M t p cond sh name e k) = []"
  "instructionIDs (BranchEntropy M t p cond sh name e k) = index_ctrl M"
  "out_files (BranchEntropy M t p cond sh name e k) = [(if name = [] then ''stdout'' else name, [])]"
  by (simp_all add: BranchEntropy_def be_plain_def be_text_def)

lemma constructed_ids:
  assumes "module_ok M" "I \<in> set (map fst (positions M))" "isCTRL I"
  shows "in_ids I (BranchEntropy M t p cond sh name e k)"
proof -
  obtain q where "(I, q) \<in> set (positions M)" using assms(2) by auto
  from index_ctrl_get[OF _ this assms(3)] assms(1) show ?thesis
    using mp_get_None_iff[of "i_id I" "index_ctrl M"] by (auto simp: in_ids_def module_ok_def)
qed

lemma delete_text: "be_text s = txt \<Longrightarrow> map fst (out_files s) = [nm] \<Longrightarrow> delete_BranchEntropy s = [(nm, txt)]"
  by (cases "out_files s") (auto simp: be_text_def delete_BranchEntropy_def)

definition be_output :: "(nat \<Rightarrow> bool) \<Rightarrow> instr list \<Rightarrow> branch_entropy \<Rightarrow> (string \<times> string) list option" where
  "be_output external xs s = map_option delete_BranchEntropy (be_run external xs s)"

lemma be_output_eq:
  assumes "module_ok M" "\<forall>I \<in> set xs. isCTRL I \<longrightarrow> I \<in> set (map fst (positions M))"
  shows "be_output external xs (BranchEntropy M t p cond sh name e k) = Some [(if name = [] then ''stdout'' else name,
     concat (map (entry_line (index_ctrl M) t p) (be_entries external cond None xs)))]"
proof -
  let ?s = "BranchEntropy M t p cond sh name e k"
  have "\<forall>I \<in> set xs. isCTRL I \<longrightarrow> in_ids I ?s" using constructed_ids[OF assms(1)] assms(2) by blast
  from be_run_emits[of ?s xs external, OF _ this] obtain s' where
    s': "be_run external xs ?s = Some s'" "emits ?s (be_entries external cond None xs) s'" by auto
  show ?thesis unfolding be_output_def s'(1) using s'(2) delete_text[of s'] by (simp add: emits_def)
qed

definition br_to :: "nat \<Rightarrow> nat list \<Rightarrow> instr" where
  "br_to n succs = (plain_instr n Op_Br)\<lparr>i_succs := succs\<rparr>"

definition branch_module :: ir_module where
  "branch_module = [\<lparr>f_name = ''f'', f_blocks =
     [\<lparr>b_id = 0, b_insts = [br_to 1 [1]]\<rparr>, \<lparr>b_id = 1, b_insts = [br_to 2 [0, 2]]\<rparr>,
      \<lparr>b_id = 2, b_insts = [(plain_instr 3 Op_Ret)\<lparr>i_block := 2\<rparr>]\<rparr>]\<rparr>]"

lemma branch_module_ok: "module_ok branch_module"
  by (simp add: module_ok_def branch_module_def positions_def br_to_def plain_instr_def)

subsection \<open>Which instructions get a line\<close>

text \<open>The line of instruction \<open>i\<close> of the executed sequence \<open>xs\<close>, from the sequence alone.  A branch has a line only if
  an instruction that is no branch comes next: the block of that instruction gives the outcome.\<close>

definition position_line :: "ir_module \<Rightarrow> int \<Rightarrow> int \<Rightarrow> string \<Rightarrow> instr \<Rightarrow> int \<Rightarrow> string" where
  "position_line M t p kind I st = be_line kind (the (map_of (positions M) I)) st t p"

definition branch_text :: "ir_module \<Rightarrow> bool \<Rightarrow> int \<Rightarrow> int \<Rightarrow> instr \<Rightarrow> instr \<Rightarrow> string" where
  "branch_text M cond t p B I =
    (if length (i_succs B) > 2 then switch_line t p
     else if length (i_succs B) = 2 then position_line M t p ''cb'' B
       (if i_block I = i_succs B ! 0 then 1 else if i_block I = i_succs B ! 1 then 0 else - 1)
     else if cond then [] else position_line M t p ''ub'' B 1)"

definition other_text :: "ir_module \<Rightarrow> (nat \<Rightarrow> bool) \<Rightarrow> bool \<Rightarrow> int \<Rightarrow> int \<Rightarrow> instr \<Rightarrow> string" where
  "other_text M external cond t p I =
    (if cond then [] else if i_opcode I = Op_Ret then position_line M t p ''rint'' I 1
     else if i_opcode I = Op_Call then position_line M t p ''call'' I 1
       @ (if \<exists>f \<in> set_option (get_calledFunction I). external f then position_line M t p ''rext'' I 1 else [])
     else [])"

definition trace_line :: "ir_module \<Rightarrow> (nat \<Rightarrow> bool) \<Rightarrow> bool \<Rightarrow> int \<Rightarrow> int \<Rightarrow> instr list \<Rightarrow> nat \<Rightarrow> string" where
  "trace_line M external cond t p xs i =
    (if i_opcode (xs ! i) \<noteq> Op_Br then other_text M external cond t p (xs ! i)
     else if Suc i < length xs \<and> i_opcode (xs ! Suc i) \<noteq> Op_Br then branch_text M cond t p (xs ! i) (xs ! Suc i)
     else [])"

lemma trace_line_Cons: "trace_line M external cond t p (x # xs) (Suc i) = trace_line M external cond t p xs i"
  by (simp add: trace_line_def)

lemma trace_lines_Cons: "concat (map (trace_line M external cond t p (x # xs)) [0..<length (x # xs)])
    = trace_line M external cond t p (x # xs) 0 @ concat (map (trace_line M external cond t p xs) [0..<length xs])"
proof -
  have "[0..<length (x # xs)] = 0 # map Suc [0..<length xs]" by (simp add: map_Suc_upt upt_conv_Cons del: upt_Suc)
  then show ?thesis by (simp add: comp_def trace_line_Cons)
qed

lemma entry_line_position:
  assumes "module_ok M" "I \<in> set (map fst (positions M))" "isCTRL I"
  shows "entry_line (index_ctrl M) t p (Entry kind I st) = position_line M t p kind I st"
proof -
  have "distinct (map fst (positions M))" using assms(1) unfolding module_ok_def by (blast dest: distinct_map[THEN iffD1])
  moreover obtain q where "(I, q) \<in> set (positions M)" using assms(2) by auto
  ultimately show ?thesis using index_ctrl_get[OF _ _ assms(3)] assms(1)
    by (simp add: entry_line_def position_line_def module_ok_def)
qed

lemma entries_lines:
  assumes "module_ok M" "\<forall>I \<in> set xs \<union> set_option prev. isCTRL I \<longrightarrow> I \<in> set (map fst (positions M))"
    "\<forall>B \<in> set_option prev. i_opcode B = Op_Br"
  shows "concat (map (entry_line (index_ctrl M) t p) (be_entries external cond prev xs))
    = (case prev of None \<Rightarrow> [] | Some B \<Rightarrow> (case xs of [] \<Rightarrow> []
         | I # _ \<Rightarrow> if i_opcode I = Op_Br then [] else branch_text M cond t p B I))
      @ concat (map (trace_line M external cond t p xs) [0..<length xs])"
  using assms(2,3)
proof (induction xs arbitrary: prev)
  case Nil
  then show ?case by (simp split: option.split)
next
  case (Cons I xs)
  note line = entry_line_position[OF assms(1)]
  have I: "isCTRL I \<Longrightarrow> I \<in> set (map fst (positions M))" using Cons.prems(1) by simp
  show ?case
  proof (cases "i_opcode I = Op_Br")
    case True
    have "concat (map (entry_line (index_ctrl M) t p) (be_entries external cond (Some I) xs))
        = (case xs of [] \<Rightarrow> [] | J # _ \<Rightarrow> if i_opcode J = Op_Br then [] else branch_text M cond t p I J)
          @ concat (map (trace_line M external cond t p xs) [0..<length xs])"
      using Cons.IH[of "Some I"] Cons.prems(1) True by simp
    moreover have "trace_line M external cond t p (I # xs) 0
        = (case xs of [] \<Rightarrow> [] | J # _ \<Rightarrow> if i_opcode J = Op_Br then [] else branch_text M cond t p I J)"
      using True by (simp add: trace_line_def split: list.split)
    ultimately show ?thesis using True unfolding trace_lines_Cons by (simp split: option.split)
  next
    case False
    have "concat (map (entry_line (index_ctrl M) t p) (current_entries external cond I)) = other_text M external cond t p I"
      using line[OF I] by (auto simp: current_entries_def other_text_def isCTRL_def split: option.split)
    moreover have "concat (map (entry_line (index_ctrl M) t p) (previous_entries cond prev I))
        = (case prev of None \<Rightarrow> [] | Some B \<Rightarrow> branch_text M cond t p B I)"
      using line Cons.prems by (auto simp: previous_entries_def branch_text_def branch_state_def isCTRL_def entry_line_def[of _ _ _ SwitchEntry]
          split: option.split)
    moreover have "trace_line M external cond t p (I # xs) 0 = other_text M external cond t p I"
      using False by (simp add: trace_line_def)
    ultimately show ?thesis using False Cons.IH[of None] Cons.prems(1) unfolding trace_lines_Cons
      by (simp split: option.split)
  qed
qed

text \<open>C12: which lines the branch trace holds.  Constructing the analysis, visiting any sequence of instructions
  of the module and the destructor write one file.  Its text has, in the order of execution, one line for every return, one for every call
  and a second one if the called function has no body, and one for every branch that is followed by an instruction
  that is no branch, with the outcome that this instruction shows; with \<open>cond\<close> only the branches
  with more than one successor.  A branch at the end of the sequence, or before another branch, has no line (the second case is
  \<open>branch_pair_lost\<close>).  Every line has the position of its instruction in the module.  The buffer loses and
  reorders nothing, and no assertion fails.\<close>

theorem branch_trace_exact:
  assumes "module_ok M" "\<forall>I \<in> set xs. isCTRL I \<longrightarrow> I \<in> set (map fst (positions M))"
  shows "be_output external xs (BranchEntropy M t p cond sh name e k) = Some [(if name = [] then ''stdout'' else name,
     concat (map (trace_line M external cond t p xs) [0..<length xs]))]"
  using be_output_eq[OF assms] entries_lines[OF assms(1), of xs None t p external cond] assms(2) by simp

lemma branch_trace_exact_witness:
  "be_output (\<lambda>_. False) [br_to 1 [1], br_to 2 [0, 2], (plain_instr 3 Op_Ret)\<lparr>i_block := 2\<rparr>]
      (BranchEntropy branch_module 0 0 False False [] 0 0)
    = Some [(''stdout'', be_line ''cb'' (0, 1, 0) 0 0 0 @ be_line ''rint'' (0, 2, 0) 1 0 0)]"
  using branch_trace_exact[OF branch_module_ok, of "[br_to 1 [1], br_to 2 [0, 2], (plain_instr 3 Op_Ret)\<lparr>i_block := 2\<rparr>]"
      "\<lambda>_. False" 0 0 False False "[]" 0 0]
  by (simp add: branch_module_def positions_def trace_line_def other_text_def branch_text_def position_line_def plain_instr_def
      br_to_def)

text \<open>The positions in the trace lead back to the instructions: for every control instruction of a
  module, \<open>getInstructionIDs\<close> gives three numbers from which \<open>get_instruction\<close> finds it again.\<close>

theorem branch_positions_roundtrip:
  assumes "module_ok M" "I \<in> set (map fst (positions M))" "isCTRL I"
  shows "\<exists>f bb i. getInstructionIDs I (BranchEntropy M t p cond sh name e k) = Some (f, bb, i)
    \<and> get_instruction f bb i (Some M) = Some (Some I)"
proof -
  obtain f bb i where pos: "(I, f, bb, i) \<in> set (positions M)" using assms(2) by auto
  then have "mp_get (i_id I) (index_ctrl M) = Some (f, bb, i)"
    using index_ctrl_get assms(1,3) by (simp add: module_ok_def)
  then show ?thesis using positions_get[OF pos] by (auto simp: getInstructionIDs_def)
qed

lemma branch_positions_roundtrip_witness:
  "\<exists>f bb i. getInstructionIDs (br_to 2 [0, 2]) (BranchEntropy branch_module 0 0 False False [] 0 0) = Some (f, bb, i)
    \<and> get_instruction f bb i (Some branch_module) = Some (Some (br_to 2 [0, 2]))"
  using branch_positions_roundtrip[OF branch_module_ok, of "br_to 2 [0, 2]" 0 0 False False "[]" 0 0]
  by (simp add: branch_module_def positions_def isCTRL_def br_to_def plain_instr_def)

lemma be_entries_double:
  assumes "i_opcode B = Op_Br" "i_opcode C = Op_Br"
  shows "be_entries external cond prev (xs @ B # C # ys) = be_entries external cond prev (xs @ C # ys)"
  using assms by (induction xs arbitrary: prev) simp_all

text \<open>C36: A branch that is directly followed by another branch (its successor block holds only a
  branch, or phi instructions and a branch) is lost: the output is the same as without it.\<close>

theorem branch_pair_lost:
  assumes "module_ok M" "\<forall>I \<in> set (xs @ B # C # ys). isCTRL I \<longrightarrow> I \<in> set (map fst (positions M))"
    and "i_opcode B = Op_Br" "i_opcode C = Op_Br"
  shows "be_output external (xs @ B # C # ys) (BranchEntropy M t p cond sh name e k)
    = be_output external (xs @ C # ys) (BranchEntropy M t p cond sh name e k)"
proof -
  have "\<forall>I \<in> set (xs @ C # ys). isCTRL I \<longrightarrow> I \<in> set (map fst (positions M))" using assms(2) by auto
  from be_output_eq[OF assms(1) this] be_output_eq[OF assms(1,2)] show ?thesis
    by (simp add: be_entries_double[OF assms(3,4)])
qed

lemma branch_pair_lost_witness:
  "be_output (\<lambda>_. False) [br_to 1 [1], br_to 2 [0, 2], (plain_instr 3 Op_Ret)\<lparr>i_block := 2\<rparr>]
      (BranchEntropy branch_module 0 0 False False [] 0 0)
    = be_output (\<lambda>_. False) [br_to 2 [0, 2], (plain_instr 3 Op_Ret)\<lparr>i_block := 2\<rparr>]
      (BranchEntropy branch_module 0 0 False False [] 0 0)"
  using branch_pair_lost[OF branch_module_ok, of "[]" "br_to 1 [1]" "br_to 2 [0, 2]"
      "[(plain_instr 3 Op_Ret)\<lparr>i_block := 2\<rparr>]" "\<lambda>_. False" 0 0 False False "[]" 0 0]
  by (simp add: branch_module_def positions_def br_to_def plain_instr_def)

lemma be_flush_bound: "length (buffer (be_flush s)) < 8192"
  by (simp add: be_flush_def)

text \<open>The buffer is bounded: after every visit it has less than 8192 characters.\<close>

theorem branch_buffer_bound:
  "be_visit external I s = Some s' \<longrightarrow> length (buffer s') < 8192"
  by (auto simp: be_visit_def be_flush_bound)

lemma branch_buffer_bound_witness:
  "\<exists>s'. be_visit (\<lambda>_. False) (br_to 1 [1]) (BranchEntropy branch_module 0 0 False False [] 0 0) = Some s'
    \<and> length (buffer s') < 8192"
  using branch_buffer_bound[of "\<lambda>_. False" "br_to 1 [1]" "BranchEntropy branch_module 0 0 False False [] 0 0"]
  by (simp add: be_visit_def br_to_def plain_instr_def)

end
