(* ===== verification/Json_Manager.thy ===== *)
theory Json_Manager
  imports Json_Events
begin

text \<open>
  \<open>library/JSONmanager.cc\<close>: the master process writes JSON events, a slave process sends them to the
  master as MPI messages.  MPI delivers the messages between two processes in order; a receive whose
  type differs from that of the message, or for which no message ever comes, has no result.
  \<open>rapidjson\<close> writes the events; the state of its writer is the list of the events so far.
\<close>

datatype mpi_msg = M_INT int | M_ULL u64 | M_DOUBLE dbl | M_CHARS string

abbreviation (input) JSON_END_THREAD :: int where "JSON_END_THREAD \<equiv> 0"
abbreviation (input) JSON_START_ARRAY :: int where "JSON_START_ARRAY \<equiv> 1"
abbreviation (input) JSON_END_ARRAY :: int where "JSON_END_ARRAY \<equiv> 2"
abbreviation (input) JSON_START_OBJECT :: int where "JSON_START_OBJECT \<equiv> 3"
abbreviation (input) JSON_END_OBJECT :: int where "JSON_END_OBJECT \<equiv> 4"
abbreviation (input) JSON_ULL :: int where "JSON_ULL \<equiv> 5"
abbreviation (input) JSON_STRING :: int where "JSON_STRING \<equiv> 6"
abbreviation (input) JSON_DOUBLE :: int where "JSON_DOUBLE \<equiv> 7"
abbreviation (input) JSON_MAX_STRING_LENGTH :: nat where "JSON_MAX_STRING_LENGTH \<equiv> 128"

record json_manager =
  jm_procId :: int
  jm_masterId :: int
  jm_PISAfp :: bool
  jm_writer :: "json_event list"
  jm_sent :: "mpi_msg list"

definition JSONmanager :: "int \<Rightarrow> json_manager" where
  "JSONmanager procId = \<lparr>jm_procId = procId, jm_masterId = procId, jm_PISAfp = False, jm_writer = [], jm_sent = []\<rparr>"

definition openSlave :: "int \<Rightarrow> json_manager \<Rightarrow> json_manager" where
  "openSlave m s = s\<lparr>jm_masterId := m, jm_PISAfp := False\<rparr>"

subsection \<open>One event\<close>

definition StartArray_msgs :: "mpi_msg list" where "StartArray_msgs = [M_INT JSON_START_ARRAY]"
definition EndArray_msgs :: "mpi_msg list" where "EndArray_msgs = [M_INT JSON_END_ARRAY]"
definition StartObject_msgs :: "mpi_msg list" where "StartObject_msgs = [M_INT JSON_START_OBJECT]"
definition EndObject_msgs :: "mpi_msg list" where "EndObject_msgs = [M_INT JSON_END_OBJECT]"

definition Uint64_msgs :: "u64 \<Rightarrow> mpi_msg list" where
  "Uint64_msgs datum = [M_INT JSON_ULL, M_ULL datum]"

definition String_msgs :: "string \<Rightarrow> mpi_msg list" where
  "String_msgs datum = [M_INT JSON_STRING, M_INT (int (length (c_str datum)) + 1), M_CHARS (c_str datum @ [CHR 0x00])]"

definition Double_msgs :: "dbl \<Rightarrow> mpi_msg list" where
  "Double_msgs datum = [M_INT JSON_DOUBLE, M_DOUBLE datum]"

text \<open>\<open>JSONmanager\<close> has no method for \<open>JInt\<close>, which only the header of the master uses.\<close>

definition send_event :: "json_event \<Rightarrow> mpi_msg list" where
  "send_event e = (case e of
     StartArray \<Rightarrow> StartArray_msgs
   | EndArray \<Rightarrow> EndArray_msgs
   | StartObject \<Rightarrow> StartObject_msgs
   | EndObject \<Rightarrow> EndObject_msgs
   | JUint64 n \<Rightarrow> Uint64_msgs n
   | JString s \<Rightarrow> String_msgs s
   | JDouble d \<Rightarrow> Double_msgs d
   | JInt _ \<Rightarrow> [])"

definition write_event :: "json_event \<Rightarrow> json_event" where
  "write_event e = (case e of JString s \<Rightarrow> JString (c_str s) | _ \<Rightarrow> e)"

text \<open>A method of \<open>JSONmanager\<close>: a slave sends, the master writes.\<close>

definition jm_event :: "json_event \<Rightarrow> json_manager \<Rightarrow> json_manager" where
  "jm_event e s =
    (if jm_procId s \<noteq> jm_masterId s then s\<lparr>jm_sent := jm_sent s @ send_event e\<rparr>
     else s\<lparr>jm_writer := jm_writer s @ [write_event e]\<rparr>)"

definition jm_events :: "json_event list \<Rightarrow> json_manager \<Rightarrow> json_manager" where
  "jm_events es s = fold jm_event es s"

subsection \<open>The receiving loop of the master\<close>

text \<open>A string longer than the buffer of 128 characters is written past its end; a text without a
  NUL is read past its end.  Both are undefined.  An unknown command is reported and skipped.\<close>

definition recv_string :: "int \<Rightarrow> string \<Rightarrow> string option" where
  "recv_string recvLength cs =
    (if int (length cs) \<le> recvLength \<and> length cs \<le> JSON_MAX_STRING_LENGTH \<and> CHR 0x00 \<in> set cs
     then Some (c_str cs) else None)"

fun recv_thread :: "mpi_msg list \<Rightarrow> (json_event list \<times> mpi_msg list) option" where
  "recv_thread (M_INT c # ms) =
    (if c = JSON_END_THREAD then Some ([], ms)
     else if c = JSON_START_ARRAY then map_option (apfst ((#) StartArray)) (recv_thread ms)
     else if c = JSON_END_ARRAY then map_option (apfst ((#) EndArray)) (recv_thread ms)
     else if c = JSON_START_OBJECT then map_option (apfst ((#) StartObject)) (recv_thread ms)
     else if c = JSON_END_OBJECT then map_option (apfst ((#) EndObject)) (recv_thread ms)
     else if c = JSON_ULL then
       (case ms of M_ULL n # ms \<Rightarrow> map_option (apfst ((#) (JUint64 n))) (recv_thread ms) | _ \<Rightarrow> None)
     else if c = JSON_STRING then
       (case ms of M_INT len # M_CHARS cs # ms \<Rightarrow>
          (case recv_string len cs of
             None \<Rightarrow> None | Some str \<Rightarrow> map_option (apfst ((#) (JString str))) (recv_thread ms))
        | _ \<Rightarrow> None)
     else if c = JSON_DOUBLE then
       (case ms of M_DOUBLE d # ms \<Rightarrow> map_option (apfst ((#) (JDouble d))) (recv_thread ms) | _ \<Rightarrow> None)
     else recv_thread ms)"
| "recv_thread _ = None"

fun recv_threads :: "nat \<Rightarrow> mpi_msg list \<Rightarrow> (json_event list \<times> mpi_msg list) option" where
  "recv_threads 0 ms = Some ([], ms)"
| "recv_threads (Suc n) ms = (case recv_thread ms of None \<Rightarrow> None
     | Some (es, ms) \<Rightarrow> map_option (apfst ((@) es)) (recv_threads n ms))"

definition dumpFrom :: "mpi_msg list \<Rightarrow> (json_event list \<times> mpi_msg list) option" where
  "dumpFrom ms = (case ms of M_ULL threads # ms \<Rightarrow> recv_threads (unat threads) ms | _ \<Rightarrow> None)"

subsection \<open>dump\<close>

text \<open>The data of a process: for each thread whether it is initialised and the events that
  \<open>WKLDchar::JSONdump\<close> gives for it.\<close>

definition dump_thread :: "bool \<times> json_event list \<Rightarrow> json_manager \<Rightarrow> json_manager" where
  "dump_thread th s =
    (let s = (if fst th then jm_events (snd th) s else s)
     in if jm_procId s \<noteq> jm_masterId s then s\<lparr>jm_sent := jm_sent s @ [M_INT JSON_END_THREAD]\<rparr> else s)"

definition dump_own :: "(bool \<times> json_event list) list \<Rightarrow> json_manager \<Rightarrow> json_manager" where
  "dump_own ths s =
    (let s = (if jm_procId s \<noteq> jm_masterId s then s\<lparr>jm_sent := jm_sent s @ [M_ULL (of_nat (length ths))]\<rparr> else s)
     in fold dump_thread ths s)"

text \<open>\<open>incoming\<close> are the messages from the process; the rest of them is returned.\<close>

definition jm_dump :: "int \<Rightarrow> (bool \<times> json_event list) list \<Rightarrow> mpi_msg list \<Rightarrow> json_manager
    \<Rightarrow> (json_manager \<times> mpi_msg list) option" where
  "jm_dump procId ths incoming s =
    (if jm_procId s = procId then Some (dump_own ths s, incoming)
     else if jm_PISAfp s
     then map_option (\<lambda>(es, ms). (jm_events es s, ms)) (dumpFrom incoming)
     else Some (s, incoming))"

subsection \<open>Header and footer\<close>

text \<open>A parsed document of additional data.  \<open>IsInt\<close> holds of the numbers that fit in 32 bits.\<close>

datatype json_doc =
    DNull | DBool bool | DNumber int | DDouble dbl | DString string
  | DArray "json_doc list" | DObject "(string \<times> json_doc) list"

definition is_int32 :: "int \<Rightarrow> bool" where
  "is_int32 i \<longleftrightarrow> - (2 ^ 31) \<le> i \<and> i < 2 ^ 31"

fun additional_value :: "json_doc \<Rightarrow> json_event list"
  and dump_additional_object :: "(string \<times> json_doc) list \<Rightarrow> json_event list" where
  "additional_value (DNumber i) = (if is_int32 i then [JInt i] else [])"
| "additional_value (DDouble d) = [JDouble d]"
| "additional_value (DString s) = [JString (c_str s)]"
| "additional_value (DObject ms) = StartObject # dump_additional_object ms @ [EndObject]"
| "additional_value _ = []"
| "dump_additional_object [] = []"
| "dump_additional_object ((name, v) # ms) = JString (c_str name) # additional_value v @ dump_additional_object ms"

definition has_member :: "string \<Rightarrow> (string \<times> json_doc) list option \<Rightarrow> bool" where
  "has_member name doc = (case doc of None \<Rightarrow> False | Some ms \<Rightarrow> name \<in> fst ` set ms)"

definition dump_additional_data :: "(string \<times> json_doc) list option \<Rightarrow> json_event list" where
  "dump_additional_data doc = (case doc of None \<Rightarrow> [] | Some ms \<Rightarrow> dump_additional_object ms)"

text \<open>The name of the application and of the test, the command line and the time are parameters.\<close>

definition dump_JSON_header :: "(string \<times> json_doc) list option \<Rightarrow> string \<Rightarrow> string \<Rightarrow> string \<Rightarrow> string \<Rightarrow> json_event list" where
  "dump_JSON_header doc AppName TestName cmdExe currentTime =
    StartObject # dump_additional_data doc
    @ (if has_member ''application'' doc then [] else [JString ''application'', JString (c_str AppName)])
    @ (if has_member ''test-scenario'' doc then [] else [JString ''test-scenario'', JString (c_str TestName)])
    @ (if has_member ''execmd'' doc then [] else [JString ''execmd'', JString (c_str cmdExe)])
    @ (if has_member ''time'' doc then [] else [JString ''time'', JString (c_str currentTime)])
    @ [JString ''threads'', StartArray]"

text \<open>A file is tried to be opened ten times; \<open>opens\<close> are the outcomes.  Without a name for the output
  it goes to the error stream.  Failing to open the output ends the process.\<close>

definition try_open :: "(nat \<Rightarrow> bool) \<Rightarrow> bool" where
  "try_open opens = list_ex opens [0..<10]"

definition openMaster :: "string \<Rightarrow> (nat \<Rightarrow> bool) \<Rightarrow> string \<Rightarrow> (nat \<Rightarrow> bool) \<Rightarrow> (string \<times> json_doc) list
    \<Rightarrow> string \<Rightarrow> string \<Rightarrow> string \<Rightarrow> string \<Rightarrow> json_manager \<Rightarrow> json_manager option" where
  "openMaster PISAFileName opens AddJSONData add_opens document AppName TestName cmdExe currentTime s =
    (let doc = (if AddJSONData \<noteq> [] \<and> try_open add_opens then Some document else None)
     in if PISAFileName \<noteq> [] \<and> \<not> try_open opens then None
        else Some (s\<lparr>jm_masterId := jm_procId s, jm_PISAfp := True,
          jm_writer := jm_writer s @ dump_JSON_header doc AppName TestName cmdExe currentTime\<rparr>))"

text \<open>\<open>close\<close> gives the events of the whole file, where there is one.\<close>

definition dump_JSON_footer :: "json_event list \<Rightarrow> json_event list" where
  "dump_JSON_footer es = es @ [EndArray, EndObject]"

definition jm_close :: "json_manager \<Rightarrow> json_event list option" where
  "jm_close s = (if jm_PISAfp s then Some (dump_JSON_footer (jm_writer s)) else None)"

end
