(* ===== verification/Json_Properties.thy ===== *)
theory Json_Properties
  imports Json_Manager
begin

text \<open>
  The properties of \<open>JSONmanager\<close>: what a slave sends the master decodes to the same events, the whole
  file is one well formed value, and the two inputs that break this.
\<close>

subsection \<open>Sending and receiving\<close>

definition sendable :: "json_event \<Rightarrow> bool" where
  "sendable e = (case e of JString s \<Rightarrow> CHR 0x00 \<notin> set s \<and> length s < JSON_MAX_STRING_LENGTH
     | JInt _ \<Rightarrow> False | _ \<Rightarrow> True)"

lemma c_str_snoc: "CHR 0x00 \<notin> set s \<Longrightarrow> c_str (s @ [CHR 0x00]) = s"
  by (induction s) (auto simp: c_str_def)

lemmas send_defs = send_event_def StartArray_msgs_def EndArray_msgs_def StartObject_msgs_def
  EndObject_msgs_def Uint64_msgs_def String_msgs_def Double_msgs_def

lemma recv_send:
  "sendable e \<Longrightarrow> recv_thread (send_event e @ ms) = map_option (apfst ((#) e)) (recv_thread ms)"
  by (cases e) (simp_all add: send_defs sendable_def recv_string_def c_str_id c_str_snoc)

lemma recv_events:
  "\<forall>e \<in> set es. sendable e \<Longrightarrow> recv_thread (concat (map send_event es) @ M_INT JSON_END_THREAD # ms) = Some (es, ms)"
  by (induction es) (simp_all add: recv_send)

lemma jm_events_eq:
  "jm_events es s = (if jm_procId s \<noteq> jm_masterId s then s\<lparr>jm_sent := jm_sent s @ concat (map send_event es)\<rparr>
     else s\<lparr>jm_writer := jm_writer s @ map write_event es\<rparr>)"
  by (induction es arbitrary: s) (simp_all add: jm_events_def jm_event_def)

definition thread_msgs :: "bool \<times> json_event list \<Rightarrow> mpi_msg list" where
  "thread_msgs th = (if fst th then concat (map send_event (snd th)) else []) @ [M_INT JSON_END_THREAD]"

definition thread_events :: "(bool \<times> json_event list) list \<Rightarrow> json_event list" where
  "thread_events ths = concat (map (\<lambda>th. if fst th then snd th else []) ths)"

lemma dump_threads_slave:
  "jm_procId s \<noteq> jm_masterId s \<Longrightarrow> fold dump_thread ths s = s\<lparr>jm_sent := jm_sent s @ concat (map thread_msgs ths)\<rparr>"
  by (induction ths arbitrary: s) (simp_all add: dump_thread_def jm_events_eq thread_msgs_def Let_def)

lemma dump_threads_master:
  "jm_procId s = jm_masterId s \<Longrightarrow> fold dump_thread ths s = s\<lparr>jm_writer := jm_writer s @ map write_event (thread_events ths)\<rparr>"
  by (induction ths arbitrary: s) (simp_all add: dump_thread_def jm_events_eq thread_events_def Let_def)

lemma recv_threads_send:
  "\<forall>th \<in> set ths. \<forall>e \<in> set (snd th). sendable e
    \<Longrightarrow> recv_threads (length ths) (concat (map thread_msgs ths) @ ms) = Some (thread_events ths, ms)"
proof (induction ths)
  case (Cons th ths)
  have "recv_thread (thread_msgs th @ ms') = Some (if fst th then snd th else [], ms')" for ms'
    using Cons.prems recv_events[of "snd th" ms'] by (simp add: thread_msgs_def)
  then show ?case using Cons by (simp add: thread_events_def)
qed (simp add: thread_events_def)

lemma dumpFrom_send:
  assumes "length ths < 2 ^ 64" "\<forall>th \<in> set ths. \<forall>e \<in> set (snd th). sendable e"
  shows "dumpFrom (M_ULL (of_nat (length ths)) # concat (map thread_msgs ths) @ ms) = Some (thread_events ths, ms)"
proof -
  have "unat (of_nat (length ths) :: u64) = length ths"
    using assms(1) by (simp add: unat_of_nat take_bit_nat_eq_self_iff)
  then show ?thesis using recv_threads_send[OF assms(2)] by (simp add: dumpFrom_def)
qed

text \<open>C16: What a slave process sends the master writes: if every string of the events of its threads
  is shorter than 128 characters and has no NUL, the master decodes the messages completely, and its
  writer gets exactly what it would have got if the threads were its own.\<close>

theorem slave_to_master_roundtrip:
  assumes slave: "jm_procId s \<noteq> jm_masterId s" "jm_sent s = []"
    and master: "jm_procId m = jm_masterId m" "jm_procId m \<noteq> jm_procId s" "jm_PISAfp m"
    and threads: "length ths < 2 ^ 64" "\<forall>th \<in> set ths. \<forall>e \<in> set (snd th). sendable e"
  shows "\<exists>s'. jm_dump (jm_procId s) ths [] s = Some (s', [])
    \<and> jm_dump (jm_procId s) [] (jm_sent s' @ rest) m = Some (dump_own ths m, rest)"
proof -
  have sent: "jm_sent (dump_own ths s) = M_ULL (of_nat (length ths)) # concat (map thread_msgs ths)"
    using slave dump_threads_slave[of "s\<lparr>jm_sent := [M_ULL (of_nat (length ths))]\<rparr>" ths]
    by (simp add: dump_own_def)
  have "jm_events (thread_events ths) m = dump_own ths m"
    using master(1) by (simp add: jm_events_eq dump_own_def dump_threads_master)
  then show ?thesis
    using dumpFrom_send[OF threads, of rest] master by (simp add: jm_dump_def sent)
qed

lemma slave_to_master_roundtrip_witness:
  "\<exists>s'. jm_dump 1 [(True, [StartObject, JString ''reads'', JUint64 7, EndObject])] []
        (openSlave 0 (JSONmanager 1)) = Some (s', [])
    \<and> jm_dump 1 [] (jm_sent s' @ []) (JSONmanager 0\<lparr>jm_PISAfp := True\<rparr>)
      = Some (dump_own [(True, [StartObject, JString ''reads'', JUint64 7, EndObject])]
          (JSONmanager 0\<lparr>jm_PISAfp := True\<rparr>), [])"
  using slave_to_master_roundtrip[of "openSlave 0 (JSONmanager 1)" "JSONmanager 0\<lparr>jm_PISAfp := True\<rparr>"
      "[(True, [StartObject, JString ''reads'', JUint64 7, EndObject])]" "[]"]
  by (simp add: openSlave_def JSONmanager_def sendable_def)

text \<open>C35: A string of 128 characters or more overflows the buffer of the master: for such a string,
  for example the name of an external C++ function, the receiving loop has no defined result.\<close>

theorem long_string_overflow:
  "128 \<le> length (c_str txt) \<longrightarrow> recv_thread (send_event (JString txt) @ ms) = None"
  by (simp add: send_defs recv_string_def)

lemma long_string_overflow_witness:
  "recv_thread (send_event (JString (replicate 128 CHR ''a'')) @ [M_INT JSON_END_THREAD]) = None"
proof -
  have "c_str (replicate 128 CHR ''a'') = replicate 128 CHR ''a''" by (rule c_str_id) simp
  then show ?thesis using long_string_overflow[of "replicate 128 CHR ''a''"] by simp
qed

subsection \<open>The whole file\<close>

text \<open>The additional data that the header can carry.\<close>

fun supported_value :: "json_doc \<Rightarrow> bool" and supported_members :: "(string \<times> json_doc) list \<Rightarrow> bool" where
  "supported_value (DNumber i) = is_int32 i"
| "supported_value (DDouble d) = True"
| "supported_value (DString s) = True"
| "supported_value (DObject ms) = supported_members ms"
| "supported_value _ = False"
| "supported_members [] = True"
| "supported_members ((name, v) # ms) = (supported_value v \<and> supported_members ms)"

lemma additional_wf:
  "supported_value v \<Longrightarrow> json_one_value (additional_value v)"
  "supported_members ms \<Longrightarrow> json_members (dump_additional_object ms)"
  by (induction v and ms rule: supported_value_supported_members.induct) (auto intro: json_wf)

lemma write_elements: "json_run cs (map write_event es) = json_run cs es"
proof (induction es arbitrary: cs)
  case (Cons e es)
  have "json_step cs (write_event e) = json_step cs e"
    by (simp add: write_event_def json_step_def split: json_event.split)
  then show ?case using Cons by (simp split: option.split)
qed simp

lemma header_run:
  assumes "case doc of None \<Rightarrow> True | Some ms \<Rightarrow> supported_members ms"
  shows "\<exists>es. json_members es \<and> dump_JSON_header doc a t c d = StartObject # es @ [JString ''threads'', StartArray]"
proof -
  have "json_members (dump_additional_data doc)"
    using assms additional_wf(2) by (auto simp: dump_additional_data_def json_members_Nil split: option.splits)
  moreover have "json_members (if b then [] else [JString n, JString v])" for b n v
    using json_member[OF json_value_string json_members_Nil, of n v] json_members_Nil by simp
  ultimately have "json_members (dump_additional_data doc
      @ (if has_member ''application'' doc then [] else [JString ''application'', JString (c_str a)])
      @ (if has_member ''test-scenario'' doc then [] else [JString ''test-scenario'', JString (c_str t)])
      @ (if has_member ''execmd'' doc then [] else [JString ''execmd'', JString (c_str c)])
      @ (if has_member ''time'' doc then [] else [JString ''time'', JString (c_str d)]))"
    by (intro json_members_append)
  then show ?thesis unfolding dump_JSON_header_def by (metis append.assoc append_Cons)
qed

text \<open>The runs of one job: the master opens the file, dumps the processes in turn and closes it; a
  process is its own, or its messages.\<close>

fun jm_dumps :: "(int \<times> (bool \<times> json_event list) list \<times> mpi_msg list) list \<Rightarrow> json_manager \<Rightarrow> json_manager option" where
  "jm_dumps [] s = Some s"
| "jm_dumps ((p, ths, incoming) # ps) s = (case jm_dump p ths incoming s of
     Some (s, []) \<Rightarrow> jm_dumps ps s | _ \<Rightarrow> None)"

text \<open>A process that the master \<open>m\<close> can dump: its own threads, or the messages of a slave.\<close>

definition threads_ok :: "(bool \<times> json_event list) list \<Rightarrow> bool" where
  "threads_ok ths \<longleftrightarrow> (\<forall>th \<in> set ths. json_elements (snd th))"

definition process_ok :: "int \<Rightarrow> int \<times> (bool \<times> json_event list) list \<times> mpi_msg list \<Rightarrow> bool" where
  "process_ok m = (\<lambda>(p, ths, incoming).
     if p = m then threads_ok ths \<and> incoming = []
     else \<exists>ths'. length ths' < 2 ^ 64 \<and> threads_ok ths' \<and> (\<forall>th \<in> set ths'. \<forall>e \<in> set (snd th). sendable e)
       \<and> incoming = M_ULL (of_nat (length ths')) # concat (map thread_msgs ths'))"

lemma thread_events_elements: "threads_ok ths \<Longrightarrow> json_elements (map write_event (thread_events ths))"
proof -
  assume "threads_ok ths"
  then have "json_elements (thread_events ths)"
    unfolding thread_events_def by (intro json_elements_concat) (auto simp: threads_ok_def json_elements_Nil)
  then show ?thesis by (simp add: json_elements_def write_elements)
qed

lemma jm_dump_elements:
  assumes "jm_procId m = jm_masterId m" "jm_PISAfp m" "process_ok (jm_procId m) (p, ths, incoming)"
  shows "\<exists>es. json_elements es \<and> jm_dump p ths incoming m = Some (m\<lparr>jm_writer := jm_writer m @ es\<rparr>, [])"
proof (cases "p = jm_procId m")
  case True
  then have ok: "threads_ok ths" "incoming = []" using assms(3) by (auto simp: process_ok_def)
  have "jm_dump p ths incoming m = Some (m\<lparr>jm_writer := jm_writer m @ map write_event (thread_events ths)\<rparr>, [])"
    using True assms(1) by (simp add: jm_dump_def dump_own_def dump_threads_master ok(2))
  with thread_events_elements[OF ok(1)] show ?thesis by metis
next
  case False
  then obtain ths' where ok: "length ths' < 2 ^ 64" "threads_ok ths'"
    "\<forall>th \<in> set ths'. \<forall>e \<in> set (snd th). sendable e"
    "incoming = M_ULL (of_nat (length ths')) # concat (map thread_msgs ths')"
    using assms(3) by (auto simp: process_ok_def)
  have "jm_dump p ths incoming m = Some (m\<lparr>jm_writer := jm_writer m @ map write_event (thread_events ths')\<rparr>, [])"
    using False assms(1,2) dumpFrom_send[OF ok(1,3), of "[]"] by (simp add: jm_dump_def jm_events_eq ok(4))
  with thread_events_elements[OF ok(2)] show ?thesis by metis
qed

lemma jm_dumps_elements:
  assumes "jm_procId m = jm_masterId m" "jm_PISAfp m" "\<forall>x \<in> set ps. process_ok (jm_procId m) x"
  shows "\<exists>es. json_elements es \<and> jm_dumps ps m = Some (m\<lparr>jm_writer := jm_writer m @ es\<rparr>)"
  using assms
proof (induction ps arbitrary: m)
  case Nil
  have "m\<lparr>jm_writer := jm_writer m @ []\<rparr> = m" by simp
  then show ?case using json_elements_Nil by (metis jm_dumps.simps(1))
next
  case (Cons x ps)
  obtain p ths incoming where x: "x = (p, ths, incoming)" by (cases x)
  have ok: "process_ok (jm_procId m) (p, ths, incoming)" using Cons.prems(3) by (simp add: x)
  obtain es where es: "json_elements es" "jm_dump p ths incoming m = Some (m\<lparr>jm_writer := jm_writer m @ es\<rparr>, [])"
    using jm_dump_elements[OF Cons.prems(1,2) ok] by blast
  let ?m = "m\<lparr>jm_writer := jm_writer m @ es\<rparr>"
  have "jm_procId ?m = jm_masterId ?m" "jm_PISAfp ?m" "\<forall>x \<in> set ps. process_ok (jm_procId ?m) x"
    using Cons.prems by simp_all
  from Cons.IH[OF this] obtain es' where "json_elements es'"
    "jm_dumps ps ?m = Some (?m\<lparr>jm_writer := jm_writer ?m @ es'\<rparr>)" by blast
  then show ?case using es json_elements_append[OF es(1)] by (auto simp: x)
qed

definition doc_of :: "string \<Rightarrow> (nat \<Rightarrow> bool) \<Rightarrow> (string \<times> json_doc) list \<Rightarrow> (string \<times> json_doc) list option" where
  "doc_of AddJSONData add_opens document = (if AddJSONData \<noteq> [] \<and> try_open add_opens then Some document else None)"

text \<open>C31: The file of the master is one well formed JSON value: when its output can be opened and every
  member of the additional data has a supported value, opening, dumping the processes of the job (its
  own, and the messages of the slaves) and closing gives a document in which every name has a value
  and every bracket is closed.\<close>

theorem master_file_wf:
  assumes "jm_writer s = []" "try_open opens" "supported_members document"
    and ps: "\<forall>x \<in> set ps. process_ok (jm_procId s) x"
  shows "\<exists>m m' es. openMaster out opens add add_opens document a t c d s = Some m \<and> jm_dumps ps m = Some m'
    \<and> jm_close m' = Some es \<and> json_one_value es"
proof -
  let ?doc = "doc_of add add_opens document"
  define m where "m = s\<lparr>jm_masterId := jm_procId s, jm_PISAfp := True, jm_writer := dump_JSON_header ?doc a t c d\<rparr>"
  have m: "openMaster out opens add add_opens document a t c d s = Some m"
    using assms(1,2) by (simp add: openMaster_def m_def doc_of_def Let_def)
  have "case ?doc of None \<Rightarrow> True | Some ms \<Rightarrow> supported_members ms" using assms(3) by (simp add: doc_of_def)
  from header_run[OF this] obtain hs where hs: "json_members hs"
    "dump_JSON_header ?doc a t c d = StartObject # hs @ [JString ''threads'', StartArray]" by blast
  have "jm_procId m = jm_masterId m" "jm_PISAfp m" "\<forall>x \<in> set ps. process_ok (jm_procId m) x"
    using ps by (simp_all add: m_def)
  from jm_dumps_elements[OF this] obtain es where es: "json_elements es"
    "jm_dumps ps m = Some (m\<lparr>jm_writer := jm_writer m @ es\<rparr>)" by blast
  let ?m' = "m\<lparr>jm_writer := jm_writer m @ es\<rparr>"
  have "jm_close ?m' = Some (StartObject # (hs @ JString ''threads'' # (StartArray # es @ [EndArray]) @ []) @ [EndObject])"
    by (simp add: jm_close_def m_def dump_JSON_footer_def hs(2))
  moreover have "json_one_value (StartObject # (hs @ JString ''threads'' # (StartArray # es @ [EndArray]) @ []) @ [EndObject])"
    by (intro json_value_object json_members_append[OF hs(1)] json_member json_value_array es(1) json_members_Nil)
  ultimately show ?thesis using m es(2) by blast
qed

lemma master_file_wf_witness:
  "\<exists>m m' es. openMaster [] (\<lambda>_. True) ''x'' (\<lambda>_. True) [(''site'', DString ''lab'')] ''app'' ''t'' ''c'' ''d'' (JSONmanager 0) = Some m
    \<and> jm_dumps [(0, [(True, [StartObject, EndObject])], [])] m = Some m' \<and> jm_close m' = Some es \<and> json_one_value es"
proof -
  have opened: "try_open (\<lambda>_. True)" by code_simp
  show ?thesis
    using opened master_file_wf[of "JSONmanager 0" "\<lambda>_. True" "[(''site'', DString ''lab'')]" "[(0, [(True, [StartObject, EndObject])], [])]"
      "[]" "''x''" "\<lambda>_. True" "''app''" "''t''" "''c''" "''d''"]
      json_one_value_element[OF json_value_object[OF json_members_Nil]]
    by (simp add: JSONmanager_def process_ok_def threads_ok_def del: jm_dumps.simps)
qed

text \<open>A member of the additional data whose value is a Boolean, null, an array or a number beyond
  32 bits is written as a name without a value: whatever follows, the file is not well formed.\<close>

theorem unsupported_member_malformed:
  "v \<in> {DNull, DBool b, DArray vs} \<union> DNumber ` {i. \<not> is_int32 i}
      \<and> k \<notin> {''application'', ''test-scenario'', ''execmd'', ''time''} \<longrightarrow>
    json_run cs (dump_JSON_header (Some [(k, v)]) a t c d @ rest) = None"
proof (intro impI, elim conjE)
  assume v: "v \<in> {DNull, DBool b, DArray vs} \<union> DNumber ` {i. \<not> is_int32 i}"
    and k: "k \<notin> {''application'', ''test-scenario'', ''execmd'', ''time''}"
  have none: "additional_value v = []" using v by auto
  have members: "\<not> has_member n (Some [(k, v)])" if "n \<in> {''application'', ''test-scenario'', ''execmd'', ''time''}" for n
    using k that by (auto simp: has_member_def)
  show "json_run cs (dump_JSON_header (Some [(k, v)]) a t c d @ rest) = None"
    by (simp add: dump_JSON_header_def dump_additional_data_def none members json_step_def split: option.split)
qed

lemma unsupported_member_malformed_witness:
  "json_run [InArray] (dump_JSON_header (Some [(''debug'', DBool True)]) ''app'' ''t'' ''c'' ''d'' @ [EndArray, EndObject]) = None"
  using unsupported_member_malformed[of "DBool True" True "[]" "''debug''" "[InArray]" "''app''" "''t''" "''c''" "''d''" "[EndArray, EndObject]"]
  by simp

end
