(* ===== verification/Ilp.thy ===== *)
theory Ilp
  imports Inst_Temp_Reuse Instruction_Mix Cpp_Double
begin

text \<open>
  \<open>library/ILP.cc\<close>: the earliest cycle in which an instruction can be issued, given the cycles of the
  registers and of the memory it depends on.  A pair holds the cycle for the out-of-order and for the
  in-order machine.  The traces for debugging are not modelled.
\<close>

type_synonym cycles = "u64 \<times> u64"

record valueStarIndex =
  lastUsage :: u64
  lastUsageInOrder :: u64
  star_count :: u64

record MemoryDep =
  lastStoreCycle :: u64
  lastStoreCycleInOrder :: u64
  lastLoadCycle :: u64
  lastLoadCycleInOrder :: u64
  lastStoreIndex :: u64
  lastLoadIndex :: u64

text \<open>The span of a class of instructions: the number of distinct increasing cycles, and the last one,
  for both machines.\<close>

record class_span =
  MaxIssue :: u64
  PreviousIssue :: u64
  MaxIssueInOrder :: u64
  PreviousIssueInOrder :: u64

record ilp =
  ilp_ignore_ctrl :: bool
  ilp_ctrl :: bool
  valueStarCount :: u64
  window_size :: nat
  scheduler :: "32 word list"
  scheduler_in_order :: "32 word list"
  window_cycle :: u64
  window_cycle_in_order :: u64
  MinIssueCycleForCtrl :: u64
  MaxIssueCycle :: u64
  MaxIssueCycleInOrder :: u64
  span_mem :: class_span
  span_int :: class_span
  span_ctrl :: class_span
  span_fp :: class_span
  prevBB :: "nat option"
  LastUsageOperands :: "(nat, valueStarIndex) cmap"
  LastUsageMemory :: "(u64, MemoryDep) cmap"

definition no_span :: class_span where
  "no_span = \<lparr>MaxIssue = 0, PreviousIssue = 0, MaxIssueInOrder = 0, PreviousIssueInOrder = 0\<rparr>"

definition ILP :: "bool \<Rightarrow> bool \<Rightarrow> nat \<Rightarrow> ilp" where
  "ILP ignore_ctrl ctrl window = \<lparr>ilp_ignore_ctrl = ignore_ctrl, ilp_ctrl = ctrl, valueStarCount = 0,
     window_size = window, scheduler = [], scheduler_in_order = [], window_cycle = 0, window_cycle_in_order = 0,
     MinIssueCycleForCtrl = 0, MaxIssueCycle = 0, MaxIssueCycleInOrder = 0,
     span_mem = no_span, span_int = no_span, span_ctrl = no_span, span_fp = no_span, prevBB = None,
     LastUsageOperands = [], LastUsageMemory = []\<rparr>"

text \<open>What the analysis reads of its surroundings: the opcode of an instruction of the module, the
  addresses of the arguments of a function, the shared tables, the memory of the analysed program
  and the number of the thread.\<close>

record ilp_env =
  opcode_of :: "nat \<Rightarrow> opcode option"
  args_of :: "nat \<Rightarrow> nat list"
  tables :: shared_tables
  memory :: "u64 \<Rightarrow> u64"
  env_thread :: int

definition module_opcode :: "ir_module \<Rightarrow> nat \<Rightarrow> opcode option" where
  "module_opcode M n = map_option i_opcode (List.find (\<lambda>I. i_id I = n) (module_insts M))"

subsection \<open>The last usage of a register\<close>

definition LookupOperand :: "ir_value \<Rightarrow> ilp \<Rightarrow> cycles" where
  "LookupOperand v s = (case mp_get (value_addr v) (LastUsageOperands s) of
     Some u \<Rightarrow> (lastUsage u, lastUsageInOrder u) | None \<Rightarrow> (0, 0))"

definition LookupValueStarIndex :: "ir_value \<Rightarrow> ilp \<Rightarrow> u64" where
  "LookupValueStarIndex v s = (case mp_get (value_addr v) (LastUsageOperands s) of
     Some u \<Rightarrow> star_count u | None \<Rightarrow> 0)"

definition InsertOperandUsage :: "ir_value \<Rightarrow> cycles \<Rightarrow> bool \<Rightarrow> ir_value option \<Rightarrow> ilp \<Rightarrow> ilp" where
  "InsertOperandUsage v cyc isNewInstruction previous s =
    (if isa_Constant v then s
     else let oldValue = LookupValueStarIndex v s;
              n = (if isNewInstruction then valueStarCount s
                   else case previous of Some p \<Rightarrow> LookupValueStarIndex p s | None \<Rightarrow> oldValue);
              s = (if isNewInstruction then s\<lparr>valueStarCount := valueStarCount s + 1\<rparr> else s)
          in s\<lparr>LastUsageOperands := mp_put (value_addr v)
                 \<lparr>lastUsage = fst cyc, lastUsageInOrder = snd cyc, star_count = n\<rparr> (LastUsageOperands s)\<rparr>)"

definition is_phi :: "ilp_env \<Rightarrow> ir_value \<Rightarrow> bool" where
  "is_phi e v = (case v of V_Inst n \<Rightarrow> opcode_of e n = Some Op_PHI | _ \<Rightarrow> False)"

definition valueIsConstantLike :: "ilp_env \<Rightarrow> ir_value \<Rightarrow> bool" where
  "valueIsConstantLike e v \<longleftrightarrow> isa_Constant v \<or> (case v of V_Block _ \<Rightarrow> True | _ \<Rightarrow> False) \<or> is_phi e v"

definition valueIsFunctionCall :: "ilp_env \<Rightarrow> ir_value \<Rightarrow> bool" where
  "valueIsFunctionCall e v = (case v of V_Inst n \<Rightarrow> opcode_of e n = Some Op_Call | _ \<Rightarrow> False)"

subsection \<open>The issue cycle\<close>

text \<open>The maximum of both cycles, and the next cycle of both.\<close>

definition max2 :: "cycles \<Rightarrow> cycles \<Rightarrow> cycles" where
  "max2 a b = (max (fst a) (fst b), max (snd a) (snd b))"

definition next2 :: "cycles \<Rightarrow> cycles" where
  "next2 a = (fst a + 1, snd a + 1)"

definition in_order :: "ilp \<Rightarrow> cycles \<Rightarrow> cycles" where
  "in_order s a = (fst a, max (snd a) (MaxIssueCycleInOrder s))"

text \<open>The dependence on an operand, shared by calls and other instructions.\<close>

definition operand_cycles :: "ilp_env \<Rightarrow> ilp \<Rightarrow> ir_value \<Rightarrow> cycles \<Rightarrow> cycles" where
  "operand_cycles e s v cyc =
    (if \<not> valueIsConstantLike e v then in_order s (max2 cyc (next2 (LookupOperand v s)))
     else if is_phi e v then in_order s (max2 cyc (LookupOperand v s))
     else cyc)"

fun phi_cycles :: "ilp_env \<Rightarrow> instr \<Rightarrow> (ir_value \<times> nat) list \<Rightarrow> cycles \<Rightarrow> ilp \<Rightarrow> cycles \<times> ilp" where
  "phi_cycles e I [] cyc s = (cyc, s)"
| "phi_cycles e I ((v, bb) # ins) cyc s =
    (if Some bb = prevBB s
     then let a = LookupOperand v s;
              a = (if \<not> valueIsConstantLike e v \<and> \<not> valueIsFunctionCall e v then in_order s (next2 a) else a);
              s = InsertOperandUsage (V_Inst (i_id I)) a False (Some v) s
          in (max2 cyc a, s)
     else phi_cycles e I ins cyc s)"

fun call_args :: "ilp_env \<Rightarrow> ir_value list \<Rightarrow> nat list \<Rightarrow> cycles \<Rightarrow> ilp \<Rightarrow> cycles \<times> ilp" where
  "call_args e [] fs cyc s = (cyc, s)"
| "call_args e (v # vs) fs cyc s =
    (let a = LookupOperand v s;
         cyc = operand_cycles e s v cyc
     in case fs of
          [] \<Rightarrow> call_args e vs [] cyc s
        | f # fs \<Rightarrow> call_args e vs fs cyc (InsertOperandUsage (V_Other f) a False (Some v) s))"

text \<open>The function that a call calls; the first \<open>None\<close> is an undefined access to the tables.  Where
  the address is not known, \<open>CallSite::getCalledFunction\<close> does not find a function either.\<close>

definition ilp_callee :: "ilp_env \<Rightarrow> instr \<Rightarrow> nat option option" where
  "ilp_callee e I = (case get_calledFunction I of Some f \<Rightarrow> Some (Some f)
     | None \<Rightarrow> (case getMemoryAddress (tables e) (case i_callee I of Callee_Value a \<Rightarrow> a | _ \<Rightarrow> 0) (env_thread e) of
          None \<Rightarrow> None
        | Some addr \<Rightarrow> Some (getFunctionAddress (tables e) (if addr \<noteq> 0 then memory e addr else addr))))"

definition call_cycles :: "ilp_env \<Rightarrow> instr \<Rightarrow> cycles \<Rightarrow> ilp \<Rightarrow> (cycles \<times> ilp) option" where
  "call_cycles e I cyc s = (case ilp_callee e I of
     None \<Rightarrow> None
   | Some None \<Rightarrow> Some (cyc, s)
   | Some (Some f) \<Rightarrow>
       let (cyc, s) = call_args e (i_args I) (args_of e f) cyc s
       in Some (cyc, InsertOperandUsage (V_Inst (i_id I)) cyc True None s))"

definition other_cycles :: "ilp_env \<Rightarrow> instr \<Rightarrow> cycles \<Rightarrow> ilp \<Rightarrow> cycles \<times> ilp" where
  "other_cycles e I cyc s =
    (let cyc = fold (operand_cycles e s) (map fst (i_operands I)) cyc
     in (cyc, InsertOperandUsage (V_Inst (i_id I)) cyc True None s))"

definition load_cycles :: "ilp_env \<Rightarrow> instr \<Rightarrow> cycles \<Rightarrow> ilp \<Rightarrow> (cycles \<times> ilp) option" where
  "load_cycles e I cyc s = (case (i_operands I, getMemoryAddress (tables e) (i_id I) (env_thread e)) of
     ((op1, _) # _, Some Address) \<Rightarrow>
       let cyc = in_order s (max2 cyc (next2 (LookupOperand op1 s)))
       in (case mp_get Address (LastUsageMemory s) of
            Some d \<Rightarrow>
              let cyc = in_order s (max2 cyc (next2 (lastStoreCycle d, lastStoreCycleInOrder d)));
                  s = InsertOperandUsage (V_Inst (i_id I)) cyc True None s
              in Some (cyc, s\<lparr>LastUsageMemory := mp_put Address
                   (d\<lparr>lastLoadCycle := max (lastLoadCycle d) (fst cyc),
                      lastLoadCycleInOrder := max (lastLoadCycleInOrder d) (snd cyc),
                      lastLoadIndex := LookupValueStarIndex (V_Inst (i_id I)) s\<rparr>) (LastUsageMemory s)\<rparr>)
          | None \<Rightarrow>
              let s = InsertOperandUsage (V_Inst (i_id I)) cyc True None s
              in Some (cyc, s\<lparr>LastUsageMemory := mp_put Address
                   \<lparr>lastStoreCycle = 0, lastStoreCycleInOrder = 0, lastLoadCycle = fst cyc,
                    lastLoadCycleInOrder = snd cyc, lastStoreIndex = 0,
                    lastLoadIndex = LookupValueStarIndex (V_Inst (i_id I)) s\<rparr> (LastUsageMemory s)\<rparr>))
   | _ \<Rightarrow> None)"

definition store_cycles :: "ilp_env \<Rightarrow> instr \<Rightarrow> cycles \<Rightarrow> ilp \<Rightarrow> (cycles \<times> ilp) option" where
  "store_cycles e I cyc s = (case (i_operands I, getMemoryAddress (tables e) (i_id I) (env_thread e)) of
     ((op1, _) # (op2, _) # _, Some Address) \<Rightarrow>
       let cyc = in_order s (max2 (max2 cyc (next2 (LookupOperand op1 s))) (next2 (LookupOperand op2 s)))
       in (case mp_get Address (LastUsageMemory s) of
            Some d \<Rightarrow>
              let cyc = max2 (max2 cyc (next2 (lastStoreCycle d, lastStoreCycleInOrder d)))
                          (next2 (lastLoadCycle d, lastLoadCycleInOrder d));
                  s = InsertOperandUsage (V_Inst (i_id I)) cyc True None s;
                  s = InsertOperandUsage op2 cyc False (Some (V_Inst (i_id I))) s
              in Some (cyc, s\<lparr>LastUsageMemory := mp_put Address
                   (d\<lparr>lastStoreCycle := max (lastStoreCycle d) (fst cyc),
                      lastStoreCycleInOrder := max (lastStoreCycleInOrder d) (snd cyc),
                      lastStoreIndex := LookupValueStarIndex (V_Inst (i_id I)) s\<rparr>) (LastUsageMemory s)\<rparr>)
          | None \<Rightarrow>
              let s = InsertOperandUsage (V_Inst (i_id I)) cyc True None s;
                  s = InsertOperandUsage op2 cyc False (Some (V_Inst (i_id I))) s
              in Some (cyc, s\<lparr>LastUsageMemory := mp_put Address
                   \<lparr>lastStoreCycle = fst cyc, lastStoreCycleInOrder = snd cyc, lastLoadCycle = 0,
                    lastLoadCycleInOrder = 0, lastStoreIndex = LookupValueStarIndex (V_Inst (i_id I)) s,
                    lastLoadIndex = 0\<rparr> (LastUsageMemory s)\<rparr>))
   | _ \<Rightarrow> None)"

definition getInstIssueCycle :: "ilp_env \<Rightarrow> instr \<Rightarrow> cycles \<Rightarrow> ilp \<Rightarrow> (cycles \<times> ilp) option" where
  "getInstIssueCycle e I cyc s =
    (if i_opcode I = Op_PHI then Some (phi_cycles e I (i_incoming I) cyc s)
     else if i_opcode I = Op_Call then call_cycles e I cyc s
     else if i_opcode I \<noteq> Op_Store \<and> i_opcode I \<noteq> Op_Load then Some (other_cycles e I cyc s)
     else if i_opcode I = Op_Load then load_cycles e I cyc s
     else store_cycles e I cyc s)"

end
