(* ===== verification/Ilp_Visit.thy ===== *)
theory Ilp_Visit
  imports Ilp
begin

text \<open>
  \<open>library/ILP.cc\<close>: the visit of an instruction, with the scheduling window, the propagation of the
  cycle of a return, and the output.
\<close>

subsection \<open>The scheduling window\<close>

text \<open>The window is a list of \<open>int\<close>: a cycle is cut to 32 bits when it is inserted, and \<open>remove\<close> takes an \<open>int\<close>, so that
  the cycle of the window is cut as well.  The loop releases cycle after cycle while the window is full.\<close>

partial_function (option) sched_release :: "nat \<Rightarrow> 32 word list \<Rightarrow> u64 \<Rightarrow> (32 word list \<times> u64) option" where
  [code]: "sched_release ws xs w =
    (if length xs = ws then sched_release ws (filter (\<lambda>x. x \<noteq> ucast w) xs) (w + 1) else Some (xs, w))"

definition sched_push :: "nat \<Rightarrow> u64 \<Rightarrow> 32 word list \<Rightarrow> u64 \<Rightarrow> (32 word list \<times> u64) option" where
  "sched_push ws cyc xs w = sched_release ws (xs @ [ucast cyc]) w"

definition schedule :: "cycles \<Rightarrow> ilp \<Rightarrow> ilp option" where
  "schedule cyc s = (if window_size s = 0 then Some s else do {
     (xs, w) \<leftarrow> sched_push (window_size s) (fst cyc) (scheduler s) (window_cycle s);
     (ys, v) \<leftarrow> sched_push (window_size s) (snd cyc) (scheduler_in_order s) (window_cycle_in_order s);
     Some (s\<lparr>scheduler := xs, window_cycle := w, scheduler_in_order := ys, window_cycle_in_order := v\<rparr>) })"

subsection \<open>visit\<close>

definition bump_span :: "cycles \<Rightarrow> class_span \<Rightarrow> class_span" where
  "bump_span cyc c =
    \<lparr>MaxIssue = (if fst cyc > PreviousIssue c then MaxIssue c + 1 else MaxIssue c),
     PreviousIssue = max (fst cyc) (PreviousIssue c),
     MaxIssueInOrder = (if snd cyc > PreviousIssueInOrder c then MaxIssueInOrder c + 1 else MaxIssueInOrder c),
     PreviousIssueInOrder = max (snd cyc) (PreviousIssueInOrder c)\<rparr>"

definition update_spans :: "instr \<Rightarrow> cycles \<Rightarrow> ilp \<Rightarrow> ilp" where
  "update_spans I cyc s =
    (if isOfMemoryType I then s\<lparr>span_mem := bump_span cyc (span_mem s)\<rparr>
     else if isOfIntegerType I then s\<lparr>span_int := bump_span cyc (span_int s)\<rparr>
     else if isOfControlType I then s\<lparr>span_ctrl := bump_span cyc (span_ctrl s)\<rparr>
     else if isOfFloatingPointType I then s\<lparr>span_fp := bump_span cyc (span_fp s)\<rparr>
     else s)"

text \<open>The part of \<open>visit\<close> after the early returns.\<close>

definition commit_cycle :: "instr \<Rightarrow> cycles \<Rightarrow> ilp \<Rightarrow> cycles \<times> ilp" where
  "commit_cycle I cyc s =
    (let (cyc, s) =
       (if ilp_ctrl s \<and> getInstType I = CTRL_TYPE
        then let c = max (fst cyc) (MinIssueCycleForCtrl s) in ((c, snd cyc), s\<lparr>MinIssueCycleForCtrl := c + 1\<rparr>)
        else (cyc, s));
       s = InsertOperandUsage (V_Inst (i_id I)) cyc False None s;
       s = s\<lparr>MaxIssueCycle := max (MaxIssueCycle s) (fst cyc),
             MaxIssueCycleInOrder := max (MaxIssueCycleInOrder s) (snd cyc)\<rparr>;
       s = update_spans I cyc s
     in (cyc, s\<lparr>prevBB := Some (i_block I)\<rparr>))"

definition start_cycles :: "ilp \<Rightarrow> cycles" where
  "start_cycles s = (if window_size s \<noteq> 0 then (window_cycle s, window_cycle_in_order s) else (0, 0))"

definition ilp_visit :: "ilp_env \<Rightarrow> instr \<Rightarrow> ilp \<Rightarrow> ilp option" where
  "ilp_visit e I s =
    (case getInstIssueCycle e I (start_cycles s) s of
       None \<Rightarrow> None
     | Some (cyc, s) \<Rightarrow>
         let cyc = in_order s cyc
         in if i_opcode I = Op_PHI then Some s
            else if ilp_ignore_ctrl s \<and> getInstType I = CTRL_TYPE then Some s
            else (case commit_cycle I cyc s of (cyc, s) \<Rightarrow> schedule cyc s))"

subsection \<open>The cycle of a return\<close>

definition updateILPforCall :: "ir_value \<Rightarrow> ir_value \<Rightarrow> ilp \<Rightarrow> ilp" where
  "updateILPforCall returnInstruction callInstruction s =
    (let r = LookupOperand returnInstruction s;
         c = LookupOperand callInstruction s
     in if fst r \<ge> fst c then
          (if snd r \<ge> snd c then InsertOperandUsage callInstruction r False (Some returnInstruction) s
           else InsertOperandUsage callInstruction (fst r, snd c) False (Some returnInstruction) s)
        else if snd r \<ge> snd c
        then InsertOperandUsage callInstruction (fst c, snd r) False (Some returnInstruction) s
        else s)"

text \<open>What happens to the analysis during a run: visits, and returns from calls.\<close>

datatype ilp_event = Visit ilp_env instr | Return ir_value ir_value

fun ilp_run :: "ilp_event list \<Rightarrow> ilp \<Rightarrow> ilp option" where
  "ilp_run [] s = Some s"
| "ilp_run (Visit e I # xs) s = (case ilp_visit e I s of None \<Rightarrow> None | Some s \<Rightarrow> ilp_run xs s)"
| "ilp_run (Return r c # xs) s = ilp_run xs (updateILPforCall r c s)"

text \<open>The body of \<open>updateILPIssueCycle\<close> is a comment.\<close>

definition updateILPIssueCycle :: "int \<Rightarrow> ir_value \<Rightarrow> u64 \<Rightarrow> u64 \<Rightarrow> ilp \<Rightarrow> ilp" where
  "updateILPIssueCycle type v real_addr issue_cycle s = s"

subsection \<open>The output\<close>

text \<open>\<open>n / (m + 1.0)\<close>, and \<open>n / (m + 0.0)\<close> with 0 for an empty class.\<close>

definition mean_total :: "u64 \<Rightarrow> u64 \<Rightarrow> dbl" where
  "mean_total n m = Some (round_double (round_double (u64_rat n) / round_double (round_double (u64_rat m) + 1)))"

definition mean_class :: "u64 \<Rightarrow> u64 \<Rightarrow> dbl" where
  "mean_class n m = (if m = 0 then Some 0 else u64_ratio n m)"

definition span_events :: "string \<Rightarrow> u64 \<Rightarrow> u64 \<Rightarrow> json_event list" where
  "span_events suffix n m =
    [JString (''span_'' @ suffix), JUint64 m,
     JString (''arithmetic_mean_'' @ suffix), JDouble (double4 (mean_class n m))]"

definition ilp_statistics :: "instr_mix \<Rightarrow> u64 \<Rightarrow> u64 \<Rightarrow> u64 \<Rightarrow> u64 \<Rightarrow> u64 \<Rightarrow> json_event list" where
  "ilp_statistics mix whole mem int_span ctrl fp =
    [JString ''span'', JUint64 (whole + 1),
     JString ''arithmetic_mean'', JDouble (double4 (mean_total (getNumTotalInsts mix) whole))]
    @ span_events ''mem'' (getNumMemInst mix) mem
    @ span_events ''int'' (getNumIntInst mix + getNumBitwiseInst mix + getNumConversionInst mix
        + getNumICmpInst mix + getNumAddrArithInst mix) int_span
    @ span_events ''ctrl'' (getNumCtrlInst mix) ctrl
    @ span_events ''fp'' (getNumFPInst mix + getNumFCmpInst mix) fp"

definition ilp_JSONdump :: "instr_mix \<Rightarrow> ilp \<Rightarrow> json_event list" where
  "ilp_JSONdump mix s = JString ''ilp'' # (StartArray # (StartObject #
     (JString ''windowSize'' # JUint64 (of_nat (window_size s)) #
      JString ''statistics'' # (StartObject #
        ilp_statistics mix (MaxIssueCycle s) (MaxIssue (span_mem s)) (MaxIssue (span_int s))
          (MaxIssue (span_ctrl s)) (MaxIssue (span_fp s)) @ [EndObject])
      @ JString ''in-order'' # (StartObject #
        ilp_statistics mix (MaxIssueCycleInOrder s) (MaxIssueInOrder (span_mem s)) (MaxIssueInOrder (span_int s))
          (MaxIssueInOrder (span_ctrl s)) (MaxIssueInOrder (span_fp s)) @ [EndObject])
      @ []) @ [EndObject]) @ [EndArray])"

end
