(* ===== verification/Ilp_Properties.thy ===== *)
theory Ilp_Properties
  imports Ilp_Visit
begin

text \<open>
  The properties of the ILP analysis: the scheduling window always drains, an instruction is issued
  after everything it depends on, the spans are bounded by the number of visits, and a place where
  the code departs from this.
\<close>

subsection \<open>The window drains\<close>

lemma ucast_next:
  fixes c :: "32 word" and w :: u64
  assumes "c \<noteq> ucast w"
  shows "unat (c - ucast (w + 1)) < unat (c - ucast w)"
proof -
  have "c - ucast w \<noteq> 0" using assms by simp
  then have "unat (c - ucast w - 1) < unat (c - ucast w)"
    by (metis unat_minus_one unat_gt_0 word_gt_0 diff_less less_numeral_extra(1))
  moreover have "take_bit 32 (a + 1) = take_bit 32 (take_bit 64 a + 1)" for a :: int
    using take_bit_add[of 32 a 1] take_bit_add[of 32 "take_bit 64 a" 1] by simp
  then have "(ucast (w + 1) :: 32 word) = ucast w + 1" by transfer simp
  ultimately show ?thesis by (simp add: algebra_simps)
qed

lemma sched_release_some:
  assumes "0 < ws" "length xs \<le> ws"
  shows "\<exists>ys v. sched_release ws xs w = Some (ys, v) \<and> length ys < ws"
proof (cases "length xs = ws")
  case False
  then show ?thesis using assms(2) by (subst sched_release.simps) simp
next
  case True
  then obtain x where x: "x \<in> set xs" using assms(1) by (cases xs) auto
  from x True show ?thesis
  proof (induction "unat (x - ucast w)" arbitrary: w xs rule: less_induct)
    case less
    let ?ys = "filter (\<lambda>x. x \<noteq> ucast w) xs"
    have step: "sched_release ws xs w = sched_release ws ?ys (w + 1)"
      using less.prems(2) by (subst sched_release.simps) simp
    show ?case
    proof (cases "length ?ys = ws")
      case True
      have all: "y \<noteq> ucast w" if "y \<in> set xs" for y
        using length_filter_less[of y xs "\<lambda>x. x \<noteq> ucast w"] that True less.prems(2) by auto
      then have "?ys = xs" by (simp add: filter_id_conv)
      then have "x \<noteq> ucast w" "x \<in> set ?ys" using all less.prems(1) by simp_all
      from less.hyps[OF ucast_next[OF this(1)] this(2) True] step show ?thesis by simp
    next
      case False
      have "length ?ys \<le> ws" using less.prems(2) length_filter_le[of "\<lambda>x. x \<noteq> ucast w" xs] by simp
      then show ?thesis using False step by (simp add: sched_release.simps[of ws ?ys])
    qed
  qed
qed

definition window_ok :: "ilp \<Rightarrow> bool" where
  "window_ok s \<longleftrightarrow> window_size s \<noteq> 0 \<longrightarrow>
     length (scheduler s) < window_size s \<and> length (scheduler_in_order s) < window_size s"

lemma schedule_some: "window_ok s \<Longrightarrow> \<exists>s'. schedule cyc s = Some s' \<and> window_ok s' \<and> window_size s' = window_size s"
proof (cases "window_size s = 0")
  case False
  assume ok: "window_ok s"
  obtain xs w ys v where "sched_push (window_size s) (fst cyc) (scheduler s) (window_cycle s) = Some (xs, w)"
    "length xs < window_size s"
    "sched_push (window_size s) (snd cyc) (scheduler_in_order s) (window_cycle_in_order s) = Some (ys, v)"
    "length ys < window_size s"
    using ok False sched_release_some[of "window_size s" "scheduler s @ [ucast (fst cyc)]" "window_cycle s"]
      sched_release_some[of "window_size s" "scheduler_in_order s @ [ucast (snd cyc)]" "window_cycle_in_order s"]
    by (auto simp: window_ok_def sched_push_def)
  then show ?thesis using False by (simp add: schedule_def window_ok_def)
qed (simp add: schedule_def)

subsection \<open>Frames\<close>

text \<open>What computing the cycle of an instruction leaves unchanged.\<close>

definition frame :: "ilp \<Rightarrow> ilp \<Rightarrow> bool" where
  "frame s s' \<longleftrightarrow> window_size s' = window_size s \<and> scheduler s' = scheduler s
     \<and> scheduler_in_order s' = scheduler_in_order s \<and> window_cycle s' = window_cycle s
     \<and> window_cycle_in_order s' = window_cycle_in_order s \<and> MinIssueCycleForCtrl s' = MinIssueCycleForCtrl s
     \<and> MaxIssueCycle s' = MaxIssueCycle s \<and> MaxIssueCycleInOrder s' = MaxIssueCycleInOrder s
     \<and> prevBB s' = prevBB s \<and> ilp_ctrl s' = ilp_ctrl s \<and> ilp_ignore_ctrl s' = ilp_ignore_ctrl s"

lemma ilp_frame_refl: "frame s s"
  by (simp add: frame_def)

lemma ilp_frame_trans: "frame s s1 \<Longrightarrow> frame s1 s2 \<Longrightarrow> frame s s2"
  by (simp add: frame_def)

lemma frame_insert: "frame s (InsertOperandUsage v cyc b p s)"
  by (simp add: frame_def InsertOperandUsage_def Let_def)

lemma frame_memory: "frame s s' \<Longrightarrow> frame s (s'\<lparr>LastUsageMemory := m\<rparr>)"
  by (simp add: frame_def)

lemma call_args_frame: "frame s (snd (call_args e vs fs cyc s))"
proof (induction vs arbitrary: fs cyc s)
  case (Cons v vs)
  show ?case using Cons ilp_frame_trans[OF frame_insert Cons]
    by (cases fs) (simp_all add: Let_def)
qed (simp add: ilp_frame_refl)

lemma phi_cycles_frame: "frame s (snd (phi_cycles e I ins cyc s))"
  by (induction ins) (auto simp: Let_def ilp_frame_refl frame_insert)

lemma call_frame: "call_cycles e I cyc s = Some (cyc', s') \<Longrightarrow> frame s s'"
  by (auto simp: call_cycles_def case_prod_unfold Let_def ilp_frame_refl split: option.splits
      intro!: ilp_frame_trans[OF call_args_frame frame_insert])

lemma frame_insert_memory: "frame s (InsertOperandUsage v cyc b p s\<lparr>LastUsageMemory := m\<rparr>)"
  by (rule frame_memory[OF frame_insert])

lemma frame_insert2_memory:
  "frame s (InsertOperandUsage v cyc b p (InsertOperandUsage w cyc' c q s)\<lparr>LastUsageMemory := m\<rparr>)"
  by (rule frame_memory[OF ilp_frame_trans[OF frame_insert frame_insert]])

lemma load_frame: "load_cycles e I cyc s = Some (cyc', s') \<Longrightarrow> frame s s'"
  by (auto simp: load_cycles_def Let_def frame_insert_memory split: option.splits list.splits)

lemma store_frame: "store_cycles e I cyc s = Some (cyc', s') \<Longrightarrow> frame s s'"
  by (auto simp: store_cycles_def Let_def frame_insert2_memory split: option.splits list.splits)

lemma getInst_frame: "getInstIssueCycle e I cyc s = Some (cyc', s') \<Longrightarrow> frame s s'"
  using phi_cycles_frame[of s e I "i_incoming I" cyc] call_frame load_frame store_frame
  by (auto simp: getInstIssueCycle_def other_cycles_def Let_def frame_insert split: if_splits)

subsection \<open>Bounds on the cycles\<close>

definition le2 :: "nat \<Rightarrow> cycles \<Rightarrow> bool" where
  "le2 k cyc \<longleftrightarrow> unat (fst cyc) \<le> k \<and> unat (snd cyc) \<le> k"

definition usages_le :: "nat \<Rightarrow> ilp \<Rightarrow> bool" where
  "usages_le k s \<longleftrightarrow> mp_ok (LastUsageOperands s) \<and> mp_ok (LastUsageMemory s)
     \<and> (\<forall>a u. mp_get a (LastUsageOperands s) = Some u \<longrightarrow> le2 k (lastUsage u, lastUsageInOrder u))
     \<and> (\<forall>a d. mp_get a (LastUsageMemory s) = Some d \<longrightarrow>
          le2 k (lastStoreCycle d, lastStoreCycleInOrder d) \<and> le2 k (lastLoadCycle d, lastLoadCycleInOrder d))"

lemma le2_mono: "le2 k c \<Longrightarrow> k \<le> k' \<Longrightarrow> le2 k' c"
  by (auto simp: le2_def)

lemma unat_max: "unat (max a b) = max (unat (a :: u64)) (unat b)"
  by (simp add: max_def word_le_nat_alt)

lemma le2_max2 [simp]: "le2 k (max2 a b) \<longleftrightarrow> le2 k a \<and> le2 k b"
  by (auto simp: le2_def max2_def unat_max)

lemma le2_next2: "le2 k c \<Longrightarrow> le2 (Suc k) (next2 c)"
proof -
  have "unat (x + 1) \<le> Suc k" if "unat x \<le> k" for x :: u64
  proof -
    have "unat (x + 1) = (unat x + 1) mod 2 ^ 64" by (simp add: unat_word_ariths)
    also have "\<dots> \<le> unat x + 1" by (rule mod_less_eq_dividend)
    finally show ?thesis using that by simp
  qed
  then show "le2 k c \<Longrightarrow> le2 (Suc k) (next2 c)" by (simp add: le2_def next2_def)
qed

lemma le2_in_order: "le2 k c \<Longrightarrow> unat (MaxIssueCycleInOrder s) \<le> k \<Longrightarrow> le2 k (in_order s c)"
  by (simp add: le2_def in_order_def unat_max)

lemma usages_mono: "usages_le k s \<Longrightarrow> k \<le> k' \<Longrightarrow> usages_le k' s"
  using le2_mono by (auto simp: usages_le_def) blast+

lemma Lookup_le: "usages_le k s \<Longrightarrow> le2 k (LookupOperand v s)"
  by (auto simp: usages_le_def LookupOperand_def le2_def split: option.split)

lemma Insert_le: "usages_le k s \<Longrightarrow> le2 k cyc \<Longrightarrow> usages_le k (InsertOperandUsage v cyc b p s)"
  by (auto simp: usages_le_def InsertOperandUsage_def Let_def mp_get_put)

lemma memory_le:
  "usages_le k s \<Longrightarrow> le2 k (lastStoreCycle d, lastStoreCycleInOrder d) \<Longrightarrow> le2 k (lastLoadCycle d, lastLoadCycleInOrder d)
    \<Longrightarrow> usages_le k (s\<lparr>LastUsageMemory := mp_put a d (LastUsageMemory s)\<rparr>)"
  by (auto simp: usages_le_def mp_get_put)

lemma memory_le':
  "usages_le k t \<Longrightarrow> LastUsageMemory t = m \<Longrightarrow> le2 k (lastStoreCycle d, lastStoreCycleInOrder d)
    \<Longrightarrow> le2 k (lastLoadCycle d, lastLoadCycleInOrder d) \<Longrightarrow> usages_le k (t\<lparr>LastUsageMemory := mp_put a d m\<rparr>)"
  using memory_le[of k t d a] by simp

lemma operand_cycles_le:
  assumes "usages_le k s" "unat (MaxIssueCycleInOrder s) \<le> k" "le2 (Suc k) cyc"
  shows "le2 (Suc k) (operand_cycles e s v cyc)"
  using assms le2_next2[OF Lookup_le[OF assms(1)], of v] le2_mono[OF Lookup_le[OF assms(1)], of "Suc k" v]
  by (simp add: operand_cycles_def le2_in_order)

lemma fold_operands_le:
  assumes "usages_le k s" "unat (MaxIssueCycleInOrder s) \<le> k" "le2 (Suc k) cyc"
  shows "le2 (Suc k) (fold (operand_cycles e s) vs cyc)"
  using assms(3) by (induction vs arbitrary: cyc) (simp_all add: operand_cycles_le[OF assms(1,2)])

lemma call_args_le:
  assumes "usages_le k s" "unat (MaxIssueCycleInOrder s) \<le> k" "le2 (Suc k) cyc"
  shows "le2 (Suc k) (fst (call_args e vs fs cyc s)) \<and> usages_le k (snd (call_args e vs fs cyc s))"
  using assms
proof (induction vs arbitrary: fs cyc s)
  case (Cons v vs)
  note cyc = operand_cycles_le[OF Cons.prems]
  show ?case
  proof (cases fs)
    case Nil
    then show ?thesis using Cons.IH[OF Cons.prems(1,2) cyc] by (simp add: Let_def)
  next
    case (Cons f gs)
    have "usages_le k (InsertOperandUsage (V_Other f) (LookupOperand v s) False (Some v) s)"
      "unat (MaxIssueCycleInOrder (InsertOperandUsage (V_Other f) (LookupOperand v s) False (Some v) s)) \<le> k"
      using Cons.prems(1,2) frame_insert[of s "V_Other f" "LookupOperand v s" False "Some v"]
      by (simp_all add: Insert_le Lookup_le frame_def)
    from Cons.IH[OF this cyc] show ?thesis by (simp add: Cons Let_def)
  qed
qed simp

lemma phi_cycles_le:
  assumes "usages_le k s" "unat (MaxIssueCycleInOrder s) \<le> k" "le2 (Suc k) cyc"
  shows "le2 (Suc k) (fst (phi_cycles e I ins cyc s)) \<and> usages_le (Suc k) (snd (phi_cycles e I ins cyc s))"
proof (induction ins)
  case (Cons x ins)
  obtain v bb where x: "x = (v, bb)" by (cases x)
  let ?a = "if \<not> valueIsConstantLike e v \<and> \<not> valueIsFunctionCall e v
    then in_order s (next2 (LookupOperand v s)) else LookupOperand v s"
  have a: "le2 (Suc k) ?a"
    using le2_next2[OF Lookup_le[OF assms(1)], of v] le2_mono[OF Lookup_le[OF assms(1)], of "Suc k" v] assms(2)
    by (simp add: le2_in_order)
  have "usages_le (Suc k) s" using usages_mono[OF assms(1)] by simp
  from Insert_le[OF this a] a assms(3) Cons show ?case by (simp add: x Let_def)
next
  case Nil
  have "usages_le (Suc k) s" using usages_mono[OF assms(1)] by simp
  then show ?case using assms(3) by simp
qed

lemma call_cycles_le:
  assumes "usages_le k s" "unat (MaxIssueCycleInOrder s) \<le> k" "le2 (Suc k) cyc"
    and run: "call_cycles e I cyc s = Some (cyc', s')"
  shows "le2 (Suc k) cyc' \<and> usages_le (Suc k) s'"
proof (cases "\<exists>f. ilp_callee e I = Some (Some f)")
  case False
  then have "cyc' = cyc" "s' = s" using run by (auto simp: call_cycles_def split: option.splits)
  then show ?thesis using assms(3) usages_mono[OF assms(1), of "Suc k"] by simp
next
  case True
  then obtain f where f: "ilp_callee e I = Some (Some f)" by blast
  note args = call_args_le[OF assms(1-3), of e "i_args I" "args_of e f"]
  have "usages_le (Suc k) (snd (call_args e (i_args I) (args_of e f) cyc s))"
    using args usages_mono by (meson le_SucI order_refl)
  then show ?thesis using run args by (auto simp: call_cycles_def f case_prod_unfold Let_def Insert_le)
qed

text \<open>Loads and stores, with both cases of the table of the memory in one.\<close>

definition no_dep :: MemoryDep where
  "no_dep = \<lparr>lastStoreCycle = 0, lastStoreCycleInOrder = 0, lastLoadCycle = 0, lastLoadCycleInOrder = 0,
     lastStoreIndex = 0, lastLoadIndex = 0\<rparr>"

definition known_dep :: "ilp \<Rightarrow> u64 \<Rightarrow> MemoryDep" where
  "known_dep s a = (case mp_get a (LastUsageMemory s) of Some d \<Rightarrow> d | None \<Rightarrow> no_dep)"

lemma Insert_memory [simp]: "LastUsageMemory (InsertOperandUsage v c b p s) = LastUsageMemory s"
  by (simp add: InsertOperandUsage_def Let_def)

lemma load_cyclesE:
  assumes "load_cycles e I cyc s = Some (cyc', s')"
  obtains op1 ty rest a n where "i_operands I = (op1, ty) # rest" "getMemoryAddress (tables e) (i_id I) (env_thread e) = Some a"
    "cyc' = (let c = in_order s (max2 cyc (next2 (LookupOperand op1 s))) in
       case mp_get a (LastUsageMemory s) of None \<Rightarrow> c
       | Some d \<Rightarrow> in_order s (max2 c (next2 (lastStoreCycle d, lastStoreCycleInOrder d))))"
    "s' = (InsertOperandUsage (V_Inst (i_id I)) cyc' True None s)\<lparr>LastUsageMemory := mp_put a
       ((known_dep s a)\<lparr>lastLoadCycle := max (lastLoadCycle (known_dep s a)) (fst cyc'),
          lastLoadCycleInOrder := max (lastLoadCycleInOrder (known_dep s a)) (snd cyc'), lastLoadIndex := n\<rparr>)
       (LastUsageMemory s)\<rparr>"
proof -
  from assms obtain op1 ty rest a where ops: "i_operands I = (op1, ty) # rest"
    "getMemoryAddress (tables e) (i_id I) (env_thread e) = Some a"
    by (auto simp: load_cycles_def split: list.splits option.splits)
  let ?n = "LookupValueStarIndex (V_Inst (i_id I)) (InsertOperandUsage (V_Inst (i_id I)) cyc' True None s)"
  show thesis
    by (rule that[OF ops, of ?n]; cases "mp_get a (LastUsageMemory s)")
      (use assms ops in \<open>auto simp: load_cycles_def known_dep_def no_dep_def Let_def\<close>)
qed

lemma store_cyclesE:
  assumes "store_cycles e I cyc s = Some (cyc', s')"
  obtains op1 ty op2 ty' rest a n where "i_operands I = (op1, ty) # (op2, ty') # rest"
    "getMemoryAddress (tables e) (i_id I) (env_thread e) = Some a"
    "cyc' = (let c = in_order s (max2 (max2 cyc (next2 (LookupOperand op1 s))) (next2 (LookupOperand op2 s))) in
       case mp_get a (LastUsageMemory s) of None \<Rightarrow> c
       | Some d \<Rightarrow> max2 (max2 c (next2 (lastStoreCycle d, lastStoreCycleInOrder d)))
           (next2 (lastLoadCycle d, lastLoadCycleInOrder d)))"
    "s' = (InsertOperandUsage op2 cyc' False (Some (V_Inst (i_id I)))
         (InsertOperandUsage (V_Inst (i_id I)) cyc' True None s))\<lparr>LastUsageMemory := mp_put a
       ((known_dep s a)\<lparr>lastStoreCycle := max (lastStoreCycle (known_dep s a)) (fst cyc'),
          lastStoreCycleInOrder := max (lastStoreCycleInOrder (known_dep s a)) (snd cyc'), lastStoreIndex := n\<rparr>)
       (LastUsageMemory s)\<rparr>"
proof -
  from assms obtain op1 ty op2 ty' rest a where ops: "i_operands I = (op1, ty) # (op2, ty') # rest"
    "getMemoryAddress (tables e) (i_id I) (env_thread e) = Some a"
    by (auto simp: store_cycles_def split: list.splits option.splits)
  let ?n = "LookupValueStarIndex (V_Inst (i_id I)) (InsertOperandUsage op2 cyc' False (Some (V_Inst (i_id I)))
    (InsertOperandUsage (V_Inst (i_id I)) cyc' True None s))"
  show thesis
    by (rule that[OF ops, of ?n]; cases "mp_get a (LastUsageMemory s)")
      (use assms ops in \<open>auto simp: store_cycles_def known_dep_def no_dep_def Let_def\<close>)
qed

lemma known_dep_le:
  "usages_le k s \<Longrightarrow> le2 k (lastStoreCycle (known_dep s a), lastStoreCycleInOrder (known_dep s a))
    \<and> le2 k (lastLoadCycle (known_dep s a), lastLoadCycleInOrder (known_dep s a))"
  by (auto simp: usages_le_def known_dep_def no_dep_def le2_def split: option.split)

lemma le2_max_pair [simp]: "le2 j (max a b, max c d) \<longleftrightarrow> le2 j (a, c) \<and> le2 j (b, d)"
  by (auto simp: le2_def unat_max)

lemma le2_pair: "le2 k (fst c, snd c) \<longleftrightarrow> le2 k c"
  by simp

lemma load_cycles_le:
  assumes "usages_le k s" "unat (MaxIssueCycleInOrder s) \<le> k" "le2 (Suc k) cyc"
    and run: "load_cycles e I cyc s = Some (cyc', s')"
  shows "le2 (Suc k) cyc' \<and> usages_le (Suc k) s'"
proof (rule load_cyclesE[OF run])
  fix op1 ty rest a n
  let ?c = "in_order s (max2 cyc (next2 (LookupOperand op1 s)))"
  let ?d = "known_dep s a"
  assume cyc': "cyc' = (let c = ?c in case mp_get a (LastUsageMemory s) of None \<Rightarrow> c
       | Some d \<Rightarrow> in_order s (max2 c (next2 (lastStoreCycle d, lastStoreCycleInOrder d))))"
    and s': "s' = (InsertOperandUsage (V_Inst (i_id I)) cyc' True None s)\<lparr>LastUsageMemory := mp_put a
       (?d\<lparr>lastLoadCycle := max (lastLoadCycle ?d) (fst cyc'),
          lastLoadCycleInOrder := max (lastLoadCycleInOrder ?d) (snd cyc'), lastLoadIndex := n\<rparr>)
       (LastUsageMemory s)\<rparr>"
  have c: "le2 (Suc k) ?c" using le2_next2[OF Lookup_le[OF assms(1)], of op1] assms(2,3) by (simp add: le2_in_order)
  note d = known_dep_le[OF assms(1), of a]
  have le: "le2 (Suc k) cyc'"
    using c assms(2) le2_next2[of k "(lastStoreCycle ?d, lastStoreCycleInOrder ?d)"] d
    by (auto simp: cyc' Let_def known_dep_def le2_in_order split: option.split)
  have "usages_le (Suc k) s" using usages_mono[OF assms(1)] by simp
  then have "usages_le (Suc k) s'" unfolding s'
    by (intro memory_le' Insert_le le) (use d le2_mono[of k _ "Suc k"] le in simp_all)
  with le show ?thesis by simp
qed

lemma store_cycles_le:
  assumes "usages_le k s" "unat (MaxIssueCycleInOrder s) \<le> k" "le2 (Suc k) cyc"
    and run: "store_cycles e I cyc s = Some (cyc', s')"
  shows "le2 (Suc k) cyc' \<and> usages_le (Suc k) s'"
proof (rule store_cyclesE[OF run])
  fix op1 ty op2 ty' rest a n
  let ?c = "in_order s (max2 (max2 cyc (next2 (LookupOperand op1 s))) (next2 (LookupOperand op2 s)))"
  let ?d = "known_dep s a"
  assume cyc': "cyc' = (let c = ?c in case mp_get a (LastUsageMemory s) of None \<Rightarrow> c
       | Some d \<Rightarrow> max2 (max2 c (next2 (lastStoreCycle d, lastStoreCycleInOrder d)))
           (next2 (lastLoadCycle d, lastLoadCycleInOrder d)))"
    and s': "s' = (InsertOperandUsage op2 cyc' False (Some (V_Inst (i_id I)))
         (InsertOperandUsage (V_Inst (i_id I)) cyc' True None s))\<lparr>LastUsageMemory := mp_put a
       (?d\<lparr>lastStoreCycle := max (lastStoreCycle ?d) (fst cyc'),
          lastStoreCycleInOrder := max (lastStoreCycleInOrder ?d) (snd cyc'), lastStoreIndex := n\<rparr>)
       (LastUsageMemory s)\<rparr>"
  have c: "le2 (Suc k) ?c"
    using le2_next2[OF Lookup_le[OF assms(1)]] assms(2,3) by (simp add: le2_in_order)
  note d = known_dep_le[OF assms(1), of a]
  have le: "le2 (Suc k) cyc'"
    using c le2_next2[of k "(lastStoreCycle ?d, lastStoreCycleInOrder ?d)"]
      le2_next2[of k "(lastLoadCycle ?d, lastLoadCycleInOrder ?d)"] d
    by (auto simp: cyc' Let_def known_dep_def split: option.split)
  have "usages_le (Suc k) s" using usages_mono[OF assms(1)] by simp
  then have "usages_le (Suc k) s'" unfolding s'
    by (intro memory_le' Insert_le le) (use d le2_mono[of k _ "Suc k"] le in simp_all)
  with le show ?thesis by simp
qed

lemma getInst_le:
  assumes "usages_le k s" "unat (MaxIssueCycleInOrder s) \<le> k" "le2 (Suc k) cyc"
    and "getInstIssueCycle e I cyc s = Some (cyc', s')"
  shows "le2 (Suc k) cyc' \<and> usages_le (Suc k) s'"
proof -
  have mono: "usages_le (Suc k) s" using usages_mono[OF assms(1)] by simp
  have "le2 (Suc k) (fst (other_cycles e I cyc s)) \<and> usages_le (Suc k) (snd (other_cycles e I cyc s))"
    using fold_operands_le[OF assms(1-3)] Insert_le[OF mono] by (simp add: other_cycles_def Let_def)
  moreover note phi_cycles_le[OF assms(1-3), of e I "i_incoming I"]
  ultimately show ?thesis
    using assms(4) call_cycles_le[OF assms(1-3)] load_cycles_le[OF assms(1-3)] store_cycles_le[OF assms(1-3)]
    by (auto simp: getInstIssueCycle_def split: if_splits)
qed

text \<open>The invariant of a run without window, after \<open>k\<close> visits.\<close>

definition ilp_bounded :: "nat \<Rightarrow> ilp \<Rightarrow> bool" where
  "ilp_bounded k s \<longleftrightarrow> window_size s = 0 \<and> usages_le k s \<and> le2 k (MaxIssueCycle s, MaxIssueCycleInOrder s)
     \<and> unat (MinIssueCycleForCtrl s) \<le> Suc k"

lemma update_spans_sel [simp]:
  "window_size (update_spans I cyc s) = window_size s" "LastUsageOperands (update_spans I cyc s) = LastUsageOperands s"
  "LastUsageMemory (update_spans I cyc s) = LastUsageMemory s" "MaxIssueCycle (update_spans I cyc s) = MaxIssueCycle s"
  "MaxIssueCycleInOrder (update_spans I cyc s) = MaxIssueCycleInOrder s"
  "MinIssueCycleForCtrl (update_spans I cyc s) = MinIssueCycleForCtrl s"
  "scheduler (update_spans I cyc s) = scheduler s" "scheduler_in_order (update_spans I cyc s) = scheduler_in_order s"
  by (simp_all add: update_spans_def)

lemma Insert_sel [simp]:
  "window_size (InsertOperandUsage v c b p s) = window_size s" "MaxIssueCycle (InsertOperandUsage v c b p s) = MaxIssueCycle s"
  "MaxIssueCycleInOrder (InsertOperandUsage v c b p s) = MaxIssueCycleInOrder s"
  "MinIssueCycleForCtrl (InsertOperandUsage v c b p s) = MinIssueCycleForCtrl s"
  "scheduler (InsertOperandUsage v c b p s) = scheduler s"
  "scheduler_in_order (InsertOperandUsage v c b p s) = scheduler_in_order s"
  by (simp_all add: InsertOperandUsage_def Let_def)

lemma unat_Suc_le: "unat (x :: u64) \<le> k \<Longrightarrow> unat (x + 1) \<le> Suc k"
  using le2_next2[of k "(x, x)"] by (simp add: le2_def next2_def)

lemma commit_bounded:
  assumes s: "usages_le k s" "window_size s = 0" "le2 k (MaxIssueCycle s, MaxIssueCycleInOrder s)"
    "unat (MinIssueCycleForCtrl s) \<le> k" and cyc: "le2 k cyc"
  shows "ilp_bounded k (snd (commit_cycle I cyc s))"
proof -
  have max: "le2 k (max (fst cyc) (MinIssueCycleForCtrl s), snd cyc)"
    using cyc s(4) by (simp add: le2_def unat_max)
  have usages: "usages_le k (update_spans I c t) = usages_le k t" for c t by (simp add: usages_le_def)
  have sel: "usages_le k (t\<lparr>prevBB := b\<rparr>) = usages_le k t" "usages_le k (t\<lparr>MinIssueCycleForCtrl := m\<rparr>) = usages_le k t"
    "usages_le k (t\<lparr>MaxIssueCycle := m, MaxIssueCycleInOrder := m'\<rparr>) = usages_le k t" for t b m m'
    by (simp_all add: usages_le_def)
  show ?thesis
    using s cyc max unat_Suc_le[of "max (fst cyc) (MinIssueCycleForCtrl s)" k]
    by (auto simp: commit_cycle_def ilp_bounded_def Let_def usages sel le2_def intro!: Insert_le)
qed

end
