(* ===== verification/Ilp_Theorems.thy ===== *)
theory Ilp_Theorems
  imports Ilp_Properties
begin

text \<open>The theorems on the ILP analysis.\<close>

subsection \<open>Runs\<close>

lemma visit_bounded:
  assumes "ilp_bounded k s" "ilp_visit e I s = Some s'"
  shows "ilp_bounded (Suc k) s'"
proof -
  have s: "window_size s = 0" "usages_le k s" "unat (MaxIssueCycleInOrder s) \<le> k" "start_cycles s = (0, 0)"
    using assms(1) by (simp_all add: ilp_bounded_def le2_def start_cycles_def)
  obtain cyc s1 where get: "getInstIssueCycle e I (0, 0) s = Some (cyc, s1)"
    using assms(2) by (auto simp: ilp_visit_def s(4) split: option.splits)
  have "le2 (Suc k) (0, 0)" by (simp add: le2_def)
  from getInst_le[OF s(2,3) this get] have cyc: "le2 (Suc k) cyc" "usages_le (Suc k) s1" by simp_all
  have fr: "frame s s1" by (rule getInst_frame[OF get])
  have s1: "window_size s1 = 0" "le2 (Suc k) (MaxIssueCycle s1, MaxIssueCycleInOrder s1)"
    "unat (MinIssueCycleForCtrl s1) \<le> Suc k"
    using fr assms(1) le2_mono[of k _ "Suc k"] by (auto simp: frame_def ilp_bounded_def)
  have "le2 (Suc k) (in_order s1 cyc)" using cyc(1) s1(2) by (auto simp: le2_def in_order_def unat_max)
  note commit = commit_bounded[OF cyc(2) s1 this, of I]
  have "ilp_bounded (Suc k) s1" using cyc(2) s1 by (auto simp: ilp_bounded_def)
  then show ?thesis
    using assms(2) commit
    by (auto simp: ilp_visit_def s(4) get Let_def schedule_def ilp_bounded_def case_prod_unfold split: if_splits)
qed

lemma return_bounded: "ilp_bounded k s \<Longrightarrow> ilp_bounded k (updateILPforCall r c s)"
  using Lookup_le[of k s r] Lookup_le[of k s c]
  by (auto simp: ilp_bounded_def updateILPforCall_def Let_def intro!: Insert_le) (simp_all add: le2_def)

definition visits :: "ilp_event list \<Rightarrow> nat" where
  "visits xs = length (filter (\<lambda>x. case x of Visit _ _ \<Rightarrow> True | Return _ _ \<Rightarrow> False) xs)"

lemma run_bounded:
  "ilp_bounded k s \<Longrightarrow> ilp_run xs s = Some s' \<Longrightarrow> ilp_bounded (k + visits xs) s'"
proof (induction xs arbitrary: k s)
  case (Cons x xs)
  show ?case
  proof (cases x)
    case (Visit e I)
    then obtain s1 where "ilp_visit e I s = Some s1" "ilp_run xs s1 = Some s'"
      using Cons.prems(2) by (auto split: option.splits)
    with Cons.IH[OF visit_bounded[OF Cons.prems(1)]] show ?thesis by (simp add: Visit visits_def)
  next
    case (Return r c)
    then show ?thesis using Cons.IH[OF return_bounded[OF Cons.prems(1)]] Cons.prems(2) by (simp add: visits_def)
  qed
qed (simp add: visits_def)

text \<open>The instructions for which the accesses of the code are defined.\<close>

definition visit_ok :: "ilp_env \<Rightarrow> instr \<Rightarrow> bool" where
  "visit_ok e I \<longleftrightarrow> (\<forall>n. getMemoryAddress (tables e) n (env_thread e) \<noteq> None)
     \<and> (i_opcode I = Op_Load \<longrightarrow> i_operands I \<noteq> []) \<and> (i_opcode I = Op_Store \<longrightarrow> 2 \<le> length (i_operands I))"

lemma getInst_some: "visit_ok e I \<Longrightarrow> \<exists>r. getInstIssueCycle e I cyc s = Some r"
proof -
  assume ok: "visit_ok e I"
  obtain m where "getMemoryAddress (tables e) (case i_callee I of Callee_Value a \<Rightarrow> a | _ \<Rightarrow> 0) (env_thread e) = Some m"
    using ok by (auto simp: visit_ok_def)
  then have "\<exists>r. call_cycles e I cyc s = Some r"
    by (auto simp: call_cycles_def ilp_callee_def case_prod_unfold Let_def split: option.split)
  moreover obtain a where "getMemoryAddress (tables e) (i_id I) (env_thread e) = Some a"
    using ok by (auto simp: visit_ok_def)
  then have "\<exists>r. load_cycles e I cyc s = Some r" if "i_opcode I = Op_Load"
    using ok that by (auto simp: visit_ok_def load_cycles_def Let_def split: option.split list.split)
  moreover have "\<exists>r. store_cycles e I cyc s = Some r" if "i_opcode I = Op_Store"
    using ok that \<open>getMemoryAddress _ _ _ = Some a\<close>
    by (auto simp: visit_ok_def store_cycles_def Let_def split: option.split list.split)
  ultimately show ?thesis by (auto simp: getInstIssueCycle_def simp del: split_paired_Ex)
qed

lemma visit_returns:
  assumes "visit_ok e I" "window_ok s"
  shows "\<exists>s'. ilp_visit e I s = Some s' \<and> window_ok s' \<and> window_size s' = window_size s"
proof -
  obtain cyc s1 where get: "getInstIssueCycle e I (start_cycles s) s = Some (cyc, s1)"
    using getInst_some[OF assms(1)] by (metis prod.exhaust)
  have ok: "window_ok s1" "window_size s1 = window_size s"
    using getInst_frame[OF get] assms(2) by (auto simp: frame_def window_ok_def)
  let ?r = "commit_cycle I (in_order s1 cyc) s1"
  have "window_ok (snd ?r) \<and> window_size (snd ?r) = window_size s"
    using ok by (auto simp: commit_cycle_def window_ok_def Let_def)
  then show ?thesis using schedule_some[of "snd ?r" "fst ?r"] ok
    by (auto simp: ilp_visit_def get Let_def case_prod_unfold)
qed

lemma return_window: "window_ok s \<Longrightarrow> window_ok (updateILPforCall r c s)
    \<and> window_size (updateILPforCall r c s) = window_size s"
  by (auto simp: updateILPforCall_def Let_def window_ok_def)

lemma run_returns:
  "\<lbrakk>\<forall>x \<in> set xs. case x of Visit e I \<Rightarrow> visit_ok e I | Return _ _ \<Rightarrow> True; window_ok s\<rbrakk>
    \<Longrightarrow> \<exists>s'. ilp_run xs s = Some s' \<and> window_ok s' \<and> window_size s' = window_size s"
proof (induction xs arbitrary: s)
  case (Cons x xs)
  show ?case
  proof (cases x)
    case (Visit e I)
    then obtain s1 where "ilp_visit e I s = Some s1" "window_ok s1" "window_size s1 = window_size s"
      using visit_returns[of e I s] Cons.prems by auto
    then show ?thesis using Cons.IH[of s1] Cons.prems(1) by (auto simp: Visit)
  next
    case (Return r c)
    then show ?thesis using Cons.IH[of "updateILPforCall r c s"] return_window[OF Cons.prems(2)] Cons.prems(1) by auto
  qed
qed simp

subsection \<open>Dependences\<close>

definition leq2 :: "cycles \<Rightarrow> cycles \<Rightarrow> bool" where
  "leq2 a b \<longleftrightarrow> fst a \<le> fst b \<and> snd a \<le> snd b"

lemma leq2_refl [simp]: "leq2 a a"
  by (simp add: leq2_def)

lemma leq2_trans: "leq2 a b \<Longrightarrow> leq2 b c \<Longrightarrow> leq2 a c"
  by (auto simp: leq2_def)

lemma leq2_max1 [simp]: "leq2 c a \<Longrightarrow> leq2 c (max2 a b)" and leq2_max2 [simp]: "leq2 c b \<Longrightarrow> leq2 c (max2 a b)"
  by (auto simp: leq2_def max2_def le_max_iff_disj)

lemma leq2_in_order [simp]: "leq2 c a \<Longrightarrow> leq2 c (in_order s a)"
  by (auto simp: leq2_def in_order_def le_max_iff_disj)

lemma operand_cycles_grow: "leq2 cyc (operand_cycles e s v cyc)"
  by (simp add: operand_cycles_def)

lemma fold_operands_grow: "leq2 cyc (fold (operand_cycles e s) vs cyc)"
  by (induction vs arbitrary: cyc) (simp, metis fold_simps(2) leq2_trans operand_cycles_grow)

lemma fold_operands_dep:
  "v \<in> set vs \<Longrightarrow> \<not> valueIsConstantLike e v \<Longrightarrow> leq2 (next2 (LookupOperand v s)) (fold (operand_cycles e s) vs cyc)"
proof (induction vs arbitrary: cyc)
  case (Cons w vs)
  show ?case
  proof (cases "w = v")
    case True
    have "leq2 (next2 (LookupOperand v s)) (operand_cycles e s v cyc)" using Cons.prems(2) by (simp add: operand_cycles_def)
    then show ?thesis using fold_operands_grow leq2_trans by (auto simp: True)
  qed (use Cons in simp)
qed simp

text \<open>LLVM's loads have one operand and its stores two.\<close>

definition operand_counts :: "instr \<Rightarrow> bool" where
  "operand_counts I \<longleftrightarrow> (i_opcode I = Op_Load \<longrightarrow> length (i_operands I) = 1)
     \<and> (i_opcode I = Op_Store \<longrightarrow> length (i_operands I) = 2)"

lemma fold_operands_phi:
  "v \<in> set vs \<Longrightarrow> is_phi e v \<Longrightarrow> leq2 (LookupOperand v s) (fold (operand_cycles e s) vs cyc)"
proof (induction vs arbitrary: cyc)
  case (Cons w vs)
  show ?case
  proof (cases "w = v")
    case True
    have "leq2 (LookupOperand v s) (operand_cycles e s v cyc)" using Cons.prems(2) by (simp add: operand_cycles_def valueIsConstantLike_def)
    then show ?thesis using fold_operands_grow leq2_trans by (auto simp: True)
  qed (use Cons in simp)
qed simp

text \<open>The registers among the operands, and the cycles after which they can be used: a phi has no cycle of its own, so that
  an instruction other than a load or store can use it in the cycle that it is given.\<close>

definition is_register :: "ir_value \<Rightarrow> bool" where
  "is_register v \<longleftrightarrow> \<not> isa_Constant v \<and> (case v of V_Block _ \<Rightarrow> False | _ \<Rightarrow> True)"

definition ready :: "ilp_env \<Rightarrow> instr \<Rightarrow> ir_value \<Rightarrow> ilp \<Rightarrow> cycles" where
  "ready e I v s = (if is_phi e v \<and> i_opcode I \<noteq> Op_Load \<and> i_opcode I \<noteq> Op_Store then LookupOperand v s
     else next2 (LookupOperand v s))"

lemma getInst_dep:
  assumes "getInstIssueCycle e I cyc s = Some (cyc', s')" "operand_counts I" "i_opcode I \<notin> {Op_PHI, Op_Call}"
    and v: "v \<in> set (map fst (i_operands I))" "is_register v"
  shows "leq2 (ready e I v s) cyc'"
proof -
  consider "i_opcode I = Op_Load" | "i_opcode I = Op_Store" | "i_opcode I \<notin> {Op_PHI, Op_Call, Op_Load, Op_Store}"
    using assms(3) by auto
  then show ?thesis
  proof cases
    case 1
    then have "load_cycles e I cyc s = Some (cyc', s')" using assms(1) by (simp add: getInstIssueCycle_def)
    then show ?thesis
      by (rule load_cyclesE) (use v(1) assms(2) 1 in \<open>auto simp: ready_def operand_counts_def Let_def split: option.splits\<close>)
  next
    case 2
    then have "store_cycles e I cyc s = Some (cyc', s')" using assms(1) by (simp add: getInstIssueCycle_def)
    then show ?thesis
      by (rule store_cyclesE) (use v(1) assms(2) 2 in \<open>auto simp: ready_def operand_counts_def Let_def split: option.splits\<close>)
  next
    case 3
    then have "cyc' = fold (operand_cycles e s) (map fst (i_operands I)) cyc"
      using assms(1) by (auto simp: getInstIssueCycle_def other_cycles_def Let_def)
    moreover have "\<not> valueIsConstantLike e v" if "\<not> is_phi e v"
      using v(2) that by (auto simp: is_register_def valueIsConstantLike_def split: ir_value.splits)
    ultimately show ?thesis using fold_operands_dep[OF v(1)] fold_operands_phi[OF v(1)] 3 by (simp add: ready_def)
  qed
qed

text \<open>The cycle that a visit records for its instruction is not before the computed one.\<close>

lemma Lookup_Insert:
  "mp_ok (LastUsageOperands s) \<Longrightarrow> \<not> isa_Constant v \<Longrightarrow> LookupOperand v (InsertOperandUsage v c b p s) = c"
  by (simp add: LookupOperand_def InsertOperandUsage_def Let_def)

lemma Insert_usage_ok: "mp_ok (LastUsageOperands s) \<Longrightarrow> mp_ok (LastUsageOperands (InsertOperandUsage v c b p s))"
  by (simp add: InsertOperandUsage_def Let_def)

lemma commit_lookup:
  assumes "mp_ok (LastUsageOperands s)"
  shows "leq2 cyc (LookupOperand (V_Inst (i_id I)) (snd (commit_cycle I cyc s)))
    \<and> (getInstType I \<noteq> CTRL_TYPE \<longrightarrow> LookupOperand (V_Inst (i_id I)) (snd (commit_cycle I cyc s)) = cyc)"
proof -
  have cong: "LookupOperand v s' = LookupOperand v s''" if "LastUsageOperands s' = LastUsageOperands s''" for v s' s''
    using that by (simp add: LookupOperand_def)
  define c where "c = (if ilp_ctrl s \<and> getInstType I = CTRL_TYPE then (max (fst cyc) (MinIssueCycleForCtrl s), snd cyc) else cyc)"
  define t where "t = (if ilp_ctrl s \<and> getInstType I = CTRL_TYPE
    then s\<lparr>MinIssueCycleForCtrl := max (fst cyc) (MinIssueCycleForCtrl s) + 1\<rparr> else s)"
  have "LookupOperand (V_Inst (i_id I)) (snd (commit_cycle I cyc s))
      = LookupOperand (V_Inst (i_id I)) (InsertOperandUsage (V_Inst (i_id I)) c False None t)"
    by (rule cong) (simp add: commit_cycle_def c_def t_def Let_def)
  also have "\<dots> = c" using assms by (intro Lookup_Insert) (simp_all add: t_def isa_Constant_def)
  finally show ?thesis by (simp add: c_def leq2_def)
qed

lemma commit_memory: "LastUsageMemory (snd (commit_cycle I cyc s)) = LastUsageMemory s"
  by (simp add: commit_cycle_def Let_def)

lemma schedule_lookup:
  "schedule cyc s = Some s' \<Longrightarrow> LookupOperand v s' = LookupOperand v s \<and> LastUsageMemory s' = LastUsageMemory s"
  by (auto simp: schedule_def LookupOperand_def bind_eq_Some split: if_splits)

lemma Insert_ok2: "mp_ok (LastUsageOperands s) \<Longrightarrow> mp_ok (LastUsageOperands (snd (call_args e vs fs cyc s)))"
proof (induction vs arbitrary: fs cyc s)
  case (Cons v vs)
  then show ?case by (cases fs) (simp_all add: Let_def Insert_usage_ok)
qed simp

lemma getInst_operands_ok:
  assumes "mp_ok (LastUsageOperands s)" "getInstIssueCycle e I cyc s = Some (cyc', s')" "i_opcode I \<noteq> Op_PHI"
  shows "mp_ok (LastUsageOperands s')"
proof -
  have "call_cycles e I cyc s = Some (cyc', s') \<Longrightarrow> ?thesis"
    using assms(1) by (auto simp: call_cycles_def case_prod_unfold Let_def Insert_usage_ok Insert_ok2 split: option.splits)
  moreover have "load_cycles e I cyc s = Some (cyc', s') \<Longrightarrow> ?thesis"
    by (erule load_cyclesE) (simp add: Insert_usage_ok assms(1))
  moreover have "store_cycles e I cyc s = Some (cyc', s') \<Longrightarrow> ?thesis"
    by (erule store_cyclesE) (simp add: Insert_usage_ok assms(1))
  moreover have "other_cycles e I cyc s = (cyc', s') \<Longrightarrow> ?thesis"
    by (auto simp: other_cycles_def Let_def Insert_usage_ok assms(1))
  ultimately show ?thesis using assms(2,3) by (auto simp: getInstIssueCycle_def split: if_splits)
qed

lemma visit_lookup:
  assumes "mp_ok (LastUsageOperands s)" "ilp_visit e I s = Some s'" "i_opcode I \<noteq> Op_PHI"
    and "\<not> (ilp_ignore_ctrl s \<and> getInstType I = CTRL_TYPE)"
  obtains cyc s1 where "getInstIssueCycle e I (start_cycles s) s = Some (cyc, s1)"
    "leq2 (in_order s cyc) (LookupOperand (V_Inst (i_id I)) s')" "LastUsageMemory s' = LastUsageMemory s1"
    "getInstType I \<noteq> CTRL_TYPE \<Longrightarrow> LookupOperand (V_Inst (i_id I)) s' = in_order s cyc"
proof -
  obtain cyc s1 where get: "getInstIssueCycle e I (start_cycles s) s = Some (cyc, s1)"
    using assms(2) by (auto simp: ilp_visit_def split: option.splits)
  have fr: "frame s s1" by (rule getInst_frame[OF get])
  then have io: "in_order s1 c = in_order s c" for c by (simp add: in_order_def frame_def)
  have "schedule (fst (commit_cycle I (in_order s1 cyc) s1)) (snd (commit_cycle I (in_order s1 cyc) s1)) = Some s'"
    using assms(2-4) fr by (auto simp: ilp_visit_def get Let_def case_prod_unfold frame_def split: if_splits)
  from schedule_lookup[OF this, of "V_Inst (i_id I)"]
    commit_lookup[OF getInst_operands_ok[OF assms(1) get assms(3)], of "in_order s1 cyc" I]
  show thesis using that[OF get] by (simp add: io commit_memory)
qed

subsection \<open>The theorems\<close>

definition ilp_tables :: shared_tables where
  "ilp_tables = \<lparr>max_expected_threads = 1, InitializedThreads = [True], MemoryForThreads = [[(1, 64), (2, 64)]],
     FunctionsAddresses = []\<rparr>"

definition ilp_example_env :: ilp_env where
  "ilp_example_env = \<lparr>opcode_of = (\<lambda>_. None), args_of = (\<lambda>_. []), tables = ilp_tables, memory = (\<lambda>_. 0), env_thread = 0\<rparr>"

definition ilp_store :: instr where
  "ilp_store = (plain_instr 1 Op_Store)\<lparr>i_operands := [(V_Other 8, IntegerTy 32), (V_Other 9, PointerTy (IntegerTy 32))]\<rparr>"

definition ilp_load :: instr where
  "ilp_load = (plain_instr 2 Op_Load)\<lparr>i_operands := [(V_Other 9, PointerTy (IntegerTy 32))]\<rparr>"

lemmas ilp_examples = ilp_tables_def ilp_example_env_def ilp_store_def ilp_load_def plain_instr_def

lemma ilp_example_ok: "visit_ok ilp_example_env ilp_store" "visit_ok ilp_example_env ilp_load"
  by (auto simp: visit_ok_def ilp_examples getMemoryAddress_def split: option.split)

text \<open>C28: The ILP analysis always returns: for every sequence of visits and returns for which the accesses
  to the tables are defined, whatever the size of the window, the loops that release full windows end,
  and afterwards both windows have room for another instruction.\<close>

theorem ilp_run_returns:
  assumes "\<forall>x \<in> set xs. case x of Visit e I \<Rightarrow> visit_ok e I | Return _ _ \<Rightarrow> True"
  shows "\<exists>s. ilp_run xs (ILP ignore_ctrl ctrl ws) = Some s
    \<and> (ws \<noteq> 0 \<longrightarrow> length (scheduler s) < ws \<and> length (scheduler_in_order s) < ws)"
  using run_returns[OF assms, of "ILP ignore_ctrl ctrl ws"] by (auto simp: ILP_def window_ok_def)

lemma ilp_run_returns_witness:
  "\<exists>s. ilp_run [Visit ilp_example_env ilp_store, Return (V_Inst 1) (V_Inst 2), Visit ilp_example_env ilp_load] (ILP False True 1) = Some s
    \<and> length (scheduler s) < 1"
  using ilp_run_returns[of "[Visit ilp_example_env ilp_store, Return (V_Inst 1) (V_Inst 2), Visit ilp_example_env ilp_load]" False True 1]
  by (auto simp: ilp_example_ok simp del: ilp_run.simps)

text \<open>The spans in the output, of the out-of-order and of the in-order machine.\<close>

fun printed_spans :: "json_event list \<Rightarrow> u64 list" where
  "printed_spans (JString k # JUint64 n # es) = (if k = ''span'' then n # printed_spans es else printed_spans es)"
| "printed_spans (_ # es) = printed_spans es"
| "printed_spans [] = []"

lemma printed_spans_dump: "printed_spans (ilp_JSONdump mix s) = [MaxIssueCycle s + 1, MaxIssueCycleInOrder s + 1]"
  by (simp add: ilp_JSONdump_def ilp_statistics_def span_events_def)

text \<open>C29: Without a scheduling window the two spans that are printed (one more than the latest cycle, since cycles begin with 0)
  are at most one more than the number of visits: after \<open>n\<close> visits no instruction has a later cycle
  than \<open>n\<close> on either machine.\<close>

theorem ilp_span_bound:
  assumes "ilp_run xs (ILP ignore_ctrl ctrl 0) = Some s"
  shows "\<exists>ooo io. printed_spans (ilp_JSONdump mix s) = [ooo, io] \<and> unat ooo \<le> visits xs + 1 \<and> unat io \<le> visits xs + 1"
proof -
  have "ilp_bounded 0 (ILP ignore_ctrl ctrl 0)" by (simp add: ilp_bounded_def ILP_def usages_le_def le2_def)
  from run_bounded[OF this assms] have "unat (MaxIssueCycle s) \<le> visits xs" "unat (MaxIssueCycleInOrder s) \<le> visits xs"
    by (simp_all add: ilp_bounded_def le2_def)
  moreover have "unat (c + 1) \<le> unat c + 1" for c :: u64 by (simp add: unat_word_ariths)
  ultimately have "unat (MaxIssueCycle s + 1) \<le> visits xs + 1" "unat (MaxIssueCycleInOrder s + 1) \<le> visits xs + 1"
    by (meson add_le_mono1 order_trans)+
  then show ?thesis by (simp add: printed_spans_dump)
qed

lemma ilp_span_bound_witness:
  "\<exists>s ooo io. ilp_run [Visit ilp_example_env ilp_load] (ILP False False 0) = Some s
    \<and> printed_spans (ilp_JSONdump instr_mix_init s) = [ooo, io] \<and> unat ooo \<le> 2 \<and> unat io \<le> 2"
proof -
  obtain s where s: "ilp_run [Visit ilp_example_env ilp_load] (ILP False False 0) = Some s"
    using run_returns[of "[Visit ilp_example_env ilp_load]" "ILP False False 0"]
    by (auto simp: ilp_example_ok window_ok_def ILP_def simp del: ilp_run.simps)
  have "visits [Visit ilp_example_env ilp_load] + 1 = 2" by (simp add: visits_def)
  then show ?thesis using ilp_span_bound[OF s, of instr_mix_init] s by metis
qed

text \<open>C26: An instruction is issued after its operands: the cycles that are recorded for a visited instruction (no
  phi, no call, and not a control instruction that is ignored) are at least those in which every register among its operands
  is ready, on both machines, and on the in-order machine not before the latest cycle so far.  A register is
  ready one cycle after the cycle that is recorded for it (for a call that is the cycle of the return, if it is later); the result of
  a phi is ready in the cycle that is recorded for the phi itself, except for loads and stores, which wait one cycle for it too.\<close>

theorem ilp_dependences:
  assumes "mp_ok (LastUsageOperands s)" "ilp_visit e I s = Some s'" "operand_counts I"
    and "i_opcode I \<notin> {Op_PHI, Op_Call}" "\<not> (ilp_ignore_ctrl s \<and> getInstType I = CTRL_TYPE)"
    and "v \<in> set (map fst (i_operands I))" "is_register v"
  shows "fst (ready e I v s) \<le> fst (LookupOperand (V_Inst (i_id I)) s')
    \<and> snd (ready e I v s) \<le> snd (LookupOperand (V_Inst (i_id I)) s')
    \<and> MaxIssueCycleInOrder s \<le> snd (LookupOperand (V_Inst (i_id I)) s')"
proof -
  have phi: "i_opcode I \<noteq> Op_PHI" using assms(4) by simp
  obtain cyc s1 where get: "getInstIssueCycle e I (start_cycles s) s = Some (cyc, s1)"
    and le: "leq2 (in_order s cyc) (LookupOperand (V_Inst (i_id I)) s')"
    by (rule visit_lookup[OF assms(1,2) phi assms(5)])
  have "leq2 (ready e I v s) (LookupOperand (V_Inst (i_id I)) s')"
    using leq2_trans[OF leq2_in_order[OF getInst_dep[OF get assms(3,4,6,7)]] le] .
  then show ?thesis using le by (auto simp: leq2_def in_order_def)
qed

lemma ilp_dependences_witness:
  "\<exists>s'. ilp_visit ilp_example_env ilp_load (ILP False False 4) = Some s' \<and> 1 \<le> fst (LookupOperand (V_Inst 2) s')"
proof -
  obtain s' where s': "ilp_visit ilp_example_env ilp_load (ILP False False 4) = Some s'"
    using visit_returns[OF ilp_example_ok(2), of "ILP False False 4"] by (auto simp: window_ok_def ILP_def)
  have "mp_ok (LastUsageOperands (ILP False False 4))" by (simp add: ILP_def)
  from ilp_dependences[OF this s', of "V_Other 9"] have "1 \<le> fst (LookupOperand (V_Inst 2) s')"
    by (simp add: ilp_examples operand_counts_def is_register_def ready_def next2_def isa_Constant_def is_phi_def LookupOperand_def ILP_def)
  with s' show ?thesis by blast
qed

text \<open>C27: Accesses to the same address keep their order: a load is issued after the last store to its
  address, a store after the last store and the last load, if there was one; and the table then holds
  the access, without going back for earlier ones.\<close>

theorem ilp_memory_order:
  assumes "mp_ok (LastUsageOperands s)" "mp_ok (LastUsageMemory s)" "ilp_visit e I s = Some s'"
    and "i_opcode I = Op_Load \<or> i_opcode I = Op_Store" "getInstType I \<noteq> CTRL_TYPE"
    and addr: "getMemoryAddress (tables e) (i_id I) (env_thread e) = Some a"
  shows "(\<forall>d. mp_get a (LastUsageMemory s) = Some d \<longrightarrow>
        lastStoreCycle d + 1 \<le> fst (LookupOperand (V_Inst (i_id I)) s')
        \<and> (i_opcode I = Op_Store \<longrightarrow> lastLoadCycle d + 1 \<le> fst (LookupOperand (V_Inst (i_id I)) s')))
    \<and> lastStoreCycle (known_dep s a) \<le> lastStoreCycle (known_dep s' a)
    \<and> lastLoadCycle (known_dep s a) \<le> lastLoadCycle (known_dep s' a)
    \<and> fst (LookupOperand (V_Inst (i_id I)) s')
      \<le> (if i_opcode I = Op_Store then lastStoreCycle (known_dep s' a) else lastLoadCycle (known_dep s' a))"
proof -
  have phi: "i_opcode I \<noteq> Op_PHI" "\<not> (ilp_ignore_ctrl s \<and> getInstType I = CTRL_TYPE)" using assms(4,5) by auto
  obtain cyc s1 where get: "getInstIssueCycle e I (start_cycles s) s = Some (cyc, s1)"
    and mem: "LastUsageMemory s' = LastUsageMemory s1" and look: "LookupOperand (V_Inst (i_id I)) s' = in_order s cyc"
    using visit_lookup[OF assms(1,3) phi] assms(5) by metis
  have fst_io: "fst (in_order s c) = fst c" for c by (simp add: in_order_def)
  have known: "known_dep s' a = known_dep s1 a" by (simp add: known_dep_def mem)
  show ?thesis
  proof (cases "i_opcode I = Op_Load")
    case True
    then have "load_cycles e I (start_cycles s) s = Some (cyc, s1)" using get by (simp add: getInstIssueCycle_def)
    then show ?thesis unfolding look known fst_io
      by (rule load_cyclesE) (use addr assms(2) True in \<open>auto simp: known_dep_def Let_def fst_io max2_def next2_def le_max_iff_disj\<close>)
  next
    case False
    then have "store_cycles e I (start_cycles s) s = Some (cyc, s1)" using get assms(4) by (simp add: getInstIssueCycle_def)
    then show ?thesis unfolding look known fst_io
      by (rule store_cyclesE) (use addr assms(2,4) False in \<open>auto simp: known_dep_def Let_def fst_io max2_def next2_def le_max_iff_disj\<close>)
  qed
qed

lemma ilp_memory_order_witness:
  "\<exists>s'. ilp_visit ilp_example_env ilp_load
      (ILP False False 0\<lparr>LastUsageMemory := [(64, no_dep\<lparr>lastStoreCycle := 6\<rparr>)]\<rparr>) = Some s'
    \<and> 7 \<le> fst (LookupOperand (V_Inst 2) s')"
proof -
  let ?s = "ILP False False 0\<lparr>LastUsageMemory := [(64, no_dep\<lparr>lastStoreCycle := 6\<rparr>)]\<rparr>"
  obtain s' where s': "ilp_visit ilp_example_env ilp_load ?s = Some s'"
    using visit_returns[OF ilp_example_ok(2), of ?s] by (auto simp: window_ok_def ILP_def)
  have "mp_ok (LastUsageOperands ?s)" "mp_ok (LastUsageMemory ?s)" by (simp_all add: ILP_def mp_ok_def)
  from ilp_memory_order[OF this s', of 64] have "7 \<le> fst (LookupOperand (V_Inst 2) s')"
    by (simp add: ilp_examples getMemoryAddress_def mp_get_def getInstType_def getMemoryInstType_def
        operand_type_def load_type_of_def)
  with s' show ?thesis by blast
qed

text \<open>C37: With \<open>ANALYZE_ILP_IGNORE_CTRL\<close> the block of a control instruction is not remembered: when a
  block holds nothing but its branch, a phi of the next block finds no incoming value and its result
  keeps the cycle of its last usage.\<close>

theorem ilp_ignored_block_lost:
  assumes "ilp_ignore_ctrl s" "getInstType B = CTRL_TYPE" "ilp_visit e B s = Some s1"
    and "i_opcode P = Op_PHI" "\<forall>(v, bb) \<in> set (i_incoming P). Some bb \<noteq> prevBB s"
  shows "prevBB s1 = prevBB s \<and> ilp_visit e P s1 = Some s1"
proof -
  obtain cyc s0 where get: "getInstIssueCycle e B (start_cycles s) s = Some (cyc, s0)"
    using assms(3) by (auto simp: ilp_visit_def split: option.splits)
  have fr: "frame s s0" by (rule getInst_frame[OF get])
  then have s1: "s1 = s0" using assms(1-3) by (auto simp: ilp_visit_def get frame_def Let_def split: if_splits)
  then have bb: "prevBB s1 = prevBB s" using fr by (simp add: frame_def)
  have "phi_cycles e P ins c s1 = (c, s1)" if "\<forall>(v, bb) \<in> set ins. Some bb \<noteq> prevBB s1" for ins c
    using that by (induction ins) auto
  then have "phi_cycles e P (i_incoming P) c s1 = (c, s1)" for c using assms(5) bb by simp
  then show ?thesis using bb assms(4) by (simp add: ilp_visit_def getInstIssueCycle_def Let_def)
qed

definition ilp_br :: instr where
  "ilp_br = (plain_instr 3 Op_Br)\<lparr>i_block := 1\<rparr>"

definition ilp_phi :: instr where
  "ilp_phi = (plain_instr 4 Op_PHI)\<lparr>i_block := 2, i_incoming := [(V_Inst 1, 1)]\<rparr>"

lemma ilp_ignored_block_lost_witness:
  "\<exists>s1. ilp_visit ilp_example_env ilp_br (ILP True False 0) = Some s1
    \<and> ilp_visit ilp_example_env ilp_phi s1 = Some s1"
proof -
  have ok: "visit_ok ilp_example_env ilp_br" using ilp_example_ok by (simp add: visit_ok_def ilp_br_def plain_instr_def)
  obtain s1 where s1: "ilp_visit ilp_example_env ilp_br (ILP True False 0) = Some s1"
    using visit_returns[OF ok, of "ILP True False 0"] by (auto simp: window_ok_def ILP_def)
  have "ilp_ignore_ctrl (ILP True False 0)" "getInstType ilp_br = CTRL_TYPE" "i_opcode ilp_phi = Op_PHI"
    "\<forall>(v, bb) \<in> set (i_incoming ilp_phi). Some bb \<noteq> prevBB (ILP True False 0)"
    by (simp_all add: ILP_def ilp_br_def ilp_phi_def plain_instr_def getInstType_def)
  from ilp_ignored_block_lost[OF this(1,2) s1 this(3,4)] s1 show ?thesis by blast
qed

text \<open>The output of the ILP analysis is one well formed member of an object.\<close>

lemma ilp_JSONdump_wf: "json_members (ilp_JSONdump mix s)"
proof -
  have stats: "json_members (ilp_statistics mix a b c d f)" for a b c d f
    unfolding ilp_statistics_def span_events_def
    by (intro json_members_append) (intro json_member_uint json_member_double json_members_Nil)+
  show ?thesis unfolding ilp_JSONdump_def
    by (rule json_member[where es = "[]", simplified], rule json_value_array, rule json_one_value_element,
        rule json_value_object, rule json_member_uint)
      (intro json_member json_value_object stats json_members_Nil)+
qed

end
