(* ===== verification/Small_Analyses.thy ===== *)
theory Small_Analyses
  imports Inst_Analysis Cpp_Map Json_Events
    "HOL-Library.List_Lexorder" "HOL-Library.Char_ord"
begin

text \<open>
  Three analyses with a small state: the accesses to registers (\<open>library/RegisterCount.cc\<close>), the
  calls of external functions (\<open>library/ExternalLibraryCount.cc\<close>) and the trace of loads and stores
  (\<open>library/LoadStoreVerbose.cc\<close>).
\<close>

subsection \<open>RegisterCount\<close>

record register_count =
  RCreads :: "(nat, u64) cmap"
  RCwrites :: "(nat, u64) cmap"
  count_r :: u64

definition RegisterCount :: register_count where
  "RegisterCount = \<lparr>RCreads = [], RCwrites = [], count_r = 0\<rparr>"

fun rc_operands :: "ir_value list \<Rightarrow> register_count \<Rightarrow> register_count" where
  "rc_operands [] s = s"
| "rc_operands (v # vs) s = rc_operands vs
     (if isa_Constant v then s
      else s\<lparr>count_r := count_r s + 1, RCreads := mp_insert (value_addr v) 0 (RCreads s)\<rparr>)"

definition rc_visit :: "instr \<Rightarrow> register_count \<Rightarrow> register_count" where
  "rc_visit I s = rc_operands (map fst (i_operands I)) (s\<lparr>RCwrites := mp_bump (i_id I) (RCwrites s)\<rparr>)"

definition rc_writes :: "register_count \<Rightarrow> u64" where
  "rc_writes s = sum_list (map (\<lambda>(k, n). if mp_get k (RCreads s) \<noteq> None then n else 0) (RCwrites s))"

definition rc_JSONdump :: "register_count \<Rightarrow> json_event list" where
  "rc_JSONdump s = JString ''registerAccesses'' # (StartObject #
     [JString ''reads'', JUint64 (count_r s), JString ''writes'', JUint64 (rc_writes s)] @ [EndObject])"

definition rc_run :: "instr list \<Rightarrow> register_count \<Rightarrow> register_count" where
  "rc_run xs s = fold rc_visit xs s"

text \<open>The registers that an instruction reads.\<close>

definition registers :: "instr \<Rightarrow> nat list" where
  "registers I = map value_addr (filter (\<lambda>v. \<not> isa_Constant v) (map fst (i_operands I)))"

lemma rc_operands_eq:
  assumes "mp_ok (RCreads s)"
  shows "mp_ok (RCreads (rc_operands vs s)) \<and> RCwrites (rc_operands vs s) = RCwrites s
    \<and> count_r (rc_operands vs s) = count_r s + of_nat (length (filter (\<lambda>v. \<not> isa_Constant v) vs))
    \<and> mp_keys (RCreads (rc_operands vs s)) = mp_keys (RCreads s) \<union> value_addr ` {v \<in> set vs. \<not> isa_Constant v}"
  using assms
proof (induction vs arbitrary: s)
  case (Cons v vs)
  show ?case
  proof (cases "isa_Constant v")
    case True
    then show ?thesis using Cons by (auto simp: conj_commute)
  next
    case False
    let ?s = "s\<lparr>count_r := count_r s + 1, RCreads := mp_insert (value_addr v) 0 (RCreads s)\<rparr>"
    have "mp_ok (RCreads ?s)" using Cons.prems by simp
    from Cons.IH[OF this] show ?thesis using False by auto
  qed
qed simp

text \<open>The sum of the counts of the keys in a set.\<close>

definition total_in :: "'k set \<Rightarrow> ('k, u64) cmap \<Rightarrow> u64" where
  "total_in K m = sum_list (map (\<lambda>(k, n). if k \<in> K then n else 0) m)"

lemma total_in_put:
  "mp_ok m \<Longrightarrow> total_in K (mp_put k v m)
    = total_in K m + (if k \<in> K then v - (case mp_get k m of None \<Rightarrow> 0 | Some n \<Rightarrow> n) else 0)"
proof (induction k v m rule: mp_put.induct)
  case (2 k v k' v' m)
  have "k < k' \<Longrightarrow> mp_get k m = None" using 2(2) by (force simp: mp_ok_Cons mp_get_None_iff)
  then show ?case using 2 by (auto simp: mp_ok_Cons mp_get_def total_in_def)
qed (simp add: total_in_def)

lemma total_in_bump: "mp_ok m \<Longrightarrow> total_in K (mp_bump k m) = total_in K m + (if k \<in> K then 1 else 0)"
  by (auto simp: mp_bump_def total_in_put split: option.split)

lemma rc_writes_total: "rc_writes s = total_in (mp_keys (RCreads s)) (RCwrites s)"
proof -
  have "mp_get k (RCreads s) \<noteq> None \<longleftrightarrow> k \<in> mp_keys (RCreads s)" for k by (simp add: mp_get_None_iff)
  then show ?thesis by (simp add: rc_writes_def total_in_def)
qed

lemma rc_run_eq:
  assumes "mp_ok (RCreads s)" "mp_ok (RCwrites s)"
  shows "mp_keys (RCreads (rc_run xs s)) = mp_keys (RCreads s) \<union> (\<Union>I \<in> set xs. set (registers I))
    \<and> total_in K (RCwrites (rc_run xs s)) = total_in K (RCwrites s) + of_nat (length (filter (\<lambda>I. i_id I \<in> K) xs))
    \<and> count_r (rc_run xs s) = count_r s + of_nat (sum_list (map (length \<circ> registers) xs))"
  using assms
proof (induction xs arbitrary: s)
  case (Cons I xs)
  let ?s = "s\<lparr>RCwrites := mp_bump (i_id I) (RCwrites s)\<rparr>"
  have ok: "mp_ok (RCreads ?s)" using Cons.prems by simp
  note step = rc_operands_eq[OF ok, of "map fst (i_operands I)"]
  have regs: "set (registers I) = value_addr ` {v \<in> set (map fst (i_operands I)). \<not> isa_Constant v}"
    "length (registers I) = length (filter (\<lambda>v. \<not> isa_Constant v) (map fst (i_operands I)))"
    by (simp_all add: registers_def)
  have ok': "mp_ok (RCreads (rc_visit I s))" "mp_ok (RCwrites (rc_visit I s))"
    using step Cons.prems by (simp_all add: rc_visit_def)
  show ?case using Cons.IH[OF ok'] step Cons.prems total_in_bump[of "RCwrites s" K "i_id I"]
    unfolding rc_run_def by (auto simp: rc_visit_def regs Un_assoc add.assoc simp del: set_map)
qed (simp add: rc_run_def)

text \<open>\<open>RegisterCount\<close> reports as reads the number of register operands of the executed
  instructions, and as writes the number of executed instructions whose result is an operand of
  some executed instruction.\<close>

theorem register_counts_exact:
  "rc_JSONdump (rc_run xs RegisterCount) = JString ''registerAccesses'' # StartObject #
     [JString ''reads'', JUint64 (of_nat (sum_list (map (length \<circ> registers) xs))),
      JString ''writes'', JUint64 (of_nat (length (filter (\<lambda>I. \<exists>J \<in> set xs. i_id I \<in> set (registers J)) xs))),
      EndObject]"
proof -
  have ok: "mp_ok (RCreads RegisterCount)" "mp_ok (RCwrites RegisterCount)" by (simp_all add: RegisterCount_def)
  let ?K = "\<Union>J \<in> set xs. set (registers J)"
  have keys: "mp_keys (RCreads (rc_run xs RegisterCount)) = ?K"
    using rc_run_eq[OF ok, of xs ?K] by (simp add: RegisterCount_def)
  have "rc_writes (rc_run xs RegisterCount) = of_nat (length (filter (\<lambda>I. i_id I \<in> ?K) xs))"
    unfolding rc_writes_total keys using rc_run_eq[OF ok, of xs ?K] by (simp add: RegisterCount_def total_in_def)
  moreover have "count_r (rc_run xs RegisterCount) = of_nat (sum_list (map (length \<circ> registers) xs))"
    using rc_run_eq[OF ok, of xs ?K] by (simp add: RegisterCount_def)
  ultimately show ?thesis by (simp add: rc_JSONdump_def)
qed

subsection \<open>ExternalLibraryCount\<close>

text \<open>A map whose order ignores the case of letters: its keys here are the names in lower case, and
  each entry has the name that was inserted first.  \<open>strcasecmp\<close> reads a name up to a NUL.\<close>

type_synonym call_counts = "(string, string \<times> u64) cmap"

definition case_key :: "string \<Rightarrow> string" where
  "case_key s = map tolower (c_str s)"

text \<open>The function that a call calls: a known one, or the one whose address is stored where the
  called pointer was loaded from.  \<open>mem\<close> is the memory of the analysed program.  A constant
  expression is no key of the table of the memory addresses; 0 stands for it.\<close>

definition elc_callee :: "shared_tables \<Rightarrow> (u64 \<Rightarrow> u64) \<Rightarrow> int \<Rightarrow> instr \<Rightarrow> nat option option" where
  "elc_callee S mem thread_id I = (case get_calledFunction I of
     Some f \<Rightarrow> Some (Some f)
   | None \<Rightarrow>
      (case getMemoryAddress S (case i_callee I of Callee_Value a \<Rightarrow> a | _ \<Rightarrow> 0) thread_id of
         None \<Rightarrow> None
       | Some addr \<Rightarrow>
           let addr = (if addr \<noteq> 0 then mem addr else addr)
           in Some (getFunctionAddress S addr)))"

definition elc_count :: "string \<Rightarrow> call_counts \<Rightarrow> call_counts" where
  "elc_count name c = (case mp_get (case_key name) c of
     Some (first, n) \<Rightarrow> mp_put (case_key name) (first, n + 1) c
   | None \<Rightarrow> mp_put (case_key name) (name, 1) c)"

text \<open>The name of the external function that is called, if any.\<close>

definition external_name :: "ir_module \<Rightarrow> shared_tables \<Rightarrow> (u64 \<Rightarrow> u64) \<Rightarrow> int \<Rightarrow> instr \<Rightarrow> string option option" where
  "external_name M S mem thread_id I =
    (if i_opcode I = Op_Call then
       (case elc_callee S mem thread_id I of
          None \<Rightarrow> None
        | Some None \<Rightarrow> Some None
        | Some (Some f) \<Rightarrow>
            if f < length M then Some (if is_external (M ! f) then Some (f_name (M ! f)) else None) else None)
     else Some None)"

definition elc_visit :: "ir_module \<Rightarrow> shared_tables \<Rightarrow> (u64 \<Rightarrow> u64) \<Rightarrow> int \<Rightarrow> instr \<Rightarrow> call_counts
    \<Rightarrow> call_counts option" where
  "elc_visit M S mem thread_id I c = (case external_name M S mem thread_id I of
     None \<Rightarrow> None | Some None \<Rightarrow> Some c | Some (Some name) \<Rightarrow> Some (elc_count name c))"

definition elc_JSONdump :: "call_counts \<Rightarrow> json_event list" where
  "elc_JSONdump c = JString ''externalLibraryCallCount'' # (StartObject #
     concat (map (\<lambda>(_, name, n). [JString (c_str name), JUint64 n]) c) @ [EndObject])"

text \<open>The tables and the memory change between the visits.\<close>

fun elc_run :: "ir_module \<Rightarrow> int \<Rightarrow> (shared_tables \<times> (u64 \<Rightarrow> u64) \<times> instr) list \<Rightarrow> call_counts \<Rightarrow> call_counts option" where
  "elc_run M t [] c = Some c"
| "elc_run M t ((S, mem, I) # xs) c = (case elc_visit M S mem t I c of None \<Rightarrow> None | Some c \<Rightarrow> elc_run M t xs c)"

definition elc_calls :: "ir_module \<Rightarrow> int \<Rightarrow> string \<Rightarrow> (shared_tables \<times> (u64 \<Rightarrow> u64) \<times> instr) list \<Rightarrow> nat" where
  "elc_calls M t k xs = length (filter (\<lambda>(S, mem, I). \<exists>name. external_name M S mem t I = Some (Some name)
     \<and> case_key name = k) xs)"

definition elc_ok :: "call_counts \<Rightarrow> bool" where
  "elc_ok c \<longleftrightarrow> mp_ok c \<and> (\<forall>(k, name, n) \<in> set c. case_key name = k)"

definition elc_get :: "string \<Rightarrow> call_counts \<Rightarrow> u64" where
  "elc_get k c = (case mp_get k c of None \<Rightarrow> 0 | Some (_, n) \<Rightarrow> n)"

lemma mp_put_set: "x \<in> set (mp_put k v m) \<Longrightarrow> x = (k, v) \<or> x \<in> set m"
  by (induction k v m rule: mp_put.induct) (auto split: if_splits)

lemma elc_count_ok:
  assumes "elc_ok c"
  shows "elc_ok (elc_count name c)
    \<and> elc_get k (elc_count name c) = elc_get k c + (if k = case_key name then 1 else 0)"
proof (cases "mp_get (case_key name) c")
  case None
  then show ?thesis using assms mp_put_set[of _ "case_key name" "(name, 1)" c]
    by (fastforce simp: elc_count_def elc_ok_def elc_get_def mp_get_put)
next
  case (Some p)
  obtain first n where p: "p = (first, n)" by (cases p)
  then have "case_key first = case_key name"
    using mp_get_in[OF Some] assms by (auto simp: elc_ok_def)
  then show ?thesis using assms Some p mp_put_set[of _ "case_key name" "(first, n + 1)" c]
    by (fastforce simp: elc_count_def elc_ok_def elc_get_def mp_get_put)
qed

lemma elc_run_ok:
  assumes "elc_ok c" "elc_run M t xs c = Some c'"
  shows "elc_ok c' \<and> elc_get k c' = elc_get k c + of_nat (elc_calls M t k xs)"
  using assms
proof (induction xs arbitrary: c)
  case (Cons x xs)
  obtain S mem I where x: "x = (S, mem, I)" by (cases x)
  from Cons.prems(2) obtain c1 where c1: "elc_visit M S mem t I c = Some c1" "elc_run M t xs c1 = Some c'"
    by (auto simp: x split: option.splits)
  have "elc_ok c1 \<and> elc_get k c1 = elc_get k c
      + (if \<exists>name. external_name M S mem t I = Some (Some name) \<and> case_key name = k then 1 else 0)"
    using c1(1) Cons.prems(1) elc_count_ok[OF Cons.prems(1)]
    by (auto simp: elc_visit_def split: option.splits)
  then show ?case using Cons.IH[OF _ c1(2)] by (auto simp: elc_calls_def x)
qed (simp add: elc_calls_def)

lemma elc_ok_distinct: "elc_ok c \<Longrightarrow> distinct (map (\<lambda>(_, name, _). case_key name) c)"
proof -
  assume ok: "elc_ok c"
  then have eq: "map (\<lambda>(_, name, _). case_key name) c = map fst c"
    by (intro map_cong refl) (auto simp: elc_ok_def)
  show ?thesis unfolding eq using ok by (simp add: elc_ok_def mp_ok_def strict_sorted_iff)
qed

text \<open>Every row of \<open>ExternalLibraryCount\<close> has the number of executed calls of external functions
  with its name, ignoring the case of letters, and two rows never have the same name in this sense.\<close>

theorem external_calls_exact:
  assumes "elc_run M t xs [] = Some c"
  shows "(\<forall>(k, name, n) \<in> set c. n = of_nat (elc_calls M t (case_key name) xs))
    \<and> distinct (map (\<lambda>(_, name, _). case_key name) c)"
proof
  have init: "elc_ok []" by (simp add: elc_ok_def)
  have ok: "elc_ok c" using elc_run_ok[OF init assms] by simp
  then show "distinct (map (\<lambda>(_, name, _). case_key name) c)" by (rule elc_ok_distinct)
  have "n = of_nat (elc_calls M t (case_key name) xs)" if "(k, name, n) \<in> set c" for k name n
  proof -
    have "mp_get k c = Some (name, n)" "case_key name = k"
      using ok that by (auto simp: elc_ok_def intro: mp_in_get)
    then show ?thesis using elc_run_ok[OF init assms, of k] by (simp add: elc_get_def)
  qed
  then show "\<forall>(k, name, n) \<in> set c. n = of_nat (elc_calls M t (case_key name) xs)" by auto
qed

definition ext_call :: "shared_tables \<times> (u64 \<Rightarrow> u64) \<times> instr" where
  "ext_call = (\<lparr>max_expected_threads = 1, InitializedThreads = [], MemoryForThreads = [], FunctionsAddresses = []\<rparr>,
     \<lambda>_. 0, (plain_instr 1 Op_Call)\<lparr>i_callee := Callee_Func 0\<rparr>)"

lemma external_calls_exact_witness:
  "elc_run [\<lparr>f_name = ''Puts'', f_blocks = []\<rparr>] 0 [ext_call, ext_call] [] = Some [(''puts'', ''Puts'', 2)]
    \<and> elc_calls [\<lparr>f_name = ''Puts'', f_blocks = []\<rparr>] 0 ''puts'' [ext_call, ext_call] = 2
    \<and> (2 :: u64) = of_nat (elc_calls [\<lparr>f_name = ''Puts'', f_blocks = []\<rparr>] 0 ''puts'' [ext_call, ext_call])"
proof -
  have key: "case_key ''Puts'' = ''puts''" by code_simp
  have run: "elc_run [\<lparr>f_name = ''Puts'', f_blocks = []\<rparr>] 0 [ext_call, ext_call] [] = Some [(''puts'', ''Puts'', 2)]"
    by (simp add: ext_call_def elc_visit_def external_name_def elc_callee_def plain_instr_def get_calledFunction_def
        is_external_def elc_count_def key mp_get_def)
  have "elc_calls [\<lparr>f_name = ''Puts'', f_blocks = []\<rparr>] 0 ''puts'' [ext_call, ext_call] = 2"
    by (simp add: elc_calls_def ext_call_def external_name_def elc_callee_def plain_instr_def get_calledFunction_def
        is_external_def key)
  moreover have "(2 :: u64) = of_nat (elc_calls [\<lparr>f_name = ''Puts'', f_blocks = []\<rparr>] 0 ''puts'' [ext_call, ext_call])"
    using external_calls_exact[OF run] by (simp only: list.set ball_simps split_conv key)
  ultimately show ?thesis using run by (simp add: key)
qed

text \<open>The outputs of \<open>RegisterCount\<close> and \<open>ExternalLibraryCount\<close> are well formed members.\<close>

lemma small_JSON_wf: "json_members (rc_JSONdump s) \<and> json_members (elc_JSONdump c)"
proof
  have "json_members [JString ''reads'', JUint64 a, JString ''writes'', JUint64 b]" for a b
    by (intro json_member_uint json_members_Nil)
  from json_member[OF json_value_object[OF this] json_members_Nil]
  show "json_members (rc_JSONdump s)" by (simp add: rc_JSONdump_def)
  have "json_members (concat (map (\<lambda>(_, name, n). [JString (c_str name), JUint64 n]) c))" for c :: call_counts
    by (auto intro!: json_wf)
  from json_member[OF json_value_object[OF this] json_members_Nil]
  show "json_members (elc_JSONdump c)" by (simp add: elc_JSONdump_def)
qed

subsection \<open>LoadStoreVerbose\<close>

text \<open>A line of the trace: thread, process, cycle, \<open>L\<close> or \<open>S\<close>, address and size.\<close>

type_synonym ls_line = "int \<times> int \<times> u64 \<times> char \<times> u64 \<times> u32"

definition lsv_visit :: "(ir_type \<Rightarrow> u64) \<Rightarrow> shared_tables \<Rightarrow> int \<Rightarrow> int \<Rightarrow> instr \<Rightarrow> u64 \<Rightarrow> ls_line list option" where
  "lsv_visit alloc_size S thread_id processor_id I CurrentIssueCycle =
    (if i_opcode I \<noteq> Op_Load \<and> i_opcode I \<noteq> Op_Store then Some []
     else case (getMemoryAccessSize alloc_size I, getMemoryAddress S (i_id I) thread_id) of
       (Some MemoryAccessSize, Some MemoryAddress) \<Rightarrow>
         Some [(thread_id, processor_id, CurrentIssueCycle, if i_opcode I = Op_Load then CHR ''L'' else CHR ''S'',
                MemoryAddress, MemoryAccessSize)]
     | _ \<Rightarrow> None)"

text \<open>Every load and every store of a thread below \<open>max_expected_threads\<close> gives exactly one line, with
  a size that is never 0, and no other instruction gives one.\<close>

theorem load_store_lines:
  assumes "mem_operands_ok I" "0 \<le> t" "nat t < length (InitializedThreads S)"
    and "nat t < length (MemoryForThreads S)"
  shows "\<exists>ls. lsv_visit alloc_size S t p I cycle = Some ls
    \<and> length ls = (if i_opcode I = Op_Load \<or> i_opcode I = Op_Store then 1 else 0)
    \<and> (\<forall>(t', p', cycle', k, addr, sz) \<in> set ls. sz \<noteq> 0 \<and> cycle' = cycle \<and> (k = CHR ''L'' \<longleftrightarrow> i_opcode I = Op_Load))"
  using assms
  by (auto simp: lsv_visit_def mem_operands_ok_def getMemoryAccessSize_def getMemoryAddress_def Let_def
      split: option.split)

lemma load_store_lines_witness:
  "\<exists>ls. lsv_visit (\<lambda>_. 8) \<lparr>max_expected_threads = 1, InitializedThreads = [True], MemoryForThreads = [[(1, 64)]],
       FunctionsAddresses = []\<rparr> 0 0 ((plain_instr 1 Op_Load)\<lparr>i_operands := [(V_Other 2, PointerTy (IntegerTy 64))]\<rparr>) 5
     = Some ls \<and> length ls = 1"
  using load_store_lines[of "(plain_instr 1 Op_Load)\<lparr>i_operands := [(V_Other 2, PointerTy (IntegerTy 64))]\<rparr>" 0
      "\<lparr>max_expected_threads = 1, InitializedThreads = [True], MemoryForThreads = [[(1, 64)]], FunctionsAddresses = []\<rparr>"
      "\<lambda>_. 8" 0 5]
  by (auto simp: mem_operands_ok_def plain_instr_def operand_type_def)

end
