(* ===== verification/Mpi_Stats.thy ===== *)
theory Mpi_Stats
  imports OpenMP_Stats
begin

text \<open>
  \<open>library/MPIstats.cc\<close>: the calls of MPI functions, counted by their names.  The names of Fortran
  are accepted too: letters match in either case and one underscore at the end is dropped.
\<close>

datatype mpi_p2p =
    NumMPIBsend | NumMPIBsend_init | NumMPIBuffer_attach | NumMPIBuffer_detach | NumMPICancel |
    NumMPIGet_count | NumMPIGet_elements | NumMPIIbsend | NumMPIIprobe | NumMPIIrecv |
    NumMPIIrsend | NumMPIIsend | NumMPIIssend | NumMPIProbe | NumMPIRecv | NumMPIRecv_init |
    NumMPIRequest_free | NumMPIRsend | NumMPIRsend_init | NumMPISend | NumMPISend_init |
    NumMPISendrecv | NumMPISendrecv_replace | NumMPISsend | NumMPISsend_init | NumMPIStart |
    NumMPIStartall | NumMPITest | NumMPITest_cancelled | NumMPITestall | NumMPITestany |
    NumMPITestsome | NumMPIWait | NumMPIWaitall | NumMPIWaitany | NumMPIWaitsome

datatype mpi_collective =
    NumMPIAllgather | NumMPIAllgatherv | NumMPIAllreduce | NumMPIAlltoall | NumMPIAlltoallv |
    NumMPIBarrier | NumMPIBcast | NumMPIGather | NumMPIGatherv | NumMPIOp_create | NumMPIOp_free |
    NumMPIReduce | NumMPIReduce_scatter | NumMPIScan | NumMPIScatter | NumMPIScatterv


record mpi_stats =
  NumMPIEnvironmentManagement :: u64
  NumMPIPointToPointCommunication :: u64
  p2p :: "mpi_p2p \<Rightarrow> u64"
  NumMPICollectiveCommunication :: u64
  collective :: "mpi_collective \<Rightarrow> u64"
  NumMPIProcessGroup :: u64
  NumMPICommunicators :: u64
  NumMPIDerivedTypes :: u64
  NumMPIVirtualTopology :: u64
  NumMPIMiscellaneous :: u64
  NumMPIOthers :: u64

definition mpi_init :: mpi_stats where
  "mpi_init = \<lparr>NumMPIEnvironmentManagement = 0,
     NumMPIPointToPointCommunication = 0, p2p = (\<lambda>_. 0),
     NumMPICollectiveCommunication = 0, collective = (\<lambda>_. 0),
     NumMPIProcessGroup = 0, NumMPICommunicators = 0, NumMPIDerivedTypes = 0,
     NumMPIVirtualTopology = 0, NumMPIMiscellaneous = 0, NumMPIOthers = 0\<rparr>"

subsection \<open>The names\<close>

definition environment_names :: "string list" where
  "environment_names = [
     ''MPI_abort'', ''MPI_Errhandler_create'', ''MPI_Errhandler_free'', ''MPI_Errhandler_get'',
     ''MPI_Errhandler_set'', ''MPI_Error_class'', ''MPI_Error_string'', ''MPI_Finalize'',
     ''MPI_Get_processor_name'', ''MPI_Get_version'', ''MPI_Init'', ''MPI_Initialized'',
     ''MPI_Wtick'', ''MPI_Wtime'']"

definition p2p_names :: "(string \<times> mpi_p2p) list" where
  "p2p_names = [
     (''MPI_Bsend'', NumMPIBsend), (''MPI_Bsend_init'', NumMPIBsend_init),
     (''MPI_Buffer_attach'', NumMPIBuffer_attach), (''MPI_Buffer_detach'', NumMPIBuffer_detach),
     (''MPI_Cancel'', NumMPICancel), (''MPI_Get_count'', NumMPIGet_count),
     (''MPI_Get_elements'', NumMPIGet_elements), (''MPI_Ibsend'', NumMPIIbsend),
     (''MPI_Iprobe'', NumMPIIprobe), (''MPI_Irecv'', NumMPIIrecv), (''MPI_Irsend'', NumMPIIrsend),
     (''MPI_Isend'', NumMPIIsend), (''MPI_Issend'', NumMPIIssend), (''MPI_Probe'', NumMPIProbe),
     (''MPI_Recv'', NumMPIRecv), (''MPI_Recv_init'', NumMPIRecv_init),
     (''MPI_Request_free'', NumMPIRequest_free), (''MPI_Rsend'', NumMPIRsend),
     (''MPI_Rsend_init'', NumMPIRsend_init), (''MPI_Send'', NumMPISend),
     (''MPI_Send_init'', NumMPISend_init), (''MPI_Sendrecv'', NumMPISendrecv),
     (''MPI_Sendrecv_replace'', NumMPISendrecv_replace), (''MPI_Ssend'', NumMPISsend),
     (''MPI_Ssend_init'', NumMPISsend_init), (''MPI_Start'', NumMPIStart),
     (''MPI_Startall'', NumMPIStartall), (''MPI_Test'', NumMPITest),
     (''MPI_Test_cancelled'', NumMPITest_cancelled), (''MPI_Testall'', NumMPITestall),
     (''MPI_Testany'', NumMPITestany), (''MPI_Testsome'', NumMPITestsome),
     (''MPI_Wait'', NumMPIWait), (''MPI_Waitall'', NumMPIWaitall),
     (''MPI_Waitany'', NumMPIWaitany), (''MPI_Waitsome'', NumMPIWaitsome)]"

definition collective_names :: "(string \<times> mpi_collective) list" where
  "collective_names = [
     (''MPI_Allgather'', NumMPIAllgather), (''MPI_Allgatherv'', NumMPIAllgatherv),
     (''MPI_Allreduce'', NumMPIAllreduce), (''MPI_Alltoall'', NumMPIAlltoall),
     (''MPI_Alltoallv'', NumMPIAlltoallv), (''MPI_Barrier'', NumMPIBarrier),
     (''MPI_Bcast'', NumMPIBcast), (''MPI_Gather'', NumMPIGather),
     (''MPI_Gatherv'', NumMPIGatherv), (''MPI_Op_create'', NumMPIOp_create),
     (''MPI_Op_free'', NumMPIOp_free), (''MPI_Reduce'', NumMPIReduce),
     (''MPI_Reduce_scatter'', NumMPIReduce_scatter), (''MPI_Scan'', NumMPIScan),
     (''MPI_Scatter'', NumMPIScatter), (''MPI_Scatterv'', NumMPIScatterv)]"

definition topology_names :: "string list" where
  "topology_names = [
     ''MPI_Cartdim_get'', ''MPI_Dims_create'', ''MPI_Graphdims_get'', ''MPI_Topo_create'']"

definition misc_names :: "string list" where
  "misc_names = [
     ''MPI_Address'', ''MPI_Attr_delete'', ''MPI_Attr_get'', ''MPI_Attr_put'',
     ''MPI_Keyval_create'', ''MPI_Keyval_free'', ''MPI_Pack'', ''MPI_Pack_size'',
     ''MPI_Pcontrol'', ''MPI_Unpack'']"


subsection \<open>Counting a call\<close>

text \<open>\<open>visit\<close> only passes names that are not empty.\<close>

definition pop_underscore :: "string \<Rightarrow> string" where
  "pop_underscore name = (if name \<noteq> [] \<and> last name = CHR ''_'' then butlast name else name)"

definition mpi_listed :: "string list \<Rightarrow> string \<Rightarrow> bool" where
  "mpi_listed names name = list_ex (strcaseeq (c_str (pop_underscore name))) names"

text \<open>A chain of comparisons: the first name that matches selects the counter.\<close>

definition mpi_member :: "(string \<times> 'c) list \<Rightarrow> string \<Rightarrow> 'c option" where
  "mpi_member names name = map_option snd (find (\<lambda>(n, _). strcaseeq (c_str (pop_underscore name)) n) names)"

text \<open>A counting function returns \<open>None\<close> where the code returns \<open>false\<close>.\<close>

definition count_environment_management :: "string \<Rightarrow> mpi_stats \<Rightarrow> mpi_stats option" where
  "count_environment_management name s = (if mpi_listed environment_names name
     then Some (s\<lparr>NumMPIEnvironmentManagement := NumMPIEnvironmentManagement s + 1\<rparr>) else None)"

definition count_point_to_point_communication :: "string \<Rightarrow> mpi_stats \<Rightarrow> mpi_stats option" where
  "count_point_to_point_communication name s = map_option
     (\<lambda>c. s\<lparr>p2p := (p2p s)(c := p2p s c + 1),
            NumMPIPointToPointCommunication := NumMPIPointToPointCommunication s + 1\<rparr>)
     (mpi_member p2p_names name)"

definition count_collective_communication :: "string \<Rightarrow> mpi_stats \<Rightarrow> mpi_stats option" where
  "count_collective_communication name s = map_option
     (\<lambda>c. s\<lparr>collective := (collective s)(c := collective s c + 1),
            NumMPICollectiveCommunication := NumMPICollectiveCommunication s + 1\<rparr>)
     (mpi_member collective_names name)"

definition count_process_group :: "string \<Rightarrow> mpi_stats \<Rightarrow> mpi_stats option" where
  "count_process_group name s = (if strncaseeq (c_str (pop_underscore name)) ''MPI_Group_'' 10
     then Some (s\<lparr>NumMPIProcessGroup := NumMPIProcessGroup s + 1\<rparr>) else None)"

definition count_communicators :: "string \<Rightarrow> mpi_stats \<Rightarrow> mpi_stats option" where
  "count_communicators name s =
    (if strncaseeq (c_str name) ''MPI_Comm_'' 9 \<or> strncaseeq (c_str name) ''MPI_Intercomm_'' 14
     then Some (s\<lparr>NumMPICommunicators := NumMPICommunicators s + 1\<rparr>) else None)"

definition count_derived_types :: "string \<Rightarrow> mpi_stats \<Rightarrow> mpi_stats option" where
  "count_derived_types name s = (if strncaseeq (c_str name) ''MPI_Type_'' 9
     then Some (s\<lparr>NumMPIDerivedTypes := NumMPIDerivedTypes s + 1\<rparr>) else None)"

definition count_virtual_topology :: "string \<Rightarrow> mpi_stats \<Rightarrow> mpi_stats option" where
  "count_virtual_topology name s =
    (if strncaseeq (c_str (pop_underscore name)) ''MPI_Cart_'' 9
       \<or> strncaseeq (c_str (pop_underscore name)) ''MPI_Graph_'' 10 \<or> mpi_listed topology_names name
     then Some (s\<lparr>NumMPIVirtualTopology := NumMPIVirtualTopology s + 1\<rparr>) else None)"

definition count_miscellaneous :: "string \<Rightarrow> mpi_stats \<Rightarrow> mpi_stats option" where
  "count_miscellaneous name s = (if mpi_listed misc_names name
     then Some (s\<lparr>NumMPIMiscellaneous := NumMPIMiscellaneous s + 1\<rparr>) else None)"

text \<open>The groups in the order in which \<open>visit\<close> tries them.\<close>

definition mpi_count :: "string \<Rightarrow> mpi_stats \<Rightarrow> mpi_stats" where
  "mpi_count name s =
    (case count_environment_management name s of Some s \<Rightarrow> s | None \<Rightarrow>
    (case count_point_to_point_communication name s of Some s \<Rightarrow> s | None \<Rightarrow>
    (case count_collective_communication name s of Some s \<Rightarrow> s | None \<Rightarrow>
    (case count_process_group name s of Some s \<Rightarrow> s | None \<Rightarrow>
    (case count_communicators name s of Some s \<Rightarrow> s | None \<Rightarrow>
    (case count_derived_types name s of Some s \<Rightarrow> s | None \<Rightarrow>
    (case count_virtual_topology name s of Some s \<Rightarrow> s | None \<Rightarrow>
    (case count_miscellaneous name s of Some s \<Rightarrow> s | None \<Rightarrow>
      s\<lparr>NumMPIOthers := NumMPIOthers s + 1\<rparr>))))))))"

definition mpi_stats_visit :: "ir_module \<Rightarrow> instr \<Rightarrow> mpi_stats \<Rightarrow> mpi_stats" where
  "mpi_stats_visit M I s = (case called_name M I of None \<Rightarrow> s
     | Some name \<Rightarrow> if strncaseeq (c_str name) ''MPI_'' 4 then mpi_count name s else s)"

definition mpi_run :: "ir_module \<Rightarrow> instr list \<Rightarrow> mpi_stats \<Rightarrow> mpi_stats" where
  "mpi_run M xs s = fold (mpi_stats_visit M) xs s"

subsection \<open>The output\<close>

definition mpi_total :: "mpi_stats \<Rightarrow> u64" where
  "mpi_total s = NumMPIEnvironmentManagement s + NumMPIPointToPointCommunication s
     + NumMPICollectiveCommunication s + NumMPIProcessGroup s + NumMPICommunicators s
     + NumMPIDerivedTypes s + NumMPIVirtualTopology s + NumMPIMiscellaneous s + NumMPIOthers s"

definition p2p_rows :: "mpi_stats \<Rightarrow> (string \<times> u64) list" where
  "p2p_rows s = [
     (''MPI_Bsend'', p2p s NumMPIBsend), (''MPI_Bsend_init'', p2p s NumMPIBsend_init),
     (''MPI_Buffer_attach'', p2p s NumMPIBuffer_attach),
     (''MPI_Bsend_detach'', p2p s NumMPIBuffer_detach), (''MPI_Cancel'', p2p s NumMPICancel),
     (''MPI_Get_count'', p2p s NumMPIGet_count), (''MPI_Get_elements'', p2p s NumMPIGet_elements),
     (''MPI_Ibsend'', p2p s NumMPIIbsend), (''MPI_Iprobe'', p2p s NumMPIIprobe),
     (''MPI_Irecv'', p2p s NumMPIIrecv), (''MPI_Irsend'', p2p s NumMPIIrsend),
     (''MPI_Isend'', p2p s NumMPIIsend), (''MPI_Issend'', p2p s NumMPIIssend),
     (''MPI_Probe'', p2p s NumMPIProbe), (''MPI_Recv'', p2p s NumMPIRecv),
     (''MPI_Recv_init'', p2p s NumMPIRecv_init), (''MPI_Request_free'', p2p s NumMPIRequest_free),
     (''MPI_Rsend'', p2p s NumMPIRsend), (''MPI_Rsend_init'', p2p s NumMPIRsend_init),
     (''MPI_Send'', p2p s NumMPISend), (''MPI_Send_init'', p2p s NumMPISend_init),
     (''MPI_Sendrecv'', p2p s NumMPISendrecv),
     (''MPI_Sendrecv_replace'', p2p s NumMPISendrecv_replace), (''MPI_Ssend'', p2p s NumMPISsend),
     (''MPI_Ssend_init'', p2p s NumMPISsend_init), (''MPI_Start'', p2p s NumMPIStart),
     (''MPI_Startall'', p2p s NumMPIStartall), (''MPI_Test'', p2p s NumMPITest),
     (''MPI_Test_cancelled'', p2p s NumMPITest_cancelled), (''MPI_Testall'', p2p s NumMPITestall),
     (''MPI_Testany'', p2p s NumMPITestany), (''MPI_Testsome'', p2p s NumMPITestsome),
     (''MPI_Wait'', p2p s NumMPIWait), (''MPI_Waitall'', p2p s NumMPIWaitall),
     (''MPI_Waitany'', p2p s NumMPIWaitany), (''MPI_Waitsome'', p2p s NumMPIWaitsome)]"

definition collective_rows :: "mpi_stats \<Rightarrow> (string \<times> u64) list" where
  "collective_rows s = [
     (''MPI_Allgather'', collective s NumMPIAllgather),
     (''MPI_Allgatherv'', collective s NumMPIAllgatherv),
     (''MPI_Allreduce'', collective s NumMPIAllreduce),
     (''MPI_Alltoall'', collective s NumMPIAlltoall),
     (''MPI_Alltoallv'', collective s NumMPIAlltoallv),
     (''MPI_Barrier'', collective s NumMPIBarrier), (''MPI_Bcast'', collective s NumMPIBcast),
     (''MPI_Gather'', collective s NumMPIGather), (''MPI_Gatherv'', collective s NumMPIGatherv),
     (''MPI_Op_create'', collective s NumMPIOp_create),
     (''MPI_Op_free'', collective s NumMPIOp_free), (''MPI_Reduce'', collective s NumMPIReduce),
     (''MPI_Reduce_Scatter'', collective s NumMPIReduce_scatter),
     (''MPI_Scan'', collective s NumMPIScan), (''MPI_Scatter'', collective s NumMPIScatter),
     (''MPI_Scatterv'', collective s NumMPIScatterv)]"

definition row_events :: "(string \<times> u64) list \<Rightarrow> json_event list" where
  "row_events rows = concat (map (\<lambda>(name, n). [JString name, JUint64 n]) rows)"

definition routine_object :: "string \<Rightarrow> (string \<times> u64) list \<Rightarrow> json_event list" where
  "routine_object name rows = JString name # StartObject # row_events rows @ [EndObject]"

definition mpi_routines :: "mpi_stats \<Rightarrow> json_event list" where
  "mpi_routines s =
     routine_object ''environmentManagementRoutines'' [(''MPI_environment_management_calls'', NumMPIEnvironmentManagement s)]
     @ routine_object ''p2pCommunicationRoutines'' (p2p_rows s)
     @ routine_object ''collectiveCommunicationRoutines'' (collective_rows s)
     @ routine_object ''processGroupRoutines'' [(''MPI_Group_calls'', NumMPIProcessGroup s)]
     @ routine_object ''communicatorsRoutines'' [(''MPI_Comm_calls'', NumMPICommunicators s)]
     @ routine_object ''derivedTypesRoutines'' [(''MPI_Type_calls'', NumMPIDerivedTypes s)]
     @ routine_object ''virtualTopologyRoutines'' [(''MPI_virtual_topology_calls'', NumMPIVirtualTopology s)]
     @ routine_object ''miscellaneousRoutines'' [(''MPI_misc_calls'', NumMPIMiscellaneous s)]
     @ routine_object ''otherRoutines'' [(''MPI_other_calls'', NumMPIOthers s)]"

definition mpi_stats_JSONdump :: "mpi_stats \<Rightarrow> json_event list" where
  "mpi_stats_JSONdump s = JString ''mpiInstructionMix'' # (StartArray # (StartObject #
     JString ''MPI_instructions_analyzed'' # JUint64 (mpi_total s) # mpi_routines s @ [EndObject]) @ [EndArray])"

lemma row_events_wf [json_wf]: "json_members (row_events rows)"
  by (auto simp: row_events_def intro!: json_wf)

lemma routine_object_wf [json_wf]: "json_members (routine_object name rows)"
  using json_member[OF json_value_object[OF row_events_wf] json_members_Nil] by (simp add: routine_object_def)

text \<open>The output is a well formed member.\<close>

lemma mpi_stats_JSONdump_wf: "json_members (mpi_stats_JSONdump s)"
proof -
  have "json_members (mpi_routines s)" unfolding mpi_routines_def by (intro json_wf)
  from json_member_uint[OF this]
  have "json_elements (StartObject # (JString ''MPI_instructions_analyzed'' # JUint64 (mpi_total s) # mpi_routines s) @ [EndObject])"
    by (intro json_one_value_element json_value_object)
  from json_member[OF json_value_array[OF this] json_members_Nil] show ?thesis
    by (simp add: mpi_stats_JSONdump_def)
qed

subsection \<open>Exact counts\<close>

text \<open>A call of the function with this name, in the sense of \<open>MPIstats\<close>.\<close>

definition calls_mpi :: "ir_module \<Rightarrow> string \<Rightarrow> instr \<Rightarrow> bool" where
  "calls_mpi M n I = (case called_name M I of None \<Rightarrow> False
     | Some name \<Rightarrow> strcaseeq (c_str (pop_underscore name)) n)"

definition is_mpi_call :: "ir_module \<Rightarrow> instr \<Rightarrow> bool" where
  "is_mpi_call M I = (case called_name M I of None \<Rightarrow> False | Some name \<Rightarrow> strncaseeq (c_str name) ''MPI_'' 4)"

lemma mpi_count_total: "mpi_total (mpi_count name s) = mpi_total s + 1"
  by (auto simp: mpi_count_def count_environment_management_def count_point_to_point_communication_def
      count_collective_communication_def count_process_group_def count_communicators_def count_derived_types_def
      count_virtual_topology_def count_miscellaneous_def mpi_total_def split: option.split)

text \<open>No name matches two entries of the tables.\<close>

lemma tolower_upper:
  assumes "65 \<le> (of_char c :: nat)" "of_char c \<le> (90 :: nat)" "of_char d = (of_char c + 32 :: nat)"
  shows "tolower c = d"
  using assms by (simp add: tolower_def flip: assms(3))

lemma tolower_letters:
  "tolower (CHR ''A'') = CHR ''a''"
  "tolower (CHR ''B'') = CHR ''b''"
  "tolower (CHR ''C'') = CHR ''c''"
  "tolower (CHR ''D'') = CHR ''d''"
  "tolower (CHR ''E'') = CHR ''e''"
  "tolower (CHR ''F'') = CHR ''f''"
  "tolower (CHR ''G'') = CHR ''g''"
  "tolower (CHR ''I'') = CHR ''i''"
  "tolower (CHR ''K'') = CHR ''k''"
  "tolower (CHR ''M'') = CHR ''m''"
  "tolower (CHR ''O'') = CHR ''o''"
  "tolower (CHR ''P'') = CHR ''p''"
  "tolower (CHR ''R'') = CHR ''r''"
  "tolower (CHR ''S'') = CHR ''s''"
  "tolower (CHR ''T'') = CHR ''t''"
  "tolower (CHR ''U'') = CHR ''u''"
  "tolower (CHR ''W'') = CHR ''w''"
  by (rule tolower_upper; simp)+
lemma tolower_other:
  "tolower (CHR ''_'') = CHR ''_''"
  "tolower (CHR ''a'') = CHR ''a''"
  "tolower (CHR ''b'') = CHR ''b''"
  "tolower (CHR ''c'') = CHR ''c''"
  "tolower (CHR ''d'') = CHR ''d''"
  "tolower (CHR ''e'') = CHR ''e''"
  "tolower (CHR ''f'') = CHR ''f''"
  "tolower (CHR ''g'') = CHR ''g''"
  "tolower (CHR ''h'') = CHR ''h''"
  "tolower (CHR ''i'') = CHR ''i''"
  "tolower (CHR ''k'') = CHR ''k''"
  "tolower (CHR ''l'') = CHR ''l''"
  "tolower (CHR ''m'') = CHR ''m''"
  "tolower (CHR ''n'') = CHR ''n''"
  "tolower (CHR ''o'') = CHR ''o''"
  "tolower (CHR ''p'') = CHR ''p''"
  "tolower (CHR ''q'') = CHR ''q''"
  "tolower (CHR ''r'') = CHR ''r''"
  "tolower (CHR ''s'') = CHR ''s''"
  "tolower (CHR ''t'') = CHR ''t''"
  "tolower (CHR ''u'') = CHR ''u''"
  "tolower (CHR ''v'') = CHR ''v''"
  "tolower (CHR ''y'') = CHR ''y''"
  "tolower (CHR ''z'') = CHR ''z''"
  by (simp_all add: tolower_def)

lemma distinct_map_drop: "distinct (map (\<lambda>x. drop n (f x)) xs) \<Longrightarrow> distinct (map f xs)"
  by (auto simp: distinct_map inj_on_def)

lemma environment_keys:
  "map (\<lambda>n. drop 4 (map tolower n)) environment_names = [
     ''abort'', ''errhandler_create'', ''errhandler_free'', ''errhandler_get'',
     ''errhandler_set'', ''error_class'', ''error_string'', ''finalize'', ''get_processor_name'',
     ''get_version'', ''init'', ''initialized'', ''wtick'', ''wtime'']"
  by (simp add: environment_names_def tolower_letters tolower_other)

lemma p2p_keys:
  "map (\<lambda>n. drop 4 (map tolower n)) (map fst p2p_names) = [
     ''bsend'', ''bsend_init'', ''buffer_attach'', ''buffer_detach'', ''cancel'', ''get_count'',
     ''get_elements'', ''ibsend'', ''iprobe'', ''irecv'', ''irsend'', ''isend'', ''issend'',
     ''probe'', ''recv'', ''recv_init'', ''request_free'', ''rsend'', ''rsend_init'', ''send'',
     ''send_init'', ''sendrecv'', ''sendrecv_replace'', ''ssend'', ''ssend_init'', ''start'',
     ''startall'', ''test'', ''test_cancelled'', ''testall'', ''testany'', ''testsome'', ''wait'',
     ''waitall'', ''waitany'', ''waitsome'']"
  by (simp add: p2p_names_def tolower_letters tolower_other)

lemma collective_keys:
  "map (\<lambda>n. drop 4 (map tolower n)) (map fst collective_names) = [
     ''allgather'', ''allgatherv'', ''allreduce'', ''alltoall'', ''alltoallv'', ''barrier'',
     ''bcast'', ''gather'', ''gatherv'', ''op_create'', ''op_free'', ''reduce'',
     ''reduce_scatter'', ''scan'', ''scatter'', ''scatterv'']"
  by (simp add: collective_names_def tolower_letters tolower_other)

lemma mpi_keys_distinct:
  "distinct (map (map tolower) (environment_names @ map fst p2p_names @ map fst collective_names))"
proof (rule distinct_map_drop[where n = 4])
  show "distinct (map (\<lambda>n. drop 4 (map tolower n)) (environment_names @ map fst p2p_names @ map fst collective_names))"
    unfolding map_append environment_keys p2p_keys collective_keys by code_simp
qed

lemma p2p_distinct: "distinct (map snd p2p_names)" "distinct (map snd collective_names)"
  by (simp_all add: p2p_names_def collective_names_def)

lemma mpi_prefix: "\<forall>n \<in> set (map fst p2p_names @ map fst collective_names). take 4 n = ''MPI_''"
  by (simp add: p2p_names_def collective_names_def)

lemma c_str_append: "\<exists>r'. c_str (a @ r) = c_str a @ r'"
  by (induction a) (auto simp: c_str_def)

lemma pop_underscore_prefix: "\<exists>r. c_str name = c_str (pop_underscore name) @ r"
proof -
  obtain r where "name = pop_underscore name @ r"
    by (cases "name \<noteq> [] \<and> last name = CHR ''_''") (auto simp: pop_underscore_def, metis append_butlast_last_id)
  then show ?thesis using c_str_append[of "pop_underscore name" r] by metis
qed

lemma member_iff:
  assumes d: "distinct (map (map tolower) (map fst tbl))" "distinct (map snd tbl)" and i: "(n, c) \<in> set tbl"
  shows "mpi_member tbl name = Some c \<longleftrightarrow> strcaseeq (c_str (pop_underscore name)) n"
proof
  assume "mpi_member tbl name = Some c"
  then obtain m where "(m, c) \<in> set tbl" "strcaseeq (c_str (pop_underscore name)) m"
    by (auto simp: mpi_member_def find_Some_iff dest: nth_mem)
  moreover have "(m, c) = (n, c)" using inj_onD[of snd "set tbl" "(m, c)" "(n, c)"] calculation d(2) i by (simp add: distinct_map)
  ultimately show "strcaseeq (c_str (pop_underscore name)) n" by simp
next
  assume n: "strcaseeq (c_str (pop_underscore name)) n"
  then obtain m e where m: "find (\<lambda>(n, _). strcaseeq (c_str (pop_underscore name)) n) tbl = Some (m, e)"
    using i by (cases "find (\<lambda>(n, _). strcaseeq (c_str (pop_underscore name)) n) tbl") (auto simp: find_None_iff)
  then have "(m, e) \<in> set tbl" "strcaseeq (c_str (pop_underscore name)) m"
    by (auto simp: find_Some_iff dest: nth_mem)
  moreover have "map tolower m = map tolower n" using n calculation by (simp add: strcaseeq_def)
  ultimately have "(m, e) = (n, c)" using d(1) i by (fastforce simp: distinct_map inj_on_def)
  with m show "mpi_member tbl name = Some c" by (simp add: mpi_member_def)
qed

lemma member_None: "mpi_member tbl name = None \<longleftrightarrow> (\<forall>n \<in> fst ` set tbl. \<not> strcaseeq (c_str (pop_underscore name)) n)"
  by (auto simp: mpi_member_def find_None_iff)

lemma listed_iff: "mpi_listed names name \<longleftrightarrow> (\<exists>n \<in> set names. strcaseeq (c_str (pop_underscore name)) n)"
  by (simp add: mpi_listed_def list_ex_iff)

lemma mpi_count_p2p:
  "p2p (mpi_count name s) c = p2p s c
     + (if \<not> mpi_listed environment_names name \<and> mpi_member p2p_names name = Some c then 1 else 0)"
  by (auto simp: mpi_count_def count_environment_management_def count_point_to_point_communication_def
      count_collective_communication_def count_process_group_def count_communicators_def count_derived_types_def
      count_virtual_topology_def count_miscellaneous_def split: option.split)

lemma mpi_count_collective:
  "collective (mpi_count name s) c = collective s c
     + (if \<not> mpi_listed environment_names name \<and> mpi_member p2p_names name = None
          \<and> mpi_member collective_names name = Some c then 1 else 0)"
  by (auto simp: mpi_count_def count_environment_management_def count_point_to_point_communication_def
      count_collective_communication_def count_process_group_def count_communicators_def count_derived_types_def
      count_virtual_topology_def count_miscellaneous_def split: option.split)

lemma matched_prefix:
  assumes "n \<in> set (map fst p2p_names @ map fst collective_names)" "strcaseeq (c_str (pop_underscore name)) n"
  shows "strncaseeq (c_str name) ''MPI_'' 4"
proof -
  obtain r where r: "c_str name = c_str (pop_underscore name) @ r" using pop_underscore_prefix by blast
  have t: "take 4 n = ''MPI_''" using assms(1) mpi_prefix by blast
  then have "length (take 4 n) = 4" by simp
  then have "4 \<le> length n" by (simp add: min_def split: if_splits)
  moreover have "length (c_str (pop_underscore name)) = length n" using assms(2) by (metis strcaseeq_def length_map)
  ultimately have "map tolower (take 4 (c_str name)) = map tolower (take 4 n)"
    using assms(2) by (simp add: r strcaseeq_def flip: take_map)
  then show ?thesis using t by (simp add: strncaseeq_def)
qed

lemma matched_once:
  assumes "n \<in> set xs" "m \<in> set ys" "strcaseeq k n" "strcaseeq k m" "distinct (map (map tolower) (xs @ ys))"
  shows False
  using assms by (auto simp: strcaseeq_def)

lemma mpi_visit_p2p:
  assumes i: "(n, c) \<in> set p2p_names"
  shows "p2p (mpi_stats_visit M I s) c = p2p s c + (if calls_mpi M n I then 1 else 0)"
proof -
  have n: "n \<in> set (map fst p2p_names)" using i by force
  have d: "distinct (map (map tolower) (environment_names @ map fst p2p_names))"
    "distinct (map (map tolower) (map fst p2p_names))" using mpi_keys_distinct by auto
  have *: "(\<not> mpi_listed environment_names name \<and> mpi_member p2p_names name = Some c)
      \<longleftrightarrow> strcaseeq (c_str (pop_underscore name)) n" for name
    using member_iff[OF d(2) p2p_distinct(1) i, of name] matched_once[OF _ n _ _ d(1)] by (auto simp: listed_iff)
  show ?thesis using matched_prefix[of n] n
    by (auto simp: mpi_stats_visit_def calls_mpi_def mpi_count_p2p * split: option.split)
qed

lemma mpi_visit_collective:
  assumes i: "(n, c) \<in> set collective_names"
  shows "collective (mpi_stats_visit M I s) c = collective s c + (if calls_mpi M n I then 1 else 0)"
proof -
  have n: "n \<in> set (map fst collective_names)" using i by force
  have d: "distinct (map (map tolower) ((environment_names @ map fst p2p_names) @ map fst collective_names))"
    "distinct (map (map tolower) (map fst collective_names))" using mpi_keys_distinct by simp_all
  have *: "(\<not> mpi_listed environment_names name \<and> mpi_member p2p_names name = None
        \<and> mpi_member collective_names name = Some c)
      \<longleftrightarrow> strcaseeq (c_str (pop_underscore name)) n" for name
    using member_iff[OF d(2) p2p_distinct(2) i, of name] matched_once[OF _ n _ _ d(1)]
    by (fastforce simp: listed_iff member_None)
  show ?thesis using matched_prefix[of n] n
    by (auto simp: mpi_stats_visit_def calls_mpi_def mpi_count_collective * split: option.split)
qed

lemma mpi_run_counts:
  "(n, c) \<in> set p2p_names \<Longrightarrow> p2p (mpi_run M xs s) c = p2p s c + of_nat (length (filter (calls_mpi M n) xs))"
  "(n, e) \<in> set collective_names
    \<Longrightarrow> collective (mpi_run M xs s) e = collective s e + of_nat (length (filter (calls_mpi M n) xs))"
  "mpi_total (mpi_run M xs s) = mpi_total s + of_nat (length (filter (is_mpi_call M) xs))"
proof (induction xs arbitrary: s)
  case (Cons I xs)
  { case 1 then show ?case using Cons.IH(1) mpi_visit_p2p by (simp add: mpi_run_def) }
  { case 2 then show ?case using Cons.IH(2) mpi_visit_collective by (simp add: mpi_run_def) }
  { case 3
    have "mpi_total (mpi_stats_visit M I s) = mpi_total s + (if is_mpi_call M I then 1 else 0)"
      by (simp add: mpi_stats_visit_def is_mpi_call_def mpi_count_total split: option.split)
    then show ?case using Cons.IH(3) by (simp add: mpi_run_def) }
qed (simp_all add: mpi_run_def)

lemma rows_names:
  "p2p_rows s = map (\<lambda>(n, c). (if n = ''MPI_Buffer_detach'' then ''MPI_Bsend_detach'' else n, p2p s c)) p2p_names"
  "collective_rows s = map (\<lambda>(n, c). (if n = ''MPI_Reduce_scatter'' then ''MPI_Reduce_Scatter'' else n, collective s c)) collective_names"
  by (simp_all add: p2p_rows_def p2p_names_def collective_rows_def collective_names_def)

text \<open>C24: The counts of MPI calls are exact (modulo 2 ^ 64): after any sequence of instructions each
  row of the point-to-point and of the collective routines has the number of executed calls of that
  function, in either case of letters and with or without the underscore of Fortran, and the total is
  the number of the calls whose name starts with \<open>MPI_\<close>.  Two rows have a name of their own:
  \<open>MPI_Buffer_detach\<close> is printed as \<open>MPI_Bsend_detach\<close>, \<open>MPI_Reduce_scatter\<close> as \<open>MPI_Reduce_Scatter\<close>.\<close>

theorem mpi_calls_exact:
  "p2p_rows (mpi_run M xs mpi_init) = map (\<lambda>(n, _). (if n = ''MPI_Buffer_detach'' then ''MPI_Bsend_detach'' else n,
      of_nat (length (filter (calls_mpi M n) xs)))) p2p_names
   \<and> collective_rows (mpi_run M xs mpi_init) = map (\<lambda>(n, _). (if n = ''MPI_Reduce_scatter'' then ''MPI_Reduce_Scatter'' else n,
      of_nat (length (filter (calls_mpi M n) xs)))) collective_names
   \<and> mpi_total (mpi_run M xs mpi_init) = of_nat (length (filter (is_mpi_call M) xs))"
proof -
  have "p2p (mpi_run M xs mpi_init) c = of_nat (length (filter (calls_mpi M n) xs))" if "(n, c) \<in> set p2p_names" for n c
    using mpi_run_counts(1)[OF that, of M xs mpi_init] by (simp add: mpi_init_def)
  moreover have "collective (mpi_run M xs mpi_init) c = of_nat (length (filter (calls_mpi M n) xs))"
    if "(n, c) \<in> set collective_names" for n c
    using mpi_run_counts(2)[OF that, of M xs mpi_init] by (simp add: mpi_init_def)
  moreover have "mpi_total (mpi_run M xs mpi_init) = of_nat (length (filter (is_mpi_call M) xs))"
    using mpi_run_counts(3)[of M xs mpi_init] by (simp add: mpi_init_def mpi_total_def)
  ultimately show ?thesis by (auto simp only: rows_names intro!: map_cong)
qed

end
