(* ===== verification/Mpi_Data.thy ===== *)
theory Mpi_Data
  imports Mpi_Stats
begin

text \<open>
  \<open>library/MPIdata.cc\<close>: the data that the processes of an MPI program exchange.  A message of the
  client describes one MPI call; \<open>visit\<close> adds its bytes to the counters, keeps the requests that are
  not complete in lists, and completes them at the calls of the \<open>MPI_Wait\<close> and \<open>MPI_Test\<close> family.  The
  products of sizes are computed in \<open>int\<close>; an overflow is undefined and gives \<open>None\<close>, as does an
  access out of range and an assertion that fails.
\<close>

subsection \<open>The message of a call\<close>

record mpi_request =
  req_addr :: u64
  req_source :: int

record mpi_call_msg =
  mc_other :: int
  mc_root :: int
  mc_tag :: int
  mc_size :: int
  mc_datatype :: int
  mc_opt_recvsize :: int
  mc_opt_recvdatatype :: int
  mc_comm :: u64
  mc_comm_size :: int
  mc_other2 :: int
  mc_tag2 :: int
  mc_flag :: int
  mc_req_data :: mpi_request
  mc_reqs :: "mpi_request list"
  mc_counter :: int
  mc_sizes :: "int list"
  mc_opt_recvsizes :: "int list"

datatype mpi_transfer =
    mpi_send | mpi_recv | mpi_isend | mpi_irecv
  | mpi_bcast | mpi_ibcast | mpi_alltoallv | mpi_alltoall | mpi_ialltoall
  | mpi_gather | mpi_igather | mpi_allgather | mpi_iallgather
  | mpi_reduce | mpi_ireduce | mpi_allreduce | mpi_iallreduce
  | mpi_wait | mpi_test | mpi_waitall | mpi_testall
  | mpi_other

text \<open>\<open>MPIinfo\<close> with the fields of its \<open>MPIcall\<close> that are set here; the others are zero.\<close>

record mpi_info =
  in_inst :: nat
  in_msgSize :: u64
  in_tag :: int
  in_comm :: u64
  in_id_s :: int
  in_id_r :: int
  in_real_addr :: u64

record mpi_data =
  md_processor_id :: int
  sentBytes :: u64
  receivedBytes :: u64
  totalSentMessages :: u64
  totalReceivedMessages :: u64
  async_send :: "mpi_info list"
  async_recv :: "mpi_info list"
  async_other :: "mpi_info list"
  matrixReceived :: "(u32, u64 \<times> u64) cmap"
  bcastSentBytes :: u64
  bcastReceivedBytes :: u64
  alltoallSentBytes :: u64
  alltoallReceivedBytes :: u64
  gatherSentBytes :: u64
  gatherReceivedBytes :: u64
  allgatherSentBytes :: u64
  allgatherReceivedBytes :: u64
  reduceRootBytes :: u64
  reduceNotRootBytes :: u64
  allreduceBytes :: u64

definition MPIdata :: "int \<Rightarrow> mpi_data" where
  "MPIdata processor_id = \<lparr>md_processor_id = processor_id, sentBytes = 0, receivedBytes = 0, totalSentMessages = 0,
     totalReceivedMessages = 0, async_send = [], async_recv = [], async_other = [], matrixReceived = [],
     bcastSentBytes = 0, bcastReceivedBytes = 0, alltoallSentBytes = 0, alltoallReceivedBytes = 0,
     gatherSentBytes = 0, gatherReceivedBytes = 0, allgatherSentBytes = 0, allgatherReceivedBytes = 0,
     reduceRootBytes = 0, reduceNotRootBytes = 0, allreduceBytes = 0\<rparr>"

subsection \<open>The operations\<close>

definition updateReceivedMatrix :: "u32 \<Rightarrow> u64 \<Rightarrow> mpi_data \<Rightarrow> mpi_data" where
  "updateReceivedMatrix source bytes s = (case mp_get source (matrixReceived s) of
     Some (b, n) \<Rightarrow> s\<lparr>matrixReceived := mp_put source (b + bytes, n + 1) (matrixReceived s)\<rparr>
   | None \<Rightarrow> s\<lparr>matrixReceived := mp_put source (bytes, 1) (matrixReceived s)\<rparr>)"

definition updateAsyncReqList :: "instr \<Rightarrow> mpi_call_msg \<Rightarrow> int \<Rightarrow> u64 \<Rightarrow> mpi_data \<Rightarrow> mpi_data" where
  "updateAsyncReqList I msg listType bytes s =
    (let info = \<lparr>in_inst = i_id I, in_msgSize = bytes, in_tag = mc_tag msg, in_comm = mc_comm msg, in_id_s = 0,
           in_id_r = 0, in_real_addr = req_addr (mc_req_data msg)\<rparr>
     in if listType = 1
        then s\<lparr>async_recv := async_recv s @ [info\<lparr>in_id_s := mc_other msg, in_id_r := md_processor_id s\<rparr>]\<rparr>
        else if listType = 2
        then s\<lparr>async_send := async_send s @ [info\<lparr>in_id_s := md_processor_id s, in_id_r := mc_other msg\<rparr>]\<rparr>
        else s\<lparr>async_other := async_other s @ [info]\<rparr>)"

definition transfer_names :: "(string \<times> mpi_transfer) list" where
  "transfer_names = [
     (''MPI_Send'', mpi_send), (''MPI_Recv'', mpi_recv), (''MPI_Isend'', mpi_isend), (''MPI_Irecv'', mpi_irecv),
     (''MPI_Wait'', mpi_wait), (''MPI_Test'', mpi_test), (''MPI_Waitall'', mpi_waitall),
     (''MPI_Testall'', mpi_testall),
     (''MPI_Bcast'', mpi_bcast), (''MPI_IBcast'', mpi_ibcast), (''MPI_Alltoallv'', mpi_alltoallv),
     (''MPI_Alltoall'', mpi_alltoall), (''MPI_Ialltoall'', mpi_ialltoall), (''MPI_Gather'', mpi_gather),
     (''MPI_Igather'', mpi_igather), (''MPI_Allgather'', mpi_allgather), (''MPI_Iallgather'', mpi_iallgather),
     (''MPI_Reduce'', mpi_reduce), (''MPI_Ireduce'', mpi_ireduce), (''MPI_Allreduce'', mpi_allreduce),
     (''MPI_Iallreduce'', mpi_iallreduce)]"

definition name2type :: "string \<Rightarrow> mpi_transfer" where
  "name2type name = (case mpi_member transfer_names name of Some t \<Rightarrow> t | None \<Rightarrow> mpi_other)"

text \<open>The position of a request in its list, \<open>None\<close> is \<open>end()\<close>.\<close>

fun find_request :: "u64 \<Rightarrow> mpi_info list \<Rightarrow> nat option" where
  "find_request a [] = None"
| "find_request a (i # is) = (if in_real_addr i = a then Some 0 else map_option Suc (find_request a is))"

definition getAsyncSend :: "u64 \<Rightarrow> mpi_data \<Rightarrow> nat option" where
  "getAsyncSend a s = find_request a (async_send s)"

definition getAsyncOther :: "u64 \<Rightarrow> mpi_data \<Rightarrow> nat option" where
  "getAsyncOther a s = find_request a (async_other s)"

definition getAsyncRecv :: "u64 \<Rightarrow> mpi_data \<Rightarrow> nat option" where
  "getAsyncRecv a s = find_request a (async_recv s)"

definition erase_at :: "nat \<Rightarrow> 'a list \<Rightarrow> 'a list" where
  "erase_at k xs = take k xs @ drop (Suc k) xs"

definition handleRequestCompletion :: "mpi_request \<Rightarrow> mpi_data \<Rightarrow> mpi_data option" where
  "handleRequestCompletion r s = (case getAsyncSend (req_addr r) s of
     Some k \<Rightarrow> Some (s\<lparr>sentBytes := sentBytes s + in_msgSize (async_send s ! k),
         totalSentMessages := totalSentMessages s + 1, async_send := erase_at k (async_send s)\<rparr>)
   | None \<Rightarrow> (case getAsyncRecv (req_addr r) s of
       Some k \<Rightarrow> Some (let b = in_msgSize (async_recv s ! k);
           s = updateReceivedMatrix (of_int (req_source r)) b (s\<lparr>receivedBytes := receivedBytes s + b,
             totalReceivedMessages := totalReceivedMessages s + 1\<rparr>)
           in s\<lparr>async_recv := erase_at k (async_recv s)\<rparr>)
     | None \<Rightarrow> (case getAsyncOther (req_addr r) s of
         Some k \<Rightarrow> Some (s\<lparr>async_other := erase_at k (async_other s)\<rparr>)
       | None \<Rightarrow> if req_source r = -1 then Some s else None)))"

fun handle_requests :: "mpi_request list \<Rightarrow> mpi_data \<Rightarrow> mpi_data option" where
  "handle_requests [] s = Some s"
| "handle_requests (r # rs) s = (case handleRequestCompletion r s of None \<Rightarrow> None | Some s \<Rightarrow> handle_requests rs s)"

text \<open>The loop over the requests of the client; reading beyond them is undefined.\<close>

definition handle_many :: "mpi_call_msg \<Rightarrow> mpi_data \<Rightarrow> mpi_data option" where
  "handle_many msg s = (if nat (mc_counter msg) \<le> length (mc_reqs msg)
     then handle_requests (take (nat (mc_counter msg)) (mc_reqs msg)) s else None)"

text \<open>A product of \<open>int\<close>s.\<close>

definition int_times :: "int \<Rightarrow> int \<Rightarrow> int option" where
  "int_times a b = (if - (2 ^ 31) \<le> a * b \<and> a * b < 2 ^ 31 then Some (a * b) else None)"

definition sent_product :: "mpi_call_msg \<Rightarrow> int option" where
  "sent_product msg = int_times (mc_size msg) (mc_datatype msg)"

definition sent_all :: "mpi_call_msg \<Rightarrow> int option" where
  "sent_all msg = (case sent_product msg of None \<Rightarrow> None | Some b \<Rightarrow> int_times b (mc_comm_size msg))"

definition recv_all :: "mpi_call_msg \<Rightarrow> int option" where
  "recv_all msg = (case int_times (mc_opt_recvsize msg) (mc_opt_recvdatatype msg) of
     None \<Rightarrow> None | Some b \<Rightarrow> int_times b (mc_comm_size msg))"

fun alltoallv_loop :: "mpi_call_msg \<Rightarrow> int list \<Rightarrow> int list \<Rightarrow> nat \<Rightarrow> mpi_data \<Rightarrow> mpi_data option" where
  "alltoallv_loop msg ss rs 0 s = Some s"
| "alltoallv_loop msg (x # ss) (y # rs) (Suc n) s =
    (case (int_times x (mc_datatype msg), int_times y (mc_opt_recvdatatype msg)) of
       (Some a, Some b) \<Rightarrow> alltoallv_loop msg ss rs n
         (s\<lparr>alltoallSentBytes := alltoallSentBytes s + of_int a,
            alltoallReceivedBytes := alltoallReceivedBytes s + of_int b\<rparr>)
     | _ \<Rightarrow> None)"
| "alltoallv_loop msg ss rs (Suc n) s = None"

subsection \<open>One call\<close>

text \<open>The first part of \<open>visit\<close>: the blocking calls.\<close>

definition count_blocking :: "mpi_transfer \<Rightarrow> u64 \<Rightarrow> mpi_data \<Rightarrow> mpi_data" where
  "count_blocking t bytes s =
    (if t = mpi_send then s\<lparr>sentBytes := sentBytes s + bytes, totalSentMessages := totalSentMessages s + 1\<rparr>
     else if t = mpi_recv
     then s\<lparr>receivedBytes := receivedBytes s + bytes, totalReceivedMessages := totalReceivedMessages s + 1\<rparr>
     else s)"

definition bcast_bytes :: "mpi_call_msg \<Rightarrow> u64 \<Rightarrow> mpi_data \<Rightarrow> mpi_data" where
  "bcast_bytes msg b s = (if mc_root msg = md_processor_id s then s\<lparr>bcastSentBytes := bcastSentBytes s + b\<rparr>
     else s\<lparr>bcastReceivedBytes := bcastReceivedBytes s + b\<rparr>)"

definition alltoall_bytes :: "mpi_call_msg \<Rightarrow> mpi_data \<Rightarrow> mpi_data option" where
  "alltoall_bytes msg s = (case (sent_all msg, recv_all msg) of
     (Some a, Some b) \<Rightarrow> Some (s\<lparr>alltoallSentBytes := alltoallSentBytes s + of_int a,
       alltoallReceivedBytes := alltoallReceivedBytes s + of_int b\<rparr>)
   | _ \<Rightarrow> None)"

definition gather_bytes :: "mpi_call_msg \<Rightarrow> u64 \<Rightarrow> mpi_data \<Rightarrow> mpi_data option" where
  "gather_bytes msg b s =
    (let s = s\<lparr>gatherSentBytes := gatherSentBytes s + b\<rparr>
     in if mc_root msg = md_processor_id s
        then map_option (\<lambda>a. s\<lparr>gatherReceivedBytes := gatherReceivedBytes s + of_int a\<rparr>) (recv_all msg)
        else Some s)"

definition allgather_bytes :: "mpi_call_msg \<Rightarrow> u64 \<Rightarrow> mpi_data \<Rightarrow> mpi_data option" where
  "allgather_bytes msg b s = map_option
     (\<lambda>a. s\<lparr>allgatherSentBytes := allgatherSentBytes s + b,
            allgatherReceivedBytes := allgatherReceivedBytes s + of_int a\<rparr>) (recv_all msg)"

definition reduce_bytes :: "mpi_call_msg \<Rightarrow> u64 \<Rightarrow> mpi_data \<Rightarrow> mpi_data" where
  "reduce_bytes msg b s = (if mc_root msg = md_processor_id s then s\<lparr>reduceRootBytes := reduceRootBytes s + b\<rparr>
     else s\<lparr>reduceNotRootBytes := reduceNotRootBytes s + b\<rparr>)"

definition allreduce_bytes :: "u64 \<Rightarrow> mpi_data \<Rightarrow> mpi_data" where
  "allreduce_bytes b s = s\<lparr>allreduceBytes := allreduceBytes s + b\<rparr>"

text \<open>The switch.  Its cases compute \<open>size * datatype\<close> again, with the same result.\<close>

definition mpi_transfer_step :: "mpi_transfer \<Rightarrow> instr \<Rightarrow> mpi_call_msg \<Rightarrow> u64 \<Rightarrow> mpi_data \<Rightarrow> mpi_data option" where
  "mpi_transfer_step t I msg bytes s =
    (let other = updateAsyncReqList I msg (-1) 0 in case t of
       mpi_send \<Rightarrow> Some s
     | mpi_isend \<Rightarrow> Some (updateAsyncReqList I msg 2 bytes s)
     | mpi_recv \<Rightarrow> Some (updateReceivedMatrix (of_int (mc_other msg)) bytes s)
     | mpi_irecv \<Rightarrow> Some (updateAsyncReqList I msg 1 bytes s)
     | mpi_bcast \<Rightarrow> Some (bcast_bytes msg bytes s)
     | mpi_ibcast \<Rightarrow> Some (other (bcast_bytes msg bytes s))
     | mpi_alltoallv \<Rightarrow> alltoallv_loop msg (mc_sizes msg) (mc_opt_recvsizes msg) (nat (mc_comm_size msg)) s
     | mpi_alltoall \<Rightarrow> alltoall_bytes msg s
     | mpi_ialltoall \<Rightarrow> map_option other (alltoall_bytes msg s)
     | mpi_gather \<Rightarrow> gather_bytes msg bytes s
     | mpi_igather \<Rightarrow> map_option other (gather_bytes msg bytes s)
     | mpi_allgather \<Rightarrow> allgather_bytes msg bytes s
     | mpi_iallgather \<Rightarrow> map_option other (allgather_bytes msg bytes s)
     | mpi_reduce \<Rightarrow> Some (reduce_bytes msg bytes s)
     | mpi_ireduce \<Rightarrow> Some (other (reduce_bytes msg bytes s))
     | mpi_allreduce \<Rightarrow> Some (allreduce_bytes bytes s)
     | mpi_iallreduce \<Rightarrow> Some (other (allreduce_bytes bytes s))
     | mpi_wait \<Rightarrow> handleRequestCompletion (mc_req_data msg) s
     | mpi_test \<Rightarrow> if mc_flag msg \<noteq> 0 then handleRequestCompletion (mc_req_data msg) s else Some s
     | mpi_waitall \<Rightarrow> handle_many msg s
     | mpi_testall \<Rightarrow> if mc_flag msg \<noteq> 0 then handle_many msg s else Some s
     | mpi_other \<Rightarrow> Some s)"

definition mpi_data_visit :: "ir_module \<Rightarrow> instr \<Rightarrow> mpi_call_msg \<Rightarrow> mpi_data \<Rightarrow> mpi_data option" where
  "mpi_data_visit M I msg s = (case (called_name M I, sent_product msg) of
     (Some name, Some b) \<Rightarrow> if name = [] then None
       else (let t = name2type name; bytes = of_int b
             in mpi_transfer_step t I msg bytes (count_blocking t bytes s))
   | _ \<Rightarrow> None)"

fun mpi_data_run :: "ir_module \<Rightarrow> (instr \<times> mpi_call_msg) list \<Rightarrow> mpi_data \<Rightarrow> mpi_data option" where
  "mpi_data_run M [] s = Some s"
| "mpi_data_run M ((I, msg) # xs) s = (case mpi_data_visit M I msg s of None \<Rightarrow> None | Some s \<Rightarrow> mpi_data_run M xs s)"

subsection \<open>The output\<close>

definition mpi_data_rows :: "mpi_data \<Rightarrow> (string \<times> u64) list" where
  "mpi_data_rows s = [
     (''sent_bytes'', sentBytes s), (''received_bytes'', receivedBytes s),
     (''sent_messages'', totalSentMessages s), (''received_messages'', totalReceivedMessages s),
     (''bcast_sent_bytes'', bcastSentBytes s), (''bcast_received_bytes'', bcastReceivedBytes s),
     (''alltoall_sent_bytes'', alltoallSentBytes s), (''alltoall_received_bytes'', alltoallReceivedBytes s),
     (''gather_sent_bytes'', gatherSentBytes s), (''gather_received_bytes'', gatherReceivedBytes s),
     (''allgather_sent_bytes'', allgatherSentBytes s), (''allgather_received_bytes'', allgatherReceivedBytes s),
     (''reduce_root_bytes'', reduceRootBytes s), (''reduce_not_root_bytes'', reduceNotRootBytes s),
     (''allreduce_bytes'', allreduceBytes s)]"

definition matrix_entry :: "u32 \<times> u64 \<times> u64 \<Rightarrow> json_event list" where
  "matrix_entry e = StartObject # [JString ''source'', JUint64 (ucast (fst e)),
     JString ''received_bytes'', JUint64 (fst (snd e)), JString ''received_messages'', JUint64 (snd (snd e))] @ [EndObject]"

definition mpi_data_JSONdump :: "mpi_data \<Rightarrow> json_event list" where
  "mpi_data_JSONdump s = JString ''mpiDataExchanged'' # (StartObject # row_events (mpi_data_rows s) @ [EndObject])
     @ JString ''mpiCommunicationVector'' # (StartArray # concat (map matrix_entry (matrixReceived s)) @ [EndArray])"

lemma mpi_data_JSONdump_wf: "json_members (mpi_data_JSONdump s)"
proof -
  have rows: "json_members (row_events rows)" for rows by (auto simp: row_events_def intro!: json_wf)
  have entry: "json_elements (matrix_entry e)" for e
    unfolding matrix_entry_def
    by (intro json_one_value_element json_value_object) (intro json_member_uint json_members_Nil)
  have "json_members (JString ''mpiCommunicationVector'' # (StartArray # concat (map matrix_entry (matrixReceived s)) @ [EndArray]) @ [])"
    by (intro json_member json_value_array json_elements_concat json_members_Nil) (auto simp: entry)
  from json_member[OF json_value_object[OF rows] this] show ?thesis by (simp add: mpi_data_JSONdump_def)
qed

end
