(* ===== verification/Mpi_Map.thy ===== *)
theory Mpi_Map
  imports Mpi_Data Branch_Entropy
begin

text \<open>
  \<open>library/MPImap.cc\<close>: the trace of the MPI calls of a process in the format of DIMEMAS, and the data base
  in which the processes of the decoupled version match their messages.  A blocking call puts its
  messages into the data base and waits there for the messages of its partners.  \<open>visit\<close> extracts the
  call and prints its lines; what it does on the data base is a list of commands, which \<open>db_exec\<close>
  executes one at a time, so that those of several processes can be interleaved.  The constants
  \<open>MPI_ANY_SOURCE\<close> and \<open>MPI_ANY_TAG\<close> of the MPI library are parameters.
\<close>

subsection \<open>State\<close>

record mpi_constants =
  MPI_ANY_SOURCE :: int
  MPI_ANY_TAG :: int

definition PUT_SEND_INFO :: int where "PUT_SEND_INFO = 1"
definition GET_SEND_INFO :: int where "GET_SEND_INFO = 2"
definition PUT_RECV_INFO :: int where "PUT_RECV_INFO = 3"
definition GET_RECV_INFO :: int where "GET_RECV_INFO = 4"

record mpi_call =
  cl_type :: int
  cl_id_s :: int
  cl_id_r :: int
  cl_tag :: int
  cl_comm :: u64
  cl_inst :: u64
  cl_dif :: u64
  cl_I :: nat
  cl_msgSize :: u64

definition zero_call :: mpi_call where
  "zero_call = \<lparr>cl_type = 0, cl_id_s = 0, cl_id_r = 0, cl_tag = 0, cl_comm = 0, cl_inst = 0, cl_dif = 0, cl_I = 0,
     cl_msgSize = 0\<rparr>"

record mpi_db =
  s_call :: "mpi_call list"
  r_call :: "mpi_call list"

record mpi_map =
  mm_thread_id :: int
  mm_processor_id :: int
  mm_accMode :: int
  mm_async_send :: "(u64 \<times> mpi_call) list"
  mm_async_recv :: "(u64 \<times> mpi_call) list"
  mm_previousCount :: u64
  mm_index :: u64
  mm_inFunction :: int
  mm_mode :: int
  mm_tmpDelta :: "32 word"

definition MPImap :: "int \<Rightarrow> int \<Rightarrow> int \<Rightarrow> mpi_map" where
  "MPImap thread_id processor_id accMode = \<lparr>mm_thread_id = thread_id, mm_processor_id = processor_id,
     mm_accMode = accMode, mm_async_send = [], mm_async_recv = [], mm_previousCount = 0, mm_index = 0,
     mm_inFunction = 0, mm_mode = 0, mm_tmpDelta = 0\<rparr>"

subsection \<open>Lines of the trace\<close>

definition nl :: string where "nl = [CHR 0x0A]"

definition map_printHeader :: string where
  "map_printHeader = ''thread_id,processor_id,current_index,type,subtype,completion_status,num_inst_diff,local_index_recv,other_id,other_index'' @ nl"

fun colons :: "string list \<Rightarrow> string" where
  "colons [] = []"
| "colons [x] = x"
| "colons (x # y # xs) = x @ '':'' @ colons (y # xs)"

definition show_u64 :: "u64 \<Rightarrow> string" where
  "show_u64 n = to_string (uint n)"

text \<open>\<open>dim:\<close>kind\<open>:\<close>process\<open>:\<close>thread and more fields.\<close>

definition dim :: "string \<Rightarrow> mpi_map \<Rightarrow> string list \<Rightarrow> string" where
  "dim kind m rest =
    colons (''dim'' # kind # to_string (mm_processor_id m) # to_string (mm_thread_id m) # rest) @ nl"

definition dim_insts :: "mpi_map \<Rightarrow> u64 \<Rightarrow> string" where
  "dim_insts m n = dim ''1'' m [show_u64 n]"

definition dim_event :: "mpi_map \<Rightarrow> string \<Rightarrow> string" where
  "dim_event m e = dim ''20'' m [e]"

definition dim_end :: "mpi_map \<Rightarrow> string" where
  "dim_end m = dim ''0'' m []"

definition dim_message :: "string \<Rightarrow> mpi_map \<Rightarrow> int \<Rightarrow> mpi_call \<Rightarrow> string \<Rightarrow> string" where
  "dim_message kind m partner u mode = dim kind m [to_string partner, ''-1'', show_u64 (cl_msgSize u),
     to_string (cl_tag u), show_u64 (cl_comm u), mode]"

definition in_function :: "mpi_map \<Rightarrow> string \<Rightarrow> string" where
  "in_function m s = (if mm_inFunction m \<ge> 1 then s else [])"

subsection \<open>Matching\<close>

text \<open>\<open>Some\<close> is the result 1, with the source that \<open>b\<close> gets.\<close>

definition items_are_equal :: "mpi_constants \<Rightarrow> mpi_call \<Rightarrow> mpi_call \<Rightarrow> mpi_call option" where
  "items_are_equal K a b =
    (if cl_id_s a \<noteq> cl_id_s b \<and> cl_id_s b \<noteq> MPI_ANY_SOURCE K \<and> cl_id_s a \<noteq> MPI_ANY_SOURCE K then None
     else if cl_id_r a \<noteq> cl_id_r b then None
     else if cl_tag a \<noteq> cl_tag b \<and> cl_tag a \<noteq> MPI_ANY_TAG K \<and> cl_tag b \<noteq> MPI_ANY_TAG K then None
     else if cl_comm a \<noteq> cl_comm b then None
     else Some (if cl_id_s b = MPI_ANY_SOURCE K then b\<lparr>cl_id_s := cl_id_s a\<rparr> else b))"

text \<open>The first entry of a list that matches: its index and the query after the match.\<close>

fun find_call :: "mpi_constants \<Rightarrow> mpi_call list \<Rightarrow> mpi_call \<Rightarrow> (nat \<times> mpi_call) option" where
  "find_call K [] q = None"
| "find_call K (a # as) q = (case items_are_equal K a q of
     Some q \<Rightarrow> Some (0, q)
   | None \<Rightarrow> map_option (\<lambda>(i, q). (Suc i, q)) (find_call K as q))"

definition send_msg_to_db :: "mpi_call \<Rightarrow> mpi_db \<Rightarrow> mpi_db" where
  "send_msg_to_db msg db = (if cl_type msg = PUT_SEND_INFO then db\<lparr>s_call := s_call db @ [msg]\<rparr>
     else db\<lparr>r_call := r_call db @ [msg]\<rparr>)"

text \<open>\<open>None\<close> is \<open>INFO_NOT_FOUND\<close>.\<close>

definition recv_msg_from_db :: "mpi_constants \<Rightarrow> mpi_call \<Rightarrow> mpi_db \<Rightarrow> (mpi_call \<times> mpi_db) option" where
  "recv_msg_from_db K query db =
    (let calls = (if cl_type query = GET_SEND_INFO then s_call db else r_call db) in
     case find_call K calls query of
       None \<Rightarrow> None
     | Some (i, q) \<Rightarrow> Some (q\<lparr>cl_inst := cl_inst (calls ! i), cl_dif := cl_dif (calls ! i)\<rparr>,
         if cl_type query = GET_SEND_INFO then db\<lparr>s_call := erase_at i calls\<rparr> else db\<lparr>r_call := erase_at i calls\<rparr>))"

subsection \<open>Commands on the data base\<close>

datatype db_cmd = Put mpi_call | Query mpi_call

text \<open>The lines that \<open>send_query_and_update\<close> prints when its query is answered.\<close>

definition query_lines :: "mpi_map \<Rightarrow> mpi_call \<Rightarrow> string" where
  "query_lines m u =
    (if cl_type u = GET_SEND_INFO
     then in_function m (dim_insts m (cl_dif u) @ dim_event m ''50000001:2''
       @ dim_message ''3'' m (cl_id_s u) u ''0'' @ dim_event m ''50000001:0'')
     else if cl_type u = GET_RECV_INFO
     then in_function m (dim_insts m (cl_dif u) @ dim_event m ''50000001:1''
       @ dim_message ''2'' m (cl_id_r u) u ''2'' @ dim_event m ''50000001:0'')
     else [])"

text \<open>One command; \<open>None\<close>: the loop of \<open>send_query_and_update\<close> goes on.\<close>

definition db_exec :: "mpi_constants \<Rightarrow> mpi_map \<Rightarrow> db_cmd \<Rightarrow> mpi_db \<Rightarrow> (mpi_db \<times> string) option" where
  "db_exec K m c db = (case c of
     Put u \<Rightarrow> Some (send_msg_to_db u db, [])
   | Query u \<Rightarrow> (case recv_msg_from_db K u db of None \<Rightarrow> None | Some (_, db) \<Rightarrow> Some (db, query_lines m u)))"

subsection \<open>The blocking calls\<close>

definition update_MPI_Isend :: "mpi_call \<Rightarrow> db_cmd list" where
  "update_MPI_Isend u = [Put u]"

definition update_MPI_Send :: "mpi_call \<Rightarrow> db_cmd list" where
  "update_MPI_Send u = [Put u, Query (u\<lparr>cl_type := GET_RECV_INFO\<rparr>)]"

definition update_MPI_Recv :: "mpi_call \<Rightarrow> db_cmd list" where
  "update_MPI_Recv u = [Put u, Query (u\<lparr>cl_type := GET_SEND_INFO\<rparr>)]"

definition update_MPI_Sendrecv :: "mpi_call \<Rightarrow> mpi_call \<Rightarrow> db_cmd list" where
  "update_MPI_Sendrecv u u2 =
    [Put (u\<lparr>cl_type := PUT_SEND_INFO\<rparr>), Put (u2\<lparr>cl_type := PUT_RECV_INFO\<rparr>),
     Query (u\<lparr>cl_type := GET_RECV_INFO\<rparr>), Query (u2\<lparr>cl_type := GET_SEND_INFO\<rparr>)]"

text \<open>The loops over a communicator; the result is the call with its last partner, as the code leaves it.\<close>

fun comm_loop :: "(mpi_call \<Rightarrow> db_cmd) \<Rightarrow> int \<Rightarrow> int \<Rightarrow> nat \<Rightarrow> int \<Rightarrow> mpi_call \<Rightarrow> db_cmd list \<times> mpi_call" where
  "comm_loop f out inp 0 i u = ([], u)"
| "comm_loop f out inp (Suc n) i u =
    (if cl_type u = out \<and> i \<noteq> cl_id_s u then
       (let u = u\<lparr>cl_id_r := i\<rparr>; (cs, u') = comm_loop f out inp n (i + 1) u in (f u # cs, u'))
     else if cl_type u = inp \<and> i \<noteq> cl_id_r u then
       (let u = u\<lparr>cl_id_s := i\<rparr>; (cs, u') = comm_loop f out inp n (i + 1) u in (f u # cs, u'))
     else comm_loop f out inp n (i + 1) u)"

definition comm_restore :: "int \<Rightarrow> int \<Rightarrow> mpi_call \<Rightarrow> mpi_call" where
  "comm_restore out inp u = (if cl_type u = out then u\<lparr>cl_id_r := cl_id_s u\<rparr>
     else if cl_type u = inp then u\<lparr>cl_id_s := cl_id_r u\<rparr> else u)"

definition send_msg_to_all_comm :: "mpi_call \<Rightarrow> int \<Rightarrow> db_cmd list \<times> mpi_call" where
  "send_msg_to_all_comm u n = (case comm_loop Put PUT_SEND_INFO PUT_RECV_INFO (nat n) 0 u of
     (cs, u) \<Rightarrow> (cs, comm_restore PUT_SEND_INFO PUT_RECV_INFO u))"

definition send_query_and_update_comm :: "mpi_call \<Rightarrow> int \<Rightarrow> db_cmd list \<times> mpi_call" where
  "send_query_and_update_comm u n = (case comm_loop Query GET_RECV_INFO GET_SEND_INFO (nat n) 0 u of
     (cs, u) \<Rightarrow> (cs, comm_restore GET_RECV_INFO GET_SEND_INFO u))"

definition update_MPI_Bcast :: "mpi_call \<Rightarrow> mpi_call_msg \<Rightarrow> db_cmd list" where
  "update_MPI_Bcast u msg =
    (let (puts, u) = (if cl_id_s u = cl_id_r u
           then send_msg_to_all_comm (u\<lparr>cl_type := PUT_SEND_INFO\<rparr>) (mc_comm_size msg)
           else (let u = u\<lparr>cl_type := PUT_RECV_INFO\<rparr> in ([Put u], u)))
     in puts @ (if cl_id_s u = cl_id_r u
           then fst (send_query_and_update_comm (u\<lparr>cl_type := GET_RECV_INFO\<rparr>) (mc_comm_size msg))
           else [Query (u\<lparr>cl_type := GET_SEND_INFO\<rparr>)]))"

definition update_MPI_Reduce :: "mpi_call \<Rightarrow> mpi_call_msg \<Rightarrow> db_cmd list" where
  "update_MPI_Reduce u msg =
    (let u = u\<lparr>cl_type := PUT_SEND_INFO\<rparr>;
         root = (cl_id_s u = cl_id_r u);
         (puts, u2) = (if root then send_msg_to_all_comm (u\<lparr>cl_type := PUT_RECV_INFO\<rparr>) (mc_comm_size msg) else ([], u));
         root2 = (cl_id_s u2 = cl_id_r u2);
         (queries, u3) = (if root2 then send_query_and_update_comm (u2\<lparr>cl_type := GET_SEND_INFO\<rparr>) (mc_comm_size msg)
           else ([], u2))
     in Put u # (if root then puts @ [Put u2] else []) @ (if root2 then queries @ [Query u3] else [])
        @ [Query (u3\<lparr>cl_type := GET_RECV_INFO\<rparr>)])"

definition update_MPI_Allreduce :: "mpi_call \<Rightarrow> mpi_call_msg \<Rightarrow> db_cmd list" where
  "update_MPI_Allreduce u msg =
    (let (c1, u) = send_msg_to_all_comm (u\<lparr>cl_type := PUT_SEND_INFO\<rparr>) (mc_comm_size msg); p1 = Put u;
         (c2, u) = send_msg_to_all_comm (u\<lparr>cl_type := PUT_RECV_INFO\<rparr>) (mc_comm_size msg); p2 = Put u;
         (c3, u) = send_query_and_update_comm (u\<lparr>cl_type := GET_SEND_INFO\<rparr>) (mc_comm_size msg); p3 = Query u;
         (c4, u) = send_query_and_update_comm (u\<lparr>cl_type := GET_RECV_INFO\<rparr>) (mc_comm_size msg); p4 = Query u
     in c1 @ p1 # c2 @ p2 # c3 @ p3 # c4 @ [p4])"

definition update_MPI_Scatter :: "mpi_call \<Rightarrow> mpi_call_msg \<Rightarrow> db_cmd list" where
  "update_MPI_Scatter u msg =
    (let root = (cl_id_s u = cl_id_r u);
         (puts, u2) = (if root then send_msg_to_all_comm (u\<lparr>cl_type := PUT_SEND_INFO\<rparr>) (mc_comm_size msg) else ([], u));
         root2 = (cl_id_s u2 = cl_id_r u2);
         (queries, u3) = (if root2 then send_query_and_update_comm (u2\<lparr>cl_type := GET_RECV_INFO\<rparr>) (mc_comm_size msg)
           else ([], u2))
     in Put u # (if root then puts @ [Put u2] else []) @ (if root2 then queries @ [Query u3] else [])
        @ [Query (u3\<lparr>cl_type := GET_SEND_INFO\<rparr>)])"

subsection \<open>What a call gives\<close>

text \<open>An extraction returns the analysis, the data base, the call and the lines.\<close>

type_synonym extraction = "mpi_map \<times> mpi_db \<times> mpi_call \<times> string"

definition call_bytes :: "mpi_call_msg \<Rightarrow> u64 option" where
  "call_bytes msg = map_option of_int (sent_product msg)"

definition extract_MPI_Init :: "mpi_map \<Rightarrow> mpi_call \<Rightarrow> string" where
  "extract_MPI_Init m u = dim_insts m (cl_dif u) @ dim_event m ''50000003:31''
     @ dim ''10'' m [''0'', ''1'', ''0'', ''0'', ''0'', ''0''] @ dim_event m ''50000003:0''"

definition extract_MPI_Finalize :: "mpi_map \<Rightarrow> mpi_call \<Rightarrow> string" where
  "extract_MPI_Finalize m u = dim_insts m (cl_dif u) @ dim_event m ''50000003:32'' @ dim_end m
     @ dim_event m ''50000003:0''"

definition extract_MPI_Send :: "mpi_map \<Rightarrow> mpi_call_msg \<Rightarrow> mpi_call \<Rightarrow> mpi_call option" where
  "extract_MPI_Send m msg u = map_option (\<lambda>b. u\<lparr>cl_type := PUT_SEND_INFO, cl_id_s := mm_processor_id m,
     cl_id_r := mc_other msg, cl_tag := mc_tag msg, cl_comm := mc_comm msg, cl_msgSize := b\<rparr>) (call_bytes msg)"

definition extract_MPI_Recv :: "mpi_map \<Rightarrow> mpi_call_msg \<Rightarrow> mpi_call \<Rightarrow> mpi_call option" where
  "extract_MPI_Recv m msg u = map_option (\<lambda>b. u\<lparr>cl_type := PUT_RECV_INFO, cl_id_s := mc_other msg,
     cl_id_r := mm_processor_id m, cl_tag := mc_tag msg, cl_comm := mc_comm msg, cl_msgSize := b\<rparr>) (call_bytes msg)"

definition extract_MPI_Sendrecv :: "mpi_map \<Rightarrow> mpi_call_msg \<Rightarrow> mpi_call \<Rightarrow> mpi_call \<Rightarrow> mpi_call \<times> mpi_call" where
  "extract_MPI_Sendrecv m msg u u2 =
    (u\<lparr>cl_type := PUT_SEND_INFO, cl_id_s := mm_processor_id m, cl_id_r := mc_other msg, cl_tag := mc_tag msg,
       cl_comm := mc_comm msg\<rparr>,
     u2\<lparr>cl_type := PUT_RECV_INFO, cl_id_s := mc_other2 msg, cl_id_r := mm_processor_id m, cl_tag := mc_tag2 msg,
       cl_comm := mc_comm msg\<rparr>)"

fun find_addr :: "u64 \<Rightarrow> (u64 \<times> mpi_call) list \<Rightarrow> nat option" where
  "find_addr a [] = None"
| "find_addr a (x # xs) = (if fst x = a then Some 0 else map_option Suc (find_addr a xs))"

definition wait_lines :: "mpi_map \<Rightarrow> u64 \<Rightarrow> string" where
  "wait_lines m n = in_function m (dim_insts m n @ dim_event m ''50000001:5'' @ dim_end m @ dim_event m ''50000001:0'')"

definition test_lines :: "mpi_map \<Rightarrow> u64 \<Rightarrow> string" where
  "test_lines m n = in_function m (dim_insts m n @ dim_event m ''50000003:39'' @ dim_event m ''50000003:0'')"

definition recv_lines :: "string \<Rightarrow> string \<Rightarrow> mpi_map \<Rightarrow> u64 \<Rightarrow> mpi_call \<Rightarrow> string" where
  "recv_lines open_event close_event m n u = in_function m (dim_insts m n @ dim_event m open_event
     @ dim_message ''3'' m (cl_id_s u) u ''2'' @ dim_event m close_event)"

text \<open>A successful test of an \<open>MPI_Irecv\<close> takes the matching message out of the data base, if it is there.\<close>

definition test_irecv :: "mpi_constants \<Rightarrow> nat \<Rightarrow> mpi_call_msg \<Rightarrow> mpi_call \<Rightarrow> mpi_map \<Rightarrow> mpi_db \<Rightarrow> extraction option" where
  "test_irecv K k msg u m db =
    (if req_source (mc_req_data msg) < 0 then None
     else let info = snd (mm_async_recv m ! k);
         v = (if cl_id_s info = -1 then info\<lparr>cl_id_s := req_source (mc_req_data msg)\<rparr> else info)\<lparr>cl_dif := cl_dif u\<rparr>;
         (v, db) = (case find_call K (s_call db) v of
             None \<Rightarrow> (v, db) | Some (i, v) \<Rightarrow> (v, db\<lparr>s_call := erase_at i (s_call db)\<rparr>))
       in Some (m\<lparr>mm_async_recv := erase_at k (mm_async_recv m)\<rparr>, db, v,
            recv_lines ''50000003:39'' ''50000003:0'' m (cl_dif u) v))"

text \<open>\<open>completion\<close> is \<open>NULL\<close> for \<open>MPI_Wait\<close>, else whether the \<open>MPI_Test\<close> succeeded.\<close>

definition extract_MPI_Wait :: "mpi_constants \<Rightarrow> bool option \<Rightarrow> mpi_call_msg \<Rightarrow> mpi_call \<Rightarrow> mpi_map \<Rightarrow> mpi_db
    \<Rightarrow> extraction option" where
  "extract_MPI_Wait K completion msg u m db =
    (let n = cl_dif u in case find_addr (req_addr (mc_req_data msg)) (mm_async_send m) of
       Some k \<Rightarrow> Some (if completion = Some False then m else m\<lparr>mm_async_send := erase_at k (mm_async_send m)\<rparr>, db, u,
         if completion = None then wait_lines m n else test_lines m n)
     | None \<Rightarrow> (case find_addr (req_addr (mc_req_data msg)) (mm_async_recv m) of
         None \<Rightarrow> None
       | Some k \<Rightarrow>
           let v = (snd (mm_async_recv m ! k))\<lparr>cl_dif := n\<rparr> in
           (case completion of
              None \<Rightarrow> Some (m\<lparr>mm_async_recv := erase_at k (mm_async_recv m)\<rparr>, db, v,
                recv_lines ''50000001:5'' ''50000001:0'' m n v)
            | Some False \<Rightarrow> Some (m, db, v, test_lines m n)
            | Some True \<Rightarrow> test_irecv K k msg u m db)))"

definition extract_MPI_Bcast :: "mpi_map \<Rightarrow> mpi_call_msg \<Rightarrow> mpi_call \<Rightarrow> mpi_call" where
  "extract_MPI_Bcast m msg u = u\<lparr>cl_id_s := mc_other msg, cl_id_r := mm_processor_id m,
     cl_type := (if mc_other msg = mm_processor_id m then PUT_SEND_INFO else PUT_RECV_INFO), cl_comm := mc_comm msg\<rparr>"

definition extract_MPI_Reduce :: "mpi_map \<Rightarrow> mpi_call_msg \<Rightarrow> mpi_call \<Rightarrow> mpi_call" where
  "extract_MPI_Reduce m msg u = u\<lparr>cl_id_s := mm_processor_id m, cl_id_r := mc_other msg, cl_type := PUT_SEND_INFO,
     cl_comm := mc_comm msg\<rparr>"

definition extract_MPI_Allreduce :: "mpi_map \<Rightarrow> mpi_call_msg \<Rightarrow> mpi_call \<Rightarrow> (mpi_call \<times> string) option" where
  "extract_MPI_Allreduce m msg u = (case call_bytes msg of
     None \<Rightarrow> None
   | Some b \<Rightarrow> let u = u\<lparr>cl_id_s := mm_processor_id m, cl_type := PUT_SEND_INFO, cl_msgSize := b, cl_comm := mc_comm msg\<rparr>
       in Some (u, in_function m (dim_event m ''50000002:10''
            @ dim ''10'' m [''11'', show_u64 (cl_comm u), ''0'', ''0'', show_u64 (cl_msgSize u), to_string (mc_datatype msg)]
            @ dim_end m @ dim_event m ''50000002:0'')))"

definition extract_MPI_Scatter :: "mpi_map \<Rightarrow> mpi_call_msg \<Rightarrow> mpi_call \<Rightarrow> mpi_call" where
  "extract_MPI_Scatter m msg u = u\<lparr>cl_id_s := mc_other msg, cl_id_r := mm_processor_id m, cl_type := PUT_RECV_INFO,
     cl_comm := mc_comm msg\<rparr>"

definition extract_MPI_Isend :: "mpi_call_msg \<Rightarrow> mpi_call \<Rightarrow> mpi_map \<Rightarrow> (mpi_map \<times> mpi_call \<times> string) option" where
  "extract_MPI_Isend msg u m = (case extract_MPI_Send m msg u of
     None \<Rightarrow> None
   | Some u \<Rightarrow> Some (m\<lparr>mm_async_send := mm_async_send m @ [(req_addr (mc_req_data msg), u)]\<rparr>, u,
       in_function m (dim_insts m (cl_dif u) @ dim_event m ''50000001:3''
         @ dim_message ''2'' m (cl_id_r u) u ''2'' @ dim_event m ''50000001:0'')))"

definition extract_MPI_Irecv :: "mpi_call_msg \<Rightarrow> mpi_call \<Rightarrow> mpi_map \<Rightarrow> (mpi_map \<times> mpi_call \<times> string) option" where
  "extract_MPI_Irecv msg u m = (case extract_MPI_Recv m msg u of
     None \<Rightarrow> None
   | Some u \<Rightarrow> Some (m\<lparr>mm_async_recv := mm_async_recv m @ [(req_addr (mc_req_data msg), u)]\<rparr>, u,
       in_function m (dim_insts m (cl_dif u) @ dim_event m ''50000001:4''
         @ dim_message ''3'' m (cl_id_s u) u ''1'' @ dim_event m ''50000001:0'')))"

subsection \<open>The calls by their names\<close>

datatype map_call = Map_Send | Map_Recv | Map_Isend | Map_Irecv | Map_Wait | Map_Test | Map_Bcast | Map_Reduce
  | Map_Gather | Map_Allreduce | Map_Allgather | Map_Scatter | Map_Init | Map_Finalize

definition map_names :: "(string \<times> map_call) list" where
  "map_names = [(''MPI_Send'', Map_Send), (''MPI_Recv'', Map_Recv), (''MPI_Isend'', Map_Isend),
     (''MPI_Irecv'', Map_Irecv), (''MPI_Wait'', Map_Wait), (''MPI_Test'', Map_Test), (''MPI_Bcast'', Map_Bcast),
     (''MPI_Reduce'', Map_Reduce), (''MPI_Gather'', Map_Gather), (''MPI_Gatherv'', Map_Gather),
     (''MPI_Allreduce'', Map_Allreduce), (''MPI_Allgather'', Map_Allgather), (''MPI_Allgatherv'', Map_Allgather),
     (''MPI_Alltoall'', Map_Allgather), (''MPI_Alltoallv'', Map_Allgather), (''MPI_Scatter'', Map_Scatter),
     (''MPI_Scatterv'', Map_Scatter), (''MPI_Init'', Map_Init), (''MPI_Finalize'', Map_Finalize)]"

definition map_call_of :: "string \<Rightarrow> map_call option" where
  "map_call_of name = map_option snd (find (\<lambda>(n, _). mpiMatchName name n) map_names)"

definition is_sendrecv :: "string \<Rightarrow> bool" where
  "is_sendrecv name \<longleftrightarrow> mpiMatchName name ''MPI_Sendrecv'' \<or> mpiMatchName name ''MPI_Sendrecv_replace''"

text \<open>The instructions between the calls of \<open>MPI_Test\<close> that fail.  \<open>tmpDelta\<close> is an \<open>int\<close>: it takes the
  lower half of a count, and gives it back with its sign extended.\<close>

definition add_delta :: "mpi_call \<Rightarrow> mpi_map \<Rightarrow> 32 word" where
  "add_delta u m = ucast (scast (mm_tmpDelta m) + cl_dif u)"

definition async_delta :: "mpi_call \<Rightarrow> mpi_map \<Rightarrow> mpi_call \<times> mpi_map" where
  "async_delta u m = (if mm_mode m = 1
     then let d = (if mm_accMode m = 1 then add_delta u m else mm_tmpDelta m)
          in (u\<lparr>cl_dif := scast d\<rparr>, m\<lparr>mm_tmpDelta := 0\<rparr>)
     else (u, m))"

definition test_delta :: "mpi_call \<Rightarrow> mpi_map \<Rightarrow> mpi_call \<times> mpi_map" where
  "test_delta u m =
    (let d = (if mm_mode m = 1 \<and> mm_accMode m = 1 then add_delta u m
              else if mm_mode m = 0 then ucast (cl_dif u) else mm_tmpDelta m)
     in (u\<lparr>cl_dif := scast d\<rparr>, m\<lparr>mm_tmpDelta := d, mm_mode := 0\<rparr>))"

definition test_failed :: "mpi_call \<Rightarrow> mpi_map \<Rightarrow> mpi_map" where
  "test_failed u m = (if mm_mode m = 0 then m\<lparr>mm_mode := 1, mm_tmpDelta := ucast (cl_dif u)\<rparr>
     else if mm_accMode m = 1 then m\<lparr>mm_tmpDelta := add_delta u m\<rparr> else m)"

definition extract_first :: "mpi_constants \<Rightarrow> map_call option \<Rightarrow> mpi_call_msg \<Rightarrow> mpi_call \<Rightarrow> mpi_map \<Rightarrow> mpi_db
    \<Rightarrow> extraction option" where
  "extract_first K c msg u m db = (case c of
     None \<Rightarrow> Some (m, db, u, [])
   | Some Map_Send \<Rightarrow> map_option (\<lambda>u. (m, db, u, [])) (extract_MPI_Send m msg u)
   | Some Map_Recv \<Rightarrow> map_option (\<lambda>u. (m, db, u, [])) (extract_MPI_Recv m msg u)
   | Some Map_Isend \<Rightarrow> (case async_delta u m of (u, m) \<Rightarrow>
       map_option (\<lambda>(m, u, txt). (m, db, u, txt)) (extract_MPI_Isend msg u m))
   | Some Map_Irecv \<Rightarrow> (case async_delta u m of (u, m) \<Rightarrow>
       map_option (\<lambda>(m, u, txt). (m, db, u, txt)) (extract_MPI_Irecv msg u m))
   | Some Map_Wait \<Rightarrow> extract_MPI_Wait K None msg u m db
   | Some Map_Test \<Rightarrow> (if mc_flag msg \<noteq> 0
       then (case test_delta u m of (u, m) \<Rightarrow> extract_MPI_Wait K (Some True) msg u m db)
       else Some (test_failed u m, db, u, []))
   | Some Map_Bcast \<Rightarrow> Some (m, db, extract_MPI_Bcast m msg u, [])
   | Some Map_Reduce \<Rightarrow> Some (m, db, extract_MPI_Reduce m msg u, [])
   | Some Map_Gather \<Rightarrow> Some (m, db, extract_MPI_Reduce m msg u, [])
   | Some Map_Allreduce \<Rightarrow> map_option (\<lambda>(u, txt). (m, db, u, txt)) (extract_MPI_Allreduce m msg u)
   | Some Map_Allgather \<Rightarrow> map_option (\<lambda>(u, txt). (m, db, u, txt)) (extract_MPI_Allreduce m msg u)
   | Some Map_Scatter \<Rightarrow> Some (m, db, extract_MPI_Scatter m msg u, [])
   | Some Map_Init \<Rightarrow> Some (m, db, u, extract_MPI_Init m u)
   | Some Map_Finalize \<Rightarrow> Some (m, db, u, extract_MPI_Finalize m u))"

definition extract_info :: "mpi_constants \<Rightarrow> string \<Rightarrow> mpi_call_msg \<Rightarrow> mpi_call \<Rightarrow> mpi_call \<Rightarrow> mpi_map \<Rightarrow> mpi_db
    \<Rightarrow> (extraction \<times> mpi_call) option" where
  "extract_info K name msg u u2 m db = (case extract_first K (map_call_of name) msg u m db of
     None \<Rightarrow> None
   | Some (m, db, u, txt) \<Rightarrow>
       (let (u, u2) = (if is_sendrecv name then extract_MPI_Sendrecv m msg u u2 else (u, u2))
        in Some ((m, db, u, txt), u2)))"

text \<open>\<open>update_info\<close>: the first chain of tests (before the \<open>return\<close> that is commented out), the second chain,
  and the test for \<open>MPI_Sendrecv\<close>.  An \<open>MPI_Allreduce\<close> has no commands.\<close>

definition update_before :: "string \<Rightarrow> mpi_call \<Rightarrow> db_cmd list" where
  "update_before name u = (if mpiMatchName name ''MPI_Isend'' then update_MPI_Isend u else [])"

definition update_first :: "map_call option \<Rightarrow> mpi_call_msg \<Rightarrow> mpi_call \<Rightarrow> db_cmd list" where
  "update_first c msg u = (case c of
     Some Map_Send \<Rightarrow> update_MPI_Send u
   | Some Map_Recv \<Rightarrow> update_MPI_Recv u
   | Some Map_Isend \<Rightarrow> update_MPI_Isend u
   | Some Map_Bcast \<Rightarrow> update_MPI_Bcast u msg
   | Some Map_Reduce \<Rightarrow> update_MPI_Reduce u msg
   | Some Map_Gather \<Rightarrow> update_MPI_Reduce u msg
   | Some Map_Allgather \<Rightarrow> update_MPI_Allreduce u msg
   | Some Map_Scatter \<Rightarrow> update_MPI_Scatter u msg
   | _ \<Rightarrow> [])"

definition update_info :: "string \<Rightarrow> mpi_call_msg \<Rightarrow> mpi_call \<Rightarrow> mpi_call \<Rightarrow> db_cmd list" where
  "update_info name msg u u2 = update_before name u @ update_first (map_call_of name) msg u
     @ (if is_sendrecv name then update_MPI_Sendrecv u u2 else [])"

text \<open>\<open>visit\<close>; \<open>insts\<close> is \<open>(*mix)->getNumTotalInsts()\<close>.  The result has the commands that are left to do.\<close>

definition mpi_map_call :: "mpi_constants \<Rightarrow> ir_module \<Rightarrow> instr \<Rightarrow> mpi_call_msg \<Rightarrow> u64 \<Rightarrow> mpi_map \<Rightarrow> mpi_db
    \<Rightarrow> (mpi_map \<times> mpi_db \<times> string \<times> db_cmd list) option" where
  "mpi_map_call K M I msg insts m db = (case called_name M I of
     None \<Rightarrow> None
   | Some name \<Rightarrow>
      (let u = zero_call\<lparr>cl_dif := insts - mm_previousCount m, cl_inst := mm_index m, cl_I := i_id I\<rparr>;
           m = m\<lparr>mm_previousCount := insts\<rparr>
       in case extract_info K name msg u u m db of
         None \<Rightarrow> None
       | Some ((m, db, u, txt), u2) \<Rightarrow> Some (m\<lparr>mm_index := mm_index m + 1\<rparr>, db, txt, update_info name msg u u2)))"

definition mpi_map_visit :: "mpi_constants \<Rightarrow> ir_module \<Rightarrow> (instr \<times> mpi_call_msg) option \<Rightarrow> int \<Rightarrow> int \<Rightarrow> u64
    \<Rightarrow> mpi_map \<Rightarrow> mpi_db \<Rightarrow> (mpi_map \<times> mpi_db \<times> string \<times> db_cmd list) option" where
  "mpi_map_visit K M I tag inFunction insts m db =
    (if tag = 0 \<and> I = None \<and> inFunction = 0
     then Some (m, db, ''end of function '' @ nl @ dim_insts m (insts - mm_previousCount m), [])
     else let m = (if tag = 0 then m\<lparr>mm_previousCount := insts\<rparr> else m)\<lparr>mm_inFunction := inFunction\<rparr> in
       (case I of None \<Rightarrow> Some (m, db, [], []) | Some (I, msg) \<Rightarrow> mpi_map_call K M I msg insts m db))"

end
