(* ===== verification/Wkld_Char.thy ===== *)
theory Wkld_Char
  imports Data_Temp_Reuse Inst_Temp_Reuse Mix_Dump OpenMP_Stats
    Ilp_Visit Small_Analyses Mpi_Map
begin

text \<open>
  \<open>library/WKLDchar.cc\<close>: all the analyses of a thread.  The constructors create the analyses that the
  options ask for, \<open>analyze\<close> passes an instruction to them, \<open>JSONdump\<close> writes their results.
\<close>

subsection \<open>Options\<close>

definition ANALYZE_ILP :: u64 where "ANALYZE_ILP = 1"
definition ANALYZE_ILP_CTRL :: u64 where "ANALYZE_ILP_CTRL = 2"
definition ANALYZE_ILP_IGNORE_CTRL :: u64 where "ANALYZE_ILP_IGNORE_CTRL = 8"
definition ANALYZE_ITR :: u64 where "ANALYZE_ITR = 16"
definition ANALYZE_REG_COUNT :: u64 where "ANALYZE_REG_COUNT = 64"
definition PRINT_LOAD_STORE :: u64 where "PRINT_LOAD_STORE = 128"
definition ANALYZE_MPI_CALLS :: u64 where "ANALYZE_MPI_CALLS = 256"
definition PRINT_BRANCH :: u64 where "PRINT_BRANCH = 2048"
definition PRINT_BRANCH_COND :: u64 where "PRINT_BRANCH_COND = 4096"
definition ANALYZE_OPENMP_CALLS :: u64 where "ANALYZE_OPENMP_CALLS = 8192"
definition ANALYZE_MPI_MAP :: u64 where "ANALYZE_MPI_MAP = 16384"
definition ANALYZE_MPI_DATA :: u64 where "ANALYZE_MPI_DATA = 32768"
definition ANALYZE_EXTERNALLIBS_CALLS :: u64 where "ANALYZE_EXTERNALLIBS_CALLS = 131072"

lemmas flag_defs = ANALYZE_ILP_def ANALYZE_ILP_CTRL_def ANALYZE_ILP_IGNORE_CTRL_def ANALYZE_ITR_def ANALYZE_REG_COUNT_def
  PRINT_LOAD_STORE_def ANALYZE_MPI_CALLS_def PRINT_BRANCH_def PRINT_BRANCH_COND_def ANALYZE_OPENMP_CALLS_def
  ANALYZE_MPI_MAP_def ANALYZE_MPI_DATA_def ANALYZE_EXTERNALLIBS_CALLS_def ANALYZE_DTR_def ANALYZE_MEM_FOOTPRINT_def

definition asks :: "u64 \<Rightarrow> u64 \<Rightarrow> bool" where
  "asks flags f \<longleftrightarrow> flags AND f \<noteq> 0"

definition create :: "bool \<Rightarrow> 'a \<Rightarrow> 'a option" where
  "create b x = (if b then Some x else None)"

subsection \<open>State\<close>

text \<open>The arguments of the constructors, and the values of what \<open>BranchEntropy\<close> does not initialise.\<close>

record wkld_options =
  wo_flags :: u64
  wo_data_cache_line_size :: int
  wo_data_reuse_distance_resolution :: int
  wo_data_reuse_distance_resolution_final_bin :: int
  wo_inst_cache_line_size :: int
  wo_inst_size :: int
  wo_window_size :: nat
  wo_accMode :: int
  wo_branch_entropy_file :: string
  wo_entries :: int
  wo_shard :: int

text \<open>The thread and the process of the analyses are those of their base class; they are all the same.
  \<open>LoadStoreVerbose\<close> has no state but the lines that it has written.\<close>

record wkld_char =
  wk_thread_id :: int
  wk_processor_id :: int
  wk_ia_thread :: int
  wk_mix :: instr_mix
  wk_dtr :: "data_temp_reuse option"
  wk_itr :: "inst_temp_reuse option"
  wk_rc :: "register_count option"
  wk_ls :: "ls_line list option"
  wk_be :: "branch_entropy option"
  wk_mpi_stats :: "mpi_stats option"
  wk_mpi_map :: "mpi_map option"
  wk_mpi_data :: "mpi_data option"
  wk_ilp :: "ilp option"
  wk_openmp_stats :: "omp_stats option"
  wk_elc :: "call_counts option"

text \<open>The coupled constructor passes 0 for \<open>accMode\<close> and no data base; for the rest the two are the same.\<close>

definition WKLDchar_init :: "int \<Rightarrow> ir_module \<Rightarrow> wkld_options \<Rightarrow> int \<Rightarrow> int \<Rightarrow> wkld_char" where
  "WKLDchar_init accMode M opt thread_id processor_id = (let flags = wo_flags opt in
    \<lparr>wk_thread_id = thread_id, wk_processor_id = processor_id, wk_ia_thread = thread_id,
     wk_mix = instr_mix_init,
     wk_dtr = create (asks flags ANALYZE_DTR)
       (DataTempReuse (wo_data_cache_line_size opt) (wo_data_reuse_distance_resolution opt)
         (wo_data_reuse_distance_resolution_final_bin opt) thread_id
         (if asks flags ANALYZE_MEM_FOOTPRINT then 1 else 0)),
     wk_itr = create (asks flags ANALYZE_ITR) (InstTempReuse M (wo_inst_cache_line_size opt) (wo_inst_size opt)),
     wk_rc = create (asks flags ANALYZE_REG_COUNT) RegisterCount,
     wk_ls = create (asks flags PRINT_LOAD_STORE) [],
     wk_be = (let be = be_printHeader (BranchEntropy M thread_id processor_id False False (wo_branch_entropy_file opt)
         (wo_entries opt) (wo_shard opt))
       in if asks flags PRINT_BRANCH then Some be else if asks flags PRINT_BRANCH_COND then Some be else None),
     wk_mpi_stats = create (asks flags ANALYZE_MPI_CALLS) mpi_init,
     wk_mpi_map = create (asks flags ANALYZE_MPI_MAP) (MPImap thread_id processor_id accMode),
     wk_mpi_data = create (asks flags ANALYZE_MPI_DATA) (MPIdata processor_id),
     wk_ilp = create (asks flags ANALYZE_ILP)
       (ILP (asks flags ANALYZE_ILP_IGNORE_CTRL) (asks flags ANALYZE_ILP_CTRL) (wo_window_size opt)),
     wk_openmp_stats = create (asks flags ANALYZE_OPENMP_CALLS) omp_init,
     wk_elc = create (asks flags ANALYZE_EXTERNALLIBS_CALLS) []\<rparr>)"

definition WKLDchar_coupled :: "ir_module \<Rightarrow> wkld_options \<Rightarrow> int \<Rightarrow> int \<Rightarrow> wkld_char" where
  "WKLDchar_coupled = WKLDchar_init 0"

definition WKLDchar_decoupled :: "ir_module \<Rightarrow> wkld_options \<Rightarrow> int \<Rightarrow> int \<Rightarrow> wkld_char" where
  "WKLDchar_decoupled M opt = WKLDchar_init (wo_accMode opt) M opt"

subsection \<open>Analysing an instruction\<close>

text \<open>What the analyses read: the module, identifiers and sizes of types, which callees are external, the
  addresses of the arguments of functions; and the tables and the memory, which change from one
  instruction to the next.\<close>

record wkld_env =
  we_module :: ir_module
  we_tid :: "ir_tyid \<Rightarrow> nat"
  we_alloc_size :: "ir_type \<Rightarrow> u64"
  we_external :: "nat \<Rightarrow> bool"
  we_args_of :: "nat \<Rightarrow> nat list"

type_synonym wkld_input = "shared_tables \<times> (u64 \<Rightarrow> u64) \<times> instr"

definition ilp_env_of :: "wkld_env \<Rightarrow> shared_tables \<Rightarrow> (u64 \<Rightarrow> u64) \<Rightarrow> int \<Rightarrow> ilp_env" where
  "ilp_env_of E S mem t = \<lparr>opcode_of = module_opcode (we_module E), args_of = we_args_of E, tables = S, memory = mem,
     env_thread = t\<rparr>"

text \<open>\<open>if (this->a) this->a->visit(...)\<close>.\<close>

definition if_there :: "('a \<Rightarrow> 'a option) \<Rightarrow> 'a option \<Rightarrow> 'a option option" where
  "if_there f x = (case x of None \<Rightarrow> Some None | Some a \<Rightarrow> map_option Some (f a))"

definition wkld_analyze :: "wkld_env \<Rightarrow> wkld_input \<Rightarrow> wkld_char \<Rightarrow> wkld_char option" where
  "wkld_analyze E x w = (case x of (S, mem, I) \<Rightarrow> do {
     ilp \<leftarrow> if_there (ilp_visit (ilp_env_of E S mem (wk_ia_thread w)) I) (wk_ilp w);
     let w = w\<lparr>wk_ilp := ilp\<rparr>;
     if i_opcode I = Op_PHI then Some w else do {
       mix \<leftarrow> mix_analyze (we_tid E) I (wk_mix w);
       let CurrentIssueCycle = getNumTotalInsts mix;
       dtr \<leftarrow> if_there (dtr_visit (we_alloc_size E) S I CurrentIssueCycle) (wk_dtr w);
       itr \<leftarrow> if_there (itr_visit I CurrentIssueCycle) (wk_itr w);
       let rc = map_option (rc_visit I) (wk_rc w);
       ls \<leftarrow> if_there (\<lambda>ls. map_option ((@) ls)
         (lsv_visit (we_alloc_size E) S (wk_ia_thread w) (wk_processor_id w) I CurrentIssueCycle)) (wk_ls w);
       be \<leftarrow> if_there (be_visit (we_external E) I) (wk_be w);
       let ms = map_option (mpi_stats_visit (we_module E) I) (wk_mpi_stats w);
       let os = map_option (omp_visit (we_module E) I) (wk_openmp_stats w);
       elc \<leftarrow> if_there (elc_visit (we_module E) S mem (wk_ia_thread w) I) (wk_elc w);
       Some (w\<lparr>wk_mix := mix, wk_dtr := dtr, wk_itr := itr, wk_rc := rc, wk_ls := ls, wk_be := be, wk_mpi_stats := ms,
         wk_openmp_stats := os, wk_elc := elc\<rparr>) } })"

fun wkld_run :: "wkld_env \<Rightarrow> wkld_input list \<Rightarrow> wkld_char \<Rightarrow> wkld_char option" where
  "wkld_run E [] w = Some w"
| "wkld_run E (x # xs) w = (case wkld_analyze E x w of None \<Rightarrow> None | Some w \<Rightarrow> wkld_run E xs w)"

subsection \<open>MPI messages and updates\<close>

definition process_mpi_map :: "mpi_constants \<Rightarrow> wkld_env \<Rightarrow> (instr \<times> mpi_call_msg) option \<Rightarrow> int \<Rightarrow> int \<Rightarrow> mpi_db
    \<Rightarrow> wkld_char \<Rightarrow> (wkld_char \<times> mpi_db \<times> string \<times> db_cmd list) option" where
  "process_mpi_map K E x tag inFunction db w = (case wk_mpi_map w of
     None \<Rightarrow> Some (w, db, [], [])
   | Some m \<Rightarrow> map_option (\<lambda>(m, r). (w\<lparr>wk_mpi_map := Some m\<rparr>, r))
       (mpi_map_visit K (we_module E) x tag inFunction (getNumTotalInsts (wk_mix w)) m db))"

definition process_mpi_data :: "wkld_env \<Rightarrow> instr \<Rightarrow> mpi_call_msg \<Rightarrow> wkld_char \<Rightarrow> wkld_char option" where
  "process_mpi_data E I msg w =
    map_option (\<lambda>d. w\<lparr>wk_mpi_data := d\<rparr>) (if_there (mpi_data_visit (we_module E) I msg) (wk_mpi_data w))"

definition getInstCount :: "wkld_char \<Rightarrow> u64" where
  "getInstCount w = getNumTotalInsts (wk_mix w)"

definition update_processor_id :: "bool \<Rightarrow> int \<Rightarrow> wkld_char \<Rightarrow> wkld_char" where
  "update_processor_id weDecoupled p w =
    (let t = (if weDecoupled then p else wk_ia_thread w) in
     w\<lparr>wk_processor_id := p, wk_ia_thread := t,
       wk_dtr := map_option (\<lambda>d. d\<lparr>dtr_thread_id := (if weDecoupled then p else dtr_thread_id d)\<rparr>) (wk_dtr w),
       wk_be := map_option (\<lambda>b. b\<lparr>be_processor_id := p,
         be_thread_id := (if weDecoupled then p else be_thread_id b)\<rparr>) (wk_be w),
       wk_mpi_map := map_option (\<lambda>m. m\<lparr>mm_processor_id := p,
         mm_thread_id := (if weDecoupled then p else mm_thread_id m)\<rparr>) (wk_mpi_map w),
       wk_mpi_data := map_option (\<lambda>d. d\<lparr>md_processor_id := p\<rparr>) (wk_mpi_data w)\<rparr>)"

definition wkld_updateILPforCall :: "instr \<Rightarrow> instr \<Rightarrow> wkld_char \<Rightarrow> wkld_char" where
  "wkld_updateILPforCall r c w = w\<lparr>wk_ilp := map_option (updateILPforCall (V_Inst (i_id r)) (V_Inst (i_id c))) (wk_ilp w)\<rparr>"

definition wkld_updateILPIssueCycle :: "int \<Rightarrow> ir_value \<Rightarrow> u64 \<Rightarrow> u64 \<Rightarrow> wkld_char \<Rightarrow> wkld_char" where
  "wkld_updateILPIssueCycle ty v a c w = w\<lparr>wk_ilp := map_option (updateILPIssueCycle ty v a c) (wk_ilp w)\<rparr>"

subsection \<open>The output\<close>

definition dump_if :: "('a \<Rightarrow> json_event list) \<Rightarrow> 'a option \<Rightarrow> json_event list" where
  "dump_if f x = (case x of None \<Rightarrow> [] | Some a \<Rightarrow> f a)"

definition wkld_JSONdump :: "(ir_tyid \<Rightarrow> nat) \<Rightarrow> u64 \<Rightarrow> u64 \<Rightarrow> wkld_char \<Rightarrow> (json_event list \<times> wkld_char) option" where
  "wkld_JSONdump tid sharedBytes sharedAccesses w = (case JSONdump_vectorIncluded tid (wk_mix w) of (es, mix) \<Rightarrow> do {
     dtr \<leftarrow> (case wk_dtr w of None \<Rightarrow> Some []
       | Some d \<Rightarrow> map_option ((#) (JString ''dataReuseDistribution''))
           (dtr_JSONdump (getNumLoadInst mix + getNumStoreInst mix) sharedBytes sharedAccesses d));
     Some (StartObject # (JString ''threadId'' # JUint64 (of_int (wk_thread_id w))
       # JString ''processId'' # JUint64 (of_int (wk_processor_id w))
       # es
       @ dump_if omp_JSONdump (wk_openmp_stats w)
       @ dump_if mpi_stats_JSONdump (wk_mpi_stats w)
       @ dump_if (ilp_JSONdump mix) (wk_ilp w)
       @ dtr
       @ dump_if (\<lambda>i. JString ''instReuseDistribution'' # StartArray # itr_JSONdump (getNumTotalInsts mix) i @ [EndArray])
           (wk_itr w)
       @ dump_if rc_JSONdump (wk_rc w)
       @ dump_if mpi_data_JSONdump (wk_mpi_data w)
       @ dump_if elc_JSONdump (wk_elc w)) @ [EndObject], w\<lparr>wk_mix := mix\<rparr>) })"

end
