(* ===== verification/Mpi_Data_Properties.thy ===== *)
theory Mpi_Data_Properties
  imports Mpi_Data "HOL-Library.Multiset"
begin

text \<open>
  What the counters of \<open>MPIdata\<close> mean: the communication vector adds up to the received bytes and
  messages, and a message of a point to point call is counted when its request is complete, and pending before.
\<close>

subsection \<open>The communication vector\<close>

definition matrix_bytes :: "mpi_data \<Rightarrow> u64" where
  "matrix_bytes s = sum_list (map (\<lambda>e. fst (snd e)) (matrixReceived s))"

definition matrix_messages :: "mpi_data \<Rightarrow> u64" where
  "matrix_messages s = sum_list (map (\<lambda>e. snd (snd e)) (matrixReceived s))"

definition matrix_ok :: "mpi_data \<Rightarrow> bool" where
  "matrix_ok s \<longleftrightarrow> mp_ok (matrixReceived s) \<and> matrix_bytes s = receivedBytes s
     \<and> matrix_messages s = totalReceivedMessages s"

lemma sum_put:
  fixes f :: "'v \<Rightarrow> u64"
  shows "mp_ok m \<Longrightarrow> sum_list (map (\<lambda>e. f (snd e)) (mp_put k v m))
    = sum_list (map (\<lambda>e. f (snd e)) m) + f v - (case mp_get k m of None \<Rightarrow> 0 | Some w \<Rightarrow> f w)"
proof (induction k v m rule: mp_put.induct)
  case (2 k v k' v' m)
  have "k < k' \<Longrightarrow> mp_get k m = None" using 2(2) by (force simp: mp_ok_Cons mp_get_None_iff)
  then show ?case using 2 by (auto simp: mp_ok_Cons mp_get_def)
qed simp

lemma matrix_update:
  assumes "mp_ok (matrixReceived s)"
  shows "mp_ok (matrixReceived (updateReceivedMatrix a b s))
    \<and> matrix_bytes (updateReceivedMatrix a b s) = matrix_bytes s + b
    \<and> matrix_messages (updateReceivedMatrix a b s) = matrix_messages s + 1"
  using assms sum_put[OF assms, of fst] sum_put[OF assms, of snd]
  by (simp add: updateReceivedMatrix_def matrix_bytes_def matrix_messages_def split: option.split)

lemma updateReceivedMatrix_sel [simp]: "sentBytes (updateReceivedMatrix a b s) = sentBytes s"
  "receivedBytes (updateReceivedMatrix a b s) = receivedBytes s"
  "totalSentMessages (updateReceivedMatrix a b s) = totalSentMessages s"
  "totalReceivedMessages (updateReceivedMatrix a b s) = totalReceivedMessages s"
  "async_send (updateReceivedMatrix a b s) = async_send s" "async_recv (updateReceivedMatrix a b s) = async_recv s"
  by (simp_all add: updateReceivedMatrix_def split: option.split)

subsection \<open>What is sent and received, pending requests included\<close>

definition pending :: "mpi_info list \<Rightarrow> u64" where
  "pending is = sum_list (map in_msgSize is)"

definition sent_total :: "mpi_data \<Rightarrow> u64 \<times> u64" where
  "sent_total s = (sentBytes s + pending (async_send s), totalSentMessages s + of_nat (length (async_send s)))"

definition received_total :: "mpi_data \<Rightarrow> u64 \<times> u64" where
  "received_total s = (receivedBytes s + pending (async_recv s),
     totalReceivedMessages s + of_nat (length (async_recv s)))"

lemma find_request_length: "find_request a is = Some k \<Longrightarrow> k < length is"
  by (induction "is" arbitrary: k) (auto split: if_splits)

lemma erase_pending:
  assumes "k < length is"
  shows "pending (erase_at k is) = pending is - in_msgSize (is ! k)" "length is = Suc (length (erase_at k is))"
proof -
  have "is = take k is @ is ! k # drop (Suc k) is" using assms by (simp add: id_take_nth_drop)
  then have "pending is = pending (take k is) + in_msgSize (is ! k) + pending (drop (Suc k) is)"
    unfolding pending_def by (metis map_append sum_list_append list.simps(9) sum_list.Cons add.assoc)
  then show "pending (erase_at k is) = pending is - in_msgSize (is ! k)" by (simp add: erase_at_def pending_def)
  show "length is = Suc (length (erase_at k is))" using assms by (simp add: erase_at_def)
qed

lemma complete_total:
  assumes "handleRequestCompletion r s = Some s'"
  shows "sent_total s' = sent_total s \<and> received_total s' = received_total s \<and> (matrix_ok s \<longrightarrow> matrix_ok s')"
proof (cases "getAsyncSend (req_addr r) s")
  case (Some k)
  then have k: "k < length (async_send s)" by (simp add: getAsyncSend_def find_request_length)
  show ?thesis using assms Some erase_pending[OF k]
    by (auto simp: handleRequestCompletion_def sent_total_def received_total_def matrix_ok_def matrix_bytes_def matrix_messages_def)
next
  case None
  show ?thesis
  proof (cases "getAsyncRecv (req_addr r) s")
    case (Some k)
    then have k: "k < length (async_recv s)" by (simp add: getAsyncRecv_def find_request_length)
    define t where "t = s\<lparr>receivedBytes := receivedBytes s + in_msgSize (async_recv s ! k),
      totalReceivedMessages := totalReceivedMessages s + 1\<rparr>"
    have s': "s' = (updateReceivedMatrix (of_int (req_source r)) (in_msgSize (async_recv s ! k)) t)
      \<lparr>async_recv := erase_at k (async_recv s)\<rparr>"
      using assms None Some by (simp add: handleRequestCompletion_def Let_def t_def)
    have "mp_ok (matrixReceived s) \<Longrightarrow> mp_ok (matrixReceived s') \<and> matrix_bytes s' = matrix_bytes s + in_msgSize (async_recv s ! k)
        \<and> matrix_messages s' = matrix_messages s + 1"
      using matrix_update[of t "of_int (req_source r)" "in_msgSize (async_recv s ! k)"]
      by (simp add: s' matrix_bytes_def matrix_messages_def t_def)
    then show ?thesis using erase_pending[OF k]
      by (simp add: s' sent_total_def received_total_def matrix_ok_def t_def)
  next
    case none: None
    then show ?thesis using assms None
      by (auto simp: handleRequestCompletion_def sent_total_def received_total_def matrix_ok_def matrix_bytes_def
          matrix_messages_def split: option.splits if_splits)
  qed
qed

lemma requests_total:
  "handle_requests rs s = Some s'
    \<Longrightarrow> sent_total s' = sent_total s \<and> received_total s' = received_total s \<and> (matrix_ok s \<longrightarrow> matrix_ok s')"
  by (induction rs s rule: handle_requests.induct) (auto split: option.splits dest!: complete_total)

subsection \<open>One call\<close>

text \<open>The part of the state that the point to point calls use.\<close>

definition same_p2p :: "mpi_data \<Rightarrow> mpi_data \<Rightarrow> bool" where
  "same_p2p s s' \<longleftrightarrow> sentBytes s' = sentBytes s \<and> receivedBytes s' = receivedBytes s
     \<and> totalSentMessages s' = totalSentMessages s \<and> totalReceivedMessages s' = totalReceivedMessages s
     \<and> async_send s' = async_send s \<and> async_recv s' = async_recv s \<and> matrixReceived s' = matrixReceived s"

lemma same_p2p_total:
  "same_p2p s s' \<Longrightarrow> sent_total s' = sent_total s \<and> received_total s' = received_total s \<and> (matrix_ok s \<longrightarrow> matrix_ok s')"
  by (simp add: same_p2p_def sent_total_def received_total_def matrix_ok_def matrix_bytes_def matrix_messages_def)

lemma same_p2p_refl: "same_p2p s s"
  by (simp add: same_p2p_def)

lemma same_p2p_trans: "same_p2p s t \<Longrightarrow> same_p2p t u \<Longrightarrow> same_p2p s u"
  by (simp add: same_p2p_def)

lemma same_other: "same_p2p s (updateAsyncReqList I msg (-1) 0 s)"
  by (simp add: same_p2p_def updateAsyncReqList_def Let_def)

lemma same_collective: "same_p2p s (bcast_bytes msg b s)" "same_p2p s (reduce_bytes msg b s)"
  "same_p2p s (allreduce_bytes b s)"
  by (simp_all add: same_p2p_def bcast_bytes_def reduce_bytes_def allreduce_bytes_def)

lemma same_collective_option: "alltoall_bytes msg s = Some s' \<Longrightarrow> same_p2p s s'"
  "gather_bytes msg b s = Some s' \<Longrightarrow> same_p2p s s'" "allgather_bytes msg b s = Some s' \<Longrightarrow> same_p2p s s'"
  by (auto simp: same_p2p_def alltoall_bytes_def gather_bytes_def allgather_bytes_def Let_def split: option.splits if_splits)

lemma same_alltoallv: "alltoallv_loop msg ss rs n s = Some s' \<Longrightarrow> same_p2p s s'"
proof (induction msg ss rs n s rule: alltoallv_loop.induct)
  case (2 msg x ss y rs n s)
  then obtain a b where "int_times x (mc_datatype msg) = Some a" "int_times y (mc_opt_recvdatatype msg) = Some b"
    by (auto split: option.splits)
  then show ?case using 2 by (fastforce simp: same_p2p_def)
qed (simp_all add: same_p2p_refl)

lemmas same_p2p_rules = same_p2p_refl same_collective same_collective_option same_alltoallv
  same_p2p_trans[OF same_collective(1) same_other] same_p2p_trans[OF same_collective(2) same_other]
  same_p2p_trans[OF same_collective(3) same_other] same_p2p_trans[OF same_collective_option(1) same_other]
  same_p2p_trans[OF same_collective_option(2) same_other] same_p2p_trans[OF same_collective_option(3) same_other]

definition sends :: "mpi_transfer \<Rightarrow> bool" where
  "sends t \<longleftrightarrow> t = mpi_send \<or> t = mpi_isend"

definition receives :: "mpi_transfer \<Rightarrow> bool" where
  "receives t \<longleftrightarrow> t = mpi_recv \<or> t = mpi_irecv"

definition add_if :: "bool \<Rightarrow> u64 \<Rightarrow> u64 \<times> u64 \<Rightarrow> u64 \<times> u64" where
  "add_if p b x = (if p then (fst x + b, snd x + 1) else x)"

lemma collective_step:
  assumes "mpi_transfer_step t I msg b s = Some s'" "\<not> sends t" "\<not> receives t"
  shows "sent_total s' = sent_total s \<and> received_total s' = received_total s \<and> (matrix_ok s \<longrightarrow> matrix_ok s')"
proof -
  have "same_p2p s s' \<or> handleRequestCompletion (mc_req_data msg) s = Some s'
      \<or> handle_requests (take (nat (mc_counter msg)) (mc_reqs msg)) s = Some s'"
    using assms by (cases t) (auto simp: mpi_transfer_step_def sends_def receives_def handle_many_def
        intro: same_p2p_rules split: if_splits)
  then show ?thesis using same_p2p_total complete_total requests_total by blast
qed

lemma step_total:
  assumes "mpi_transfer_step t I msg b (count_blocking t b s) = Some s'"
  shows "sent_total s' = add_if (sends t) b (sent_total s) \<and> received_total s' = add_if (receives t) b (received_total s)
    \<and> (matrix_ok s \<longrightarrow> matrix_ok s')"
proof (cases "sends t \<or> receives t")
  case True
  then consider "t = mpi_send" | "t = mpi_isend" | "t = mpi_recv" | "t = mpi_irecv"
    by (auto simp: sends_def receives_def)
  then show ?thesis
  proof cases
    case 3
    then have s': "s' = updateReceivedMatrix (of_int (mc_other msg)) b (count_blocking t b s)"
      using assms by (simp add: mpi_transfer_step_def)
    have "mp_ok (matrixReceived s) \<Longrightarrow> mp_ok (matrixReceived s') \<and> matrix_bytes s' = matrix_bytes s + b
        \<and> matrix_messages s' = matrix_messages s + 1"
      using matrix_update[of "count_blocking t b s" "of_int (mc_other msg)" b] 3
      by (simp add: s' count_blocking_def matrix_bytes_def matrix_messages_def)
    then show ?thesis using 3
      by (simp add: s' count_blocking_def sent_total_def received_total_def add_if_def sends_def receives_def matrix_ok_def)
  qed (use assms in \<open>auto simp: mpi_transfer_step_def count_blocking_def updateAsyncReqList_def Let_def sent_total_def
      received_total_def add_if_def sends_def receives_def matrix_ok_def matrix_bytes_def matrix_messages_def pending_def\<close>)
next
  case False
  then have "count_blocking t b s = s" by (auto simp: count_blocking_def sends_def receives_def)
  then show ?thesis using collective_step[of t I msg b s s'] assms False by (simp add: add_if_def)
qed

subsection \<open>A run\<close>

definition transfer_of :: "ir_module \<Rightarrow> instr \<times> mpi_call_msg \<Rightarrow> mpi_transfer" where
  "transfer_of M x = (case called_name M (fst x) of None \<Rightarrow> mpi_other | Some name \<Rightarrow> name2type name)"

definition bytes_of :: "instr \<times> mpi_call_msg \<Rightarrow> u64" where
  "bytes_of x = of_int (mc_size (snd x) * mc_datatype (snd x))"

definition calls_total :: "(mpi_transfer \<Rightarrow> bool) \<Rightarrow> ir_module \<Rightarrow> (instr \<times> mpi_call_msg) list \<Rightarrow> u64 \<times> u64" where
  "calls_total p M xs = (sum_list (map bytes_of (filter (\<lambda>x. p (transfer_of M x)) xs)),
     of_nat (length (filter (\<lambda>x. p (transfer_of M x)) xs)))"

definition add2 :: "u64 \<times> u64 \<Rightarrow> u64 \<times> u64 \<Rightarrow> u64 \<times> u64" where
  "add2 x y = (fst x + fst y, snd x + snd y)"

lemma visit_total:
  assumes "mpi_data_visit M I msg s = Some s'"
  shows "sent_total s' = add_if (sends (transfer_of M (I, msg))) (bytes_of (I, msg)) (sent_total s)
    \<and> received_total s' = add_if (receives (transfer_of M (I, msg))) (bytes_of (I, msg)) (received_total s)
    \<and> (matrix_ok s \<longrightarrow> matrix_ok s')"
proof -
  obtain name b where n: "called_name M I = Some name" "sent_product msg = Some b"
    "mpi_transfer_step (name2type name) I msg (of_int b) (count_blocking (name2type name) (of_int b) s) = Some s'"
    using assms by (auto simp: mpi_data_visit_def Let_def split: option.splits if_splits)
  have "b = mc_size msg * mc_datatype msg" using n(2) by (auto simp: sent_product_def int_times_def split: if_splits)
  then show ?thesis using step_total[OF n(3)] n(1) by (simp add: transfer_of_def bytes_of_def)
qed

lemma run_total:
  "mpi_data_run M xs s = Some s' \<Longrightarrow> matrix_ok s
    \<Longrightarrow> matrix_ok s' \<and> sent_total s' = add2 (sent_total s) (calls_total sends M xs)
      \<and> received_total s' = add2 (received_total s) (calls_total receives M xs)"
proof (induction M xs s rule: mpi_data_run.induct)
  case (2 M I msg xs s)
  then obtain t where t: "mpi_data_visit M I msg s = Some t" "mpi_data_run M xs t = Some s'"
    by (auto split: option.splits)
  have "matrix_ok s' \<and> sent_total s' = add2 (sent_total t) (calls_total sends M xs)
      \<and> received_total s' = add2 (received_total t) (calls_total receives M xs)"
    using 2(1)[OF t(1,2)] visit_total[OF t(1)] 2(3) by blast
  then show ?case using visit_total[OF t(1)] by (simp add: calls_total_def add_if_def add2_def prod_eq_iff)
qed (simp add: calls_total_def add2_def)

subsection \<open>Which requests are complete\<close>

definition starts :: "mpi_transfer \<Rightarrow> bool" where
  "starts t \<longleftrightarrow> t \<in> {mpi_isend, mpi_irecv, mpi_ibcast, mpi_ialltoall, mpi_igather, mpi_iallgather, mpi_ireduce,
     mpi_iallreduce}"

text \<open>The requests that a call completes: \<open>MPI_Wait\<close> and \<open>MPI_Waitall\<close> always do, the tests if their flag is set.\<close>

definition completed_requests :: "mpi_transfer \<Rightarrow> mpi_call_msg \<Rightarrow> u64 set" where
  "completed_requests t msg = (if t = mpi_wait \<or> t = mpi_test \<and> mc_flag msg \<noteq> 0 then {req_addr (mc_req_data msg)}
     else if t = mpi_waitall \<or> t = mpi_testall \<and> mc_flag msg \<noteq> 0
     then req_addr ` set (take (nat (mc_counter msg)) (mc_reqs msg)) else {})"

definition completes :: "ir_module \<Rightarrow> instr \<times> mpi_call_msg \<Rightarrow> u64 set" where
  "completes M x = completed_requests (transfer_of M x) (snd x)"

definition request_of :: "instr \<times> mpi_call_msg \<Rightarrow> u64" where
  "request_of x = req_addr (mc_req_data (snd x))"

definition starts_request :: "ir_module \<Rightarrow> instr \<times> mpi_call_msg \<Rightarrow> bool" where
  "starts_request M x \<longleftrightarrow> starts (transfer_of M x)"

text \<open>A program uses a request again only when it is complete; \<open>open\<close> are the requests in use.\<close>

fun requests_ok :: "ir_module \<Rightarrow> u64 set \<Rightarrow> (instr \<times> mpi_call_msg) list \<Rightarrow> bool" where
  "requests_ok M us [] = True"
| "requests_ok M us (x # xs) \<longleftrightarrow> (starts_request M x \<longrightarrow> request_of x \<notin> us)
     \<and> requests_ok M ((us - completes M x) \<union> (if starts_request M x then {request_of x} else {})) xs"

definition completed_by :: "ir_module \<Rightarrow> (instr \<times> mpi_call_msg) list \<Rightarrow> u64 set" where
  "completed_by M xs = (\<Union>x \<in> set xs. completes M x)"

text \<open>The calls of a kind whose request no later call completes, and those that are complete.\<close>

fun unfinished :: "ir_module \<Rightarrow> mpi_transfer \<Rightarrow> (instr \<times> mpi_call_msg) list \<Rightarrow> (instr \<times> mpi_call_msg) list" where
  "unfinished M t [] = []"
| "unfinished M t (x # xs) = (if transfer_of M x = t \<and> request_of x \<notin> completed_by M xs then [x] else [])
     @ unfinished M t xs"

fun finished :: "ir_module \<Rightarrow> mpi_transfer \<Rightarrow> mpi_transfer \<Rightarrow> (instr \<times> mpi_call_msg) list \<Rightarrow> (instr \<times> mpi_call_msg) list" where
  "finished M b t [] = []"
| "finished M b t (x # xs) = (if transfer_of M x = b \<or> transfer_of M x = t \<and> request_of x \<in> completed_by M xs then [x] else [])
     @ finished M b t xs"

text \<open>The lists of pending requests, as addresses with sizes.\<close>

definition req_key :: "mpi_info \<Rightarrow> u64 \<times> u64" where
  "req_key i = (in_real_addr i, in_msgSize i)"

definition call_key :: "instr \<times> mpi_call_msg \<Rightarrow> u64 \<times> u64" where
  "call_key x = (request_of x, bytes_of x)"

definition pending_addrs :: "mpi_data \<Rightarrow> u64 list" where
  "pending_addrs s = map in_real_addr (async_send s @ async_recv s @ async_other s)"

definition drop_requests :: "u64 set \<Rightarrow> mpi_info list \<Rightarrow> mpi_info list" where
  "drop_requests A is = filter (\<lambda>i. in_real_addr i \<notin> A) is"

definition drops :: "u64 set \<Rightarrow> mpi_data \<Rightarrow> mpi_data \<Rightarrow> bool" where
  "drops A s s' \<longleftrightarrow> async_send s' = drop_requests A (async_send s) \<and> async_recv s' = drop_requests A (async_recv s)
     \<and> async_other s' = drop_requests A (async_other s)"

lemma drop_requests_simps [simp]: "drop_requests {} is = is" "drop_requests B (drop_requests A is) = drop_requests (A \<union> B) is"
  by (auto simp: drop_requests_def intro: filter_cong)

lemma drop_requests_idle: "A \<inter> in_real_addr ` set is = {} \<Longrightarrow> drop_requests A is = is"
  by (auto simp: drop_requests_def filter_id_conv)

lemma drops_refl [simp]: "drops {} s s"
  by (simp add: drops_def)

lemma drops_trans: "drops A s t \<Longrightarrow> drops B t u \<Longrightarrow> drops (A \<union> B) s u"
  by (simp add: drops_def)

lemma find_request_None: "find_request a is = None \<longleftrightarrow> a \<notin> in_real_addr ` set is"
  by (induction "is") auto

lemma erase_drop:
  "find_request a is = Some k \<Longrightarrow> distinct (map in_real_addr is) \<Longrightarrow> erase_at k is = drop_requests {a} is
    \<and> a \<in> in_real_addr ` set is"
proof (induction "is" arbitrary: k)
  case (Cons i "is")
  show ?case
  proof (cases "in_real_addr i = a")
    case True
    then have "drop_requests {a} is = is" using Cons.prems(2) by (intro drop_requests_idle) auto
    then show ?thesis using True Cons.prems(1) by (simp add: erase_at_def drop_requests_def)
  next
    case False
    then obtain j where "find_request a is = Some j" "k = Suc j" using Cons.prems(1) by auto
    with Cons.IH[of j] Cons.prems(2) False show ?thesis by (simp add: erase_at_def drop_requests_def)
  qed
qed simp

lemma complete_drops:
  assumes "handleRequestCompletion r s = Some s'" "distinct (pending_addrs s)"
  shows "drops {req_addr r} s s'"
proof -
  let ?a = "req_addr r"
  have d: "distinct (map in_real_addr (async_send s))" "distinct (map in_real_addr (async_recv s))"
      "distinct (map in_real_addr (async_other s))"
    and x: "in_real_addr ` set (async_send s) \<inter> in_real_addr ` set (async_recv s) = {}"
      "in_real_addr ` set (async_send s) \<inter> in_real_addr ` set (async_other s) = {}"
      "in_real_addr ` set (async_recv s) \<inter> in_real_addr ` set (async_other s) = {}"
    using assms(2) by (auto simp: pending_addrs_def)
  have idle: "find_request ?a is = None \<Longrightarrow> drop_requests {?a} is = is" for "is"
    by (rule drop_requests_idle) (simp add: find_request_None)
  have upd: "async_other (updateReceivedMatrix a b t) = async_other t" for a b t
    by (simp add: updateReceivedMatrix_def split: option.split)
  show ?thesis
  proof (cases "find_request ?a (async_send s)")
    case (Some k)
    with erase_drop[OF Some d(1)] x have "find_request ?a (async_recv s) = None" "find_request ?a (async_other s) = None"
      unfolding find_request_None by blast+
    then show ?thesis using assms(1) Some erase_drop[OF Some d(1)]
      by (auto simp: handleRequestCompletion_def getAsyncSend_def drops_def idle)
  next
    case none: None
    show ?thesis
    proof (cases "find_request ?a (async_recv s)")
      case (Some k)
      with erase_drop[OF Some d(2)] x have "find_request ?a (async_other s) = None"
        unfolding find_request_None by blast
      then show ?thesis using assms(1) none Some erase_drop[OF Some d(2)]
        by (auto simp: handleRequestCompletion_def getAsyncSend_def getAsyncRecv_def drops_def idle Let_def upd)
    next
      case none2: None
      then show ?thesis using assms(1) none erase_drop[OF _ d(3)]
        by (auto simp: handleRequestCompletion_def getAsyncSend_def getAsyncRecv_def getAsyncOther_def drops_def idle
            split: option.splits if_splits)
    qed
  qed
qed

lemma drops_distinct: "drops A s s' \<Longrightarrow> distinct (pending_addrs s) \<Longrightarrow> distinct (pending_addrs s')"
  by (auto simp: drops_def drop_requests_def pending_addrs_def distinct_map_filter)

lemma drops_addrs: "drops A s s' \<Longrightarrow> set (pending_addrs s') = set (pending_addrs s) - A"
  by (auto simp: drops_def drop_requests_def pending_addrs_def)

lemma requests_drop:
  "handle_requests rs s = Some s' \<Longrightarrow> distinct (pending_addrs s) \<Longrightarrow> drops (req_addr ` set rs) s s'"
proof (induction rs s rule: handle_requests.induct)
  case (2 r rs s)
  then obtain t where t: "handleRequestCompletion r s = Some t" "handle_requests rs t = Some s'"
    by (auto split: option.splits)
  note d = complete_drops[OF t(1) 2(3)]
  from drops_trans[OF d 2(1)[OF t drops_distinct[OF d 2(3)]]] show ?case by simp
qed simp

subsection \<open>The lists after a call\<close>

definition same_lists :: "mpi_data \<Rightarrow> mpi_data \<Rightarrow> bool" where
  "same_lists s s' \<longleftrightarrow> async_send s' = async_send s \<and> async_recv s' = async_recv s \<and> async_other s' = async_other s"

lemma same_lists_simple [simp]: "same_lists s s" "same_lists s (count_blocking t b s)" "same_lists s (bcast_bytes msg b s)"
  "same_lists s (reduce_bytes msg b s)" "same_lists s (allreduce_bytes b s)" "same_lists s (updateReceivedMatrix c b s)"
  by (simp_all add: same_lists_def count_blocking_def bcast_bytes_def reduce_bytes_def allreduce_bytes_def
      updateReceivedMatrix_def split: option.split)

lemma same_lists_option: "alltoall_bytes msg s = Some s' \<Longrightarrow> same_lists s s'"
  "gather_bytes msg b s = Some s' \<Longrightarrow> same_lists s s'" "allgather_bytes msg b s = Some s' \<Longrightarrow> same_lists s s'"
  by (auto simp: same_lists_def alltoall_bytes_def gather_bytes_def allgather_bytes_def Let_def split: option.splits if_splits)

lemma same_lists_alltoallv: "alltoallv_loop msg ss rs n s = Some s' \<Longrightarrow> same_lists s s'"
proof (induction msg ss rs n s rule: alltoallv_loop.induct)
  case (2 msg x ss y rs n s)
  then obtain a b where "int_times x (mc_datatype msg) = Some a" "int_times y (mc_opt_recvdatatype msg) = Some b"
    by (auto split: option.splits)
  then show ?case using 2 by (fastforce simp: same_lists_def)
qed simp_all

text \<open>One call removes the requests that it completes and adds the one that it starts.\<close>

definition step_lists :: "mpi_transfer \<Rightarrow> u64 set \<Rightarrow> u64 \<times> u64 \<Rightarrow> mpi_data \<Rightarrow> mpi_data \<Rightarrow> bool" where
  "step_lists t A k s s' \<longleftrightarrow>
     map req_key (async_send s') = map req_key (drop_requests A (async_send s)) @ (if t = mpi_isend then [k] else [])
   \<and> map req_key (async_recv s') = map req_key (drop_requests A (async_recv s)) @ (if t = mpi_irecv then [k] else [])
   \<and> map in_real_addr (async_other s') = map in_real_addr (drop_requests A (async_other s))
       @ (if starts t \<and> t \<noteq> mpi_isend \<and> t \<noteq> mpi_irecv then [fst k] else [])"

lemma step_lists_same: "same_lists s s' \<Longrightarrow> \<not> starts t \<Longrightarrow> step_lists t {} k s s'"
  by (auto simp: step_lists_def same_lists_def starts_def)

lemma step_lists_drops: "drops A s s' \<Longrightarrow> \<not> starts t \<Longrightarrow> step_lists t A k s s'"
  by (auto simp: step_lists_def drops_def starts_def)

lemma step_lists_other:
  "same_lists s s1 \<Longrightarrow> starts t \<Longrightarrow> t \<noteq> mpi_isend \<Longrightarrow> t \<noteq> mpi_irecv
    \<Longrightarrow> step_lists t {} (req_addr (mc_req_data msg), b) s (updateAsyncReqList I msg (- 1) 0 s1)"
  by (simp add: step_lists_def same_lists_def updateAsyncReqList_def Let_def)

lemma step_lists_transfer:
  assumes "mpi_transfer_step t I msg b s = Some s'" "distinct (pending_addrs s)"
  shows "step_lists t (completed_requests t msg) (req_addr (mc_req_data msg), b) s s'"
proof (cases "starts t")
  case True
  then have "completed_requests t msg = {}" by (auto simp: starts_def completed_requests_def)
  then show ?thesis using True assms(1) unfolding starts_def
    by (elim insertE emptyE; hypsubst)
      (auto simp: mpi_transfer_step_def Let_def starts_def intro!: step_lists_other dest: same_lists_option,
       simp_all add: step_lists_def updateAsyncReqList_def req_key_def Let_def starts_def)
next
  case False
  have "same_lists s s' \<and> completed_requests t msg = {} \<or> drops (completed_requests t msg) s s'"
    using assms False complete_drops[OF _ assms(2)] requests_drop[OF _ assms(2)]
    by (cases t) (auto simp: mpi_transfer_step_def Let_def starts_def completed_requests_def handle_many_def
        dest: same_lists_option same_lists_alltoallv split: if_splits)
  then show ?thesis using False step_lists_same step_lists_drops by metis
qed

lemma visit_lists:
  assumes "mpi_data_visit M I msg s = Some s'" "distinct (pending_addrs s)"
  shows "step_lists (transfer_of M (I, msg)) (completes M (I, msg)) (call_key (I, msg)) s s'"
proof -
  obtain name b where n: "called_name M I = Some name" "sent_product msg = Some b"
    "mpi_transfer_step (name2type name) I msg (of_int b) (count_blocking (name2type name) (of_int b) s) = Some s'"
    using assms by (auto simp: mpi_data_visit_def Let_def split: option.splits if_splits)
  have b: "b = mc_size msg * mc_datatype msg" using n(2) by (auto simp: sent_product_def int_times_def split: if_splits)
  have same: "same_lists s (count_blocking (name2type name) (of_int b) s)" by simp
  then have "distinct (pending_addrs (count_blocking (name2type name) (of_int b) s))"
    using assms(2) by (simp add: pending_addrs_def same_lists_def)
  from step_lists_transfer[OF n(3) this] same show ?thesis
    by (simp add: step_lists_def same_lists_def transfer_of_def n(1) completes_def call_key_def request_of_def bytes_of_def b)
qed

lemma step_lists_addrs:
  assumes "step_lists t A k s s'"
  shows "pending_addrs s' = map in_real_addr (drop_requests A (async_send s)) @ (if t = mpi_isend then [fst k] else [])
     @ map in_real_addr (drop_requests A (async_recv s)) @ (if t = mpi_irecv then [fst k] else [])
     @ map in_real_addr (drop_requests A (async_other s)) @ (if starts t \<and> t \<noteq> mpi_isend \<and> t \<noteq> mpi_irecv then [fst k] else [])"
proof -
  have key: "map in_real_addr is = map fst (map req_key is)" for "is" by (simp add: req_key_def comp_def)
  show ?thesis using assms unfolding step_lists_def pending_addrs_def map_append key[of "async_send s'"] key[of "async_recv s'"]
    by (simp add: req_key_def comp_def)
qed

lemma step_lists_distinct:
  assumes "step_lists t A k s s'" "distinct (pending_addrs s)" "starts t \<longrightarrow> fst k \<notin> set (pending_addrs s)"
  shows "distinct (pending_addrs s') \<and> set (pending_addrs s') = (set (pending_addrs s) - A) \<union> (if starts t then {fst k} else {})"
proof -
  have "mset (pending_addrs s') = mset (filter (\<lambda>a. a \<notin> A) (pending_addrs s)) + (if starts t then {# fst k #} else {#})"
    unfolding step_lists_addrs[OF assms(1)]
    by (auto simp: pending_addrs_def drop_requests_def filter_map comp_def starts_def)
  then have m: "mset (pending_addrs s') = mset (filter (\<lambda>a. a \<notin> A) (pending_addrs s) @ (if starts t then [fst k] else []))"
    by simp
  have "distinct (filter (\<lambda>a. a \<notin> A) (pending_addrs s) @ (if starts t then [fst k] else []))"
    using assms(2,3) by auto
  then show ?thesis using mset_eq_imp_distinct_iff[OF m] mset_eq_setD[OF m] by auto
qed

lemma drop_keys: "map req_key (drop_requests A is) = filter (\<lambda>k. fst k \<notin> A) (map req_key is)"
  by (simp add: drop_requests_def filter_map comp_def req_key_def)

lemma run_lists:
  assumes "mpi_data_run M xs s = Some s'" "distinct (pending_addrs s)" "requests_ok M (set (pending_addrs s)) xs"
  shows "map req_key (async_send s') = map req_key (drop_requests (completed_by M xs) (async_send s))
      @ map call_key (unfinished M mpi_isend xs)
    \<and> map req_key (async_recv s') = map req_key (drop_requests (completed_by M xs) (async_recv s))
      @ map call_key (unfinished M mpi_irecv xs)"
  using assms
proof (induction M xs s rule: mpi_data_run.induct)
  case (2 M I msg xs s)
  let ?x = "(I, msg)"
  obtain t where t: "mpi_data_visit M I msg s = Some t" "mpi_data_run M xs t = Some s'"
    using 2(2) by (auto split: option.splits)
  note st = visit_lists[OF t(1) 2(3)]
  have k: "fst (call_key ?x) = request_of ?x" by (simp add: call_key_def)
  have d: "distinct (pending_addrs t)" "set (pending_addrs t) = (set (pending_addrs s) - completes M ?x)
      \<union> (if starts_request M ?x then {request_of ?x} else {})"
    using step_lists_distinct[OF st 2(3)] 2(4) by (simp_all add: starts_request_def k)
  have "completed_by M (?x # xs) = completes M ?x \<union> completed_by M xs" by (simp add: completed_by_def)
  moreover have "requests_ok M (set (pending_addrs t)) xs" using 2(4) d(2) by simp
  moreover from this have IH: "map req_key (async_send s') = map req_key (drop_requests (completed_by M xs) (async_send t))
      @ map call_key (unfinished M mpi_isend xs)"
    "map req_key (async_recv s') = map req_key (drop_requests (completed_by M xs) (async_recv t))
      @ map call_key (unfinished M mpi_irecv xs)" using 2(1)[OF t d(1)] by blast+
  moreover have "map req_key (async_send t) = map req_key (drop_requests (completes M ?x) (async_send s))
      @ (if transfer_of M ?x = mpi_isend then [call_key ?x] else [])"
    "map req_key (async_recv t) = map req_key (drop_requests (completes M ?x) (async_recv s))
      @ (if transfer_of M ?x = mpi_irecv then [call_key ?x] else [])" using st by (simp_all add: step_lists_def)
  ultimately show ?case by (simp add: drop_keys k conj_commute)
qed (simp_all add: completed_by_def)

text \<open>Every transfer is either complete or waits for its request.\<close>

lemma finished_unfinished:
  assumes "b \<noteq> t"
  shows "sum_list (map bytes_of (filter (\<lambda>x. transfer_of M x = b \<or> transfer_of M x = t) xs))
      = sum_list (map bytes_of (finished M b t xs)) + sum_list (map bytes_of (unfinished M t xs))
    \<and> length (filter (\<lambda>x. transfer_of M x = b \<or> transfer_of M x = t) xs)
      = length (finished M b t xs) + length (unfinished M t xs)"
  using assms by (induction xs) (auto simp: add.assoc add.left_commute)

lemma pending_keys: "map req_key is = map call_key xs \<Longrightarrow> pending is = sum_list (map bytes_of xs) \<and> length is = length xs"
  by (metis (no_types, lifting) pending_def req_key_def call_key_def snd_conv comp_apply list.map_comp map_ext map_eq_imp_length_eq)

text \<open>C11: what \<open>MPIdata\<close> counts of the point to point calls.  For any sequence of MPI calls in which no request is
  used again before a call has completed it, the reported bytes and messages that are sent are those of the
  calls of \<open>MPI_Send\<close> and of the calls of \<open>MPI_Isend\<close> whose request is completed by a later
  \<open>MPI_Wait\<close> or \<open>MPI_Waitall\<close>, or by a later \<open>MPI_Test\<close> or \<open>MPI_Testall\<close> with its flag set; the
  other calls of \<open>MPI_Isend\<close> are exactly the list of pending requests, in their order, with their sizes.  The same
  holds for receiving; and the rows of \<open>mpiCommunicationVector\<close> add up to the received bytes and messages.
  (All sums are those of \<open>unsigned long long\<close>.)\<close>

theorem mpi_data_conserved:
  assumes "mpi_data_run M xs (MPIdata p) = Some s" "requests_ok M {} xs"
  shows "sentBytes s = sum_list (map bytes_of (finished M mpi_send mpi_isend xs))
    \<and> totalSentMessages s = of_nat (length (finished M mpi_send mpi_isend xs))
    \<and> map req_key (async_send s) = map call_key (unfinished M mpi_isend xs)
    \<and> receivedBytes s = sum_list (map bytes_of (finished M mpi_recv mpi_irecv xs))
    \<and> totalReceivedMessages s = of_nat (length (finished M mpi_recv mpi_irecv xs))
    \<and> map req_key (async_recv s) = map call_key (unfinished M mpi_irecv xs)
    \<and> matrix_bytes s = receivedBytes s \<and> matrix_messages s = totalReceivedMessages s"
proof -
  have "pending_addrs (MPIdata p) = []" "async_send (MPIdata p) = []" "async_recv (MPIdata p) = []"
    by (simp_all add: MPIdata_def pending_addrs_def)
  with run_lists[OF assms(1)] assms(2) have l: "map req_key (async_send s) = map call_key (unfinished M mpi_isend xs)"
    "map req_key (async_recv s) = map call_key (unfinished M mpi_irecv xs)"
    by (simp_all add: drop_requests_def)
  have t: "matrix_ok s" "sent_total s = calls_total sends M xs" "received_total s = calls_total receives M xs"
    using run_total[OF assms(1)] by (simp_all add: MPIdata_def matrix_ok_def matrix_bytes_def matrix_messages_def
        sent_total_def received_total_def pending_def add2_def)
  note f = finished_unfinished[of mpi_send mpi_isend M xs, simplified] finished_unfinished[of mpi_recv mpi_irecv M xs, simplified]
  show ?thesis using t l f pending_keys[OF l(1)] pending_keys[OF l(2)]
    by (simp add: matrix_ok_def sent_total_def received_total_def calls_total_def sends_def receives_def)
qed

definition comm_module :: ir_module where
  "comm_module = map (\<lambda>n. \<lparr>f_name = n, f_blocks = []\<rparr>) [''MPI_Send'', ''MPI_Irecv'', ''MPI_Wait'', ''MPI_Test'']"

definition comm_call :: "nat \<Rightarrow> instr" where
  "comm_call f = (plain_instr f Op_Call)\<lparr>i_callee := Callee_Func f\<rparr>"

definition comm_msg :: "int \<Rightarrow> int \<Rightarrow> int \<Rightarrow> mpi_call_msg" where
  "comm_msg other n w = \<lparr>mc_other = other, mc_root = 0, mc_tag = 0, mc_size = n, mc_datatype = w, mc_opt_recvsize = 0,
     mc_opt_recvdatatype = 0, mc_comm = 0, mc_comm_size = 0, mc_other2 = 0, mc_tag2 = 0, mc_flag = 0,
     mc_req_data = \<lparr>req_addr = 64, req_source = other\<rparr>, mc_reqs = [], mc_counter = 0, mc_sizes = [], mc_opt_recvsizes = []\<rparr>"

lemma comm_types: "name2type ''MPI_Send'' = mpi_send" "name2type ''MPI_Irecv'' = mpi_irecv" "name2type ''MPI_Wait'' = mpi_wait"
  "name2type ''MPI_Test'' = mpi_test"
  by (simp_all add: name2type_def mpi_member_def transfer_names_def pop_underscore_def c_str_def strcaseeq_def
      tolower_letters tolower_other)

lemma comm_names: "called_name comm_module (comm_call 0) = Some ''MPI_Send''"
  "called_name comm_module (comm_call (Suc 0)) = Some ''MPI_Irecv''" "called_name comm_module (comm_call 2) = Some ''MPI_Wait''"
  "called_name comm_module (comm_call 3) = Some ''MPI_Test''"
  by (simp_all add: called_name_def comm_call_def comm_module_def plain_instr_def get_calledFunction_def)

text \<open>A send, two receives, a test that does not find the first one complete, and a wait for it.\<close>

definition comm_example :: "(instr \<times> mpi_call_msg) list" where
  "comm_example = [(comm_call 0, comm_msg 1 4 8), (comm_call 1, comm_msg 3 2 4), (comm_call 3, comm_msg 3 0 0),
     (comm_call 1, (comm_msg 1 5 4)\<lparr>mc_req_data := \<lparr>req_addr = 72, req_source = 1\<rparr>\<rparr>), (comm_call 2, comm_msg 3 0 0)]"

lemma comm_example_facts: "requests_ok comm_module {} comm_example"
  "map bytes_of (finished comm_module mpi_send mpi_isend comm_example) = [32]"
  "map bytes_of (finished comm_module mpi_recv mpi_irecv comm_example) = [8]"
  "map call_key (unfinished comm_module mpi_irecv comm_example) = [(72, 20)]"
  by (simp_all add: comm_example_def starts_request_def starts_def completed_by_def completes_def completed_requests_def
      transfer_of_def comm_names comm_types request_of_def call_key_def bytes_of_def comm_msg_def)

lemma mpi_data_conserved_witness:
  "\<exists>s. mpi_data_run comm_module comm_example (MPIdata 0) = Some s
    \<and> sentBytes s = 32 \<and> receivedBytes s = 8 \<and> map req_key (async_recv s) = [(72, 20)] \<and> matrix_bytes s = 8"
proof -
  obtain s where s: "mpi_data_run comm_module comm_example (MPIdata 0) = Some s"
    by (simp add: comm_example_def mpi_data_visit_def comm_names comm_types sent_product_def int_times_def comm_msg_def
        mpi_transfer_step_def count_blocking_def Let_def updateAsyncReqList_def MPIdata_def handleRequestCompletion_def
        getAsyncSend_def getAsyncRecv_def updateReceivedMatrix_def)
  from mpi_data_conserved[OF s comm_example_facts(1)] s show ?thesis
    unfolding comm_example_facts(2-4) by simp
qed

text \<open>A message of 2 GiB or more (here 2^28 doubles): the product is computed in \<open>int\<close> and overflows before it
  is stored in the 64 bits of \<open>bytes\<close>.\<close>

lemma mpi_bytes_overflow:
  "mpi_data_visit comm_module (comm_call 0) (comm_msg 1 (2 ^ 28) 8) (MPIdata 0) = None"
  by (simp add: mpi_data_visit_def comm_names sent_product_def int_times_def comm_msg_def)

end
