(* ===== verification/Mpi_Map_Properties.thy ===== *)
theory Mpi_Map_Properties
  imports Mpi_Map Mpi_Data_Properties
begin

text \<open>
  The data base of \<open>MPImap\<close>: a blocking send and its receive find each other under every interleaving and
  leave the data base as it was; an \<open>MPI_Isend\<close> leaves one entry too many.
\<close>

subsection \<open>Interleavings of two processes\<close>

text \<open>Each process has its trace and the commands that it has still to do.\<close>

inductive two_steps :: "mpi_constants \<Rightarrow> mpi_map \<Rightarrow> mpi_map \<Rightarrow> db_cmd list \<times> db_cmd list \<times> mpi_db
    \<Rightarrow> db_cmd list \<times> db_cmd list \<times> mpi_db \<Rightarrow> bool" for K m1 m2 where
  two_refl: "two_steps K m1 m2 x x"
| two_first: "two_steps K m1 m2 x (c # cs, ds, db) \<Longrightarrow> db_exec K m1 c db = Some (db', txt)
    \<Longrightarrow> two_steps K m1 m2 x (cs, ds, db')"
| two_second: "two_steps K m1 m2 x (cs, d # ds, db) \<Longrightarrow> db_exec K m2 d db = Some (db', txt)
    \<Longrightarrow> two_steps K m1 m2 x (cs, ds, db')"

inductive_cases two_steps_cases: "two_steps K m1 m2 x y"

definition calls_match :: "mpi_constants \<Rightarrow> mpi_call \<Rightarrow> mpi_call \<Rightarrow> bool" where
  "calls_match K a b \<longleftrightarrow> items_are_equal K a b \<noteq> None"

lemma calls_match_sym: "calls_match K a b \<longleftrightarrow> calls_match K b a"
  by (auto simp: calls_match_def items_are_equal_def)

lemma calls_match_type: "calls_match K a (b\<lparr>cl_type := t\<rparr>) \<longleftrightarrow> calls_match K a b"
  by (auto simp: calls_match_def items_are_equal_def)

lemma find_call_None: "find_call K as q = None \<longleftrightarrow> (\<forall>a \<in> set as. \<not> calls_match K a q)"
  by (induction "as") (auto simp: calls_match_def split: option.splits)

lemma find_call_end:
  "find_call K as q = None \<Longrightarrow> calls_match K a q \<Longrightarrow> \<exists>q'. find_call K (as @ [a]) q = Some (length as, q')"
  by (induction "as") (auto simp: calls_match_def split: option.splits)

text \<open>A query is answered by the only matching entry, which stands at the end.\<close>

lemma query_end:
  assumes "cl_type q = GET_SEND_INFO" "find_call K as q = None" "calls_match K a q"
  shows "db_exec K m (Query q) \<lparr>s_call = as @ [a], r_call = rs\<rparr> = Some (\<lparr>s_call = as, r_call = rs\<rparr>, query_lines m q)"
  using find_call_end[OF assms(2,3)] assms(1) by (auto simp: db_exec_def recv_msg_from_db_def erase_at_def)

lemma query_end_recv:
  assumes "cl_type q = GET_RECV_INFO" "find_call K as q = None" "calls_match K a q"
  shows "db_exec K m (Query q) \<lparr>s_call = ss, r_call = as @ [a]\<rparr> = Some (\<lparr>s_call = ss, r_call = as\<rparr>, query_lines m q)"
  using find_call_end[OF assms(2,3)] assms(1)
  by (auto simp: db_exec_def recv_msg_from_db_def erase_at_def GET_RECV_INFO_def GET_SEND_INFO_def)

lemma query_waits:
  "cl_type q = GET_SEND_INFO \<Longrightarrow> find_call K as q = None \<Longrightarrow> db_exec K m (Query q) \<lparr>s_call = as, r_call = rs\<rparr> = None"
  "cl_type q = GET_RECV_INFO \<Longrightarrow> find_call K as q = None \<Longrightarrow> db_exec K m (Query q) \<lparr>s_call = ss, r_call = as\<rparr> = None"
  by (simp_all add: db_exec_def recv_msg_from_db_def GET_RECV_INFO_def GET_SEND_INFO_def)

subsection \<open>A send and its receive\<close>

text \<open>The states in which the sender has done \<open>a\<close> commands and the receiver \<open>b\<close>.\<close>

definition meeting :: "mpi_call \<Rightarrow> mpi_call \<Rightarrow> mpi_db \<Rightarrow> nat \<Rightarrow> nat \<Rightarrow> db_cmd list \<times> db_cmd list \<times> mpi_db" where
  "meeting s r db a b = (drop a (update_MPI_Send s), drop b (update_MPI_Recv r),
     \<lparr>s_call = s_call db @ (if 1 \<le> a \<and> b < 2 then [s] else []), r_call = r_call db @ (if 1 \<le> b \<and> a < 2 then [r] else [])\<rparr>)"

definition meeting_ok :: "nat \<Rightarrow> nat \<Rightarrow> bool" where
  "meeting_ok a b \<longleftrightarrow> a \<le> 2 \<and> b \<le> 2 \<and> (a = 2 \<longrightarrow> 1 \<le> b) \<and> (b = 2 \<longrightarrow> 1 \<le> a)"

lemma meeting_cases:
  assumes "meeting_ok a b"
  obtains "a = 0" "b = 0" | "a = 1" "b = 0" | "a = 0" "b = 1" | "a = 1" "b = 1" | "a = 2" "b = 1" | "a = 1" "b = 2"
  | "a = 2" "b = 2"
  using assms by (auto simp: meeting_ok_def le_Suc_eq numeral_2_eq_2)

text \<open>The two calls match each other and nothing else that is in the data base.\<close>

definition only_match :: "mpi_constants \<Rightarrow> mpi_call \<Rightarrow> mpi_call \<Rightarrow> mpi_db \<Rightarrow> bool" where
  "only_match K s r db \<longleftrightarrow> cl_type s = PUT_SEND_INFO \<and> cl_type r = PUT_RECV_INFO \<and> calls_match K s r
     \<and> (\<forall>x \<in> set (s_call db). \<not> calls_match K x r) \<and> (\<forall>x \<in> set (r_call db). \<not> calls_match K x s)"

definition moves_to :: "(mpi_db \<times> string) option \<Rightarrow> bool \<Rightarrow> mpi_db \<Rightarrow> bool \<Rightarrow> bool" where
  "moves_to r waits db' ok \<longleftrightarrow> (case r of None \<Rightarrow> waits | Some (db, _) \<Rightarrow> db = db' \<and> ok)"

lemma put_exec: "cl_type u = PUT_SEND_INFO \<Longrightarrow> db_exec K m (Put u) db = Some (db\<lparr>s_call := s_call db @ [u]\<rparr>, [])"
  "cl_type u = PUT_RECV_INFO \<Longrightarrow> db_exec K m (Put u) db = Some (db\<lparr>r_call := r_call db @ [u]\<rparr>, [])"
  by (simp_all add: db_exec_def send_msg_to_db_def PUT_SEND_INFO_def PUT_RECV_INFO_def)

lemma sender_moves:
  assumes m: "only_match K s r db" and ok: "meeting_ok a b" "a < 2"
  shows "moves_to (db_exec K m (update_MPI_Send s ! a) (snd (snd (meeting s r db a b)))) (a = 1 \<and> b = 0)
    (snd (snd (meeting s r db (Suc a) b))) (meeting_ok (Suc a) b)"
proof -
  have q: "find_call K (r_call db) (s\<lparr>cl_type := GET_RECV_INFO\<rparr>) = None" "calls_match K r (s\<lparr>cl_type := GET_RECV_INFO\<rparr>)"
    "cl_type s = PUT_SEND_INFO"
    using m by (auto simp: only_match_def find_call_None calls_match_type calls_match_sym)
  from ok(1) show ?thesis
    by (cases rule: meeting_cases)
      (use ok(2) q in \<open>auto simp: meeting_def update_MPI_Send_def query_end_recv query_waits meeting_ok_def
        put_exec moves_to_def numeral_2_eq_2\<close>)
qed

lemma receiver_moves:
  assumes m: "only_match K s r db" and ok: "meeting_ok a b" "b < 2"
  shows "moves_to (db_exec K m (update_MPI_Recv r ! b) (snd (snd (meeting s r db a b)))) (a = 0 \<and> b = 1)
    (snd (snd (meeting s r db a (Suc b)))) (meeting_ok a (Suc b))"
proof -
  have q: "find_call K (s_call db) (r\<lparr>cl_type := GET_SEND_INFO\<rparr>) = None" "calls_match K s (r\<lparr>cl_type := GET_SEND_INFO\<rparr>)"
    "cl_type r = PUT_RECV_INFO"
    using m by (auto simp: only_match_def find_call_None calls_match_type)
  from ok(1) show ?thesis
    by (cases rule: meeting_cases)
      (use ok(2) q in \<open>auto simp: meeting_def update_MPI_Recv_def query_end query_waits meeting_ok_def
        put_exec moves_to_def numeral_2_eq_2\<close>)
qed

lemma meeting_parts: "fst (meeting s r db a b) = drop a (update_MPI_Send s)"
  "fst (snd (meeting s r db a b)) = drop b (update_MPI_Recv r)"
  by (simp_all add: meeting_def)

lemma two_commands: "length (update_MPI_Send s) = 2" "length (update_MPI_Recv r) = 2"
  by (simp_all add: update_MPI_Send_def update_MPI_Recv_def)

lemma meeting_reach:
  assumes "two_steps K m1 m2 x y" "x = meeting s r db 0 0" and m: "only_match K s r db"
  shows "\<exists>a b. meeting_ok a b \<and> y = meeting s r db a b"
  using assms(1,2)
proof induction
  case (two_refl x)
  have "meeting_ok 0 0" by (simp add: meeting_ok_def)
  then show ?case using two_refl by blast
next
  case (two_first x c cs ds db1 db' tx)
  then obtain a b where ab: "meeting_ok a b" "(c # cs, ds, db1) = meeting s r db a b" by blast
  then have d: "drop a (update_MPI_Send s) = c # cs" "ds = drop b (update_MPI_Recv r)" "db1 = snd (snd (meeting s r db a b))"
    using meeting_parts[of s r db a b] by (metis fst_conv snd_conv)+
  then have a: "a < 2" "update_MPI_Send s ! a = c" "drop (Suc a) (update_MPI_Send s) = cs"
    using two_commands(1)[of s] by (auto simp: drop_Suc nth_via_drop drop_tl dest: arg_cong[where f = length])
  have "db' = snd (snd (meeting s r db (Suc a) b)) \<and> meeting_ok (Suc a) b"
    using sender_moves[OF m ab(1) a(1), of m1] two_first.hyps(2) d(3) a(2) by (simp add: moves_to_def)
  then have "meeting_ok (Suc a) b \<and> (cs, ds, db') = meeting s r db (Suc a) b"
    using a(3) d(2) by (simp add: meeting_def)
  then show ?case by blast
next
  case (two_second x cs c ds db1 db' tx)
  then obtain a b where ab: "meeting_ok a b" "(cs, c # ds, db1) = meeting s r db a b" by blast
  then have d: "drop b (update_MPI_Recv r) = c # ds" "cs = drop a (update_MPI_Send s)" "db1 = snd (snd (meeting s r db a b))"
    using meeting_parts[of s r db a b] by (metis fst_conv snd_conv)+
  then have b: "b < 2" "update_MPI_Recv r ! b = c" "drop (Suc b) (update_MPI_Recv r) = ds"
    using two_commands(2)[of r] by (auto simp: drop_Suc nth_via_drop drop_tl dest: arg_cong[where f = length])
  have "db' = snd (snd (meeting s r db a (Suc b))) \<and> meeting_ok a (Suc b)"
    using receiver_moves[OF m ab(1) b(1), of m2] two_second.hyps(2) d(3) b(2) by (simp add: moves_to_def)
  then have "meeting_ok a (Suc b) \<and> (cs, ds, db') = meeting s r db a (Suc b)"
    using b(3) d(2) by (simp add: meeting_def)
  then show ?case by blast
qed

lemma meeting_goes_on:
  assumes "meeting_ok a b" and m: "only_match K s r db" and "\<not> (a = 2 \<and> b = 2)"
  shows "a < 2 \<and> db_exec K m1 (update_MPI_Send s ! a) (snd (snd (meeting s r db a b))) \<noteq> None
    \<or> b < 2 \<and> db_exec K m2 (update_MPI_Recv r ! b) (snd (snd (meeting s r db a b))) \<noteq> None"
proof (cases "a < 2 \<and> \<not> (a = 1 \<and> b = 0)")
  case True
  then show ?thesis using sender_moves[OF m assms(1), of m1]
    by (cases "db_exec K m1 (update_MPI_Send s ! a) (snd (snd (meeting s r db a b)))") (simp_all add: moves_to_def)
next
  case False
  then have "b < 2 \<and> \<not> (a = 0 \<and> b = 1)" using assms(1,3) by (auto simp: meeting_ok_def)
  then show ?thesis using receiver_moves[OF m assms(1), of m2]
    by (cases "db_exec K m2 (update_MPI_Recv r ! b) (snd (snd (meeting s r db a b)))") (simp_all add: moves_to_def)
qed

text \<open>C23: a blocking \<open>MPI_Send\<close> and the \<open>MPI_Recv\<close> that matches it meet in the data base.  However the steps of
  the two processes are interleaved, they never block each other: in every state that is not the end one
  of them can go on; and at the end the data base is what it was before.\<close>

theorem send_recv_rendezvous:
  assumes "only_match K s r db"
    and "two_steps K m1 m2 (update_MPI_Send s, update_MPI_Recv r, db) (cs, ds, db')"
  shows "if cs = [] \<and> ds = [] then db' = db
    else (cs \<noteq> [] \<and> db_exec K m1 (hd cs) db' \<noteq> None) \<or> (ds \<noteq> [] \<and> db_exec K m2 (hd ds) db' \<noteq> None)"
proof -
  have start: "(update_MPI_Send s, update_MPI_Recv r, db) = meeting s r db 0 0" by (simp add: meeting_def)
  obtain a b where ab: "meeting_ok a b" "(cs, ds, db') = meeting s r db a b"
    using meeting_reach[OF assms(2) start assms(1)] by blast
  then have d: "cs = drop a (update_MPI_Send s)" "ds = drop b (update_MPI_Recv r)" "db' = snd (snd (meeting s r db a b))"
    using meeting_parts[of s r db a b] by (metis fst_conv snd_conv)+
  have le: "a \<le> 2" "b \<le> 2" using ab(1) by (simp_all add: meeting_ok_def)
  show ?thesis
  proof (cases "a = 2 \<and> b = 2")
    case True
    then show ?thesis using d by (simp add: meeting_def two_commands)
  next
    case False
    from meeting_goes_on[OF ab(1) assms(1) False, of m1 m2] have
      "(cs \<noteq> [] \<and> db_exec K m1 (hd cs) db' \<noteq> None) \<or> (ds \<noteq> [] \<and> db_exec K m2 (hd ds) db' \<noteq> None)"
      using d two_commands[of s] two_commands[of r] by (auto simp: hd_drop_conv_nth)
    then show ?thesis by auto
  qed
qed

definition mpich :: mpi_constants where
  "mpich = \<lparr>MPI_ANY_SOURCE = -2, MPI_ANY_TAG = -1\<rparr>"

definition send_entry :: mpi_call where
  "send_entry = zero_call\<lparr>cl_type := PUT_SEND_INFO, cl_id_s := 0, cl_id_r := 1, cl_tag := 5\<rparr>"

definition recv_entry :: mpi_call where
  "recv_entry = zero_call\<lparr>cl_type := PUT_RECV_INFO, cl_id_s := -2, cl_id_r := 1, cl_tag := 5\<rparr>"

lemma send_recv_rendezvous_witness:
  "\<not> (db_exec mpich (MPImap 0 0 0) (Query (send_entry\<lparr>cl_type := GET_RECV_INFO\<rparr>))
        \<lparr>s_call = [send_entry], r_call = [recv_entry]\<rparr> = None
    \<and> db_exec mpich (MPImap 1 1 0) (Query (recv_entry\<lparr>cl_type := GET_SEND_INFO\<rparr>))
        \<lparr>s_call = [send_entry], r_call = [recv_entry]\<rparr> = None)"
proof -
  have m: "only_match mpich send_entry recv_entry \<lparr>s_call = [], r_call = []\<rparr>"
    by (simp add: only_match_def calls_match_def items_are_equal_def mpich_def send_entry_def recv_entry_def zero_call_def)
  have t: "cl_type send_entry = PUT_SEND_INFO" "cl_type recv_entry = PUT_RECV_INFO"
    by (simp_all add: send_entry_def recv_entry_def)
  have "two_steps mpich (MPImap 0 0 0) (MPImap 1 1 0)
      (update_MPI_Send send_entry, update_MPI_Recv recv_entry, \<lparr>s_call = [], r_call = []\<rparr>)
      ([Query (send_entry\<lparr>cl_type := GET_RECV_INFO\<rparr>)], update_MPI_Recv recv_entry, \<lparr>s_call = [send_entry], r_call = []\<rparr>)"
    unfolding update_MPI_Send_def by (rule two_first[OF two_refl]) (simp add: put_exec(1)[OF t(1)])
  then have "two_steps mpich (MPImap 0 0 0) (MPImap 1 1 0)
      (update_MPI_Send send_entry, update_MPI_Recv recv_entry, \<lparr>s_call = [], r_call = []\<rparr>)
      ([Query (send_entry\<lparr>cl_type := GET_RECV_INFO\<rparr>)], [Query (recv_entry\<lparr>cl_type := GET_SEND_INFO\<rparr>)],
        \<lparr>s_call = [send_entry], r_call = [recv_entry]\<rparr>)"
    unfolding update_MPI_Recv_def by (rule two_second) (simp add: put_exec(2)[OF t(2)])
  from send_recv_rendezvous[OF m this] show ?thesis by simp
qed

subsection \<open>An asynchronous send\<close>

fun exec_all :: "mpi_constants \<Rightarrow> mpi_map \<Rightarrow> db_cmd list \<Rightarrow> mpi_db \<Rightarrow> mpi_db option" where
  "exec_all K m [] db = Some db"
| "exec_all K m (c # cs) db = (case db_exec K m c db of None \<Rightarrow> None | Some (db, _) \<Rightarrow> exec_all K m cs db)"

lemma isend_commands: "update_info ''MPI_Isend'' msg u u2 = [Put u, Put u]"
  by (simp add: update_info_def update_before_def update_first_def update_MPI_Isend_def map_call_of_def map_names_def
      mpiMatchName_def strncaseeq_def c_str_def is_sendrecv_def Let_def tolower_letters tolower_other)

text \<open>C40: one \<open>MPI_Isend\<close> answers two receives.  \<open>update_info\<close> has two chains of tests, since the \<open>return\<close> between
  them is commented out, and both put the message of an \<open>MPI_Isend\<close> into the data base: after it two
  queries of matching \<open>MPI_Recv\<close> calls succeed, although only one message was sent.\<close>

theorem isend_answers_two:
  assumes "cl_type u = PUT_SEND_INFO" and "calls_match K u r"
  shows "exec_all K m (update_info ''MPI_Isend'' msg u u2
      @ [Query (r\<lparr>cl_type := GET_SEND_INFO\<rparr>), Query (r\<lparr>cl_type := GET_SEND_INFO\<rparr>)]) \<lparr>s_call = [], r_call = rs\<rparr>
    = Some \<lparr>s_call = [], r_call = rs\<rparr>"
proof -
  let ?q = "r\<lparr>cl_type := GET_SEND_INFO\<rparr>"
  obtain q' where q: "items_are_equal K u ?q = Some q'"
    using assms(2) calls_match_type[of K u GET_SEND_INFO r] by (auto simp: calls_match_def)
  have "db_exec K m (Query ?q) \<lparr>s_call = u # us, r_call = rs\<rparr> = Some (\<lparr>s_call = us, r_call = rs\<rparr>, query_lines m ?q)" for us
    using q by (simp add: db_exec_def recv_msg_from_db_def erase_at_def)
  then show ?thesis using put_exec(1)[OF assms(1)] by (simp add: isend_commands)
qed

lemma isend_answers_two_witness:
  "exec_all mpich (MPImap 0 0 0) (update_info ''MPI_Isend'' (comm_msg 1 4 8) send_entry send_entry
      @ [Query (recv_entry\<lparr>cl_type := GET_SEND_INFO\<rparr>), Query (recv_entry\<lparr>cl_type := GET_SEND_INFO\<rparr>)])
    \<lparr>s_call = [], r_call = []\<rparr> = Some \<lparr>s_call = [], r_call = []\<rparr>"
  by (rule isend_answers_two)
    (simp_all add: send_entry_def calls_match_def items_are_equal_def mpich_def recv_entry_def zero_call_def)

subsection \<open>Counts beyond \<open>int\<close>\<close>

text \<open>A successful \<open>MPI_Test\<close> takes the number of instructions since the last call through the \<open>int\<close>
  \<open>tmpDelta\<close>: after 2 ^ 31 instructions the trace gets a number close to 2 ^ 64.\<close>

theorem test_delta_truncates:
  "cl_dif (fst (test_delta (zero_call\<lparr>cl_dif := 2 ^ 31\<rparr>) (MPImap t p acc))) = 2 ^ 64 - 2 ^ 31"
  by (simp add: test_delta_def MPImap_def)

end
