(* ===== verification/Wkld_Properties.thy ===== *)
theory Wkld_Properties
  imports Wkld_Char Mix_Properties OpenMP_Properties Ilp_Theorems Mpi_Map_Properties
begin

text \<open>
  The composition of the analyses of a thread: each sees exactly the instructions of the thread, and
  together they write one well formed JSON object.
\<close>

subsection \<open>The number of analysed instructions\<close>

lemma visit_load_total [simp]: "NumTotalInsts (visit_load tid T m) = NumTotalInsts m"
proof (cases T)
  case (VectorTy n E)
  then show ?thesis by (cases E) (simp_all add: visit_load_def Let_def)
qed (simp_all add: visit_load_def Let_def)

lemma visit_store_total [simp]: "NumTotalInsts (visit_store tid T m) = NumTotalInsts m"
proof (cases T)
  case (VectorTy n E)
  then show ?thesis by (cases E) (simp_all add: visit_store_def Let_def)
qed (simp_all add: visit_store_def Let_def)

lemma count_vector_total [simp]: "NumTotalInsts (count_vector tid op n E m) = NumTotalInsts m"
  by (cases E) (simp_all add: count_vector_def Let_def)

lemma count_type_total [simp]: "NumTotalInsts (count_type tid op T m) = NumTotalInsts m"
  by (cases T) (simp_all add: count_type_def Let_def)

lemma count_gep_total [simp]: "NumTotalInsts (count_gep tid I m) = NumTotalInsts m"
  by (simp add: count_gep_def split: option.split ir_type.split)

lemma visit_memory_total: "visitMemoryInstruction tid I m = Some m' \<Longrightarrow> NumTotalInsts m' = NumTotalInsts m"
  by (auto simp: visitMemoryInstruction_def split: if_splits option.splits ir_type.splits)

lemma visit_binary_total:
  "visitBinaryArithBitwiseCmpConvertSelectInstruction tid I m = Some m' \<Longrightarrow> NumTotalInsts m' = NumTotalInsts m"
  by (auto simp: visitBinaryArithBitwiseCmpConvertSelectInstruction_def Let_def simp del: insert_iff split: if_splits)

lemma mix_analyze_total: "mix_analyze tid I m = Some m' \<Longrightarrow> NumTotalInsts m' = NumTotalInsts m + 1"
  by (auto simp: mix_analyze_def mix_visit_def bind_eq_Some_conv dest!: visit_memory_total visit_binary_total)

subsection \<open>The invariant\<close>

definition wkld_inv :: "nat \<Rightarrow> wkld_char \<Rightarrow> bool" where
  "wkld_inv n w \<longleftrightarrow> getInstCount w = of_nat n \<and> (\<forall>d. wk_dtr w = Some d \<longrightarrow> dtr_safe d)"

lemma wkld_inv_init: "wkld_inv 0 (WKLDchar_init acc M opt t p)"
  by (auto simp: wkld_inv_def WKLDchar_init_def Let_def create_def dtr_safe_init getInstCount_def getNumTotalInsts_def
      instr_mix_init_def)

lemma dtr_visit_safe:
  assumes "dtr_visit alloc S I c d = Some d'" "dtr_safe d" "c \<noteq> 0"
  shows "dtr_safe d'"
proof -
  have "d' = d \<or> (\<exists>adr sz. dtr_access adr sz c d = Some d')"
    using assms(1) by (auto simp: dtr_visit_def bind_eq_Some_conv split: if_splits)
  then show ?thesis using assms(2) dtr_access_safe[OF assms(2,3)] by (metis option.inject)
qed

lemma if_there_Some: "if_there f x = Some y \<Longrightarrow> (case x of None \<Rightarrow> y = None | Some a \<Rightarrow> \<exists>b. f a = Some b \<and> y = Some b)"
  by (auto simp: if_there_def split: option.splits)

text \<open>What a step leaves: the fields after an instruction that is no phi.\<close>

lemma analyze_phi:
  assumes "wkld_analyze E (S, mem, I) w = Some w'" "i_opcode I = Op_PHI"
  shows "\<exists>ilp. if_there (ilp_visit (ilp_env_of E S mem (wk_ia_thread w)) I) (wk_ilp w) = Some ilp
    \<and> w' = w\<lparr>wk_ilp := ilp\<rparr>"
  using assms by (auto simp: wkld_analyze_def bind_eq_Some_conv)

lemma analyze_inst:
  assumes "wkld_analyze E (S, mem, I) w = Some w'" "i_opcode I \<noteq> Op_PHI"
  shows "if_there (ilp_visit (ilp_env_of E S mem (wk_ia_thread w)) I) (wk_ilp w) = Some (wk_ilp w')
    \<and> mix_analyze (we_tid E) I (wk_mix w) = Some (wk_mix w')
    \<and> if_there (dtr_visit (we_alloc_size E) S I (getInstCount w')) (wk_dtr w) = Some (wk_dtr w')
    \<and> if_there (itr_visit I (getInstCount w')) (wk_itr w) = Some (wk_itr w')
    \<and> wk_rc w' = map_option (rc_visit I) (wk_rc w)
    \<and> if_there (\<lambda>ls. map_option ((@) ls)
        (lsv_visit (we_alloc_size E) S (wk_ia_thread w) (wk_processor_id w) I (getInstCount w'))) (wk_ls w) = Some (wk_ls w')
    \<and> if_there (be_visit (we_external E) I) (wk_be w) = Some (wk_be w')
    \<and> wk_mpi_stats w' = map_option (mpi_stats_visit (we_module E) I) (wk_mpi_stats w)
    \<and> wk_openmp_stats w' = map_option (omp_visit (we_module E) I) (wk_openmp_stats w)
    \<and> if_there (elc_visit (we_module E) S mem (wk_ia_thread w) I) (wk_elc w) = Some (wk_elc w')
    \<and> wk_ia_thread w' = wk_ia_thread w \<and> wk_processor_id w' = wk_processor_id w"
  using assms by (auto simp: wkld_analyze_def bind_eq_Some_conv getInstCount_def Let_def)

lemma wkld_inv_step:
  assumes "wkld_analyze E x w = Some w'" "wkld_inv n w" "Suc n < 2 ^ 64"
  shows "wkld_inv (if i_opcode (snd (snd x)) = Op_PHI then n else Suc n) w'"
proof -
  obtain S mem I where x: "x = (S, mem, I)" by (metis prod_cases3)
  show ?thesis
  proof (cases "i_opcode I = Op_PHI")
    case True
    then show ?thesis using analyze_phi[OF assms(1)[unfolded x]] assms(2) x by (auto simp: wkld_inv_def getInstCount_def)
  next
    case False
    note st = analyze_inst[OF assms(1)[unfolded x] False]
    have c: "getInstCount w' = of_nat (Suc n)"
      using st assms(2) by (auto simp: wkld_inv_def getInstCount_def getNumTotalInsts_def dest!: mix_analyze_total)
    have "(of_nat (Suc n) :: u64) \<noteq> 0"
      using assms(3) nat_dvd_not_less[of "Suc n" "2 ^ 64"] by (auto simp: word_of_nat_eq_0_iff simp del: of_nat_Suc)
    then have "\<forall>d. wk_dtr w' = Some d \<longrightarrow> dtr_safe d"
      using st c assms(2) dtr_visit_safe by (auto simp: wkld_inv_def if_there_def split: option.splits simp del: of_nat_Suc)
    then show ?thesis using False c x by (simp add: wkld_inv_def)
  qed
qed

lemma wkld_inv_run:
  "wkld_run E xs w = Some w' \<Longrightarrow> wkld_inv n w \<Longrightarrow> n + length xs < 2 ^ 64 \<Longrightarrow> \<exists>k. wkld_inv k w'"
proof (induction E xs w arbitrary: n rule: wkld_run.induct)
  case (2 E x xs w)
  then obtain w1 where w1: "wkld_analyze E x w = Some w1" "wkld_run E xs w1 = Some w'" by (auto split: option.splits)
  have "wkld_inv (if i_opcode (snd (snd x)) = Op_PHI then n else Suc n) w1"
    using wkld_inv_step[OF w1(1) 2(3)] 2(4) by simp
  then show ?case using 2(1)[OF w1] 2(4) by (auto split: if_splits)
qed auto

subsection \<open>The output\<close>

lemma dump_if_wf: "(\<And>a. x = Some a \<Longrightarrow> json_members (f a)) \<Longrightarrow> json_members (dump_if f x)"
  by (cases x) (simp_all add: dump_if_def json_members_Nil)

lemma wkld_dump_wf:
  assumes "\<forall>d. wk_dtr w = Some d \<longrightarrow> dtr_safe d"
  shows "\<exists>es w'. wkld_JSONdump tid sb sa w = Some (es, w') \<and> json_one_value es"
proof -
  obtain mes mix where mix: "JSONdump_vectorIncluded tid (wk_mix w) = (mes, mix)" by fastforce
  have mes: "json_members mes" using mix_JSON_wf[of tid "wk_mix w"] mix by simp
  have "\<exists>ds. (case wk_dtr w of None \<Rightarrow> Some []
       | Some d \<Rightarrow> map_option ((#) (JString ''dataReuseDistribution''))
           (dtr_JSONdump (getNumLoadInst mix + getNumStoreInst mix) sb sa d)) = Some ds \<and> json_members ds"
  proof (cases "wk_dtr w")
    case (Some d)
    then obtain ds where "dtr_JSONdump (getNumLoadInst mix + getNumStoreInst mix) sb sa d = Some ds"
      "json_members (JString ''dataReuseDistribution'' # ds)"
      using dtr_JSONdump_wf assms by blast
    then show ?thesis using Some by simp
  qed (simp add: json_members_Nil)
  then obtain ds where ds: "(case wk_dtr w of None \<Rightarrow> Some []
       | Some d \<Rightarrow> map_option ((#) (JString ''dataReuseDistribution''))
           (dtr_JSONdump (getNumLoadInst mix + getNumStoreInst mix) sb sa d)) = Some ds" "json_members ds" by blast
  have itr: "json_members (JString n # StartArray # itr_JSONdump nf i @ [EndArray])" for n nf i
    using json_member[OF json_value_array[OF json_one_value_element[OF itr_JSONdump_wf]] json_members_Nil] by simp
  have "json_members (JString ''threadId'' # JUint64 (of_int (wk_thread_id w))
      # JString ''processId'' # JUint64 (of_int (wk_processor_id w))
      # mes @ dump_if omp_JSONdump (wk_openmp_stats w) @ dump_if mpi_stats_JSONdump (wk_mpi_stats w)
      @ dump_if (ilp_JSONdump mix) (wk_ilp w) @ ds
      @ dump_if (\<lambda>i. JString ''instReuseDistribution'' # StartArray # itr_JSONdump (getNumTotalInsts mix) i @ [EndArray])
          (wk_itr w)
      @ dump_if rc_JSONdump (wk_rc w) @ dump_if mpi_data_JSONdump (wk_mpi_data w) @ dump_if elc_JSONdump (wk_elc w))"
    by (intro json_member_uint json_members_append dump_if_wf mes ds(2) itr omp_JSONdump_wf mpi_stats_JSONdump_wf
        ilp_JSONdump_wf mpi_data_JSONdump_wf conjunct1[OF small_JSON_wf] conjunct2[OF small_JSON_wf])
  from json_value_object[OF this] show ?thesis
    using ds(1) unfolding wkld_JSONdump_def mix by simp
qed

text \<open>C8: the output of a thread is well formed.  Whatever options a \<open>WKLDchar\<close> has been created with and
  whatever instructions it has analysed, \<open>JSONdump\<close> returns, and writes exactly one JSON object: all
  the analyses together close what they open, and names and values alternate.\<close>

theorem wkld_output_wf:
  assumes "wkld_run E xs (WKLDchar_decoupled M opt t p) = Some w" and "length xs < 2 ^ 64"
  shows "\<exists>es w'. wkld_JSONdump (we_tid E) sharedBytes sharedAccesses w = Some (es, w') \<and> json_one_value es"
proof -
  obtain k where "wkld_inv k w"
    using wkld_inv_run[OF assms(1)] wkld_inv_init assms(2) by (fastforce simp: WKLDchar_decoupled_def)
  then show ?thesis using wkld_dump_wf by (simp add: wkld_inv_def)
qed

subsection \<open>Every analysis sees the instructions of the thread\<close>

text \<open>The inputs of the analyses but the one of parallelism: what is no phi.  Some analyses are passed the
  number of the instruction too, counted from 1.\<close>

definition plain_inputs :: "wkld_input list \<Rightarrow> wkld_input list" where
  "plain_inputs xs = filter (\<lambda>x. i_opcode (snd (snd x)) \<noteq> Op_PHI) xs"

definition insts_of :: "wkld_input list \<Rightarrow> instr list" where
  "insts_of xs = map (\<lambda>x. snd (snd x)) (plain_inputs xs)"

fun counted_run :: "(wkld_input \<Rightarrow> u64 \<Rightarrow> 's \<Rightarrow> 's option) \<Rightarrow> u64 \<Rightarrow> wkld_input list \<Rightarrow> 's \<Rightarrow> 's option" where
  "counted_run f n [] s = Some s"
| "counted_run f n (x # xs) s = (case f x (n + 1) s of None \<Rightarrow> None | Some s \<Rightarrow> counted_run f (n + 1) xs s)"

definition ls_step :: "wkld_env \<Rightarrow> int \<Rightarrow> int \<Rightarrow> wkld_input \<Rightarrow> u64 \<Rightarrow> ls_line list \<Rightarrow> ls_line list option" where
  "ls_step E t p x c ls = map_option ((@) ls) (lsv_visit (we_alloc_size E) (fst x) t p (snd (snd x)) c)"

definition wkld_sees :: "wkld_env \<Rightarrow> wkld_input list \<Rightarrow> wkld_char \<Rightarrow> wkld_char \<Rightarrow> bool" where
  "wkld_sees E xs w w' \<longleftrightarrow>
    mix_run (we_tid E) (insts_of xs) (wk_mix w) = Some (wk_mix w')
    \<and> if_there (counted_run (\<lambda>x c. dtr_visit (we_alloc_size E) (fst x) (snd (snd x)) c) (getInstCount w) (plain_inputs xs))
        (wk_dtr w) = Some (wk_dtr w')
    \<and> if_there (counted_run (\<lambda>x. itr_visit (snd (snd x))) (getInstCount w) (plain_inputs xs)) (wk_itr w) = Some (wk_itr w')
    \<and> wk_rc w' = map_option (rc_run (insts_of xs)) (wk_rc w)
    \<and> if_there (counted_run (ls_step E (wk_ia_thread w) (wk_processor_id w)) (getInstCount w) (plain_inputs xs)) (wk_ls w)
        = Some (wk_ls w')
    \<and> if_there (be_run (we_external E) (insts_of xs)) (wk_be w) = Some (wk_be w')
    \<and> wk_mpi_stats w' = map_option (mpi_run (we_module E) (insts_of xs)) (wk_mpi_stats w)
    \<and> wk_openmp_stats w' = map_option (omp_run (we_module E) (insts_of xs)) (wk_openmp_stats w)
    \<and> if_there (elc_run (we_module E) (wk_ia_thread w) (plain_inputs xs)) (wk_elc w) = Some (wk_elc w')
    \<and> if_there (ilp_run (map (\<lambda>(S, mem, I). Visit (ilp_env_of E S mem (wk_ia_thread w)) I) xs)) (wk_ilp w)
        = Some (wk_ilp w')"

lemma if_there_run:
  "if_there f x = Some y \<Longrightarrow> if_there g y = Some z
    \<Longrightarrow> if_there (\<lambda>a. case f a of None \<Rightarrow> None | Some b \<Rightarrow> g b) x = Some z"
  by (auto simp: if_there_def split: option.splits)

lemma if_there_id: "if_there Some x = Some x"
  by (cases x) (simp_all add: if_there_def)

lemma run_Nil:
  "be_run e [] = Some" "elc_run M t [] = Some" "ilp_run [] = Some" "counted_run f n [] = Some"
  "rc_run [] = (\<lambda>s. s)" "mpi_run M [] = (\<lambda>s. s)" "omp_run M [] = (\<lambda>s. s)"
  by (simp_all add: fun_eq_iff rc_run_def mpi_run_def omp_run_def)

lemma run_Cons:
  "be_run e (I # Is) = (\<lambda>s. case be_visit e I s of None \<Rightarrow> None | Some s \<Rightarrow> be_run e Is s)"
  "elc_run M t ((S, mem, I) # xs) = (\<lambda>s. case elc_visit M S mem t I s of None \<Rightarrow> None | Some s \<Rightarrow> elc_run M t xs s)"
  "ilp_run (Visit ie I # vs) = (\<lambda>s. case ilp_visit ie I s of None \<Rightarrow> None | Some s \<Rightarrow> ilp_run vs s)"
  "counted_run f n (x # xs) = (\<lambda>s. case f x (n + 1) s of None \<Rightarrow> None | Some s \<Rightarrow> counted_run f (n + 1) xs s)"
  "rc_run (I # Is) = rc_run Is \<circ> rc_visit I"
  "mpi_run M (I # Is) = mpi_run M Is \<circ> mpi_stats_visit M I"
  "omp_run M (I # Is) = omp_run M Is \<circ> omp_visit M I"
  by (simp_all add: fun_eq_iff rc_run_def mpi_run_def omp_run_def)

lemma wkld_sees_Nil: "wkld_sees E [] w w"
  by (simp add: wkld_sees_def insts_of_def plain_inputs_def if_there_id run_Nil option.map_ident)

lemma wkld_sees_phi:
  assumes "wkld_analyze E (S, mem, I) w = Some w1" "i_opcode I = Op_PHI" "wkld_sees E xs w1 w'"
  shows "wkld_sees E ((S, mem, I) # xs) w w'"
proof -
  obtain ilp where ilp: "if_there (ilp_visit (ilp_env_of E S mem (wk_ia_thread w)) I) (wk_ilp w) = Some ilp"
    and w1: "w1 = w\<lparr>wk_ilp := ilp\<rparr>" using analyze_phi[OF assms(1,2)] by blast
  have same: "plain_inputs ((S, mem, I) # xs) = plain_inputs xs" "insts_of ((S, mem, I) # xs) = insts_of xs"
    using assms(2) by (simp_all add: insts_of_def plain_inputs_def)
  have "if_there (ilp_run (map (\<lambda>(S, mem, I). Visit (ilp_env_of E S mem (wk_ia_thread w)) I) ((S, mem, I) # xs))) (wk_ilp w)
      = Some (wk_ilp w')"
    using if_there_run[OF ilp] assms(3) by (simp add: w1 wkld_sees_def run_Cons)
  then show ?thesis using assms(3) unfolding wkld_sees_def same by (simp add: w1 getInstCount_def)
qed

lemma wkld_sees_inst:
  assumes "wkld_analyze E (S, mem, I) w = Some w1" "i_opcode I \<noteq> Op_PHI" "wkld_sees E xs w1 w'"
  shows "wkld_sees E ((S, mem, I) # xs) w w'"
proof -
  note st = analyze_inst[OF assms(1,2)]
  have n: "getInstCount w + 1 = getInstCount w1"
    using st by (auto simp: getInstCount_def getNumTotalInsts_def dest!: mix_analyze_total)
  have Cons: "plain_inputs ((S, mem, I) # xs) = (S, mem, I) # plain_inputs xs"
    "insts_of ((S, mem, I) # xs) = I # insts_of xs"
    using assms(2) by (simp_all add: insts_of_def plain_inputs_def)
  have ls: "if_there (ls_step E (wk_ia_thread w) (wk_processor_id w) (S, mem, I) (getInstCount w1)) (wk_ls w) = Some (wk_ls w1)"
    using st by (simp add: ls_step_def[abs_def])
  show ?thesis
    unfolding wkld_sees_def Cons run_Cons n list.map prod.case fst_conv snd_conv
    using st ls assms(3)[unfolded wkld_sees_def]
    by (intro conjI if_there_run[where y = "wk_dtr w1"] if_there_run[where y = "wk_itr w1"]
        if_there_run[where y = "wk_ls w1"] if_there_run[where y = "wk_be w1"] if_there_run[where y = "wk_elc w1"]
        if_there_run[where y = "wk_ilp w1"]) (simp_all add: option.map_comp)
qed

text \<open>C7: the driver passes the trace on exactly.  Over a run of \<open>analyze\<close> every analysis goes through the
  same states as if it were alone: the instruction mix, the register, branch, MPI, OpenMP and library
  call analyses see all the instructions that are no phi, in order and each once; the reuse distances
  and the load and store listing see them with their numbers, counted on from the instructions that
  the mix has counted before; the analysis of parallelism sees the phi instructions too; and an analysis that
  has not been asked for stays absent.\<close>

theorem wkld_projects:
  assumes "wkld_run E xs w = Some w'"
  shows "wkld_sees E xs w w'"
  using assms
proof (induction E xs w rule: wkld_run.induct)
  case (2 E x xs w)
  then obtain w1 where w1: "wkld_analyze E x w = Some w1" "wkld_run E xs w1 = Some w'" by (auto split: option.splits)
  obtain S mem I where x: "x = (S, mem, I)" by (metis prod_cases3)
  from 2(1)[OF w1] w1(1) wkld_sees_phi wkld_sees_inst show ?case unfolding x by blast
qed (simp add: wkld_sees_Nil)

definition wkld_example_env :: wkld_env where
  "wkld_example_env = \<lparr>we_module = [], we_tid = llvm_tid, we_alloc_size = (\<lambda>_. 4), we_external = (\<lambda>_. False),
     we_args_of = (\<lambda>_. [])\<rparr>"

definition wkld_example_options :: wkld_options where
  "wkld_example_options = \<lparr>wo_flags = ANALYZE_REG_COUNT, wo_data_cache_line_size = 64,
     wo_data_reuse_distance_resolution = 8, wo_data_reuse_distance_resolution_final_bin = 64,
     wo_inst_cache_line_size = 64, wo_inst_size = 4, wo_window_size = 0, wo_accMode = 0, wo_branch_entropy_file = [],
     wo_entries = 0, wo_shard = 0\<rparr>"

definition wkld_example_inputs :: "wkld_input list" where
  "wkld_example_inputs = [(ilp_tables, \<lambda>_. 0, plain_instr 1 Op_PHI), (ilp_tables, \<lambda>_. 0, plain_instr 2 Op_Br)]"

lemma wkld_example_runs:
  "\<exists>w. wkld_run wkld_example_env wkld_example_inputs (WKLDchar_decoupled [] wkld_example_options 0 0) = Some w
    \<and> NumTotalInsts (wk_mix w) = 1"
  by (simp add: wkld_example_env_def wkld_example_inputs_def WKLDchar_decoupled_def WKLDchar_init_def
      wkld_example_options_def create_def asks_def flag_defs wkld_analyze_def if_there_def plain_instr_def mix_analyze_def
      mix_visit_def visitMemoryInstruction_def visitBinaryArithBitwiseCmpConvertSelectInstruction_def instr_mix_init_def Let_def)

lemma wkld_projects_witness:
  "wkld_sees wkld_example_env wkld_example_inputs (WKLDchar_decoupled [] wkld_example_options 0 0)
    (the (wkld_run wkld_example_env wkld_example_inputs (WKLDchar_decoupled [] wkld_example_options 0 0)))"
  by (rule wkld_projects) (use wkld_example_runs in force)

lemma wkld_output_wf_witness:
  "\<exists>es w'. wkld_JSONdump llvm_tid 0 0
      (the (wkld_run wkld_example_env wkld_example_inputs (WKLDchar_decoupled [] wkld_example_options 0 0))) = Some (es, w')
    \<and> json_one_value es"
proof -
  obtain w where w: "wkld_run wkld_example_env wkld_example_inputs (WKLDchar_decoupled [] wkld_example_options 0 0) = Some w"
    using wkld_example_runs by blast
  have "we_tid wkld_example_env = llvm_tid" "length wkld_example_inputs < 2 ^ 64"
    by (simp_all add: wkld_example_inputs_def wkld_example_env_def)
  then show ?thesis using wkld_output_wf[OF w, of 0 0] by (simp only: w option.sel)
qed

subsection \<open>Options of the branch trace\<close>

text \<open>The option for conditional branches only has no effect of its own: both constructors pass
  \<open>false\<close> for \<open>cond\<close> in either case, so the trace is the one of all the branches.\<close>

theorem branch_cond_ignored:
  "wk_be (WKLDchar_init acc M (opt\<lparr>wo_flags := PRINT_BRANCH_COND\<rparr>) t p)
    = wk_be (WKLDchar_init acc M (opt\<lparr>wo_flags := PRINT_BRANCH\<rparr>) t p)"
  by (simp add: WKLDchar_init_def asks_def flag_defs Let_def)

end
