(* ===== verification/Server_Flow.thy ===== *)
theory Server_Flow
  imports Branch_Entropy
begin

text \<open>
  \<open>library/server.cc\<close>: the reconstruction of the control flow of a client.  The instrumented
  program sends a message at the start of every basic block and after every load and store; the
  consumer of a connection replays the instructions between two messages from the module.  At a call
  of a function of the module it saves where to go on, at a return it goes on there.

  The calls on the analyses of a thread (\<open>WKLDcharForThreads\<close>) and the updates of the shared tables
  that only the analyses read are collected as a list of actions.
\<close>

subsection \<open>Messages and state\<close>

text \<open>A message has a type and data; \<open>BASICBLOCK_NOTIFICATION\<close> has the identifiers of a function
  and a block and the number of a thread, and so on.  The content of an MPI message does not matter
  for the flow.\<close>

datatype 'm flow_message =
    BASICBLOCK_NOTIFICATION int int int
  | MEM_ADDR_NOTIFICATION int int int u64
  | MPI_UPDATE_PROCESS_ID int
  | MPI_CALL_NOTIFICATION int int int 'm
  | FUNC_ADDRESS int u64
  | END_APP_NOTIFICATION

datatype 'm flow_action =
    Construct int int                       \<comment> \<open>\<open>WKLDchar(...)\<close> with its thread and process\<close>
  | UpdateProcessId int
  | Analyze instr
  | Returned instr instr                    \<comment> \<open>\<open>updateILPforCall\<close>\<close>
  | ProcessMap "instr option" "'m option" int int
  | ProcessData instr 'm
  | SetMemory instr u64
  | SetFunction u64 int

text \<open>A block is identified by its function and its number, an instruction in it by its index.\<close>

type_synonym block_pos = "nat \<times> nat"

record flow_config =
  fc_module :: ir_module
  IncludeFunctions :: "string list"
  ExcludedFunctions :: "string list"
  fc_mpi_map :: bool
  fc_mpi_data :: bool

record 'm flow =
  fl_thread :: int
  fl_inFunction :: int
  fl_mpi_processor_id :: int
  fl_initialized :: "bool list"
  fl_saved :: "(block_pos \<times> nat) list list"
  fl_should_stop :: "bool list"
  fl_exited :: bool
  fl_actions :: "(int \<times> 'm flow_action) list"

text \<open>The tables are indexed by the number of the thread; an index out of range is undefined.\<close>

definition tab_get :: "int \<Rightarrow> 'a list \<Rightarrow> 'a option" where
  "tab_get i xs = (if 0 \<le> i \<and> nat i < length xs then Some (xs ! nat i) else None)"

definition tab_put :: "int \<Rightarrow> 'a \<Rightarrow> 'a list \<Rightarrow> 'a list option" where
  "tab_put i x xs = (if 0 \<le> i \<and> nat i < length xs then Some (xs[nat i := x]) else None)"

definition act :: "'m flow_action \<Rightarrow> 'm flow \<Rightarrow> 'm flow" where
  "act a s = s\<lparr>fl_actions := fl_actions s @ [(fl_thread s, a)]\<rparr>"

definition saved_states :: "'m flow \<Rightarrow> (block_pos \<times> nat) list" where
  "saved_states s = (case tab_get (fl_thread s) (fl_saved s) of None \<Rightarrow> [] | Some st \<Rightarrow> st)"

definition put_saved :: "(block_pos \<times> nat) list \<Rightarrow> 'm flow \<Rightarrow> 'm flow" where
  "put_saved st s = (case tab_put (fl_thread s) st (fl_saved s) of None \<Rightarrow> s | Some t \<Rightarrow> s\<lparr>fl_saved := t\<rparr>)"

subsection \<open>Included and excluded functions\<close>

definition block_insts :: "ir_module \<Rightarrow> block_pos \<Rightarrow> instr list" where
  "block_insts M p = b_insts (f_blocks (M ! fst p) ! snd p)"

text \<open>\<open>Module::getFunction\<close>.\<close>

definition getFunction :: "ir_module \<Rightarrow> string \<Rightarrow> ir_func option" where
  "getFunction M name = find (\<lambda>F. f_name F = name) M"

text \<open>The assertions that the names are not empty are part of the hypotheses on modules.\<close>

definition check_if_bb_is_in_function :: "ir_module \<Rightarrow> ir_func \<Rightarrow> block_pos \<Rightarrow> bool" where
  "check_if_bb_is_in_function M F p = (f_name (M ! fst p) = f_name F)"

definition listed_function :: "ir_module \<Rightarrow> string list \<Rightarrow> block_pos \<Rightarrow> bool" where
  "listed_function M names p = list_ex (\<lambda>n. case getFunction M n of None \<Rightarrow> False
     | Some F \<Rightarrow> check_if_bb_is_in_function M F p) names"

definition check_if_bb_is_in_included_functions :: "flow_config \<Rightarrow> block_pos \<Rightarrow> 'm flow \<Rightarrow> bool" where
  "check_if_bb_is_in_included_functions C p s =
    (IncludeFunctions C = [] \<or> listed_function (fc_module C) (IncludeFunctions C) p
     \<or> list_ex (\<lambda>(q, _). listed_function (fc_module C) (IncludeFunctions C) q) (saved_states s))"

definition check_if_bb_is_in_excluded_functions :: "flow_config \<Rightarrow> block_pos \<Rightarrow> 'm flow \<Rightarrow> bool" where
  "check_if_bb_is_in_excluded_functions C p s =
    (ExcludedFunctions C \<noteq> [] \<and> (listed_function (fc_module C) (ExcludedFunctions C) p
     \<or> list_ex (\<lambda>(q, _). listed_function (fc_module C) (ExcludedFunctions C) q) (saved_states s)))"

subsection \<open>Instructions\<close>

definition callee_of :: "flow_config \<Rightarrow> instr \<Rightarrow> ir_func option" where
  "callee_of C I = (if i_opcode I = Op_Call
     then (case get_calledFunction I of None \<Rightarrow> None | Some f \<Rightarrow> Some (fc_module C ! f)) else None)"

definition is_debug_call :: "flow_config \<Rightarrow> instr \<Rightarrow> bool" where
  "is_debug_call C I = (case callee_of C I of None \<Rightarrow> False | Some F \<Rightarrow> take 5 (f_name F) = ''llvm.'')"

definition is_memory :: "instr \<Rightarrow> bool" where
  "is_memory I \<longleftrightarrow> i_opcode I = Op_Load \<or> i_opcode I = Op_Store"

definition is_internal_call :: "flow_config \<Rightarrow> instr \<Rightarrow> bool" where
  "is_internal_call C I = (case callee_of C I of None \<Rightarrow> False | Some F \<Rightarrow> \<not> is_external F)"

definition is_exit_call :: "flow_config \<Rightarrow> instr \<Rightarrow> bool" where
  "is_exit_call C I = (case callee_of C I of None \<Rightarrow> False | Some F \<Rightarrow> f_name F = ''exit'')"

definition stops_for_mpi :: "flow_config \<Rightarrow> instr \<Rightarrow> bool" where
  "stops_for_mpi C I = (fc_mpi_map C \<and> (case callee_of C I of None \<Rightarrow> False
     | Some F \<Rightarrow> is_mpi_sync_call (f_name F) = Some True))"

text \<open>A call of \<open>exit\<close> ends the consumer.\<close>

definition process_instr :: "flow_config \<Rightarrow> instr \<Rightarrow> 'm flow \<Rightarrow> 'm flow" where
  "process_instr C I s = (let s = act (Analyze I) s
     in if is_exit_call C I then s\<lparr>fl_exited := True\<rparr> else s)"

definition process_wanted :: "flow_config \<Rightarrow> block_pos \<Rightarrow> instr \<Rightarrow> 'm flow \<Rightarrow> 'm flow" where
  "process_wanted C p I s =
    (if check_if_bb_is_in_included_functions C p s \<and> \<not> check_if_bb_is_in_excluded_functions C p s
     then process_instr C I s else s)"

definition push_state :: "flow_config \<Rightarrow> block_pos \<Rightarrow> nat \<Rightarrow> 'm flow \<Rightarrow> 'm flow" where
  "push_state C p i s =
    (let s = (if IncludeFunctions C \<noteq> [] \<and> fl_inFunction s \<ge> 1 then s\<lparr>fl_inFunction := fl_inFunction s + 1\<rparr> else s)
     in put_saved (saved_states s @ [(p, i)]) s)"

text \<open>The loop over the instructions of a block; \<open>Some last\<close> is its end with the last processed
  instruction, \<open>None\<close> an early return.\<close>

fun iter_block :: "flow_config \<Rightarrow> block_pos \<Rightarrow> nat \<Rightarrow> instr list \<Rightarrow> instr option \<Rightarrow> 'm flow
    \<Rightarrow> 'm flow \<times> instr option option" where
  "iter_block C p i [] lp s = (s, Some lp)"
| "iter_block C p i (I # Is) lp s =
    (if is_debug_call C I then iter_block C p (Suc i) Is lp s
     else if is_memory I then (s, None)
     else let s = process_wanted C p I s in
       if fl_exited s then (s, None)
       else if is_internal_call C I then (push_state C p (Suc i) s, None)
       else if stops_for_mpi C I then (s, None)
       else iter_block C p (Suc i) Is (Some I) s)"

text \<open>The return to a saved state; the call is the instruction before it.\<close>

definition pop_state :: "flow_config \<Rightarrow> instr \<Rightarrow> 'm flow \<Rightarrow> 'm flow" where
  "pop_state C ret s =
    (let (p, i) = last (saved_states s);
         s = put_saved (butlast (saved_states s)) s;
         s = act (Returned ret (block_insts (fc_module C) p ! (i - 1))) s;
         s = (if IncludeFunctions C \<noteq> [] \<and> fl_inFunction s > 1 then s\<lparr>fl_inFunction := fl_inFunction s - 1\<rparr> else s)
     in if fl_inFunction s = 1 \<and> \<not> check_if_bb_is_in_included_functions C p s
        then act (ProcessMap None None 0 0) (s\<lparr>fl_inFunction := 0\<rparr>) else s)"

definition returns :: "instr option \<Rightarrow> 'm flow \<Rightarrow> bool" where
  "returns lp s = (saved_states s \<noteq> [] \<and> (case lp of None \<Rightarrow> False | Some I \<Rightarrow> i_opcode I = Op_Ret))"

lemma tab_put_get: "tab_put i x xs = Some ys \<Longrightarrow> tab_get i ys = Some x"
  by (auto simp: tab_put_def tab_get_def split: if_splits)

lemma put_saved_thread [simp]: "fl_thread (put_saved st s) = fl_thread s"
  by (simp add: put_saved_def split: option.split)

lemma act_sel [simp]: "fl_thread (act a s) = fl_thread s" "fl_saved (act a s) = fl_saved s"
  "saved_states (act a s) = saved_states s" "fl_exited (act a s) = fl_exited s"
  "fl_inFunction (act a s) = fl_inFunction s" "fl_initialized (act a s) = fl_initialized s"
  "fl_should_stop (act a s) = fl_should_stop s"
  "fl_actions (act a s) = fl_actions s @ [(fl_thread s, a)]"
  by (simp_all add: act_def saved_states_def)

lemma saved_put: "saved_states s \<noteq> [] \<Longrightarrow> saved_states (put_saved st s) = st"
  by (auto simp: saved_states_def put_saved_def tab_get_def tab_put_def split: option.splits if_splits)

lemma pop_state_saved:
  "saved_states s \<noteq> [] \<Longrightarrow> saved_states (pop_state C ret s) = butlast (saved_states s)"
proof -
  assume "saved_states s \<noteq> []"
  then have "saved_states (put_saved (butlast (saved_states s)) s) = butlast (saved_states s)" by (rule saved_put)
  moreover have "saved_states (t\<lparr>fl_inFunction := k\<rparr>) = saved_states t" for t :: "'a flow" and k
    by (simp add: saved_states_def)
  ultimately show ?thesis by (simp add: pop_state_def Let_def case_prod_unfold)
qed

lemma process_wanted_saved [simp]: "saved_states (process_wanted C p I s) = saved_states s"
  by (simp add: process_wanted_def process_instr_def Let_def saved_states_def act_def)

lemma iter_block_saved: "iter_block C p i Is lp s = (s', Some l) \<Longrightarrow> saved_states s' = saved_states s"
  by (induction C p i Is lp s rule: iter_block.induct) (auto simp: Let_def split: if_splits)

text \<open>\<open>iter_instructions\<close> from instruction \<open>i\<close> of a block.\<close>

function iter_instructions :: "flow_config \<Rightarrow> block_pos \<Rightarrow> nat \<Rightarrow> 'm flow \<Rightarrow> 'm flow" where
  "iter_instructions C p i s =
    (case iter_block C p i (drop i (block_insts (fc_module C) p)) None s of
       (s, None) \<Rightarrow> s
     | (s, Some l) \<Rightarrow> if returns l s
         then (let q = last (saved_states s) in iter_instructions C (fst q) (snd q) (pop_state C (the l) s))
         else s)"
  by auto
termination
  by (relation "measure (\<lambda>(C, p, i, s). length (saved_states s))")
    (auto simp: pop_state_saved returns_def dest!: iter_block_saved[OF sym])

declare iter_instructions.simps [simp del]

subsection \<open>The consumer of a connection\<close>

text \<open>The first message of a thread creates its analyses.\<close>

definition first_message :: "int \<Rightarrow> int \<Rightarrow> 'm flow \<Rightarrow> 'm flow option" where
  "first_message t p s =
    (case tab_get (fl_thread s) (fl_initialized s) of
       None \<Rightarrow> None
     | Some True \<Rightarrow> Some s
     | Some False \<Rightarrow>
        (case (tab_put (fl_thread s) True (fl_initialized s), tab_put (fl_thread s) [] (fl_saved s)) of
           (Some ini, Some saved) \<Rightarrow> Some (act (Construct t p) (s\<lparr>fl_initialized := ini, fl_saved := saved\<rparr>))
         | _ \<Rightarrow> None))"

text \<open>With \<open>ANALYZE_MPI_MAP\<close> the entry into the included functions is reported.\<close>

definition enter_block :: "flow_config \<Rightarrow> block_pos \<Rightarrow> 'm flow \<Rightarrow> 'm flow" where
  "enter_block C p s =
    (if \<not> fc_mpi_map C then s
     else if fl_inFunction s = 0
     then if check_if_bb_is_in_included_functions C p s \<and> \<not> check_if_bb_is_in_excluded_functions C p s
          then act (ProcessMap None None 0 1) (s\<lparr>fl_inFunction := 1\<rparr>) else s
     else if \<not> check_if_bb_is_in_included_functions C p s
     then act (ProcessMap None None 0 0) (s\<lparr>fl_inFunction := 0\<rparr>) else s)"

definition continue_after :: "flow_config \<Rightarrow> block_pos \<Rightarrow> nat \<Rightarrow> 'm flow \<Rightarrow> 'm flow" where
  "continue_after C p i s =
    (if Suc i < length (block_insts (fc_module C) p) then iter_instructions C p (Suc i) s else s)"

definition found_block :: "flow_config \<Rightarrow> int \<Rightarrow> int \<Rightarrow> block_pos option" where
  "found_block C f bb = (case get_basicblock f bb (Some (fc_module C)) of
     Some (Some _) \<Rightarrow> Some (nat f, nat bb) | _ \<Rightarrow> None)"

definition found_inst :: "flow_config \<Rightarrow> int \<Rightarrow> int \<Rightarrow> int \<Rightarrow> instr option" where
  "found_inst C f bb i = (case get_instruction f bb i (Some (fc_module C)) of Some (Some I) \<Rightarrow> Some I | _ \<Rightarrow> None)"

fun consume :: "flow_config \<Rightarrow> 'm flow_message \<Rightarrow> 'm flow \<Rightarrow> 'm flow option" where
  "consume C (BASICBLOCK_NOTIFICATION f bb t) s =
    (case found_block C f bb of None \<Rightarrow> None
     | Some p \<Rightarrow> map_option (\<lambda>s. iter_instructions C p 0 (enter_block C p s)) (first_message t 0 s))"
| "consume C (MEM_ADDR_NOTIFICATION f bb i a) s =
    (case (found_block C f bb, found_inst C f bb i, tab_get (fl_thread s) (fl_saved s)) of
       (Some p, Some I, Some _) \<Rightarrow> Some (continue_after C p (nat i) (process_wanted C p I (act (SetMemory I a) s)))
     | _ \<Rightarrow> None)"
| "consume C (MPI_UPDATE_PROCESS_ID pid) s =
    map_option (act (UpdateProcessId pid)) (first_message pid pid (s\<lparr>fl_mpi_processor_id := pid, fl_thread := pid\<rparr>))"
| "consume C (MPI_CALL_NOTIFICATION f bb i m) s =
    (case (found_block C f bb, found_inst C f bb i, tab_get (fl_thread s) (fl_saved s)) of
       (Some p, Some I, Some _) \<Rightarrow>
         Some (continue_after C p (nat i)
           (let s = (if fc_mpi_map C then act (ProcessMap (Some I) (Some m) 1 (fl_inFunction s)) s else s)
            in if fc_mpi_data C then act (ProcessData I m) s else s))
     | _ \<Rightarrow> None)"
| "consume C (FUNC_ADDRESS f a) s = Some (act (SetFunction a f) s)"
| "consume C END_APP_NOTIFICATION s =
    map_option (\<lambda>t. s\<lparr>fl_should_stop := t\<rparr>) (tab_put (fl_thread s) True (fl_should_stop s))"

fun queue_consumer :: "flow_config \<Rightarrow> 'm flow_message list \<Rightarrow> 'm flow \<Rightarrow> 'm flow option" where
  "queue_consumer C [] s = Some s"
| "queue_consumer C (m # ms) s =
    (if fl_exited s then Some s
     else case tab_get (fl_thread s) (fl_should_stop s) of
       None \<Rightarrow> None
     | Some True \<Rightarrow> Some s
     | Some False \<Rightarrow> (case consume C m s of None \<Rightarrow> None | Some s \<Rightarrow> queue_consumer C ms s))"

declare queue_consumer.simps(2) [simp del]

text \<open>A new connection.\<close>

definition new_connection :: "int \<Rightarrow> nat \<Rightarrow> bool list \<Rightarrow> 'm flow" where
  "new_connection t threads stops = \<lparr>fl_thread = t, fl_inFunction = 0, fl_mpi_processor_id = 0,
     fl_initialized = replicate threads False, fl_saved = replicate threads [], fl_should_stop = stops,
     fl_exited = False, fl_actions = []\<rparr>"

end
