(* ===== verification/Server_End.thy ===== *)
theory Server_End
  imports Server_Flow
begin

text \<open>
  \<open>library/safe_queue.cc\<close> and the threads of \<open>library/server.cc\<close>: the main thread accepts connections and
  puts the messages it receives into the queue of their connection, one consumer for each connection
  takes them out, and at the end the consumers take turns on \<open>toDump\<close>; the last one writes the results.
  A step is the code between two accesses to what the threads share.
\<close>

subsection \<open>The queue\<close>

definition push_back :: "'a \<Rightarrow> 'a list \<Rightarrow> 'a list" where
  "push_back msg data = data @ [msg]"

definition queue_size :: "'a list \<Rightarrow> u64" where
  "queue_size data = of_nat (length data)"

text \<open>Under the lock: \<open>None\<close> is the zeroed message of an empty queue.\<close>

definition pop_front :: "'a list \<Rightarrow> 'a option \<times> 'a list" where
  "pop_front data = (if length data > 0 then (Some (hd data), tl data) else (None, data))"

subsection \<open>Reading a message from a socket\<close>

text \<open>\<open>reads\<close> are the results of \<open>read\<close>: the bytes of a chunk, \<open>None\<close> for an error, the empty list at
  the end of the connection; the result has the count, the buffer and the reads to come.  An assertion that fails is \<open>None\<close>.\<close>

fun read_rest :: "'b list option list \<Rightarrow> nat \<Rightarrow> 'b list \<Rightarrow> (int \<times> 'b list \<times> 'b list option list) option" where
  "read_rest reads n buf =
    (if length buf < n
     then (case reads of
         Some (b # bs) # reads \<Rightarrow> read_rest reads n (buf @ b # bs)
       | _ \<Rightarrow> None)
     else if length buf = n then Some (int (length buf), buf, reads) else None)"

declare read_rest.simps [simp del]

definition safeRead :: "'b list option list \<Rightarrow> nat \<Rightarrow> (int \<times> 'b list \<times> 'b list option list) option" where
  "safeRead reads n = (case reads of
     [] \<Rightarrow> None
   | None # reads \<Rightarrow> Some (-1, [], reads)
   | Some [] # reads \<Rightarrow> Some (0, [], reads)
   | Some (b # bs) # reads \<Rightarrow> read_rest reads n (b # bs))"

subsection \<open>The state of the server\<close>

text \<open>Where a consumer is: before the test of \<open>should_stop\<close>, in \<open>pop_front\<close> before the test of the size and
  before the lock, ended by \<open>pthread_exit\<close>, waiting for its turn, after \<open>toDump++\<close>, before \<open>exit\<close>.\<close>

datatype consumer_pc = At_Test | At_Size | At_Lock | Ended | At_Turn | At_Dump | At_Exit

record 'm connection =
  cn_jobs :: "'m flow_message list"
  cn_flow :: "'m flow"
  cn_pc :: consumer_pc

record 'm server =
  sv_threads_data :: "'m connection list"
  sv_thread_counter :: int
  sv_total_num :: int
  sv_should_stop :: "bool list"
  sv_InitializedThreads :: "bool list"
  sv_SavedStates :: "(block_pos \<times> nat) list list"
  sv_toDump :: int
  sv_dumps :: nat
  sv_exited :: bool

text \<open>\<open>main\<close> before its loop; \<open>n\<close> is \<open>max_expected_threads\<close>.\<close>

definition boot :: "nat \<Rightarrow> 'm server" where
  "boot n = \<lparr>sv_threads_data = [], sv_thread_counter = 0, sv_total_num = 0, sv_should_stop = [],
     sv_InitializedThreads = replicate n False, sv_SavedStates = replicate n [], sv_toDump = 0, sv_dumps = 0,
     sv_exited = False\<rparr>"

definition checkStoppingCondition :: "'m server \<Rightarrow> bool" where
  "checkStoppingCondition s =
    (if sv_thread_counter s \<le> 0 then False
     else if sv_total_num s = 0 then True
     else list_all (\<lambda>i. sv_should_stop s ! i) [0..<nat (sv_thread_counter s)])"

subsection \<open>The steps of the main thread\<close>

definition accept_new_connections :: "'m server \<Rightarrow> 'm server" where
  "accept_new_connections s =
    s\<lparr>sv_threads_data := sv_threads_data s @
        [\<lparr>cn_jobs = [], cn_flow = new_connection (sv_thread_counter s) 0 [], cn_pc = At_Test\<rparr>],
      sv_thread_counter := sv_thread_counter s + 1, sv_total_num := sv_total_num s + 1,
      sv_should_stop := sv_should_stop s @ [False]\<rparr>"

definition put_connection :: "nat \<Rightarrow> 'm connection \<Rightarrow> 'm server \<Rightarrow> 'm server" where
  "put_connection i c s = s\<lparr>sv_threads_data := (sv_threads_data s)[i := c]\<rparr>"

text \<open>The message of \<open>safeRead\<close> with its count; after an error the message is indeterminate.\<close>

definition recv_msg :: "nat \<Rightarrow> int \<Rightarrow> 'm flow_message \<Rightarrow> 'm server \<Rightarrow> 'm server option" where
  "recv_msg i count msg s =
    (if count = 0 then Some s
     else if count < 0 then None
     else let c = sv_threads_data s ! i in Some (put_connection i (c\<lparr>cn_jobs := push_back msg (cn_jobs c)\<rparr>) s))"

subsection \<open>The steps of a consumer\<close>

text \<open>The flow of a connection works on the shared tables.\<close>

definition with_tables :: "'m server \<Rightarrow> 'm flow \<Rightarrow> 'm flow" where
  "with_tables s f = f\<lparr>fl_initialized := sv_InitializedThreads s, fl_saved := sv_SavedStates s,
     fl_should_stop := sv_should_stop s\<rparr>"

definition put_tables :: "'m flow \<Rightarrow> 'm server \<Rightarrow> 'm server" where
  "put_tables f s = s\<lparr>sv_InitializedThreads := fl_initialized f, sv_SavedStates := fl_saved f,
     sv_should_stop := fl_should_stop f\<rparr>"

text \<open>The body of the loop; the zeroed message has no case.\<close>

definition consume_msg :: "flow_config \<Rightarrow> nat \<Rightarrow> 'm connection \<Rightarrow> 'm server \<Rightarrow> 'm server option" where
  "consume_msg C i c s = (case pop_front (cn_jobs c) of
     (None, jobs) \<Rightarrow> Some (put_connection i (c\<lparr>cn_jobs := jobs, cn_pc := At_Test\<rparr>) s)
   | (Some msg, jobs) \<Rightarrow> (case consume C msg (with_tables s (cn_flow c)) of
       None \<Rightarrow> None
     | Some f \<Rightarrow> Some (put_tables f
         (put_connection i \<lparr>cn_jobs = jobs, cn_flow = f, cn_pc = (if fl_exited f then Ended else At_Test)\<rparr> s))))"

text \<open>A step of consumer \<open>i\<close>; a consumer that spins stays where it is, \<open>None\<close> is undefined behaviour.\<close>

definition consumer_step :: "flow_config \<Rightarrow> nat \<Rightarrow> 'm server \<Rightarrow> 'm server option" where
  "consumer_step C i s =
    (let c = sv_threads_data s ! i; goto = (\<lambda>pc s. put_connection i (c\<lparr>cn_pc := pc\<rparr>) s) in
     case cn_pc c of
       At_Test \<Rightarrow> map_option (\<lambda>stop. goto (if stop then At_Turn else At_Size) s)
         (tab_get (fl_thread (cn_flow c)) (sv_should_stop s))
     | At_Size \<Rightarrow> Some (if queue_size (cn_jobs c) = 0 then s else goto At_Lock s)
     | At_Lock \<Rightarrow> consume_msg C i c s
     | Ended \<Rightarrow> Some s
     | At_Turn \<Rightarrow> Some (if sv_toDump s \<noteq> fl_thread (cn_flow c) then s
         else goto At_Dump (s\<lparr>sv_toDump := sv_toDump s + 1\<rparr>))
     | At_Dump \<Rightarrow> Some (goto At_Exit
         (if sv_toDump s = sv_thread_counter s then s\<lparr>sv_dumps := sv_dumps s + 1\<rparr> else s))
     | At_Exit \<Rightarrow> Some (s\<lparr>sv_exited := True\<rparr>))"

text \<open>Who moves next.  After \<open>exit\<close> nothing moves.\<close>

datatype 'm sched = Idle | Accept | Receive nat "'m flow_message" | Consumer nat

definition sched_step :: "flow_config \<Rightarrow> 'm sched \<Rightarrow> 'm server \<Rightarrow> 'm server option" where
  "sched_step C l s =
    (if sv_exited s then Some s
     else case l of
       Idle \<Rightarrow> Some s
     | Accept \<Rightarrow> Some (accept_new_connections s)
     | Receive i m \<Rightarrow> if i < length (sv_threads_data s) then recv_msg i 1 m s else Some s
     | Consumer i \<Rightarrow> if i < length (sv_threads_data s) then consumer_step C i s else Some s)"

fun run_sched :: "flow_config \<Rightarrow> 'm sched list \<Rightarrow> 'm server \<Rightarrow> 'm server option" where
  "run_sched C [] s = Some s"
| "run_sched C (l # ls) s = (case sched_step C l s of None \<Rightarrow> None | Some s \<Rightarrow> run_sched C ls s)"

inductive server_reach :: "flow_config \<Rightarrow> nat \<Rightarrow> 'm server \<Rightarrow> bool" for C n where
  reach_boot: "server_reach C n (boot n)"
| reach_step: "server_reach C n s \<Longrightarrow> sched_step C l s = Some s' \<Longrightarrow> server_reach C n s'"

end
