(* ===== verification/Server_End_Inv.thy ===== *)
theory Server_End_Inv
  imports Server_End
begin

text \<open>
  What the threads of the server keep invariant: a consumer never pops an empty queue, and the results
  are written only when every connection has stopped.
\<close>

subsection \<open>What the flow of a connection changes\<close>

lemma put_saved_sel [simp]: "fl_should_stop (put_saved st s) = fl_should_stop s"
  by (simp add: put_saved_def split: option.split)

lemma process_wanted_sel [simp]: "fl_should_stop (process_wanted C p I s) = fl_should_stop s"
  "fl_thread (process_wanted C p I s) = fl_thread s"
  by (simp_all add: process_wanted_def process_instr_def Let_def)

lemma push_state_sel [simp]: "fl_should_stop (push_state C p i s) = fl_should_stop s"
  "fl_thread (push_state C p i s) = fl_thread s"
  by (simp_all add: push_state_def Let_def)

lemma pop_state_sel [simp]: "fl_should_stop (pop_state C r s) = fl_should_stop s"
  "fl_thread (pop_state C r s) = fl_thread s"
  by (simp_all add: pop_state_def Let_def case_prod_unfold)

lemma iter_block_sel:
  "fl_should_stop (fst (iter_block C p i Is lp s)) = fl_should_stop s
    \<and> fl_thread (fst (iter_block C p i Is lp s)) = fl_thread s"
  by (induction C p i Is lp s rule: iter_block.induct) (simp_all add: Let_def)

lemma iter_instructions_sel [simp]:
  "fl_should_stop (iter_instructions C p i s) = fl_should_stop s \<and> fl_thread (iter_instructions C p i s) = fl_thread s"
proof (induction C p i s rule: iter_instructions.induct)
  case (1 C p i s)
  note sel = iter_block_sel[of C p i "drop i (block_insts (fc_module C) p)" None s]
  show ?case
  proof (cases "iter_block C p i (drop i (block_insts (fc_module C) p)) None s")
    case (Pair u r)
    then show ?thesis using 1 sel
      by (subst (1 2) iter_instructions.simps) (simp split: option.split add: Let_def)
  qed
qed

lemma first_message_sel:
  "first_message t p s = Some s' \<Longrightarrow> fl_should_stop s' = fl_should_stop s \<and> fl_thread s' = fl_thread s"
  by (auto simp: first_message_def split: option.splits bool.splits)

lemma enter_block_sel [simp]: "fl_should_stop (enter_block C p s) = fl_should_stop s"
  by (simp add: enter_block_def)

lemma continue_after_sel [simp]: "fl_should_stop (continue_after C p i s) = fl_should_stop s"
  by (simp add: continue_after_def)

text \<open>A message only ever sets an entry of \<open>should_stop\<close>.\<close>

lemma consume_should_stop:
  "consume C m s = Some s' \<Longrightarrow> length (fl_should_stop s') = length (fl_should_stop s)
    \<and> (\<forall>j < length (fl_should_stop s). fl_should_stop s ! j \<longrightarrow> fl_should_stop s' ! j)"
  by (cases m) (auto simp: Let_def tab_put_def nth_list_update dest!: first_message_sel
      split: option.splits if_splits)

subsection \<open>A consumer never pops an empty queue\<close>

lemma reach_induct [consumes 1, case_names boot step]:
  assumes "server_reach C n s" "P (boot n)"
    and "\<And>s l s'. P s \<Longrightarrow> \<not> sv_exited s \<Longrightarrow> sched_step C l s = Some s' \<Longrightarrow> P s'"
  shows "P s"
  using assms(1)
proof induction
  case (reach_step s l s')
  then show ?case using assms(3) by (cases "sv_exited s") (auto simp: sched_step_def)
qed (rule assms(2))

text \<open>What holds of a connection, given \<open>should_stop\<close>, and of the server.\<close>

definition conn_ok :: "bool list \<Rightarrow> 'm connection \<Rightarrow> bool" where
  "conn_ok stops c \<longleftrightarrow> (cn_pc c = At_Turn \<longrightarrow> tab_get (fl_thread (cn_flow c)) stops = Some True)
     \<and> (cn_pc c = At_Lock \<longrightarrow> cn_jobs c \<noteq> [])"

definition server_ok :: "'m server \<Rightarrow> bool" where
  "server_ok s \<longleftrightarrow> sv_thread_counter s = int (length (sv_threads_data s))
     \<and> sv_total_num s = sv_thread_counter s \<and> length (sv_should_stop s) = length (sv_threads_data s)
     \<and> 0 \<le> sv_toDump s \<and> sv_toDump s \<le> sv_thread_counter s
     \<and> (\<forall>j < nat (sv_toDump s). sv_should_stop s ! j)
     \<and> (\<forall>c \<in> set (sv_threads_data s). conn_ok (sv_should_stop s) c)"

lemma put_connection_sel [simp]: "sv_thread_counter (put_connection i c s) = sv_thread_counter s"
  "sv_total_num (put_connection i c s) = sv_total_num s" "sv_should_stop (put_connection i c s) = sv_should_stop s"
  "sv_toDump (put_connection i c s) = sv_toDump s" "sv_dumps (put_connection i c s) = sv_dumps s"
  "sv_exited (put_connection i c s) = sv_exited s"
  "sv_threads_data (put_connection i c s) = (sv_threads_data s)[i := c]"
  by (simp_all add: put_connection_def)

lemma server_ok_put: "server_ok s \<Longrightarrow> conn_ok (sv_should_stop s) c \<Longrightarrow> server_ok (put_connection i c s)"
  by (auto simp: server_ok_def dest: set_update_subset_insert[THEN subsetD])

lemma conn_ok_mono:
  assumes "conn_ok stops c" "length stops \<le> length stops'" "\<forall>j < length stops. stops ! j \<longrightarrow> stops' ! j"
  shows "conn_ok stops' c"
  using assms by (auto simp: conn_ok_def tab_get_def split: if_splits)

lemma server_ok_stops:
  assumes "server_ok s" "length stops = length (sv_should_stop s)"
    "\<forall>j < length (sv_should_stop s). sv_should_stop s ! j \<longrightarrow> stops ! j"
  shows "server_ok (s\<lparr>sv_InitializedThreads := ini, sv_SavedStates := sav, sv_should_stop := stops\<rparr>)"
  using assms conn_ok_mono[of "sv_should_stop s" _ stops] by (auto simp: server_ok_def)

lemma server_ok_consumer:
  assumes ok: "server_ok s" and i: "i < length (sv_threads_data s)" and st: "consumer_step C i s = Some s'"
  shows "server_ok s'"
proof -
  define c where "c = sv_threads_data s ! i"
  have c: "conn_ok (sv_should_stop s) c" using ok i by (simp add: server_ok_def c_def)
  show ?thesis
  proof (cases "cn_pc c")
    case At_Test
    then obtain stop where "tab_get (fl_thread (cn_flow c)) (sv_should_stop s) = Some stop"
      "s' = put_connection i (c\<lparr>cn_pc := if stop then At_Turn else At_Size\<rparr>) s"
      using st by (auto simp: consumer_step_def Let_def simp flip: c_def)
    then show ?thesis using server_ok_put[OF ok] by (simp add: conn_ok_def)
  next
    case At_Size
    then have "s' = (if queue_size (cn_jobs c) = 0 then s else put_connection i (c\<lparr>cn_pc := At_Lock\<rparr>) s)"
      using st by (simp add: consumer_step_def Let_def flip: c_def)
    moreover have "conn_ok (sv_should_stop s) (c\<lparr>cn_pc := At_Lock\<rparr>)" if "queue_size (cn_jobs c) \<noteq> 0"
      using that by (cases "cn_jobs c") (simp_all add: conn_ok_def queue_size_def)
    ultimately show ?thesis using server_ok_put[OF ok] ok by presburger
  next
    case At_Lock
    then have q: "cn_jobs c \<noteq> []" using c by (simp add: conn_ok_def)
    obtain f where f: "consume C (hd (cn_jobs c)) (with_tables s (cn_flow c)) = Some f"
      "s' = put_tables f (put_connection i \<lparr>cn_jobs = tl (cn_jobs c), cn_flow = f,
         cn_pc = (if fl_exited f then Ended else At_Test)\<rparr> s)"
      using st q At_Lock by (auto simp: consumer_step_def Let_def consume_msg_def pop_front_def c_def split: option.splits)
    have "server_ok (put_connection i \<lparr>cn_jobs = tl (cn_jobs c), cn_flow = f,
         cn_pc = (if fl_exited f then Ended else At_Test)\<rparr> s)" (is "server_ok ?t")
      using server_ok_put[OF ok] by (simp add: conn_ok_def)
    then show ?thesis using server_ok_stops[of ?t] consume_should_stop[OF f(1)] f(2)
      by (simp add: put_tables_def with_tables_def)
  next
    case At_Turn
    have t: "tab_get (fl_thread (cn_flow c)) (sv_should_stop s) = Some True" using c At_Turn by (simp add: conn_ok_def)
    show ?thesis
    proof (cases "sv_toDump s = fl_thread (cn_flow c)")
      case True
      then have s': "s' = put_connection i (c\<lparr>cn_pc := At_Dump\<rparr>) (s\<lparr>sv_toDump := sv_toDump s + 1\<rparr>)"
        using st At_Turn by (simp add: consumer_step_def Let_def flip: c_def)
      have "server_ok (s\<lparr>sv_toDump := sv_toDump s + 1\<rparr>)"
        using ok t True by (auto simp: server_ok_def tab_get_def nat_add_distrib less_Suc_eq split: if_splits)
      then show ?thesis unfolding s' by (rule server_ok_put) (simp add: conn_ok_def)
    next
      case False
      then show ?thesis using st ok At_Turn by (simp add: consumer_step_def Let_def flip: c_def)
    qed
  next
    case At_Dump
    have "server_ok (s\<lparr>sv_dumps := k\<rparr>)" for k using ok by (simp add: server_ok_def)
    then show ?thesis using st At_Dump ok
      by (auto simp: consumer_step_def Let_def conn_ok_def intro!: server_ok_put simp flip: c_def)
  next
    case At_Exit
    then show ?thesis using st ok by (auto simp: consumer_step_def Let_def server_ok_def simp flip: c_def)
  next
    case Ended
    then show ?thesis using st ok by (simp add: consumer_step_def Let_def flip: c_def)
  qed
qed

lemma server_ok_accept:
  assumes ok: "server_ok s"
  shows "server_ok (accept_new_connections s)"
proof -
  have "conn_ok (sv_should_stop s @ [False]) c" if "c \<in> set (sv_threads_data s)" for c
    using ok that conn_ok_mono[of "sv_should_stop s" c "sv_should_stop s @ [False]"]
    by (auto simp: server_ok_def nth_append)
  then show ?thesis using ok
    by (auto simp: server_ok_def accept_new_connections_def nth_append conn_ok_def)
qed

lemma server_ok_receive:
  assumes ok: "server_ok s" and i: "i < length (sv_threads_data s)" and r: "recv_msg i count m s = Some s'"
  shows "server_ok s'"
proof (cases "count = 0")
  case False
  define c where "c = sv_threads_data s ! i"
  have c: "conn_ok (sv_should_stop s) c" using ok i by (simp add: server_ok_def c_def)
  have "s' = put_connection i (c\<lparr>cn_jobs := push_back m (cn_jobs c)\<rparr>) s"
    using r False by (simp add: recv_msg_def Let_def c_def split: if_splits)
  then show ?thesis using c by (auto simp: conn_ok_def push_back_def intro!: server_ok_put[OF ok])
qed (use assms in \<open>simp add: recv_msg_def\<close>)

lemma reach_ok: "server_reach C n s \<Longrightarrow> server_ok s"
proof (induction rule: reach_induct)
  case boot
  then show ?case by (simp add: server_ok_def boot_def)
next
  case (step s l s')
  then show ?case using server_ok_accept[OF step(1)] server_ok_receive[OF step(1)] server_ok_consumer[OF step(1)]
    by (cases l) (auto simp: sched_step_def split: if_splits)
qed

text \<open>C22: under any schedule of the threads of the server, \<open>pop_front\<close> finds a message under its lock: a
  consumer that has left the loop on \<open>size() == 0\<close> never gets the zeroed message, since it is the only
  one that takes messages from its queue.\<close>

theorem pop_never_empty:
  assumes "server_reach C n s" and "i < length (sv_threads_data s)" and "cn_pc (sv_threads_data s ! i) = At_Lock"
  shows "\<exists>m. pop_front (cn_jobs (sv_threads_data s ! i)) = (Some m, tl (cn_jobs (sv_threads_data s ! i)))
    \<and> cn_jobs (sv_threads_data s ! i) = m # tl (cn_jobs (sv_threads_data s ! i))"
proof -
  have "conn_ok (sv_should_stop s) (sv_threads_data s ! i)"
    using reach_ok[OF assms(1)] assms(2) by (simp add: server_ok_def)
  then show ?thesis using assms(3) by (cases "cn_jobs (sv_threads_data s ! i)") (simp_all add: conn_ok_def pop_front_def)
qed


subsection \<open>A message in pieces\<close>

text \<open>\<open>safeRead\<close> puts together what the socket delivers in pieces.\<close>

lemma read_rest_whole:
  "\<forall>b \<in> set bs. b \<noteq> [] \<Longrightarrow> length buf + length (concat bs) = n
    \<Longrightarrow> read_rest (map Some bs @ reads) n buf = Some (int n, buf @ concat bs, reads)"
proof (induction bs arbitrary: buf)
  case Nil
  then show ?case by (simp add: read_rest.simps)
next
  case (Cons b bs)
  obtain x ys where b: "b = x # ys" using Cons.prems(1) by (cases b) auto
  then show ?case using Cons.IH[of "buf @ b"] Cons.prems by (subst read_rest.simps) simp
qed

lemma safeRead_whole:
  assumes "bs \<noteq> []" "\<forall>b \<in> set bs. b \<noteq> []" "length (concat bs) = n"
  shows "safeRead (map Some bs @ reads) n = Some (int n, concat bs, reads)"
proof -
  obtain x ys cs where bs: "bs = (x # ys) # cs" using assms(1,2) by (metis list.exhaust list.set_intros(1))
  then show ?thesis using read_rest_whole[of cs "x # ys" n] assms by (simp add: safeRead_def)
qed

end
