(* ===== verification/Server_Replay.thy ===== *)
theory Server_Replay
  imports Server_Flow
begin

text \<open>
  The specification of the reconstruction: the runs of an instrumented program with the messages
  that it sends, and the proof that the consumer replays them.
\<close>

subsection \<open>Runs of an instrumented program\<close>

text \<open>The functions whose instructions are analysed; \<open>fs\<close> is the call stack, the current function first.\<close>

definition wanted :: "flow_config \<Rightarrow> nat list \<Rightarrow> bool" where
  "wanted C fs \<longleftrightarrow>
    (IncludeFunctions C = [] \<or> (\<exists>f \<in> set fs. f_name (fc_module C ! f) \<in> set (IncludeFunctions C)))
    \<and> (\<forall>f \<in> set fs. f_name (fc_module C ! f) \<notin> set (ExcludedFunctions C))"

definition analysed :: "flow_config \<Rightarrow> nat list \<Rightarrow> instr \<Rightarrow> 'm flow_action list" where
  "analysed C fs I = (if wanted C fs then [Analyze I] else [])"

definition valid_block :: "flow_config \<Rightarrow> block_pos \<Rightarrow> bool" where
  "valid_block C p \<longleftrightarrow> fst p < length (fc_module C) \<and> snd p < length (f_blocks (fc_module C ! fst p))"

text \<open>\<open>block_run C tid fs p i ms xs\<close>: the execution of block \<open>p\<close> from its instruction \<open>i\<close> to its end, called
  from the functions \<open>fs\<close>, sends the messages \<open>ms\<close> (\<open>inst_notification\<close> at the start of a block,
  \<open>update_vars\<close> after a load or store) and should cause the actions \<open>xs\<close>.  \<open>func_run\<close> is the execution
  of a function from the start of block \<open>p\<close> up to its return instruction.\<close>

inductive block_run :: "flow_config \<Rightarrow> int \<Rightarrow> nat list \<Rightarrow> block_pos \<Rightarrow> nat \<Rightarrow> 'm flow_message list
      \<Rightarrow> 'm flow_action list \<Rightarrow> bool"
  and func_run :: "flow_config \<Rightarrow> int \<Rightarrow> nat list \<Rightarrow> block_pos \<Rightarrow> 'm flow_message list
      \<Rightarrow> 'm flow_action list \<Rightarrow> instr \<Rightarrow> bool"
  for C :: flow_config and tid :: int where
  block_end: "i = length (block_insts (fc_module C) p) \<Longrightarrow> block_run C tid fs p i [] []"
| block_debug: "i < length (block_insts (fc_module C) p) \<Longrightarrow> is_debug_call C (block_insts (fc_module C) p ! i)
    \<Longrightarrow> block_run C tid fs p (Suc i) ms xs \<Longrightarrow> block_run C tid fs p i ms xs"
| block_memory: "i < length (block_insts (fc_module C) p) \<Longrightarrow> I = block_insts (fc_module C) p ! i
    \<Longrightarrow> is_memory I \<Longrightarrow> block_run C tid fs p (Suc i) ms xs
    \<Longrightarrow> block_run C tid fs p i (MEM_ADDR_NOTIFICATION (int (fst p)) (int (snd p)) (int i) a # ms)
          (SetMemory I a # analysed C (fst p # fs) I @ xs)"
| block_call: "i < length (block_insts (fc_module C) p) \<Longrightarrow> I = block_insts (fc_module C) p ! i
    \<Longrightarrow> i_opcode I = Op_Call \<Longrightarrow> get_calledFunction I = Some g \<Longrightarrow> \<not> is_external (fc_module C ! g)
    \<Longrightarrow> \<not> is_debug_call C I \<Longrightarrow> \<not> is_exit_call C I
    \<Longrightarrow> func_run C tid (fst p # fs) (g, 0) ms xs r \<Longrightarrow> block_run C tid fs p (Suc i) ms' xs'
    \<Longrightarrow> block_run C tid fs p i (ms @ ms') (analysed C (fst p # fs) I @ xs @ Returned r I # xs')"
| block_other: "i < length (block_insts (fc_module C) p) \<Longrightarrow> I = block_insts (fc_module C) p ! i
    \<Longrightarrow> \<not> is_debug_call C I \<Longrightarrow> \<not> is_memory I \<Longrightarrow> \<not> is_internal_call C I \<Longrightarrow> \<not> is_exit_call C I
    \<Longrightarrow> block_run C tid fs p (Suc i) ms xs
    \<Longrightarrow> block_run C tid fs p i ms (analysed C (fst p # fs) I @ xs)"
| func_ret: "valid_block C p \<Longrightarrow> block_run C tid fs p 0 ms xs
    \<Longrightarrow> r = last (block_insts (fc_module C) p) \<Longrightarrow> i_opcode r = Op_Ret
    \<Longrightarrow> func_run C tid fs p (BASICBLOCK_NOTIFICATION (int (fst p)) (int (snd p)) tid # ms) xs r"
| func_branch: "valid_block C p \<Longrightarrow> block_run C tid fs p 0 ms xs
    \<Longrightarrow> i_opcode (last (block_insts (fc_module C) p)) \<in> {Op_Br, Op_Switch, Op_IndirectBr}
    \<Longrightarrow> func_run C tid fs (fst p, bb) ms' xs' r
    \<Longrightarrow> func_run C tid fs p (BASICBLOCK_NOTIFICATION (int (fst p)) (int (snd p)) tid # ms @ ms') (xs @ xs') r"

text \<open>What LLVM guarantees of a module: the functions have names, and a block ends in a terminator.\<close>

definition is_terminator :: "instr \<Rightarrow> bool" where
  "is_terminator I \<longleftrightarrow> i_opcode I \<in> {Op_Ret, Op_Br, Op_Switch, Op_IndirectBr, Op_Invoke, Op_Resume, Op_Unreachable}"

definition llvm_module :: "ir_module \<Rightarrow> bool" where
  "llvm_module M \<longleftrightarrow> (\<forall>F \<in> set M. f_name F \<noteq> [] \<and> (\<forall>B \<in> set (f_blocks F). b_insts B \<noteq> [] \<and> is_terminator (last (b_insts B))))"

lemma block_insts_ok:
  "llvm_module (fc_module C) \<Longrightarrow> valid_block C p
    \<Longrightarrow> block_insts (fc_module C) p \<noteq> [] \<and> is_terminator (last (block_insts (fc_module C) p))"
  unfolding llvm_module_def valid_block_def block_insts_def by (meson nth_mem)

lemma not_last:
  assumes "llvm_module (fc_module C)" "valid_block C p" "i < length (block_insts (fc_module C) p)"
    "\<not> is_terminator (block_insts (fc_module C) p ! i)"
  shows "Suc i < length (block_insts (fc_module C) p)"
proof (rule ccontr)
  assume "\<not> ?thesis"
  then have "i = length (block_insts (fc_module C) p) - 1" using assms(3) by simp
  then have "last (block_insts (fc_module C) p) = block_insts (fc_module C) p ! i"
    using block_insts_ok[OF assms(1,2)] by (simp add: last_conv_nth)
  then show False using assms(4) block_insts_ok[OF assms(1,2)] by simp
qed

lemma calls_not_terminator: "is_debug_call C I \<Longrightarrow> \<not> is_terminator I" "is_memory I \<Longrightarrow> \<not> is_terminator I"
  "i_opcode I = Op_Call \<Longrightarrow> \<not> is_terminator I"
  by (auto simp: is_debug_call_def callee_of_def is_memory_def is_terminator_def split: if_splits)

subsection \<open>The state of the consumer during a run\<close>

definition did :: "'m flow_action list \<Rightarrow> 'm flow \<Rightarrow> 'm flow" where
  "did xs s = s\<lparr>fl_actions := fl_actions s @ map (Pair (fl_thread s)) xs\<rparr>"

definition live :: "flow_config \<Rightarrow> nat list \<Rightarrow> 'm flow \<Rightarrow> bool" where
  "live C fs s \<longleftrightarrow> \<not> fl_exited s \<and> fl_inFunction s = 0
     \<and> tab_get (fl_thread s) (fl_should_stop s) = Some False
     \<and> tab_get (fl_thread s) (fl_initialized s) = Some True
     \<and> tab_get (fl_thread s) (fl_saved s) = Some (saved_states s)
     \<and> set (map (fst \<circ> fst) (saved_states s)) = set fs
     \<and> (\<forall>f \<in> set fs. f < length (fc_module C))"

definition resume :: "flow_config \<Rightarrow> instr option \<Rightarrow> 'm flow \<Rightarrow> 'm flow" where
  "resume C lp s = (if returns lp s
     then iter_instructions C (fst (last (saved_states s))) (snd (last (saved_states s))) (pop_state C (the lp) s) else s)"

definition iter_from :: "flow_config \<Rightarrow> block_pos \<Rightarrow> nat \<Rightarrow> instr option \<Rightarrow> 'm flow \<Rightarrow> 'm flow" where
  "iter_from C p i lp s = (case iter_block C p i (drop i (block_insts (fc_module C) p)) lp s of
     (s, None) \<Rightarrow> s | (s, Some l) \<Rightarrow> resume C l s)"

lemma iter_instructions_from: "iter_instructions C p i s = iter_from C p i None s"
  by (subst iter_instructions.simps) (simp add: iter_from_def resume_def Let_def split: prod.split option.split)

lemma did_simps [simp]: "did [] s = s" "did ys (did xs s) = did (xs @ ys) s"
  "fl_thread (did xs s) = fl_thread s" "saved_states (did xs s) = saved_states s"
  "fl_exited (did xs s) = fl_exited s" "fl_saved (did xs s) = fl_saved s"
  "fl_inFunction (did xs s) = fl_inFunction s" "fl_should_stop (did xs s) = fl_should_stop s"
  "fl_initialized (did xs s) = fl_initialized s"
  by (simp_all add: did_def saved_states_def)

lemma live_did [simp]: "live C fs (did xs s) = live C fs s"
  by (simp add: live_def)

lemma act_did: "act a s = did [a] s"
  by (simp add: act_def did_def)

lemma listed_function_iff:
  assumes "fst p < length M"
  shows "listed_function M names p \<longleftrightarrow> f_name (M ! fst p) \<in> set names"
proof -
  have "(case getFunction M n of None \<Rightarrow> False | Some F \<Rightarrow> check_if_bb_is_in_function M F p)
      \<longleftrightarrow> f_name (M ! fst p) = n" for n
  proof (cases "getFunction M n")
    case None
    then have "\<forall>F \<in> set M. f_name F \<noteq> n" by (auto simp: getFunction_def find_None_iff)
    then show ?thesis using None nth_mem[OF assms] by auto
  next
    case (Some F)
    then have "f_name F = n" by (auto simp: getFunction_def find_Some_iff)
    then show ?thesis using Some by (simp add: check_if_bb_is_in_function_def)
  qed
  then show ?thesis by (simp add: listed_function_def list_ex_iff)
qed

lemma wanted_iff:
  assumes "live C fs s" "fst p < length (fc_module C)"
  shows "check_if_bb_is_in_included_functions C p s \<and> \<not> check_if_bb_is_in_excluded_functions C p s
    \<longleftrightarrow> wanted C (fst p # fs)"
proof -
  have ex: "list_ex (\<lambda>(q, _). listed_function (fc_module C) names q) (saved_states s)
      \<longleftrightarrow> (\<exists>f \<in> set fs. f_name (fc_module C ! f) \<in> set names)" for names
  proof -
    have "list_ex (\<lambda>(q, _). listed_function (fc_module C) names q) (saved_states s)
      \<longleftrightarrow> (\<exists>x \<in> set (saved_states s). f_name (fc_module C ! fst (fst x)) \<in> set names)"
      unfolding list_ex_iff
    proof (intro bex_cong refl)
      fix x assume x: "x \<in> set (saved_states s)"
      have "fst (fst x) \<in> set fs" using assms(1) x by (force simp: live_def)
      then have "fst (fst x) < length (fc_module C)" using assms(1) by (simp add: live_def)
      then show "(case x of (q, _) \<Rightarrow> listed_function (fc_module C) names q)
          \<longleftrightarrow> f_name (fc_module C ! fst (fst x)) \<in> set names"
        by (simp add: case_prod_unfold listed_function_iff)
    qed
    moreover have "set fs = (\<lambda>x. fst (fst x)) ` set (saved_states s)" using assms(1) by (simp add: live_def)
    ultimately show ?thesis by simp
  qed
  show ?thesis using listed_function_iff[OF assms(2)]
    by (auto simp: check_if_bb_is_in_included_functions_def check_if_bb_is_in_excluded_functions_def ex wanted_def)
qed

lemma process_wanted_did:
  assumes "live C fs s" "fst p < length (fc_module C)" "\<not> is_exit_call C I"
  shows "process_wanted C p I s = did (analysed C (fst p # fs) I) s"
  using wanted_iff[OF assms(1,2)] assms(3)
  by (simp add: process_wanted_def process_instr_def Let_def analysed_def act_did)

subsection \<open>The simulation\<close>

lemma block_split:
  "i < length xs \<Longrightarrow> drop i xs = xs ! i # drop (Suc i) xs"
  by (simp add: Cons_nth_drop_Suc)

lemma iter_from_end:
  "i = length (block_insts (fc_module C) p) \<Longrightarrow> iter_from C p i lp s = resume C lp s"
  by (simp add: iter_from_def)

lemma iter_from_debug:
  "i < length (block_insts (fc_module C) p) \<Longrightarrow> is_debug_call C (block_insts (fc_module C) p ! i)
    \<Longrightarrow> iter_from C p i lp s = iter_from C p (Suc i) lp s"
  by (simp add: iter_from_def block_split)

lemma memory_not_debug: "is_memory I \<Longrightarrow> \<not> is_debug_call C I \<and> \<not> is_exit_call C I"
  by (auto simp: is_memory_def is_debug_call_def is_exit_call_def callee_of_def)

lemma iter_from_memory:
  "i < length (block_insts (fc_module C) p) \<Longrightarrow> is_memory (block_insts (fc_module C) p ! i)
    \<Longrightarrow> iter_from C p i lp s = s"
  by (simp add: iter_from_def block_split memory_not_debug)

lemma iter_from_other:
  assumes "i < length (block_insts (fc_module C) p)" "I = block_insts (fc_module C) p ! i"
    "\<not> is_debug_call C I" "\<not> is_memory I" "\<not> is_internal_call C I" "\<not> is_exit_call C I"
    "live C fs s" "fst p < length (fc_module C)" "\<not> fc_mpi_map C"
  shows "iter_from C p i lp s = iter_from C p (Suc i) (Some I) (did (analysed C (fst p # fs) I) s)"
  using assms process_wanted_did[OF assms(7,8,6)]
  by (simp add: iter_from_def block_split stops_for_mpi_def live_def)

lemma iter_from_call:
  assumes "i < length (block_insts (fc_module C) p)" "I = block_insts (fc_module C) p ! i"
    "\<not> is_debug_call C I" "\<not> is_memory I" "is_internal_call C I" "\<not> is_exit_call C I"
    "live C fs s" "fst p < length (fc_module C)"
  shows "iter_from C p i lp s = put_saved (saved_states s @ [(p, Suc i)]) (did (analysed C (fst p # fs) I) s)"
  using assms process_wanted_did[OF assms(7,8,6)]
  by (simp add: iter_from_def block_split push_state_def live_def)

lemma live_saved:
  assumes "live C fs s"
  shows "0 \<le> fl_thread s \<and> nat (fl_thread s) < length (fl_saved s) \<and> fl_saved s ! nat (fl_thread s) = saved_states s"
  using assms by (auto simp: live_def tab_get_def split: if_splits)

lemma live_push:
  assumes "live C fs s" "fst p < length (fc_module C)"
  shows "live C (fst p # fs) (put_saved (saved_states s @ [(p, i)]) s)
    \<and> saved_states (put_saved (saved_states s @ [(p, i)]) s) = saved_states s @ [(p, i)]"
proof -
  define u where "u = put_saved (saved_states s @ [(p, i)]) s"
  have u: "u = s\<lparr>fl_saved := (fl_saved s)[nat (fl_thread s) := saved_states s @ [(p, i)]]\<rparr>"
    using live_saved[OF assms(1)] by (simp add: u_def put_saved_def tab_put_def)
  have "tab_get (fl_thread u) (fl_saved u) = Some (saved_states s @ [(p, i)])"
    using live_saved[OF assms(1)] by (simp add: u tab_get_def)
  moreover from this have "saved_states u = saved_states s @ [(p, i)]" by (simp add: saved_states_def)
  ultimately have "live C (fst p # fs) u" using assms by (simp add: live_def) (simp add: u)
  with \<open>saved_states u = _\<close> show ?thesis by (simp add: u_def)
qed

lemma pop_push:
  assumes "live C fs s" and I: "I = block_insts (fc_module C) p ! i"
  shows "pop_state C r (did xs (put_saved (saved_states s @ [(p, Suc i)]) s)) = did (xs @ [Returned r I]) s"
proof -
  obtain k where k: "fl_thread s = k" "0 \<le> k" "nat k < length (fl_saved s)" "fl_saved s ! nat k = saved_states s"
    using assms(1) by (auto simp: live_def tab_get_def split: if_splits)
  define u where "u = put_saved (saved_states s @ [(p, Suc i)]) s"
  have u: "u = s\<lparr>fl_saved := (fl_saved s)[nat k := saved_states s @ [(p, Suc i)]]\<rparr>"
    using k by (simp add: u_def put_saved_def tab_put_def)
  have su: "saved_states u = saved_states s @ [(p, Suc i)]" using k by (simp add: u) (simp add: saved_states_def tab_get_def)
  have "put_saved (saved_states s) (did xs u) = did xs s"
    using k by (simp add: u put_saved_def tab_put_def did_def list_update_same_conv) 
  then show ?thesis using assms(1) I by (simp add: pop_state_def Let_def su flip: u_def) (simp add: act_did live_def)
qed

lemma found_block_eq: "valid_block C p \<Longrightarrow> found_block C (int (fst p)) (int (snd p)) = Some p"
  by (simp add: found_block_def valid_block_def get_basicblock_def get_function_def iter_find_nth)

lemma found_inst_eq:
  "valid_block C p \<Longrightarrow> i < length (block_insts (fc_module C) p)
    \<Longrightarrow> found_inst C (int (fst p)) (int (snd p)) (int i) = Some (block_insts (fc_module C) p ! i)"
  by (simp add: found_inst_def valid_block_def get_instruction_eq block_insts_def Let_def)

lemma consume_block:
  assumes "live C fs s" "valid_block C p" "\<not> fc_mpi_map C"
  shows "queue_consumer C (BASICBLOCK_NOTIFICATION (int (fst p)) (int (snd p)) tid # ms) s
    = queue_consumer C ms (iter_from C p 0 None s)"
  using assms by (simp add: live_def found_block_eq first_message_def enter_block_def iter_instructions_from queue_consumer.simps(2))

lemma consume_memory:
  assumes l: "live C fs s" "valid_block C p" and i: "i < length (block_insts (fc_module C) p)"
    and I: "I = block_insts (fc_module C) p ! i" "is_memory I" and M: "llvm_module (fc_module C)"
  shows "queue_consumer C (MEM_ADDR_NOTIFICATION (int (fst p)) (int (snd p)) (int i) a # ms) s
    = queue_consumer C ms (iter_from C p (Suc i) None (did (SetMemory I a # analysed C (fst p # fs) I) s))"
proof -
  have "Suc i < length (block_insts (fc_module C) p)"
    using not_last[OF M l(2) i] I calls_not_terminator(2) by blast
  moreover have "process_wanted C p I (act (SetMemory I a) s) = did (SetMemory I a # analysed C (fst p # fs) I) s"
    using process_wanted_did[of C fs "did [SetMemory I a] s" p I] l I(2) memory_not_debug[of I]
    by (simp add: act_did valid_block_def)
  ultimately show ?thesis using l found_block_eq[OF l(2)] found_inst_eq[OF l(2) i] I(1)
    by (simp add: live_def continue_after_def iter_instructions_from queue_consumer.simps(2))
qed

lemma resume_call:
  assumes "live C fs s" "fst p < length (fc_module C)" "i_opcode r = Op_Ret" "I = block_insts (fc_module C) p ! i"
  shows "resume C (Some r) (did xs (put_saved (saved_states s @ [(p, Suc i)]) s))
    = iter_from C p (Suc i) None (did (xs @ [Returned r I]) s)"
  using live_push[OF assms(1,2)] pop_push[OF assms(1,4), of r xs] assms(3)
  by (simp add: resume_def returns_def iter_instructions_from)

lemma internal_call_iff:
  "i_opcode I = Op_Call \<Longrightarrow> get_calledFunction I = Some g \<Longrightarrow> is_internal_call C I \<longleftrightarrow> \<not> is_external (fc_module C ! g)"
  by (simp add: is_internal_call_def callee_of_def)

text \<open>What the consumer makes of the messages of a block and of a function, whatever follows them.\<close>

definition block_replayed :: "flow_config \<Rightarrow> nat list \<Rightarrow> block_pos \<Rightarrow> nat \<Rightarrow> 'm flow_message list
    \<Rightarrow> 'm flow_action list \<Rightarrow> bool" where
  "block_replayed C fs p i ms xs \<longleftrightarrow> (\<forall>s lp rest. live C fs s \<longrightarrow> valid_block C p
      \<longrightarrow> i < length (block_insts (fc_module C) p)
          \<or> i = length (block_insts (fc_module C) p) \<and> lp = Some (last (block_insts (fc_module C) p))
      \<longrightarrow> queue_consumer C (ms @ rest) (iter_from C p i lp s)
          = queue_consumer C rest (resume C (Some (last (block_insts (fc_module C) p))) (did xs s)))"

definition func_replayed :: "flow_config \<Rightarrow> nat list \<Rightarrow> 'm flow_message list \<Rightarrow> 'm flow_action list \<Rightarrow> instr \<Rightarrow> bool" where
  "func_replayed C fs ms xs r \<longleftrightarrow> i_opcode r = Op_Ret \<and> (\<forall>s rest. live C fs s
      \<longrightarrow> queue_consumer C (ms @ rest) s = queue_consumer C rest (resume C (Some r) (did xs s)))"

lemma replayed_call:
  fixes ms ms' :: "'m flow_message list"
  assumes M: "llvm_module (fc_module C)"
    and i: "i < length (block_insts (fc_module C) p)" and I: "I = block_insts (fc_module C) p ! i"
    and call: "i_opcode I = Op_Call" "get_calledFunction I = Some g" "\<not> is_external (fc_module C ! g)"
    and no: "\<not> is_debug_call C I" "\<not> is_exit_call C I"
    and f: "func_replayed C (fst p # fs) ms xs r" and b: "block_replayed C fs p (Suc i) ms' xs'"
  shows "block_replayed C fs p i (ms @ ms') (analysed C (fst p # fs) I @ xs @ Returned r I # xs')"
  unfolding block_replayed_def
proof (intro allI impI)
  fix s :: "'m flow" and lp rest assume l: "live C fs s" and v: "valid_block C p"
  have p: "fst p < length (fc_module C)" using v by (simp add: valid_block_def)
  have n: "Suc i < length (block_insts (fc_module C) p)"
    using not_last[OF M v i] I call(1) calls_not_terminator(3) by blast
  have mem: "\<not> is_memory I" "is_internal_call C I" using call by (auto simp: is_memory_def internal_call_iff)
  define s1 where "s1 = did (analysed C (fst p # fs) I) s"
  have l1: "live C fs s1" using l by (simp add: s1_def)
  have "iter_from C p i lp s = put_saved (saved_states s1 @ [(p, Suc i)]) s1"
    using iter_from_call[OF i I no(1) mem no(2) l p] by (simp add: s1_def)
  then have "queue_consumer C ((ms @ ms') @ rest) (iter_from C p i lp s)
      = queue_consumer C (ms' @ rest) (resume C (Some r) (did xs (put_saved (saved_states s1 @ [(p, Suc i)]) s1)))"
    using f live_push[OF l1 p] by (simp add: func_replayed_def)
  also have "\<dots> = queue_consumer C (ms' @ rest) (iter_from C p (Suc i) None (did (xs @ [Returned r I]) s1))"
    using resume_call[OF l1 p _ I] f by (simp add: func_replayed_def)
  also have "\<dots> = queue_consumer C rest (resume C (Some (last (block_insts (fc_module C) p)))
      (did xs' (did (xs @ [Returned r I]) s1)))"
    using b l1 v n by (simp add: block_replayed_def)
  finally show "queue_consumer C ((ms @ ms') @ rest) (iter_from C p i lp s)
      = queue_consumer C rest (resume C (Some (last (block_insts (fc_module C) p)))
          (did (analysed C (fst p # fs) I @ xs @ Returned r I # xs') s))"
    by (simp add: s1_def)
qed

lemma replayed_other:
  fixes ms :: "'m flow_message list"
  assumes i: "i < length (block_insts (fc_module C) p)" and I: "I = block_insts (fc_module C) p ! i"
    and no: "\<not> is_debug_call C I" "\<not> is_memory I" "\<not> is_internal_call C I" "\<not> is_exit_call C I"
    and b: "block_replayed C fs p (Suc i) ms xs" and map: "\<not> fc_mpi_map C"
  shows "block_replayed C fs p i ms (analysed C (fst p # fs) I @ xs)"
  unfolding block_replayed_def
proof (intro allI impI)
  fix s :: "'m flow" and lp rest assume l: "live C fs s" and v: "valid_block C p"
  have p: "fst p < length (fc_module C)" using v by (simp add: valid_block_def)
  have "I = last (block_insts (fc_module C) p)" if "Suc i = length (block_insts (fc_module C) p)"
  proof -
    have "length (block_insts (fc_module C) p) - 1 = i" using that by simp
    moreover have "block_insts (fc_module C) p \<noteq> []" using i by auto
    ultimately show ?thesis using I by (simp add: last_conv_nth)
  qed
  then have "Suc i < length (block_insts (fc_module C) p)
      \<or> Suc i = length (block_insts (fc_module C) p) \<and> Some I = Some (last (block_insts (fc_module C) p))"
    using Suc_lessI[OF i] by blast
  then have "queue_consumer C (ms @ rest) (iter_from C p (Suc i) (Some I) (did (analysed C (fst p # fs) I) s))
      = queue_consumer C rest (resume C (Some (last (block_insts (fc_module C) p)))
          (did xs (did (analysed C (fst p # fs) I) s)))"
    using b l v unfolding block_replayed_def by (metis live_did)
  then show "queue_consumer C (ms @ rest) (iter_from C p i lp s) = queue_consumer C rest
      (resume C (Some (last (block_insts (fc_module C) p))) (did (analysed C (fst p # fs) I @ xs) s))"
    using iter_from_other[OF i I no l p map] by simp
qed

lemma replay:
  assumes M: "llvm_module (fc_module C)" and map: "\<not> fc_mpi_map C"
  shows "block_run C tid fs p i (ms :: 'm flow_message list) xs \<Longrightarrow> block_replayed C fs p i ms xs"
    and "func_run C tid fs q (ms' :: 'm flow_message list) xs' r \<Longrightarrow> func_replayed C fs ms' xs' r"
proof (induction rule: block_run_func_run.inducts)
  case (block_end i p fs)
  then show ?case by (simp add: block_replayed_def iter_from_end)
next
  case (block_debug i p fs ms xs)
  have "Suc i < length (block_insts (fc_module C) p)" if "valid_block C p"
    using not_last[OF M that block_debug(1)] block_debug(2) calls_not_terminator(1) by blast
  then show ?case using block_debug(4) by (simp add: block_replayed_def iter_from_debug[OF block_debug(1,2)])
next
  case (block_memory i p I fs ms xs a)
  show ?case unfolding block_replayed_def
  proof (intro allI impI)
    fix s :: "'m flow" and lp rest assume l: "live C fs s" and v: "valid_block C p"
    have "Suc i < length (block_insts (fc_module C) p)"
      using not_last[OF M v block_memory(1)] block_memory(2,5) calls_not_terminator(2) by blast
    then show "queue_consumer C ((MEM_ADDR_NOTIFICATION (int (fst p)) (int (snd p)) (int i) a # ms) @ rest)
          (iter_from C p i lp s)
        = queue_consumer C rest (resume C (Some (last (block_insts (fc_module C) p)))
            (did (SetMemory I a # analysed C (fst p # fs) I @ xs) s))"
      using block_memory(4) consume_memory[OF l v block_memory(1,2,5) M] block_memory(2,5) l v
      by (simp add: block_replayed_def iter_from_memory[OF block_memory(1)])
  qed
next
  case (block_call i p I g fs ms xs r ms' xs')
  show ?case by (rule replayed_call[OF M]) (fact block_call)+
next
  case (block_other i p I fs ms xs)
  show ?case by (rule replayed_other[OF _ _ _ _ _ _ _ map]) (fact block_other)+
next
  case (func_ret p fs ms xs r)
  then show ?case using block_insts_ok[OF M func_ret(1)]
    by (simp add: block_replayed_def func_replayed_def consume_block[where fs = fs, OF _ func_ret(1) map])
next
  case (func_branch p fs ms xs bb ms' xs' r)
  have "resume C (Some (last (block_insts (fc_module C) p))) s = s" for s :: "'m flow"
    using func_branch(4) by (auto simp: resume_def returns_def)
  then show ?case
    using func_branch(1,3,6) block_insts_ok[OF M func_branch(1)]
    by (simp add: block_replayed_def func_replayed_def consume_block[where fs = fs, OF _ func_branch(1) map])
qed

end
