(* ===== verification/Server_Theorems.thy ===== *)
theory Server_Theorems
  imports Server_Replay
begin

text \<open>
  What the reconstruction of the control flow in \<open>library/server.cc\<close> guarantees: a run of the client is
  replayed exactly, and where it is not.
\<close>

subsection \<open>A connection replays a run\<close>

lemma func_run_first:
  "func_run C tid fs p ms xs r
    \<Longrightarrow> \<exists>ms'. ms = BASICBLOCK_NOTIFICATION (int (fst p)) (int (snd p)) tid # ms' \<and> valid_block C p"
  by (erule func_run.cases) auto

lemma consumer_first:
  fixes ms :: "'m flow_message list"
  assumes "valid_block C p" "0 \<le> t" "nat t < n" "length stops = n" "\<not> stops ! nat t"
  obtains s where "queue_consumer C (BASICBLOCK_NOTIFICATION (int (fst p)) (int (snd p)) tid # ms) (new_connection t n stops)
      = queue_consumer C (BASICBLOCK_NOTIFICATION (int (fst p)) (int (snd p)) tid # ms) s"
    "live C [] s" "saved_states s = []" "fl_actions s = [(t, Construct tid 0)]" "fl_thread s = t" "fl_should_stop s = stops"
proof
  define N :: "'m flow" where "N = new_connection t n stops"
  define s :: "'m flow" where "s = N\<lparr>fl_initialized := (replicate n False)[nat t := True],
    fl_saved := (replicate n [])[nat t := []], fl_actions := [(t, Construct tid 0)]\<rparr>"
  have first: "first_message tid 0 N = Some s" "first_message tid 0 s = Some s"
    using assms by (simp_all add: first_message_def N_def new_connection_def tab_get_def tab_put_def act_def s_def)
  have stop: "tab_get t stops = Some False" "fl_thread s = t" "fl_thread N = t"
    "\<not> fl_exited s" "\<not> fl_exited N" "fl_should_stop s = stops"
    "fl_should_stop N = stops"
    using assms by (simp_all add: N_def new_connection_def tab_get_def s_def)
  then show "queue_consumer C (BASICBLOCK_NOTIFICATION (int (fst p)) (int (snd p)) tid # ms) (new_connection t n stops)
      = queue_consumer C (BASICBLOCK_NOTIFICATION (int (fst p)) (int (snd p)) tid # ms) s"
    by (simp add: N_def[symmetric] queue_consumer.simps(2) found_block_eq[OF assms(1)] first)
  show "saved_states s = []"
    using assms by (simp add: saved_states_def s_def tab_get_def N_def new_connection_def)
  then show "live C [] s"
    using assms by (simp add: live_def s_def N_def new_connection_def tab_get_def)
  show "fl_actions s = [(t, Construct tid 0)]" "fl_thread s = t" "fl_should_stop s = stops"
    by (simp_all add: s_def N_def new_connection_def)
qed

text \<open>C4: the consumer of a connection replays a run of the client of the kind that \<open>func_run\<close> describes: functions of the
  module are called by name only (a call through a pointer leads out of the module), with \<open>call\<close> and not with \<open>invoke\<close>,
  nothing calls \<open>exit\<close> or throws, no message of an MPI call is sent, and \<open>ANALYZE_MPI_MAP\<close> is off.  The messages of such a
  run (one at the start of every basic block, one after every load and store), followed by the final message,
  make the server analyse exactly the instructions of that run in the order of execution, without the calls of
  \<open>llvm.*\<close> functions: the instructions of the functions that \<open>IncludeFunctions\<close> and \<open>ExcludedFunctions\<close> leave, with the address of
  every memory access set before it, and with the return and the call of every call to a function of the module
  paired at any depth of recursion.  At the end no state is saved, and the thread is stopped.  What happens outside these
  runs is in \<open>indirect_call_reordered\<close> and \<open>mpi_call_analysed_twice\<close>.\<close>

theorem server_replays:
  assumes "llvm_module (fc_module C)" "\<not> fc_mpi_map C"
    and "func_run C tid [] p ms xs r"
    and "0 \<le> t" "nat t < n" "length stops = n" "\<not> stops ! nat t"
  shows "\<exists>s. queue_consumer C (ms @ [END_APP_NOTIFICATION]) (new_connection t n stops) = Some s
    \<and> fl_actions s = map (Pair t) (Construct tid 0 # xs) \<and> saved_states s = []
    \<and> \<not> fl_exited s \<and> fl_should_stop s = stops[nat t := True]"
proof -
  obtain ms' where ms: "ms = BASICBLOCK_NOTIFICATION (int (fst p)) (int (snd p)) tid # ms'" and v: "valid_block C p"
    using func_run_first[OF assms(3)] by blast
  obtain s where s: "queue_consumer C (ms @ [END_APP_NOTIFICATION]) (new_connection t n stops)
        = queue_consumer C (ms @ [END_APP_NOTIFICATION]) s"
      "live C [] s" "saved_states s = []" "fl_actions s = [(t, Construct tid 0)]" "fl_thread s = t" "fl_should_stop s = stops"
    using consumer_first[OF v assms(4-7)] ms by (metis append_Cons)
  have "queue_consumer C (ms @ [END_APP_NOTIFICATION]) s = queue_consumer C [END_APP_NOTIFICATION] (did xs s)"
    using replay(2)[OF assms(1-3)] s(2,3) by (simp add: func_replayed_def resume_def returns_def)
  then show ?thesis
    using s assms(4-7) by (simp add: queue_consumer.simps(2) live_def tab_put_def) (simp add: did_def saved_states_def)
qed

subsection \<open>An example\<close>

definition call_inst :: "nat \<Rightarrow> callee \<Rightarrow> instr" where
  "call_inst n f = (plain_instr n Op_Call)\<lparr>i_callee := f\<rparr>"

abbreviation "load0 \<equiv> plain_instr 20 Op_Load"

text \<open>\<open>main\<close> calls \<open>f\<close>, which loads.\<close>

definition two_functions :: "callee \<Rightarrow> ir_module" where
  "two_functions g = [\<lparr>f_name = ''main'', f_blocks = [\<lparr>b_id = 0, b_insts = [call_inst 10 g, plain_instr 11 Op_Ret]\<rparr>]\<rparr>,
     \<lparr>f_name = ''f'', f_blocks = [\<lparr>b_id = 1, b_insts = [load0, plain_instr 21 Op_Ret]\<rparr>]\<rparr>]"

definition plain_config :: "ir_module \<Rightarrow> flow_config" where
  "plain_config M = \<lparr>fc_module = M, IncludeFunctions = [], ExcludedFunctions = [], fc_mpi_map = False,
     fc_mpi_data = False\<rparr>"

lemma example_insts [simp]: "i_opcode (call_inst n g) = Op_Call" "i_callee (call_inst n g) = g"
  "i_opcode (plain_instr n op) = op" "i_callee (plain_instr n op) = Callee_Value 0"
  by (simp_all add: call_inst_def plain_instr_def)

lemma example_kinds [simp]: "op \<noteq> Op_Call \<Longrightarrow> \<not> is_debug_call C (plain_instr n op)"
  "op \<noteq> Op_Call \<Longrightarrow> \<not> is_exit_call C (plain_instr n op)"
  "op \<noteq> Op_Call \<Longrightarrow> \<not> is_internal_call C (plain_instr n op)"
  "is_memory (plain_instr n op) \<longleftrightarrow> op = Op_Load \<or> op = Op_Store"
  by (simp_all add: callee_of_def is_debug_call_def is_exit_call_def is_internal_call_def is_memory_def)

lemma two_functions_facts:
  fixes g
  defines "C \<equiv> plain_config (two_functions g)"
  shows "block_insts (fc_module C) (0, 0) = [call_inst 10 g, plain_instr 11 Op_Ret]"
    "block_insts (fc_module C) (Suc 0, 0) = [load0, plain_instr 21 Op_Ret]"
    "valid_block C (0, 0)" "valid_block C (Suc 0, 0)" "analysed C fs I = [Analyze I]"
    "f_name (fc_module C ! Suc 0) = ''f''" "\<not> is_external (fc_module C ! Suc 0)"
    "llvm_module (fc_module C)" "\<not> fc_mpi_map C"
  by (simp_all add: C_def two_functions_def plain_config_def block_insts_def valid_block_def analysed_def wanted_def
      is_external_def llvm_module_def is_terminator_def)

lemma run_other:
  assumes "block_run C tid fs p (Suc i) ms xs" "i < length (block_insts (fc_module C) p)"
    "I = block_insts (fc_module C) p ! i" "\<not> is_debug_call C I" "\<not> is_memory I" "\<not> is_internal_call C I"
    "\<not> is_exit_call C I" "ys = analysed C (fst p # fs) I @ xs"
  shows "block_run C tid fs p i ms ys"
  unfolding assms(8) by (rule block_other) (fact assms)+

lemma run_memory:
  assumes "block_run C tid fs p (Suc i) ms xs" "i < length (block_insts (fc_module C) p)"
    "I = block_insts (fc_module C) p ! i" "is_memory I"
    "ms' = MEM_ADDR_NOTIFICATION (int (fst p)) (int (snd p)) (int i) a # ms"
    "ys = SetMemory I a # analysed C (fst p # fs) I @ xs"
  shows "block_run C tid fs p i ms' ys"
  unfolding assms(5,6) by (rule block_memory) (fact assms)+

lemma run_ret:
  assumes "block_run C tid fs p 0 ms xs" "valid_block C p" "r = last (block_insts (fc_module C) p)" "i_opcode r = Op_Ret"
    "ms' = BASICBLOCK_NOTIFICATION (int (fst p)) (int (snd p)) tid # ms"
  shows "func_run C tid fs p ms' xs r"
  unfolding assms(5) by (rule func_ret) (fact assms)+

lemma run_call:
  assumes "func_run C tid (fst p # fs) (g, 0) ms xs r" "block_run C tid fs p (Suc i) ms' xs'"
    "i < length (block_insts (fc_module C) p)"
    "I = block_insts (fc_module C) p ! i" "i_opcode I = Op_Call" "get_calledFunction I = Some g"
    "\<not> is_external (fc_module C ! g)" "\<not> is_debug_call C I" "\<not> is_exit_call C I"
    "ys = analysed C (fst p # fs) I @ xs @ Returned r I # xs'"
  shows "block_run C tid fs p i (ms @ ms') ys"
  unfolding assms(10) by (rule block_call[where r = r]) (fact assms)+

lemma two_functions_run:
  fixes C defines "C \<equiv> plain_config (two_functions (Callee_Func 1))"
  shows "func_run C 0 [] (0, 0)
     ([BASICBLOCK_NOTIFICATION 0 0 0, BASICBLOCK_NOTIFICATION 1 0 0, MEM_ADDR_NOTIFICATION 1 0 0 64] :: 'm flow_message list)
     [Analyze (call_inst 10 (Callee_Func 1)), SetMemory load0 64, Analyze load0, Analyze (plain_instr 21 Op_Ret),
       Returned (plain_instr 21 Op_Ret) (call_inst 10 (Callee_Func 1)), Analyze (plain_instr 11 Op_Ret)]
     (plain_instr 11 Op_Ret)"
proof -
  note facts = two_functions_facts[of "Callee_Func 1", folded C_def]
  have "block_run C 0 [0] (Suc 0, 0) (Suc (Suc 0)) [] ([] :: 'm flow_action list)"
    by (rule block_end) (simp add: facts)
  then have "block_run C 0 [0] (Suc 0, 0) (Suc 0) [] [Analyze (plain_instr 21 Op_Ret) :: 'm flow_action]"
    by (rule run_other) (simp_all add: facts)
  then have "block_run C 0 [0] (Suc 0, 0) 0 [MEM_ADDR_NOTIFICATION 1 0 0 64]
      [SetMemory load0 64, Analyze load0, Analyze (plain_instr 21 Op_Ret) :: 'm flow_action]"
    by (rule run_memory) (simp_all add: facts)
  then have f: "func_run C 0 (fst (0 :: nat, 0 :: nat) # []) (Suc 0, 0)
      [BASICBLOCK_NOTIFICATION 1 0 0, MEM_ADDR_NOTIFICATION 1 0 0 64]
      [SetMemory load0 64, Analyze load0, Analyze (plain_instr 21 Op_Ret) :: 'm flow_action] (plain_instr 21 Op_Ret)"
    unfolding fst_conv by (rule run_ret) (simp_all add: facts)
  have "block_run C 0 [] (0, 0) (Suc (Suc 0)) [] ([] :: 'm flow_action list)"
    by (rule block_end) (simp add: facts)
  then have "block_run C 0 [] (0, 0) (Suc 0) [] [Analyze (plain_instr 11 Op_Ret) :: 'm flow_action]"
    by (rule run_other) (simp_all add: facts)
  with f have "block_run C 0 [] (0, 0) 0 ([BASICBLOCK_NOTIFICATION 1 0 0, MEM_ADDR_NOTIFICATION 1 0 0 64] @ [])
     [Analyze (call_inst 10 (Callee_Func 1)), SetMemory load0 64, Analyze load0, Analyze (plain_instr 21 Op_Ret),
       Returned (plain_instr 21 Op_Ret) (call_inst 10 (Callee_Func 1)), Analyze (plain_instr 11 Op_Ret) :: 'm flow_action]"
    by (rule run_call)
      (simp_all add: facts get_calledFunction_def is_debug_call_def is_exit_call_def callee_of_def)
  then show ?thesis by (rule run_ret) (simp_all add: facts)
qed

lemma server_replays_witness:
  "\<exists>s. queue_consumer (plain_config (two_functions (Callee_Func 1)))
      ([BASICBLOCK_NOTIFICATION 0 0 0, BASICBLOCK_NOTIFICATION 1 0 0, MEM_ADDR_NOTIFICATION 1 0 0 64]
        @ [END_APP_NOTIFICATION]) (new_connection 0 1 [False]) = Some s
    \<and> fl_actions s = map (Pair 0) [Construct 0 0,
       Analyze (call_inst 10 (Callee_Func 1)), SetMemory load0 64, Analyze load0, Analyze (plain_instr 21 Op_Ret),
       Returned (plain_instr 21 Op_Ret) (call_inst 10 (Callee_Func 1)), Analyze (plain_instr 11 Op_Ret)]
    \<and> saved_states s = [] \<and> \<not> fl_exited s \<and> fl_should_stop s = [True]"
  using server_replays[OF two_functions_facts(8,9) two_functions_run, of 0 1 "[False]"] by simp

subsection \<open>Where the replay differs from the run\<close>

text \<open>Instructions at which the consumer neither waits for a message nor saves a state.\<close>

definition silent :: "flow_config \<Rightarrow> instr \<Rightarrow> bool" where
  "silent C I \<longleftrightarrow> \<not> is_debug_call C I \<and> \<not> is_memory I \<and> \<not> is_internal_call C I \<and> \<not> is_exit_call C I"

lemma silent_run:
  fixes C :: flow_config
  shows "\<forall>I \<in> set (drop i (block_insts (fc_module C) p)). silent C I \<Longrightarrow> i \<le> length (block_insts (fc_module C) p)
    \<Longrightarrow> block_run C tid fs p i [] (concat (map (analysed C (fst p # fs)) (drop i (block_insts (fc_module C) p))) :: 'm flow_action list)"
proof (induction "length (block_insts (fc_module C) p) - i" arbitrary: i)
  case 0
  then show ?case by (simp add: block_end)
next
  case (Suc k)
  then have i: "i < length (block_insts (fc_module C) p)" by simp
  let ?I = "block_insts (fc_module C) p ! i"
  have d: "drop i (block_insts (fc_module C) p) = ?I # drop (Suc i) (block_insts (fc_module C) p)"
    using i by (rule block_split)
  have "block_run C tid fs p (Suc i) [] (concat (map (analysed C (fst p # fs)) (drop (Suc i) (block_insts (fc_module C) p))) :: 'm flow_action list)"
    using Suc.hyps(2) Suc.prems i by (intro Suc.hyps(1)) (simp_all add: d)
  then show ?case using Suc.prems(1) i unfolding d by (simp add: block_other silent_def)
qed

text \<open>C39: the functions that a program calls through pointers are analysed too late.  The server finds no function in such a call
  and saves no state, so that it goes on with the caller before the messages of the callee arrive.  Let \<open>main\<close> be
  any block that makes such a call, as its only call of a function of the module, and no access to the memory; and let
  the callee \<open>g\<close> run with any messages \<open>ms\<close>, which call for the actions \<open>xs\<close> (\<open>func_run\<close>).  The program executes \<open>xs\<close> between the call and
  the instructions after it; the server analyses the whole block of \<open>main\<close>, its return included, and only
  then \<open>xs\<close>, and it pairs no return with the call.\<close>

theorem indirect_call_reordered:
  fixes ms :: "'m flow_message list"
  assumes "llvm_module (fc_module C)" "\<not> fc_mpi_map C"
    and "valid_block C (m, 0)" "block_insts (fc_module C) (m, 0) = Is @ call # Js" "Js \<noteq> []" "i_opcode (last Js) = Op_Ret"
    and "i_opcode call = Op_Call" "get_calledFunction call = None" "\<forall>I \<in> set (Is @ Js). silent C I"
    and "func_run C tid [] (g, 0) ms xs r"
    and "0 \<le> t" "nat t < n" "length stops = n" "\<not> stops ! nat t"
  shows "\<exists>s. queue_consumer C (BASICBLOCK_NOTIFICATION (int m) 0 tid # ms @ [END_APP_NOTIFICATION]) (new_connection t n stops) = Some s
    \<and> fl_actions s = map (Pair t) (Construct tid 0 # concat (map (analysed C [m]) (Is @ [call]))
        @ concat (map (analysed C [m]) Js) @ xs)
    \<and> saved_states s = [] \<and> fl_should_stop s = stops[nat t := True]"
proof -
  let ?B = "BASICBLOCK_NOTIFICATION (int m) 0 tid :: 'm flow_message"
  let ?ys = "concat (map (analysed C [m]) (Is @ call # Js))"
  have call: "silent C call" using assms(7,8)
    by (simp add: silent_def is_debug_call_def is_memory_def is_internal_call_def is_exit_call_def callee_of_def)
  have "block_run C tid [] (m, 0) 0 [] ?ys" using silent_run[of 0 C "(m, 0)" tid "[]"] assms(4,9) call by auto
  then have main: "func_run C tid [] (m, 0) [?B] ?ys (last Js)"
    using func_ret[OF assms(3), of tid "[]" "[]" ?ys "last Js"] assms(4-6) by simp
  obtain s where s: "queue_consumer C (?B # ms @ [END_APP_NOTIFICATION]) (new_connection t n stops)
        = queue_consumer C (?B # ms @ [END_APP_NOTIFICATION]) s"
      "live C [] s" "saved_states s = []" "fl_actions s = [(t, Construct tid 0)]" "fl_thread s = t" "fl_should_stop s = stops"
    using consumer_first[OF assms(3,11-14), of tid "ms @ [END_APP_NOTIFICATION]"] by auto
  have "queue_consumer C (?B # ms @ [END_APP_NOTIFICATION]) s = queue_consumer C (ms @ [END_APP_NOTIFICATION]) (did ?ys s)"
    using replay(2)[OF assms(1,2) main] s(2,3) by (simp add: func_replayed_def resume_def returns_def)
  also have "\<dots> = queue_consumer C [END_APP_NOTIFICATION] (did xs (did ?ys s))"
    using replay(2)[OF assms(1,2,10)] s(2,3) by (simp add: func_replayed_def resume_def returns_def)
  finally show ?thesis
    using s assms(11-14) by (simp add: queue_consumer.simps(2) live_def tab_put_def) (simp add: did_def saved_states_def)
qed

lemma callee_run:
  fixes C defines "C \<equiv> plain_config (two_functions (Callee_Value 5))"
  shows "func_run C 0 [] (1, 0) [BASICBLOCK_NOTIFICATION 1 0 0, MEM_ADDR_NOTIFICATION 1 0 0 64 :: 'm flow_message]
      [SetMemory load0 64, Analyze load0, Analyze (plain_instr 21 Op_Ret)] (plain_instr 21 Op_Ret)"
proof -
  note facts = two_functions_facts[of "Callee_Value 5", folded C_def]
  have "block_run C 0 [] (Suc 0, 0) (Suc (Suc 0)) [] ([] :: 'm flow_action list)"
    by (rule block_end) (simp add: facts)
  then have "block_run C 0 [] (Suc 0, 0) (Suc 0) [] [Analyze (plain_instr 21 Op_Ret) :: 'm flow_action]"
    by (rule run_other) (simp_all add: facts)
  then have "block_run C 0 [] (Suc 0, 0) 0 [MEM_ADDR_NOTIFICATION 1 0 0 64]
      [SetMemory load0 64, Analyze load0, Analyze (plain_instr 21 Op_Ret) :: 'm flow_action]"
    by (rule run_memory) (simp_all add: facts)
  then show ?thesis unfolding One_nat_def by (rule run_ret) (simp_all add: facts)
qed

lemma indirect_call_reordered_witness:
  "\<exists>s. queue_consumer (plain_config (two_functions (Callee_Value 5)))
      (BASICBLOCK_NOTIFICATION 0 0 0 # [BASICBLOCK_NOTIFICATION 1 0 0, MEM_ADDR_NOTIFICATION 1 0 0 64]
        @ [END_APP_NOTIFICATION :: nat flow_message]) (new_connection 0 1 [False]) = Some s
    \<and> fl_actions s = map (Pair 0) [Construct 0 0, Analyze (call_inst 10 (Callee_Value 5)), Analyze (plain_instr 11 Op_Ret),
       SetMemory load0 64, Analyze load0, Analyze (plain_instr 21 Op_Ret)]
    \<and> saved_states s = [] \<and> fl_should_stop s = [True]"
  using indirect_call_reordered[OF two_functions_facts(8,9) two_functions_facts(3), of "Callee_Value 5" "[]" "call_inst 10 (Callee_Value 5)"
      "[plain_instr 11 Op_Ret]" 0 1 _ _ _ 0 1 "[False]", OF _ _ _ _ _ _ callee_run]
  by (simp add: two_functions_facts get_calledFunction_def silent_def)

text \<open>\<open>main\<close> calls an MPI function, which has no body in the module.\<close>

definition mpi_program :: ir_module where
  "mpi_program = [\<lparr>f_name = ''main'', f_blocks = [\<lparr>b_id = 0,
       b_insts = [call_inst 10 (Callee_Func 1), plain_instr 11 Op_Add, plain_instr 12 Op_Ret]\<rparr>]\<rparr>,
     \<lparr>f_name = ''MPI_Send'', f_blocks = []\<rparr>]"

text \<open>With \<open>ANALYZE_MPI_DATA\<close> but without \<open>ANALYZE_MPI_MAP\<close> the rest of a block is analysed twice.  The
  consumer does not stop at the MPI call (it does only for \<open>ANALYZE_MPI_MAP\<close>), and when the message of
  the call arrives it goes on after the call once more.\<close>

theorem mpi_call_analysed_twice:
  "map_option fl_actions (queue_consumer ((plain_config mpi_program)\<lparr>fc_mpi_data := True\<rparr>)
      [BASICBLOCK_NOTIFICATION 0 0 0, MPI_CALL_NOTIFICATION 0 0 0 7, END_APP_NOTIFICATION] (new_connection 0 1 [False] :: nat flow))
   = Some (map (Pair 0) [Construct 0 0, Analyze (call_inst 10 (Callee_Func 1)), Analyze (plain_instr 11 Op_Add),
       Analyze (plain_instr 12 Op_Ret), ProcessData (call_inst 10 (Callee_Func 1)) 7, Analyze (plain_instr 11 Op_Add),
       Analyze (plain_instr 12 Op_Ret)])"
  by code_simp

end
