(* ===== verification/Server_End_Theorems.thy ===== *)
theory Server_End_Theorems
  imports Server_End_Inv Server_Theorems
begin

text \<open>
  How a run of the server ends: the witnesses of its invariants, the schedules that lose the results, and
  the proof that with one connection it writes the results once and ends.
\<close>

subsection \<open>Schedules\<close>

lemma run_sched_reach:
  "server_reach C n s \<Longrightarrow> run_sched C ls s = Some s' \<Longrightarrow> server_reach C n s'"
  by (induction C ls s rule: run_sched.induct) (auto split: option.splits intro: reach_step)

lemma run_sched_append:
  "run_sched C (xs @ ys) s = (case run_sched C xs s of None \<Rightarrow> None | Some s \<Rightarrow> run_sched C ys s)"
  by (induction C xs s rule: run_sched.induct) (auto split: option.split)

abbreviation "no_functions \<equiv> plain_config []"

text \<open>One connection that ends at once, up to its consumer in \<open>pop_front\<close> and up to \<open>dump_analysis\<close>.\<close>

definition sched_pop :: "nat sched list" where
  "sched_pop = [Accept, Receive 0 END_APP_NOTIFICATION, Consumer 0, Consumer 0]"


lemma pop_never_empty_witness:
  "\<exists>s m. run_sched no_functions sched_pop (boot 1) = Some s \<and> cn_pc (sv_threads_data s ! 0) = At_Lock
    \<and> pop_front (cn_jobs (sv_threads_data s ! 0)) = (Some m, tl (cn_jobs (sv_threads_data s ! 0)))
    \<and> cn_jobs (sv_threads_data s ! 0) = m # tl (cn_jobs (sv_threads_data s ! 0))"
proof -
  define s where "s = the (run_sched no_functions sched_pop (boot 1))"
  have s: "run_sched no_functions sched_pop (boot 1) = Some s" "length (sv_threads_data s) = 1"
    "cn_pc (sv_threads_data s ! 0) = At_Lock"
    unfolding s_def by code_simp+
  show ?thesis
    using pop_never_empty[OF run_sched_reach[OF reach_boot s(1)], of 0] s by auto
qed


subsection \<open>More than one connection\<close>

lemma exited_stays: "sv_exited s \<Longrightarrow> run_sched C ls s = Some s"
  by (induction ls) (simp_all add: sched_step_def)

text \<open>\<open>k\<close> connections of which the first \<open>j\<close> have taken their final message and wait for their turn.\<close>

definition ending :: "nat \<Rightarrow> nat \<Rightarrow> 'm server \<Rightarrow> bool" where
  "ending k j s \<longleftrightarrow> sv_thread_counter s = int k \<and> sv_total_num s = int k \<and> length (sv_threads_data s) = k
     \<and> length (sv_should_stop s) = k \<and> sv_toDump s = 0 \<and> sv_dumps s = 0 \<and> \<not> sv_exited s
     \<and> (\<forall>i < k. let c = sv_threads_data s ! i in fl_thread (cn_flow c) = int i \<and> \<not> fl_exited (cn_flow c)
         \<and> (if i < j then cn_pc c = At_Turn \<and> cn_jobs c = [] \<and> sv_should_stop s ! i
            else cn_pc c = At_Test \<and> cn_jobs c = [END_APP_NOTIFICATION] \<and> \<not> sv_should_stop s ! i))"

definition accepted :: "nat \<Rightarrow> nat \<Rightarrow> nat \<Rightarrow> 'm server" where
  "accepted n k j = (boot n)\<lparr>sv_threads_data := map (\<lambda>i. \<lparr>cn_jobs = (if i < j then [END_APP_NOTIFICATION] else []),
       cn_flow = new_connection (int i) 0 [], cn_pc = At_Test\<rparr>) [0..<k],
     sv_thread_counter := int k, sv_total_num := int k, sv_should_stop := replicate k False\<rparr>"

lemma run_accepts: "run_sched C (replicate k Accept) (accepted n j 0 :: 'm server) = Some (accepted n (j + k) 0)"
proof (induction k arbitrary: j)
  case (Suc k)
  have "sched_step C Accept (accepted n j 0 :: 'm server) = Some (accepted n (Suc j) 0)"
    by (simp add: sched_step_def accept_new_connections_def accepted_def boot_def replicate_append_same)
  then show ?case using Suc[of "Suc j"] by simp
qed simp

lemma run_receives:
  "j + m \<le> k \<Longrightarrow> run_sched C (map (\<lambda>i. Receive i END_APP_NOTIFICATION) [j..<j + m]) (accepted n k j :: 'm server) = Some (accepted n k (j + m))"
proof (induction m arbitrary: j)
  case (Suc m)
  let ?c = "\<lambda>j i. \<lparr>cn_jobs = (if i < j then [END_APP_NOTIFICATION] else []), cn_flow = new_connection (int i) 0 [], cn_pc = At_Test\<rparr> :: 'm connection"
  have "(map (?c j) [0..<k])[j := ?c (Suc j) j] = map (?c (Suc j)) [0..<k]"
    using Suc.prems by (intro nth_equalityI) (auto simp: nth_list_update)
  then have "sched_step C (Receive j END_APP_NOTIFICATION) (accepted n k j :: 'm server) = Some (accepted n k (Suc j))"
    using Suc.prems by (simp add: sched_step_def recv_msg_def put_connection_def accepted_def boot_def push_back_def)
  moreover have "[j..<j + Suc m] = j # [Suc j..<Suc j + m]" by (simp add: upt_conv_Cons)
  ultimately show ?case using Suc.IH[of "Suc j"] Suc.prems by simp
qed simp

lemma boot_accepted: "boot n = accepted n 0 0"
  by (simp add: boot_def accepted_def)

lemma accepted_ending: "ending k 0 (accepted n k k)"
  by (simp add: ending_def accepted_def boot_def new_connection_def)

lemma ending_step:
  fixes s :: "'m server"
  assumes e: "ending k j s" and j: "j < k"
  shows "\<exists>s'. run_sched C (replicate 4 (Consumer j)) s = Some s' \<and> ending k (Suc j) s'"
proof -
  define c where "c = sv_threads_data s ! j"
  define f where "f = (with_tables s (cn_flow c))\<lparr>fl_should_stop := (sv_should_stop s)[j := True]\<rparr>"
  define t where "t = put_tables f (put_connection j \<lparr>cn_jobs = [], cn_flow = f, cn_pc = At_Test\<rparr> s)"
  have c: "fl_thread (cn_flow c) = int j" "\<not> fl_exited (cn_flow c)" "cn_pc c = At_Test" "cn_jobs c = [END_APP_NOTIFICATION]"
    "\<not> sv_should_stop s ! j" and len: "length (sv_threads_data s) = k" "length (sv_should_stop s) = k" "\<not> sv_exited s"
    using e j by (auto simp: ending_def Let_def c_def)
  have f: "consume C END_APP_NOTIFICATION (with_tables u (cn_flow c)) = Some f" "\<not> fl_exited f"
    if "sv_InitializedThreads u = sv_InitializedThreads s" "sv_SavedStates u = sv_SavedStates s" "sv_should_stop u = sv_should_stop s"
    for u :: "'m server"
    using c j len that by (simp_all add: f_def with_tables_def tab_put_def)
  let ?s1 = "put_connection j (c\<lparr>cn_pc := At_Size\<rparr>) s" and ?s2 = "put_connection j (c\<lparr>cn_pc := At_Lock\<rparr>) s"
  have "sched_step C (Consumer j) s = Some ?s1"
    using c j len by (simp add: sched_step_def consumer_step_def Let_def tab_get_def flip: c_def)
  moreover have "sched_step C (Consumer j) ?s1 = Some ?s2"
    using c j len by (simp add: sched_step_def consumer_step_def Let_def queue_size_def put_connection_def)
  moreover have "sched_step C (Consumer j) ?s2 = Some t"
    using c j len f[of ?s2] by (simp add: sched_step_def consumer_step_def Let_def consume_msg_def pop_front_def t_def put_connection_def
        del: consume.simps)
  moreover have "sched_step C (Consumer j) t = Some (put_connection j \<lparr>cn_jobs = [], cn_flow = f, cn_pc = At_Turn\<rparr> t)"
    using c j len by (simp add: sched_step_def consumer_step_def Let_def t_def put_tables_def put_connection_def f_def with_tables_def tab_get_def)
  ultimately have "run_sched C (replicate 4 (Consumer j)) s = Some (put_connection j \<lparr>cn_jobs = [], cn_flow = f, cn_pc = At_Turn\<rparr> t)"
    by (simp add: numeral_eq_Suc)
  moreover have "ending k (Suc j) (put_connection j \<lparr>cn_jobs = [], cn_flow = f, cn_pc = At_Turn\<rparr> t)"
    using e c j len
    by (auto simp: ending_def Let_def t_def put_tables_def put_connection_def f_def with_tables_def nth_list_update less_Suc_eq)
  ultimately show ?thesis by blast
qed

lemma ending_run:
  fixes s :: "'m server"
  shows "ending k j s \<Longrightarrow> j + m \<le> k \<Longrightarrow> \<exists>s'. run_sched C (concat (map (\<lambda>i. replicate 4 (Consumer i)) [j..<j + m])) s = Some s' \<and> ending k (j + m) s'"
proof (induction m arbitrary: j s)
  case (Suc m)
  obtain t where t: "run_sched C (replicate 4 (Consumer j)) s = Some t" "ending k (Suc j) t"
    using ending_step[OF Suc.prems(1)] Suc.prems(2) by auto
  from Suc.IH[OF t(2)] Suc.prems(2) obtain s' where
    "run_sched C (concat (map (\<lambda>i. replicate 4 (Consumer i)) [Suc j..<Suc j + m])) t = Some s'" "ending k (j + Suc m) s'" by auto
  moreover have "[j..<j + Suc m] = j # [Suc j..<Suc j + m]" by (simp add: upt_conv_Cons)
  ultimately show ?case using t(1) by (auto simp: run_sched_append)
qed simp

text \<open>\<open>k\<close> clients connect and end at once; the consumers take their messages, and then the first one moves three times.\<close>

definition sched_first_exits :: "nat \<Rightarrow> 'm sched list" where
  "sched_first_exits k = replicate k Accept @ map (\<lambda>i. Receive i END_APP_NOTIFICATION) [0..<k]
     @ concat (map (\<lambda>i. replicate 4 (Consumer i)) [0..<k]) @ replicate 3 (Consumer 0)"

lemma first_exits:
  assumes "ending k k s" "2 \<le> k"
  shows "\<exists>s'. run_sched C (replicate 3 (Consumer 0)) s = Some s' \<and> sv_exited s' \<and> sv_dumps s' = 0 \<and> checkStoppingCondition s'
    \<and> (\<forall>c \<in> set (sv_threads_data s'). cn_jobs c = [])"
proof -
  have s: "cn_pc (sv_threads_data s ! 0) = At_Turn" "sv_toDump s = fl_thread (cn_flow (sv_threads_data s ! 0))"
    "sv_toDump s = 0" "sv_thread_counter s = int k" "0 < length (sv_threads_data s)" "\<not> sv_exited s" "sv_dumps s = 0"
    "sv_total_num s = int k" "\<forall>i < k. sv_should_stop s ! i" "\<forall>i < k. cn_jobs (sv_threads_data s ! i) = []"
    "cn_jobs (sv_threads_data s ! 0) = []" "length (sv_threads_data s) = k"
    using assms by (auto simp: ending_def Let_def)
  show ?thesis using s assms(2)
    by (auto simp: numeral_3_eq_3 sched_step_def consumer_step_def Let_def put_connection_def checkStoppingCondition_def list_all_iff
        dest!: set_update_subset_insert[THEN subsetD] simp: in_set_conv_nth) (metis less_le_trans zero_less_numeral)
qed

text \<open>C38: with more than one connection the results can get lost, whatever the number of the connections is.  Every
  client has sent its final message and every consumer has taken it; the first consumer then ends the process with \<open>exit\<close>
  after its turn, before the last one gets to \<open>dump_analysis\<close>: the server has exited although
  \<open>checkStoppingCondition\<close> holds and all queues are empty, it has written nothing, and never will.\<close>

theorem exit_before_dump:
  assumes "2 \<le> k"
  shows "\<exists>s. run_sched C (sched_first_exits k) (boot n :: 'm server) = Some s \<and> sv_exited s \<and> sv_dumps s = 0 \<and> checkStoppingCondition s
    \<and> (\<forall>c \<in> set (sv_threads_data s). cn_jobs c = []) \<and> (\<forall>ls. run_sched C ls s = Some s)"
proof -
  obtain s :: "'m server" where s: "run_sched C (concat (map (\<lambda>i. replicate 4 (Consumer i)) [0..<k])) (accepted n k k) = Some s" "ending k k s"
    using ending_run[of k 0 "accepted n k k", OF accepted_ending, of k C] by auto
  obtain s' where s': "run_sched C (replicate 3 (Consumer 0)) s = Some s'" "sv_exited s'" "sv_dumps s' = 0"
      "checkStoppingCondition s'" "\<forall>c \<in> set (sv_threads_data s'). cn_jobs c = []"
    using first_exits[OF s(2) assms] by blast
  have "run_sched C (sched_first_exits k) (boot n :: 'm server) = Some s'"
    using run_accepts[where 'm = 'm and C = C and k = k and n = n and j = 0]
      run_receives[where 'm = 'm and C = C and j = 0 and m = k and k = k and n = n] s(1) s'(1)
    by (simp add: sched_first_exits_def run_sched_append boot_accepted)
  then show ?thesis using s' exited_stays by blast
qed

lemma exit_before_dump_witness:
  "\<exists>s. run_sched no_functions (sched_first_exits 3) (boot 3 :: nat server) = Some s \<and> sv_exited s \<and> sv_dumps s = 0"
  using exit_before_dump[of 3 no_functions 3] by auto

subsection \<open>Two connections\<close>

text \<open>Two connections that end; \<open>ks\<close> are the turns of their consumers.\<close>

definition sched_two :: "nat list \<Rightarrow> nat sched list" where
  "sched_two ks = [Accept, Accept, Receive 0 END_APP_NOTIFICATION, Receive 1 END_APP_NOTIFICATION] @ map Consumer ks"

text \<open>With two connections the results can be written twice.  \<open>toDump\<close> is incremented and read again
  in two steps: when both consumers have incremented it, both read the number of the connections, and
  both call \<open>dump_analysis\<close>.\<close>

theorem two_dumps:
  "map_option sv_dumps (run_sched no_functions (sched_two [0, 0, 0, 0, 0, 1, 1, 1, 1, 1, 0, 1]) (boot 2)) = Some 2"
  by code_simp

subsection \<open>A program that calls \<open>exit\<close>\<close>

definition exit_program :: ir_module where
  "exit_program = [\<lparr>f_name = ''main'', f_blocks = [\<lparr>b_id = 0,
       b_insts = [call_inst 10 (Callee_Func 1), plain_instr 11 Op_Unreachable]\<rparr>]\<rparr>,
     \<lparr>f_name = ''exit'', f_blocks = []\<rparr>]"

text \<open>The only connection has ended by \<open>pthread_exit\<close>.\<close>

definition lost_server :: "'m server \<Rightarrow> bool" where
  "lost_server s \<longleftrightarrow> length (sv_threads_data s) = 1 \<and> cn_pc (sv_threads_data s ! 0) = Ended \<and> \<not> sv_exited s
     \<and> sv_should_stop s = [False] \<and> sv_thread_counter s = 1 \<and> sv_total_num s = 1 \<and> sv_dumps s = 0"

lemma lost_stays:
  "lost_server s \<Longrightarrow> Accept \<notin> set ls \<Longrightarrow> \<exists>s'. run_sched C ls s = Some s' \<and> lost_server s'"
proof (induction ls arbitrary: s)
  case (Cons l ls)
  have "\<exists>s'. sched_step C l s = Some s' \<and> lost_server s'"
  proof (cases l)
    case (Receive i m)
    then show ?thesis using Cons.prems(1) by (simp add: sched_step_def lost_server_def recv_msg_def Let_def)
  next
    case (Consumer i)
    then show ?thesis using Cons.prems(1) by (simp add: sched_step_def lost_server_def consumer_step_def Let_def)
  qed (use Cons.prems in \<open>simp_all add: sched_step_def\<close>)
  then show ?case using Cons by auto
qed simp

text \<open>A program that calls \<open>exit\<close> loses its results, although the comment in \<open>process_instr\<close> says that they
  are written at this place.  The call ends the consumer before it has set \<open>should_stop\<close>; whatever arrives
  afterwards and however the threads move, without a further connection nothing is ever written, and the
  main loop never stops.\<close>

theorem exit_call_never_dumps:
  assumes "Accept \<notin> set ls"
  shows "\<exists>s. run_sched (plain_config exit_program)
      ([Accept, Receive 0 (BASICBLOCK_NOTIFICATION 0 0 0), Consumer 0, Consumer 0, Consumer 0] @ ls) (boot 1 :: nat server) = Some s
    \<and> sv_dumps s = 0 \<and> \<not> sv_exited s \<and> \<not> checkStoppingCondition s"
proof -
  let ?ls = "[Accept, Receive 0 (BASICBLOCK_NOTIFICATION 0 0 0), Consumer 0, Consumer 0, Consumer 0] :: nat sched list"
  define s where "s = the (run_sched (plain_config exit_program) ?ls (boot 1))"
  have s: "run_sched (plain_config exit_program) ?ls (boot 1) = Some s" "lost_server s"
    unfolding s_def by code_simp+
  obtain s' where s': "run_sched (plain_config exit_program) ls s = Some s'" "lost_server s'"
    using lost_stays[OF s(2) assms] by blast
  have "run_sched (plain_config exit_program) (?ls @ ls) (boot 1) = Some s'"
    using s(1) s'(1) by (simp only: run_sched_append option.case)
  moreover have "sv_dumps s' = 0 \<and> \<not> sv_exited s' \<and> \<not> checkStoppingCondition s'"
    using s'(2) by (simp add: lost_server_def checkStoppingCondition_def)
  ultimately show ?thesis by blast
qed

lemma exit_call_never_dumps_witness:
  "\<exists>s. run_sched (plain_config exit_program)
      ([Accept, Receive 0 (BASICBLOCK_NOTIFICATION 0 0 0), Consumer 0, Consumer 0, Consumer 0]
        @ [Receive 0 END_APP_NOTIFICATION, Consumer 0]) (boot 1 :: nat server) = Some s
    \<and> sv_dumps s = 0 \<and> \<not> sv_exited s \<and> \<not> checkStoppingCondition s"
  by (rule exit_call_never_dumps) simp

end
