(* ===== verification/Server_Live.thy ===== *)
theory Server_Live
  imports Server_End_Theorems
begin

text \<open>
  With one connection whose messages end its flow, the server comes to its end under every fair schedule:
  an invariant that ties the state of the threads to the flow of the messages, and a measure that every
  step of the consumer decreases once all messages have arrived.
\<close>

subsection \<open>The messages consumed so far\<close>

definition flow_stopped :: "'m flow \<Rightarrow> bool" where
  "flow_stopped f \<longleftrightarrow> tab_get (fl_thread f) (fl_should_stop f) = Some True"

lemma queue_consumer_ended:
  "fl_exited f \<or> flow_stopped f \<Longrightarrow> queue_consumer C ms f = Some f"
  by (cases ms) (auto simp: flow_stopped_def queue_consumer.simps(2))

lemma queue_consumer_append:
  "queue_consumer C (xs @ ys) f = (case queue_consumer C xs f of None \<Rightarrow> None | Some f \<Rightarrow> queue_consumer C ys f)"
proof (induction C xs f rule: queue_consumer.induct)
  case (2 C m ms f)
  show ?case
  proof (cases "fl_exited f \<or> flow_stopped f")
    case True
    then show ?thesis by (simp add: queue_consumer_ended)
  next
    case False
    then show ?thesis using 2
      by (auto simp: queue_consumer.simps(2) flow_stopped_def split: option.split bool.split)
  qed
qed simp

text \<open>What a part of the messages does to the flow, when all of them stop it.\<close>

lemma consumed_part:
  assumes "queue_consumer C (xs @ ys) f0 = Some f" "\<not> fl_exited f" "flow_stopped f"
  obtains g where "queue_consumer C xs f0 = Some g" "\<not> fl_exited g" "tab_get (fl_thread g) (fl_should_stop g) \<noteq> None"
    "flow_stopped g \<or> ys = [] \<Longrightarrow> g = f"
    "\<And>m ms. ys = m # ms \<Longrightarrow> \<not> flow_stopped g \<Longrightarrow>
      \<exists>h. consume C m g = Some h \<and> queue_consumer C (xs @ [m]) f0 = Some h"
proof -
  obtain g where g: "queue_consumer C xs f0 = Some g" "queue_consumer C ys g = Some f"
    using assms(1) by (auto simp: queue_consumer_append split: option.splits)
  have e: "\<not> fl_exited g" using g(2) assms(2) queue_consumer_ended[of g C ys] by auto
  have s: "flow_stopped g \<or> ys = [] \<Longrightarrow> g = f" using g(2) queue_consumer_ended[of g C ys] by auto
  have t: "tab_get (fl_thread g) (fl_should_stop g) \<noteq> None"
    using g(2) e assms(3) by (cases ys) (auto simp: queue_consumer.simps(2) flow_stopped_def split: option.splits)
  have "\<exists>h. consume C m g = Some h \<and> queue_consumer C (xs @ [m]) f0 = Some h"
    if "ys = m # ms" "\<not> flow_stopped g" for m ms
    using g e t that by (auto simp: queue_consumer_append queue_consumer.simps(2) flow_stopped_def
        split: option.splits bool.splits)
  then show ?thesis using that g(1) e t s by blast
qed

subsection \<open>The invariant of one connection\<close>

definition only_connection :: "'m server \<Rightarrow> 'm connection" where
  "only_connection s = sv_threads_data s ! 0"

definition phase_ok :: "consumer_pc \<Rightarrow> bool \<Rightarrow> int \<Rightarrow> nat \<Rightarrow> bool" where
  "phase_ok pc stopped turns dumps \<longleftrightarrow> (case pc of
     At_Test \<Rightarrow> turns = 0 \<and> dumps = 0
   | At_Size \<Rightarrow> \<not> stopped \<and> turns = 0 \<and> dumps = 0
   | At_Lock \<Rightarrow> \<not> stopped \<and> turns = 0 \<and> dumps = 0
   | Ended \<Rightarrow> False
   | At_Turn \<Rightarrow> stopped \<and> turns = 0 \<and> dumps = 0
   | At_Dump \<Rightarrow> stopped \<and> turns = 1 \<and> dumps = 0
   | At_Exit \<Rightarrow> stopped \<and> turns = 1 \<and> dumps = 1)"

definition one_inv :: "flow_config \<Rightarrow> 'm flow \<Rightarrow> 'm flow_message list \<Rightarrow> 'm server \<Rightarrow> bool" where
  "one_inv C f0 r s \<longleftrightarrow> server_ok s \<and> length (sv_threads_data s) = 1
     \<and> (\<exists>xs. xs @ cn_jobs (only_connection s) = r
          \<and> queue_consumer C xs f0 = Some (with_tables s (cn_flow (only_connection s))))
     \<and> phase_ok (cn_pc (only_connection s)) (flow_stopped (with_tables s (cn_flow (only_connection s))))
         (sv_toDump s) (sv_dumps s)
     \<and> (sv_exited s \<longrightarrow> cn_pc (only_connection s) = At_Exit)"

fun phase_rank :: "consumer_pc \<Rightarrow> nat \<Rightarrow> nat" where
  "phase_rank At_Test q = 4 * q + 6"
| "phase_rank At_Size q = 4 * q + 5"
| "phase_rank At_Lock q = 4 * q + 4"
| "phase_rank At_Turn q = 3"
| "phase_rank At_Dump q = 2"
| "phase_rank At_Exit q = 1"
| "phase_rank Ended q = 0"

definition rank :: "'m server \<Rightarrow> nat" where
  "rank s = (if sv_exited s then 0
     else phase_rank (cn_pc (only_connection s)) (length (cn_jobs (only_connection s))))"

lemma with_tables_sel [simp]: "fl_thread (with_tables s f) = fl_thread f"
  "fl_should_stop (with_tables s f) = sv_should_stop s" "with_tables (put_connection i c s) f = with_tables s f"
  "with_tables (put_tables f s) f = f" "with_tables (sv_toDump_update g s) f = with_tables s f"
  "with_tables (sv_dumps_update k s) f = with_tables s f" "with_tables (sv_exited_update e s) f = with_tables s f"
  "fl_exited (with_tables s f) = fl_exited f"
  by (simp_all add: with_tables_def put_connection_def put_tables_def)

lemma put_tables_sel [simp]: "sv_threads_data (put_tables f s) = sv_threads_data s" "sv_toDump (put_tables f s) = sv_toDump s"
  "sv_dumps (put_tables f s) = sv_dumps s" "sv_exited (put_tables f s) = sv_exited s"
  by (simp_all add: put_tables_def)

lemma only_put: "length (sv_threads_data s) = 1 \<Longrightarrow> only_connection (put_connection 0 c s) = c"
  by (simp add: only_connection_def)

subsection \<open>The steps keep the invariant and decrease the rank\<close>

text \<open>A message that arrives.\<close>

lemma receive_inv:
  assumes inv: "one_inv C f0 r s" and e: "\<not> sv_exited s" and st: "recv_msg 0 1 m s = Some s'"
  shows "one_inv C f0 (r @ [m]) s'"
proof -
  have l: "length (sv_threads_data s) = 1" using inv by (simp add: one_inv_def)
  define c where "c = only_connection s"
  have s': "s' = put_connection 0 (c\<lparr>cn_jobs := push_back m (cn_jobs c)\<rparr>) s"
    using st by (simp add: recv_msg_def Let_def c_def only_connection_def)
  have "server_ok s'" using server_ok_receive[OF _ _ st] inv l by (simp add: one_inv_def)
  then show ?thesis using inv l e
    by (auto simp: one_inv_def s' only_put push_back_def simp flip: c_def append_assoc)
qed

text \<open>A move of a consumer that only changes its place.\<close>

lemma goto_inv:
  assumes inv: "one_inv C f0 r s" and ok: "server_ok (put_connection 0 ((only_connection s)\<lparr>cn_pc := pc\<rparr>) t)"
    and t: "sv_threads_data t = sv_threads_data s" "sv_should_stop t = sv_should_stop s"
      "sv_InitializedThreads t = sv_InitializedThreads s" "sv_SavedStates t = sv_SavedStates s" "\<not> sv_exited t"
    and phase: "phase_ok pc (flow_stopped (with_tables s (cn_flow (only_connection s)))) (sv_toDump t) (sv_dumps t)"
  shows "one_inv C f0 r (put_connection 0 ((only_connection s)\<lparr>cn_pc := pc\<rparr>) t)"
proof -
  have "with_tables t f = with_tables s f" for f using t by (simp add: with_tables_def)
  then show ?thesis using inv ok t phase by (simp add: one_inv_def only_put)
qed

lemma consumer_inv:
  assumes inv: "one_inv C f0 r s" and e: "\<not> sv_exited s"
    and all: "queue_consumer C (r @ rest) f0 = Some f" "\<not> fl_exited f" "flow_stopped f"
    and small: "length r < 2 ^ 64"
  shows "\<exists>s'. consumer_step C 0 s = Some s' \<and> one_inv C f0 r s' \<and> (rest = [] \<longrightarrow> rank s' < rank s)
    \<and> rank s' \<le> rank s"
proof -
  define c where "c = only_connection s"
  define g where "g = with_tables s (cn_flow c)"
  have l: "length (sv_threads_data s) = 1" and ok: "server_ok s" using inv by (simp_all add: one_inv_def)
  then have c0: "sv_threads_data s ! 0 = c" "only_connection s = c" by (simp_all add: c_def only_connection_def)
  obtain xs where xs: "xs @ cn_jobs c = r" "queue_consumer C xs f0 = Some g"
    and ph: "phase_ok (cn_pc c) (flow_stopped g) (sv_toDump s) (sv_dumps s)"
    using inv by (auto simp: one_inv_def g_def c_def)
  have all': "queue_consumer C (xs @ cn_jobs c @ rest) f0 = Some f" using all(1) xs(1) by (metis append_assoc)
  obtain g' where "queue_consumer C xs f0 = Some g'" "\<not> fl_exited g'" "tab_get (fl_thread g') (fl_should_stop g') \<noteq> None"
    "flow_stopped g' \<or> cn_jobs c @ rest = [] \<Longrightarrow> g' = f"
    "\<And>m ms. cn_jobs c @ rest = m # ms \<Longrightarrow> \<not> flow_stopped g' \<Longrightarrow>
      \<exists>h. consume C m g' = Some h \<and> queue_consumer C (xs @ [m]) f0 = Some h"
    using consumed_part[OF all' all(2,3)] by metis
  with xs(2) have g: "\<not> fl_exited g" "tab_get (fl_thread g) (fl_should_stop g) \<noteq> None"
    "flow_stopped g \<or> cn_jobs c @ rest = [] \<Longrightarrow> g = f"
    "\<And>m ms. cn_jobs c @ rest = m # ms \<Longrightarrow> \<not> flow_stopped g \<Longrightarrow>
      \<exists>h. consume C m g = Some h \<and> queue_consumer C (xs @ [m]) f0 = Some h" by auto
  have sel: "fl_thread g = fl_thread (cn_flow c)" "fl_should_stop g = sv_should_stop s" by (simp_all add: g_def)
  have okstep: "server_ok s'" if "consumer_step C 0 s = Some s'" for s'
    using server_ok_consumer[OF ok _ that] l by simp
  have move: ?thesis if st: "consumer_step C 0 s = Some (put_connection 0 (c\<lparr>cn_pc := pc\<rparr>) t)"
    and t: "sv_threads_data t = sv_threads_data s" "sv_should_stop t = sv_should_stop s"
      "sv_InitializedThreads t = sv_InitializedThreads s" "sv_SavedStates t = sv_SavedStates s" "\<not> sv_exited t"
    and "phase_ok pc (flow_stopped g) (sv_toDump t) (sv_dumps t)"
    and "phase_rank pc (length (cn_jobs c)) < phase_rank (cn_pc c) (length (cn_jobs c))" for pc t
  proof -
    have "one_inv C f0 r (put_connection 0 (c\<lparr>cn_pc := pc\<rparr>) t)"
      using goto_inv[OF inv, of pc t] okstep[OF st] that by (simp add: c0 g_def)
    then show ?thesis using st that(8) e t l by (simp add: rank_def c0 only_put)
  qed
  show ?thesis
  proof (cases "cn_pc c")
    case At_Test
    obtain stop where stop: "tab_get (fl_thread (cn_flow c)) (sv_should_stop s) = Some stop" using g(2) sel by auto
    then have "consumer_step C 0 s = Some (put_connection 0 (c\<lparr>cn_pc := if stop then At_Turn else At_Size\<rparr>) s)"
      using At_Test by (simp add: consumer_step_def Let_def c0)
    then show ?thesis using ph At_Test stop sel e
      by (intro move) (auto simp: phase_ok_def flow_stopped_def)
  next
    case At_Size
    show ?thesis
    proof (cases "queue_size (cn_jobs c) = 0")
      case True
      have "rest \<noteq> []"
      proof
        assume "rest = []"
        have "length (cn_jobs c) < 2 ^ 64" using xs(1) small by auto
        then have "cn_jobs c = []"
          using True nat_dvd_not_less[of "length (cn_jobs c)" "2 ^ 64"] by (auto simp: queue_size_def word_of_nat_eq_0_iff)
        then show False using g(3) all(3) ph At_Size \<open>rest = []\<close> by (simp add: phase_ok_def)
      qed
      then show ?thesis using True At_Size inv by (simp add: consumer_step_def Let_def c0)
    next
      case False
      then show ?thesis using At_Size ph e
        by (intro move[of At_Lock s]) (simp_all add: consumer_step_def Let_def c0 phase_ok_def)
    qed
  next
    case At_Lock
    then have ns: "\<not> flow_stopped g" using ph by (simp add: phase_ok_def)
    have "conn_ok (sv_should_stop s) c" using ok l c0(1) nth_mem[of 0 "sv_threads_data s"] by (simp add: server_ok_def)
    then obtain m js where js: "cn_jobs c = m # js" using At_Lock by (cases "cn_jobs c") (auto simp: conn_ok_def)
    then obtain h where h: "consume C m g = Some h" "queue_consumer C (xs @ [m]) f0 = Some h"
      using g(4)[of m "js @ rest"] ns by auto
    have "queue_consumer C ((xs @ [m]) @ js @ rest) f0 = Some f" using all' js by simp
    then have eh: "\<not> fl_exited h" using consumed_part[OF _ all(2,3)] h(2) by (metis option.inject)
    have st: "consumer_step C 0 s = Some (put_tables h
        (put_connection 0 \<lparr>cn_jobs = js, cn_flow = h, cn_pc = At_Test\<rparr> s))" (is "_ = Some ?s'")
      using At_Lock js h(1) eh by (simp add: consumer_step_def Let_def c0 consume_msg_def pop_front_def flip: g_def)
    have "one_inv C f0 r ?s'"
      using okstep[OF st] l h(2) xs(1) js ph At_Lock e
      by (auto simp: one_inv_def only_connection_def phase_ok_def intro!: exI[of _ "xs @ [m]"])
    then show ?thesis using st At_Lock js l e by (simp add: rank_def c0) (simp add: only_connection_def)
  next
    case At_Turn
    have "tab_get (fl_thread (cn_flow c)) (sv_should_stop s) = Some True"
      using ph At_Turn sel by (simp add: phase_ok_def flow_stopped_def)
    then have "fl_thread (cn_flow c) = 0" using ok l by (auto simp: tab_get_def server_ok_def split: if_splits)
    then show ?thesis using At_Turn ph e
      by (intro move[of At_Dump "s\<lparr>sv_toDump := sv_toDump s + 1\<rparr>"])
        (simp_all add: consumer_step_def Let_def c0 phase_ok_def)
  next
    case At_Dump
    have "sv_thread_counter s = 1" using ok l by (simp add: server_ok_def)
    then show ?thesis using At_Dump ph e
      by (intro move[of At_Exit "s\<lparr>sv_dumps := sv_dumps s + 1\<rparr>"])
        (simp_all add: consumer_step_def Let_def c0 phase_ok_def)
  next
    case At_Exit
    then have st: "consumer_step C 0 s = Some (s\<lparr>sv_exited := True\<rparr>)" by (simp add: consumer_step_def Let_def c0)
    moreover have "one_inv C f0 r (s\<lparr>sv_exited := True\<rparr>)"
      using okstep[OF st] inv At_Exit by (simp add: one_inv_def only_connection_def c0)
    ultimately show ?thesis using At_Exit e by (simp add: rank_def c0)
  next
    case Ended
    then show ?thesis using ph by (simp add: phase_ok_def)
  qed
qed

subsection \<open>Fair schedules\<close>

text \<open>The messages of connection 0 among the first \<open>k\<close> steps, and a schedule in which its consumer moves again
  and again.\<close>

fun received :: "(nat \<Rightarrow> 'm sched) \<Rightarrow> nat \<Rightarrow> 'm flow_message list" where
  "received lab 0 = []"
| "received lab (Suc k) = received lab k @ (case lab k of Receive i m \<Rightarrow> if i = 0 then [m] else [] | _ \<Rightarrow> [])"

definition fair_schedule :: "(nat \<Rightarrow> 'm sched) \<Rightarrow> bool" where
  "fair_schedule lab \<longleftrightarrow> (\<forall>k. \<exists>j \<ge> k. lab j = Consumer 0)"

definition after :: "flow_config \<Rightarrow> nat \<Rightarrow> (nat \<Rightarrow> 'm sched) \<Rightarrow> nat \<Rightarrow> 'm server option" where
  "after C n lab k = run_sched C (map lab [0..<k]) (boot n)"

lemma after_Suc: "after C n lab (Suc k) = (case after C n lab k of None \<Rightarrow> None | Some s \<Rightarrow> sched_step C (lab k) s)"
  by (simp add: after_def run_sched_append split: option.split)

lemma first_inv: "one_inv C (new_connection 0 n [False]) [] (accept_new_connections (boot n))"
proof -
  have "server_ok (accept_new_connections (boot n))"
    using server_ok_accept reach_ok[OF reach_boot] by blast
  then show ?thesis
    by (simp add: one_inv_def only_connection_def accept_new_connections_def boot_def with_tables_def
        new_connection_def phase_ok_def)
qed

text \<open>A step of the schedule, once the connection is there.\<close>

lemma sched_inv:
  assumes inv: "one_inv C f0 r s" and l: "l \<noteq> Accept"
    and r': "r' = r @ (case l of Receive i m \<Rightarrow> if i = 0 then [m] else [] | _ \<Rightarrow> [])"
    and all: "queue_consumer C (r @ rest) f0 = Some f" "\<not> fl_exited f" "flow_stopped f"
    and small: "length r < 2 ^ 64"
  shows "\<exists>s'. sched_step C l s = Some s' \<and> (sv_exited s \<longrightarrow> s' = s) \<and> (\<not> sv_exited s \<longrightarrow> one_inv C f0 r' s'
    \<and> (r' = r \<longrightarrow> rank s' \<le> rank s \<and> (l = Consumer 0 \<and> rest = [] \<longrightarrow> rank s' < rank s)))"
proof (cases "sv_exited s")
  case False
  have len: "length (sv_threads_data s) = 1" using inv by (simp add: one_inv_def)
  show ?thesis
  proof (cases l)
    case (Receive i m)
    show ?thesis
    proof (cases "i = 0")
      case True
      obtain s' where "recv_msg 0 1 m s = Some s'" by (simp add: recv_msg_def Let_def)
      then show ?thesis using receive_inv[OF inv False] r' Receive True len False by (simp add: sched_step_def)
    next
      case i: False
      then show ?thesis using False Receive r' len inv by (simp add: sched_step_def)
    qed
  next
    case (Consumer i)
    show ?thesis
    proof (cases "i = 0")
      case True
      then show ?thesis using consumer_inv[OF inv False all small] False Consumer r' len
        by (auto simp: sched_step_def)
    next
      case i: False
      then show ?thesis using False Consumer r' len inv by (simp add: sched_step_def)
    qed
  qed (use False l inv r' in \<open>simp_all add: sched_step_def\<close>)
qed (simp add: sched_step_def)

text \<open>The state of a schedule in which all that arrives is a part of \<open>ms\<close>.\<close>

definition on_track :: "flow_config \<Rightarrow> nat \<Rightarrow> 'm flow_message list \<Rightarrow> (nat \<Rightarrow> 'm sched) \<Rightarrow> nat \<Rightarrow> 'm server \<Rightarrow> bool" where
  "on_track C n ms lab k s \<longleftrightarrow> (\<exists>r rest. r @ rest = ms \<and> one_inv C (new_connection 0 n [False]) r s
     \<and> (\<not> sv_exited s \<longrightarrow> r = received lab k))"

lemma run_on_track:
  assumes all: "queue_consumer C ms (new_connection 0 n [False]) = Some f" "\<not> fl_exited f" "flow_stopped f"
    and small: "length ms < 2 ^ 64"
    and lab: "lab 0 = Accept" "\<forall>k. lab (Suc k) \<noteq> Accept" "\<forall>k. \<exists>rest. received lab k @ rest = ms"
  shows "\<exists>s. after C n lab (Suc k) = Some s \<and> on_track C n ms lab (Suc k) s"
proof (induction k)
  case 0
  have "after C n lab (Suc 0) = Some (accept_new_connections (boot n))"
    using lab(1) by (simp add: after_def sched_step_def boot_def)
  then show ?case using first_inv[of C n] lab(1) by (auto simp: on_track_def)
next
  case (Suc k)
  then obtain s r rest where s: "after C n lab (Suc k) = Some s" "r @ rest = ms"
    "one_inv C (new_connection 0 n [False]) r s" "\<not> sv_exited s \<longrightarrow> r = received lab (Suc k)"
    by (auto simp: on_track_def)
  let ?r = "r @ (case lab (Suc k) of Receive i m \<Rightarrow> if i = 0 then [m] else [] | _ \<Rightarrow> [])"
  have "\<exists>s'. sched_step C (lab (Suc k)) s = Some s' \<and> (sv_exited s \<longrightarrow> s' = s)
      \<and> (\<not> sv_exited s \<longrightarrow> one_inv C (new_connection 0 n [False]) ?r s')"
    using sched_inv[OF s(3), of "lab (Suc k)" ?r rest f] lab(2) s(2) all small by auto
  then obtain s' where s': "sched_step C (lab (Suc k)) s = Some s'" "sv_exited s \<longrightarrow> s' = s"
    "\<not> sv_exited s \<longrightarrow> one_inv C (new_connection 0 n [False]) ?r s'" by blast
  have "on_track C n ms lab (Suc (Suc k)) s'"
  proof (cases "sv_exited s")
    case True
    then show ?thesis using s'(2) s(2,3) by (auto simp: on_track_def)
  next
    case False
    then have "?r = received lab (Suc (Suc k))" using s(4) by simp
    moreover obtain rest' where "received lab (Suc (Suc k)) @ rest' = ms" using lab(3) by blast
    ultimately show ?thesis using s'(3) False unfolding on_track_def by (metis (no_types))
  qed
  then show ?case using s(1) s'(1) by (subst after_Suc) simp
qed

text \<open>Once everything has arrived, the rank never grows, and a move of the consumer decreases it.\<close>

lemma track_step:
  assumes all: "queue_consumer C ms (new_connection 0 n [False]) = Some f" "\<not> fl_exited f" "flow_stopped f"
    and small: "length ms < 2 ^ 64" and l: "lab k \<noteq> Accept"
    and s: "on_track C n ms lab k s" "\<not> sv_exited s" "received lab k = ms" "received lab (Suc k) = ms"
    and st: "sched_step C (lab k) s = Some s'"
  shows "rank s' \<le> rank s \<and> (lab k = Consumer 0 \<longrightarrow> rank s' < rank s)"
proof -
  have inv: "one_inv C (new_connection 0 n [False]) ms s" using s(1-3) by (auto simp: on_track_def)
  have "ms = ms @ (case lab k of Receive i m \<Rightarrow> if i = 0 then [m] else [] | _ \<Rightarrow> [])"
    using s(3,4) by simp
  then show ?thesis using sched_inv[OF inv l _ _ all(2,3) small, of ms "[]"] all(1) s(2) st by auto
qed

lemma track_end:
  assumes all: "queue_consumer C ms (new_connection 0 n [False]) = Some f" "\<not> fl_exited f" "flow_stopped f"
    and s: "on_track C n ms lab k s" "sv_exited s"
  shows "sv_dumps s = 1 \<and> fl_actions (cn_flow (sv_threads_data s ! 0)) = fl_actions f"
proof -
  obtain r rest where r: "r @ rest = ms" "one_inv C (new_connection 0 n [False]) r s"
    using s(1) by (auto simp: on_track_def)
  obtain xs where xs: "xs @ cn_jobs (only_connection s) = r"
    "queue_consumer C xs (new_connection 0 n [False]) = Some (with_tables s (cn_flow (only_connection s)))"
    and ph: "phase_ok At_Exit (flow_stopped (with_tables s (cn_flow (only_connection s)))) (sv_toDump s) (sv_dumps s)"
    using r(2) s(2) by (auto simp: one_inv_def)
  have "queue_consumer C (xs @ cn_jobs (only_connection s) @ rest) (new_connection 0 n [False]) = Some f"
    using all(1) xs(1) r(1) by (metis append_assoc)
  moreover have "flow_stopped (with_tables s (cn_flow (only_connection s)))" using ph by (simp add: phase_ok_def)
  ultimately have "with_tables s (cn_flow (only_connection s)) = f"
    using consumed_part[OF _ all(2,3)] xs(2) by (metis option.inject)
  then have "fl_actions f = fl_actions (cn_flow (only_connection s))" by (auto simp: with_tables_def)
  then show ?thesis using ph by (simp add: phase_ok_def only_connection_def)
qed

lemma rank_leads_to_exit:
  assumes all: "queue_consumer C ms (new_connection 0 n [False]) = Some f" "\<not> fl_exited f" "flow_stopped f"
    and small: "length ms < 2 ^ 64" and fair: "fair_schedule lab"
    and lab: "lab 0 = Accept" "\<forall>k. lab (Suc k) \<noteq> Accept" "\<forall>k. \<exists>rest. received lab k @ rest = ms"
    and k: "received lab (Suc k) = ms" "after C n lab (Suc k) = Some s"
  shows "\<exists>j s'. after C n lab (Suc j) = Some s' \<and> sv_exited s'"
  using k
proof (induction "rank s" arbitrary: k s rule: less_induct)
  case less
  obtain j0 where j0: "j0 \<ge> Suc k" "lab j0 = Consumer 0" using fair by (auto simp: fair_schedule_def)
  have rec: "received lab (Suc (k + d)) = ms" for d
  proof (induction d)
    case (Suc d)
    obtain rest where "received lab (Suc (k + Suc d)) @ rest = ms" using lab(3) by blast
    then show ?case using Suc by (auto split: sched.splits if_splits)
  qed (use less.prems(1) in simp)
  have go: "(\<exists>s'. after C n lab (Suc (k + d)) = Some s' \<and> rank s' \<le> rank s)
      \<or> (\<exists>j s'. after C n lab (Suc j) = Some s' \<and> sv_exited s')" for d
  proof (induction d)
    case (Suc d)
    obtain s' where s': "after C n lab (Suc (k + d)) = Some s'" "on_track C n ms lab (Suc (k + d)) s'"
      using run_on_track[OF all small lab] by blast
    obtain s'' where s'': "after C n lab (Suc (k + Suc d)) = Some s''" using run_on_track[OF all small lab] by blast
    show ?case
    proof (cases "sv_exited s'")
      case False
      then have "rank s'' \<le> rank s'"
        using track_step[OF all small _ s'(2) _ rec[of d], of s''] rec[of "Suc d"] lab(2) s'(1) s'' after_Suc[of C n lab "Suc (k + d)"]
        by simp
      then show ?thesis using Suc s'(1) s'' by auto
    qed (use s'(1) in blast)
  qed (use less.prems(2) in auto)
  obtain d where d: "j0 = Suc (k + d)" using j0(1) by (metis add_Suc le_Suc_ex)
  obtain s' where s': "after C n lab j0 = Some s'" "on_track C n ms lab j0 s'"
    using run_on_track[OF all small lab] d by blast
  obtain s'' where s'': "after C n lab (Suc j0) = Some s''" using run_on_track[OF all small lab] by blast
  show ?case
  proof (cases "sv_exited s' \<or> \<not> rank s' \<le> rank s")
    case True
    then show ?thesis using go[of d] s'(1) d by auto
  next
    case False
    then have "rank s'' < rank s"
      using track_step[OF all small _ s'(2), of s''] rec[of d] rec[of "Suc d"] lab(2) s'(1) s'' after_Suc[of C n lab j0] j0(2) d
      by force
    then show ?thesis using less.hyps[of s'' j0] rec[of "Suc d"] s'' d by auto
  qed
qed

text \<open>C6: a server that accepts exactly one connection ends and writes its results once (with more connections it need not,
  \<open>exit_before_dump\<close>).  The consumer moves again and again,
  the main thread accepts one connection and puts the messages \<open>ms\<close> into its queue, in their order and
  interleaved with the consumer in any way.  If the flow of \<open>ms\<close> stops without a call of \<open>exit\<close>, the
  process reaches its \<open>exit\<close>; then \<open>dump_analysis\<close> has been called exactly once, and the analyses have
  done just what \<open>queue_consumer\<close> does for \<open>ms\<close>: no message is lost, doubled or reordered.\<close>

theorem server_terminates:
  assumes "queue_consumer C ms (new_connection 0 n [False]) = Some f" "\<not> fl_exited f" "flow_stopped f"
    and "length ms < 2 ^ 64" and "fair_schedule lab"
    and "lab 0 = Accept" "\<forall>k. lab (Suc k) \<noteq> Accept"
    and "\<forall>k. \<exists>rest. received lab k @ rest = ms" "received lab (Suc k) = ms"
  shows "\<exists>j s. run_sched C (map lab [0..<j]) (boot n) = Some s \<and> sv_exited s \<and> sv_dumps s = 1
    \<and> fl_actions (cn_flow (sv_threads_data s ! 0)) = fl_actions f"
proof -
  obtain s0 where "after C n lab (Suc k) = Some s0"
    using run_on_track[OF assms(1-4,6-8)] by blast
  then obtain j s where j: "after C n lab (Suc j) = Some s" "sv_exited s"
    using rank_leads_to_exit[OF assms(1-8) assms(9)] by blast
  have "on_track C n ms lab (Suc j) s" using run_on_track[OF assms(1-4,6-8)] j(1) by (metis option.inject)
  then show ?thesis using track_end[OF assms(1-3) _ j(2)] j unfolding after_def by blast
qed

lemma server_terminates_witness:
  "\<exists>j s. run_sched (plain_config (two_functions (Callee_Func 1)))
      (map (\<lambda>k. if k = 0 then Accept
         else if k = 1 then Receive 0 (BASICBLOCK_NOTIFICATION 0 0 0)
         else if k = 3 then Receive 0 (BASICBLOCK_NOTIFICATION 1 0 0)
         else if k = 4 then Receive 0 (MEM_ADDR_NOTIFICATION 1 0 0 64)
         else if k = 6 then Receive 0 END_APP_NOTIFICATION
         else Consumer 0) [0..<j]) (boot 1) = Some (s :: nat server)
    \<and> sv_exited s \<and> sv_dumps s = 1 \<and> length (fl_actions (cn_flow (sv_threads_data s ! 0))) = 7"
proof -
  let ?C = "plain_config (two_functions (Callee_Func 1))"
  let ?ms = "[BASICBLOCK_NOTIFICATION 0 0 0, BASICBLOCK_NOTIFICATION 1 0 0, MEM_ADDR_NOTIFICATION 1 0 0 64, END_APP_NOTIFICATION]
    :: nat flow_message list"
  define lab :: "nat \<Rightarrow> nat sched" where "lab k = (if k = 0 then Accept
         else if k = 1 then Receive 0 (BASICBLOCK_NOTIFICATION 0 0 0)
         else if k = 3 then Receive 0 (BASICBLOCK_NOTIFICATION 1 0 0)
         else if k = 4 then Receive 0 (MEM_ADDR_NOTIFICATION 1 0 0 64)
         else if k = 6 then Receive 0 END_APP_NOTIFICATION
         else Consumer 0)" for k
  define f where "f = the (queue_consumer ?C ?ms (new_connection 0 1 [False]))"
  have f: "queue_consumer ?C ?ms (new_connection 0 1 [False]) = Some f" "\<not> fl_exited f" "flow_stopped f"
    "length (fl_actions f) = 7"
    unfolding f_def by code_simp+
  have late: "received lab (7 + d) = ?ms" for d
  proof (induction d)
    case 0
    show ?case by (simp add: lab_def eval_nat_numeral)
  next
    case (Suc d)
    show ?case unfolding add_Suc_right received.simps Suc by (simp add: lab_def)
  qed
  have "\<exists>rest. received lab k @ rest = ?ms" for k
  proof (cases "k < 7")
    case True
    then have "k \<in> {0, 1, 2, 3, 4, 5, 6}" by auto
    then show ?thesis by (auto simp: lab_def eval_nat_numeral)
  next
    case False
    then show ?thesis using late[of "k - 7"] by simp
  qed
  moreover have "\<exists>j \<ge> k. lab j = Consumer 0" for k by (rule exI[of _ "k + 7"]) (simp add: lab_def)
  then have "fair_schedule lab" by (simp add: fair_schedule_def)
  moreover have "lab 0 = Accept" "\<forall>k. lab (Suc k) \<noteq> Accept" by (simp_all add: lab_def)
  moreover have "received lab (Suc 6) = ?ms" using late[of 0] by simp
  ultimately have "\<exists>j s. run_sched ?C (map lab [0..<j]) (boot 1) = Some s \<and> sv_exited s \<and> sv_dumps s = 1
      \<and> fl_actions (cn_flow (sv_threads_data s ! 0)) = fl_actions f"
    using server_terminates[OF f(1-3), of lab 6] by auto
  then show ?thesis using f(4) unfolding lab_def by force
qed

end
