(* ===== verification/Branch_Behavior.thy ===== *)
theory Branch_Behavior
  imports Cpp_Double "HOL-Library.Product_Lexorder"
begin

text \<open>
  \<open>branch-analysis/branchBehavior.cc\<close>: the predictability of the branches in a trace.  For every length of the
  history (\<open>windowSize\<close>) it counts the patterns of that many outcomes, and from these the entropy and the
  rates of correct prediction: for a table of unlimited size by several ways to count a pattern that is seen for the
  first time, and for tables of given sizes, which keep the most frequent patterns.

  The operations on \<open>double\<close> round; the logarithms \<open>log\<close> and \<open>log2\<close> of the C library, whose accuracy is not
  specified, are parameters.  Among patterns that occur equally often \<open>std::priority_queue\<close> may take any; here
  the queue is a sorted list.  The progress and DEBUG lines are left out, and the records of the input file
  come as a list.
\<close>

subsection \<open>Arithmetic on \<open>double\<close>\<close>

definition d_add :: "rat \<Rightarrow> rat \<Rightarrow> rat" where "d_add x y = round_double (x + y)"
definition d_sub :: "rat \<Rightarrow> rat \<Rightarrow> rat" where "d_sub x y = round_double (x - y)"
definition d_mul :: "rat \<Rightarrow> rat \<Rightarrow> rat" where "d_mul x y = round_double (x * y)"

definition d_div :: "rat \<Rightarrow> rat \<Rightarrow> dbl" where
  "d_div x y = (if y = 0 then None else Some (round_double (x / y)))"

definition d_u64 :: "u64 \<Rightarrow> rat" where "d_u64 n = round_double (u64_rat n)"

text \<open>The conversion to \<open>unsigned long long\<close>, for values in its range.\<close>

definition u64_of_double :: "rat \<Rightarrow> u64" where "u64_of_double x = of_int \<lfloor>x\<rfloor>"

subsection \<open>The inverse of the entropy\<close>

text \<open>Iteration \<open>i\<close> of the loop; \<open>lg2\<close> is \<open>log2\<close>.\<close>

definition inverse_entry :: "(rat \<Rightarrow> rat) \<Rightarrow> nat \<Rightarrow> nat \<Rightarrow> rat \<times> rat" where
  "inverse_entry lg2 maxi i =
    (let p = round_double (round_double (of_nat i / of_nat maxi) / 2); q = d_sub 1 p
     in (- d_add (d_mul p (lg2 p)) (d_mul q (lg2 q)), p))"

definition buildInverseEntropyTable :: "(rat \<Rightarrow> rat) \<Rightarrow> nat \<Rightarrow> (rat, rat) cmap" where
  "buildInverseEntropyTable lg2 maxi =
    mp_put 1 (1 / 2) (fold (\<lambda>i. case inverse_entry lg2 maxi i of (e, p) \<Rightarrow> mp_put e p) [1..<maxi] (mp_put 0 0 []))"

fun lower_bound :: "('k :: linorder, 'v) cmap \<Rightarrow> 'k \<Rightarrow> 'v option" where
  "lower_bound [] k = None"
| "lower_bound ((j, v) # m) k = (if k \<le> j then Some v else lower_bound m k)"

text \<open>\<open>None\<close>: the assertion fails.\<close>

definition inverseEntropy :: "(rat, rat) cmap \<Rightarrow> rat \<Rightarrow> rat option" where
  "inverseEntropy table entropy = (if \<not> (entropy \<ge> 0 \<and> entropy \<le> 1) then Some (-1) else lower_bound table entropy)"

subsection \<open>Patterns\<close>

definition outcome_bit :: "char \<Rightarrow> u64" where
  "outcome_bit c = of_int (int (of_char c) - int (of_char CHR ''0''))"

text \<open>The key of a window, computed from its outcomes, and from the key of the window before it.\<close>

definition window_key :: "nat \<Rightarrow> string \<Rightarrow> nat \<Rightarrow> u64" where
  "window_key w rs start = fold (\<lambda>i key. key + push_bit (w - i - 1) (outcome_bit (rs ! (start + i)))) [0..<w] 0"

definition next_key :: "nat \<Rightarrow> u64 \<Rightarrow> char \<Rightarrow> u64" where
  "next_key w key c = push_bit 1 (and key (not (push_bit (w - 1) 1))) + outcome_bit c"

definition pattern_step :: "nat \<Rightarrow> string \<Rightarrow> nat \<Rightarrow> u64 \<times> (u64, u64) cmap \<Rightarrow> u64 \<times> (u64, u64) cmap" where
  "pattern_step w rs start = (\<lambda>(key, m).
    let key = (if start = 0 then window_key w rs 0 else next_key w key (rs ! (start + w - 1))) in (key, mp_bump key m))"

text \<open>The loop over the trace: \<open>branchPatterns\<close>; \<open>count\<close> is the number of its iterations.\<close>

definition branch_patterns :: "nat \<Rightarrow> string \<Rightarrow> (u64, u64) cmap" where
  "branch_patterns w rs = snd (fold (pattern_step w rs) [0..<length rs + 1 - w] (0, []))"

definition window_count :: "nat \<Rightarrow> string \<Rightarrow> u64" where
  "window_count w rs = of_nat (length rs + 1 - w)"

subsection \<open>Entropy\<close>

text \<open>\<open>lg\<close> is \<open>log\<close>.\<close>

definition singleEntropyTerm :: "(rat \<Rightarrow> rat) \<Rightarrow> u64 \<Rightarrow> u64 \<Rightarrow> dbl" where
  "singleEntropyTerm lg cnt tot = do { p \<leftarrow> u64_ratio cnt tot; d_div (d_mul (- p) (lg p)) (lg 2) }"

fun entropy_sum :: "(rat \<Rightarrow> rat) \<Rightarrow> u64 \<Rightarrow> u64 list \<Rightarrow> rat \<Rightarrow> dbl" where
  "entropy_sum lg cnt [] e = Some e"
| "entropy_sum lg cnt (v # vs) e = do { t \<leftarrow> singleEntropyTerm lg v cnt; entropy_sum lg cnt vs (d_add e t) }"

text \<open>The entropy for a table of \<open>n\<close> entries: the \<open>n - 1\<close> most frequent patterns, and one for all the others.\<close>

definition limited_entropy :: "(rat \<Rightarrow> rat) \<Rightarrow> nat \<Rightarrow> u64 \<Rightarrow> u64 list \<Rightarrow> u64 \<Rightarrow> dbl" where
  "limited_entropy lg w cnt vals n = do {
     let top = take (unat n - 1) (rev (sort vals));
     e \<leftarrow> entropy_sum lg cnt top 0;
     let rest = cnt - sum_list top;
     if rest > 0 then do {
       p \<leftarrow> u64_ratio rest cnt;
       x \<leftarrow> d_div p (d_u64 (push_bit w 1 - n + 1));
       t \<leftarrow> d_div (d_mul p (lg x)) (lg 2);
       Some (d_sub e t) }
     else Some e }"

subsection \<open>Rates of prediction\<close>

datatype prediction_type = BASIC | SEEN_ONCE_05 | SEEN_FIRST_05 | SEEN_ONCE_DISCARDED | SEEN_FIRST_DISCARDED

record rate_computer =
  rc_count :: "prediction_type \<Rightarrow> rat"
  rc_total :: "prediction_type \<Rightarrow> rat"

definition PredictionRateComputer :: rate_computer where
  "PredictionRateComputer = \<lparr>rc_count = (\<lambda>_. 0), rc_total = (\<lambda>_. 0)\<rparr>"

definition add_rate :: "prediction_type \<Rightarrow> rat \<Rightarrow> rat \<Rightarrow> rate_computer \<Rightarrow> rate_computer" where
  "add_rate t c n s = s\<lparr>rc_count := (rc_count s)(t := d_add (rc_count s t) c),
     rc_total := (rc_total s)(t := d_add (rc_total s t) n)\<rparr>"

definition registerPattern :: "u64 \<Rightarrow> u64 \<Rightarrow> rate_computer \<Rightarrow> rate_computer" where
  "registerPattern count0 count1 s =
    (let mx = (if count0 > count1 then count0 else count1); tt = count0 + count1 in
     if tt = 0 then s
     else add_rate SEEN_FIRST_DISCARDED (round_double (d_mul (d_u64 mx) (d_u64 (tt - 1)) / d_u64 tt)) (d_u64 (tt - 1))
       (add_rate SEEN_ONCE_DISCARDED (d_u64 (if mx = 1 then 0 else mx)) (d_u64 (if mx = 1 then 0 else tt))
       (add_rate SEEN_FIRST_05 (d_sub (d_add (d_u64 mx) (1 / 2)) (round_double (d_u64 mx / d_u64 tt))) (d_u64 tt)
       (add_rate SEEN_ONCE_05 (if mx = 1 then 1 / 2 else d_u64 mx) (d_u64 tt)
       (add_rate BASIC (d_u64 mx) (d_u64 tt) s)))))"

definition predictionRate :: "rate_computer \<Rightarrow> prediction_type \<Rightarrow> rat" where
  "predictionRate s t = (if rc_total s t = 0 then -1 else round_double (rc_count s t / rc_total s t))"

subsection \<open>Tables of limited size\<close>

record history_pattern =
  count0 :: u64
  count1 :: u64

definition hp_total :: "history_pattern \<Rightarrow> u64" where
  "hp_total h = count0 h + count1 h"

definition hp_max :: "history_pattern \<Rightarrow> rat" where
  "hp_max h = (if hp_total h = 0 then 0
     else if count0 h > count1 h then d_sub (d_u64 (count0 h)) (1 / 2) else d_sub (d_u64 (count1 h)) (1 / 2))"

text \<open>The queue in the order of \<open>top\<close>: \<open>operator<\<close> is reversed, so the pattern that occurs least comes first.\<close>

definition q_push :: "history_pattern \<Rightarrow> history_pattern list \<Rightarrow> history_pattern list" where
  "q_push = insort_key hp_total"

text \<open>The queue with the counts that have left it.\<close>

record limited_table =
  lt_queue :: "history_pattern list"
  lt_agg0 :: rat
  lt_agg1 :: rat

definition lt_pop :: "limited_table \<Rightarrow> limited_table" where
  "lt_pop t = (case lt_queue t of [] \<Rightarrow> t
     | h # q \<Rightarrow> \<lparr>lt_queue = q, lt_agg0 = d_add (lt_agg0 t) (d_u64 (count0 h)),
         lt_agg1 = d_add (lt_agg1 t) (d_u64 (count1 h))\<rparr>)"

definition lt_push :: "u64 \<Rightarrow> history_pattern \<Rightarrow> limited_table \<Rightarrow> limited_table" where
  "lt_push maxSize h t = (let t = t\<lparr>lt_queue := q_push h (lt_queue t)\<rparr>
     in if of_nat (length (lt_queue t)) > maxSize then lt_pop t else t)"

text \<open>The loop that shrinks the table to \<open>n\<close> entries, with \<open>limitedPredictionRate\<close>.\<close>

fun shrink :: "u64 \<Rightarrow> history_pattern list \<Rightarrow> rat \<Rightarrow> rat \<Rightarrow> rat \<Rightarrow> limited_table \<times> rat" where
  "shrink n [] a0 a1 r = (\<lparr>lt_queue = [], lt_agg0 = a0, lt_agg1 = a1\<rparr>, r)"
| "shrink n (h # q) a0 a1 r =
    (if of_nat (length (h # q)) > n
     then shrink n q (d_add a0 (d_u64 (count0 h))) (d_add a1 (d_u64 (count1 h))) (d_sub r (hp_max h))
     else (\<lparr>lt_queue = h # q, lt_agg0 = a0, lt_agg1 = a1\<rparr>, r))"

record limited_rate =
  lr_nEntries :: u64
  lr_predictionRate :: rat
  lr_fractionStored :: rat

text \<open>For all sizes of the table, from the largest to the smallest.\<close>

fun limited_rates :: "u64 \<Rightarrow> u64 list \<Rightarrow> limited_table \<Rightarrow> rat \<Rightarrow> limited_rate list option" where
  "limited_rates cnt [] t r = Some []"
| "limited_rates cnt (n # ns) t r = (case shrink n (lt_queue t) (lt_agg0 t) (lt_agg1 t) r of (t, r) \<Rightarrow> do {
     let agg = \<lparr>count0 = u64_of_double (lt_agg0 t), count1 = u64_of_double (lt_agg1 t)\<rparr>;
     rate \<leftarrow> d_div (d_add r (hp_max agg)) (d_u64 cnt);
     lost \<leftarrow> d_div (d_add (lt_agg0 t) (lt_agg1 t)) (d_u64 cnt);
     rest \<leftarrow> limited_rates cnt ns t r;
     Some (\<lparr>lr_nEntries = n, lr_predictionRate = rate, lr_fractionStored = d_sub 1 lost\<rparr> # rest) })"

subsection \<open>The analysis of a sequence of outcomes\<close>

record window_info =
  wi_windowSize :: nat
  wi_entropy :: rat
  wi_difference :: rat
  wi_predictionRate :: "prediction_type \<Rightarrow> rat"
  wi_limitedPredictionRates :: "limited_rate list"
  wi_limitedEntropies :: "rat list"
  wi_nHistoryPatterns :: u64
  wi_nBranches0 :: u64
  wi_nBranches1 :: u64
  wi_nBranchesMore :: u64

fun collect :: "('a \<Rightarrow> 'b option) \<Rightarrow> 'a list \<Rightarrow> 'b list option" where
  "collect f [] = Some []"
| "collect f (x # xs) = do { y \<leftarrow> f x; ys \<leftarrow> collect f xs; Some (y # ys) }"

text \<open>The entropies for the patterns of length \<open>w\<close>; too many patterns end the program.\<close>

definition window_entropy :: "(rat \<Rightarrow> rat) \<Rightarrow> u64 list \<Rightarrow> nat \<Rightarrow> string \<Rightarrow> (u64, u64) cmap \<Rightarrow> rat \<Rightarrow> window_info option" where
  "window_entropy lg entries w rs patterns old =
    (if of_nat (length patterns) > (push_bit w 1 :: u64) then None else do {
       entropy \<leftarrow> entropy_sum lg (window_count w rs) (map snd patterns) 0;
       limited \<leftarrow> collect (limited_entropy lg w (window_count w rs) (map snd patterns)) (rev entries);
       let diff = d_sub entropy old;
       Some \<lparr>wi_windowSize = w, wi_entropy = entropy, wi_difference = (if diff < 0 then 0 else diff),
         wi_predictionRate = (\<lambda>_. 0), wi_limitedPredictionRates = [], wi_limitedEntropies = limited,
         wi_nHistoryPatterns = 0, wi_nBranches0 = 0, wi_nBranches1 = 0, wi_nBranchesMore = 0\<rparr> })"

text \<open>How often the outcomes 0 and 1 follow the patterns of the window before.\<close>

definition pattern_count :: "(u64, u64) cmap \<Rightarrow> u64 \<Rightarrow> u64" where
  "pattern_count patterns key = (case mp_get key patterns of None \<Rightarrow> 0 | Some n \<Rightarrow> n)"

definition followers :: "(u64, u64) cmap \<Rightarrow> (u64, u64) cmap \<Rightarrow> history_pattern list" where
  "followers prev patterns = map (\<lambda>(key, _). let key0 = push_bit 1 key; key1 = key0 + 1 in
     \<lparr>count0 = pattern_count patterns key0, count1 = pattern_count patterns key1\<rparr>) prev"

definition count_if :: "('a \<Rightarrow> bool) \<Rightarrow> 'a list \<Rightarrow> u64" where
  "count_if P xs = of_nat (length (filter P xs))"

text \<open>The counters of the loop over these patterns are sums over them.\<close>

definition window_rates :: "u64 list \<Rightarrow> (u64, u64) cmap \<Rightarrow> (u64, u64) cmap \<Rightarrow> window_info \<Rightarrow> window_info option" where
  "window_rates entries prev patterns info =
    (let hps = followers prev patterns;
         prc = fold (\<lambda>h. registerPattern (count0 h) (count1 h)) hps PredictionRateComputer;
         countPred = sum_list (map hp_total hps);
         table = fold (lt_push (last entries)) hps \<lparr>lt_queue = [], lt_agg0 = 0, lt_agg1 = 0\<rparr>;
         rate = fold (\<lambda>h r. d_add r (hp_max h)) (lt_queue table) 0
     in map_option (\<lambda>limited. info\<lparr>wi_limitedPredictionRates := limited, wi_predictionRate := predictionRate prc,
          wi_nHistoryPatterns := of_nat (length prev), wi_nBranches0 := count_if (\<lambda>h. hp_total h = 0) hps,
          wi_nBranches1 := count_if (\<lambda>h. hp_total h = 1) hps,
          wi_nBranchesMore := count_if (\<lambda>h. hp_total h > 1) hps\<rparr>)
        (limited_rates countPred (rev entries) table rate))"

text \<open>The loop over the window sizes, with \<open>k\<close> iterations left.\<close>

fun window_loop :: "(rat \<Rightarrow> rat) \<Rightarrow> nat \<Rightarrow> u64 list \<Rightarrow> string \<Rightarrow> nat \<Rightarrow> nat \<Rightarrow> (u64, u64) cmap \<Rightarrow> rat
    \<Rightarrow> window_info list \<Rightarrow> window_info list option" where
  "window_loop lg hbs entries rs 0 w prev old infos = Some infos"
| "window_loop lg hbs entries rs (Suc k) w prev old infos = do {
     let patterns = branch_patterns w rs;
     (infos, old) \<leftarrow> (if w \<le> hbs
        then map_option (\<lambda>i. (infos @ [i], wi_entropy i)) (window_entropy lg entries w rs patterns old)
        else Some (infos, old));
     infos \<leftarrow> (if w > 1
        then map_option (\<lambda>i. infos[w - 2 := i]) (window_rates entries prev patterns (infos ! (w - 2)))
        else Some infos);
     window_loop lg hbs entries rs k (Suc w) patterns old infos }"

text \<open>A shift by 64 is undefined.\<close>

definition computePredictionRate :: "(rat \<Rightarrow> rat) \<Rightarrow> nat \<Rightarrow> u64 list \<Rightarrow> string \<Rightarrow> window_info list option" where
  "computePredictionRate lg hbs entries rs =
    (if hbs \<ge> 64 then None else window_loop lg hbs (sort entries) rs (Suc hbs) 1 [] 0 [])"

subsection \<open>The program\<close>

text \<open>A branch is its function, block and instruction, and a condition, which is always 0.\<close>

type_synonym branch = "u32 \<times> u32 \<times> u32 \<times> u32"

definition branch_less :: "branch \<Rightarrow> branch \<Rightarrow> bool" where
  "branch_less x y = (case (x, y) of ((f, b, i, c), (f', b', i', c')) \<Rightarrow>
     if f < f' then True else if f > f' then False
     else if b < b' then True else if b > b' then False
     else if i < i' then True else if i > i' then False
     else if c < c' then True else if c > c' then False
     else False)"

lemma lex_step: "(if a < b then True else if a > b then False else P) = (a < b \<or> a = b \<and> P)" for a b :: "'a :: linorder"
  by auto

lemma branch_less_order: "branch_less x y = (x < y)" for x y :: branch
  by (cases x; cases y) (simp only: branch_less_def lex_step less_prod_simp prod.case order_le_less, blast)

definition nTableEntries :: "u64 list" where
  "nTableEntries = [8, 32, 64, 256, 512, 1024, 2 * 1024, 4 * 1024, 8 * 1024, 16 * 1024, 32 * 1024]"

text \<open>The loop that reads the trace; an outcome that is not 0 or 1 ends the program.\<close>

fun read_branches :: "bool \<Rightarrow> (u32 \<times> u32 \<times> u32 \<times> char) list \<Rightarrow> (branch, string) cmap \<Rightarrow> (branch, string) cmap option" where
  "read_branches isGlobal [] branches = Some branches"
| "read_branches isGlobal ((f, b, i, outcome) # es) branches =
    (if \<not> (outcome = CHR ''0'' \<or> outcome = CHR ''1'') then None
     else let tmp = (if isGlobal then (0, 0, 0, 0) else (f, b, i, 0)) in
       read_branches isGlobal es (mp_put tmp ((case mp_get tmp branches of None \<Rightarrow> [] | Some v \<Rightarrow> v) @ [outcome]) branches))"

text \<open>The branches with more outcomes than the history is long, with their number of outcomes.\<close>

definition analyse_branches :: "(rat \<Rightarrow> rat) \<Rightarrow> nat \<Rightarrow> (branch, string) cmap \<Rightarrow> (u64 \<times> window_info list) list option" where
  "analyse_branches lg hbs branches =
    collect (\<lambda>(_, rs). map_option (Pair (of_nat (length rs))) (computePredictionRate lg hbs nTableEntries rs))
      (filter (\<lambda>(_, rs). length rs > hbs) branches)"

text \<open>A sum over the branches, weighted by their number of outcomes.\<close>

definition weighted :: "(window_info \<Rightarrow> rat) \<Rightarrow> nat \<Rightarrow> (u64 \<times> window_info list) list \<Rightarrow> rat" where
  "weighted f win results = fold (\<lambda>(n, infos) acc. d_add acc (d_mul (f (infos ! win)) (d_u64 n))) results 0"

definition weighted_u64 :: "(window_info \<Rightarrow> u64) \<Rightarrow> nat \<Rightarrow> (u64 \<times> window_info list) list \<Rightarrow> rat" where
  "weighted_u64 f win results = fold (\<lambda>(n, infos) acc. d_add acc (d_u64 (f (infos ! win) * n))) results 0"

text \<open>The sums for the tables start with the values of the first branch.\<close>

definition weighted_limited :: "(limited_rate \<Rightarrow> rat) \<Rightarrow> nat \<Rightarrow> nat \<Rightarrow> (u64 \<times> window_info list) list \<Rightarrow> rat" where
  "weighted_limited f i win results =
    (let term = (\<lambda>(n, infos). d_mul (f (wi_limitedPredictionRates (infos ! win) ! i)) (d_u64 n)) in
     case results of [] \<Rightarrow> 0 | r # rs \<Rightarrow> fold (\<lambda>r acc. d_add acc (term r)) rs (term r))"

text \<open>A row of the output; \<open>None\<close> is a row with values that are no numbers.\<close>

definition output_row :: "(rat, rat) cmap \<Rightarrow> nat \<Rightarrow> (u64 \<times> window_info list) list \<Rightarrow> rat list option" where
  "output_row table win results =
    (let tot = d_u64 (sum_list (map fst results)); mean = (\<lambda>x. d_div x tot);
         rate = (\<lambda>t. map_option (d_sub 1) (mean (weighted (\<lambda>w. wi_predictionRate w t) win results)));
         inverse = fold (\<lambda>(n, infos) acc. do { a \<leftarrow> acc; e \<leftarrow> inverseEntropy table (wi_difference (infos ! win));
             Some (d_add a (d_mul e (d_u64 n))) }) results (Some 0);
         limited = concat (map (\<lambda>i. [map_option (d_sub 1) (mean (weighted_limited lr_predictionRate i win results)),
             map_option (d_sub 1) (mean (weighted_limited lr_fractionStored i win results))]) [0..<length nTableEntries])
     in collect id ([Some (of_nat (win + 1)), mean (weighted wi_entropy win results), mean (weighted wi_difference win results),
          mean (weighted wi_difference win results) \<bind> inverseEntropy table, inverse \<bind> mean]
        @ map rate [BASIC, SEEN_ONCE_05, SEEN_FIRST_05, SEEN_ONCE_DISCARDED, SEEN_FIRST_DISCARDED]
        @ limited
        @ map (\<lambda>f. mean (weighted_u64 f win results))
            [wi_nHistoryPatterns, wi_nBranches0, wi_nBranches1, wi_nBranchesMore]))"

definition branch_behavior :: "(rat \<Rightarrow> rat) \<Rightarrow> (rat \<Rightarrow> rat) \<Rightarrow> bool \<Rightarrow> nat \<Rightarrow> (u32 \<times> u32 \<times> u32 \<times> char) list
    \<Rightarrow> rat list option list option" where
  "branch_behavior lg lg2 isGlobal hbs events = do {
     branches \<leftarrow> read_branches isGlobal events [];
     results \<leftarrow> analyse_branches lg hbs branches;
     let table = buildInverseEntropyTable lg2 10000;
     Some (map (\<lambda>win. output_row table win results) [0..<hbs]) }"

end
