(* ===== verification/Branch_Behavior_Patterns.thy ===== *)
theory Branch_Behavior_Patterns
  imports Branch_Behavior
begin

text \<open>
  The patterns that \<open>computePredictionRate\<close> counts are the sequences of outcomes in the trace: the key that
  it updates from window to window reads the outcomes of the window, and the counter of a key is
  the number of the positions where they occur.
\<close>

subsection \<open>Keys\<close>

definition outcomes :: "string \<Rightarrow> bool" where
  "outcomes rs \<longleftrightarrow> set rs \<subseteq> {CHR ''0'', CHR ''1''}"

definition outcome_value :: "char \<Rightarrow> nat" where
  "outcome_value c = (if c = CHR ''1'' then 1 else 0)"

fun reading :: "string \<Rightarrow> nat" where
  "reading [] = 0"
| "reading (c # v) = outcome_value c * 2 ^ length v + reading v"

lemma outcome_bit_value: "c \<in> {CHR ''0'', CHR ''1''} \<Longrightarrow> outcome_bit c = of_nat (outcome_value c)"
  by (auto simp: outcome_bit_def outcome_value_def)

lemma outcomes_nth: "outcomes rs \<Longrightarrow> i < length rs \<Longrightarrow> rs ! i \<in> {CHR ''0'', CHR ''1''}"
  unfolding outcomes_def using nth_mem by blast

lemma reading_less: "reading v < 2 ^ length v"
  by (induction v) (simp_all add: outcome_value_def)

lemma reading_snoc: "reading (v @ [c]) = 2 * reading v + outcome_value c"
  by (induction v) (auto simp: algebra_simps)

lemma reading_inj:
  "length u = length v \<Longrightarrow> outcomes u \<Longrightarrow> outcomes v \<Longrightarrow> reading u = reading v \<Longrightarrow> u = v"
proof (induction u v rule: list_induct2)
  case (Cons c u d v)
  have "outcome_value c = outcome_value d \<and> reading u = reading v"
    using Cons.prems(3) reading_less[of u] reading_less[of v] Cons.hyps by (auto simp: outcome_value_def split: if_splits)
  then show ?case using Cons by (auto simp: outcomes_def outcome_value_def split: if_splits)
qed simp

text \<open>The key of a sequence of at most 64 outcomes determines it.\<close>

definition key_of :: "string \<Rightarrow> u64" where
  "key_of v = of_nat (reading v)"

lemma reading_64: "length v \<le> 64 \<Longrightarrow> reading v < 2 ^ 64"
  using reading_less[of v] power_increasing[of "length v" 64 "2 :: nat"] by simp

lemma key_inj:
  assumes "length u = length v" "length v \<le> 64" "outcomes u" "outcomes v" "key_of u = key_of v"
  shows "u = v"
  using reading_inj[OF assms(1,3,4)] of_nat_u64_inj[of "reading u" "reading v"] assms reading_64[of u] reading_64[of v]
  by (simp add: key_of_def)

lemma window_key_part:
  assumes "start + w \<le> length rs" "outcomes rs" "j \<le> w"
  shows "fold (\<lambda>i key. key + push_bit (w - i - 1) (outcome_bit (rs ! (start + i)))) [0..<j] 0
    = of_nat (2 ^ (w - j) * reading (take j (drop start rs)))"
  using assms(3)
proof (induction j)
  case (Suc j)
  let ?c = "rs ! (start + j)"
  have tk: "take (Suc j) (drop start rs) = take j (drop start rs) @ [?c]"
    using Suc.prems assms(1) by (simp add: take_Suc_conv_app_nth)
  have b: "outcome_bit ?c = of_nat (outcome_value ?c)"
    using Suc.prems assms(1) by (intro outcome_bit_value outcomes_nth[OF assms(2)]) simp
  have p: "(2 :: u64) ^ (w - j) = 2 * 2 ^ (w - Suc j)" using Suc.prems by (simp flip: power_Suc add: Suc_diff_Suc)
  show ?case using Suc by (simp add: b b[unfolded add.commute[of start j]] tk reading_snoc push_bit_eq_mult p algebra_simps)
qed simp

lemma window_key_reading:
  assumes "start + w \<le> length rs" "outcomes rs"
  shows "window_key w rs start = key_of (take w (drop start rs))"
  using window_key_part[OF assms, of w] by (simp add: window_key_def key_of_def)

lemma unset_top:
  assumes "y < 2 ^ Suc k" shows "and (of_nat y :: u64) (not (push_bit k 1)) = of_nat (y mod 2 ^ k)"
proof (rule bit_word_eqI)
  fix n assume n: "n < LENGTH(64)"
  have "y = take_bit (Suc k) y" using assms by (simp add: take_bit_nat_eq_self)
  then have "bit y n \<Longrightarrow> n < Suc k" by (metis bit_take_bit_iff)
  then show "bit (and (of_nat y :: u64) (not (push_bit k 1))) n = bit (of_nat (y mod 2 ^ k) :: u64) n"
    using n by (auto simp: bit_simps simp flip: take_bit_eq_mod)
qed

lemma next_key_reading:
  assumes "length v = w - 1" "1 \<le> w" "c \<in> {CHR ''0'', CHR ''1''}"
  shows "next_key w (key_of (d # v)) c = key_of (v @ [c])"
proof -
  have "reading (d # v) < 2 ^ Suc (w - 1)" using reading_less[of "d # v"] assms(1) by simp
  moreover have "reading (d # v) mod 2 ^ (w - 1) = reading v"
    using reading_less[of v] assms(1) by simp
  ultimately have "and (key_of (d # v)) (not (push_bit (w - 1) 1)) = of_nat (reading v)"
    by (metis key_of_def unset_top)
  then show ?thesis
    by (simp add: next_key_def outcome_bit_value[OF assms(3)] key_of_def reading_snoc push_bit_eq_mult)
qed

subsection \<open>The loop over the trace\<close>

text \<open>The window at a position, and the number of the positions before \<open>n\<close> with a certain key.\<close>

definition window :: "nat \<Rightarrow> string \<Rightarrow> nat \<Rightarrow> string" where
  "window w rs s = take w (drop s rs)"

definition key_positions :: "nat \<Rightarrow> string \<Rightarrow> nat \<Rightarrow> u64 \<Rightarrow> nat" where
  "key_positions w rs n k = length (filter (\<lambda>s. key_of (window w rs s) = k) [0..<n])"

lemma outcomes_window: "outcomes rs \<Longrightarrow> outcomes (window w rs s)"
  by (auto simp: outcomes_def window_def dest!: in_set_takeD in_set_dropD)

lemma window_step:
  assumes "outcomes rs" "1 \<le> w" "s + w \<le> length rs"
  shows "(if s = 0 then window_key w rs 0 else next_key w (key_of (window w rs (s - 1))) (rs ! (s + w - 1)))
    = key_of (window w rs s)"
proof (cases s)
  case 0
  then show ?thesis using window_key_reading[of 0 w rs] assms by (simp add: window_def)
next
  case (Suc r)
  let ?v = "take (w - 1) (drop s rs)"
  have d: "drop r rs = rs ! r # drop s rs" using assms(3) Suc by (simp add: Cons_nth_drop_Suc)
  have "window w rs r = rs ! r # ?v" using assms(2) by (simp add: window_def d take_Cons')
  moreover have "window w rs s = ?v @ [rs ! (s + w - 1)]"
    using take_Suc_conv_app_nth[of "w - 1" "drop s rs"] assms(2,3) by (simp add: window_def)
  moreover have "rs ! (s + w - 1) \<in> {CHR ''0'', CHR ''1''}"
    using assms by (intro outcomes_nth) simp_all
  moreover have "length ?v = w - 1" using assms(3) by simp
  ultimately show ?thesis using next_key_reading[of ?v w "rs ! (s + w - 1)" "rs ! r"] assms(2) Suc by simp
qed

lemma pattern_loop:
  assumes "outcomes rs" "1 \<le> w" "n + w \<le> length rs + 1"
  shows "\<exists>key m. fold (pattern_step w rs) [0..<n] (0, []) = (key, m) \<and> mp_ok m
    \<and> (0 < n \<longrightarrow> key = key_of (window w rs (n - 1)))
    \<and> (\<forall>k. mp_get k m = (if key_positions w rs n k = 0 then None else Some (of_nat (key_positions w rs n k))))"
  using assms(3)
proof (induction n)
  case (Suc n)
  then obtain key m where m: "fold (pattern_step w rs) [0..<n] (0, []) = (key, m)" "mp_ok m"
    "0 < n \<longrightarrow> key = key_of (window w rs (n - 1))"
    "\<forall>k. mp_get k m = (if key_positions w rs n k = 0 then None else Some (of_nat (key_positions w rs n k)))" by auto
  have k: "(if n = 0 then window_key w rs 0 else next_key w key (rs ! (n + w - 1))) = key_of (window w rs n)"
    using window_step[OF assms(1,2), of n] m(3) Suc.prems by (cases "n = 0") simp_all
  have "pattern_step w rs n (key, m) = (key_of (window w rs n), mp_bump (key_of (window w rs n)) m)"
    using k by (simp add: pattern_step_def Let_def)
  then have step: "fold (pattern_step w rs) [0..<Suc n] (0, []) = (key_of (window w rs n), mp_bump (key_of (window w rs n)) m)"
    using m(1) by simp
  have pos: "key_positions w rs (Suc n) k = (if key_of (window w rs n) = k then Suc (key_positions w rs n k)
      else key_positions w rs n k)" for k by (simp add: key_positions_def)
  show ?case unfolding step using m(2,4) by (auto simp: pos mp_get_bump)
qed (simp add: key_positions_def)

subsection \<open>Histories\<close>

text \<open>The sequences of \<open>w\<close> outcomes in a trace, how often one occurs, and how often an outcome follows it.\<close>

definition histories :: "nat \<Rightarrow> string \<Rightarrow> string set" where
  "histories w rs = window w rs ` {..length rs - w}"

definition occurrences :: "string \<Rightarrow> string \<Rightarrow> nat" where
  "occurrences v rs = length (filter (\<lambda>s. window (length v) rs s = v) [0..<length rs + 1 - length v])"

definition followed :: "string \<Rightarrow> string \<Rightarrow> nat" where
  "followed v rs = length (filter (\<lambda>s. window (length v) rs s = v) [0..<length rs - length v])"

lemma length_window: "s + w \<le> length rs \<Longrightarrow> length (window w rs s) = w"
  by (simp add: window_def)

lemma histories_length: "v \<in> histories w rs \<Longrightarrow> w \<le> length rs \<Longrightarrow> length v = w"
  by (auto simp: histories_def length_window)

lemma histories_outcomes: "v \<in> histories w rs \<Longrightarrow> outcomes rs \<Longrightarrow> outcomes v"
  by (auto simp: histories_def outcomes_window)

lemma finite_histories [simp]: "finite (histories w rs)"
  by (simp add: histories_def)

lemma occurrences_followed:
  assumes "w \<le> length rs" "length v = w"
  shows "occurrences v rs = followed v rs + (if window w rs (length rs - w) = v then 1 else 0)"
proof -
  have "length rs + 1 - w = Suc (length rs - w)" using assms(1) by simp
  then show ?thesis using assms(2) by (simp add: occurrences_def followed_def)
qed

lemma occurrences_pos: "v \<in> histories w rs \<Longrightarrow> w \<le> length rs \<Longrightarrow> 0 < occurrences v rs"
  by (fastforce simp: histories_def occurrences_def filter_empty_conv length_window)

lemma branch_patterns_facts:
  assumes "outcomes rs" "1 \<le> w" "w \<le> 64" "w \<le> length rs"
  shows "mp_ok (branch_patterns w rs)"
    and "length v = w \<Longrightarrow> outcomes v \<Longrightarrow> pattern_count (branch_patterns w rs) (key_of v) = of_nat (occurrences v rs)"
    and "mp_keys (branch_patterns w rs) = key_of ` histories w rs"
proof -
  let ?n = "length rs + 1 - w"
  obtain key m where fm: "fold (pattern_step w rs) [0..<?n] (0, []) = (key, m)" and m: "mp_ok m"
    "\<forall>k. mp_get k m = (if key_positions w rs ?n k = 0 then None else Some (of_nat (key_positions w rs ?n k)))"
    using pattern_loop[OF assms(1,2), of ?n] assms(4) by auto
  then have bp: "branch_patterns w rs = m" by (simp add: branch_patterns_def)
  show "mp_ok (branch_patterns w rs)" using m bp by simp
  show "pattern_count (branch_patterns w rs) (key_of v) = of_nat (occurrences v rs)" if v: "length v = w" "outcomes v"
  proof -
    have "key_of (window w rs s) = key_of v \<longleftrightarrow> window w rs s = v" if "s \<in> set [0..<?n]" for s
      using key_inj[of "window w rs s" v] that v assms outcomes_window[OF assms(1)] by (auto simp: length_window)
    then have "filter (\<lambda>s. key_of (window w rs s) = key_of v) [0..<?n] = filter (\<lambda>s. window w rs s = v) [0..<?n]"
      by (intro filter_cong[OF refl])
    then have "key_positions w rs ?n (key_of v) = occurrences v rs"
      by (simp only: key_positions_def occurrences_def v(1))
    then show ?thesis using m(2) bp by (simp add: pattern_count_def)
  qed
  have "k \<in> mp_keys m \<longleftrightarrow> 0 < key_positions w rs ?n k" for k
    using m(2) mp_get_None_iff[of k m] by (auto split: if_splits)
  moreover have "0 < key_positions w rs ?n k \<longleftrightarrow> k \<in> key_of ` histories w rs" for k
  proof -
    have "histories w rs = window w rs ` {..<?n}" using assms(4) by (auto simp: histories_def)
    then show ?thesis by (auto simp: key_positions_def filter_empty_conv)
  qed
  ultimately show "mp_keys (branch_patterns w rs) = key_of ` histories w rs" using bp by blast
qed

subsection \<open>What follows a history\<close>

lemma key_snoc: "c \<in> {CHR ''0'', CHR ''1''} \<Longrightarrow> key_of (v @ [c]) = push_bit 1 (key_of v) + outcome_bit c"
  by (simp add: key_of_def reading_snoc push_bit_eq_mult outcome_bit_value)

lemma length_filter_split: "length (filter P xs) = length (filter (\<lambda>x. P x \<and> Q x) xs) + length (filter (\<lambda>x. P x \<and> \<not> Q x) xs)"
  by (induction xs) auto

lemma followed_split:
  assumes "outcomes rs" "length v < length rs"
  shows "followed v rs = occurrences (v @ ''0'') rs + occurrences (v @ ''1'') rs"
proof -
  let ?w = "length v" and ?n = "length rs - length v"
  have win: "window (Suc ?w) rs s = v @ [c] \<longleftrightarrow> window ?w rs s = v \<and> rs ! (s + ?w) = c" if "s < ?n" for s c
    using that take_Suc_conv_app_nth[of ?w "drop s rs"] by (simp add: window_def)
  have "length rs + 1 - Suc ?w = ?n" by simp
  then have occ: "occurrences (v @ [c]) rs = length (filter (\<lambda>s. window ?w rs s = v \<and> rs ! (s + ?w) = c) [0..<?n])" for c
    unfolding occurrences_def using win by (auto intro!: arg_cong[where f = length] filter_cong)
  have "(window ?w rs s = v \<and> rs ! (s + ?w) \<noteq> CHR ''0'') = (window ?w rs s = v \<and> rs ! (s + ?w) = CHR ''1'')"
    if "s \<in> set [0..<?n]" for s
    using outcomes_nth[OF assms(1), of "s + ?w"] that by auto
  then have "filter (\<lambda>s. window ?w rs s = v \<and> rs ! (s + ?w) \<noteq> CHR ''0'') [0..<?n]
      = filter (\<lambda>s. window ?w rs s = v \<and> rs ! (s + ?w) = CHR ''1'') [0..<?n]" by (rule filter_cong[OF refl])
  then show ?thesis
    using length_filter_split[of "\<lambda>s. window ?w rs s = v" "[0..<?n]" "\<lambda>s. rs ! (s + ?w) = CHR ''0''"]
    by (simp add: followed_def occ)
qed

definition outcome_counts :: "string \<Rightarrow> string \<Rightarrow> history_pattern" where
  "outcome_counts rs v = \<lparr>count0 = of_nat (occurrences (v @ ''0'') rs), count1 = of_nat (occurrences (v @ ''1'') rs)\<rparr>"

lemma preimage_list:
  assumes "distinct ks" "set ks = f ` A" "inj_on f A"
  shows "\<exists>vs. distinct vs \<and> set vs = A \<and> map f vs = ks"
proof (intro exI conjI)
  let ?vs = "map (inv_into A f) ks"
  have "f (inv_into A f k) = k" if "k \<in> set ks" for k using that assms(2) by (simp add: f_inv_into_f)
  then show "map f ?vs = ks" by (simp add: map_idI)
  show "distinct ?vs" using assms by (simp add: distinct_map inj_on_inv_into)
  show "set ?vs = A" using assms by (simp add: inv_into_image_cancel)
qed

lemma followers_eq:
  assumes "outcomes rs" "1 \<le> w" "w < 64" "w < length rs"
  shows "\<exists>vs. distinct vs \<and> set vs = histories w rs
    \<and> followers (branch_patterns w rs) (branch_patterns (Suc w) rs) = map (outcome_counts rs) vs"
proof -
  note now = branch_patterns_facts[OF assms(1,2)]
  note nxt = branch_patterns_facts(2)[OF assms(1), of "Suc w"]
  have inj: "inj_on key_of (histories w rs)"
    using assms key_inj histories_length histories_outcomes by (intro inj_onI) (metis less_imp_le_nat)
  have "mp_ok (branch_patterns w rs)" "set (map fst (branch_patterns w rs)) = key_of ` histories w rs"
    using now(1,3) assms by (simp_all add: mp_keys_def)
  then obtain vs where vs: "distinct vs" "set vs = histories w rs" "map key_of vs = map fst (branch_patterns w rs)"
    using preimage_list[of "map fst (branch_patterns w rs)", OF _ _ inj] by (auto simp: mp_ok_def strict_sorted_iff)
  have cnt: "pattern_count (branch_patterns (Suc w) rs) (push_bit 1 (key_of v) + outcome_bit c) = of_nat (occurrences (v @ [c]) rs)"
    if "v \<in> set vs" "c \<in> {CHR ''0'', CHR ''1''}" for v c
    using nxt[of "v @ [c]"] that assms vs(2) histories_length[of v w rs] histories_outcomes[of v w rs]
    by (simp add: key_snoc outcomes_def)
  have "outcome_bit CHR ''0'' = 0" "outcome_bit CHR ''1'' = 1" by (simp_all add: outcome_bit_def)
  then have "\<lparr>count0 = pattern_count (branch_patterns (Suc w) rs) (push_bit 1 (key_of v)),
      count1 = pattern_count (branch_patterns (Suc w) rs) (push_bit 1 (key_of v) + 1)\<rparr> = outcome_counts rs v"
    if "v \<in> set vs" for v
    using cnt[OF that, of "CHR ''0''"] cnt[OF that, of "CHR ''1''"] by (simp add: outcome_counts_def)
  then have "map (outcome_counts rs) vs = map (\<lambda>k. \<lparr>count0 = pattern_count (branch_patterns (Suc w) rs) (push_bit 1 k),
      count1 = pattern_count (branch_patterns (Suc w) rs) (push_bit 1 k + 1)\<rparr>) (map key_of vs)" by simp
  also have "\<dots> = followers (branch_patterns w rs) (branch_patterns (Suc w) rs)"
    unfolding vs(3) by (simp add: followers_def Let_def case_prod_unfold)
  finally show ?thesis using vs(1,2) by metis
qed

end
