(* ===== verification/Branch_Behavior_Rates.thy ===== *)
theory Branch_Behavior_Rates
  imports Branch_Behavior_Patterns
begin

text \<open>
  The analysis returns, with no division by zero, and its loop over the window sizes gives for every length of the
  history the entropies of its patterns and the rates of its patterns and those that are one longer.
\<close>

subsection \<open>Counters as \<open>double\<close>\<close>

lemma d_u64_nat: "n < 2 ^ 53 \<Longrightarrow> d_u64 (of_nat n) = of_nat n"
  by (simp add: d_u64_def u64_rat_def round_double_nat unsigned_of_nat take_bit_nat_eq_self)

lemma of_nat_u64_nz: "0 < n \<Longrightarrow> n < 2 ^ 64 \<Longrightarrow> (of_nat n :: u64) \<noteq> 0"
  using of_nat_u64_inj[of n 0] by auto

lemma d_add_nat: "m + n < 2 ^ 53 \<Longrightarrow> d_add (of_nat m) (of_nat n) = of_nat (m + n)"
  using round_double_nat[of "m + n"] by (simp add: d_add_def)

lemma round_double_ge_1: "1 \<le> x \<Longrightarrow> 1 \<le> round_double x"
  using round_double_mono[of 1 x] round_double_nat[of 1] by simp

lemma d_u64_pos: "n \<noteq> 0 \<Longrightarrow> 1 \<le> d_u64 n"
  using u64_rat_pos[of n] by (simp add: d_u64_def round_double_ge_1)

lemma u64_ratio_pos:
  assumes "a \<noteq> 0" "b \<noteq> 0"
  shows "\<exists>p. u64_ratio a b = Some p"
  using assms by (simp add: u64_ratio_def)

subsection \<open>The sums over all patterns\<close>

lemma sum_list_occurrences:
  assumes "outcomes rs" "w < length rs" "distinct vs" "set vs = histories w rs"
  shows "sum_list (map (\<lambda>v. followed v rs) vs) = length rs - w"
proof -
  have "(\<Sum>v\<in>histories w rs. length (filter (\<lambda>s. window w rs s = v) xs)) = length xs"
    if "set xs \<subseteq> {..length rs - w}" for xs
    using that
  proof (induction xs)
    case (Cons x xs)
    have "window w rs x \<in> histories w rs" using Cons.prems by (auto simp: histories_def)
    then have "(\<Sum>v\<in>histories w rs. (if window w rs x = v then 1 else 0)) = (1 :: nat)" by simp
    moreover have "length (filter (\<lambda>s. window w rs s = v) (x # xs)) = (if window w rs x = v then 1 else 0)
        + length (filter (\<lambda>s. window w rs s = v) xs)" for v by simp
    ultimately show ?case using Cons by (simp only: sum.distrib) simp
  qed simp
  from this[of "[0..<length rs - w]"] have "(\<Sum>v\<in>histories w rs. followed v rs) = length rs - w"
    using assms(2) histories_length[of _ w rs] by (simp add: followed_def subset_iff cong: sum.cong)
  then show ?thesis using assms(3,4) by (simp add: sum_list_distinct_conv_sum_set)
qed

lemma branch_patterns_total:
  assumes "1 \<le> w" "w \<le> length rs"
  shows "mp_total (branch_patterns w rs) = window_count w rs"
proof -
  have "mp_ok (snd (fold (pattern_step w rs) xs (key, m))) \<and>
      mp_total (snd (fold (pattern_step w rs) xs (key, m))) = mp_total m + of_nat (length xs)" if "mp_ok m" for xs key m
    using that by (induction xs arbitrary: key m) (simp_all add: pattern_step_def Let_def)
  from this[of "[]"] show ?thesis by (simp add: branch_patterns_def window_count_def mp_total_def)
qed

lemma branch_patterns_length:
  assumes "outcomes rs" "1 \<le> w" "w \<le> 64" "w \<le> length rs"
  shows "length (branch_patterns w rs) = card (histories w rs)" and "card (histories w rs) \<le> 2 ^ w"
proof -
  have inj: "inj_on key_of (histories w rs)"
    using assms key_inj histories_length histories_outcomes by (intro inj_onI) metis
  show "length (branch_patterns w rs) = card (histories w rs)"
    using mp_length[OF branch_patterns_facts(1)[OF assms]] branch_patterns_facts(3)[OF assms] card_image[OF inj] by simp
  have "inj_on reading (histories w rs)"
    using assms reading_inj histories_length histories_outcomes by (intro inj_onI) metis
  moreover have "reading ` histories w rs \<subseteq> {..<2 ^ w}"
    using reading_less histories_length assms(4) by fastforce
  ultimately show "card (histories w rs) \<le> 2 ^ w"
    using card_image card_mono[of "{..<2 ^ w}" "reading ` histories w rs"] by fastforce
qed

subsection \<open>The analysis returns\<close>

lemma entropy_sum_returns: "cnt \<noteq> 0 \<Longrightarrow> lg 2 \<noteq> 0 \<Longrightarrow> \<exists>e'. entropy_sum lg cnt vs e = Some e'"
  by (induction vs arbitrary: e) (simp_all add: singleEntropyTerm_def u64_ratio_def d_div_def)

lemma sum_list_sort: "sum_list (sort xs) = sum_list (xs :: u64 list)"
proof -
  have "sum_list (insort x ys) = x + sum_list ys" for x :: u64 and ys by (induction ys) (simp_all add: add.left_commute)
  then show ?thesis by (induction xs) simp_all
qed

lemma unat_push_1:
  assumes "w < 64" shows "unat (push_bit w 1 :: u64) = 2 ^ w"
proof -
  have "(2 :: nat) ^ w < 2 ^ 64" using assms by (intro power_strict_increasing) simp_all
  then show ?thesis
    using take_bit_nat_eq_self[of "2 ^ w" 64] unsigned_of_nat[where 'a = nat and 'b = 64, of "2 ^ w"]
    by (simp add: push_bit_eq_mult)
qed

lemma space_left:
  assumes "unat n \<le> 2 ^ w" "w < 64"
  shows "push_bit w 1 - n + 1 \<noteq> (0 :: u64)"
proof
  assume "push_bit w 1 - n + 1 = (0 :: u64)"
  then have "push_bit w 1 - n = (-1 :: u64)" by (simp add: eq_neg_iff_add_eq_0)
  moreover have "unat (push_bit w 1 - n) \<le> 2 ^ w" using assms(1) unat_push_1[OF assms(2)] by (simp add: unat_sub word_le_nat_alt)
  ultimately have "unat (-1 :: u64) \<le> 2 ^ w" by simp
  moreover have "unat (-1 :: u64) = 2 ^ 64 - 1" by (simp add: unsigned_minus_1_eq_mask mask_eq_exp_minus_1)
  moreover have "(2 :: nat) ^ w \<le> 2 ^ 63" using assms(2) by (intro power_increasing) simp_all
  ultimately show False by simp
qed

text \<open>If something is left for the last entry of a table of \<open>n\<close> entries, there are at least \<open>n\<close> patterns.\<close>

lemma limited_entropy_returns:
  assumes "cnt \<noteq> 0" "lg 2 \<noteq> 0" "sum_list vals = cnt" "length vals \<le> 2 ^ w" "w < 64"
  shows "\<exists>e. limited_entropy lg w cnt vals n = Some e"
proof -
  let ?top = "take (unat n - 1) (rev (sort vals))"
  obtain e where e: "entropy_sum lg cnt ?top 0 = Some e" using entropy_sum_returns[of cnt lg] assms(1,2) by blast
  have dom: "d_u64 (push_bit w 1 - n + 1) \<noteq> 0" if "cnt - sum_list ?top \<noteq> 0"
  proof -
    have "unat n \<le> 2 ^ w"
    proof (rule ccontr)
      assume "\<not> unat n \<le> 2 ^ w"
      then have "?top = rev (sort vals)" using assms(4) by simp
      then have "sum_list ?top = sum_list vals" by (simp add: sum_list_rev sum_list_sort)
      then show False using that assms(3) by simp
    qed
    from space_left[OF this assms(5)] have "push_bit w 1 - n + 1 \<noteq> 0" .
    then show ?thesis using d_u64_pos by fastforce
  qed
  show ?thesis
  proof (cases "cnt = sum_list ?top")
    case False
    then show ?thesis using assms(1,2) dom e by (simp add: limited_entropy_def u64_ratio_def d_div_def Let_def)
  qed (use e in \<open>simp add: limited_entropy_def\<close>)
qed

lemma collect_returns: "(\<And>x. x \<in> set xs \<Longrightarrow> \<exists>y. f x = Some y) \<Longrightarrow> \<exists>ys. collect f xs = Some ys"
proof (induction xs)
  case (Cons x xs)
  obtain y where "f x = Some y" using Cons.prems by auto
  moreover obtain ys where "collect f xs = Some ys" using Cons by auto
  ultimately show ?case by simp
qed simp

lemma window_entropy_returns:
  assumes "outcomes rs" "1 \<le> w" "w < 64" "w < length rs" "length rs < 2 ^ 64" "lg 2 \<noteq> 0"
  shows "\<exists>i. window_entropy lg entries w rs (branch_patterns w rs) old = Some i"
proof -
  let ?m = "branch_patterns w rs" and ?n = "window_count w rs"
  have len: "length ?m \<le> 2 ^ w" using branch_patterns_length[OF assms(1,2)] assms by simp
  have few: "\<not> of_nat (length ?m) > (push_bit w 1 :: u64)"
  proof -
    have "length ?m = unat (of_nat (length ?m) :: u64)"
      using len power_strict_increasing[of w 64 "2 :: nat"] assms(3) by (simp add: unsigned_of_nat take_bit_nat_eq_self)
    then show ?thesis using len unat_push_1[OF assms(3)] by (simp add: not_less word_le_nat_alt)
  qed
  have n: "?n \<noteq> 0" unfolding window_count_def by (rule of_nat_u64_nz) (use assms in linarith)+
  have total: "sum_list (map snd ?m) = ?n"
    using branch_patterns_total[OF assms(2), of rs] assms(4) by (simp add: mp_total_def)
  have "\<exists>ys. collect (limited_entropy lg w ?n (map snd ?m)) (rev entries) = Some ys"
    by (rule collect_returns) (use limited_entropy_returns[of ?n lg, OF n assms(6) total] len assms(3) in simp)
  moreover have "\<exists>e. entropy_sum lg ?n (map snd ?m) 0 = Some e" by (rule entropy_sum_returns[of ?n lg, OF n assms(6)])
  ultimately show ?thesis using few by (auto simp: window_entropy_def Let_def)
qed

lemma limited_rates_returns: "d_u64 cnt \<noteq> 0 \<Longrightarrow> \<exists>l. limited_rates cnt ns t r = Some l"
proof (induction ns arbitrary: t r)
  case (Cons n ns)
  obtain t1 r1 where "shrink n (lt_queue t) (lt_agg0 t) (lt_agg1 t) r = (t1, r1)" by fastforce
  moreover obtain l where "limited_rates cnt ns t1 r1 = Some l" using Cons by blast
  ultimately show ?case using Cons.prems by (simp add: d_div_def Let_def)
qed simp

lemma unat_occurrences: "length rs < 2 ^ 64 \<Longrightarrow> unat (of_nat (occurrences v rs) :: u64) = occurrences v rs" if "v \<noteq> []"
proof -
  assume "length rs < 2 ^ 64"
  moreover have "occurrences v rs \<le> length rs + 1 - length v"
    unfolding occurrences_def by (metis length_filter_le length_upt diff_zero)
  moreover have "1 \<le> length v" using that by (cases v) simp_all
  ultimately have "occurrences v rs < 2 ^ 64" by linarith
  then show ?thesis by (simp add: unsigned_of_nat take_bit_nat_eq_self)
qed

text \<open>The number of predictions is that of the outcomes that have a history.\<close>

lemma hp_total_counts:
  assumes "outcomes rs" "length v < length rs"
  shows "hp_total (outcome_counts rs v) = of_nat (followed v rs)"
  by (simp add: hp_total_def outcome_counts_def followed_split[OF assms])

lemma sum_list_of_nat: "sum_list (map (\<lambda>v. of_nat (f v) :: u64) vs) = of_nat (sum_list (map f vs))"
  by (induction vs) simp_all

lemma predictions_total:
  assumes "outcomes rs" "w < length rs" "distinct vs" "set vs = histories w rs"
  shows "sum_list (map hp_total (map (outcome_counts rs) vs)) = of_nat (length rs - w)"
proof -
  have "map hp_total (map (outcome_counts rs) vs) = map (\<lambda>v. of_nat (followed v rs)) vs"
    using hp_total_counts[OF assms(1)] histories_length[of _ w rs] assms(2,4) by simp
  then show ?thesis by (simp only: sum_list_of_nat sum_list_occurrences[OF assms])
qed

lemma window_rates_returns:
  assumes "outcomes rs" "1 \<le> w" "w < 64" "w < length rs" "length rs < 2 ^ 64"
  shows "\<exists>i. window_rates entries (branch_patterns w rs) (branch_patterns (Suc w) rs) info = Some i"
proof -
  obtain vs where vs: "distinct vs" "set vs = histories w rs"
    "followers (branch_patterns w rs) (branch_patterns (Suc w) rs) = map (outcome_counts rs) vs"
    using followers_eq[OF assms(1-4)] by blast
  have "(of_nat (length rs - w) :: u64) \<noteq> 0" by (rule of_nat_u64_nz) (use assms in linarith)+
  then have "d_u64 (sum_list (map hp_total (map (outcome_counts rs) vs))) \<noteq> 0"
    using predictions_total[OF assms(1,4) vs(1,2)] d_u64_pos by fastforce
  from limited_rates_returns[OF this] show ?thesis by (simp add: window_rates_def Let_def vs(3) split: option.split)
qed

subsection \<open>The loop over the window sizes\<close>

definition window_done :: "(rat \<Rightarrow> rat) \<Rightarrow> u64 list \<Rightarrow> string \<Rightarrow> nat \<Rightarrow> window_info \<Rightarrow> bool" where
  "window_done lg entries rs w i \<longleftrightarrow> (\<exists>old i0. window_entropy lg entries w rs (branch_patterns w rs) old = Some i0
    \<and> window_rates entries (branch_patterns w rs) (branch_patterns (Suc w) rs) i0 = Some i)"

definition windows_before :: "(rat \<Rightarrow> rat) \<Rightarrow> nat \<Rightarrow> u64 list \<Rightarrow> string \<Rightarrow> nat \<Rightarrow> (u64, u64) cmap \<Rightarrow> window_info list \<Rightarrow> bool" where
  "windows_before lg hbs entries rs w prev infos \<longleftrightarrow> length infos = min (w - 1) hbs
    \<and> (1 < w \<longrightarrow> w \<le> Suc hbs \<longrightarrow> prev = branch_patterns (w - 1) rs
        \<and> (\<exists>old. window_entropy lg entries (w - 1) rs (branch_patterns (w - 1) rs) old = Some (infos ! (w - 2))))
    \<and> (\<forall>u. 1 \<le> u \<longrightarrow> u < w - 1 \<longrightarrow> window_done lg entries rs u (infos ! (u - 1)))"

lemma window_loop_ok:
  assumes "outcomes rs" "hbs < 64" "hbs < length rs" "length rs < 2 ^ 64" "lg 2 \<noteq> 0"
    and "k + w = hbs + 2" "1 \<le> w" "windows_before lg hbs entries rs w prev infos"
  shows "\<exists>infos'. window_loop lg hbs entries rs k w prev old infos = Some infos'
    \<and> windows_before lg hbs entries rs (hbs + 2) prev infos'"
  using assms(6-8)
proof (induction k arbitrary: w prev old infos)
  case (Suc k)
  let ?m = "branch_patterns w rs"
  have first: "\<exists>infos1 old1. (if w \<le> hbs
        then map_option (\<lambda>i. (infos @ [i], wi_entropy i)) (window_entropy lg entries w rs ?m old)
        else Some (infos, old)) = Some (infos1, old1) \<and> length infos1 = min w hbs \<and> take (length infos) infos1 = infos
      \<and> (w \<le> hbs \<longrightarrow> (\<exists>old. window_entropy lg entries w rs ?m old = Some (infos1 ! (w - 1))))"
  proof (cases "w \<le> hbs")
    case True
    then obtain i where i: "window_entropy lg entries w rs ?m old = Some i"
      using window_entropy_returns[of rs w lg entries old] assms(1-5) Suc.prems(2) by auto
    moreover have "length infos = w - 1" using Suc.prems(3) True by (simp add: windows_before_def)
    ultimately show ?thesis using True Suc.prems(2) by (auto simp: nth_append)
  qed (use Suc.prems in \<open>simp add: windows_before_def\<close>)
  then obtain infos1 old1 where i1: "(if w \<le> hbs
        then map_option (\<lambda>i. (infos @ [i], wi_entropy i)) (window_entropy lg entries w rs ?m old)
        else Some (infos, old)) = Some (infos1, old1)" "length infos1 = min w hbs" "take (length infos) infos1 = infos"
      "w \<le> hbs \<longrightarrow> (\<exists>old. window_entropy lg entries w rs ?m old = Some (infos1 ! (w - 1)))" by blast
  have old_infos: "u < length infos \<Longrightarrow> infos1 ! u = infos ! u" for u using i1(3) by (metis nth_take)
  show ?case
  proof (cases "1 < w")
    case False
    then have wb: "windows_before lg hbs entries rs (Suc w) ?m infos1"
      using Suc.prems(2) i1(2,4) by (simp add: windows_before_def)
    have "k + Suc w = hbs + 2" using Suc.prems(1) by simp
    then obtain infos' where "window_loop lg hbs entries rs k (Suc w) ?m old1 infos1 = Some infos'"
      "windows_before lg hbs entries rs (hbs + 2) ?m infos'" using Suc.IH[OF _ _ wb, of old1] by auto
    then show ?thesis using i1(1) False by (auto simp: windows_before_def)
  next
    case True
    then have prev: "prev = branch_patterns (w - 1) rs" and w: "w - 1 < 64" "w - 1 < length rs" "Suc (w - 1) = w"
      using Suc.prems assms(2,3) by (auto simp: windows_before_def)
    have "1 \<le> w - 1" using True by simp
    from window_rates_returns[OF assms(1) this w(1,2) assms(4), of entries]
    obtain i where i: "window_rates entries prev ?m (infos1 ! (w - 2)) = Some i" unfolding prev w(3) by blast
    have len: "length infos = w - 1" "w - 2 < length infos1" using Suc.prems True i1(2) by (auto simp: windows_before_def)
    have "window_done lg entries rs (w - 1) i"
      using Suc.prems True prev i w(3) old_infos[of "w - 2"] len by (auto simp: windows_before_def window_done_def)
    then have dn: "window_done lg entries rs u (infos1[w - 2 := i] ! (u - 1))" if u: "1 \<le> u" "u < w" for u
    proof (cases "u = w - 1")
      case True
      then show ?thesis using \<open>window_done lg entries rs (w - 1) i\<close> len(2) by (simp add: numeral_2_eq_2)
    next
      case False
      then have "u < w - 1" "w - 2 \<noteq> u - 1" "u - 1 < w - 1" using u by linarith+
      then show ?thesis using Suc.prems u(1) len old_infos[of "u - 1"] by (simp add: windows_before_def)
    qed
    have wb: "windows_before lg hbs entries rs (Suc w) ?m (infos1[w - 2 := i])"
      using Suc.prems i1(2,4) True dn by (auto simp: windows_before_def nth_list_update)
    have "k + Suc w = hbs + 2" using Suc.prems(1) by simp
    then obtain infos' where "window_loop lg hbs entries rs k (Suc w) ?m old1 (infos1[w - 2 := i]) = Some infos'"
      "windows_before lg hbs entries rs (hbs + 2) ?m infos'" using Suc.IH[OF _ _ wb, of old1] by auto
    then show ?thesis using i1(1) True i by (auto simp: windows_before_def)
  qed
qed simp

end
