(* ===== verification/Branch_Behavior_Properties.thy ===== *)
theory Branch_Behavior_Properties
  imports Branch_Behavior_Rates
begin

text \<open>
  What the columns of the output of \<open>branchBehavior.cc\<close> are: the number of the histories in the trace, how many of
  them are followed by no, one or more outcomes, the rate of the best static prediction for each history, and the
  part of the predictions that a table of limited size keeps.
\<close>

subsection \<open>The rate of prediction\<close>

text \<open>How often the more frequent outcome follows a history.\<close>

definition best :: "string \<Rightarrow> string \<Rightarrow> nat" where
  "best rs v = max (occurrences (v @ ''0'') rs) (occurrences (v @ ''1'') rs)"

lemma register_basic:
  assumes "a + b < 2 ^ 53" "rc_total s BASIC = of_nat T" "rc_count s BASIC = of_nat N" "N \<le> T" "T + (a + b) < 2 ^ 53"
  shows "rc_total (registerPattern (of_nat a) (of_nat b) s) BASIC = of_nat (T + (a + b))"
    and "rc_count (registerPattern (of_nat a) (of_nat b) s) BASIC = of_nat (N + max a b)"
proof -
  have lt: "(of_nat b < (of_nat a :: u64)) = (b < a)" using assms(1) by (simp add: word_less_nat_alt unsigned_of_nat take_bit_nat_eq_self)
  have sum: "(of_nat a + of_nat b :: u64) = of_nat (a + b)" by simp
  have mx: "(if of_nat a > (of_nat b :: u64) then of_nat a else of_nat b) = (of_nat (max a b) :: u64)"
    unfolding lt by (simp add: max_def)
  have z: "(of_nat (a + b) = (0 :: u64)) = (a + b = 0)" using of_nat_u64_inj[of "a + b" 0] assms(1) by auto
  have "d_add (of_nat T) (d_u64 (of_nat (a + b))) = of_nat (T + (a + b))"
    unfolding d_u64_nat[OF assms(1)] using assms(5) by (rule d_add_nat)
  moreover have "max a b \<le> a + b" by simp
  then have "max a b < 2 ^ 53" "N + max a b < 2 ^ 53" using assms(1,4,5) by linarith+
  then have "d_add (of_nat N) (d_u64 (of_nat (max a b))) = of_nat (N + max a b)" by (simp only: d_u64_nat d_add_nat)
  ultimately show "rc_total (registerPattern (of_nat a) (of_nat b) s) BASIC = of_nat (T + (a + b))"
    and "rc_count (registerPattern (of_nat a) (of_nat b) s) BASIC = of_nat (N + max a b)"
    unfolding registerPattern_def Let_def mx sum z by (simp_all add: add_rate_def assms(2,3))
qed

lemma register_basic_all:
  assumes "rc_total s BASIC = of_nat T" "rc_count s BASIC = of_nat N" "N \<le> T"
    "T + sum_list (map (\<lambda>v. occurrences (v @ ''0'') rs + occurrences (v @ ''1'') rs) vs) < 2 ^ 53"
  shows "rc_total (fold (\<lambda>h. registerPattern (count0 h) (count1 h)) (map (outcome_counts rs) vs) s) BASIC
      = of_nat (T + sum_list (map (\<lambda>v. occurrences (v @ ''0'') rs + occurrences (v @ ''1'') rs) vs))
    \<and> rc_count (fold (\<lambda>h. registerPattern (count0 h) (count1 h)) (map (outcome_counts rs) vs) s) BASIC
      = of_nat (N + sum_list (map (best rs) vs))"
  using assms
proof (induction vs arbitrary: s T N)
  case (Cons v vs)
  let ?a = "occurrences (v @ ''0'') rs" and ?b = "occurrences (v @ ''1'') rs"
  have lt: "?a + ?b < 2 ^ 53" "T + (?a + ?b) < 2 ^ 53" using Cons.prems(4) by simp_all
  note st = register_basic[OF lt(1) Cons.prems(1-3) lt(2)]
  have "N + max ?a ?b \<le> T + (?a + ?b)" using Cons.prems(3) by simp
  from Cons.IH[OF st this] Cons.prems(4) show ?case
    by (simp add: outcome_counts_def best_def add.assoc)
qed simp

lemma count_if_map: "count_if P (map f vs) = count_if (\<lambda>v. P (f v)) vs"
  by (simp add: count_if_def filter_map comp_def)

lemma count_if_set: "distinct vs \<Longrightarrow> count_if P vs = of_nat (card {v \<in> set vs. P v})"
  using distinct_card[OF distinct_filter, of vs P] by (simp add: count_if_def)

lemma sum_list_followed:
  assumes "outcomes rs" "w < length rs" "set vs = histories w rs"
  shows "map (\<lambda>v. occurrences (v @ ''0'') rs + occurrences (v @ ''1'') rs) vs = map (\<lambda>v. followed v rs) vs"
  using followed_split[OF assms(1)] histories_length[of _ w rs] assms(2,3) by simp

subsection \<open>A row of the result\<close>

definition window_exact :: "string \<Rightarrow> nat \<Rightarrow> window_info \<Rightarrow> bool" where
  "window_exact rs w i \<longleftrightarrow> wi_windowSize i = w
    \<and> wi_nHistoryPatterns i = of_nat (card (histories w rs))
    \<and> wi_nBranches0 i = of_nat (card {v \<in> histories w rs. followed v rs = 0})
    \<and> wi_nBranches1 i = of_nat (card {v \<in> histories w rs. followed v rs = 1})
    \<and> wi_nBranchesMore i = of_nat (card {v \<in> histories w rs. 1 < followed v rs})
    \<and> wi_predictionRate i BASIC = round_double (of_nat (\<Sum>v\<in>histories w rs. best rs v) / of_nat (length rs - w))"

lemma window_rates_exact:
  assumes "outcomes rs" "1 \<le> w" "w < 64" "w < length rs" "length rs < 2 ^ 53"
    "window_rates entries (branch_patterns w rs) (branch_patterns (Suc w) rs) i0 = Some i" "wi_windowSize i0 = w"
  shows "window_exact rs w i"
proof -
  obtain vs where vs: "distinct vs" "set vs = histories w rs"
    "followers (branch_patterns w rs) (branch_patterns (Suc w) rs) = map (outcome_counts rs) vs"
    using followers_eq[OF assms(1-4)] by blast
  have f: "hp_total (outcome_counts rs v) = of_nat (followed v rs)" "followed v rs < 2 ^ 53" if "v \<in> set vs" for v
  proof -
    show "hp_total (outcome_counts rs v) = of_nat (followed v rs)"
      using that vs(2) hp_total_counts[OF assms(1)] histories_length[of v w rs] assms(4) by simp
    have "followed v rs \<le> length rs - length v" unfolding followed_def by (metis length_filter_le length_upt diff_zero)
    then show "followed v rs < 2 ^ 53" using assms(5) by linarith
  qed
  have cmp: "(of_nat n = (0 :: u64)) = (n = 0)" "(of_nat n = (1 :: u64)) = (n = 1)" "((1 :: u64) < of_nat n) = (1 < n)"
    if "n < 2 ^ 53" for n
    using that of_nat_u64_inj[of n 0] of_nat_u64_inj[of n 1] by (auto simp: word_less_nat_alt unsigned_of_nat take_bit_nat_eq_self)
  have cards: "count_if (\<lambda>v. P (hp_total (outcome_counts rs v))) vs = of_nat (card {v \<in> histories w rs. Q (followed v rs)})"
    if "\<And>n. n < 2 ^ 53 \<Longrightarrow> P (of_nat n :: u64) = Q n" for P Q
  proof -
    have "{v \<in> set vs. P (hp_total (outcome_counts rs v))} = {v \<in> set vs. Q (followed v rs)}"
      using f that by (metis (mono_tags, lifting))
    then show ?thesis unfolding count_if_set[OF vs(1)] vs(2) by simp
  qed
  let ?s = "fold (\<lambda>h. registerPattern (count0 h) (count1 h)) (map (outcome_counts rs) vs) PredictionRateComputer"
  have "rc_total ?s BASIC = of_nat (length rs - w) \<and> rc_count ?s BASIC = of_nat (sum_list (map (best rs) vs))"
    using register_basic_all[of PredictionRateComputer 0 0 rs vs] sum_list_followed[OF assms(1,4) vs(2)]
      sum_list_occurrences[OF assms(1,4) vs(1,2)] assms(5) by (simp add: PredictionRateComputer_def)
  then have "predictionRate ?s BASIC = round_double (of_nat (\<Sum>v\<in>histories w rs. best rs v) / of_nat (length rs - w))"
    using vs(1,2) assms(4) by (simp add: predictionRate_def sum_list_distinct_conv_sum_set)
  moreover have "length (branch_patterns w rs) = card (histories w rs)"
    using branch_patterns_length[OF assms(1,2)] assms(3,4) by simp
  ultimately show ?thesis
    using assms(6,7) cards[of "\<lambda>n. n = 0" "\<lambda>n. n = 0"] cards[of "\<lambda>n. n = 1" "\<lambda>n. n = 1"] cards[of "\<lambda>n. 1 < n" "\<lambda>n. 1 < n"] cmp
    by (auto simp: window_rates_def Let_def vs(3) count_if_map window_exact_def)
qed

lemma compute_done:
  assumes "outcomes rs" "hbs < 64" "hbs < length rs" "length rs < 2 ^ 64" "lg 2 \<noteq> 0"
  shows "\<exists>infos. computePredictionRate lg hbs entries rs = Some infos \<and> length infos = hbs
    \<and> (\<forall>w. 1 \<le> w \<longrightarrow> w \<le> hbs \<longrightarrow> window_done lg (sort entries) rs w (infos ! (w - 1)))"
proof -
  have "windows_before lg hbs (sort entries) rs 1 [] []" by (simp add: windows_before_def)
  from window_loop_ok[of rs hbs lg "Suc hbs" 1 "sort entries" "[]" "[]" 0, OF assms _ _ this] obtain infos where
    "window_loop lg hbs (sort entries) rs (Suc hbs) 1 [] 0 [] = Some infos"
    "windows_before lg hbs (sort entries) rs (hbs + 2) [] infos" by auto
  then show ?thesis using assms(2) by (auto simp: computePredictionRate_def windows_before_def simp del: window_loop.simps)
qed

text \<open>C13: the patterns are counted exactly.  For a history of 1 to 64 outcomes the counter of its key is the
  number of the positions of the trace at which the history occurs, although the key of a window is
  computed from the key of the window before it and not from its outcomes.\<close>

theorem branch_patterns_exact:
  assumes "outcomes rs" "1 \<le> length v" "length v \<le> 64" "length v \<le> length rs" "outcomes v"
  shows "pattern_count (branch_patterns (length v) rs) (key_of v) = of_nat (occurrences v rs)"
  by (rule branch_patterns_facts(2)[OF assms(1-4) refl assms(5)])

lemma branch_patterns_exact_witness:
  "pattern_count (branch_patterns 2 ''0110110'') 3 = 2"
  using branch_patterns_exact[of "''0110110''" "''11''"]
  by (simp add: outcomes_def key_of_def outcome_value_def occurrences_def window_def upt_rec numeral_2_eq_2)

lemma windows_ok:
  assumes "outcomes rs" "hbs < 64" "hbs < length rs" "length rs < 2 ^ 53" "lg 2 \<noteq> 0"
  shows "\<exists>infos. computePredictionRate lg hbs entries rs = Some infos \<and> length infos = hbs
    \<and> (\<forall>w \<in> {1..hbs}. window_exact rs w (infos ! (w - 1)))"
proof -
  have "length rs < 2 ^ 64" using assms(4) by simp
  from compute_done[of rs hbs lg entries, OF assms(1-3) this assms(5)] obtain infos where
    infos: "computePredictionRate lg hbs entries rs = Some infos" "length infos = hbs"
      "\<forall>w. 1 \<le> w \<longrightarrow> w \<le> hbs \<longrightarrow> window_done lg (sort entries) rs w (infos ! (w - 1))" by blast
  have "window_exact rs w (infos ! (w - 1))" if "w \<in> {1..hbs}" for w
  proof -
    have "window_done lg (sort entries) rs w (infos ! (w - 1))" using infos(3) that by simp
    then obtain old i0 where i0: "window_entropy lg (sort entries) w rs (branch_patterns w rs) old = Some i0"
      "window_rates (sort entries) (branch_patterns w rs) (branch_patterns (Suc w) rs) i0 = Some (infos ! (w - 1))"
      unfolding window_done_def by blast
    then have "wi_windowSize i0 = w" by (auto simp: window_entropy_def bind_eq_Some Let_def split: if_splits)
    then show ?thesis using window_rates_exact[OF assms(1) _ _ _ assms(4) i0(2)] that assms(2,3) by auto
  qed
  then show ?thesis using infos by blast
qed

text \<open>C14: what the columns of the result hold, as the code computes them.  For a trace of 0 and 1 that is longer than
  the history the analysis returns, and its entry for the length \<open>w\<close> has the number of the different histories of length \<open>w\<close>
  in the trace, and as rate of prediction the part of the outcomes that are predicted if for every
  history the more frequent outcome is predicted (rounded once).  The columns \<open>nBranches0\<close> and \<open>nBranches1\<close> are not what the
  README of \<open>branch-analysis\<close> says, the numbers of branches with outcome 0 and 1: they are the numbers of the histories
  that are followed by no and by one outcome (and \<open>nBranchesMore\<close> by more), whatever these outcomes are;
  \<open>windows_not_outcomes\<close> is a trace where they differ from the README.\<close>

theorem branch_windows_exact:
  assumes "outcomes rs" "hbs < 64" "hbs < length rs" "length rs < 2 ^ 53" "lg 2 \<noteq> 0"
  shows "\<exists>infos. computePredictionRate lg hbs entries rs = Some infos \<and> length infos = hbs
    \<and> (\<forall>w \<in> {1..hbs}. window_exact rs w (infos ! (w - 1)))"
  by (rule windows_ok[of rs hbs lg entries, OF assms])

definition example_trace :: string where
  "example_trace = ''0110110''"

lemma example_trace_facts: "outcomes example_trace" "length example_trace = 7"
  by (simp_all add: example_trace_def outcomes_def)

lemma branch_windows_exact_witness:
  "\<exists>infos. computePredictionRate (\<lambda>x. x - 1) 1 [2] example_trace = Some infos \<and> length infos = 1
    \<and> window_exact example_trace 1 (infos ! 0)"
  using branch_windows_exact[of example_trace 1 "\<lambda>x. x - 1" "[2]"] by (simp add: example_trace_facts)

text \<open>A trace with three branches that are not taken and four that are: the two columns hold other numbers.\<close>

lemma windows_not_outcomes:
  "\<exists>infos. computePredictionRate (\<lambda>x. x - 1) 1 [2] example_trace = Some infos
    \<and> wi_nBranches0 (infos ! 0) \<noteq> of_nat (length (filter (\<lambda>c. c = CHR ''0'') example_trace))
    \<and> wi_nBranches1 (infos ! 0) \<noteq> of_nat (length (filter (\<lambda>c. c = CHR ''1'') example_trace))"
proof -
  obtain infos where infos: "computePredictionRate (\<lambda>x. x - 1) 1 [2] example_trace = Some infos"
    "window_exact example_trace 1 (infos ! 0)"
    using windows_ok[of example_trace 1 "\<lambda>x. x - 1" "[2]"] by (auto simp: example_trace_facts)
  have bits: "length (filter (\<lambda>c. c = CHR ''0'') example_trace) = 3" "length (filter (\<lambda>c. c = CHR ''1'') example_trace) = 4"
    by (simp_all add: example_trace_def)
  have "histories 1 example_trace \<subseteq> {''0'', ''1''}"
    by (simp add: histories_def window_def example_trace_def atMost_Suc atMost_0)
  then have "card {v \<in> histories 1 example_trace. P v} \<le> card {''0'', ''1''}" for P
    by (intro card_mono) auto
  then have two: "card {v \<in> histories 1 example_trace. P v} \<in> {0, 1, 2}" for P
    by (auto simp: card_insert_if numeral_eq_Suc le_Suc_eq)
  have small: "(of_nat c :: u64) \<noteq> 3 \<and> (of_nat c :: u64) \<noteq> 4" if "c \<in> {0, 1, 2}" for c :: nat
    using that by auto
  show ?thesis using infos small[OF two] unfolding window_exact_def bits by auto
qed

subsection \<open>Bounds\<close>

lemma best_bounds:
  assumes "outcomes rs" "length v < length rs"
  shows "followed v rs \<le> 2 * best rs v" "best rs v \<le> followed v rs"
  unfolding followed_split[OF assms] best_def by simp_all

lemma followed_total:
  assumes "outcomes rs" "w < length rs" shows "(\<Sum>v\<in>histories w rs. followed v rs) = length rs - w"
proof -
  obtain vs where "set vs = histories w rs" "distinct vs" using finite_distinct_list[OF finite_histories[of w rs]] by blast
  then show ?thesis using sum_list_occurrences[OF assms, of vs] by (simp add: sum_list_distinct_conv_sum_set)
qed

lemma not_followed:
  assumes "v \<in> histories w rs" "w \<le> length rs" "followed v rs = 0"
  shows "v = window w rs (length rs - w)"
  using occurrences_followed[OF assms(2) histories_length[OF assms(1,2)]] occurrences_pos[OF assms(1,2)] assms(3)
  by (auto split: if_splits)

lemma round_double_half: "round_double (1 / 2) = 1 / 2"
proof -
  have x: "2 powi binade (1 / 2) \<le> (1 / 2 :: rat)" "(1 / 2 :: rat) < 2 powi (binade (1 / 2) + 1)"
    by (rule binade_bounds; simp)+
  have "binade (1 / 2) \<le> -1"
  proof (rule ccontr)
    assume "\<not> binade (1 / 2) \<le> -1"
    then have "2 powi 0 \<le> (2 :: rat) powi binade (1 / 2)" by (intro power_int_increasing) simp_all
    then show False using x(1) by simp
  qed
  moreover have "-1 \<le> binade (1 / 2)"
  proof (rule ccontr)
    assume "\<not> -1 \<le> binade (1 / 2)"
    then have "(2 :: rat) powi (binade (1 / 2) + 1) \<le> 2 powi (-1)" by (intro power_int_increasing) simp_all
    then show False using x(2) by (simp add: power_int_minus)
  qed
  ultimately have b: "binade (1 / 2) = -1" by simp
  have "(2 :: rat) powi (-53) = 1 / 2 ^ 53" by (simp add: power_int_minus field_simps)
  then show ?thesis using round_half_even_int[of "2 ^ 52"] by (simp add: round_double_pos b)
qed

lemma window_bounds:
  assumes "outcomes rs" "w < length rs" "window_exact rs w i"
  shows "1 / 2 \<le> wi_predictionRate i BASIC \<and> wi_predictionRate i BASIC \<le> 1 \<and> wi_nBranches0 i \<le> 1"
proof -
  let ?B = "\<Sum>v\<in>histories w rs. best rs v" and ?N = "length rs - w"
  have len: "length v < length rs" if "v \<in> histories w rs" for v using histories_length[OF that] assms(2) by simp
  have "?N \<le> 2 * ?B"
    unfolding followed_total[OF assms(1,2), symmetric] sum_distrib_left by (rule sum_mono) (rule best_bounds(1)[OF assms(1) len])
  then have n1: "(of_nat ?N :: rat) \<le> of_nat (2 * ?B)" by (rule of_nat_mono)
  have "?B \<le> ?N"
    unfolding followed_total[OF assms(1,2), symmetric] by (rule sum_mono) (rule best_bounds(2)[OF assms(1) len])
  then have n2: "of_nat ?B \<le> (of_nat ?N :: rat)" by (rule of_nat_mono)
  have n3: "0 < (of_nat ?N :: rat)" using assms(2) by (simp del: of_nat_diff)
  have rate: "wi_predictionRate i BASIC = round_double (of_nat ?B / of_nat ?N)" using assms(3) by (simp only: window_exact_def)
  have "1 / 2 \<le> of_nat ?B / (of_nat ?N :: rat)" using n1 n3 unfolding of_nat_mult by (simp add: le_divide_eq del: of_nat_diff of_nat_sum)
  then have "round_double (1 / 2) \<le> wi_predictionRate i BASIC" unfolding rate by (intro round_double_mono) simp_all
  moreover have "of_nat ?B / of_nat ?N \<le> (1 :: rat)" using n2 n3 by (simp add: divide_le_eq del: of_nat_diff of_nat_sum)
  then have "wi_predictionRate i BASIC \<le> round_double 1" unfolding rate
    by (intro round_double_mono divide_nonneg_nonneg of_nat_0_le_iff)
  moreover have "round_double 1 = 1" using round_double_nat[of 1] by simp
  moreover have "wi_nBranches0 i \<le> 1"
  proof -
    have "{v \<in> histories w rs. followed v rs = 0} \<subseteq> {window w rs (length rs - w)}"
      using not_followed[OF _ less_imp_le[OF assms(2)]] by blast
    then have le: "card {v \<in> histories w rs. followed v rs = 0} \<le> card {window w rs (length rs - w)}"
      by (intro card_mono) simp_all
    obtain c where c: "card {v \<in> histories w rs. followed v rs = 0} = c" by blast
    then have c01: "c = 0 \<or> c = 1" using le by (simp only: c) auto
    have "wi_nBranches0 i = of_nat c" using assms(3) unfolding window_exact_def c by blast
    then show ?thesis using c01 by auto
  qed
  ultimately show ?thesis by (simp only: round_double_half)
qed

text \<open>C30: the bounds of the analysis itself.  For a trace of 0 and 1 that is longer than the history, whatever the sizes of the
  tables and the logarithm are, the analysis returns, and in every row of its result the best static prediction is right for at
  least half of the outcomes, so that the printed misprediction rate is between 0 and 1/2; and at most one
  history is not followed by an outcome (the one at the end of the trace), which is what \<open>nBranches0\<close> counts.\<close>

theorem branch_prediction_bounds:
  assumes "outcomes rs" "hbs < 64" "hbs < length rs" "length rs < 2 ^ 53" "lg 2 \<noteq> 0"
  shows "\<exists>infos. computePredictionRate lg hbs entries rs = Some infos \<and> length infos = hbs
    \<and> (\<forall>i \<in> set infos. 1 / 2 \<le> wi_predictionRate i BASIC \<and> wi_predictionRate i BASIC \<le> 1 \<and> wi_nBranches0 i \<le> 1)"
proof -
  obtain infos where infos: "computePredictionRate lg hbs entries rs = Some infos" "length infos = hbs"
    "\<forall>w \<in> {1..hbs}. window_exact rs w (infos ! (w - 1))"
    using windows_ok[of rs hbs lg entries, OF assms] by blast
  have "1 / 2 \<le> wi_predictionRate i BASIC \<and> wi_predictionRate i BASIC \<le> 1 \<and> wi_nBranches0 i \<le> 1" if "i \<in> set infos" for i
  proof -
    obtain k where k: "k < hbs" "i = infos ! k" using \<open>i \<in> set infos\<close> infos(2) by (auto simp: in_set_conv_nth)
    then have "window_exact rs (Suc k) i" using infos(3) by force
    moreover have "Suc k < length rs" using k(1) assms(3) by simp
    ultimately show ?thesis using window_bounds[OF assms(1)] by blast
  qed
  then show ?thesis using infos by blast
qed

lemma branch_prediction_bounds_witness:
  "\<exists>infos. computePredictionRate (\<lambda>x. x - 1) 1 [2] example_trace = Some infos \<and> length infos = 1
    \<and> (\<forall>i \<in> set infos. 1 / 2 \<le> wi_predictionRate i BASIC \<and> wi_predictionRate i BASIC \<le> 1 \<and> wi_nBranches0 i \<le> 1)"
  by (rule branch_prediction_bounds) (simp_all add: example_trace_facts)

end
