(* ===== verification/Branch_Behavior_Tables.thy ===== *)
theory Branch_Behavior_Tables
  imports Branch_Behavior_Properties "HOL-Library.Multiset"
begin

text \<open>
  The tables of limited size of \<open>branchBehavior.cc\<close> keep the most frequent histories: for every size the part of the
  predictions that is lost is that of all the histories but the most frequent ones.
\<close>

subsection \<open>The queue\<close>

lemma drop_insort:
  "sorted xs \<Longrightarrow> k \<le> length xs \<Longrightarrow> drop (Suc k) (insort x xs) = drop 1 (insort x (drop k xs))"
proof (induction xs arbitrary: k)
  case (Cons y xs)
  show ?case
  proof (cases k)
    case (Suc j)
    have "insort x (drop j xs) = x # drop j xs" if "x \<le> y"
      using that Cons.prems(1) by (intro insort_is_Cons) (fastforce dest: in_set_dropD)
    then show ?thesis using Suc Cons by auto
  qed simp
qed simp

lemma sort_snoc: "sort (xs @ [x]) = insort x (sort xs)"
  by (rule properties_for_sort) (simp_all add: sorted_insort)

text \<open>The interface of \<open>std::priority_queue\<close>: a list whose head is \<open>top\<close>, and whose order among equal keys is open.\<close>

locale top_queue =
  fixes push :: "'a \<Rightarrow> 'a list \<Rightarrow> 'a list" and key :: "'a \<Rightarrow> 'k :: linorder"
  assumes push_mset: "mset (push x q) = add_mset x (mset q)"
    and push_sorted: "sorted (map key q) \<Longrightarrow> sorted (map key (push x q))"
begin

lemma push_keys: "sorted (map key q) \<Longrightarrow> map key (push x q) = insort (key x) (map key q)"
  using properties_for_sort[of "map key (push x q)" "map key (x # q)"] push_sorted[of q x] push_mset[of x q]
  by (simp add: sorted_sort_id)

text \<open>A queue that holds the \<open>m\<close> greatest keys holds them after a push, and a pop if it has become too long.\<close>

lemma push_top:
  assumes "map key q = drop (length xs - m) (sort xs)"
  shows "map key (push x q) = insort (key x) (drop (length xs - m) (sort xs))"
  using push_keys[of q x] assms by (simp add: sorted_wrt_drop)

lemma pop_top:
  assumes "map key q = drop (length xs - m) (sort xs)" "m \<le> length xs"
  shows "map key (tl (push x q)) = drop (length (xs @ [key x]) - m) (sort (xs @ [key x]))"
proof -
  have "map key (tl (push x q)) = drop 1 (insort (key x) (drop (length xs - m) (sort xs)))"
    unfolding map_tl push_top[OF assms(1)] by (simp add: drop_Suc)
  also have "\<dots> = drop (Suc (length xs - m)) (insort (key x) (sort xs))" by (rule drop_insort[symmetric]) simp_all
  finally show ?thesis using assms(2) by (simp add: sort_snoc Suc_diff_le)
qed

end

interpretation pq: top_queue q_push hp_total
  by unfold_locales (simp_all add: q_push_def sorted_insort_key)

text \<open>The exact content of a table: the totals of the queue and the sum of what has left it.\<close>

definition hp_nat :: "history_pattern \<Rightarrow> nat" where
  "hp_nat h = unat (count0 h) + unat (count1 h)"

definition table_ok :: "limited_table \<Rightarrow> nat \<Rightarrow> bool" where
  "table_ok t n \<longleftrightarrow> (\<exists>a b. lt_agg0 t = of_nat a \<and> lt_agg1 t = of_nat b \<and> a + b + sum_list (map hp_nat (lt_queue t)) = n)"

lemma d_u64_unat: "unat x < 2 ^ 53 \<Longrightarrow> d_u64 x = of_nat (unat x)"
  by (simp add: d_u64_def u64_rat_def round_double_nat del: of_nat_unat)

lemma add_counts:
  assumes "a + b + hp_nat h < 2 ^ 53"
  shows "d_add (of_nat a) (d_u64 (count0 h)) = of_nat (a + unat (count0 h))"
    and "d_add (of_nat b) (d_u64 (count1 h)) = of_nat (b + unat (count1 h))"
  using assms d_u64_unat[of "count0 h"] d_u64_unat[of "count1 h"] d_add_nat[of a "unat (count0 h)"] d_add_nat[of b "unat (count1 h)"]
  by (simp_all add: hp_nat_def del: of_nat_unat of_nat_add)

lemma table_pop:
  assumes "table_ok t n" "n < 2 ^ 53" "lt_queue t = h # q"
  shows "lt_queue (lt_pop t) = q \<and> table_ok (lt_pop t) n"
proof -
  obtain a b where t: "lt_agg0 t = of_nat a" "lt_agg1 t = of_nat b" "a + b + sum_list (map hp_nat (h # q)) = n"
    using assms(1,3) by (auto simp: table_ok_def)
  then have "a + b + hp_nat h < 2 ^ 53" using assms(2) by simp
  note ad = add_counts[OF this]
  have "a + unat (count0 h) + (b + unat (count1 h)) + sum_list (map hp_nat q) = n" using t(3) by (simp add: hp_nat_def)
  then show ?thesis using ad by (auto simp: lt_pop_def assms(3) t(1,2) table_ok_def simp del: of_nat_unat of_nat_add)
qed

lemma sum_list_insort: "sum_list (map f (insort_key g x xs)) = f x + sum_list (map f xs)" for f :: "'a \<Rightarrow> nat"
  by (induction xs) simp_all

lemma table_push:
  assumes "table_ok t n" "n + hp_nat h < 2 ^ 53" "length (lt_queue t) < 2 ^ 63"
    and "map hp_total (lt_queue t) = drop (length xs - unat m) (sort xs)" "1 \<le> unat m"
  shows "table_ok (lt_push m h t) (n + hp_nat h)
    \<and> map hp_total (lt_queue (lt_push m h t)) = drop (length (xs @ [hp_total h]) - unat m) (sort (xs @ [hp_total h]))"
proof -
  let ?t = "t\<lparr>lt_queue := q_push h (lt_queue t)\<rparr>"
  have len: "length (lt_queue t) = length xs - (length xs - unat m)" using arg_cong[OF assms(4), of length] by simp
  have t: "table_ok ?t (n + hp_nat h)"
    using assms(1) by (auto simp: table_ok_def q_push_def sum_list_insort)
  have q: "map hp_total (lt_queue ?t) = insort (hp_total h) (drop (length xs - unat m) (sort xs))"
    using pq.push_top[OF assms(4), of h] by simp
  have full: "of_nat (length (lt_queue ?t)) > m \<longleftrightarrow> unat m \<le> length xs"
  proof -
    have "unat (of_nat (Suc (length (lt_queue t))) :: u64) = Suc (length (lt_queue t))"
      using assms(3) by (simp only: unsigned_of_nat) (simp add: take_bit_nat_eq_self)
    moreover have "length (lt_queue ?t) = Suc (length (lt_queue t))" by (simp add: q_push_def)
    ultimately show ?thesis using len assms(5) unfolding word_less_nat_alt by (simp only:) linarith
  qed
  show ?thesis
  proof (cases "unat m \<le> length xs")
    case True
    obtain h' q' where c: "lt_queue ?t = h' # q'" by (cases "q_push h (lt_queue t)") (auto simp: q_push_def dest: arg_cong[of _ _ length])
    then have "map hp_total q' = drop (length (xs @ [hp_total h]) - unat m) (sort (xs @ [hp_total h]))"
      using pq.pop_top[OF assms(4) True, of h] by simp
    then show ?thesis using table_pop[OF t assms(2) c] full True by (simp add: lt_push_def Let_def)
  next
    case False
    then show ?thesis using t q full by (simp add: lt_push_def Let_def sort_snoc)
  qed
qed

text \<open>All patterns pass through the table; afterwards it holds the most frequent ones.\<close>

lemma table_pushes:
  assumes "table_ok t n" "n + sum_list (map hp_nat hs) < 2 ^ 53" "length xs + length hs < 2 ^ 63"
    and "map hp_total (lt_queue t) = drop (length xs - unat m) (sort xs)" "1 \<le> unat m"
  shows "table_ok (fold (lt_push m) hs t) (n + sum_list (map hp_nat hs))
    \<and> map hp_total (lt_queue (fold (lt_push m) hs t))
      = drop (length (xs @ map hp_total hs) - unat m) (sort (xs @ map hp_total hs))"
  using assms(1-4)
proof (induction hs arbitrary: t n xs)
  case (Cons h hs)
  have "length (lt_queue t) \<le> length xs" using arg_cong[OF Cons.prems(4), of length] by simp
  then have len: "length (lt_queue t) < 2 ^ 63" using Cons.prems(3) by simp
  have "n + hp_nat h < 2 ^ 53" using Cons.prems(2) by simp
  from table_push[OF Cons.prems(1) this len Cons.prems(4) assms(5)]
    Cons.IH[of "lt_push m h t" "n + hp_nat h" "xs @ [hp_total h]"] Cons.prems(2,3)
  show ?case by (simp add: add.assoc)
qed simp

text \<open>The loop that shrinks the table.\<close>

lemma shrink_ok:
  assumes "table_ok \<lparr>lt_queue = q, lt_agg0 = a0, lt_agg1 = a1\<rparr> n" "n < 2 ^ 53" "length q < 2 ^ 63"
    "shrink k q a0 a1 r = (t, r')"
  shows "table_ok t n \<and> lt_queue t = drop (length q - unat k) q"
  using assms
proof (induction k q a0 a1 r arbitrary: t rule: shrink.induct)
  case (2 k h q a0 a1 r)
  have len: "(of_nat (length (h # q)) > k) = (unat k < length (h # q))"
  proof -
    have "unat (of_nat (length (h # q)) :: u64) = length (h # q)"
      using 2(4) by (simp only: unsigned_of_nat) (simp add: take_bit_nat_eq_self)
    then show ?thesis by (simp only: word_less_nat_alt)
  qed
  show ?case
  proof (cases "unat k < length (h # q)")
    case True
    let ?t = "\<lparr>lt_queue = h # q, lt_agg0 = a0, lt_agg1 = a1\<rparr>"
    have pop: "lt_pop ?t = \<lparr>lt_queue = q, lt_agg0 = d_add a0 (d_u64 (count0 h)), lt_agg1 = d_add a1 (d_u64 (count1 h))\<rparr>"
      by (simp add: lt_pop_def)
    have "table_ok (lt_pop ?t) n" using table_pop[OF 2(2,3), of h q] by simp
    from 2(1)[OF _ this[unfolded pop] 2(3)] 2(4,5) len True show ?thesis by (simp add: Suc_diff_le)
  next
    case False
    then show ?thesis using 2(2,5) len by auto
  qed
qed auto

subsection \<open>What is lost\<close>

lemma unat_hp_total: "hp_nat h < 2 ^ 53 \<Longrightarrow> unat (hp_total h) = hp_nat h"
  by (simp add: hp_nat_def hp_total_def unat_word_ariths)

lemma sum_list_map_sort: "sum_list (map f (sort xs)) = sum_list (map f xs)" for f :: "'a :: linorder \<Rightarrow> nat"
proof -
  have "mset (map f (sort xs)) = mset (map f xs)" by simp
  then show ?thesis by (metis sum_mset_sum_list)
qed

lemma hp_totals_nat:
  assumes "sum_list (map hp_nat hs) < 2 ^ 53"
  shows "map hp_nat hs = map unat (map hp_total hs)"
proof -
  have "hp_nat h < 2 ^ 53" if "h \<in> set hs" for h
    using member_le_sum_list[of "hp_nat h" "map hp_nat hs"] that assms by simp
  then show ?thesis using unat_hp_total by simp
qed

lemma table_lost:
  assumes "table_ok t n" "n < 2 ^ 53" "map hp_total (lt_queue t) = drop k ts" "n = sum_list (map unat ts)"
  shows "d_add (lt_agg0 t) (lt_agg1 t) = of_nat (sum_list (map unat (take k ts)))"
proof -
  obtain a b where t: "lt_agg0 t = of_nat a" "lt_agg1 t = of_nat b" "a + b + sum_list (map hp_nat (lt_queue t)) = n"
    using assms(1) by (auto simp: table_ok_def)
  have "map hp_nat (lt_queue t) = map unat (map hp_total (lt_queue t))" using t(3) assms(2) by (intro hp_totals_nat) simp
  then have "sum_list (map hp_nat (lt_queue t)) = sum_list (map unat (drop k ts))" unfolding assms(3) by simp
  moreover have "n = sum_list (map unat (take k ts)) + sum_list (map unat (drop k ts))"
    unfolding assms(4) by (simp flip: sum_list_append map_append)
  ultimately have "a + b = sum_list (map unat (take k ts))" using t(3) by simp
  moreover have "a + b < 2 ^ 53" using t(3) assms(2) by simp
  ultimately show ?thesis using d_add_nat[of a b] by (simp only: t(1,2))
qed

definition stored_row :: "u64 \<Rightarrow> nat \<Rightarrow> u64 \<Rightarrow> u64 \<times> rat" where
  "stored_row cnt lost n = (n, d_sub 1 (round_double (of_nat lost / d_u64 cnt)))"

lemma limited_rates_stored:
  assumes "table_ok t n" "n < 2 ^ 53" "n = sum_list (map unat ts)" "length ts < 2 ^ 63"
    and "map hp_total (lt_queue t) = drop (length ts - unat m) ts"
    and "sorted_wrt (\<ge>) ns" "\<forall>k \<in> set ns. k \<le> m" "limited_rates cnt ns t r = Some l"
  shows "map (\<lambda>r. (lr_nEntries r, lr_fractionStored r)) l
    = map (\<lambda>k. stored_row cnt (sum_list (map unat (take (length ts - unat k) ts))) k) ns"
  using assms(1,5-8)
proof (induction ns arbitrary: t m r l)
  case (Cons k ns)
  obtain t1 r1 where sh: "shrink k (lt_queue t) (lt_agg0 t) (lt_agg1 t) r = (t1, r1)" by fastforce
  have len: "length (lt_queue t) = length ts - (length ts - unat m)" using arg_cong[OF Cons.prems(2), of length] by simp
  then have "length (lt_queue t) < 2 ^ 63" using assms(4) by simp
  moreover have "table_ok \<lparr>lt_queue = lt_queue t, lt_agg0 = lt_agg0 t, lt_agg1 = lt_agg1 t\<rparr> n"
    using Cons.prems(1) by (simp add: table_ok_def)
  ultimately have t1: "table_ok t1 n" "lt_queue t1 = drop (length (lt_queue t) - unat k) (lt_queue t)"
    using shrink_ok[OF _ assms(2) _ sh] by blast+
  have "unat k \<le> unat m" using Cons.prems(4) by (simp add: word_le_nat_alt)
  then have off: "length (lt_queue t) - unat k + (length ts - unat m) = length ts - unat k" using len by linarith
  have "map hp_total (lt_queue t1) = drop (length (lt_queue t) - unat k) (map hp_total (lt_queue t))" unfolding t1(2) drop_map ..
  also have "\<dots> = drop (length ts - unat k) ts" unfolding Cons.prems(2) drop_drop off ..
  finally have q1: "map hp_total (lt_queue t1) = drop (length ts - unat k) ts" .
  note lost = table_lost[OF t1(1) assms(2) q1 assms(3)]
  from Cons.prems(5) obtain rate x rest where l: "l = \<lparr>lr_nEntries = k, lr_predictionRate = rate, lr_fractionStored = d_sub 1 x\<rparr> # rest"
    "d_div (d_add (lt_agg0 t1) (lt_agg1 t1)) (d_u64 cnt) = Some x" "limited_rates cnt ns t1 r1 = Some rest"
    by (auto simp: sh Let_def bind_eq_Some)
  have "x = round_double (of_nat (sum_list (map unat (take (length ts - unat k) ts))) / d_u64 cnt)"
    using l(2) by (simp add: lost d_div_def split: if_splits)
  moreover have "sorted_wrt (\<ge>) ns" "\<forall>j \<in> set ns. j \<le> k" using Cons.prems(3) by auto
  note Cons.IH[OF t1(1) q1 this l(3)]
  ultimately show ?case by (simp add: l(1) stored_row_def)
qed simp

text \<open>How often the histories of length \<open>w\<close> are followed by an outcome, in increasing order.\<close>

definition frequencies :: "nat \<Rightarrow> string \<Rightarrow> nat list" where
  "frequencies w rs = sorted_list_of_multiset (image_mset (\<lambda>v. followed v rs) (mset_set (histories w rs)))"

lemma frequencies_eq:
  assumes "outcomes rs" "w < length rs" "length rs < 2 ^ 53" "distinct vs" "set vs = histories w rs"
  shows "map unat (sort (map hp_total (map (outcome_counts rs) vs))) = frequencies w rs"
    and "map hp_nat (map (outcome_counts rs) vs) = map (\<lambda>v. followed v rs) vs"
proof -
  have f: "hp_total (outcome_counts rs v) = of_nat (followed v rs)" "followed v rs < 2 ^ 53" if "v \<in> set vs" for v
  proof -
    show "hp_total (outcome_counts rs v) = of_nat (followed v rs)"
      using that assms(5) hp_total_counts[OF assms(1)] histories_length[of v w rs] assms(2) by simp
    have "followed v rs \<le> length rs - length v" unfolding followed_def by (metis length_filter_le length_upt diff_zero)
    then show "followed v rs < 2 ^ 53" using assms(3) by linarith
  qed
  have "unat (hp_total (outcome_counts rs v)) = followed v rs" if "v \<in> set vs" for v
    using f[OF that] by (simp add: unsigned_of_nat take_bit_nat_eq_self)
  then have nat: "map unat (map hp_total (map (outcome_counts rs) vs)) = map (\<lambda>v. followed v rs) vs" by simp
  have "sorted (map unat (sort (map hp_total (map (outcome_counts rs) vs))))"
    unfolding sorted_map by (rule sorted_wrt_mono_rel[OF _ sorted_sort]) (simp add: word_le_nat_alt)
  moreover have "mset (map unat (sort (map hp_total (map (outcome_counts rs) vs)))) = mset (map (\<lambda>v. followed v rs) vs)"
    unfolding nat[symmetric] by (simp only: mset_map mset_sort)
  ultimately have "sort (map (\<lambda>v. followed v rs) vs) = map unat (sort (map hp_total (map (outcome_counts rs) vs)))"
    by (intro properties_for_sort) simp_all
  moreover have "sort (map (\<lambda>v. followed v rs) vs) = frequencies w rs"
    unfolding frequencies_def assms(5)[symmetric]
    by (simp add: mset_set_set[OF assms(4)] flip: mset_map)
  ultimately show "map unat (sort (map hp_total (map (outcome_counts rs) vs))) = frequencies w rs" by simp
  have "hp_nat (outcome_counts rs v) = followed v rs" if "v \<in> set vs" for v
  proof -
    have "length v < length rs" using that assms(2,5) histories_length[of v w rs] by simp
    note sp = followed_split[OF assms(1) this]
    then have "occurrences (v @ ''0'') rs < 2 ^ 53" "occurrences (v @ ''1'') rs < 2 ^ 53" using f(2)[OF that] by simp_all
    then show ?thesis by (simp add: hp_nat_def outcome_counts_def sp unsigned_of_nat take_bit_nat_eq_self)
  qed
  then show "map hp_nat (map (outcome_counts rs) vs) = map (\<lambda>v. followed v rs) vs" by simp
qed

lemma window_rates_limited:
  assumes "outcomes rs" "1 \<le> w" "w < 64" "w < length rs" "length rs < 2 ^ 53"
    and "entries \<noteq> []" "0 \<notin> set entries" "sorted entries"
    and "window_rates entries (branch_patterns w rs) (branch_patterns (Suc w) rs) i0 = Some i"
  shows "map (\<lambda>r. (lr_nEntries r, lr_fractionStored r)) (wi_limitedPredictionRates i)
    = map (\<lambda>n. stored_row (of_nat (length rs - w))
        (sum_list (take (card (histories w rs) - unat n) (frequencies w rs))) n) (rev entries)"
proof -
  obtain vs where vs: "distinct vs" "set vs = histories w rs"
    "followers (branch_patterns w rs) (branch_patterns (Suc w) rs) = map (outcome_counts rs) vs"
    using followers_eq[OF assms(1-4)] by blast
  let ?hs = "map (outcome_counts rs) vs" and ?N = "length rs - w"
  let ?ts = "sort (map hp_total ?hs)" and ?m = "last entries"
  let ?t = "fold (lt_push ?m) ?hs \<lparr>lt_queue = [], lt_agg0 = 0, lt_agg1 = 0\<rparr>"
  note fr = frequencies_eq[OF assms(1,4,5) vs(1,2)]
  have N: "sum_list (map hp_nat ?hs) = ?N" unfolding fr(2) by (rule sum_list_occurrences[OF assms(1,4) vs(1,2)])
  have card: "length vs = card (histories w rs)" using vs(1,2) distinct_card by fastforce
  have "card (histories w rs) \<le> card {..length rs - w}" unfolding histories_def by (rule card_image_le) simp
  then have short: "length ?hs < 2 ^ 63" using card assms(5) by simp
  have "?m \<noteq> 0" using assms(6,7) last_in_set by metis
  then have "1 \<le> unat ?m" by (simp add: Suc_le_eq unat_gt_0)
  with table_pushes[of "\<lparr>lt_queue = [], lt_agg0 = 0, lt_agg1 = 0\<rparr>" 0 ?hs "[]" ?m] short N assms(5)
  have tab: "table_ok ?t ?N" "map hp_total (lt_queue ?t) = drop (length ?hs - unat ?m) ?ts" by (simp_all add: table_ok_def)
  have total: "?N = sum_list (map unat ?ts)"
  proof -
    have "sum_list (map hp_nat ?hs) < 2 ^ 53" unfolding N using assms(5) by linarith
    from hp_totals_nat[OF this] show ?thesis unfolding sum_list_map_sort N[symmetric] by (rule arg_cong)
  qed
  have desc: "sorted_wrt (\<ge>) (rev entries)" "\<forall>k \<in> set (rev entries). k \<le> ?m"
    using assms(6,8) by (auto simp: sorted_wrt_rev in_set_conv_nth last_conv_nth intro!: sorted_nth_mono)
  have cnt: "sum_list (map hp_total ?hs) = of_nat ?N" by (rule predictions_total[OF assms(1,4) vs(1,2)])
  obtain l where l: "limited_rates (of_nat ?N) (rev entries) ?t (fold (\<lambda>h r. d_add r (hp_max h)) (lt_queue ?t) 0) = Some l"
    "wi_limitedPredictionRates i = l"
    using assms(9) by (auto simp: window_rates_def Let_def vs(3) simp flip: cnt)
  have "length ?ts = length vs" by simp
  moreover have "map unat (take k ?ts) = take k (frequencies w rs)" for k unfolding fr(1)[symmetric] take_map ..
  ultimately show ?thesis
    using limited_rates_stored[OF tab(1) _ total _ _ desc l(1)] tab(2) short assms(5) l(2) by (simp add: card)
qed

text \<open>C15: a table of limited size keeps the most frequent histories.  For every size \<open>n\<close> of the table, from the
  largest to the smallest, the result has the part of the predictions that the table serves: 1 minus the part
  of those histories of length \<open>w\<close> that are not among the \<open>n\<close> most frequent ones.  The table that the
  queue fills once for the largest size serves for all the sizes.\<close>

theorem limited_tables_exact:
  assumes "outcomes rs" "hbs < 64" "hbs < length rs" "length rs < 2 ^ 53" "lg 2 \<noteq> 0" "entries \<noteq> []" "0 \<notin> set entries"
    and "computePredictionRate lg hbs entries rs = Some infos" "1 \<le> w" "w \<le> hbs"
  shows "map (\<lambda>r. (lr_nEntries r, lr_fractionStored r)) (wi_limitedPredictionRates (infos ! (w - 1)))
    = map (\<lambda>n. stored_row (of_nat (length rs - w))
        (sum_list (take (card (histories w rs) - unat n) (frequencies w rs))) n) (rev (sort entries))"
proof -
  have "length rs < 2 ^ 64" using assms(4) by simp
  from compute_done[of rs hbs lg entries, OF assms(1-3) this assms(5)] assms(8-10)
  have "window_done lg (sort entries) rs w (infos ! (w - 1))" by auto
  then obtain i0 where i0: "window_rates (sort entries) (branch_patterns w rs) (branch_patterns (Suc w) rs) i0 = Some (infos ! (w - 1))"
    unfolding window_done_def by blast
  have "sort entries \<noteq> []" using assms(6) by (metis length_0_conv length_sort)
  then show ?thesis
    using window_rates_limited[OF assms(1,9) _ _ assms(4) _ _ _ i0] assms(2,3,7,10) by simp
qed

lemma limited_tables_exact_witness:
  "\<exists>infos. computePredictionRate (\<lambda>x. x - 1) 1 [2] example_trace = Some infos
    \<and> map (\<lambda>r. (lr_nEntries r, lr_fractionStored r)) (wi_limitedPredictionRates (infos ! 0)) = [stored_row 6 0 2]"
proof -
  have hs: "histories 1 example_trace = {''0'', ''1''}"
    by (auto simp: histories_def example_trace_def window_def numeral_eq_Suc atMost_Suc)
  obtain infos where "computePredictionRate (\<lambda>x. x - 1) 1 [2] example_trace = Some infos"
    using windows_ok[of example_trace 1 "\<lambda>x. x - 1" "[2]"] by (auto simp: example_trace_facts)
  then show ?thesis
    using limited_tables_exact[of example_trace 1 "\<lambda>x. x - 1" "[2]" infos 1] hs by (simp add: example_trace_facts)
qed

end
