(* ===== verification/Sync_Server.thy ===== *)
theory Sync_Server
  imports Mpi_Map
begin

text \<open>
  \<open>library/mpi_sync_server.c\<close>: the server through which the processes of the coupled version tell each other in
  which cycle an MPI call was issued.  A process puts the information about its calls and asks for that of its partners; the
  server keeps it in two linked lists, of sends and of receives, and answers a query with the first
  entry that matches, which it then removes.

  The nodes are in a heap of their own: an address is a natural number and 0 is \<open>NULL\<close>.  \<open>None\<close> is
  an access through a null or dangling pointer, a loop that does not end, or the call of \<open>exit\<close> in \<open>remove_from_db\<close>.
  Sockets are the list of what is read from them; a message is read as a whole.
\<close>

subsection \<open>State\<close>

definition INFO_NOT_FOUND :: int where "INFO_NOT_FOUND = 6"

record sync_call =
  sc_type :: int
  sc_id_s :: int
  sc_id_r :: int
  sc_tag :: int
  sc_comm :: u64
  sc_issue_cycle :: u64
  sc_inst :: u64

text \<open>\<open>DB\<close> is a null pointer or has the heads of the two lists.\<close>

record sync_db =
  sd_nodes :: "nat \<Rightarrow> (sync_call \<times> nat) option"
  sd_fresh :: nat
  sd_heads :: "(nat \<times> nat) option"

definition sync_start :: sync_db where
  "sync_start = \<lparr>sd_nodes = (\<lambda>_. None), sd_fresh = 1, sd_heads = None\<rparr>"

datatype side = Sends | Receives

definition head_of :: "side \<Rightarrow> sync_db \<Rightarrow> nat option" where
  "head_of sr s = map_option (\<lambda>(a, b). case sr of Sends \<Rightarrow> a | Receives \<Rightarrow> b) (sd_heads s)"

definition set_head :: "side \<Rightarrow> nat \<Rightarrow> sync_db \<Rightarrow> sync_db option" where
  "set_head sr v s = map_option (\<lambda>(a, b). s\<lparr>sd_heads := Some (case sr of Sends \<Rightarrow> (v, b) | Receives \<Rightarrow> (a, v))\<rparr>) (sd_heads s)"

definition init_db :: "sync_db \<Rightarrow> sync_db" where
  "init_db s = s\<lparr>sd_heads := Some (0, 0)\<rparr>"

subsection \<open>Insertion\<close>

definition create_new_MPIcall_node :: "sync_call \<Rightarrow> sync_db \<Rightarrow> nat \<times> sync_db" where
  "create_new_MPIcall_node info s =
    (sd_fresh s, s\<lparr>sd_nodes := (sd_nodes s)(sd_fresh s \<mapsto> (info, 0)), sd_fresh := Suc (sd_fresh s)\<rparr>)"

text \<open>The last node of a list.\<close>

partial_function (option) last_node :: "(nat \<Rightarrow> (sync_call \<times> nat) option) \<Rightarrow> nat \<Rightarrow> nat option" where
  [code]: "last_node nodes iter = do {
     (c, next) \<leftarrow> nodes iter;
     if next = 0 then Some iter else last_node nodes next }"

definition put_side :: "sync_call \<Rightarrow> side" where
  "put_side c = (if sc_type c = PUT_SEND_INFO then Sends else Receives)"

definition insert_db :: "nat \<Rightarrow> sync_db \<Rightarrow> sync_db option" where
  "insert_db node s = do {
     (info, _) \<leftarrow> sd_nodes s node;
     let sr = put_side info;
     head \<leftarrow> head_of sr s;
     if head = 0 then set_head sr node s
     else do {
       l \<leftarrow> last_node (sd_nodes s) head;
       (c, _) \<leftarrow> sd_nodes s l;
       Some (s\<lparr>sd_nodes := (sd_nodes s)(l \<mapsto> (c, node))\<rparr>) } }"

definition update_db :: "sync_call \<Rightarrow> sync_db \<Rightarrow> sync_db option" where
  "update_db update s =
    (let s = (if sd_heads s = None then init_db s else s); (node, s) = create_new_MPIcall_node update s in insert_db node s)"

subsection \<open>Queries\<close>

definition sync_items_are_equal :: "mpi_constants \<Rightarrow> sync_call \<Rightarrow> sync_call \<Rightarrow> bool" where
  "sync_items_are_equal K a b =
    (if sc_id_s a \<noteq> sc_id_s b \<and> sc_id_s a \<noteq> MPI_ANY_SOURCE K \<and> sc_id_s b \<noteq> MPI_ANY_SOURCE K then False
     else if sc_id_r a \<noteq> sc_id_r b \<and> sc_id_r a \<noteq> MPI_ANY_SOURCE K \<and> sc_id_r b \<noteq> MPI_ANY_SOURCE K then False
     else if sc_tag a \<noteq> sc_tag b \<and> sc_tag a \<noteq> MPI_ANY_TAG K \<and> sc_tag b \<noteq> MPI_ANY_TAG K then False
     else if sc_comm a \<noteq> sc_comm b then False
     else True)"

definition clean_node :: "nat \<Rightarrow> sync_db \<Rightarrow> sync_db option" where
  "clean_node v s = (case sd_nodes s v of None \<Rightarrow> None | Some _ \<Rightarrow> Some (s\<lparr>sd_nodes := (sd_nodes s)(v := None)\<rparr>))"

text \<open>The loop of \<open>remove_from_db\<close>.\<close>

partial_function (option) unlink_node :: "nat \<Rightarrow> nat \<Rightarrow> sync_db \<Rightarrow> sync_db option" where
  [code]: "unlink_node v iter s = do {
     (c, next) \<leftarrow> sd_nodes s iter;
     if next = 0 then Some s
     else if next = v then do {
       (_, vnext) \<leftarrow> sd_nodes s v;
       clean_node v (s\<lparr>sd_nodes := (sd_nodes s)(iter \<mapsto> (c, vnext))\<rparr>) }
     else unlink_node v next s }"

definition remove_from_db :: "side \<Rightarrow> nat \<Rightarrow> sync_db \<Rightarrow> sync_db option" where
  "remove_from_db sr v s = do {
     iter \<leftarrow> head_of sr s;
     if iter = 0 then None
     else if iter = v then do {
       (_, next) \<leftarrow> sd_nodes s v;
       s \<leftarrow> set_head sr next s;
       clean_node v s }
     else unlink_node v iter s }"

text \<open>The first node whose information matches, or 0.\<close>

partial_function (option) find_node :: "mpi_constants \<Rightarrow> (nat \<Rightarrow> (sync_call \<times> nat) option) \<Rightarrow> sync_call \<Rightarrow> nat \<Rightarrow> nat option" where
  [code]: "find_node K nodes query iter =
    (if iter = 0 then Some 0
     else do {
       (info, next) \<leftarrow> nodes iter;
       if sync_items_are_equal K info query then Some iter else find_node K nodes query next })"

definition get_side :: "sync_call \<Rightarrow> side" where
  "get_side q = (if sc_type q = GET_SEND_INFO then Sends else Receives)"

definition query_db :: "mpi_constants \<Rightarrow> sync_call \<Rightarrow> sync_db \<Rightarrow> (sync_call \<times> sync_db) option" where
  "query_db K query s =
    (case sd_heads s of
       None \<Rightarrow> Some (query\<lparr>sc_type := INFO_NOT_FOUND\<rparr>, s)
     | Some _ \<Rightarrow> do {
         let sr = get_side query;
         head \<leftarrow> head_of sr s;
         iter \<leftarrow> find_node K (sd_nodes s) query head;
         if iter = 0 then Some (query\<lparr>sc_type := INFO_NOT_FOUND\<rparr>, s)
         else do {
           (info, _) \<leftarrow> sd_nodes s iter;
           s \<leftarrow> remove_from_db sr iter s;
           Some (query\<lparr>sc_issue_cycle := sc_issue_cycle info, sc_inst := sc_inst info\<rparr>, s) } })"

subsection \<open>Messages\<close>

text \<open>What \<open>read\<close> returns for a socket: nothing, at the end of the connection, or a message.\<close>

datatype sync_output = Close nat | Write nat sync_call

definition sync_process_msg :: "mpi_constants \<Rightarrow> nat \<Rightarrow> sync_call option \<Rightarrow> sync_db \<Rightarrow> (sync_output list \<times> sync_db) option" where
  "sync_process_msg K fd msg s =
    (case msg of
       None \<Rightarrow> Some ([Close fd], s)
     | Some update \<Rightarrow>
         if sc_type update = PUT_SEND_INFO \<or> sc_type update = PUT_RECV_INFO then map_option (Pair []) (update_db update s)
         else if sc_type update = GET_SEND_INFO \<or> sc_type update = GET_RECV_INFO
         then map_option (\<lambda>(query, s). ([Write fd query], s)) (query_db K update s)
         else Some ([], s))"

text \<open>The main loop over the messages in the order in which the sockets become readable.\<close>

fun sync_run :: "mpi_constants \<Rightarrow> (nat \<times> sync_call option) list \<Rightarrow> sync_db \<Rightarrow> (sync_output list \<times> sync_db) option" where
  "sync_run K [] s = Some ([], s)"
| "sync_run K ((fd, msg) # es) s = do {
     (out, s) \<leftarrow> sync_process_msg K fd msg s;
     (rest, s) \<leftarrow> sync_run K es s;
     Some (out @ rest, s) }"

end
