(* ===== verification/Sync_Theorems.thy ===== *)
theory Sync_Theorems
  imports Sync_Properties
begin

text \<open>
  The linked lists of the synchronisation server are a store of calls, and what follows for its clients.
\<close>

subsection \<open>The representation\<close>

text \<open>The addresses \<open>A\<close> of the nodes of the two lists; every allocated node is in one of them.\<close>

definition addresses_ok :: "sync_db \<Rightarrow> (side \<Rightarrow> nat list) \<Rightarrow> bool" where
  "addresses_ok s A \<longleftrightarrow> (\<forall>k. distinct (A k)) \<and> (\<forall>j k. j \<noteq> k \<longrightarrow> set (A j) \<inter> set (A k) = {})
    \<and> dom (sd_nodes s) = (\<Union>k. set (A k)) \<and> (\<forall>a \<in> dom (sd_nodes s). a < sd_fresh s) \<and> 0 < sd_fresh s"

definition lists_ok :: "sync_db \<Rightarrow> (side \<Rightarrow> nat list) \<Rightarrow> bool" where
  "lists_ok s A \<longleftrightarrow> addresses_ok s A \<and> (\<forall>k. \<exists>h. head_of k s = Some h \<and> path (sd_nodes s) h (A k))"

definition sync_rep :: "sync_db \<Rightarrow> (side \<Rightarrow> sync_call list) \<Rightarrow> bool" where
  "sync_rep s L \<longleftrightarrow> (\<exists>A. L = (\<lambda>k. infos (sd_nodes s) (A k))
    \<and> (if sd_heads s = None then addresses_ok s A \<and> A = (\<lambda>_. []) else lists_ok s A))"

lemma infos_append: "infos nodes (as @ bs) = infos nodes as @ infos nodes bs"
  by (simp add: infos_def)

lemma path_cong: "(\<And>a. a \<in> set as \<Longrightarrow> n1 a = n2 a) \<Longrightarrow> path n1 p as = path n2 p as"
  by (induction as arbitrary: p) auto

lemma path_pos: "path n p as \<Longrightarrow> a \<in> set as \<Longrightarrow> a \<noteq> 0"
  by (induction as arbitrary: p) auto

lemma sd_nodes_upd: "sd_nodes (s\<lparr>sd_nodes := n\<rparr>) = n"
  by simp

lemma head_of_heads: "head_of k s = Some h \<Longrightarrow> sd_heads s \<noteq> None"
  by (auto simp: head_of_def)

lemma head_upd [simp]: "head_of k (s\<lparr>sd_nodes := n\<rparr>) = head_of k s" "head_of k (s\<lparr>sd_fresh := f\<rparr>) = head_of k s"
  by (simp_all add: head_of_def)

lemma set_head_ok:
  assumes "head_of k s = Some h"
  obtains s' where "set_head k v s = Some s'" "sd_nodes s' = sd_nodes s" "sd_fresh s' = sd_fresh s"
    "head_of k s' = Some v" "\<And>j. j \<noteq> k \<Longrightarrow> head_of j s' = head_of j s"
proof -
  obtain a b where "sd_heads s = Some (a, b)" using assms by (auto simp: head_of_def)
  then show ?thesis using that[of "s\<lparr>sd_heads := Some (case k of Sends \<Rightarrow> (v, b) | Receives \<Rightarrow> (a, v))\<rparr>"]
    by (cases k) (auto simp: set_head_def head_of_def split: side.splits)
qed

lemma start_rep: "sync_rep sync_start (\<lambda>_. [])"
  by (auto simp: sync_rep_def sync_start_def addresses_ok_def infos_def)

lemma init_rep: "sync_rep s L \<Longrightarrow> sd_heads s = None \<Longrightarrow> sync_rep (init_db s) L"
  by (auto simp: sync_rep_def lists_ok_def addresses_ok_def init_db_def head_of_def split: side.split)

subsection \<open>Insertion\<close>

text \<open>A new node \<open>b\<close> that is in no list yet.\<close>

lemma insert_ok:
  assumes "lists_ok s A" "b = sd_fresh s" "s1 = s\<lparr>sd_nodes := (sd_nodes s)(b \<mapsto> (c, 0)), sd_fresh := Suc b\<rparr>"
  shows "\<exists>s'. insert_db b s1 = Some s' \<and> lists_ok s' (A(put_side c := A (put_side c) @ [b]))
    \<and> (\<forall>as. b \<notin> set as \<longrightarrow> infos (sd_nodes s') as = infos (sd_nodes s) as) \<and> infos (sd_nodes s') [b] = [c]"
proof -
  let ?k = "put_side c" and ?n1 = "(sd_nodes s)(b \<mapsto> (c, 0))"
  let ?A = "A(?k := A ?k @ [b])"
  have ok: "addresses_ok s A" and hs: "\<And>k. \<exists>h. head_of k s = Some h \<and> path (sd_nodes s) h (A k)"
    using assms(1) by (auto simp: lists_ok_def)
  have b: "b \<notin> set (A k)" "b \<noteq> 0" for k using ok assms(2) by (force simp: addresses_ok_def)+
  have ok1: "addresses_ok t ?A" if "dom (sd_nodes t) = insert b (dom (sd_nodes s))" "sd_fresh t = Suc b" for t
  proof -
    have "(\<Union>k. set (?A k)) = insert b (\<Union>k. set (A k))" by (auto split: if_splits)
    then show ?thesis using ok b that assms(2) unfolding addresses_ok_def by (simp add: less_Suc_eq)
  qed
  have hs1: "\<exists>h. head_of k s1 = Some h \<and> path ?n1 h (A k)" for k
    using hs[of k] path_upd[OF b(1)] by (simp add: assms(3))
  then obtain h where h: "head_of ?k s1 = Some h" "path ?n1 h (A ?k)" by blast
  show ?thesis
  proof (cases "A ?k = []")
    case True
    obtain s' where s': "set_head ?k b s1 = Some s'" "sd_nodes s' = ?n1" "sd_fresh s' = Suc b"
      "head_of ?k s' = Some b" "\<And>j. j \<noteq> ?k \<Longrightarrow> head_of j s' = head_of j s1"
      using set_head_ok[OF h(1)] by (metis assms(3) select_convs(1,2) surjective update_convs(1,2))
    have "lists_ok s' ?A"
      unfolding lists_ok_def using ok1[of s'] s' hs1 True b(2) by (auto simp: dom_fun_upd)
    moreover have "insert_db b s1 = Some s'"
      using h True s'(1) by (simp add: insert_db_def assms(3) Let_def)
    ultimately show ?thesis using s'(2) by (auto simp: infos_def)
  next
    case False
    then obtain as l where A: "A ?k = as @ [l]" by (metis rev_exhaust)
    then obtain d m where l: "sd_nodes s l = Some (d, m)" using path_dom[of "sd_nodes s"] hs[of ?k] by fastforce
    let ?n2 = "?n1(l \<mapsto> (d, b))" and ?s' = "s1\<lparr>sd_nodes := ?n1(l \<mapsto> (d, b))\<rparr>"
    have "l \<noteq> b" using b(1)[of ?k] A by auto
    have "distinct (A ?k)" using ok by (simp add: addresses_ok_def)
    then have "distinct (as @ [l, b])" using b(1)[of ?k] A by auto
    then have "path ?n2 h (as @ [l, b])" using h(2) b(2) l \<open>l \<noteq> b\<close> unfolding A by (intro path_snoc) auto
    moreover have "\<exists>h. head_of k s1 = Some h \<and> path ?n2 h (A k)" if "k \<noteq> ?k" for k
    proof -
      have "l \<notin> set (A k)" using ok A that by (force simp: addresses_ok_def)
      then show ?thesis using hs1[of k] by (simp add: path_upd)
    qed
    ultimately have "lists_ok ?s' ?A"
      unfolding lists_ok_def using ok1[of ?s'] h(1) A l by (auto simp: assms(3))
    moreover have "insert_db b s1 = Some ?s'"
      using h False last_node_path[OF h(2) False] A l \<open>l \<noteq> b\<close> path_0[of ?n1 "A ?k"]
      by (auto simp: insert_db_def assms(3) Let_def)
    ultimately show ?thesis using l \<open>l \<noteq> b\<close> by (auto simp: infos_def)
  qed
qed

lemma update_ok:
  assumes "sync_rep s L"
  shows "\<exists>s'. update_db c s = Some s' \<and> sync_rep s' (L(put_side c := L (put_side c) @ [c]))"
proof -
  define s0 where "s0 = (if sd_heads s = None then init_db s else s)"
  have "sync_rep s0 L" "sd_heads s0 \<noteq> None" using assms init_rep[of s L] by (auto simp: s0_def init_db_def)
  then obtain A where A: "L = (\<lambda>k. infos (sd_nodes s0) (A k))" "lists_ok s0 A" by (auto simp: sync_rep_def)
  let ?b = "sd_fresh s0"
  from insert_ok[OF A(2) refl refl, of c] obtain s' where
    s': "insert_db ?b (s0\<lparr>sd_nodes := (sd_nodes s0)(?b \<mapsto> (c, 0)), sd_fresh := Suc ?b\<rparr>) = Some s'"
      "lists_ok s' (A(put_side c := A (put_side c) @ [?b]))"
      "\<forall>as. ?b \<notin> set as \<longrightarrow> infos (sd_nodes s') as = infos (sd_nodes s0) as" "infos (sd_nodes s') [?b] = [c]"
    by blast
  have "update_db c s = Some s'"
    using s'(1) by (simp add: update_db_def Let_def create_new_MPIcall_node_def flip: s0_def)
  moreover have "?b \<notin> set (A k)" for k using A(2) by (force simp: lists_ok_def addresses_ok_def)
  then have "(L(put_side c := L (put_side c) @ [c])) k = infos (sd_nodes s') ((A(put_side c := A (put_side c) @ [?b])) k)" for k
    using s'(3,4) infos_append[of "sd_nodes s'" "A (put_side c)" "[?b]"] by (simp add: A(1))
  moreover have "sd_heads s' \<noteq> None" using s'(2) head_of_heads by (fastforce simp: lists_ok_def)
  ultimately show ?thesis using s'(2) unfolding sync_rep_def by (metis (no_types, lifting) ext)
qed

subsection \<open>Removal and queries\<close>

lemma remove_ok:
  assumes "lists_ok s A" "A k = xs @ v # ys"
  shows "\<exists>s'. remove_from_db k v s = Some s' \<and> lists_ok s' (A(k := xs @ ys))
    \<and> (\<forall>as. v \<notin> set as \<longrightarrow> infos (sd_nodes s') as = infos (sd_nodes s) as)"
proof -
  let ?A = "A(k := xs @ ys)"
  have ok: "addresses_ok s A" and hs: "\<And>k. \<exists>h. head_of k s = Some h \<and> path (sd_nodes s) h (A k)"
    using assms(1) by (auto simp: lists_ok_def)
  have d2: "set (A j) \<inter> set (A k) = {}" if "j \<noteq> k" for j using ok that by (simp add: addresses_ok_def)
  have "distinct (A k)" using ok by (simp add: addresses_ok_def)
  then have d1: "distinct (xs @ v # ys)" by (simp only: assms(2))
  have "dom (sd_nodes s) - {v} = (\<Union>j. set (?A j))"
  proof -
    have "v \<notin> set (A j)" if "j \<noteq> k" for j using d2[OF that] assms(2) by auto
    then have "set (A j) - {v} = set (?A j)" for j using d1 assms(2) by (cases "j = k") auto
    then have "(\<Union>j. set (A j)) - {v} = (\<Union>j. set (?A j))" by blast
    then show ?thesis using ok by (simp add: addresses_ok_def)
  qed
  note dom = this
  have ok1: "addresses_ok t ?A" if "dom (sd_nodes t) = dom (sd_nodes s) - {v}" "sd_fresh t = sd_fresh s" for t
  proof -
    have "distinct (?A j)" for j using ok d1 unfolding addresses_ok_def by simp
    moreover have "set (?A i) \<inter> set (?A j) = {}" if "i \<noteq> j" for i j
    proof -
      have "set (A i) \<inter> set (A j) = {}" using ok that by (simp add: addresses_ok_def)
      moreover have "set (?A i) \<subseteq> set (A i)" "set (?A j) \<subseteq> set (A j)" using assms(2) by auto
      ultimately show ?thesis by blast
    qed
    moreover have "\<forall>a \<in> dom (sd_nodes t). a < sd_fresh t" "0 < sd_fresh t" using ok that unfolding addresses_ok_def by simp_all
    ultimately show ?thesis using that(1) dom unfolding addresses_ok_def by simp
  qed
  obtain h where h: "head_of k s = Some h" "path (sd_nodes s) h (xs @ v # ys)" using hs[of k] assms(2) by auto
  show ?thesis
  proof (cases xs)
    case Nil
    then obtain c n where n: "h = v" "v \<noteq> 0" "sd_nodes s v = Some (c, n)" "path (sd_nodes s) n ys" using h(2) by auto
    obtain s1 where s1: "set_head k n s = Some s1" "sd_nodes s1 = sd_nodes s" "sd_fresh s1 = sd_fresh s"
      "head_of k s1 = Some n" "\<And>j. j \<noteq> k \<Longrightarrow> head_of j s1 = head_of j s"
      using set_head_ok[OF h(1), of n] by metis
    let ?s' = "s1\<lparr>sd_nodes := (sd_nodes s)(v := None)\<rparr>"
    have "remove_from_db k v s = Some ?s'" using h(1) n(1-3) s1(1,2) by (simp add: remove_from_db_def clean_node_def)
    moreover have "path ((sd_nodes s)(v := None)) n ys" using n(4) d1 Nil by (simp add: path_upd)
    moreover have "\<exists>h. head_of j s = Some h \<and> path ((sd_nodes s)(v := None)) h (A j)" if "j \<noteq> k" for j
    proof -
      have "v \<notin> set (A j)" using d2[OF that] assms(2) by auto
      then show ?thesis using hs[of j] by (simp add: path_upd)
    qed
    ultimately have "lists_ok ?s' ?A" unfolding lists_ok_def using ok1[of ?s'] s1 Nil by auto
    then show ?thesis using \<open>remove_from_db k v s = Some ?s'\<close> by (auto simp: infos_upd)
  next
    case (Cons b zs)
    have "h = b" "b \<noteq> 0" "b \<noteq> v" using h(2) d1 Cons by auto
    obtain nodes where u: "unlink_node v h s = Some (s\<lparr>sd_nodes := nodes(v := None)\<rparr>)" "path nodes h (xs @ ys)"
      "\<forall>a. a \<notin> set xs \<longrightarrow> nodes a = sd_nodes s a" "\<forall>as. infos nodes as = infos (sd_nodes s) as" "dom nodes = dom (sd_nodes s)"
      using unlink_path[of s h b zs v ys] h(2) d1 unfolding Cons append_Cons by blast
    let ?s' = "s\<lparr>sd_nodes := nodes(v := None)\<rparr>"
    have r: "remove_from_db k v s = Some ?s'" using h(1) u(1) \<open>h = b\<close> \<open>b \<noteq> 0\<close> \<open>b \<noteq> v\<close> by (simp add: remove_from_db_def)
    have "path (nodes(v := None)) h (xs @ ys)" using u(2) d1 by (simp add: path_upd)
    moreover have "\<exists>h. head_of j s = Some h \<and> path (nodes(v := None)) h (A j)" if "j \<noteq> k" for j
    proof -
      have out: "v \<notin> set (A j)" "set (A j) \<inter> set xs = {}" using d2[OF that] assms(2) by auto
      obtain hj where "head_of j s = Some hj" "path (sd_nodes s) hj (A j)" using hs by blast
      moreover from this(2) have "path nodes hj (A j)" using path_cong[of "A j" nodes "sd_nodes s" hj] out(2) u(3) by blast
      ultimately show ?thesis using out(1) by (simp add: path_upd)
    qed
    ultimately have "lists_ok ?s' ?A" unfolding lists_ok_def using ok1[of ?s'] u(5) h(1) by auto
    then show ?thesis using r u(4) by (metis infos_upd sd_nodes_upd)
  qed
qed

lemma extract_map:
  "List.extract P (map f xs) = map_option (\<lambda>(as, x, bs). (map f as, f x, map f bs)) (List.extract (\<lambda>x. P (f x)) xs)"
  by (induction xs) (auto simp: extract_Nil_code extract_Cons_code split: option.split)

definition sync_answer :: "sync_call option \<Rightarrow> sync_call \<Rightarrow> sync_call" where
  "sync_answer c q = (case c of None \<Rightarrow> q\<lparr>sc_type := INFO_NOT_FOUND\<rparr>
     | Some c \<Rightarrow> q\<lparr>sc_issue_cycle := sc_issue_cycle c, sc_inst := sc_inst c\<rparr>)"

lemma find_rep:
  assumes "lists_ok s A" "head_of (get_side q) s = Some h"
  shows "find_node K (sd_nodes s) q h = Some (case List.extract (\<lambda>a. sync_items_are_equal K (fst (the (sd_nodes s a))) q) (A (get_side q)) of
    None \<Rightarrow> 0 | Some (xs, v, ys) \<Rightarrow> v)"
  using assms by (intro find_path) (metis lists_ok_def option.inject)

lemma query_none:
  assumes "sync_rep s L" "List.extract (\<lambda>c. sync_items_are_equal K c q) (L (get_side q)) = None"
  shows "\<exists>s'. query_db K q s = Some (sync_answer None q, s') \<and> sync_rep s' L"
proof (cases "sd_heads s")
  case None
  then show ?thesis using assms(1) by (simp add: query_db_def sync_answer_def)
next
  case (Some hs)
  then obtain A where A: "L = (\<lambda>k. infos (sd_nodes s) (A k))" "lists_ok s A" using assms(1) by (auto simp: sync_rep_def)
  obtain h where h: "head_of (get_side q) s = Some h" using A(2) by (auto simp: lists_ok_def)
  have "List.extract (\<lambda>a. sync_items_are_equal K (fst (the (sd_nodes s a))) q) (A (get_side q)) = None"
    using assms(2) by (simp add: A(1) infos_def extract_map)
  then show ?thesis using find_rep[OF A(2) h, of K] h Some assms(1) by (simp add: query_db_def sync_answer_def Let_def)
qed

lemma query_some:
  assumes "sync_rep s L" "List.extract (\<lambda>c. sync_items_are_equal K c q) (L (get_side q)) = Some (xs, c, ys)"
  shows "\<exists>s'. query_db K q s = Some (sync_answer (Some c) q, s') \<and> sync_rep s' (L(get_side q := xs @ ys))"
proof -
  let ?k = "get_side q"
  have "L \<noteq> (\<lambda>_. [])" using assms(2) by (auto simp: extract_Nil_code)
  then obtain A where A: "L = (\<lambda>k. infos (sd_nodes s) (A k))" "lists_ok s A" "sd_heads s \<noteq> None"
    using assms(1) by (auto simp: sync_rep_def infos_def split: if_splits)
  obtain as v bs where ex: "List.extract (\<lambda>a. sync_items_are_equal K (fst (the (sd_nodes s a))) q) (A ?k) = Some (as, v, bs)"
    "xs = infos (sd_nodes s) as" "c = fst (the (sd_nodes s v))" "ys = infos (sd_nodes s) bs"
    using assms(2) by (auto simp: A(1) infos_def extract_map)
  then have Ak: "A ?k = as @ v # bs" by (simp add: extract_Some_iff)
  obtain h where h: "head_of ?k s = Some h" "path (sd_nodes s) h (A ?k)" using A(2) by (auto simp: lists_ok_def)
  obtain n where v: "sd_nodes s v = Some (c, n)" using path_dom[OF h(2), of v] Ak ex(3) by auto
  have "v \<noteq> 0" using path_pos[OF h(2)] Ak by simp
  obtain s' where s': "remove_from_db ?k v s = Some s'" "lists_ok s' (A(?k := as @ bs))"
    "\<forall>as. v \<notin> set as \<longrightarrow> infos (sd_nodes s') as = infos (sd_nodes s) as"
    using remove_ok[OF A(2) Ak] by blast
  have "query_db K q s = Some (sync_answer (Some c) q, s')"
    using find_rep[OF A(2) h(1), of K] ex(1) h(1) A(3) v \<open>v \<noteq> 0\<close> s'(1) by (auto simp: query_db_def sync_answer_def Let_def)
  moreover have "(L(?k := xs @ ys)) j = infos (sd_nodes s') ((A(?k := as @ bs)) j)" for j
  proof -
    have "distinct (A ?k)" "j \<noteq> ?k \<Longrightarrow> set (A j) \<inter> set (A ?k) = {}" using A(2) unfolding lists_ok_def addresses_ok_def by metis+
    then have "v \<notin> set ((A(?k := as @ bs)) j)" using Ak by auto
    then show ?thesis using s'(3) by (cases "j = ?k") (simp_all add: ex(2,4) A(1) infos_append)
  qed
  moreover have "sd_heads s' \<noteq> None" using s'(2) head_of_heads unfolding lists_ok_def by metis
  ultimately show ?thesis using s'(2) unfolding sync_rep_def by (metis (no_types, lifting) ext)
qed

interpretation sync: matching_store sync_rep put_side get_side "sync_items_are_equal K" sync_answer update_db "query_db K" for K
  by unfold_locales (use update_ok query_none query_some in blast)+

subsection \<open>The server\<close>

text \<open>The specification: what a message does to two lists of calls, and what the server answers.\<close>

fun sync_spec :: "mpi_constants \<Rightarrow> (nat \<times> sync_call option) list \<Rightarrow> (side \<Rightarrow> sync_call list)
    \<Rightarrow> sync_output list \<times> (side \<Rightarrow> sync_call list)" where
  "sync_spec K [] L = ([], L)"
| "sync_spec K ((fd, None) # es) L = (let (out, L) = sync_spec K es L in (Close fd # out, L))"
| "sync_spec K ((fd, Some c) # es) L =
    (if sc_type c \<in> {PUT_SEND_INFO, PUT_RECV_INFO} then sync_spec K es (L(put_side c := L (put_side c) @ [c]))
     else if sc_type c \<in> {GET_SEND_INFO, GET_RECV_INFO}
     then (case List.extract (\<lambda>x. sync_items_are_equal K x c) (L (get_side c)) of
         None \<Rightarrow> (let (out, L) = sync_spec K es L in (Write fd (c\<lparr>sc_type := INFO_NOT_FOUND\<rparr>) # out, L))
       | Some (xs, x, ys) \<Rightarrow> (let (out, L) = sync_spec K es (L(get_side c := xs @ ys))
           in (Write fd (c\<lparr>sc_issue_cycle := sc_issue_cycle x, sc_inst := sc_inst x\<rparr>) # out, L)))
     else sync_spec K es L)"

lemma sync_run_spec:
  assumes "sync_rep s L"
  shows "\<exists>s'. sync_run K es s = Some (fst (sync_spec K es L), s') \<and> sync_rep s' (snd (sync_spec K es L))"
  using assms
proof (induction K es L arbitrary: s rule: sync_spec.induct)
  case (2 K fd es L)
  from 2(1)[OF 2(2)] show ?case by (auto simp: sync_process_msg_def case_prod_unfold Let_def)
next
  case (3 K fd c es L)
  consider "sc_type c \<in> {PUT_SEND_INFO, PUT_RECV_INFO}"
    | "sc_type c \<notin> {PUT_SEND_INFO, PUT_RECV_INFO}" "sc_type c \<in> {GET_SEND_INFO, GET_RECV_INFO}"
    | "sc_type c \<notin> {PUT_SEND_INFO, PUT_RECV_INFO}" "sc_type c \<notin> {GET_SEND_INFO, GET_RECV_INFO}" by blast
  then show ?case
  proof cases
    case 1
    obtain s1 where "update_db c s = Some s1" "sync_rep s1 (L(put_side c := L (put_side c) @ [c]))" using update_ok[OF 3(5)] by blast
    then show ?thesis using 3(1)[OF 1, of s1] 1 by (auto simp: sync_process_msg_def simp del: fun_upd_apply)
  next
    case 2
    show ?thesis
    proof (cases "List.extract (\<lambda>x. sync_items_are_equal K x c) (L (get_side c))")
      case None
      obtain s1 where "query_db K c s = Some (sync_answer None c, s1)" "sync_rep s1 L" using query_none[OF 3(5) None] by blast
      then show ?thesis using 3(2)[OF 2 None, of s1] 2 None
        by (auto simp: sync_process_msg_def case_prod_unfold Let_def sync_answer_def)
    next
      case (Some t)
      obtain xs x ys where t: "t = (xs, x, ys)" by (cases t)
      obtain s1 where "query_db K c s = Some (sync_answer (Some x) c, s1)" "sync_rep s1 (L(get_side c := xs @ ys))"
        using query_some[OF 3(5)] Some t by blast
      then show ?thesis using 3(3)[OF 2 Some t[symmetric] refl, of s1] 2 Some t
        by (auto simp: sync_process_msg_def case_prod_unfold Let_def sync_answer_def simp del: fun_upd_apply)
    qed
  next
    case 3
    then show ?thesis using "3.IH"(4)[OF 3 "3.prems"] by (auto simp: sync_process_msg_def)
  qed
qed simp

text \<open>C17: the linked lists of the server implement two queues of calls.  For every sequence of messages
  (in any order, from any number of processes, and also when the first message is a query) the loops of the server end,
  no null or freed node is used, the answers are those of the specification (the oldest entry that matches, or \<open>INFO_NOT_FOUND\<close>),
  and at the end exactly the nodes of the two lists are allocated.\<close>

theorem sync_server_refines:
  "\<exists>s. sync_run K es sync_start = Some (fst (sync_spec K es (\<lambda>_. [])), s)
    \<and> sync_rep s (snd (sync_spec K es (\<lambda>_. [])))"
  using start_rep by (rule sync_run_spec)

text \<open>What a call tells its partner, the calls that are put into a queue, and the answers of a queue.\<close>

definition told :: "sync_call \<Rightarrow> u64 \<times> u64" where
  "told c = (sc_issue_cycle c, sc_inst c)"

definition put_calls :: "side \<Rightarrow> (nat \<times> sync_call option) list \<Rightarrow> sync_call list" where
  "put_calls k es = [c. (_, Some c) \<leftarrow> es, (sc_type c = PUT_SEND_INFO \<or> sc_type c = PUT_RECV_INFO) \<and> put_side c = k]"

definition answers :: "side \<Rightarrow> sync_output list \<Rightarrow> sync_call list" where
  "answers k out = [c. Write _ c \<leftarrow> out, sc_type c \<noteq> INFO_NOT_FOUND \<and> get_side c = k]"

lemma queue_lists [simp]: "put_calls k [] = []" "answers k [] = []" "put_calls k ((fd, None) # es) = put_calls k es"
  "put_calls k ((fd, Some c) # es) = (if (sc_type c = PUT_SEND_INFO \<or> sc_type c = PUT_RECV_INFO) \<and> put_side c = k then c # put_calls k es else put_calls k es)"
  "answers k (Close fd # out) = answers k out"
  "answers k (Write fd c # out) = (if sc_type c \<noteq> INFO_NOT_FOUND \<and> get_side c = k then c # answers k out else answers k out)"
  by (simp_all add: put_calls_def answers_def)

lemma answer_sides [simp]: "get_side (c\<lparr>sc_issue_cycle := x, sc_inst := y\<rparr>) = get_side c"
  by (simp add: get_side_def)

lemma sync_spec_conserves:
  "mset (map told (snd (sync_spec K es L) k)) + mset (map told (answers k (fst (sync_spec K es L))))
    = mset (map told (L k)) + mset (map told (put_calls k es))"
proof (induction K es L rule: sync_spec.induct)
  case (3 K fd c es L)
  consider "sc_type c \<in> {PUT_SEND_INFO, PUT_RECV_INFO}"
    | "sc_type c \<notin> {PUT_SEND_INFO, PUT_RECV_INFO}" "sc_type c \<in> {GET_SEND_INFO, GET_RECV_INFO}"
    | "sc_type c \<notin> {PUT_SEND_INFO, PUT_RECV_INFO}" "sc_type c \<notin> {GET_SEND_INFO, GET_RECV_INFO}" by blast
  then show ?case
  proof cases
    case 1
    then show ?thesis using "3.IH"(1)[OF 1] by (auto simp: fun_upd_same fun_upd_other simp del: fun_upd_apply)
  next
    case 2
    show ?thesis
    proof (cases "List.extract (\<lambda>x. sync_items_are_equal K x c) (L (get_side c))")
      case None
      then show ?thesis using "3.IH"(2)[OF 2 None] 2 by (simp add: case_prod_unfold Let_def)
    next
      case (Some t)
      obtain xs x ys where t: "t = (xs, x, ys)" by (cases t)
      then have L: "L (get_side c) = xs @ x # ys" using Some by (simp add: extract_Some_iff)
      have "sc_type c \<noteq> INFO_NOT_FOUND" using 2 by (auto simp: GET_SEND_INFO_def GET_RECV_INFO_def INFO_NOT_FOUND_def)
      then show ?thesis using "3.IH"(3)[OF 2 Some t[symmetric] refl] 2 Some L unfolding t
        by (cases "get_side c = k")
          (simp_all add: case_prod_unfold Let_def told_def fun_upd_same fun_upd_other del: fun_upd_apply)
    qed
  next
    case 3
    then show ?thesis using "3.IH"(4)[OF 3] by simp
  qed
qed (simp_all add: case_prod_unfold Let_def)

text \<open>C19: every call is told at most once, and none is lost.  At any time the cycles (and numbers of instructions) with which the queries for
  sends were answered, together with those of the entries that are still stored, are exactly those of the sends that
  were reported; and the same for receives.\<close>

theorem sync_tells_once:
  assumes "sync_run K es sync_start = Some (out, s)"
  shows "\<exists>L. sync_rep s L
    \<and> mset (map told (put_calls k es)) = mset (map told (answers k out)) + mset (map told (L k))"
proof -
  obtain s' where "sync_run K es sync_start = Some (fst (sync_spec K es (\<lambda>_. [])), s')" "sync_rep s' (snd (sync_spec K es (\<lambda>_. [])))"
    using sync_run_spec[OF start_rep] by blast
  then show ?thesis using sync_spec_conserves[of K es "\<lambda>_. []" k] assms by (auto simp: add.commute)
qed

definition example_call :: "int \<Rightarrow> u64 \<Rightarrow> sync_call" where
  "example_call t cycle = \<lparr>sc_type = t, sc_id_s = 0, sc_id_r = 1, sc_tag = 7, sc_comm = 5, sc_issue_cycle = cycle, sc_inst = 0\<rparr>"

definition example_messages :: "(nat \<times> sync_call option) list" where
  "example_messages = [(4, Some (example_call PUT_SEND_INFO 10)), (4, Some (example_call PUT_SEND_INFO 11)),
     (5, Some (example_call GET_SEND_INFO 0))]"

lemma sync_tells_once_witness:
  "\<exists>s L. sync_run \<lparr>MPI_ANY_SOURCE = -1, MPI_ANY_TAG = -1\<rparr> example_messages sync_start = Some ([Write 5 (example_call GET_SEND_INFO 10)], s)
    \<and> sync_rep s L \<and> {#(10, 0), (11, 0)#} = {#(10, 0)#} + mset (map told (L Sends))"
proof -
  have spec: "fst (sync_spec \<lparr>MPI_ANY_SOURCE = -1, MPI_ANY_TAG = -1\<rparr> example_messages (\<lambda>_. [])) = [Write 5 (example_call GET_SEND_INFO 10)]"
    by (simp add: example_messages_def example_call_def PUT_SEND_INFO_def GET_SEND_INFO_def PUT_RECV_INFO_def GET_RECV_INFO_def
        put_side_def get_side_def extract_Cons_code sync_items_are_equal_def)
  obtain s where "sync_run \<lparr>MPI_ANY_SOURCE = -1, MPI_ANY_TAG = -1\<rparr> example_messages sync_start = Some ([Write 5 (example_call GET_SEND_INFO 10)], s)"
    using sync_run_spec[OF start_rep, of "\<lparr>MPI_ANY_SOURCE = -1, MPI_ANY_TAG = -1\<rparr>" example_messages] unfolding spec by blast
  with sync_tells_once[OF this, of Sends] show ?thesis
    by (simp add: example_messages_def example_call_def told_def put_side_def get_side_def
        PUT_SEND_INFO_def GET_SEND_INFO_def PUT_RECV_INFO_def GET_RECV_INFO_def INFO_NOT_FOUND_def)
qed

subsection \<open>The data base of \<open>MPImap\<close>\<close>

text \<open>The data base in which \<open>MPImap.cc\<close> keeps the messages of the decoupled version is a store of calls as well,
  although its matching differs: the receiver has to be equal, and a query with any source gets that of the sender.\<close>

definition map_rep :: "mpi_db \<Rightarrow> (side \<Rightarrow> mpi_call list) \<Rightarrow> bool" where
  "map_rep db L \<longleftrightarrow> L Sends = s_call db \<and> L Receives = r_call db"

definition map_side :: "int \<Rightarrow> mpi_call \<Rightarrow> side" where
  "map_side t c = (if cl_type c = t then Sends else Receives)"

definition map_matches :: "mpi_constants \<Rightarrow> mpi_call \<Rightarrow> mpi_call \<Rightarrow> bool" where
  "map_matches K c q \<longleftrightarrow> items_are_equal K c q \<noteq> None"

definition map_answer :: "mpi_constants \<Rightarrow> mpi_call option \<Rightarrow> mpi_call \<Rightarrow> mpi_call option" where
  "map_answer K c q = (case c of None \<Rightarrow> None
     | Some c \<Rightarrow> map_option (\<lambda>q. q\<lparr>cl_inst := cl_inst c, cl_dif := cl_dif c\<rparr>) (items_are_equal K c q))"

definition map_take :: "mpi_constants \<Rightarrow> mpi_call \<Rightarrow> mpi_db \<Rightarrow> (mpi_call option \<times> mpi_db) option" where
  "map_take K q db = Some (case recv_msg_from_db K q db of None \<Rightarrow> (None, db) | Some (q, db) \<Rightarrow> (Some q, db))"

lemma find_call_extract:
  "find_call K cs q = (case List.extract (\<lambda>c. map_matches K c q) cs of None \<Rightarrow> None
    | Some (xs, c, ys) \<Rightarrow> map_option (Pair (length xs)) (items_are_equal K c q))"
  by (induction cs) (auto simp: extract_Nil_code extract_Cons_code map_matches_def option.map_comp comp_def split: option.split)

interpretation map_db: matching_store map_rep "map_side PUT_SEND_INFO" "map_side GET_SEND_INFO" "map_matches K" "map_answer K"
  "\<lambda>c db. Some (send_msg_to_db c db)" "map_take K" for K
proof unfold_locales
  fix s L c assume "map_rep s L"
  then show "\<exists>s'. Some (send_msg_to_db c s) = Some s' \<and> map_rep s' (L(map_side PUT_SEND_INFO c := L (map_side PUT_SEND_INFO c) @ [c]))"
    by (simp add: send_msg_to_db_def map_rep_def map_side_def)
next
  fix s L q assume "map_rep s L" "List.extract (\<lambda>c. map_matches K c q) (L (map_side GET_SEND_INFO q)) = None"
  then show "\<exists>s'. map_take K q s = Some (map_answer K None q, s') \<and> map_rep s' L"
    by (auto simp: map_take_def recv_msg_from_db_def map_rep_def map_side_def map_answer_def find_call_extract split: if_splits)
next
  fix s L q xs c ys
  assume s: "map_rep s L" and ex: "List.extract (\<lambda>c. map_matches K c q) (L (map_side GET_SEND_INFO q)) = Some (xs, c, ys)"
  then have L: "L (map_side GET_SEND_INFO q) = xs @ c # ys" "map_matches K c q" by (simp_all add: extract_Some_iff)
  then obtain y where y: "items_are_equal K c q = Some y" by (auto simp: map_matches_def)
  have f: "find_call K (L (map_side GET_SEND_INFO q)) q = Some (length xs, y)" by (simp add: find_call_extract ex y)
  show "\<exists>s'. map_take K q s = Some (map_answer K (Some c) q, s') \<and> map_rep s' (L(map_side GET_SEND_INFO q := xs @ ys))"
  proof (cases "cl_type q = GET_SEND_INFO")
    case True
    then have "s_call s = xs @ c # ys" using s L(1) by (simp add: map_rep_def map_side_def)
    then show ?thesis using True f s y
      by (simp add: map_take_def recv_msg_from_db_def map_rep_def map_side_def map_answer_def erase_at_def Let_def)
  next
    case False
    then have "r_call s = xs @ c # ys" using s L(1) by (simp add: map_rep_def map_side_def)
    then show ?thesis using False f s y
      by (simp add: map_take_def recv_msg_from_db_def map_rep_def map_side_def map_answer_def erase_at_def Let_def)
  qed
qed

text \<open>A query that is answered removes a call that matches it, and what it learns is from that call.\<close>

lemma map_db_answers:
  assumes "map_rep s L" "map_take K q s = Some (Some r, s')"
  shows "\<exists>xs c ys. L (map_side GET_SEND_INFO q) = xs @ c # ys \<and> map_matches K c q \<and> (\<forall>x \<in> set xs. \<not> map_matches K x q)
    \<and> map_rep s' (L(map_side GET_SEND_INFO q := xs @ ys)) \<and> cl_inst r = cl_inst c \<and> cl_dif r = cl_dif c"
proof (cases "List.extract (\<lambda>c. map_matches K c q) (L (map_side GET_SEND_INFO q))")
  case None
  then show ?thesis using map_db.take_none[OF assms(1) None] assms(2) by (auto simp: map_answer_def)
next
  case (Some t)
  obtain xs c ys where t: "t = (xs, c, ys)" by (cases t)
  then have ex: "L (map_side GET_SEND_INFO q) = xs @ c # ys" "map_matches K c q" "\<forall>x \<in> set xs. \<not> map_matches K x q"
    using Some by (auto simp: extract_Some_iff)
  have "map_rep s' (L(map_side GET_SEND_INFO q := xs @ ys))" "Some r = map_answer K (Some c) q"
    using map_db.take_some[OF assms(1) Some[unfolded t]] assms(2) by auto
  moreover from this(2) have "cl_inst r = cl_inst c" "cl_dif r = cl_dif c" by (auto simp: map_answer_def dest: sym)
  ultimately show ?thesis using ex by blast
qed

end
