(* ===== verification/Client_Library.thy ===== *)
theory Client_Library
  imports Server_End_Inv
begin

text \<open>
  \<open>library/libanalysisDecoupled.cc\<close>: the library that an instrumented program of the decoupled version calls.  Every hook makes
  a message and writes it to the socket of the calling thread.

  The number of the thread (\<open>omp_get_thread_num\<close>), the rank of the process and the result of \<open>connect\<close> are parameters, and so are
  the bytes of a message (\<open>struct message\<close> in memory).  \<open>None\<close> is the \<open>exit\<close> after an error, an assertion that fails, or
  undefined behaviour.
\<close>

subsection \<open>Writing to a socket\<close>

text \<open>\<open>writes\<close> are the results of \<open>write\<close>: the number of bytes that it took, or an error.  The result has the
  count, the bytes that were written and the writes to come.\<close>

fun write_rest :: "int list \<Rightarrow> 'b list \<Rightarrow> nat \<Rightarrow> (int \<times> 'b list \<times> int list) option" where
  "write_rest writes buf totalCount =
    (if totalCount < length buf
     then (case writes of [] \<Rightarrow> None
       | c # writes \<Rightarrow> if c > 0 then write_rest writes buf (totalCount + nat c) else None)
     else if totalCount = length buf then Some (int totalCount, buf, writes) else None)"

declare write_rest.simps [simp del]

definition safeWrite :: "int list \<Rightarrow> 'b list \<Rightarrow> (int \<times> 'b list \<times> int list) option" where
  "safeWrite writes buf = (case writes of [] \<Rightarrow> None
     | c # writes \<Rightarrow> if c \<le> 0 then Some (c, [], writes) else write_rest writes buf (nat c))"

subsection \<open>The state of the library\<close>

text \<open>The socket of each thread, and what was written to each socket.\<close>

record 'b client =
  cl_ip :: string
  cl_portno :: int
  cl_max_expected_threads :: int
  cl_DataForThreads :: "int list"
  cl_InitializedThreads :: "bool list"
  cl_sent :: "int \<Rightarrow> 'b list"
  cl_total_msg_sent :: u64

definition client_start :: "'b client" where
  "client_start = \<lparr>cl_ip = [], cl_portno = -1, cl_max_expected_threads = 0, cl_DataForThreads = [], cl_InitializedThreads = [],
     cl_sent = (\<lambda>_. []), cl_total_msg_sent = 0\<rparr>"

subsection \<open>Start\<close>

text \<open>\<open>strtok\<close> with all its calls: the words between the delimiters, without the empty ones.\<close>

fun strtok_words :: "char set \<Rightarrow> string \<Rightarrow> string \<Rightarrow> string list" where
  "strtok_words D [] w = (if w = [] then [] else [w])"
| "strtok_words D (c # cs) w =
    (if c \<in> D then (if w = [] then strtok_words D cs [] else w # strtok_words D cs []) else strtok_words D cs (w @ [c]))"

text \<open>\<open>atoi\<close> on a word without leading spaces: a sign and digits, what follows is ignored; \<open>None\<close> is an overflow of \<open>int\<close>.\<close>

definition is_digit :: "char \<Rightarrow> bool" where
  "is_digit c \<longleftrightarrow> c \<in> set ''0123456789''"

definition digits_value :: "string \<Rightarrow> int" where
  "digits_value s = foldl (\<lambda>n c. 10 * n + (int (of_char c) - int (of_char CHR ''0''))) 0 (takeWhile is_digit s)"

definition atoi :: "string \<Rightarrow> int option" where
  "atoi s = (let n = (case s of [] \<Rightarrow> 0
       | c # cs \<Rightarrow> if c = CHR ''-'' then - digits_value cs else if c = CHR ''+'' then digits_value cs else digits_value s)
     in if - (2 ^ 31) \<le> n \<and> n < 2 ^ 31 then Some n else None)"

text \<open>The first call of a thread connects it to the server.\<close>

definition get_thread_specific_data :: "(string \<Rightarrow> int \<Rightarrow> int option) \<Rightarrow> int \<Rightarrow> 'b client \<Rightarrow> 'b client option" where
  "get_thread_specific_data connect_to_server thread_id s = do {
     initialized \<leftarrow> tab_get thread_id (cl_InitializedThreads s);
     if initialized then Some s
     else do {
       ini \<leftarrow> tab_put thread_id True (cl_InitializedThreads s);
       sockfd \<leftarrow> connect_to_server (cl_ip s) (cl_portno s);
       data \<leftarrow> tab_put thread_id sockfd (cl_DataForThreads s);
       Some (s\<lparr>cl_InitializedThreads := ini, cl_DataForThreads := data\<rparr>) } }"

text \<open>The parameters are \<open>ip:port/threads\<close>; a word that is missing is a null pointer.\<close>

definition init_libanalysis :: "(string \<Rightarrow> int \<Rightarrow> int option) \<Rightarrow> int \<Rightarrow> string \<Rightarrow> 'b client \<Rightarrow> 'b client option" where
  "init_libanalysis connect_to_server thread_id params s = (case strtok_words {CHR '':'', CHR ''/''} params [] of
     ip # port # threads # _ \<Rightarrow> do {
       portno \<leftarrow> atoi port;
       n \<leftarrow> atoi threads;
       if n < 0 then None
       else get_thread_specific_data connect_to_server thread_id
         (s\<lparr>cl_ip := ip, cl_portno := portno, cl_max_expected_threads := n,
            cl_DataForThreads := replicate (nat n) 0, cl_InitializedThreads := replicate (nat n) False\<rparr>) }
   | _ \<Rightarrow> None)"

subsection \<open>Messages\<close>

definition send_msg :: "('m \<Rightarrow> 'b list) \<Rightarrow> int \<Rightarrow> 'm \<Rightarrow> int list \<times> 'b client \<Rightarrow> (int list \<times> 'b client) option" where
  "send_msg bytes thread_id msg = (\<lambda>(writes, s). do {
     sockfd \<leftarrow> tab_get thread_id (cl_DataForThreads s);
     (n, written, writes) \<leftarrow> safeWrite writes (bytes msg);
     if n < 0 then None
     else Some (writes, s\<lparr>cl_sent := (cl_sent s)(sockfd := cl_sent s sockfd @ written),
       cl_total_msg_sent := cl_total_msg_sent s + 1\<rparr>) })"

text \<open>The hooks; the fields of a message that are not set are zero.\<close>

definition inst_notification :: "int \<Rightarrow> int \<Rightarrow> int \<Rightarrow> 'm flow_message" where
  "inst_notification thread_id f bb = BASICBLOCK_NOTIFICATION f bb thread_id"

definition update_vars :: "int \<Rightarrow> int \<Rightarrow> int \<Rightarrow> u64 \<Rightarrow> 'm flow_message" where
  "update_vars f bb i value = MEM_ADDR_NOTIFICATION f bb i value"

definition func_address :: "int \<Rightarrow> u64 \<Rightarrow> 'm flow_message" where
  "func_address f value = FUNC_ADDRESS f value"

definition mpi_update_process_id :: "int \<Rightarrow> 'm flow_message" where
  "mpi_update_process_id rank = MPI_UPDATE_PROCESS_ID rank"

definition end_app :: "'m flow_message" where
  "end_app = END_APP_NOTIFICATION"

text \<open>A sequence of messages of one thread.\<close>

fun send_all :: "('m \<Rightarrow> 'b list) \<Rightarrow> int \<Rightarrow> 'm list \<Rightarrow> int list \<times> 'b client \<Rightarrow> (int list \<times> 'b client) option" where
  "send_all bytes thread_id [] s = Some s"
| "send_all bytes thread_id (m # ms) s = do { s \<leftarrow> send_msg bytes thread_id m s; send_all bytes thread_id ms s }"

subsection \<open>The stream between client and server\<close>

text \<open>The messages that \<open>recv_msg\<close> of the server reads until the client closes the connection.\<close>

function recv_all :: "nat \<Rightarrow> 'b list option list \<Rightarrow> 'b list list option" where
  "recv_all n reads = (case safeRead reads n of
     None \<Rightarrow> None
   | Some (count, buf, reads') \<Rightarrow>
       if count = 0 then Some []
       else if count < 0 then None
       else if length reads' < length reads then map_option (Cons buf) (recv_all n reads') else None)"
  by auto
termination by (relation "measure (\<lambda>(n, reads). length reads)") auto

declare recv_all.simps [simp del]

text \<open>What the system promises of \<open>write\<close> and \<open>read\<close>: they take at least one byte and at most as many as they are asked for;
  \<open>k\<close> is the number of bytes of the current message that are still to come.\<close>

fun obeys_write :: "nat \<Rightarrow> nat \<Rightarrow> int list \<Rightarrow> bool" where
  "obeys_write n k [] \<longleftrightarrow> True"
| "obeys_write n k (c # cs) \<longleftrightarrow> 1 \<le> c \<and> nat c \<le> k \<and> obeys_write n (if nat c = k then n else k - nat c) cs"

fun obeys_read :: "nat \<Rightarrow> nat \<Rightarrow> 'b list list \<Rightarrow> bool" where
  "obeys_read n k [] \<longleftrightarrow> k = n"
| "obeys_read n k (c # cs) \<longleftrightarrow> 1 \<le> length c \<and> length c \<le> k \<and> obeys_read n (if length c = k then n else k - length c) cs"

text \<open>A client whose thread has a socket.\<close>

definition has_socket :: "int \<Rightarrow> int \<Rightarrow> 'b client \<Rightarrow> bool" where
  "has_socket thread_id sockfd s \<longleftrightarrow> tab_get thread_id (cl_DataForThreads s) = Some sockfd"

lemma write_rest_whole:
  assumes "obeys_write n (length buf - k) writes" "k \<le> length buf" "write_rest writes buf k \<noteq> None" "0 < n" "k < length buf"
  shows "\<exists>writes'. write_rest writes buf k = Some (int (length buf), buf, writes') \<and> obeys_write n n writes'"
  using assms
proof (induction writes buf k rule: write_rest.induct)
  case (1 writes buf k)
  obtain c cs where w: "writes = c # cs" using "1.prems"(3,5) by (cases writes) (auto simp: write_rest.simps)
  then have c: "1 \<le> c" "nat c \<le> length buf - k" "obeys_write n (if nat c = length buf - k then n else length buf - k - nat c) cs"
    using "1.prems"(1) by simp_all
  have step: "write_rest writes buf k = write_rest cs buf (k + nat c)"
    using w c(1) "1.prems"(5) by (simp add: write_rest.simps[of "c # cs"])
  show ?case
  proof (cases "nat c = length buf - k")
    case True
    then have "k + nat c = length buf" using "1.prems"(2) by simp
    then show ?thesis using step c(3) True by (simp add: write_rest.simps)
  next
    case False
    then have lt: "k + nat c < length buf" using c(2) "1.prems"(5) by linarith
    have ob: "obeys_write n (length buf - (k + nat c)) cs" using c(3) False by simp
    have nn: "write_rest cs buf (k + nat c) \<noteq> None" using "1.prems"(3) step by simp
    have "0 < c" using c(1) by simp
    from "1.IH"[OF "1.prems"(5) w this ob less_imp_le[OF lt] nn "1.prems"(4) lt] show ?thesis unfolding step .
  qed
qed

lemma send_msg_whole:
  assumes "obeys_write n n writes" "length (bytes m) = n" "0 < n" "has_socket t fd s" "send_msg bytes t m (writes, s) \<noteq> None"
  shows "\<exists>writes' s'. send_msg bytes t m (writes, s) = Some (writes', s') \<and> obeys_write n n writes' \<and> has_socket t fd s'
    \<and> cl_sent s' fd = cl_sent s fd @ bytes m \<and> (\<forall>fd'. fd' \<noteq> fd \<longrightarrow> cl_sent s' fd' = cl_sent s fd')"
proof -
  have fd: "tab_get t (cl_DataForThreads s) = Some fd" using assms(4) by (simp add: has_socket_def)
  obtain c cs where w: "writes = c # cs" using assms(5) fd by (cases writes) (auto simp: send_msg_def safeWrite_def)
  then have c: "1 \<le> c" "nat c \<le> n" "obeys_write n (if nat c = n then n else n - nat c) cs" using assms(1) by simp_all
  have sw: "safeWrite writes (bytes m) = write_rest cs (bytes m) (nat c)" using w c(1) by (simp add: safeWrite_def)
  have "\<exists>writes'. safeWrite writes (bytes m) = Some (int n, bytes m, writes') \<and> obeys_write n n writes'"
  proof (cases "nat c = n")
    case True
    then show ?thesis using sw c(3) assms(2) by (simp add: write_rest.simps)
  next
    case False
    then have "nat c < length (bytes m)" "obeys_write n (length (bytes m) - nat c) cs" using c(2,3) assms(2) by simp_all
    moreover have "write_rest cs (bytes m) (nat c) \<noteq> None" using assms(5) fd sw by (auto simp: send_msg_def bind_eq_Some)
    ultimately show ?thesis using write_rest_whole[of n "bytes m" "nat c" cs] assms(2,3) sw by simp
  qed
  then show ?thesis using fd by (auto simp: send_msg_def has_socket_def)
qed

lemma send_all_whole:
  assumes "obeys_write n n writes" "\<forall>m \<in> set ms. length (bytes m) = n" "0 < n" "has_socket t fd s"
    "send_all bytes t ms (writes, s) = Some (writes', s')"
  shows "cl_sent s' fd = cl_sent s fd @ concat (map bytes ms)"
  using assms
proof (induction ms arbitrary: writes s)
  case (Cons m ms)
  have "send_msg bytes t m (writes, s) \<noteq> None" using Cons.prems(5) by (auto simp: bind_eq_Some)
  then obtain w1 s1 where s1: "send_msg bytes t m (writes, s) = Some (w1, s1)" "obeys_write n n w1" "has_socket t fd s1"
    "cl_sent s1 fd = cl_sent s fd @ bytes m"
    using send_msg_whole[OF Cons.prems(1) _ assms(3) Cons.prems(4), of bytes m] Cons.prems(2) by auto
  have "send_all bytes t ms (w1, s1) = Some (writes', s')" using Cons.prems(5) s1(1) by simp
  then show ?case using Cons.IH[OF s1(2) _ assms(3) s1(3)] Cons.prems(2) s1(4) by simp
qed simp

text \<open>The reads up to the end of the first message.\<close>

lemma obeys_read_split:
  assumes "obeys_read n k chunks" "0 < k" "k \<le> n" "chunks \<noteq> []"
  shows "\<exists>cs rest. chunks = cs @ rest \<and> cs \<noteq> [] \<and> (\<forall>c \<in> set cs. c \<noteq> []) \<and> length (concat cs) = k \<and> obeys_read n n rest"
  using assms
proof (induction n k chunks rule: obeys_read.induct)
  case (2 n k c cs)
  show ?case
  proof (cases "length c = k")
    case True
    then show ?thesis using 2 by (intro exI[of _ "[c]"] exI[of _ cs]) auto
  next
    case False
    then have k: "length c < k" "obeys_read n (k - length c) cs" using 2(2) by auto
    have "cs \<noteq> []" using k 2(2,4) by auto
    have "\<exists>ds rest. cs = ds @ rest \<and> ds \<noteq> [] \<and> (\<forall>c \<in> set ds. c \<noteq> []) \<and> length (concat ds) = k - length c \<and> obeys_read n n rest"
      using 2(1)[OF _ _ _ \<open>cs \<noteq> []\<close>] k 2(4) False by (simp only: if_False)
    then obtain ds rest where "cs = ds @ rest" "ds \<noteq> []" "\<forall>c \<in> set ds. c \<noteq> []" "length (concat ds) = k - length c" "obeys_read n n rest"
      by blast
    moreover have "c \<noteq> []" using 2(2) by auto
    ultimately show ?thesis using k(1) by (intro exI[of _ "c # ds"] exI[of _ rest]) simp
  qed
qed simp

lemma recv_all_whole:
  assumes "obeys_read n n chunks" "0 < n" "concat chunks = concat bufs" "\<forall>b \<in> set bufs. length b = n"
  shows "recv_all n (map Some chunks @ [Some []]) = Some bufs"
  using assms
proof (induction bufs arbitrary: chunks)
  case Nil
  then have "chunks = []" by (cases chunks) auto
  then show ?case by (simp add: recv_all.simps safeRead_def)
next
  case (Cons b bufs)
  have "chunks \<noteq> []" using Cons.prems by auto
  then obtain cs rest where sp: "chunks = cs @ rest" "cs \<noteq> []" "\<forall>c \<in> set cs. c \<noteq> []" "length (concat cs) = n" "obeys_read n n rest"
    using obeys_read_split[OF Cons.prems(1,2)] by auto
  then have "concat cs = b" "concat rest = concat bufs" using Cons.prems(3,4) by (auto simp: append_eq_append_conv)
  moreover have "safeRead (map Some chunks @ [Some []]) n = Some (int n, concat cs, map Some rest @ [Some []])"
    using safeRead_whole[OF sp(2,3,4), of "map Some rest @ [Some []]"] sp(1) by simp
  moreover have "length (map Some rest @ [Some []]) < length (map Some chunks @ [Some []])" using sp(1,2) by simp
  ultimately show ?case using Cons.IH[of rest] sp(5) Cons.prems(2,4) by (subst recv_all.simps) simp
qed

end
