(* ===== verification/Client_Properties.thy ===== *)
theory Client_Properties
  imports Client_Library
begin

text \<open>The messages of a thread arrive at the server.\<close>

text \<open>C18: the server receives the messages of a client as they were sent.  However the system splits the bytes when the
  client writes them and when the server reads them, the server gets the same messages in the same
  order, and then sees the end of the connection.\<close>

theorem client_stream_roundtrip:
  assumes "0 < n" "\<forall>m \<in> set ms. length (bytes m) = n \<and> decode (bytes m) = m"
    and "has_socket t fd s" "cl_sent s fd = []" "obeys_write n n writes"
    and "send_all bytes t ms (writes, s) = Some (writes', s')"
    and "obeys_read n n chunks" "concat chunks = cl_sent s' fd"
  shows "map_option (map decode) (recv_all n (map Some chunks @ [Some []])) = Some ms"
proof -
  have len: "\<forall>m \<in> set ms. length (bytes m) = n" using assms(2) by blast
  from send_all_whole[OF assms(5) len assms(1,3,6)] assms(4,8) have "concat chunks = concat (map bytes ms)" by simp
  from recv_all_whole[OF assms(7,1) this] len have "recv_all n (map Some chunks @ [Some []]) = Some (map bytes ms)" by simp
  moreover have "map decode (map bytes ms) = ms" using assms(2) by (simp add: map_idI)
  ultimately show ?thesis by simp
qed

text \<open>Two messages of two bytes, of which the first is written and read in pieces.\<close>

definition example_client :: "nat client" where
  "example_client = client_start\<lparr>cl_DataForThreads := [4]\<rparr>"

lemma client_stream_roundtrip_witness:
  "map_option (map hd) (recv_all 2 (map Some [[7], [7], [8, 8]] @ [Some []])) = Some [7, 8 :: nat]"
proof -
  obtain w s where s: "send_all (\<lambda>m. [m, m]) 0 [7, 8] ([1, 1, 2], example_client) = Some (w, s)" "cl_sent s 4 = [7, 7, 8, 8]"
    by (auto simp: send_msg_def safeWrite_def write_rest.simps example_client_def client_start_def tab_get_def numeral_2_eq_2)
  show ?thesis
    by (rule client_stream_roundtrip[where bytes = "\<lambda>m. [m, m]" and t = 0 and fd = 4 and s = example_client and writes = "[1, 1, 2]", OF _ _ _ _ _ s(1)])
      (simp_all add: s(2) has_socket_def tab_get_def example_client_def client_start_def)
qed

end
