(* ===== verification/Client_Mpi.thy ===== *)
theory Client_Mpi
  imports Server_Flow Mpi_Data
begin

text \<open>
  \<open>library/MPIcnfSupport.cc\<close>: \<open>mpi_update_db\<close>, which the instrumented program calls after an MPI call with the arguments of
  the call that matter.  They come as variable arguments, after a number that says of which kind the call is, and
  are put into a message.  From Fortran every argument is a pointer.

  The MPI library and the memory of the process are parameters.  \<open>None\<close> is an assertion that fails, an argument that
  is missing or has another type than the one it is read with (which is undefined), an access to memory that is not
  allocated, or the \<open>exit\<close> at an unknown kind of call.
\<close>

subsection \<open>Arguments\<close>

datatype c_arg = A_Int int | A_Comm u64 | A_Type u64 | A_Ptr u64

text \<open>The memory, the functions of the MPI library and its constants.\<close>

record mpi_env =
  me_int_at :: "u64 \<Rightarrow> int option"
  me_comm_f2c :: "int \<Rightarrow> u64"
  me_type_f2c :: "int \<Rightarrow> u64"
  me_type_size :: "u64 \<Rightarrow> int"
  me_comm_size :: "u64 \<Rightarrow> int"
  me_source_c :: "u64 \<Rightarrow> int option"      \<comment> \<open>\<open>MPI_SOURCE\<close> of the status at an address\<close>
  me_source_f :: "u64 \<Rightarrow> int option"      \<comment> \<open>the same for a Fortran status, by \<open>MPI_Status_f2c\<close>\<close>
  MPI_STATUS_IGNORE :: u64
  MPI_F_STATUS_IGNORE :: u64
  me_sizeof_fint :: u64
  me_sizeof_status :: u64
  me_sizeof_pointer :: u64

type_synonym 'a arg_reader = "c_arg list \<Rightarrow> ('a \<times> c_arg list) option"

definition va_int :: "int arg_reader" where
  "va_int as = (case as of A_Int n # as \<Rightarrow> Some (n, as) | _ \<Rightarrow> None)"

definition va_ptr :: "u64 arg_reader" where
  "va_ptr as = (case as of A_Ptr p # as \<Rightarrow> Some (p, as) | _ \<Rightarrow> None)"

text \<open>The macros of \<open>MPIcnfSupport.h\<close>.\<close>

definition GET_INT_FROM_FORTRAN :: "mpi_env \<Rightarrow> int arg_reader" where
  "GET_INT_FROM_FORTRAN E as = do { (p, as) \<leftarrow> va_ptr as; n \<leftarrow> me_int_at E p; Some (n, as) }"

definition GET_INT :: "mpi_env \<Rightarrow> bool \<Rightarrow> int arg_reader" where
  "GET_INT E isFortran as = (if isFortran then GET_INT_FROM_FORTRAN E as else va_int as)"

definition GET_INT_FROM_POINTER :: "mpi_env \<Rightarrow> bool \<Rightarrow> int arg_reader" where
  "GET_INT_FROM_POINTER E isFortran as =
    (if isFortran then GET_INT_FROM_FORTRAN E as
     else do { (p, as) \<leftarrow> va_ptr as; n \<leftarrow> me_int_at E p; Some (n, as) })"

definition GET_COMM :: "mpi_env \<Rightarrow> bool \<Rightarrow> u64 arg_reader" where
  "GET_COMM E isFortran as =
    (if isFortran then do { (n, as) \<leftarrow> GET_INT_FROM_FORTRAN E as; Some (me_comm_f2c E n, as) }
     else (case as of A_Comm c # as \<Rightarrow> Some (c, as) | _ \<Rightarrow> None))"

definition GET_TYPE :: "mpi_env \<Rightarrow> bool \<Rightarrow> u64 arg_reader" where
  "GET_TYPE E isFortran as =
    (if isFortran then do { (n, as) \<leftarrow> GET_INT_FROM_FORTRAN E as; Some (me_type_f2c E n, as) }
     else (case as of A_Type t # as \<Rightarrow> Some (t, as) | _ \<Rightarrow> None))"

definition GET_REQADDR :: "u64 arg_reader" where "GET_REQADDR = va_ptr"
definition GET_ADDR :: "u64 arg_reader" where "GET_ADDR = va_ptr"

text \<open>\<open>MPI_Type_size\<close> of the next argument, and \<open>MPI_Comm_size\<close>.\<close>

definition get_type_size :: "mpi_env \<Rightarrow> bool \<Rightarrow> int arg_reader" where
  "get_type_size E F as = do { (t, as) \<leftarrow> GET_TYPE E F as; Some (me_type_size E t, as) }"

subsection \<open>Statuses\<close>

definition status_ignored :: "mpi_env \<Rightarrow> u64 \<Rightarrow> bool" where
  "status_ignored E p \<longleftrightarrow> p = MPI_STATUS_IGNORE E \<or> p = MPI_F_STATUS_IGNORE E"

text \<open>\<open>CONVERT_STATUS_POINTER\<close>, the assertion on the pointer, and its \<open>MPI_SOURCE\<close>.\<close>

definition status_source :: "mpi_env \<Rightarrow> bool \<Rightarrow> u64 \<Rightarrow> int option" where
  "status_source E F p = (if F then me_source_f E p else if p = 0 then None else me_source_c E p)"

definition next_request :: "mpi_env \<Rightarrow> bool \<Rightarrow> u64 \<Rightarrow> u64" where
  "next_request E F p = (if F then p + me_sizeof_fint E else p + me_sizeof_pointer E)"

definition next_status :: "mpi_env \<Rightarrow> bool \<Rightarrow> u64 \<Rightarrow> u64" where
  "next_status E F p = (if F then p + me_sizeof_status E div me_sizeof_fint E * me_sizeof_fint E else p + me_sizeof_status E)"

text \<open>The loop of \<open>MPI_Waitall\<close> over \<open>n\<close> requests.\<close>

fun waitall_reqs :: "mpi_env \<Rightarrow> bool \<Rightarrow> nat \<Rightarrow> u64 \<Rightarrow> u64 \<Rightarrow> mpi_request list option" where
  "waitall_reqs E F 0 reqList statusList = Some []"
| "waitall_reqs E F (Suc n) reqList statusList =
    (if status_ignored E statusList then None
     else do {
       source \<leftarrow> status_source E F statusList;
       rs \<leftarrow> waitall_reqs E F n (next_request E F reqList) (next_status E F statusList);
       Some (\<lparr>req_addr = reqList, req_source = source\<rparr> # rs) })"

text \<open>The loop of \<open>MPI_Testall\<close>.\<close>

fun testall_reqs :: "mpi_env \<Rightarrow> bool \<Rightarrow> int \<Rightarrow> nat \<Rightarrow> u64 \<Rightarrow> u64 \<Rightarrow> mpi_request list option" where
  "testall_reqs E F flag 0 reqList statusList = Some []"
| "testall_reqs E F flag (Suc n) reqList statusList =
    (if status_ignored E statusList then None
     else do {
       source \<leftarrow> status_source E F statusList;
       rs \<leftarrow> (if flag \<noteq> 0 \<and> source = -1 then None
              else testall_reqs E F flag n (next_request E F reqList) (next_status E F statusList));
       Some (\<lparr>req_addr = reqList, req_source = source\<rparr> # rs) })"

text \<open>The loop of \<open>MPI_Alltoallv\<close>; \<open>int\<close> has 4 bytes.\<close>

fun read_counts :: "mpi_env \<Rightarrow> nat \<Rightarrow> u64 \<Rightarrow> int list option" where
  "read_counts E 0 start = Some []"
| "read_counts E (Suc n) start = do { c \<leftarrow> me_int_at E start; cs \<leftarrow> read_counts E n (start + 4); Some (c # cs) }"

subsection \<open>Kinds of calls\<close>

definition BASIC_MPI_CALL :: int where "BASIC_MPI_CALL = 1"
definition ASYNC_MPI_CALL :: int where "ASYNC_MPI_CALL = 2"
definition ANYTAG_MPI_CALL :: int where "ANYTAG_MPI_CALL = 3"
definition SENDRECV_MPI_CALL :: int where "SENDRECV_MPI_CALL = 4"
definition WAIT_MPI_CALL :: int where "WAIT_MPI_CALL = 5"
definition TEST_MPI_CALL :: int where "TEST_MPI_CALL = 6"
definition ALL_MPI_CALL :: int where "ALL_MPI_CALL = 7"
definition INIT_MPI_CALL :: int where "INIT_MPI_CALL = 8"
definition FIN_MPI_CALL :: int where "FIN_MPI_CALL = 9"
definition WAITALL_MPI_CALL :: int where "WAITALL_MPI_CALL = 10"
definition TESTALL_MPI_CALL :: int where "TESTALL_MPI_CALL = 11"
definition BCAST_MPI_CALL :: int where "BCAST_MPI_CALL = 12"
definition IBCAST_MPI_CALL :: int where "IBCAST_MPI_CALL = 13"
definition ALLTOALL_MPI_CALL :: int where "ALLTOALL_MPI_CALL = 14"
definition IALLTOALL_MPI_CALL :: int where "IALLTOALL_MPI_CALL = 15"
definition GATHER_MPI_CALL :: int where "GATHER_MPI_CALL = 16"
definition IGATHER_MPI_CALL :: int where "IGATHER_MPI_CALL = 17"
definition ALLGATHER_MPI_CALL :: int where "ALLGATHER_MPI_CALL = 18"
definition IALLGATHER_MPI_CALL :: int where "IALLGATHER_MPI_CALL = 19"
definition REDUCE_MPI_CALL :: int where "REDUCE_MPI_CALL = 20"
definition IREDUCE_MPI_CALL :: int where "IREDUCE_MPI_CALL = 21"
definition ALLREDUCE_MPI_CALL :: int where "ALLREDUCE_MPI_CALL = 22"
definition IALLREDUCE_MPI_CALL :: int where "IALLREDUCE_MPI_CALL = 23"
definition ALLTOALLV_MPI_CALL :: int where "ALLTOALLV_MPI_CALL = 24"

lemmas call_kinds = BASIC_MPI_CALL_def ASYNC_MPI_CALL_def ANYTAG_MPI_CALL_def SENDRECV_MPI_CALL_def WAIT_MPI_CALL_def
  TEST_MPI_CALL_def ALL_MPI_CALL_def INIT_MPI_CALL_def FIN_MPI_CALL_def WAITALL_MPI_CALL_def TESTALL_MPI_CALL_def
  BCAST_MPI_CALL_def IBCAST_MPI_CALL_def ALLTOALL_MPI_CALL_def IALLTOALL_MPI_CALL_def GATHER_MPI_CALL_def
  IGATHER_MPI_CALL_def ALLGATHER_MPI_CALL_def IALLGATHER_MPI_CALL_def REDUCE_MPI_CALL_def IREDUCE_MPI_CALL_def
  ALLREDUCE_MPI_CALL_def IALLREDUCE_MPI_CALL_def ALLTOALLV_MPI_CALL_def

definition zero_msg :: mpi_call_msg where
  "zero_msg = \<lparr>mc_other = 0, mc_root = 0, mc_tag = 0, mc_size = 0, mc_datatype = 0, mc_opt_recvsize = 0,
     mc_opt_recvdatatype = 0, mc_comm = 0, mc_comm_size = 0, mc_other2 = 0, mc_tag2 = 0, mc_flag = 0,
     mc_req_data = \<lparr>req_addr = 0, req_source = 0\<rparr>, mc_reqs = [], mc_counter = 0, mc_sizes = [], mc_opt_recvsizes = []\<rparr>"

definition put_comm :: "mpi_env \<Rightarrow> u64 \<Rightarrow> mpi_call_msg \<Rightarrow> mpi_call_msg" where
  "put_comm E c m = m\<lparr>mc_comm := c, mc_comm_size := me_comm_size E c\<rparr>"

definition put_request :: "u64 \<Rightarrow> mpi_call_msg \<Rightarrow> mpi_call_msg" where
  "put_request a m = m\<lparr>mc_req_data := (mc_req_data m)\<lparr>req_addr := a\<rparr>\<rparr>"

definition put_source :: "int \<Rightarrow> mpi_call_msg \<Rightarrow> mpi_call_msg" where
  "put_source n m = m\<lparr>mc_req_data := (mc_req_data m)\<lparr>req_source := n\<rparr>\<rparr>"

text \<open>Point to point calls.\<close>

definition basic_call :: "mpi_env \<Rightarrow> bool \<Rightarrow> c_arg list \<Rightarrow> mpi_call_msg option" where
  "basic_call E F as = do {
     (other, as) \<leftarrow> GET_INT E F as;
     (tag, as) \<leftarrow> GET_INT E F as;
     (comm, as) \<leftarrow> GET_COMM E F as;
     (size, as) \<leftarrow> GET_INT E F as;
     (datatype, as) \<leftarrow> get_type_size E F as;
     Some (put_comm E comm (zero_msg\<lparr>mc_other := other, mc_tag := tag, mc_size := size, mc_datatype := datatype\<rparr>)) }"

definition async_call :: "mpi_env \<Rightarrow> bool \<Rightarrow> c_arg list \<Rightarrow> mpi_call_msg option" where
  "async_call E F as = do {
     (other, as) \<leftarrow> GET_INT E F as;
     (tag, as) \<leftarrow> GET_INT E F as;
     (comm, as) \<leftarrow> GET_COMM E F as;
     (addr, as) \<leftarrow> GET_REQADDR as;
     (size, as) \<leftarrow> GET_INT E F as;
     (datatype, as) \<leftarrow> get_type_size E F as;
     Some (put_comm E comm (put_request addr
       (zero_msg\<lparr>mc_other := other, mc_tag := tag, mc_size := size, mc_datatype := datatype\<rparr>))) }"

definition sendrecv_call :: "mpi_env \<Rightarrow> bool \<Rightarrow> c_arg list \<Rightarrow> mpi_call_msg option" where
  "sendrecv_call E F as = do {
     (other, as) \<leftarrow> GET_INT E F as;
     (tag, as) \<leftarrow> GET_INT E F as;
     (other2, as) \<leftarrow> GET_INT E F as;
     (tag2, as) \<leftarrow> GET_INT E F as;
     (comm, as) \<leftarrow> GET_COMM E F as;
     Some (put_comm E comm (zero_msg\<lparr>mc_other := other, mc_tag := tag, mc_other2 := other2, mc_tag2 := tag2\<rparr>)) }"

text \<open>Calls that complete requests.\<close>

definition wait_call :: "mpi_env \<Rightarrow> bool \<Rightarrow> c_arg list \<Rightarrow> mpi_call_msg option" where
  "wait_call E F as = do {
     (addr, as) \<leftarrow> GET_REQADDR as;
     (status, as) \<leftarrow> va_ptr as;
     if status_ignored E status then None
     else do {
       source \<leftarrow> status_source E F status;
       Some (put_source source (put_request addr (zero_msg\<lparr>mc_flag := 1\<rparr>))) } }"

definition test_call :: "mpi_env \<Rightarrow> bool \<Rightarrow> c_arg list \<Rightarrow> mpi_call_msg option" where
  "test_call E F as = do {
     (addr, as) \<leftarrow> GET_REQADDR as;
     (flag, as) \<leftarrow> GET_INT_FROM_POINTER E F as;
     (status, as) \<leftarrow> va_ptr as;
     let m = put_source (-1) (put_request addr (zero_msg\<lparr>mc_flag := flag\<rparr>));
     if status_ignored E status then Some m
     else do {
       source \<leftarrow> status_source E F status;
       if flag \<noteq> 0 \<and> source = -1 then None else Some (put_source source m) } }"

text \<open>The allocation of an array of negative length throws an exception.\<close>

definition waitall_call :: "mpi_env \<Rightarrow> bool \<Rightarrow> c_arg list \<Rightarrow> mpi_call_msg option" where
  "waitall_call E F as = do {
     (counter, as) \<leftarrow> GET_INT E F as;
     (reqList, as) \<leftarrow> GET_REQADDR as;
     (statusList, as) \<leftarrow> va_ptr as;
     if counter < 0 then None
     else do {
       reqs \<leftarrow> waitall_reqs E F (nat counter) reqList statusList;
       Some (zero_msg\<lparr>mc_counter := counter, mc_reqs := reqs, mc_flag := (if counter > 0 then 1 else 0)\<rparr>) } }"

definition testall_call :: "mpi_env \<Rightarrow> bool \<Rightarrow> c_arg list \<Rightarrow> mpi_call_msg option" where
  "testall_call E F as = do {
     (counter, as) \<leftarrow> GET_INT E F as;
     (reqList, as) \<leftarrow> GET_REQADDR as;
     (flag, as) \<leftarrow> GET_INT_FROM_POINTER E F as;
     (statusList, as) \<leftarrow> va_ptr as;
     if counter < 0 then None
     else do {
       reqs \<leftarrow> testall_reqs E F flag (nat counter) reqList statusList;
       Some (zero_msg\<lparr>mc_counter := counter, mc_reqs := reqs, mc_flag := flag\<rparr>) } }"

text \<open>Collective calls.\<close>

definition anytag_call :: "mpi_env \<Rightarrow> bool \<Rightarrow> c_arg list \<Rightarrow> mpi_call_msg option" where
  "anytag_call E F as = do {
     (other, as) \<leftarrow> GET_INT E F as;
     (comm, as) \<leftarrow> GET_COMM E F as;
     Some (put_comm E comm (zero_msg\<lparr>mc_other := other\<rparr>)) }"

definition all_call :: "mpi_env \<Rightarrow> bool \<Rightarrow> c_arg list \<Rightarrow> mpi_call_msg option" where
  "all_call E F as = do {
     (comm, as) \<leftarrow> GET_COMM E F as;
     (size, as) \<leftarrow> GET_INT E F as;
     (datatype, as) \<leftarrow> get_type_size E F as;
     Some (put_comm E comm (zero_msg\<lparr>mc_size := size, mc_datatype := datatype\<rparr>)) }"

text \<open>\<open>MPI_Bcast\<close> and \<open>MPI_Reduce\<close> have a root, \<open>MPI_Allreduce\<close> has none; the nonblocking variants add a request.\<close>

definition rooted_call :: "mpi_env \<Rightarrow> bool \<Rightarrow> bool \<Rightarrow> c_arg list \<Rightarrow> mpi_call_msg option" where
  "rooted_call E F nonblocking as = do {
     (size, as) \<leftarrow> GET_INT E F as;
     (datatype, as) \<leftarrow> get_type_size E F as;
     (root, as) \<leftarrow> GET_INT E F as;
     (comm, as) \<leftarrow> GET_COMM E F as;
     (addr, as) \<leftarrow> (if nonblocking then GET_REQADDR as else Some (0, as));
     Some (put_comm E comm (put_request addr (zero_msg\<lparr>mc_size := size, mc_datatype := datatype, mc_root := root\<rparr>))) }"

definition allreduce_call :: "mpi_env \<Rightarrow> bool \<Rightarrow> bool \<Rightarrow> c_arg list \<Rightarrow> mpi_call_msg option" where
  "allreduce_call E F nonblocking as = do {
     (size, as) \<leftarrow> GET_INT E F as;
     (datatype, as) \<leftarrow> get_type_size E F as;
     (comm, as) \<leftarrow> GET_COMM E F as;
     (addr, as) \<leftarrow> (if nonblocking then GET_REQADDR as else Some (0, as));
     Some (put_comm E comm (put_request addr (zero_msg\<lparr>mc_size := size, mc_datatype := datatype\<rparr>))) }"

text \<open>\<open>MPI_Alltoall\<close> and \<open>MPI_Allgather\<close> have two types; \<open>MPI_Gather\<close> has a root as well.\<close>

definition exchange_call :: "mpi_env \<Rightarrow> bool \<Rightarrow> bool \<Rightarrow> bool \<Rightarrow> c_arg list \<Rightarrow> mpi_call_msg option" where
  "exchange_call E F rooted nonblocking as = do {
     (size, as) \<leftarrow> GET_INT E F as;
     (datatype, as) \<leftarrow> get_type_size E F as;
     (recvsize, as) \<leftarrow> GET_INT E F as;
     (recvdatatype, as) \<leftarrow> get_type_size E F as;
     (root, as) \<leftarrow> (if rooted then GET_INT E F as else Some (0, as));
     (comm, as) \<leftarrow> GET_COMM E F as;
     (addr, as) \<leftarrow> (if nonblocking then GET_REQADDR as else Some (0, as));
     Some (put_comm E comm (put_request addr (zero_msg\<lparr>mc_size := size, mc_datatype := datatype,
       mc_opt_recvsize := recvsize, mc_opt_recvdatatype := recvdatatype, mc_root := root\<rparr>))) }"

definition alltoallv_call :: "mpi_env \<Rightarrow> bool \<Rightarrow> c_arg list \<Rightarrow> mpi_call_msg option" where
  "alltoallv_call E F as = do {
     (sendCounts, as) \<leftarrow> GET_ADDR as;
     (datatype, as) \<leftarrow> get_type_size E F as;
     (recvCounts, as) \<leftarrow> GET_ADDR as;
     (recvdatatype, as) \<leftarrow> get_type_size E F as;
     (comm, as) \<leftarrow> GET_COMM E F as;
     if me_comm_size E comm < 0 then None
     else do {
       sizes \<leftarrow> read_counts E (nat (me_comm_size E comm)) sendCounts;
       recvsizes \<leftarrow> read_counts E (nat (me_comm_size E comm)) recvCounts;
       Some (put_comm E comm (zero_msg\<lparr>mc_datatype := datatype, mc_opt_recvdatatype := recvdatatype, mc_sizes := sizes,
         mc_opt_recvsizes := recvsizes\<rparr>)) } }"

subsection \<open>The hook\<close>

definition mpi_call_message :: "mpi_env \<Rightarrow> bool \<Rightarrow> int \<Rightarrow> c_arg list \<Rightarrow> mpi_call_msg option" where
  "mpi_call_message E F type as =
    (if type = BASIC_MPI_CALL then basic_call E F as
     else if type = ASYNC_MPI_CALL then async_call E F as
     else if type = WAIT_MPI_CALL then wait_call E F as
     else if type = WAITALL_MPI_CALL then waitall_call E F as
     else if type = TEST_MPI_CALL then test_call E F as
     else if type = TESTALL_MPI_CALL then testall_call E F as
     else if type = ANYTAG_MPI_CALL then anytag_call E F as
     else if type = ALL_MPI_CALL then all_call E F as
     else if type = SENDRECV_MPI_CALL then sendrecv_call E F as
     else if type = BCAST_MPI_CALL then rooted_call E F False as
     else if type = IBCAST_MPI_CALL then rooted_call E F True as
     else if type = ALLTOALLV_MPI_CALL then alltoallv_call E F as
     else if type = ALLTOALL_MPI_CALL then exchange_call E F False False as
     else if type = IALLTOALL_MPI_CALL then exchange_call E F False True as
     else if type = GATHER_MPI_CALL then exchange_call E F True False as
     else if type = IGATHER_MPI_CALL then exchange_call E F True True as
     else if type = ALLGATHER_MPI_CALL then exchange_call E F False False as
     else if type = IALLGATHER_MPI_CALL then exchange_call E F False True as
     else if type = REDUCE_MPI_CALL then rooted_call E F False as
     else if type = IREDUCE_MPI_CALL then rooted_call E F True as
     else if type = ALLREDUCE_MPI_CALL then allreduce_call E F False as
     else if type = IALLREDUCE_MPI_CALL then allreduce_call E F True as
     else if type = INIT_MPI_CALL then Some zero_msg
     else if type = FIN_MPI_CALL then Some zero_msg
     else None)"

definition mpi_update_db :: "mpi_env \<Rightarrow> int \<Rightarrow> int \<Rightarrow> int \<Rightarrow> bool \<Rightarrow> c_arg list \<Rightarrow> mpi_call_msg flow_message option" where
  "mpi_update_db E f bb i isFortran args = do {
     (type, args) \<leftarrow> va_int args;
     m \<leftarrow> mpi_call_message E isFortran type args;
     Some (MPI_CALL_NOTIFICATION f bb i m) }"

end
