(* ===== verification/Pass_Decoupled.thy ===== *)
theory Pass_Decoupled
  imports Client_Mpi
begin

text \<open>
  \<open>passDecoupled/lib/Analysis/Analysis.cpp\<close>: the pass of LLVM that instruments the program for the decoupled version.
  It puts calls of the client library between the instructions of the module: \<open>inst_notification\<close> at the start of
  every block, \<open>update_vars\<close> after every load and store, \<open>mpi_update_db\<close> after the MPI calls, and at the start and the end of
  \<open>main\<close> what opens and closes the connection.

  The result is a list of items for each block, the instructions of the module and the inserted calls.  The name of a
  called function is read after its temporary string is destroyed; the model assumes that it is still there.  A module without
  \<open>main\<close> is undefined.
\<close>

subsection \<open>Inserted calls\<close>

text \<open>Operands that are constants are numbers; \<open>update_vars\<close> has the instruction whose pointer operand it gets, \<open>mpi_update_db\<close>
  the operands of the call after the kind of the call.\<close>

datatype hook =
    Inst_notification int int
  | Update_vars int int int instr
  | Mpi_update_db int int int bool int "ir_value list"
  | Mpi_update_process_id
  | Global_string string
  | Init_libanalysis string
  | Func_address nat
  | End_app

datatype item = Orig instr | Hook hook

subsection \<open>MPI calls\<close>

text \<open>The tests on the name of the called function in their order: the names, the kind of the call, and the operands that
  are passed on.\<close>

definition point_to_point_hooks :: "(string list \<times> int \<times> nat list) list" where
  "point_to_point_hooks = [
     ([''MPI_Send'', ''MPI_Recv'', ''MPI_Send_'', ''MPI_Recv_''], BASIC_MPI_CALL, [3, 4, 5, 1, 2]),
     ([''MPI_Isend'', ''MPI_Irecv'', ''MPI_Isend_'', ''MPI_Irecv_''], ASYNC_MPI_CALL, [3, 4, 5, 6, 1, 2]),
     ([''MPI_Wait'', ''MPI_Wait_''], WAIT_MPI_CALL, [0, 1]),
     ([''MPI_Test'', ''MPI_Test_''], TEST_MPI_CALL, [0, 1, 2]),
     ([''MPI_Waitall'', ''MPI_Waitall_''], WAITALL_MPI_CALL, [0, 1, 2]),
     ([''MPI_Testall'', ''MPI_Testall_''], TESTALL_MPI_CALL, [0, 1, 2, 3])]"

definition rooted_hooks :: "(string list \<times> int \<times> nat list) list" where
  "rooted_hooks = [
     ([''MPI_Bcast'', ''MPI_Bcast_''], BCAST_MPI_CALL, [1, 2, 3, 4]),
     ([''MPI_Ibcast'', ''MPI_Ibcast_''], IBCAST_MPI_CALL, [1, 2, 3, 4, 5]),
     ([''MPI_Reduce'', ''MPI_Reduce_''], REDUCE_MPI_CALL, [2, 3, 5, 6]),
     ([''MPI_Ireduce'', ''MPI_Ireduce_''], IREDUCE_MPI_CALL, [2, 3, 5, 6, 7]),
     ([''MPI_Gather'', ''MPI_Gather_''], GATHER_MPI_CALL, [1, 2, 4, 5, 6, 7]),
     ([''MPI_Igather'', ''MPI_Igather_''], IGATHER_MPI_CALL, [1, 2, 4, 5, 6, 7, 8]),
     ([''MPI_Scatter'', ''MPI_Scatter_''], ANYTAG_MPI_CALL, [6, 7]),
     ([''MPI_Scatterv'', ''MPI_Gatherv'', ''MPI_Scatterv_'', ''MPI_Gatherv_''], ANYTAG_MPI_CALL, [7, 8])]"

definition all_hooks :: "(string list \<times> int \<times> nat list) list" where
  "all_hooks = [
     ([''MPI_Allreduce'', ''MPI_Allreduce_''], ALLREDUCE_MPI_CALL, [2, 3, 5]),
     ([''MPI_Iallreduce'', ''MPI_Iallreduce_''], IALLREDUCE_MPI_CALL, [2, 3, 5, 6]),
     ([''MPI_Alltoall'', ''MPI_Alltoall_''], ALLTOALL_MPI_CALL, [1, 2, 4, 5, 6]),
     ([''MPI_Alltoallv'', ''MPI_Alltoallv_''], ALLTOALLV_MPI_CALL, [1, 3, 5, 7, 8]),
     ([''MPI_Ialltoall'', ''MPI_Ialltoall_''], IALLTOALL_MPI_CALL, [1, 2, 4, 5, 6, 7]),
     ([''MPI_Allgather'', ''MPI_Allgather_''], ALLGATHER_MPI_CALL, [1, 2, 4, 5, 6]),
     ([''MPI_Iallgather'', ''MPI_Iallgather_''], IALLGATHER_MPI_CALL, [1, 2, 4, 5, 6, 7])]"

definition other_hooks :: "(string list \<times> int \<times> nat list) list" where
  "other_hooks = [
     ([''MPI_Alltoallv'', ''MPI_Alltoallv_''], ALL_MPI_CALL, [8]),
     ([''MPI_Allgatherv'', ''MPI_Allgatherv_''], ALL_MPI_CALL, [7]),
     ([''MPI_Sendrecv'', ''MPI_Sendrecv_''], SENDRECV_MPI_CALL, [3, 4, 8, 9, 10]),
     ([''MPI_Sendrecv_replace'', ''MPI_Sendrecv_replace_''], SENDRECV_MPI_CALL, [3, 4, 5, 6, 7]),
     ([''MPI_Init'', ''MPI_Init_''], INIT_MPI_CALL, [0]),
     ([''MPI_Finalize'', ''MPI_Finalize_''], FIN_MPI_CALL, [])]"

definition mpi_hooks :: "(string list \<times> int \<times> nat list) list" where
  "mpi_hooks = point_to_point_hooks @ rooted_hooks @ all_hooks @ other_hooks"

text \<open>The last test adds the request once more.\<close>

definition request_again :: "string \<Rightarrow> nat list" where
  "request_again name = (if list_ex (strcaseeq name) [''MPI_Isend'', ''MPI_Irecv'', ''MPI_Isend_'', ''MPI_Irecv_''] then [6] else [])"

definition hook_operands :: "string \<Rightarrow> (int \<times> nat list) option" where
  "hook_operands name = map_option (\<lambda>(_, type, ops). (type, ops @ request_again name))
     (find (\<lambda>(names, _). list_ex (strcaseeq name) names) mpi_hooks)"

definition called_name :: "ir_module \<Rightarrow> instr \<Rightarrow> string option" where
  "called_name M I = (if i_opcode I \<noteq> Op_Call then None else map_option (\<lambda>g. f_name (M ! g)) (get_calledFunction I))"

definition is_mpi_name :: "string \<Rightarrow> bool" where
  "is_mpi_name name \<longleftrightarrow> strncaseeq name ''MPI_'' 4"

text \<open>The flag for Fortran.\<close>

definition from_fortran :: "string \<Rightarrow> bool" where
  "from_fortran name \<longleftrightarrow> last name = CHR ''_''"

definition is_finalize :: "string \<Rightarrow> bool" where
  "is_finalize name \<longleftrightarrow> strcaseeq name ''MPI_Finalize'' \<or> strcaseeq name ''MPI_Finalize_''"

text \<open>The items for an instruction, with its hook; the call of \<open>MPI_Finalize\<close> is erased.\<close>

definition insertMPIhooks :: "ir_module \<Rightarrow> int \<Rightarrow> int \<Rightarrow> int \<Rightarrow> instr \<Rightarrow> item list option" where
  "insertMPIhooks M f bb i I = (case called_name M I of
     None \<Rightarrow> None
   | Some name \<Rightarrow> if \<not> is_mpi_name name then None
       else map_option (\<lambda>(type, ops).
           let h = Hook (Mpi_update_db f bb i (from_fortran name) type (map ((!) (i_args I)) ops))
           in if is_finalize name then [h] else [Orig I, h])
         (hook_operands name))"

text \<open>The call of \<open>MPI_Init\<close> is erased; \<open>init_libanalysis\<close> calls it.\<close>

definition insertUpdateProcessID :: "ir_module \<Rightarrow> int \<Rightarrow> int \<Rightarrow> int \<Rightarrow> instr \<Rightarrow> item list option" where
  "insertUpdateProcessID M f bb i I = (case called_name M I of
     None \<Rightarrow> None
   | Some name \<Rightarrow> if is_mpi_name name \<and> (strcaseeq name ''MPI_Init'' \<or> strcaseeq name ''MPI_Init_'')
       then Some [Hook (Mpi_update_db f bb i (from_fortran name) INIT_MPI_CALL [])] else None)"

subsection \<open>Blocks\<close>

definition insertLSValues :: "int \<Rightarrow> int \<Rightarrow> int \<Rightarrow> instr \<Rightarrow> item list" where
  "insertLSValues f bb i I = [Orig I, Hook (Update_vars f bb i I)]"

definition insertEndApplication :: "bool \<Rightarrow> instr \<Rightarrow> item list" where
  "insertEndApplication inMain I = (if inMain \<and> i_opcode I = Op_Ret then [Hook End_app, Orig I] else [Orig I])"

text \<open>The notification is inserted before the first instruction that is no phi; \<open>faddr\<close> are the calls that
  \<open>insertFAddr\<close> has put before that of the first block of \<open>main\<close>.\<close>

definition insertInstNotification :: "bool \<Rightarrow> item list \<Rightarrow> int \<Rightarrow> int \<Rightarrow> item list" where
  "insertInstNotification bb_notif faddr f bb = (if bb_notif then [] else faddr @ [Hook (Inst_notification f bb)])"

definition insertFAddr :: "ir_module \<Rightarrow> item list" where
  "insertFAddr M = rev (map (\<lambda>f. Hook (Func_address f)) (filter (\<lambda>f. \<not> is_external (M ! f)) [0..<length M]))"

text \<open>The loop over the instructions of a block, from the one with the number \<open>i\<close>.  After an MPI call that was erased and
  replaced by one hook the iterator is incremented twice, to the next instruction, which is tested for a hook in the same
  iteration.\<close>

fun instrument :: "ir_module \<Rightarrow> bool \<Rightarrow> item list \<Rightarrow> int \<Rightarrow> int \<Rightarrow> bool \<Rightarrow> int \<Rightarrow> instr list \<Rightarrow> item list" where
  "instrument M inMain faddr f bb bb_notif i [] = []"
| "instrument M inMain faddr f bb bb_notif i (I # Is) =
    (if i_opcode I = Op_LandingPad then map Orig (I # Is)
     else if i_opcode I = Op_PHI then Orig I # instrument M inMain faddr f bb bb_notif (i + 1) Is
     else insertInstNotification bb_notif faddr f bb @
       (if i_opcode I = Op_Load \<or> i_opcode I = Op_Store
        then insertLSValues f bb i I @ instrument M inMain faddr f bb True (i + 1) Is
        else case insertUpdateProcessID M f bb i I of
          Some items \<Rightarrow> items @ (case Is of [] \<Rightarrow> []
            | N # Js \<Rightarrow> (case insertMPIhooks M f bb i N of Some items \<Rightarrow> items | None \<Rightarrow> insertEndApplication inMain N)
                @ instrument M inMain faddr f bb True (i + 1) Js)
        | None \<Rightarrow> (case insertMPIhooks M f bb i I of Some items \<Rightarrow> items | None \<Rightarrow> insertEndApplication inMain I)
            @ instrument M inMain faddr f bb True (i + 1) Is))"

text \<open>What \<open>insertInitLibAnalysis\<close> puts at the start of \<open>main\<close>; the loop over its first block begins after it.\<close>

definition insertInitLibAnalysis :: "string \<Rightarrow> item list" where
  "insertInitLibAnalysis server = [Hook (Global_string server), Hook (Init_libanalysis server), Hook Mpi_update_process_id]"

definition runOnModule :: "string \<Rightarrow> string \<Rightarrow> ir_module \<Rightarrow> block_pos \<Rightarrow> item list" where
  "runOnModule Server MaxExpectedNrOfThreads M p =
    (let F = M ! fst p; inMain = (f_name F = ''main''); insts = block_insts M p;
         first = (inMain \<and> snd p = 0)
     in (if first then insertInitLibAnalysis (Server @ ''/'' @ MaxExpectedNrOfThreads) else [])
        @ instrument M inMain (if first then insertFAddr M else []) (int (fst p)) (int (snd p)) False 0 insts)"

end
