(* ===== verification/Instrumented_Run.thy ===== *)
theory Instrumented_Run
  imports Pass_Decoupled Client_Library Server_Theorems
begin

text \<open>
  From the instrumented program to the server: the messages that a program sends, which the pass of
  \<open>passDecoupled\<close> has instrumented and which runs with the client library, are those from which the server
  replays the run.
\<close>

subsection \<open>Runs of an instrumented program\<close>

text \<open>What an inserted call sends; \<open>rank\<close> is the number of the process, \<open>tid\<close> that of the thread.\<close>

fun hook_sends :: "int \<Rightarrow> int \<Rightarrow> hook \<Rightarrow> 'm flow_message list \<Rightarrow> bool" where
  "hook_sends rank tid (Inst_notification f bb) ms \<longleftrightarrow> ms = [inst_notification tid f bb]"
| "hook_sends rank tid (Update_vars f bb i I) ms \<longleftrightarrow> (\<exists>a. ms = [update_vars f bb i a])"
| "hook_sends rank tid (Mpi_update_db f bb i _ _ _) ms \<longleftrightarrow> (\<exists>m. ms = [MPI_CALL_NOTIFICATION f bb i m])"
| "hook_sends rank tid Mpi_update_process_id ms \<longleftrightarrow> ms = [mpi_update_process_id rank]"
| "hook_sends rank tid (Global_string _) ms \<longleftrightarrow> ms = []"
| "hook_sends rank tid (Init_libanalysis _) ms \<longleftrightarrow> ms = []"
| "hook_sends rank tid (Func_address f) ms \<longleftrightarrow> (\<exists>a. ms = [func_address (int f) a])"
| "hook_sends rank tid End_app ms \<longleftrightarrow> ms = [end_app]"

definition calls_internal :: "ir_module \<Rightarrow> instr \<Rightarrow> bool" where
  "calls_internal M I \<longleftrightarrow> i_opcode I = Op_Call \<and> (\<exists>g. get_calledFunction I = Some g \<and> \<not> is_external (M ! g))"

text \<open>\<open>exec_items\<close>: the execution of items up to the end of their block; \<open>exec_call\<close>: the execution of a function from a
  block to its return.  The outcome of a branch, the addresses and the function behind a pointer are open.  The first
  block of a function is not the target of a branch.\<close>

inductive exec_items :: "ir_module \<Rightarrow> int \<Rightarrow> int \<Rightarrow> (block_pos \<Rightarrow> item list) \<Rightarrow> item list \<Rightarrow> 'm flow_message list \<Rightarrow> bool"
  and exec_call :: "ir_module \<Rightarrow> int \<Rightarrow> int \<Rightarrow> (block_pos \<Rightarrow> item list) \<Rightarrow> block_pos \<Rightarrow> 'm flow_message list \<Rightarrow> bool"
  for M :: ir_module and rank tid :: int and P :: "block_pos \<Rightarrow> item list" where
  exec_nil: "exec_items M rank tid P [] []"
| exec_hook: "hook_sends rank tid h ms \<Longrightarrow> exec_items M rank tid P its ms'
    \<Longrightarrow> exec_items M rank tid P (Hook h # its) (ms @ ms')"
| exec_inst: "\<not> calls_internal M I \<Longrightarrow> exec_items M rank tid P its ms \<Longrightarrow> exec_items M rank tid P (Orig I # its) ms"
| exec_internal: "i_opcode I = Op_Call \<Longrightarrow> get_calledFunction I = Some g \<Longrightarrow> \<not> is_external (M ! g)
    \<Longrightarrow> exec_call M rank tid P (g, 0) ms \<Longrightarrow> exec_items M rank tid P its ms'
    \<Longrightarrow> exec_items M rank tid P (Orig I # its) (ms @ ms')"
| exec_pointer: "i_opcode I = Op_Call \<Longrightarrow> get_calledFunction I = None
    \<Longrightarrow> exec_call M rank tid P (g, 0) ms \<Longrightarrow> exec_items M rank tid P its ms'
    \<Longrightarrow> exec_items M rank tid P (Orig I # its) (ms @ ms')"
| exec_ret: "fst p < length M \<Longrightarrow> snd p < length (f_blocks (M ! fst p)) \<Longrightarrow> exec_items M rank tid P (P p) ms
    \<Longrightarrow> i_opcode (last (block_insts M p)) = Op_Ret \<Longrightarrow> exec_call M rank tid P p ms"
| exec_branch: "fst p < length M \<Longrightarrow> snd p < length (f_blocks (M ! fst p)) \<Longrightarrow> exec_items M rank tid P (P p) ms
    \<Longrightarrow> i_opcode (last (block_insts M p)) \<in> {Op_Br, Op_Switch, Op_IndirectBr} \<Longrightarrow> 0 < bb
    \<Longrightarrow> exec_call M rank tid P (fst p, bb) ms' \<Longrightarrow> exec_call M rank tid P p (ms @ ms')"

subsection \<open>Plain programs\<close>

text \<open>The programs whose runs are replayed: the callee of every call is known, no exception is thrown, \<open>exit\<close> and MPI are
  not called, and \<open>main\<close> is not called by the program.\<close>

definition plain_inst :: "ir_module \<Rightarrow> instr \<Rightarrow> bool" where
  "plain_inst M I \<longleftrightarrow> i_opcode I \<noteq> Op_LandingPad \<and> (i_opcode I = Op_Call \<longrightarrow>
     (case get_calledFunction I of None \<Rightarrow> False
      | Some g \<Rightarrow> \<not> is_mpi_name (f_name (M ! g)) \<and> f_name (M ! g) \<noteq> ''main'' \<and> f_name (M ! g) \<noteq> ''exit''
          \<and> (take 5 (f_name (M ! g)) = ''llvm.'' \<longrightarrow> is_external (M ! g))))"

definition plain_program :: "ir_module \<Rightarrow> bool" where
  "plain_program M \<longleftrightarrow> llvm_module M \<and> (\<forall>F \<in> set M. \<forall>B \<in> set (f_blocks F).
     (\<forall>I \<in> set (b_insts B). plain_inst M I) \<and> (\<forall>I \<in> set (butlast (b_insts B)). \<not> is_terminator I))"

definition in_main :: "ir_module \<Rightarrow> block_pos \<Rightarrow> bool" where
  "in_main M p \<longleftrightarrow> f_name (M ! fst p) = ''main''"

lemma plain_insts:
  assumes "plain_program (fc_module C)" "valid_block C p"
  shows "(\<forall>I \<in> set (block_insts (fc_module C) p). plain_inst (fc_module C) I)
    \<and> (\<forall>I \<in> set (butlast (block_insts (fc_module C) p)). \<not> is_terminator I)"
proof -
  let ?F = "fc_module C ! fst p"
  have F: "?F \<in> set (fc_module C)" "f_blocks ?F ! snd p \<in> set (f_blocks ?F)"
    using assms(2) by (simp_all add: valid_block_def)
  from assms(1) have "\<forall>F \<in> set (fc_module C). \<forall>B \<in> set (f_blocks F).
     (\<forall>I \<in> set (b_insts B). plain_inst (fc_module C) I) \<and> (\<forall>I \<in> set (butlast (b_insts B)). \<not> is_terminator I)"
    unfolding plain_program_def by (rule conjunct2)
  from bspec[OF bspec[OF this F(1)] F(2)] show ?thesis by (simp add: block_insts_def)
qed

lemma plain_block:
  assumes "plain_program (fc_module C)" "valid_block C p" "i < length (block_insts (fc_module C) p)"
  shows "plain_inst (fc_module C) (block_insts (fc_module C) p ! i)"
    and "is_terminator (block_insts (fc_module C) p ! i) \<Longrightarrow> Suc i = length (block_insts (fc_module C) p)"
proof -
  let ?is = "block_insts (fc_module C) p"
  have p: "\<forall>I \<in> set ?is. plain_inst (fc_module C) I" "\<forall>I \<in> set (butlast ?is). \<not> is_terminator I"
    using plain_insts[OF assms(1,2)] by blast+
  show "plain_inst (fc_module C) (?is ! i)" using p(1) assms(3) by simp
  show "Suc i = length ?is" if "is_terminator (?is ! i)"
  proof (rule ccontr)
    assume "Suc i \<noteq> length ?is"
    then have "i < length (butlast ?is)" using assms(3) by simp
    then have "?is ! i \<in> set (butlast ?is)" using nth_mem[of i "butlast ?is"] by (simp add: nth_butlast)
    then show False using p(2) that by blast
  qed
qed

lemma plain_callee:
  assumes "plain_inst (fc_module C) I" "i_opcode I = Op_Call"
  obtains g where "get_calledFunction I = Some g" "callee_of C I = Some (fc_module C ! g)"
    "\<not> is_mpi_name (f_name (fc_module C ! g))" "f_name (fc_module C ! g) \<noteq> ''main''" "\<not> is_exit_call C I"
    "is_debug_call C I \<Longrightarrow> is_external (fc_module C ! g)"
  using assms by (auto simp: plain_inst_def callee_of_def is_exit_call_def is_debug_call_def split: option.splits)

lemma plain_not_exit: "plain_inst (fc_module C) I \<Longrightarrow> \<not> is_exit_call C I"
  by (cases "i_opcode I = Op_Call") (auto elim: plain_callee simp: is_exit_call_def callee_of_def)

subsection \<open>The items of a block\<close>

definition items_from :: "ir_module \<Rightarrow> block_pos \<Rightarrow> bool \<Rightarrow> nat \<Rightarrow> item list" where
  "items_from M p notif i = instrument M (in_main M p) [] (int (fst p)) (int (snd p)) notif (int i) (drop i (block_insts M p))"

lemma no_mpi_items:
  assumes "plain_inst M I"
  shows "insertUpdateProcessID M f bb i I = None" "insertMPIhooks M f bb i I = None"
  using assms by (auto simp: insertUpdateProcessID_def insertMPIhooks_def called_name_def plain_inst_def split: option.splits)

lemma items_from_step:
  assumes "plain_program (fc_module C)" "valid_block C p" "i < length (block_insts (fc_module C) p)"
    and "I = block_insts (fc_module C) p ! i" "M = fc_module C"
  shows "i_opcode I = Op_PHI \<Longrightarrow> items_from M p n i = Orig I # items_from M p n (Suc i)"
    and "i_opcode I \<noteq> Op_PHI \<Longrightarrow> items_from M p False i = Hook (Inst_notification (int (fst p)) (int (snd p))) # items_from M p True i"
    and "is_memory I \<Longrightarrow> items_from M p True i
      = Orig I # Hook (Update_vars (int (fst p)) (int (snd p)) (int i) I) # items_from M p True (Suc i)"
    and "in_main M p \<Longrightarrow> i_opcode I = Op_Ret \<Longrightarrow> items_from M p True i = Hook End_app # Orig I # items_from M p True (Suc i)"
    and "\<not> is_memory I \<Longrightarrow> \<not> (in_main M p \<and> i_opcode I = Op_Ret) \<Longrightarrow> items_from M p True i = Orig I # items_from M p True (Suc i)"
proof -
  have pl: "plain_inst M I" "drop i (block_insts M p) = I # drop (Suc i) (block_insts M p)"
    using plain_block(1)[OF assms(1-3)] assms(3-5) by (simp_all add: Cons_nth_drop_Suc)
  then have lp: "i_opcode I \<noteq> Op_LandingPad" by (simp add: plain_inst_def)
  note simps = items_from_def pl(2) no_mpi_items[OF pl(1)] lp insertInstNotification_def insertLSValues_def
    insertEndApplication_def is_memory_def
  show "i_opcode I = Op_PHI \<Longrightarrow> items_from M p n i = Orig I # items_from M p n (Suc i)" by (simp add: simps add.commute)
  show "i_opcode I \<noteq> Op_PHI \<Longrightarrow> items_from M p False i = Hook (Inst_notification (int (fst p)) (int (snd p))) # items_from M p True i"
    by (simp add: simps)
  show "is_memory I \<Longrightarrow> items_from M p True i
      = Orig I # Hook (Update_vars (int (fst p)) (int (snd p)) (int i) I) # items_from M p True (Suc i)"
    by (auto simp: simps add.commute)
  show "in_main M p \<Longrightarrow> i_opcode I = Op_Ret \<Longrightarrow> items_from M p True i = Hook End_app # Orig I # items_from M p True (Suc i)"
    by (simp add: simps add.commute)
  show "\<not> is_memory I \<Longrightarrow> \<not> (in_main M p \<and> i_opcode I = Op_Ret) \<Longrightarrow> items_from M p True i = Orig I # items_from M p True (Suc i)"
    by (cases "i_opcode I = Op_PHI") (auto simp: simps add.commute)
qed


subsection \<open>What the items of a run send\<close>

text \<open>The messages of items in their order, where those of a call satisfy \<open>Q\<close>.\<close>

fun items_send :: "ir_module \<Rightarrow> int \<Rightarrow> int \<Rightarrow> (nat \<Rightarrow> 'm flow_message list \<Rightarrow> bool) \<Rightarrow> item list \<Rightarrow> 'm flow_message list \<Rightarrow> bool" where
  "items_send M rank tid Q [] ms \<longleftrightarrow> ms = []"
| "items_send M rank tid Q (Hook h # its) ms \<longleftrightarrow>
    (\<exists>a b. ms = a @ b \<and> hook_sends rank tid h a \<and> items_send M rank tid Q its b)"
| "items_send M rank tid Q (Orig I # its) ms \<longleftrightarrow>
    (if calls_internal M I then \<exists>a b g. ms = a @ b \<and> get_calledFunction I = Some g \<and> Q g a \<and> items_send M rank tid Q its b
     else items_send M rank tid Q its ms)"

definition call_replayed :: "flow_config \<Rightarrow> int \<Rightarrow> nat \<Rightarrow> 'm flow_message list \<Rightarrow> bool" where
  "call_replayed C tid g ms \<longleftrightarrow> (\<forall>fs. f_name (fc_module C ! g) \<noteq> ''main'' \<longrightarrow> (\<exists>xs r. func_run C tid fs (g, 0) ms xs r))"

definition final_message :: "flow_config \<Rightarrow> block_pos \<Rightarrow> 'm flow_message list" where
  "final_message C p = (if in_main (fc_module C) p then [end_app] else [])"

definition end_message :: "flow_config \<Rightarrow> block_pos \<Rightarrow> 'm flow_message list" where
  "end_message C p = (if i_opcode (last (block_insts (fc_module C) p)) = Op_Ret then final_message C p else [])"

lemma block_sim_phi:
  assumes "block_run C tid fs p (Suc i) ms xs" "i < length (block_insts (fc_module C) p)"
    "I = block_insts (fc_module C) p ! i" "i_opcode I = Op_PHI"
  shows "\<exists>xs. block_run C tid fs p i ms xs"
  using block_other[OF assms(2,3) _ _ _ _ assms(1)] assms(4)
  by (auto simp: callee_of_def is_debug_call_def is_exit_call_def is_internal_call_def is_memory_def)

lemma block_sim_plain:
  assumes "block_run C tid fs p (Suc i) ms xs" "i < length (block_insts (fc_module C) p)"
    "I = block_insts (fc_module C) p ! i" "\<not> is_memory I" "plain_inst (fc_module C) I" "\<not> calls_internal (fc_module C) I"
  shows "\<exists>xs. block_run C tid fs p i ms xs"
proof (cases "is_debug_call C I")
  case True
  then show ?thesis using block_debug[OF assms(2) _ assms(1)] assms(3) by blast
next
  case False
  moreover have "\<not> is_internal_call C I"
    using assms(6) by (auto simp: calls_internal_def is_internal_call_def callee_of_def split: if_splits option.splits)
  ultimately show ?thesis using block_other[OF assms(2,3) _ assms(4) _ plain_not_exit[OF assms(5)] assms(1)] by blast
qed

lemma block_sim_call:
  assumes "block_run C tid fs p (Suc i) ms' xs'" "i < length (block_insts (fc_module C) p)"
    "I = block_insts (fc_module C) p ! i" "plain_inst (fc_module C) I" "calls_internal (fc_module C) I"
    "get_calledFunction I = Some g" "call_replayed C tid g ms"
  shows "\<exists>xs. block_run C tid fs p i (ms @ ms') xs"
proof -
  have I: "i_opcode I = Op_Call" "\<not> is_external (fc_module C ! g)" using assms(5,6) by (auto simp: calls_internal_def)
  obtain h where "get_calledFunction I = Some h" "f_name (fc_module C ! h) \<noteq> ''main''" "\<not> is_exit_call C I"
    "is_debug_call C I \<Longrightarrow> is_external (fc_module C ! h)"
    using plain_callee[OF assms(4) I(1)] by metis
  then have g: "f_name (fc_module C ! g) \<noteq> ''main''" "\<not> is_exit_call C I" "\<not> is_debug_call C I" using assms(6) I(2) by auto
  then obtain xs r where r: "func_run C tid (fst p # fs) (g, 0) ms xs r" using assms(7) g(1) unfolding call_replayed_def by blast
  show ?thesis using block_call[OF assms(2,3) I(1) assms(6) I(2) g(3,2) r assms(1)] by blast
qed

lemma is_memory_not_call: "is_memory I \<Longrightarrow> \<not> calls_internal M I" "i_opcode I = Op_PHI \<Longrightarrow> \<not> calls_internal M I"
  "i_opcode I = Op_Ret \<Longrightarrow> \<not> calls_internal M I" "i_opcode I = Op_Ret \<Longrightarrow> \<not> is_memory I" "i_opcode I = Op_Ret \<Longrightarrow> is_terminator I"
  "i_opcode I = Op_PHI \<Longrightarrow> \<not> is_terminator I" "is_memory I \<Longrightarrow> \<not> is_terminator I"
  by (auto simp: is_memory_def calls_internal_def is_terminator_def)



text \<open>The items from an instruction to the end of its block send what the server expects of this part.\<close>

lemma block_sim:
  fixes ms :: "'m flow_message list"
  assumes pl: "plain_program (fc_module C)" and v: "valid_block C p" and i: "i \<le> length (block_insts (fc_module C) p)"
    and s: "items_send (fc_module C) rank tid (call_replayed C tid) (items_from (fc_module C) p True i) ms"
  shows "\<exists>ms' xs. ms = ms' @ (if i < length (block_insts (fc_module C) p) then end_message C p else [])
    \<and> block_run C tid fs p i ms' xs"
  using i s
proof (induction i arbitrary: ms rule: inc_induct)
  case base
  have "block_run C tid fs p (length (block_insts (fc_module C) p)) [] []" by (rule block_end) (rule refl)
  then show ?case using base by (auto simp: items_from_def)
next
  case (step i)
  let ?M = "fc_module C" let ?is = "block_insts (fc_module C) p" let ?I = "?is ! i"
  let ?stop = "(if Suc i < length ?is then end_message C p else []) :: 'm flow_message list"
  have P: "plain_inst ?M ?I" by (rule plain_block(1)[OF pl v step.hyps(2)])
  note items = items_from_step[OF pl v step.hyps(2) refl refl]
  note run = step.hyps(2) refl
  have go: ?case if "ms = a @ b @ end_message C p" "block_run C tid fs p i (a @ b) xs" for a b xs
    using that step.hyps(2) by auto
  have fin: "?stop = end_message C p" if "\<not> is_terminator ?I"
    using not_last[OF _ v step.hyps(2) that] pl by (simp add: plain_program_def)
  have last: "end_message C p = ([] :: 'm flow_message list)" if "is_terminator ?I" "\<not> (in_main ?M p \<and> i_opcode ?I = Op_Ret)"
  proof -
    have "Suc i = length ?is" by (rule plain_block(2)[OF pl v step.hyps(2) that(1)])
    moreover from this have "last ?is = ?I" by (metis diff_Suc_1 last_conv_nth length_0_conv nat.distinct(1))
    ultimately show ?thesis using that(2) by (auto simp: end_message_def final_message_def)
  qed
  consider (mem) "is_memory ?I" | (ret) "in_main ?M p" "i_opcode ?I = Op_Ret"
    | (other) "\<not> is_memory ?I" "\<not> (in_main ?M p \<and> i_opcode ?I = Op_Ret)" by blast
  then show ?case
  proof cases
    case mem
    then obtain a ms1 where ms: "ms = MEM_ADDR_NOTIFICATION (int (fst p)) (int (snd p)) (int i) a # ms1"
      "items_send ?M rank tid (call_replayed C tid) (items_from ?M p True (Suc i)) ms1"
      using step.prems items(3)[OF mem] by (auto simp: is_memory_not_call update_vars_def)
    then obtain ms' xs where r: "ms1 = ms' @ end_message C p" "block_run C tid fs p (Suc i) ms' xs"
      using step.IH[OF ms(2)] fin[OF is_memory_not_call(7)[OF mem]] by auto
    show ?thesis
      using go[of "[MEM_ADDR_NOTIFICATION (int (fst p)) (int (snd p)) (int i) a]" ms'] block_memory[OF run mem r(2), of a]
      by (simp add: ms(1) r(1))
  next
    case ret
    have l: "Suc i = length ?is" by (rule plain_block(2)[OF pl v step.hyps(2) is_memory_not_call(5)[OF ret(2)]])
    then have "last ?is = ?I" by (metis diff_Suc_1 last_conv_nth length_0_conv nat.distinct(1))
    moreover have "items_from ?M p True (Suc i) = []" by (simp add: items_from_def l)
    ultimately have "ms = end_message C p"
      using step.prems items(4)[OF ret] ret by (auto simp: is_memory_not_call end_message_def final_message_def)
    moreover obtain xs where "block_run C tid fs p i [] (xs :: 'm flow_action list)"
      using block_sim_plain[OF block_end[OF l] run _ P] is_memory_not_call(3,4)[OF ret(2)] by blast
    ultimately show ?thesis by (intro go[of "[]" "[]" xs]) simp_all
  next
    case other
    note it = items(5)[OF other]
    obtain a ms1 where ms: "ms = a @ ms1" "items_send ?M rank tid (call_replayed C tid) (items_from ?M p True (Suc i)) ms1"
      and a: "if calls_internal ?M ?I then \<exists>g. get_calledFunction ?I = Some g \<and> call_replayed C tid g a else a = []"
      using step.prems it by (auto split: if_splits)
    obtain ms' xs where r: "ms1 = ms' @ ?stop" "block_run C tid fs p (Suc i) ms' xs" using step.IH[OF ms(2)] by blast
    have e: "?stop = end_message C p" using fin last[OF _ other(2)] by (cases "is_terminator ?I") simp_all
    obtain ys where "block_run C tid fs p i (a @ ms') ys"
      using a block_sim_plain[OF r(2) run other(1) P] block_sim_call[OF r(2) run P] by (cases "calls_internal ?M ?I") force+
    then show ?thesis by (rule go[rotated]) (simp add: ms(1) r(1) e)
  qed
qed



text \<open>The whole block: the notification comes after the phi instructions.\<close>

lemma whole_block_sim:
  fixes ms :: "'m flow_message list"
  assumes pl: "plain_program (fc_module C)" and v: "valid_block C p" and i: "i < length (block_insts (fc_module C) p)"
    and s: "items_send (fc_module C) rank tid (call_replayed C tid) (items_from (fc_module C) p False i) ms"
  shows "\<exists>ms' xs. ms = BASICBLOCK_NOTIFICATION (int (fst p)) (int (snd p)) tid # ms' @ end_message C p
    \<and> block_run C tid fs p i ms' xs"
  using i s
proof (induction "length (block_insts (fc_module C) p) - i" arbitrary: i ms rule: less_induct)
  case (less i ms)
  let ?I = "block_insts (fc_module C) p ! i"
  show ?case
  proof (cases "i_opcode ?I = Op_PHI")
    case True
    have n: "Suc i < length (block_insts (fc_module C) p)"
      using not_last[OF _ v less(2)] is_memory_not_call(6)[OF True] pl by (simp add: plain_program_def)
    have "items_send (fc_module C) rank tid (call_replayed C tid) (items_from (fc_module C) p False (Suc i)) ms"
      using less(3) items_from_step(1)[OF pl v less(2) refl refl True] by (simp add: is_memory_not_call(2)[OF True])
    then obtain ms' xs where "ms = BASICBLOCK_NOTIFICATION (int (fst p)) (int (snd p)) tid # ms' @ end_message C p"
      "block_run C tid fs p (Suc i) ms' xs" using less(1)[OF _ n] less(2) by (metis diff_less_mono2 lessI)
    then show ?thesis using block_sim_phi[OF _ less(2) refl True] by blast
  next
    case False
    obtain ms1 where ms: "ms = BASICBLOCK_NOTIFICATION (int (fst p)) (int (snd p)) tid # ms1"
      "items_send (fc_module C) rank tid (call_replayed C tid) (items_from (fc_module C) p True i) ms1"
      using less(3) items_from_step(2)[OF pl v less(2) refl refl False] by (auto simp: inst_notification_def)
    then show ?thesis using block_sim[OF pl v less_imp_le[OF less(2)] ms(2)] less(2) by simp
  qed
qed



subsection \<open>Functions\<close>

lemma hooks_orig:
  "Orig J \<in> set (insertInstNotification n faddr f bb) \<Longrightarrow> Orig J \<in> set faddr"
  "Orig J \<in> set (insertLSValues f bb i I) \<Longrightarrow> J = I"
  "Orig J \<in> set (insertEndApplication m I) \<Longrightarrow> J = I"
  "insertUpdateProcessID M f bb i I = Some items \<Longrightarrow> Orig J \<notin> set items"
  "insertMPIhooks M f bb i I = Some items \<Longrightarrow> Orig J \<in> set items \<Longrightarrow> J = I"
  by (auto simp: insertInstNotification_def insertLSValues_def insertEndApplication_def insertUpdateProcessID_def
      insertMPIhooks_def Let_def split: if_splits option.splits)

lemma instrument_orig:
  "Orig J \<in> set (instrument M inMain faddr f bb n i Is) \<Longrightarrow> Orig J \<in> set faddr \<or> J \<in> set Is"
proof (induction M inMain faddr f bb n i Is rule: instrument.induct)
  case (2 M inMain faddr f bb n i I Is)
  show ?case
  proof (cases "insertUpdateProcessID M f bb i I")
    case None
    then show ?thesis using 2 by (auto split: if_splits option.splits dest: hooks_orig)
  next
    case (Some items)
    then show ?thesis using 2 hooks_orig(4)[OF Some, of J]
      by (cases Is) (auto split: if_splits option.splits dest: hooks_orig(1,2,3,5))
  qed
qed simp

lemma runOnModule_orig: "Orig J \<in> set (runOnModule server threads M p) \<Longrightarrow> J \<in> set (block_insts M p)"
  by (auto simp: runOnModule_def Let_def insertInitLibAnalysis_def insertFAddr_def dest!: instrument_orig split: if_splits)

lemma runOnModule_items:
  "\<not> (in_main M p \<and> snd p = 0) \<Longrightarrow> runOnModule server threads M p = items_from M p False 0"
  by (auto simp: runOnModule_def Let_def in_main_def items_from_def)

lemma first_index: "llvm_module (fc_module C) \<Longrightarrow> valid_block C p \<Longrightarrow> 0 < length (block_insts (fc_module C) p)"
  using block_insts_ok by blast

lemma entered_block_sim:
  fixes ms :: "'m flow_message list"
  assumes pl: "plain_program (fc_module C)" and v: "valid_block C p"
    and ne: "\<not> (in_main (fc_module C) p \<and> snd p = 0)" and P: "P = runOnModule server threads (fc_module C)"
    and s: "(\<forall>I. Orig I \<in> set (P p) \<longrightarrow> plain_inst (fc_module C) I)
      \<longrightarrow> items_send (fc_module C) rank tid (call_replayed C tid) (P p) ms"
  shows "\<exists>ms' xs. ms = BASICBLOCK_NOTIFICATION (int (fst p)) (int (snd p)) tid # ms' @ end_message C p
    \<and> block_run C tid fs p 0 ms' xs"
proof -
  have "\<forall>I. Orig I \<in> set (P p) \<longrightarrow> plain_inst (fc_module C) I"
    using plain_insts[OF pl v] runOnModule_orig by (simp add: P)
  then have "items_send (fc_module C) rank tid (call_replayed C tid) (items_from (fc_module C) p False 0) ms"
    using s runOnModule_items[OF ne, of server threads] by (simp add: P)
  then show ?thesis using whole_block_sim[OF pl v first_index[OF _ v]] pl by (simp add: plain_program_def)
qed

lemma exec_sim:
  fixes ms ms' :: "'m flow_message list"
  assumes pl: "plain_program (fc_module C)" and P: "P = runOnModule server threads (fc_module C)"
  shows "exec_items (fc_module C) rank tid P its ms \<Longrightarrow> (\<forall>I. Orig I \<in> set its \<longrightarrow> plain_inst (fc_module C) I)
      \<longrightarrow> items_send (fc_module C) rank tid (call_replayed C tid) its ms"
    and "exec_call (fc_module C) rank tid P p ms' \<Longrightarrow> \<not> (in_main (fc_module C) p \<and> snd p = 0)
      \<longrightarrow> (\<forall>fs. \<exists>ms'' xs r. func_run C tid fs p ms'' xs r \<and> ms' = ms'' @ final_message C p)"
proof (induction rule: exec_items_exec_call.inducts)
  case (exec_internal I g ms its ms')
  have "call_replayed C tid g ms"
    using exec_internal(5) by (simp add: call_replayed_def in_main_def final_message_def)
  then show ?case using exec_internal by (auto simp: calls_internal_def)
next
  case (exec_pointer I g ms its ms')
  then show ?case by (auto simp: plain_inst_def)
next
  case (exec_ret p ms)
  then have v: "valid_block C p" by (simp add: valid_block_def)
  show ?case
  proof (intro impI allI)
    fix fs assume ne: "\<not> (in_main (fc_module C) p \<and> snd p = 0)"
    obtain ms' xs where r: "ms = BASICBLOCK_NOTIFICATION (int (fst p)) (int (snd p)) tid # ms' @ end_message C p"
      "block_run C tid fs p 0 ms' xs" using entered_block_sim[OF pl v ne P exec_ret(4)] by blast
    from func_ret[OF v r(2) refl exec_ret(5)] r(1) exec_ret(5)
    show "\<exists>ms'' xs r. func_run C tid fs p ms'' xs r \<and> ms = ms'' @ final_message C p"
      by (simp add: end_message_def) (metis append_Cons)
  qed
next
  case (exec_branch p ms bb ms')
  then have v: "valid_block C p" by (simp add: valid_block_def)
  show ?case
  proof (intro impI allI)
    fix fs assume ne: "\<not> (in_main (fc_module C) p \<and> snd p = 0)"
    have last: "i_opcode (last (block_insts (fc_module C) p)) \<noteq> Op_Ret" using exec_branch(5) by auto
    obtain ms1 xs1 where r1: "ms = BASICBLOCK_NOTIFICATION (int (fst p)) (int (snd p)) tid # ms1 @ end_message C p"
      "block_run C tid fs p 0 ms1 xs1" using entered_block_sim[OF pl v ne P exec_branch(4)] by blast
    obtain ms2 xs2 r where r2: "func_run C tid fs (fst p, bb) ms2 xs2 r" "ms' = ms2 @ final_message C p"
      using mp[OF exec_branch(7)] exec_branch(8) by (simp add: final_message_def in_main_def) blast
    from func_branch[OF v r1(2) exec_branch(5) r2(1)] r1(1) r2(2) last
    show "\<exists>ms'' xs r. func_run C tid fs p ms'' xs r \<and> ms @ ms' = ms'' @ final_message C p"
      by (simp add: end_message_def) (metis append_Cons append_assoc)
  qed
qed auto



subsection \<open>The start of main\<close>

lemma instrument_notified: "instrument M inMain faddr f bb True i Is = instrument M inMain faddr' f bb True i Is"
  by (induction M inMain faddr f bb True i Is rule: instrument.induct)
    (auto simp: insertInstNotification_def split: option.splits list.splits)

lemma instrument_faddr:
  assumes "i_opcode I \<noteq> Op_PHI" "i_opcode I \<noteq> Op_LandingPad"
  shows "instrument M inMain faddr f bb False i (I # Is) = faddr @ instrument M inMain [] f bb False i (I # Is)"
proof -
  have "instrument M inMain faddr f bb True j Js = instrument M inMain [] f bb True j Js" for j Js by (rule instrument_notified)
  then show ?thesis using assms by (simp add: insertInstNotification_def split: option.split list.split)
qed

definition internal_functions :: "ir_module \<Rightarrow> nat list" where
  "internal_functions M = rev (filter (\<lambda>f. \<not> is_external (M ! f)) [0..<length M])"

lemma main_items:
  assumes "in_main M (m, 0)" "block_insts M (m, 0) \<noteq> []"
    and I: "i_opcode (hd (block_insts M (m, 0))) \<notin> {Op_PHI, Op_LandingPad}"
  shows "runOnModule server threads M (m, 0) = insertInitLibAnalysis (server @ ''/'' @ threads)
    @ map (\<lambda>f. Hook (Func_address f)) (internal_functions M) @ items_from M (m, 0) False 0"
proof -
  obtain J Js where J: "block_insts M (m, 0) = J # Js" using assms(2) by (cases "block_insts M (m, 0)") auto
  then have "i_opcode J \<noteq> Op_PHI" "i_opcode J \<noteq> Op_LandingPad" using I by auto
  note instrument_faddr[OF this, of M True "insertFAddr M" "int m" 0 0 Js]
  then show ?thesis using assms(1) J
    by (simp add: runOnModule_def in_main_def items_from_def insertFAddr_def internal_functions_def rev_map del: instrument.simps)
qed

lemma func_address_items:
  "items_send M rank tid Q (map (\<lambda>f. Hook (Func_address f)) fs @ its) ms
    \<Longrightarrow> \<exists>as b. length as = length fs \<and> ms = map2 (\<lambda>f a. FUNC_ADDRESS (int f) a) fs as @ b \<and> items_send M rank tid Q its b"
proof (induction fs arbitrary: ms)
  case (Cons f fs)
  then obtain a b where ms: "ms = FUNC_ADDRESS (int f) a # b"
    "items_send M rank tid Q (map (\<lambda>f. Hook (Func_address f)) fs @ its) b" by (auto simp: func_address_def)
  obtain as c where "length as = length fs \<and> b = map2 (\<lambda>f a. FUNC_ADDRESS (int f) a) fs as @ c \<and> items_send M rank tid Q its c"
    using Cons.IH[OF ms(2)] by blast
  then show ?case using ms(1) by (intro exI[of _ "a # as"] exI[of _ c]) simp
qed simp

lemma main_sim:
  fixes ms :: "'m flow_message list"
  assumes pl: "plain_program (fc_module C)" and m: "in_main (fc_module C) (m, 0)"
    and I: "i_opcode (hd (block_insts (fc_module C) (m, 0))) \<notin> {Op_PHI, Op_LandingPad}"
    and e: "exec_call (fc_module C) rank tid (runOnModule server threads (fc_module C)) (m, 0) ms"
  shows "\<exists>as ms' xs r. length as = length (internal_functions (fc_module C)) \<and> func_run C tid [] (m, 0) ms' xs r
    \<and> ms = MPI_UPDATE_PROCESS_ID rank # map2 (\<lambda>f a. FUNC_ADDRESS (int f) a) (internal_functions (fc_module C)) as
        @ ms' @ [END_APP_NOTIFICATION]"
proof -
  let ?P = "runOnModule server threads (fc_module C)"
  have v: "valid_block C (m, 0)" using e by (cases rule: exec_call.cases) (simp_all add: valid_block_def)
  have M: "llvm_module (fc_module C)" using pl by (simp add: plain_program_def)
  have block: "\<exists>as ms' xs. length as = length (internal_functions (fc_module C)) \<and> block_run C tid [] (m, 0) 0 ms' xs
      \<and> bs = MPI_UPDATE_PROCESS_ID rank # map2 (\<lambda>f a. FUNC_ADDRESS (int f) a) (internal_functions (fc_module C)) as
        @ BASICBLOCK_NOTIFICATION (int m) 0 tid # ms' @ end_message C (m, 0)"
    if "exec_items (fc_module C) rank tid ?P (?P (m, 0)) bs" for bs :: "'m flow_message list"
  proof -
    have "\<forall>I. Orig I \<in> set (?P (m, 0)) \<longrightarrow> plain_inst (fc_module C) I"
      using plain_insts[OF pl v] runOnModule_orig by simp
    then have "items_send (fc_module C) rank tid (call_replayed C tid) (?P (m, 0)) bs"
      using exec_sim(1)[OF pl refl that] by blast
    then obtain b where b: "bs = MPI_UPDATE_PROCESS_ID rank # b" "items_send (fc_module C) rank tid (call_replayed C tid)
        (map (\<lambda>f. Hook (Func_address f)) (internal_functions (fc_module C)) @ items_from (fc_module C) (m, 0) False 0) b"
      using main_items[OF m _ I] block_insts_ok[OF M v] by (auto simp: insertInitLibAnalysis_def mpi_update_process_id_def)
    from func_address_items[OF b(2)] obtain as c where c: "length as = length (internal_functions (fc_module C))"
      "b = map2 (\<lambda>f a. FUNC_ADDRESS (int f) a) (internal_functions (fc_module C)) as @ c"
      "items_send (fc_module C) rank tid (call_replayed C tid) (items_from (fc_module C) (m, 0) False 0) c" by blast
    from whole_block_sim[OF pl v first_index[OF M v] c(3), of "[]"] b(1) c(1,2) show ?thesis by auto
  qed
  show ?thesis using e
  proof (cases rule: exec_call.cases)
    case exec_ret
    from block[OF exec_ret(3)] obtain as ms' xs where "length as = length (internal_functions (fc_module C))"
      "block_run C tid [] (m, 0) 0 ms' xs"
      "ms = MPI_UPDATE_PROCESS_ID rank # map2 (\<lambda>f a. FUNC_ADDRESS (int f) a) (internal_functions (fc_module C)) as
        @ (BASICBLOCK_NOTIFICATION (int m) 0 tid # ms') @ end_message C (m, 0)" by auto
    moreover from this(2) have "func_run C tid [] (m, 0) (BASICBLOCK_NOTIFICATION (int m) 0 tid # ms') xs
        (last (block_insts (fc_module C) (m, 0)))"
      using func_ret[OF v _ refl exec_ret(4)] by simp
    moreover have "end_message C (m, 0) = ([END_APP_NOTIFICATION] :: 'm flow_message list)"
      using exec_ret(4) m by (simp add: end_message_def final_message_def end_app_def)
    ultimately show ?thesis by metis
  next
    case (exec_branch bs bb ms2)
    from block[OF exec_branch(4)] exec_branch(5) obtain as ms' xs where "length as = length (internal_functions (fc_module C))"
      "block_run C tid [] (m, 0) 0 ms' xs"
      "bs = MPI_UPDATE_PROCESS_ID rank # map2 (\<lambda>f a. FUNC_ADDRESS (int f) a) (internal_functions (fc_module C)) as
        @ BASICBLOCK_NOTIFICATION (int m) 0 tid # ms'" by (auto simp: end_message_def)
    moreover obtain ms3 ys r where "func_run C tid [] (m, bb) ms3 ys r" "ms2 = ms3 @ [END_APP_NOTIFICATION]"
      using exec_sim(2)[OF pl refl exec_branch(7)] exec_branch(6) m by (simp add: final_message_def in_main_def end_app_def) blast
    moreover from this(1) calculation(2) have "func_run C tid [] (m, 0) (BASICBLOCK_NOTIFICATION (int m) 0 tid # ms' @ ms3) (xs @ ys) r"
      using func_branch[OF v _ exec_branch(5)] by simp
    ultimately show ?thesis using exec_branch(1) by (metis append.assoc append_Cons)
  qed
qed



subsection \<open>The server\<close>

lemma consume_process_id:
  fixes ms :: "'m flow_message list"
  assumes "0 \<le> t" "nat t < n" "\<not> stops ! nat t" "0 \<le> rank" "nat rank < n" "length stops = n" "\<not> stops ! nat rank"
  obtains s where "queue_consumer C (MPI_UPDATE_PROCESS_ID rank # ms) (new_connection t n stops) = queue_consumer C ms s"
    "live C [] s" "saved_states s = []" "fl_thread s = rank" "fl_should_stop s = stops"
    "fl_actions s = [(rank, Construct rank rank), (rank, UpdateProcessId rank)]"
proof
  define N :: "'m flow" where "N = new_connection t n stops"
  define s :: "'m flow" where "s = N\<lparr>fl_mpi_processor_id := rank, fl_thread := rank, fl_initialized := (replicate n False)[nat rank := True],
    fl_saved := (replicate n [])[nat rank := []], fl_actions := [(rank, Construct rank rank), (rank, UpdateProcessId rank)]\<rparr>"
  have "first_message rank rank (N\<lparr>fl_mpi_processor_id := rank, fl_thread := rank\<rparr>)
      = Some (s\<lparr>fl_actions := [(rank, Construct rank rank)]\<rparr>)"
    using assms by (simp add: first_message_def N_def new_connection_def tab_get_def tab_put_def act_def s_def)
  then have "consume C (MPI_UPDATE_PROCESS_ID rank) N = Some s" by (simp add: act_def s_def)
  moreover have "tab_get (fl_thread N) (fl_should_stop N) = Some False" "\<not> fl_exited N"
    using assms by (simp_all add: N_def new_connection_def tab_get_def)
  ultimately show "queue_consumer C (MPI_UPDATE_PROCESS_ID rank # ms) (new_connection t n stops) = queue_consumer C ms s"
    by (simp add: N_def[symmetric] queue_consumer.simps(2) del: consume.simps)
  show "saved_states s = []"
    using assms by (simp add: saved_states_def s_def tab_get_def N_def new_connection_def)
  then show "live C [] s"
    using assms by (simp add: live_def s_def N_def new_connection_def tab_get_def)
  show "fl_thread s = rank" "fl_should_stop s = stops" "fl_actions s = [(rank, Construct rank rank), (rank, UpdateProcessId rank)]"
    by (simp_all add: s_def N_def new_connection_def)
qed

lemma consume_addresses:
  "live C fs s \<Longrightarrow> length as = length gs \<Longrightarrow> queue_consumer C (map2 (\<lambda>f a. FUNC_ADDRESS (int f) a) gs as @ ms) s
    = queue_consumer C ms (did (map2 (\<lambda>f a. SetFunction a (int f)) gs as) s)"
proof (induction gs arbitrary: as s)
  case (Cons g gs)
  then obtain a bs where as: "as = a # bs" "length bs = length gs" by (cases as) auto
  have "queue_consumer C (map2 (\<lambda>f a. FUNC_ADDRESS (int f) a) (g # gs) as @ ms) s
      = queue_consumer C (map2 (\<lambda>f a. FUNC_ADDRESS (int f) a) gs bs @ ms) (did [SetFunction a (int g)] s)"
    using Cons.prems(1) by (simp add: as(1) queue_consumer.simps(2) live_def act_did)
  then show ?case using Cons.IH[of "did [SetFunction a (int g)] s" bs] Cons.prems(1) as by simp
qed simp

text \<open>C5: the whole way of a run, from the instrumented module to the analyses.  For a module without MPI in which every callee
  is known and no exception is thrown, any execution \<open>ms\<close> of the module that the pass of the decoupled version has
  instrumented consists of the message of the process, one message with the address of every function that has a body, the
  messages \<open>ms'\<close> of a run of \<open>main\<close> and the final message.  From these the server creates the analyses of the process,
  learns the very addresses that were sent, and passes every instruction of that run of \<open>main\<close> (\<open>xs\<close>, which \<open>func_run\<close> ties to \<open>ms'\<close>)
  to the analyses in the order in which they ran, each access with the address of its message; after the last message
  no caller is open and the connection is closed.\<close>

theorem instrumented_run_replayed:
  fixes ms :: "'m flow_message list"
  assumes "plain_program (fc_module C)" "\<not> fc_mpi_map C"
    and "in_main (fc_module C) (m, 0)" "i_opcode (hd (block_insts (fc_module C) (m, 0))) \<notin> {Op_PHI, Op_LandingPad}"
    and "exec_call (fc_module C) rank tid (runOnModule server threads (fc_module C)) (m, 0) ms"
    and "0 \<le> t" "nat t < n" "\<not> stops ! nat t" "0 \<le> rank" "nat rank < n" "length stops = n" "\<not> stops ! nat rank"
  shows "\<exists>s as ms' xs r. queue_consumer C ms (new_connection t n stops) = Some s
    \<and> ms = MPI_UPDATE_PROCESS_ID rank # map2 (\<lambda>f a. FUNC_ADDRESS (int f) a) (internal_functions (fc_module C)) as
      @ ms' @ [END_APP_NOTIFICATION]
    \<and> func_run C tid [] (m, 0) ms' xs r \<and> length as = length (internal_functions (fc_module C))
    \<and> fl_actions s = map (Pair rank) (Construct rank rank # UpdateProcessId rank
        # map2 (\<lambda>f a. SetFunction a (int f)) (internal_functions (fc_module C)) as @ xs)
    \<and> saved_states s = [] \<and> \<not> fl_exited s \<and> fl_should_stop s = stops[nat rank := True]"
proof -
  obtain as ms' xs r where as: "length as = length (internal_functions (fc_module C))" and r: "func_run C tid [] (m, 0) ms' xs r"
    and ms: "ms = MPI_UPDATE_PROCESS_ID rank # map2 (\<lambda>f a. FUNC_ADDRESS (int f) a) (internal_functions (fc_module C)) as
      @ ms' @ [END_APP_NOTIFICATION]"
    using main_sim[OF assms(1,3,4,5)] by blast
  let ?fs = "map2 (\<lambda>f a. SetFunction a (int f)) (internal_functions (fc_module C)) as :: 'm flow_action list"
  obtain s where s: "queue_consumer C ms (new_connection t n stops) = queue_consumer C
      (map2 (\<lambda>f a. FUNC_ADDRESS (int f) a) (internal_functions (fc_module C)) as @ ms' @ [END_APP_NOTIFICATION]) s"
    "live C [] s" "saved_states s = []" "fl_thread s = rank" "fl_should_stop s = stops"
    "fl_actions s = [(rank, Construct rank rank), (rank, UpdateProcessId rank)]"
    using consume_process_id[OF assms(6-12)] unfolding ms by blast
  have M: "llvm_module (fc_module C)" using assms(1) by (simp add: plain_program_def)
  have "queue_consumer C ms (new_connection t n stops) = queue_consumer C [END_APP_NOTIFICATION] (did (?fs @ xs) s)"
    using s(1) consume_addresses[OF s(2) as] replay(2)[OF M assms(2) r] s(2,3)
    by (simp add: func_replayed_def resume_def returns_def)
  moreover have "queue_consumer C [END_APP_NOTIFICATION] (did (?fs @ xs) s)
      = Some ((did (?fs @ xs) s)\<lparr>fl_should_stop := stops[nat rank := True]\<rparr>)"
    using s(2,4,5) assms(9,10,11) by (simp add: queue_consumer.simps(2) live_def tab_put_def)
  ultimately show ?thesis using s r as ms
    by (intro exI[of _ "(did (?fs @ xs) s)\<lparr>fl_should_stop := stops[nat rank := True]\<rparr>"] exI[of _ as] exI[of _ ms'] exI[of _ xs] exI[of _ r])
      (simp add: did_def saved_states_def live_def)
qed



text \<open>\<open>main\<close> calls \<open>f\<close>, which loads from address 64.\<close>

lemma two_functions_items:
  fixes M defines "M \<equiv> two_functions (Callee_Func 1)"
  shows "runOnModule ''host:1'' ''1'' M (0, 0) = [Hook (Global_string ''host:1/1''), Hook (Init_libanalysis ''host:1/1''),
      Hook Mpi_update_process_id, Hook (Func_address 1), Hook (Func_address 0), Hook (Inst_notification 0 0),
      Orig (call_inst 10 (Callee_Func 1)), Hook End_app, Orig (plain_instr 11 Op_Ret)]"
    and "runOnModule ''host:1'' ''1'' M (1, 0) = [Hook (Inst_notification 1 0), Orig load0, Hook (Update_vars 1 0 0 load0),
      Orig (plain_instr 21 Op_Ret)]"
  unfolding M_def by code_simp+

lemma two_functions_exec:
  fixes M P defines "M \<equiv> two_functions (Callee_Func 1)" and "P \<equiv> runOnModule ''host:1'' ''1'' (two_functions (Callee_Func 1))"
  shows "exec_call M 0 0 P (0, 0) [MPI_UPDATE_PROCESS_ID 0, FUNC_ADDRESS 1 500, FUNC_ADDRESS 0 400, BASICBLOCK_NOTIFICATION 0 0 0,
      BASICBLOCK_NOTIFICATION 1 0 0, MEM_ADDR_NOTIFICATION 1 0 0 64, END_APP_NOTIFICATION :: 'm flow_message]"
proof -
  note sends = inst_notification_def update_vars_def func_address_def mpi_update_process_id_def end_app_def
  note items = two_functions_items[folded P_def]
  have M: "length M = 2" "length (f_blocks (M ! 0)) = 1" "length (f_blocks (M ! 1)) = 1" "\<not> is_external (M ! 1)"
    "last (block_insts M (0, 0)) = plain_instr 11 Op_Ret" "last (block_insts M (1, 0)) = plain_instr 21 Op_Ret"
    by (simp_all add: M_def two_functions_def block_insts_def is_external_def)
  have hook: "exec_items M 0 0 P its ms' \<Longrightarrow> hook_sends 0 0 h [m] \<Longrightarrow> exec_items M 0 0 P (Hook h # its) (m # ms')"
    "exec_items M 0 0 P its ms' \<Longrightarrow> hook_sends 0 0 h ([] :: 'm flow_message list) \<Longrightarrow> exec_items M 0 0 P (Hook h # its) ms'"
    for h m and ms' :: "'m flow_message list" and its
    using exec_hook[of 0 0 h "[m]" M P its ms'] exec_hook[of 0 0 h "[]" M P its ms'] by simp_all
  have plain: "op \<noteq> Op_Call \<Longrightarrow> exec_items M 0 0 P its ms \<Longrightarrow> exec_items M 0 0 P (Orig (plain_instr n op) # its) ms"
    for op n its and ms :: "'m flow_message list" by (rule exec_inst) (simp_all add: calls_internal_def)
  have "exec_items M 0 0 P [Hook (Inst_notification 1 0), Orig load0, Hook (Update_vars 1 0 0 load0), Orig (plain_instr 21 Op_Ret)]
      [BASICBLOCK_NOTIFICATION 1 0 0, MEM_ADDR_NOTIFICATION 1 0 0 64 :: 'm flow_message]"
    by (intro hook(1) plain exec_nil) (simp_all add: sends)
  then have "exec_call M 0 0 P (1, 0) [BASICBLOCK_NOTIFICATION 1 0 0, MEM_ADDR_NOTIFICATION 1 0 0 64 :: 'm flow_message]"
    by (intro exec_ret) (simp_all add: items M del: One_nat_def)
  moreover have "exec_items M 0 0 P [Hook End_app, Orig (plain_instr 11 Op_Ret)] [END_APP_NOTIFICATION :: 'm flow_message]"
    by (intro hook(1) plain exec_nil) (simp_all add: sends)
  ultimately have "exec_items M 0 0 P (Orig (call_inst 10 (Callee_Func 1)) # [Hook End_app, Orig (plain_instr 11 Op_Ret)])
      ([BASICBLOCK_NOTIFICATION 1 0 0, MEM_ADDR_NOTIFICATION 1 0 0 64] @ [END_APP_NOTIFICATION :: 'm flow_message])"
    by (intro exec_internal[where g = 1]) (simp_all add: get_calledFunction_def M[simplified])
  then have "exec_items M 0 0 P (P (0, 0)) [MPI_UPDATE_PROCESS_ID 0, FUNC_ADDRESS 1 500, FUNC_ADDRESS 0 400, BASICBLOCK_NOTIFICATION 0 0 0,
      BASICBLOCK_NOTIFICATION 1 0 0, MEM_ADDR_NOTIFICATION 1 0 0 64, END_APP_NOTIFICATION :: 'm flow_message]"
    unfolding items
    by (intro hook(2)[where h = "Global_string _"] hook(2)[where h = "Init_libanalysis _"] hook(1)) (simp_all add: sends)
  then show ?thesis by (rule exec_ret[rotated 2]) (simp_all add: M)
qed

lemma instrumented_run_replayed_witness:
  fixes C defines "C \<equiv> plain_config (two_functions (Callee_Func 1))"
  shows "\<exists>s as ms' xs r. queue_consumer C [MPI_UPDATE_PROCESS_ID 0, FUNC_ADDRESS 1 500, FUNC_ADDRESS 0 400,
        BASICBLOCK_NOTIFICATION 0 0 0, BASICBLOCK_NOTIFICATION 1 0 0, MEM_ADDR_NOTIFICATION 1 0 0 64,
        END_APP_NOTIFICATION :: nat flow_message] (new_connection 0 1 [False]) = Some s
    \<and> [MPI_UPDATE_PROCESS_ID 0, FUNC_ADDRESS 1 500, FUNC_ADDRESS 0 400, BASICBLOCK_NOTIFICATION 0 0 0, BASICBLOCK_NOTIFICATION 1 0 0,
        MEM_ADDR_NOTIFICATION 1 0 0 64, END_APP_NOTIFICATION :: nat flow_message] = MPI_UPDATE_PROCESS_ID 0
      # map2 (\<lambda>f a. FUNC_ADDRESS (int f) a) (internal_functions (fc_module C)) as @ ms' @ [END_APP_NOTIFICATION]
    \<and> func_run C 0 [] (0, 0) ms' xs r \<and> length as = length (internal_functions (fc_module C))
    \<and> fl_actions s = map (Pair 0) (Construct 0 0 # UpdateProcessId 0
        # map2 (\<lambda>f a. SetFunction a (int f)) (internal_functions (fc_module C)) as @ xs)
    \<and> saved_states s = [] \<and> \<not> fl_exited s \<and> fl_should_stop s = [False][nat 0 := True]"
  unfolding C_def
  by (rule instrumented_run_replayed[where rank = 0 and tid = 0 and m = 0 and server = "''host:1''" and threads = "''1''"])
    (use two_functions_exec in \<open>simp_all add: plain_config_def plain_program_def plain_inst_def in_main_def two_functions_def
      block_insts_def llvm_module_def is_terminator_def get_calledFunction_def is_mpi_name_def strncaseeq_def\<close>)


end
