(* ===== verification/Pass_Coupled.thy ===== *)
theory Pass_Coupled
  imports Pass_Decoupled Wkld_Char
begin

text \<open>
  \<open>passCoupled/lib/Analysis/Analysis.cpp\<close>: the pass of LLVM that instruments the program for the coupled version, where the
  client library has the analyses.  The hooks at the start of \<open>main\<close> pass the options, the module as text and the addresses
  of the functions; the hooks in the blocks are those of the decoupled version but for \<open>MPI_Init\<close>, which is not erased.

  Strings are passed through a \<open>getelementptr\<close> on a global constant, which is inserted before the call.
\<close>

subsection \<open>Options\<close>

record pass_options =
  ILPAnalyze :: bool
  ILPCtrl :: bool
  ILPVerbose :: bool
  ILPIgnoreCtrl :: bool
  DTRAnalyze :: bool
  DTRMemFootprint :: bool
  DTRCacheLineSize :: int
  DTRResolution :: int
  DTREndResolution :: int
  ITRAnalyze :: bool
  ITRCacheLineSize :: int
  ITRInstSize :: int
  RCAnalyze :: bool
  PrintLoadStore :: bool
  MPICalls :: bool
  MPIData :: bool
  OpenMPCalls :: bool
  ExternalLibraryCalls :: bool
  po_ExcludedFunctions :: "string list"
  po_IncludeFunctions :: "string list"
  ApplicationName :: string
  TestName :: string
  PISAFileName :: string
  AddJSONData :: string
  ILPType :: int
  PrintDebug :: int
  WindowSize :: int
  po_BranchEntropy :: bool
  BranchEntropyFile :: string
  BranchEntropyCond :: bool
  po_MaxExpectedNrOfThreads :: int
  MPISync :: string
  MPIMap :: string

definition ANALYZE_ILP_VERBOSE :: u64 where "ANALYZE_ILP_VERBOSE = 4"
definition ANALYZE_ILP_TYPE :: u64 where "ANALYZE_ILP_TYPE = 512"
definition PRINT_DEBUG :: u64 where "PRINT_DEBUG = 1024"

definition add_flag :: "bool \<Rightarrow> u64 \<Rightarrow> u64 \<Rightarrow> u64" where
  "add_flag b f flags = (if b then or flags f else flags)"

text \<open>The flags of \<open>runOnModule\<close>, which are passed to \<open>init_libanalysis\<close>.\<close>

definition pass_flags :: "pass_options \<Rightarrow> u64" where
  "pass_flags opts =
    (let flags = (if ILPAnalyze opts
         then add_flag (0 \<le> ILPType opts) ANALYZE_ILP_TYPE (add_flag (ILPIgnoreCtrl opts) ANALYZE_ILP_IGNORE_CTRL
           (add_flag (ILPVerbose opts) ANALYZE_ILP_VERBOSE (add_flag (ILPCtrl opts) ANALYZE_ILP_CTRL ANALYZE_ILP)))
         else 0);
       flags = add_flag (PrintDebug opts \<noteq> 0) PRINT_DEBUG flags;
       flags = add_flag (DTRAnalyze opts) ANALYZE_DTR flags;
       flags = add_flag (DTRMemFootprint opts) ANALYZE_MEM_FOOTPRINT flags;
       flags = add_flag (ITRAnalyze opts) ANALYZE_ITR flags;
       flags = add_flag (RCAnalyze opts) ANALYZE_REG_COUNT flags;
       flags = add_flag (PrintLoadStore opts) PRINT_LOAD_STORE flags;
       flags = add_flag (po_BranchEntropy opts) PRINT_BRANCH flags;
       flags = add_flag (BranchEntropyCond opts) PRINT_BRANCH_COND flags;
       flags = add_flag (MPICalls opts) ANALYZE_MPI_CALLS flags;
       flags = add_flag (MPIData opts) ANALYZE_MPI_DATA flags;
       flags = add_flag (OpenMPCalls opts) ANALYZE_OPENMP_CALLS flags
     in add_flag (ExternalLibraryCalls opts) ANALYZE_EXTERNALLIBS_CALLS flags)"

subsection \<open>Inserted instructions\<close>

datatype c_hook =
    C_Gep string
  | C_String string string                     \<comment> \<open>a function of the library and its string\<close>
  | C_Size string int
  | C_Func_address nat
  | C_Init_libanalysis string u64
  | C_Inst_notification int int
  | C_Update_vars int int int instr
  | C_Mpi_update_process_id
  | C_Mpi_update_db int int int bool int "ir_value list"
  | C_End_app

datatype c_item = C_Orig instr | C_Hook c_hook

subsection \<open>The start of main\<close>

text \<open>The instructions that are inserted before the first one of \<open>main\<close>, in their order, and the position of \<open>new_inst\<close>.
  \<open>I\<close> of \<open>excludeFunctions\<close>, before which strings are passed, is the last one.\<close>

type_synonym start_code = "c_hook list \<times> nat"

definition before_last :: "c_hook list \<Rightarrow> c_hook list \<Rightarrow> c_hook list" where
  "before_last new is = butlast is @ new @ [last is]"

definition insert_after :: "nat \<Rightarrow> c_hook \<Rightarrow> c_hook list \<Rightarrow> c_hook list" where
  "insert_after k h is = take (Suc k) is @ [h] @ drop (Suc k) is"

definition pass_string :: "string \<Rightarrow> string \<Rightarrow> start_code \<Rightarrow> start_code" where
  "pass_string hook s = (\<lambda>(is, new_inst). (before_last [C_Gep s, C_String hook s] is, if Suc new_inst = length is then new_inst + 2 else new_inst))"

text \<open>A function of a list; its call is \<open>new_inst\<close>.\<close>

definition pass_function :: "string \<Rightarrow> string \<Rightarrow> start_code \<Rightarrow> start_code" where
  "pass_function hook s = (\<lambda>(is, new_inst). (before_last [C_Gep s, C_String hook s] is, length is))"

definition sendSize :: "string \<Rightarrow> int \<Rightarrow> start_code \<Rightarrow> start_code" where
  "sendSize name n = (\<lambda>(is, new_inst). (insert_after new_inst (C_Size name n) is, new_inst))"

definition send_server_info :: "pass_options \<Rightarrow> start_code \<Rightarrow> start_code" where
  "send_server_info opts c =
    (if MPISync opts \<noteq> [] \<or> MPIMap opts \<noteq> []
     then if MPISync opts \<noteq> [] then pass_string ''mpi_sync_server_info'' (MPISync opts) c
       else pass_string ''mpi_map_server_info'' (MPIMap opts) c
     else c)"

definition send_if :: "bool \<Rightarrow> (start_code \<Rightarrow> start_code) \<Rightarrow> start_code \<Rightarrow> start_code" where
  "send_if b f c = (if b then f c else c)"

definition send_sizes :: "pass_options \<Rightarrow> start_code \<Rightarrow> start_code" where
  "send_sizes opts c =
    (let c = send_if (DTRCacheLineSize opts \<noteq> 0) (sendSize ''update_data_cache_line_size'' (DTRCacheLineSize opts)) c;
         c = send_if (DTRResolution opts \<noteq> 0) (sendSize ''update_data_reuse_distance_resolution'' (DTRResolution opts)) c;
         c = send_if (DTREndResolution opts \<noteq> 0) (sendSize ''update_data_reuse_distance_resolution_final_bin'' (DTREndResolution opts)) c;
         c = send_if (ITRCacheLineSize opts \<noteq> 0) (sendSize ''update_inst_cache_line_size'' (ITRCacheLineSize opts)) c;
         c = send_if (ITRCacheLineSize opts \<noteq> 0 \<and> ITRInstSize opts \<noteq> 0) (sendSize ''update_inst_size'' (ITRInstSize opts)) c;
         c = send_if (0 \<le> ILPType opts) (sendSize ''update_ilp_type'' (ILPType opts)) c;
         c = send_if (PrintDebug opts = 1) (sendSize ''enable_debug'' (PrintDebug opts)) c;
         c = send_if (WindowSize opts \<noteq> 0) (sendSize ''update_window_size'' (WindowSize opts)) c
     in send_if (po_MaxExpectedNrOfThreads opts \<noteq> 0) (sendSize ''update_max_expected_threads'' (po_MaxExpectedNrOfThreads opts)) c)"

definition excludeFunctions :: "pass_options \<Rightarrow> start_code \<Rightarrow> start_code" where
  "excludeFunctions opts c =
    (let c = fold (pass_function ''exclude_function'') (po_ExcludedFunctions opts) c;
         c = send_server_info opts c;
         c = pass_string ''app_name'' (ApplicationName opts) c;
         c = pass_string ''test_name'' (TestName opts) c;
         c = pass_string ''pisa_output'' (PISAFileName opts) c;
         c = pass_string ''add_json_data'' (AddJSONData opts) c;
         c = fold (pass_function ''include_function'') (po_IncludeFunctions opts) c;
         c = pass_string ''update_branch_entropy_file'' (BranchEntropyFile opts) c
     in send_sizes opts c)"

text \<open>\<open>gepi\<close> is the string of the module; every address is inserted after the one before it.\<close>

definition insertFAddr_coupled :: "pass_options \<Rightarrow> ir_module \<Rightarrow> c_hook \<Rightarrow> c_hook list" where
  "insertFAddr_coupled opts M gepi =
    (let is = gepi # map C_Func_address (filter (\<lambda>f. \<not> is_external (M ! f)) [0..<length M])
     in fst (excludeFunctions opts (is, length is - 1)))"

text \<open>\<open>str\<close> is the module as text, before anything is inserted.\<close>

definition insertGlobalModuleStr :: "pass_options \<Rightarrow> string \<Rightarrow> ir_module \<Rightarrow> c_hook list" where
  "insertGlobalModuleStr opts str M = insertFAddr_coupled opts M (C_Gep str) @ [C_Init_libanalysis str (pass_flags opts)]"

subsection \<open>MPI calls\<close>

text \<open>The tests on the name of the called function, as in the other pass.\<close>

definition coupled_point_to_point :: "(string list \<times> int \<times> nat list) list" where
  "coupled_point_to_point = [
     ([''MPI_Send'', ''MPI_Recv'', ''MPI_Send_'', ''MPI_Recv_''], BASIC_MPI_CALL, [3, 4, 5, 1, 2]),
     ([''MPI_Isend'', ''MPI_Irecv'', ''MPI_Isend_'', ''MPI_Irecv_''], ASYNC_MPI_CALL, [3, 4, 5, 6, 1, 2]),
     ([''MPI_Wait'', ''MPI_Wait_''], WAIT_MPI_CALL, [0, 1]),
     ([''MPI_Test'', ''MPI_Test_''], TEST_MPI_CALL, [0, 1, 2]),
     ([''MPI_Waitall'', ''MPI_Waitall_''], WAITALL_MPI_CALL, [0, 1, 2]),
     ([''MPI_Testall'', ''MPI_Testall_''], TESTALL_MPI_CALL, [0, 1, 2, 3])]"

definition coupled_rooted :: "(string list \<times> int \<times> nat list) list" where
  "coupled_rooted = [
     ([''MPI_Bcast'', ''MPI_Bcast_''], BCAST_MPI_CALL, [1, 2, 3, 4]),
     ([''MPI_Ibcast'', ''MPI_Ibcast_''], IBCAST_MPI_CALL, [1, 2, 3, 4, 5]),
     ([''MPI_Reduce'', ''MPI_Reduce_''], REDUCE_MPI_CALL, [2, 3, 5, 6]),
     ([''MPI_Ireduce'', ''MPI_Ireduce_''], IREDUCE_MPI_CALL, [2, 3, 5, 6, 7]),
     ([''MPI_Gather'', ''MPI_Gather_''], GATHER_MPI_CALL, [1, 2, 4, 5, 6, 7]),
     ([''MPI_Igather'', ''MPI_Igather_''], IGATHER_MPI_CALL, [1, 2, 4, 5, 6, 7, 8]),
     ([''MPI_Scatter'', ''MPI_Scatter_''], ANYTAG_MPI_CALL, [6, 7]),
     ([''MPI_Scatterv'', ''MPI_Gatherv'', ''MPI_Scatterv_'', ''MPI_Gatherv_''], ANYTAG_MPI_CALL, [7, 8])]"

definition coupled_all :: "(string list \<times> int \<times> nat list) list" where
  "coupled_all = [
     ([''MPI_Allreduce'', ''MPI_Allreduce_''], ALLREDUCE_MPI_CALL, [2, 3, 5]),
     ([''MPI_Iallreduce'', ''MPI_Iallreduce_''], IALLREDUCE_MPI_CALL, [2, 3, 5, 6]),
     ([''MPI_Alltoall'', ''MPI_Alltoall_''], ALLTOALL_MPI_CALL, [1, 2, 4, 5, 6]),
     ([''MPI_Alltoallv'', ''MPI_Alltoallv_''], ALLTOALLV_MPI_CALL, [1, 3, 5, 7, 8]),
     ([''MPI_Ialltoall'', ''MPI_Ialltoall_''], IALLTOALL_MPI_CALL, [1, 2, 4, 5, 6, 7]),
     ([''MPI_Allgather'', ''MPI_Allgather_''], ALLGATHER_MPI_CALL, [1, 2, 4, 5, 6]),
     ([''MPI_Iallgather'', ''MPI_Iallgather_''], IALLGATHER_MPI_CALL, [1, 2, 4, 5, 6, 7])]"

definition coupled_other :: "(string list \<times> int \<times> nat list) list" where
  "coupled_other = [
     ([''MPI_Alltoallv'', ''MPI_Alltoallv_''], ALL_MPI_CALL, [8]),
     ([''MPI_Allgatherv'', ''MPI_Allgatherv_''], ALL_MPI_CALL, [7]),
     ([''MPI_Sendrecv'', ''MPI_Sendrecv_''], SENDRECV_MPI_CALL, [3, 4, 8, 9, 10]),
     ([''MPI_Sendrecv_replace'', ''MPI_Sendrecv_replace_''], SENDRECV_MPI_CALL, [3, 4, 5, 6, 7]),
     ([''MPI_Init'', ''MPI_Init_''], INIT_MPI_CALL, [0]),
     ([''MPI_Finalize'', ''MPI_Finalize_''], FIN_MPI_CALL, [])]"

definition coupled_hooks :: "(string list \<times> int \<times> nat list) list" where
  "coupled_hooks = coupled_point_to_point @ coupled_rooted @ coupled_all @ coupled_other"

definition request_again_coupled :: "string \<Rightarrow> nat list" where
  "request_again_coupled name = (if list_ex (strcaseeq name) [''MPI_Isend'', ''MPI_Irecv'', ''MPI_Isend_'', ''MPI_Irecv_''] then [6] else [])"

definition coupled_operands :: "string \<Rightarrow> (int \<times> nat list) option" where
  "coupled_operands name = map_option (\<lambda>(_, type, ops). (type, ops @ request_again_coupled name))
     (find (\<lambda>(names, _). list_ex (strcaseeq name) names) coupled_hooks)"

definition insertMPIhooks_coupled :: "ir_module \<Rightarrow> int \<Rightarrow> int \<Rightarrow> int \<Rightarrow> instr \<Rightarrow> c_item list option" where
  "insertMPIhooks_coupled M f bb i I = (case called_name M I of
     None \<Rightarrow> None
   | Some name \<Rightarrow> if \<not> is_mpi_name name then None
       else map_option (\<lambda>(type, ops).
           let h = C_Hook (C_Mpi_update_db f bb i (from_fortran name) type (map ((!) (i_args I)) ops));
               remove = strcaseeq name ''MPI_Finalize'' \<or> strcaseeq name ''MPI_Finalize_''
           in if remove then [h] else [C_Orig I, h])
         (coupled_operands name))"

definition insertUpdateProcessID_coupled :: "ir_module \<Rightarrow> int \<Rightarrow> int \<Rightarrow> int \<Rightarrow> instr \<Rightarrow> c_item list option" where
  "insertUpdateProcessID_coupled M f bb i I = (case called_name M I of
     None \<Rightarrow> None
   | Some name \<Rightarrow> if is_mpi_name name \<and> (strcaseeq name ''MPI_Init'' \<or> strcaseeq name ''MPI_Init_'')
       then Some [C_Orig I, C_Hook C_Mpi_update_process_id, C_Hook (C_Mpi_update_db f bb i (from_fortran name) INIT_MPI_CALL [])]
       else None)"

subsection \<open>Blocks\<close>

definition insertLSValues_coupled :: "int \<Rightarrow> int \<Rightarrow> int \<Rightarrow> instr \<Rightarrow> c_item list" where
  "insertLSValues_coupled f bb i I = [C_Orig I, C_Hook (C_Update_vars f bb i I)]"

definition insertEndApplication_coupled :: "bool \<Rightarrow> instr \<Rightarrow> c_item list" where
  "insertEndApplication_coupled inMain I = (if inMain \<and> i_opcode I = Op_Ret then [C_Hook C_End_app, C_Orig I] else [C_Orig I])"

definition insertInstNotification_coupled :: "bool \<Rightarrow> int \<Rightarrow> int \<Rightarrow> c_item list" where
  "insertInstNotification_coupled bb_notif f bb = (if bb_notif then [] else [C_Hook (C_Inst_notification f bb)])"

text \<open>The loop over the instructions of a block.  After \<open>MPI_Init\<close> the iterator is at the hook \<open>mpi_update_db\<close>, whose name begins
  like one of MPI but is not in the table.\<close>

fun instrument_coupled :: "ir_module \<Rightarrow> bool \<Rightarrow> int \<Rightarrow> int \<Rightarrow> bool \<Rightarrow> int \<Rightarrow> instr list \<Rightarrow> c_item list" where
  "instrument_coupled M inMain f bb bb_notif i [] = []"
| "instrument_coupled M inMain f bb bb_notif i (I # Is) =
    (if i_opcode I = Op_LandingPad then map C_Orig (I # Is)
     else if i_opcode I = Op_PHI then C_Orig I # instrument_coupled M inMain f bb bb_notif (i + 1) Is
     else insertInstNotification_coupled bb_notif f bb
       @ (if i_opcode I = Op_Load \<or> i_opcode I = Op_Store then insertLSValues_coupled f bb i I
          else case insertUpdateProcessID_coupled M f bb i I of
            Some items \<Rightarrow> items
          | None \<Rightarrow> (case insertMPIhooks_coupled M f bb i I of Some items \<Rightarrow> items | None \<Rightarrow> insertEndApplication_coupled inMain I))
       @ instrument_coupled M inMain f bb True (i + 1) Is)"

definition runOnModule_coupled :: "pass_options \<Rightarrow> string \<Rightarrow> ir_module \<Rightarrow> block_pos \<Rightarrow> c_item list" where
  "runOnModule_coupled opts str M p =
    (let inMain = (f_name (M ! fst p) = ''main'')
     in (if inMain \<and> snd p = 0 then map C_Hook (insertGlobalModuleStr opts str M) else [])
        @ instrument_coupled M inMain (int (fst p)) (int (snd p)) False 0 (block_insts M p))"

end
