(* ===== verification/Coupled_Library.thy ===== *)
theory Coupled_Library
  imports Client_Library Pass_Coupled
begin

text \<open>
  \<open>library/libanalysisCoupled.cc\<close>: the library that a program of the coupled version calls.  It has the analyses in the
  process of the program and follows the control flow from the notifications, as the server does for the decoupled version.

  The calls on \<open>WKLDchar\<close> are a list of actions with the number of the thread, and the output of \<open>end_app\<close> is one as well.
  The number of the thread (\<open>omp_get_thread_num\<close>), the size of a team, the memory of the program, the parser of LLVM, the
  environment and \<open>connect\<close> are parameters.  \<open>None\<close> is an \<open>exit\<close> after an error, an assertion that fails, or undefined
  behaviour.
\<close>

subsection \<open>State\<close>

text \<open>What \<open>end_app\<close> does with the JSON manager and MPI.\<close>

datatype output_call =
    Open_Master "string option" "string option" "string option" "string option"
  | Open_Slave int | Dump int | Bcast int | Close_Output | MPI_Finalize

datatype coupled_action = Wkld "mpi_call_msg flow_action" | Output "output_call list"

record coupled =
  cp_M :: "ir_module option"
  cp_options :: u64
  cp_data_cache_line_size :: int
  cp_data_reuse_distance_resolution :: int
  cp_data_reuse_distance_resolution_final_bin :: int
  cp_inst_cache_line_size :: int
  cp_inst_size :: int
  cp_window_size :: int
  cp_ilp_type :: int
  cp_debug_flag :: int
  cp_mpi_map_active :: bool
  cp_AppName :: "string option"
  cp_TestName :: "string option"
  cp_PISAFileName :: "string option"
  cp_AddJSONData :: "string option"
  cp_branch_entropy_file :: "string option"
  cp_tables :: shared_tables
  cp_saved :: "(block_pos \<times> nat) list list"
  cp_InitializedMPISockets :: "bool list"
  cp_MPISocketForThreads :: "int list"
  cp_ExcludedFunctions :: "string list"
  cp_IncludeFunctions :: "string list"
  cp_mpiExecution :: bool
  cp_actions :: "(int \<times> coupled_action) list"

definition coupled_start :: coupled where
  "coupled_start = \<lparr>cp_M = None, cp_options = 0, cp_data_cache_line_size = 0, cp_data_reuse_distance_resolution = 0,
     cp_data_reuse_distance_resolution_final_bin = 0, cp_inst_cache_line_size = 0, cp_inst_size = 0, cp_window_size = 0,
     cp_ilp_type = 0, cp_debug_flag = 0, cp_mpi_map_active = False, cp_AppName = None, cp_TestName = None,
     cp_PISAFileName = None, cp_AddJSONData = None, cp_branch_entropy_file = None,
     cp_tables = \<lparr>max_expected_threads = 0, InitializedThreads = [], MemoryForThreads = [], FunctionsAddresses = []\<rparr>,
     cp_saved = [], cp_InitializedMPISockets = [], cp_MPISocketForThreads = [], cp_ExcludedFunctions = [],
     cp_IncludeFunctions = [], cp_mpiExecution = False, cp_actions = []\<rparr>"

definition c_act :: "int \<Rightarrow> coupled_action \<Rightarrow> coupled \<Rightarrow> coupled" where
  "c_act t a s = s\<lparr>cp_actions := cp_actions s @ [(t, a)]\<rparr>"

text \<open>What the library is given by its environment.\<close>

record coupled_env =
  ce_memory :: "u64 \<Rightarrow> u64"
  ce_parse :: "string \<Rightarrow> ir_module option"
  ce_getenv :: "string \<Rightarrow> string option"
  ce_connect :: "string \<Rightarrow> int \<Rightarrow> int option"
  ce_num_threads :: int
  ce_rank :: int
  ce_processes :: int
  ce_address :: "nat \<Rightarrow> u64"

subsection \<open>The end of the program\<close>

text \<open>The processes write in their order; between two of them they wait for each other.\<close>

definition end_app_calls :: "int \<Rightarrow> int \<Rightarrow> coupled \<Rightarrow> output_call list" where
  "end_app_calls rank processes s =
    (let procId = (if cp_mpiExecution s then rank else 0);
         procCount = (if cp_mpiExecution s then processes else 1)
     in [if procId = 0 then Open_Master (cp_PISAFileName s) (cp_AddJSONData s) (cp_AppName s) (cp_TestName s) else Open_Slave 0]
        @ concat (map (\<lambda>procWriting. Dump procWriting # (if cp_mpiExecution s then [Bcast procWriting] else [])) [0..procCount - 1])
        @ [Close_Output] @ (if cp_mpiExecution s then [MPI_Finalize] else []))"

definition coupled_end_app :: "coupled_env \<Rightarrow> int \<Rightarrow> coupled \<Rightarrow> coupled" where
  "coupled_end_app E t s = c_act t (Output (end_app_calls (ce_rank E) (ce_processes E) s)) s"

subsection \<open>Threads\<close>

definition get_per_thread_info :: "int \<Rightarrow> coupled \<Rightarrow> coupled option" where
  "get_per_thread_info thread_id s =
    (if thread_id < max_expected_threads (cp_tables s)
     then do {
       b \<leftarrow> tab_get thread_id (InitializedThreads (cp_tables s));
       ini \<leftarrow> tab_put thread_id True (InitializedThreads (cp_tables s));
       Some (if b then s else s\<lparr>cp_tables := (cp_tables s)\<lparr>InitializedThreads := ini\<rparr>\<rparr>) }
     else None)"

definition updateMemory :: "instr \<Rightarrow> u64 \<Rightarrow> int \<Rightarrow> coupled \<Rightarrow> coupled option" where
  "updateMemory I addr thread_id s =
    (if thread_id < max_expected_threads (cp_tables s)
     then do {
       b \<leftarrow> tab_get thread_id (InitializedThreads (cp_tables s));
       if b then do {
         m \<leftarrow> tab_get thread_id (MemoryForThreads (cp_tables s));
         ms \<leftarrow> tab_put thread_id (mp_put (i_id I) addr m) (MemoryForThreads (cp_tables s));
         Some (c_act thread_id (Wkld (SetMemory I addr)) (s\<lparr>cp_tables := (cp_tables s)\<lparr>MemoryForThreads := ms\<rparr>\<rparr>)) }
       else Some s }
     else Some s)"

subsection \<open>Included and excluded functions\<close>

definition in_functions :: "ir_module \<Rightarrow> string list \<Rightarrow> block_pos \<Rightarrow> (block_pos \<times> nat) list \<Rightarrow> bool" where
  "in_functions M names p saved \<longleftrightarrow>
    listed_function M names p \<or> list_ex (\<lambda>(q, _). listed_function M names q) saved"

definition is_included :: "coupled \<Rightarrow> block_pos \<Rightarrow> (block_pos \<times> nat) list \<Rightarrow> bool" where
  "is_included s p saved = (case cp_M s of None \<Rightarrow> False
     | Some M \<Rightarrow> cp_IncludeFunctions s = [] \<or> in_functions M (cp_IncludeFunctions s) p saved)"

definition is_excluded :: "coupled \<Rightarrow> block_pos \<Rightarrow> (block_pos \<times> nat) list \<Rightarrow> bool" where
  "is_excluded s p saved = (case cp_M s of None \<Rightarrow> False
     | Some M \<Rightarrow> cp_ExcludedFunctions s \<noteq> [] \<and> in_functions M (cp_ExcludedFunctions s) p saved)"

subsection \<open>Following the control flow\<close>

text \<open>The number of the called function, through a pointer if need be.\<close>

definition called_function :: "coupled_env \<Rightarrow> int \<Rightarrow> instr \<Rightarrow> coupled \<Rightarrow> nat option option" where
  "called_function E thread_id I s =
    (if i_opcode I \<noteq> Op_Call then Some None
     else case get_calledFunction I of Some g \<Rightarrow> Some (Some g)
     | None \<Rightarrow> do {
         addr \<leftarrow> getMemoryAddress (cp_tables s) (case i_callee I of Callee_Value a \<Rightarrow> a | _ \<Rightarrow> 0) thread_id;
         Some (getFunctionAddress (cp_tables s) (if addr \<noteq> 0 then ce_memory E addr else addr)) })"

definition coupled_process_instr :: "coupled_env \<Rightarrow> ir_module \<Rightarrow> int \<Rightarrow> instr \<Rightarrow> coupled \<Rightarrow> coupled" where
  "coupled_process_instr E M t I s = (let s = c_act t (Wkld (Analyze I)) s
     in if i_opcode I = Op_Call \<and> (case get_calledFunction I of None \<Rightarrow> False | Some g \<Rightarrow> f_name (M ! g) = ''exit'')
        then coupled_end_app E t s else s)"

definition coupled_process_wanted :: "coupled_env \<Rightarrow> ir_module \<Rightarrow> int \<Rightarrow> block_pos \<Rightarrow> instr \<Rightarrow> coupled \<Rightarrow> coupled option" where
  "coupled_process_wanted E M t p I s = do {
     saved \<leftarrow> tab_get t (cp_saved s);
     Some (if is_included s p saved \<and> \<not> is_excluded s p saved then coupled_process_instr E M t I s else s) }"

text \<open>The loop over the instructions; \<open>Some last\<close> is its end with the last processed instruction, \<open>None\<close> an early return.
  An empty name of a function is an assertion in \<open>is_mpi_sync_call\<close>.\<close>

fun coupled_block :: "coupled_env \<Rightarrow> ir_module \<Rightarrow> int \<Rightarrow> block_pos \<Rightarrow> nat \<Rightarrow> instr list \<Rightarrow> instr option \<Rightarrow> coupled
    \<Rightarrow> (coupled \<times> instr option option) option" where
  "coupled_block E M t p i [] lp s = Some (s, Some lp)"
| "coupled_block E M t p i (I # Is) lp s = do {
     call \<leftarrow> called_function E t I s;
     if (case call of None \<Rightarrow> False | Some g \<Rightarrow> take 5 (f_name (M ! g)) = ''llvm.'') then coupled_block E M t p (Suc i) Is lp s
     else if is_memory I then Some (s, Some lp)
     else do {
       s \<leftarrow> coupled_process_wanted E M t p I s;
       case call of
         None \<Rightarrow> coupled_block E M t p (Suc i) Is (Some I) s
       | Some g \<Rightarrow>
           if \<not> is_external (M ! g) then do {
             saved \<leftarrow> tab_get t (cp_saved s);
             all_saved \<leftarrow> tab_put t (saved @ [(p, Suc i)]) (cp_saved s);
             Some (s\<lparr>cp_saved := all_saved\<rparr>, None) }
           else do {
             sync \<leftarrow> is_mpi_sync_call (f_name (M ! g));
             if sync then Some (s, None) else coupled_block E M t p (Suc i) Is (Some I) s } } }"

definition coupled_returns :: "instr option \<Rightarrow> (block_pos \<times> nat) list \<Rightarrow> bool" where
  "coupled_returns lp saved \<longleftrightarrow> saved \<noteq> [] \<and> (case lp of None \<Rightarrow> False | Some I \<Rightarrow> i_opcode I = Op_Ret)"

text \<open>The return to the caller, whose call is the instruction before the saved position.\<close>

definition coupled_pop :: "ir_module \<Rightarrow> int \<Rightarrow> instr \<Rightarrow> coupled \<Rightarrow> ((block_pos \<times> nat) \<times> coupled) option" where
  "coupled_pop M t ret s = do {
     saved \<leftarrow> tab_get t (cp_saved s);
     let q = last saved;
     all_saved \<leftarrow> tab_put t (butlast saved) (cp_saved s);
     let s = s\<lparr>cp_saved := all_saved\<rparr>;
     Some (q, if asks (cp_options s) ANALYZE_ILP
        then c_act t (Wkld (Returned ret (block_insts M (fst q) ! (snd q - 1)))) s else s) }"

definition saved_of :: "int \<Rightarrow> coupled \<Rightarrow> (block_pos \<times> nat) list" where
  "saved_of t s = (case tab_get t (cp_saved s) of None \<Rightarrow> [] | Some saved \<Rightarrow> saved)"

lemma c_act_sel [simp]: "cp_saved (c_act t a s) = cp_saved s" "cp_tables (c_act t a s) = cp_tables s"
  "cp_M (c_act t a s) = cp_M s" "cp_options (c_act t a s) = cp_options s" "saved_of t (c_act t a s) = saved_of t s"
  "cp_IncludeFunctions (c_act t a s) = cp_IncludeFunctions s" "cp_ExcludedFunctions (c_act t a s) = cp_ExcludedFunctions s"
  "cp_actions (c_act t a s) = cp_actions s @ [(t, a)]"
  by (simp_all add: c_act_def saved_of_def)

lemma coupled_process_saved [simp]: "cp_saved (coupled_process_instr E M t I s) = cp_saved s"
  by (simp add: coupled_process_instr_def Let_def coupled_end_app_def)

lemma process_wanted_saved_of: "coupled_process_wanted E M t p I s = Some s' \<Longrightarrow> cp_saved s' = cp_saved s"
  by (auto simp: coupled_process_wanted_def bind_eq_Some)

lemma coupled_block_saved: "coupled_block E M t p i Is lp s = Some (s', Some l) \<Longrightarrow> cp_saved s' = cp_saved s"
proof (induction Is arbitrary: i lp s)
  case (Cons I Is)
  obtain call where call: "called_function E t I s = Some call" using Cons.prems by (auto simp: bind_eq_Some)
  show ?case
  proof (cases "(case call of None \<Rightarrow> False | Some g \<Rightarrow> take 5 (f_name (M ! g)) = ''llvm.'') \<or> is_memory I")
    case True
    then show ?thesis using Cons.prems Cons.IH by (cases "is_memory I") (auto simp: call split: if_splits)
  next
    case False
    then obtain u where u: "coupled_process_wanted E M t p I s = Some u" using Cons.prems by (auto simp: call bind_eq_Some)
    then have "coupled_block E M t p (Suc i) Is (Some I) u = Some (s', Some l)"
      using Cons.prems False by (cases call) (auto simp: call bind_eq_Some split: if_splits)
    then show ?thesis using Cons.IH process_wanted_saved_of[OF u] by metis
  qed
qed simp

lemma coupled_pop_saved:
  assumes "coupled_pop M t ret s = Some (q, s')"
  shows "saved_of t s' = butlast (saved_of t s)"
proof -
  obtain saved all_saved where s: "tab_get t (cp_saved s) = Some saved" "tab_put t (butlast saved) (cp_saved s) = Some all_saved"
    and s': "s' = (if asks (cp_options s) ANALYZE_ILP
      then c_act t (Wkld (Returned ret (block_insts M (fst (last saved)) ! (snd (last saved) - 1)))) (s\<lparr>cp_saved := all_saved\<rparr>)
      else s\<lparr>cp_saved := all_saved\<rparr>)"
    using assms by (auto simp: coupled_pop_def bind_eq_Some Let_def)
  then show ?thesis using tab_put_get[OF s(2)] by (simp add: saved_of_def)
qed

lemma thread_info_saved:
  assumes "get_per_thread_info t s = Some s'"
  shows "cp_saved s' = cp_saved s"
proof -
  obtain b ini where "s' = (if b then s else s\<lparr>cp_tables := (cp_tables s)\<lparr>InitializedThreads := ini\<rparr>\<rparr>)"
    using assms unfolding get_per_thread_info_def by (simp add: bind_eq_Some split: if_split_asm) metis
  then show ?thesis by simp
qed

lemma coupled_iter_decreases:
  assumes "get_per_thread_info t s = Some u" "coupled_block E M t p i Is lp u = Some (v, Some l)"
    "coupled_returns l (saved_of t v)" "coupled_pop M t r v = Some (q, w)"
  shows "length (saved_of t w) < length (saved_of t s)"
proof -
  have "saved_of t v = saved_of t s"
    using thread_info_saved[OF assms(1)] coupled_block_saved[OF assms(2)] by (simp add: saved_of_def)
  then show ?thesis using coupled_pop_saved[OF assms(4)] assms(3) by (simp add: coupled_returns_def)
qed

text \<open>\<open>iter_instructions\<close> from instruction \<open>i\<close> of a block.\<close>

function coupled_iter :: "coupled_env \<Rightarrow> ir_module \<Rightarrow> int \<Rightarrow> block_pos \<Rightarrow> nat \<Rightarrow> coupled \<Rightarrow> coupled option" where
  "coupled_iter E M t p i s = (case get_per_thread_info t s of None \<Rightarrow> None
     | Some s \<Rightarrow> (case coupled_block E M t p i (drop i (block_insts M p)) None s of
         None \<Rightarrow> None
       | Some (s, None) \<Rightarrow> Some s
       | Some (s, Some lp) \<Rightarrow> if coupled_returns lp (saved_of t s)
           then (case coupled_pop M t (the lp) s of None \<Rightarrow> None | Some (q, s) \<Rightarrow> coupled_iter E M t (fst q) (snd q) s)
           else Some s))"
  by auto

termination
  by (relation "measure (\<lambda>(E, M, t, p, i, s). length (saved_of t s))")
    (auto intro: coupled_iter_decreases)

declare coupled_iter.simps [simp del]


subsection \<open>Hooks in the blocks\<close>

definition coupled_inst_notification :: "coupled_env \<Rightarrow> int \<Rightarrow> int \<Rightarrow> int \<Rightarrow> coupled \<Rightarrow> coupled option" where
  "coupled_inst_notification E t f bb s = (case cp_M s of None \<Rightarrow> Some s
     | Some M \<Rightarrow> (case get_basicblock f bb (Some M) of
         Some (Some _) \<Rightarrow> coupled_iter E M t (nat f, nat bb) 0 s
       | _ \<Rightarrow> None))"

definition coupled_continue :: "coupled_env \<Rightarrow> ir_module \<Rightarrow> int \<Rightarrow> block_pos \<Rightarrow> nat \<Rightarrow> coupled \<Rightarrow> coupled option" where
  "coupled_continue E M t p i s =
    (if Suc i < length (block_insts M p) then coupled_iter E M t p (Suc i) s else Some s)"

definition coupled_update_vars :: "coupled_env \<Rightarrow> int \<Rightarrow> int \<Rightarrow> int \<Rightarrow> int \<Rightarrow> u64 \<Rightarrow> coupled \<Rightarrow> coupled option" where
  "coupled_update_vars E t f bb i addr s = (case cp_M s of None \<Rightarrow> Some s
     | Some M \<Rightarrow> (case get_instruction f bb i (Some M) of
         None \<Rightarrow> None
       | Some None \<Rightarrow> Some s
       | Some (Some I) \<Rightarrow> do {
           s \<leftarrow> get_per_thread_info t s;
           s \<leftarrow> updateMemory I addr t s;
           s \<leftarrow> coupled_process_wanted E M t (nat f, nat bb) I s;
           coupled_continue E M t (nat f, nat bb) (nat i) s }))"

definition coupled_process_msg :: "coupled_env \<Rightarrow> int \<Rightarrow> int \<Rightarrow> int \<Rightarrow> int \<Rightarrow> mpi_call_msg \<Rightarrow> coupled \<Rightarrow> coupled option" where
  "coupled_process_msg E t f bb i msg s = (case cp_M s of None \<Rightarrow> None
     | Some M \<Rightarrow> (case get_instruction f bb i (Some M) of
         Some (Some I) \<Rightarrow>
           if asks (cp_options s) ANALYZE_MPI_DATA
           then tab_get t (cp_saved s) \<bind> (\<lambda>_. coupled_continue E M t (nat f, nat bb) (nat i) (c_act t (Wkld (ProcessData I msg)) s))
           else coupled_continue E M t (nat f, nat bb) (nat i) s
       | _ \<Rightarrow> None))"

text \<open>The analyses of all threads of the team.\<close>

definition coupled_mpi_update_process_id :: "coupled_env \<Rightarrow> coupled \<Rightarrow> coupled option" where
  "coupled_mpi_update_process_id E s =
    (if ce_num_threads E \<le> int (length (cp_saved s))
     then Some (fold (\<lambda>thread_id. c_act thread_id (Wkld (UpdateProcessId (ce_rank E)))) [0..ce_num_threads E - 1]
       (s\<lparr>cp_mpiExecution := True\<rparr>))
     else None)"

subsection \<open>Hooks at the start of the program\<close>

definition coupled_pisa_output :: "coupled_env \<Rightarrow> string \<Rightarrow> coupled \<Rightarrow> coupled" where
  "coupled_pisa_output E str s = s\<lparr>cp_PISAFileName := (if str \<noteq> [] then Some str else ce_getenv E ''PISAFileName'')\<rparr>"

definition coupled_add_json_data :: "coupled_env \<Rightarrow> string \<Rightarrow> coupled \<Rightarrow> coupled" where
  "coupled_add_json_data E str s = s\<lparr>cp_AddJSONData := (if str \<noteq> [] then Some str else ce_getenv E ''AddJSONData'')\<rparr>"

text \<open>The allocation of a vector of negative length throws an exception.\<close>

definition coupled_update_max_expected_threads :: "int \<Rightarrow> coupled \<Rightarrow> coupled option" where
  "coupled_update_max_expected_threads n s =
    (if n < 0 then None
     else Some (s\<lparr>cp_tables := (cp_tables s)\<lparr>max_expected_threads := n, InitializedThreads := replicate (nat n) False,
         MemoryForThreads := replicate (nat n) []\<rparr>,
       cp_saved := replicate (nat n) [], cp_InitializedMPISockets := replicate (nat n) False,
       cp_MPISocketForThreads := replicate (nat n) 0\<rparr>))"

text \<open>The threads of the team that fit into the tables.\<close>

definition team :: "coupled_env \<Rightarrow> coupled \<Rightarrow> int list" where
  "team E s = filter (\<lambda>thread_id. thread_id < max_expected_threads (cp_tables s)) [0..ce_num_threads E - 1]"

definition init_thread :: "int \<Rightarrow> coupled \<Rightarrow> coupled option" where
  "init_thread thread_id s = do {
     ms \<leftarrow> tab_put thread_id [] (MemoryForThreads (cp_tables s));
     saved \<leftarrow> tab_put thread_id [] (cp_saved s);
     Some (c_act thread_id (Wkld (Construct thread_id 0))
       (s\<lparr>cp_tables := (cp_tables s)\<lparr>MemoryForThreads := ms\<rparr>, cp_saved := saved\<rparr>)) }"

fun init_threads :: "int list \<Rightarrow> coupled \<Rightarrow> coupled option" where
  "init_threads [] s = Some s"
| "init_threads (t # ts) s = do { s \<leftarrow> init_thread t s; init_threads ts s }"

definition coupled_init_libanalysis :: "coupled_env \<Rightarrow> string \<Rightarrow> u64 \<Rightarrow> coupled \<Rightarrow> coupled option" where
  "coupled_init_libanalysis E str flags s = (let s = s\<lparr>cp_M := ce_parse E str, cp_options := flags\<rparr> in init_threads (team E s) s)"

text \<open>A null pointer in the table of functions is the same for its readers as no entry.\<close>

definition put_function :: "u64 \<Rightarrow> nat option \<Rightarrow> (u64, nat) cmap \<Rightarrow> (u64, nat) cmap" where
  "put_function addr F m = (case F of Some f \<Rightarrow> mp_put addr f m | None \<Rightarrow> filter (\<lambda>(v, _). v \<noteq> addr) m)"

definition coupled_func_address :: "int \<Rightarrow> u64 \<Rightarrow> coupled \<Rightarrow> coupled" where
  "coupled_func_address f addr s = s\<lparr>cp_tables := (cp_tables s)\<lparr>FunctionsAddresses :=
     put_function addr (map_option (\<lambda>_. nat f) (get_function f (cp_M s))) (FunctionsAddresses (cp_tables s))\<rparr>\<rparr>"

text \<open>\<open>sscanf\<close> with \<open>%d\<close>: without a digit the port stays -1.\<close>

definition scan_port :: "string \<Rightarrow> int option" where
  "scan_port w = (let ds = (if w \<noteq> [] \<and> hd w \<in> set ''+-'' then tl w else w)
     in if ds \<noteq> [] \<and> is_digit (hd ds) then atoi w else Some (- 1))"

definition coupled_server_info :: "coupled_env \<Rightarrow> int \<Rightarrow> string \<Rightarrow> coupled \<Rightarrow> coupled option" where
  "coupled_server_info E t info s = (case strtok_words {CHR '':''} info [] of
     ip # port # _ \<Rightarrow> do {
       portno \<leftarrow> scan_port port;
       sockfd \<leftarrow> ce_connect E ip portno;
       b \<leftarrow> tab_get t (cp_InitializedMPISockets s);
       if b then None
       else do {
         sockets \<leftarrow> tab_put t sockfd (cp_MPISocketForThreads s);
         ini \<leftarrow> tab_put t True (cp_InitializedMPISockets s);
         Some (s\<lparr>cp_MPISocketForThreads := sockets, cp_InitializedMPISockets := ini\<rparr>) } }
   | _ \<Rightarrow> None)"

definition coupled_map_server_info :: "coupled_env \<Rightarrow> int \<Rightarrow> string \<Rightarrow> coupled \<Rightarrow> coupled option" where
  "coupled_map_server_info E t info s = coupled_server_info E t info (s\<lparr>cp_mpi_map_active := True\<rparr>)"

text \<open>The functions with a string, and those with a number.\<close>

definition string_hook :: "coupled_env \<Rightarrow> int \<Rightarrow> string \<Rightarrow> string \<Rightarrow> coupled \<Rightarrow> coupled option" where
  "string_hook E t name str s =
    (if name = ''exclude_function'' then Some (s\<lparr>cp_ExcludedFunctions := cp_ExcludedFunctions s @ [str]\<rparr>)
     else if name = ''include_function'' then Some (s\<lparr>cp_IncludeFunctions := cp_IncludeFunctions s @ [str]\<rparr>)
     else if name = ''mpi_sync_server_info'' then coupled_server_info E t str s
     else if name = ''mpi_map_server_info'' then coupled_map_server_info E t str s
     else if name = ''app_name'' then Some (s\<lparr>cp_AppName := Some str\<rparr>)
     else if name = ''test_name'' then Some (s\<lparr>cp_TestName := Some str\<rparr>)
     else if name = ''pisa_output'' then Some (coupled_pisa_output E str s)
     else if name = ''add_json_data'' then Some (coupled_add_json_data E str s)
     else if name = ''update_branch_entropy_file'' then Some (s\<lparr>cp_branch_entropy_file := Some str\<rparr>)
     else None)"

definition size_hook :: "string \<Rightarrow> int \<Rightarrow> coupled \<Rightarrow> coupled option" where
  "size_hook name n s =
    (if name = ''update_data_cache_line_size'' then Some (s\<lparr>cp_data_cache_line_size := n\<rparr>)
     else if name = ''update_data_reuse_distance_resolution'' then Some (s\<lparr>cp_data_reuse_distance_resolution := n\<rparr>)
     else if name = ''update_data_reuse_distance_resolution_final_bin''
     then Some (s\<lparr>cp_data_reuse_distance_resolution_final_bin := n\<rparr>)
     else if name = ''update_inst_cache_line_size'' then Some (s\<lparr>cp_inst_cache_line_size := n\<rparr>)
     else if name = ''update_inst_size'' then Some (s\<lparr>cp_inst_size := n\<rparr>)
     else if name = ''update_ilp_type'' then Some (s\<lparr>cp_ilp_type := n\<rparr>)
     else if name = ''enable_debug'' then Some (s\<lparr>cp_debug_flag := n\<rparr>)
     else if name = ''update_window_size'' then Some (s\<lparr>cp_window_size := n\<rparr>)
     else if name = ''update_max_expected_threads'' then coupled_update_max_expected_threads n s
     else None)"

text \<open>The inserted instructions at the start of \<open>main\<close>, in the thread \<open>t\<close>.\<close>

fun run_start :: "coupled_env \<Rightarrow> int \<Rightarrow> c_hook list \<Rightarrow> coupled \<Rightarrow> coupled option" where
  "run_start E t [] s = Some s"
| "run_start E t (C_Gep _ # hs) s = run_start E t hs s"
| "run_start E t (C_String name str # hs) s = do { s \<leftarrow> string_hook E t name str s; run_start E t hs s }"
| "run_start E t (C_Size name n # hs) s = do { s \<leftarrow> size_hook name n s; run_start E t hs s }"
| "run_start E t (C_Func_address f # hs) s = run_start E t hs (coupled_func_address (int f) (ce_address E f) s)"
| "run_start E t (C_Init_libanalysis str flags # hs) s = do { s \<leftarrow> coupled_init_libanalysis E str flags s; run_start E t hs s }"
| "run_start E t (_ # hs) s = None"

end
