(* ===== verification/Coupled_Start.thy ===== *)
theory Coupled_Start
  imports Coupled_Library
begin

text \<open>
  The start of a program that the pass of the coupled version has instrumented: what of the options of the pass arrives
  in the library.
\<close>

subsection \<open>The inserted code\<close>

definition string_calls :: "string \<Rightarrow> string list \<Rightarrow> c_hook list" where
  "string_calls hook names = concat (map (\<lambda>s. [C_Gep s, C_String hook s]) names)"

text \<open>The numbers in the order in which they are inserted, each before the one before it.\<close>

definition size_list :: "pass_options \<Rightarrow> c_hook list" where
  "size_list opts =
    (if DTRCacheLineSize opts \<noteq> 0 then [C_Size ''update_data_cache_line_size'' (DTRCacheLineSize opts)] else [])
    @ (if DTRResolution opts \<noteq> 0 then [C_Size ''update_data_reuse_distance_resolution'' (DTRResolution opts)] else [])
    @ (if DTREndResolution opts \<noteq> 0 then [C_Size ''update_data_reuse_distance_resolution_final_bin'' (DTREndResolution opts)] else [])
    @ (if ITRCacheLineSize opts \<noteq> 0 then [C_Size ''update_inst_cache_line_size'' (ITRCacheLineSize opts)] else [])
    @ (if ITRCacheLineSize opts \<noteq> 0 \<and> ITRInstSize opts \<noteq> 0 then [C_Size ''update_inst_size'' (ITRInstSize opts)] else [])
    @ (if 0 \<le> ILPType opts then [C_Size ''update_ilp_type'' (ILPType opts)] else [])
    @ (if PrintDebug opts = 1 then [C_Size ''enable_debug'' (PrintDebug opts)] else [])
    @ (if WindowSize opts \<noteq> 0 then [C_Size ''update_window_size'' (WindowSize opts)] else [])
    @ (if po_MaxExpectedNrOfThreads opts \<noteq> 0 then [C_Size ''update_max_expected_threads'' (po_MaxExpectedNrOfThreads opts)] else [])"

definition server_calls :: "pass_options \<Rightarrow> c_hook list" where
  "server_calls opts = (if MPISync opts \<noteq> [] then string_calls ''mpi_sync_server_info'' [MPISync opts]
     else if MPIMap opts \<noteq> [] then string_calls ''mpi_map_server_info'' [MPIMap opts] else [])"

definition name_calls :: "pass_options \<Rightarrow> c_hook list" where
  "name_calls opts = string_calls ''app_name'' [ApplicationName opts] @ string_calls ''test_name'' [TestName opts]
     @ string_calls ''pisa_output'' [PISAFileName opts] @ string_calls ''add_json_data'' [AddJSONData opts]"

text \<open>The code before \<open>I\<close>, and the position of \<open>new_inst\<close>.\<close>

definition code_at :: "c_hook list \<Rightarrow> c_hook \<Rightarrow> nat \<Rightarrow> start_code" where
  "code_at A I k = (A @ [I], k)"

lemma length_string_calls [simp]: "length (string_calls hook names) = 2 * length names"
  by (induction names) (simp_all add: string_calls_def)

lemma string_calls_Nil [simp]: "string_calls hook [] = []"
  by (simp add: string_calls_def)

lemma pass_string_at: "pass_string hook s (code_at A I k)
    = code_at (A @ string_calls hook [s]) I (if k = length A then length A + 2 else k)"
  by (simp add: code_at_def pass_string_def before_last_def string_calls_def)

lemma pass_functions_at: "fold (pass_function hook) names (code_at A I k)
    = code_at (A @ string_calls hook names) I (if names = [] then k else length A + 2 * length names - 1)"
proof (induction names arbitrary: A k)
  case (Cons s names)
  have "pass_function hook s (code_at A I k) = code_at (A @ string_calls hook [s]) I (Suc (length A))"
    by (simp add: code_at_def pass_function_def before_last_def string_calls_def)
  then show ?case using Cons.IH[of "A @ string_calls hook [s]" "Suc (length A)"] by (simp add: string_calls_def)
qed (simp add: string_calls_def)

lemma send_server_info_at: "send_server_info opts (code_at A I k)
    = code_at (A @ server_calls opts) I (if k = length A then k + length (server_calls opts) else k)"
  by (auto simp: send_server_info_def pass_string_at server_calls_def)

definition insert_size :: "c_hook \<Rightarrow> start_code \<Rightarrow> start_code" where
  "insert_size h = (\<lambda>(is, k). (insert_after k h is, k))"

lemma send_if_size: "send_if b (sendSize name n) c = fold insert_size (if b then [C_Size name n] else []) c"
  by (simp add: send_if_def sendSize_def insert_size_def)

lemma send_sizes_fold: "send_sizes opts = fold insert_size (size_list opts)"
  unfolding send_sizes_def size_list_def send_if_size Let_def by (simp only: fold_append o_apply fun_eq_iff simp_thms)

lemma insert_sizes: "length A = Suc k \<Longrightarrow> fold insert_size hs (A @ B, k) = (A @ rev hs @ B, k)"
  by (induction hs arbitrary: B) (simp_all add: insert_size_def insert_after_def)

lemma send_sizes_at:
  "fst (send_sizes opts (code_at A I (length A))) = A @ [I] @ rev (size_list opts)"
  "length A = Suc k \<Longrightarrow> fst (send_sizes opts (code_at (A @ B) I k)) = A @ rev (size_list opts) @ B @ [I]"
  using insert_sizes[of "A @ [I]" "length A" "size_list opts" "[]"] insert_sizes[of A k "size_list opts" "B @ [I]"]
  by (simp_all add: code_at_def send_sizes_fold)

text \<open>Where the numbers are depends on the lists of functions.\<close>

lemma excludeFunctions_code:
  fixes opts
  defines "ex \<equiv> string_calls ''exclude_function'' (po_ExcludedFunctions opts)"
    and "inc \<equiv> string_calls ''include_function'' (po_IncludeFunctions opts)"
    and "br \<equiv> string_calls ''update_branch_entropy_file'' [BranchEntropyFile opts]"
  shows "fst (excludeFunctions opts (code_at A I (length A))) =
    (if po_IncludeFunctions opts \<noteq> [] then A @ ex @ server_calls opts @ name_calls opts @ inc @ rev (size_list opts) @ br @ [I]
     else if po_ExcludedFunctions opts \<noteq> [] then A @ ex @ rev (size_list opts) @ server_calls opts @ name_calls opts @ br @ [I]
     else A @ server_calls opts @ name_calls opts @ br @ [I] @ rev (size_list opts))"
proof -
  let ?B = "A @ ex @ server_calls opts @ name_calls opts"
  consider (inc) "po_IncludeFunctions opts \<noteq> []" | (ex) "po_IncludeFunctions opts = []" "po_ExcludedFunctions opts \<noteq> []"
    | (none) "po_IncludeFunctions opts = []" "po_ExcludedFunctions opts = []" by blast
  then show ?thesis
  proof cases
    case inc
    let ?k = "length (?B @ inc) - 1"
    obtain n where n: "length (po_IncludeFunctions opts) = Suc n" using inc by (cases "po_IncludeFunctions opts") auto
    have "excludeFunctions opts (code_at A I (length A)) = send_sizes opts (code_at ((?B @ inc) @ br) I ?k)"
      unfolding excludeFunctions_def Let_def pass_functions_at send_server_info_at pass_string_at
      by (simp add: n inc assms name_calls_def) (simp add: numeral_eq_Suc)
    then show ?thesis using inc send_sizes_at(2)[of "?B @ inc" ?k opts br I] by (simp add: assms)
  next
    case ex
    let ?k = "length (A @ ex) - 1"
    obtain n where n: "length (po_ExcludedFunctions opts) = Suc n" using ex by (cases "po_ExcludedFunctions opts") auto
    have "excludeFunctions opts (code_at A I (length A))
        = send_sizes opts (code_at ((A @ ex) @ server_calls opts @ name_calls opts @ br) I ?k)"
      unfolding excludeFunctions_def Let_def pass_functions_at send_server_info_at pass_string_at
      by (simp add: n ex assms name_calls_def)
    then show ?thesis using ex send_sizes_at(2)[of "A @ ex" ?k opts _ I] by (simp add: assms)
  next
    case none
    have "excludeFunctions opts (code_at A I (length A))
        = send_sizes opts (code_at (A @ server_calls opts @ name_calls opts @ br) I (length (A @ server_calls opts @ name_calls opts @ br)))"
      unfolding excludeFunctions_def Let_def pass_functions_at send_server_info_at pass_string_at
      by (simp add: none assms name_calls_def add.left_commute add.commute)
    then show ?thesis using none send_sizes_at(1)[of opts "A @ server_calls opts @ name_calls opts @ br" I] by simp
  qed
qed


lemma main_code:
  fixes opts M
  defines "A \<equiv> \<lambda>str. C_Gep str # map C_Func_address (butlast (filter (\<lambda>f. \<not> is_external (M ! f)) [0..<length M]))"
    and "I \<equiv> C_Func_address (last (filter (\<lambda>f. \<not> is_external (M ! f)) [0..<length M]))"
  assumes "\<exists>F \<in> set M. \<not> is_external F"
  shows "insertGlobalModuleStr opts str M
    = fst (excludeFunctions opts (code_at (A str) I (length (A str)))) @ [C_Init_libanalysis str (pass_flags opts)]"
proof -
  let ?fs = "filter (\<lambda>f. \<not> is_external (M ! f)) [0..<length M]"
  have "?fs \<noteq> []" using assms(3) by (force simp: filter_empty_conv in_set_conv_nth)
  then have fs: "butlast ?fs @ [last ?fs] = ?fs" by simp
  have "C_Gep str # map C_Func_address ?fs = A str @ [I]"
    unfolding A_def I_def by (subst fs[symmetric]) (simp only: map_append list.map append_Cons)
  moreover have "length ?fs = length (A str)"
    unfolding A_def by (subst fs[symmetric]) (simp only: length_append list.size length_map add_Suc_right add_0_right)
  ultimately show ?thesis by (simp add: insertGlobalModuleStr_def insertFAddr_coupled_def Let_def code_at_def)
qed

subsection \<open>What it does\<close>

lemma run_start_append: "run_start E t (xs @ ys) s = do { s \<leftarrow> run_start E t xs s; run_start E t ys s }"
  by (induction E t xs s rule: run_start.induct) (simp_all split: bind_split)

lemma run_excluded: "run_start E t (string_calls ''exclude_function'' names) s
    = Some (s\<lparr>cp_ExcludedFunctions := cp_ExcludedFunctions s @ names\<rparr>)"
  by (induction names arbitrary: s) (simp_all add: string_calls_def string_hook_def)

lemma run_included: "run_start E t (string_calls ''include_function'' names) s
    = Some (s\<lparr>cp_IncludeFunctions := cp_IncludeFunctions s @ names\<rparr>)"
  by (induction names arbitrary: s) (simp_all add: string_calls_def string_hook_def)

lemma run_branch_file: "run_start E t (string_calls ''update_branch_entropy_file'' [n]) s
    = Some (s\<lparr>cp_branch_entropy_file := Some n\<rparr>)"
  by (simp add: string_calls_def string_hook_def)

definition set_names :: "coupled_env \<Rightarrow> pass_options \<Rightarrow> coupled \<Rightarrow> coupled" where
  "set_names E opts s = s\<lparr>cp_AppName := Some (ApplicationName opts), cp_TestName := Some (TestName opts),
      cp_PISAFileName := (if PISAFileName opts \<noteq> [] then Some (PISAFileName opts) else ce_getenv E ''PISAFileName''),
      cp_AddJSONData := (if AddJSONData opts \<noteq> [] then Some (AddJSONData opts) else ce_getenv E ''AddJSONData'')\<rparr>"

lemma run_names: "run_start E t (name_calls opts) s = Some (set_names E opts s)"
  by (simp add: name_calls_def string_calls_def string_hook_def coupled_pisa_output_def coupled_add_json_data_def set_names_def)

lemma run_address: "cp_M s = None \<Longrightarrow> FunctionsAddresses (cp_tables s) = [] \<Longrightarrow> coupled_func_address f a s = s"
  by (cases s) (simp add: coupled_func_address_def get_function_def put_function_def)

lemma run_addresses:
  "cp_M s = None \<Longrightarrow> FunctionsAddresses (cp_tables s) = [] \<Longrightarrow> run_start E t (map C_Func_address fs) s = Some s"
  by (induction fs) (simp_all add: run_address)

definition with_threads :: "int \<Rightarrow> coupled \<Rightarrow> coupled" where
  "with_threads n s = s\<lparr>cp_tables := (cp_tables s)\<lparr>max_expected_threads := n, InitializedThreads := replicate (nat n) False,
       MemoryForThreads := replicate (nat n) []\<rparr>,
     cp_saved := replicate (nat n) [], cp_InitializedMPISockets := replicate (nat n) False,
     cp_MPISocketForThreads := replicate (nat n) 0\<rparr>"

text \<open>The numbers; the thread tables are set first.\<close>

definition with_sizes :: "pass_options \<Rightarrow> coupled \<Rightarrow> coupled" where
  "with_sizes opts s = (with_threads (po_MaxExpectedNrOfThreads opts) s)\<lparr>
     cp_window_size := (if WindowSize opts \<noteq> 0 then WindowSize opts else cp_window_size s),
     cp_debug_flag := (if PrintDebug opts = 1 then 1 else cp_debug_flag s),
     cp_ilp_type := (if 0 \<le> ILPType opts then ILPType opts else cp_ilp_type s),
     cp_inst_size := (if ITRCacheLineSize opts \<noteq> 0 \<and> ITRInstSize opts \<noteq> 0 then ITRInstSize opts else cp_inst_size s),
     cp_inst_cache_line_size := (if ITRCacheLineSize opts \<noteq> 0 then ITRCacheLineSize opts else cp_inst_cache_line_size s),
     cp_data_reuse_distance_resolution_final_bin :=
       (if DTREndResolution opts \<noteq> 0 then DTREndResolution opts else cp_data_reuse_distance_resolution_final_bin s),
     cp_data_reuse_distance_resolution :=
       (if DTRResolution opts \<noteq> 0 then DTRResolution opts else cp_data_reuse_distance_resolution s),
     cp_data_cache_line_size := (if DTRCacheLineSize opts \<noteq> 0 then DTRCacheLineSize opts else cp_data_cache_line_size s)\<rparr>"

lemma run_size:
  "run_start E t (rev (if b then [C_Size ''update_data_cache_line_size'' n] else [])) s
    = Some (s\<lparr>cp_data_cache_line_size := (if b then n else cp_data_cache_line_size s)\<rparr>)"
  "run_start E t (rev (if b then [C_Size ''update_data_reuse_distance_resolution'' n] else [])) s
    = Some (s\<lparr>cp_data_reuse_distance_resolution := (if b then n else cp_data_reuse_distance_resolution s)\<rparr>)"
  "run_start E t (rev (if b then [C_Size ''update_data_reuse_distance_resolution_final_bin'' n] else [])) s
    = Some (s\<lparr>cp_data_reuse_distance_resolution_final_bin := (if b then n else cp_data_reuse_distance_resolution_final_bin s)\<rparr>)"
  "run_start E t (rev (if b then [C_Size ''update_inst_cache_line_size'' n] else [])) s
    = Some (s\<lparr>cp_inst_cache_line_size := (if b then n else cp_inst_cache_line_size s)\<rparr>)"
  "run_start E t (rev (if b then [C_Size ''update_inst_size'' n] else [])) s
    = Some (s\<lparr>cp_inst_size := (if b then n else cp_inst_size s)\<rparr>)"
  "run_start E t (rev (if b then [C_Size ''update_ilp_type'' n] else [])) s
    = Some (s\<lparr>cp_ilp_type := (if b then n else cp_ilp_type s)\<rparr>)"
  "run_start E t (rev (if b then [C_Size ''enable_debug'' n] else [])) s
    = Some (s\<lparr>cp_debug_flag := (if b then n else cp_debug_flag s)\<rparr>)"
  "run_start E t (rev (if b then [C_Size ''update_window_size'' n] else [])) s
    = Some (s\<lparr>cp_window_size := (if b then n else cp_window_size s)\<rparr>)"
  by (cases s; simp add: size_hook_def)+

lemma run_threads: "0 < n \<Longrightarrow> run_start E t (rev (if n \<noteq> 0 then [C_Size ''update_max_expected_threads'' n] else [])) s
    = Some (with_threads n s)"
  by (simp add: size_hook_def coupled_update_max_expected_threads_def with_threads_def)

lemma run_sizes:
  assumes "0 < po_MaxExpectedNrOfThreads opts"
  shows "run_start E t (rev (size_list opts)) s = Some (with_sizes opts s)"
  unfolding size_list_def rev_append run_start_append run_threads[OF assms] run_size bind.bind_lunit
  by (simp add: with_sizes_def with_threads_def)


text \<open>The state after all calls but \<open>init_libanalysis\<close>.\<close>

definition options_set :: "coupled_env \<Rightarrow> pass_options \<Rightarrow> coupled \<Rightarrow> bool" where
  "options_set E opts s \<longleftrightarrow> cp_ExcludedFunctions s = po_ExcludedFunctions opts \<and> cp_IncludeFunctions s = po_IncludeFunctions opts
    \<and> cp_AppName s = Some (ApplicationName opts) \<and> cp_TestName s = Some (TestName opts)
    \<and> cp_PISAFileName s = (if PISAFileName opts \<noteq> [] then Some (PISAFileName opts) else ce_getenv E ''PISAFileName'')
    \<and> cp_AddJSONData s = (if AddJSONData opts \<noteq> [] then Some (AddJSONData opts) else ce_getenv E ''AddJSONData'')
    \<and> cp_branch_entropy_file s = Some (BranchEntropyFile opts)
    \<and> cp_data_cache_line_size s = DTRCacheLineSize opts \<and> cp_data_reuse_distance_resolution s = DTRResolution opts
    \<and> cp_data_reuse_distance_resolution_final_bin s = DTREndResolution opts
    \<and> cp_inst_cache_line_size s = ITRCacheLineSize opts
    \<and> cp_inst_size s = (if ITRCacheLineSize opts \<noteq> 0 then ITRInstSize opts else 0)
    \<and> cp_ilp_type s = max 0 (ILPType opts) \<and> cp_debug_flag s = (if PrintDebug opts = 1 then 1 else 0)
    \<and> cp_window_size s = WindowSize opts
    \<and> max_expected_threads (cp_tables s) = po_MaxExpectedNrOfThreads opts
    \<and> InitializedThreads (cp_tables s) = replicate (nat (po_MaxExpectedNrOfThreads opts)) False
    \<and> MemoryForThreads (cp_tables s) = replicate (nat (po_MaxExpectedNrOfThreads opts)) []
    \<and> FunctionsAddresses (cp_tables s) = [] \<and> cp_saved s = replicate (nat (po_MaxExpectedNrOfThreads opts)) []"

definition is_configured :: "coupled_env \<Rightarrow> pass_options \<Rightarrow> coupled \<Rightarrow> bool" where
  "is_configured E opts s \<longleftrightarrow> cp_M s = None \<and> cp_actions s = [] \<and> options_set E opts s"

lemmas run_parts = run_start_append run_addresses run_excluded run_included run_branch_file run_names run_sizes

lemma set_names_sel:
  "cp_M (set_names E opts s) = cp_M s" "cp_options (set_names E opts s) = cp_options s"
    "cp_data_cache_line_size (set_names E opts s) = cp_data_cache_line_size s"
    "cp_data_reuse_distance_resolution (set_names E opts s) = cp_data_reuse_distance_resolution s"
    "cp_data_reuse_distance_resolution_final_bin (set_names E opts s) = cp_data_reuse_distance_resolution_final_bin s"
    "cp_inst_cache_line_size (set_names E opts s) = cp_inst_cache_line_size s"
    "cp_inst_size (set_names E opts s) = cp_inst_size s" "cp_window_size (set_names E opts s) = cp_window_size s"
    "cp_ilp_type (set_names E opts s) = cp_ilp_type s" "cp_debug_flag (set_names E opts s) = cp_debug_flag s"
    "cp_branch_entropy_file (set_names E opts s) = cp_branch_entropy_file s"
    "cp_tables (set_names E opts s) = cp_tables s" "cp_saved (set_names E opts s) = cp_saved s"
    "cp_ExcludedFunctions (set_names E opts s) = cp_ExcludedFunctions s"
    "cp_IncludeFunctions (set_names E opts s) = cp_IncludeFunctions s" "cp_actions (set_names E opts s) = cp_actions s"
  "cp_AppName (set_names E opts s) = Some (ApplicationName opts)" "cp_TestName (set_names E opts s) = Some (TestName opts)"
  "cp_PISAFileName (set_names E opts s) = (if PISAFileName opts \<noteq> [] then Some (PISAFileName opts) else ce_getenv E ''PISAFileName'')"
  "cp_AddJSONData (set_names E opts s) = (if AddJSONData opts \<noteq> [] then Some (AddJSONData opts) else ce_getenv E ''AddJSONData'')"
  by (simp_all add: set_names_def)

lemma with_sizes_sel:
  "cp_M (with_sizes opts s) = cp_M s" "cp_options (with_sizes opts s) = cp_options s"
    "cp_AppName (with_sizes opts s) = cp_AppName s" "cp_TestName (with_sizes opts s) = cp_TestName s"
    "cp_PISAFileName (with_sizes opts s) = cp_PISAFileName s" "cp_AddJSONData (with_sizes opts s) = cp_AddJSONData s"
    "cp_branch_entropy_file (with_sizes opts s) = cp_branch_entropy_file s"
    "cp_ExcludedFunctions (with_sizes opts s) = cp_ExcludedFunctions s"
    "cp_IncludeFunctions (with_sizes opts s) = cp_IncludeFunctions s" "cp_actions (with_sizes opts s) = cp_actions s"
  "FunctionsAddresses (cp_tables (with_sizes opts s)) = FunctionsAddresses (cp_tables s)"
  "max_expected_threads (cp_tables (with_sizes opts s)) = po_MaxExpectedNrOfThreads opts"
  "InitializedThreads (cp_tables (with_sizes opts s)) = replicate (nat (po_MaxExpectedNrOfThreads opts)) False"
  "MemoryForThreads (cp_tables (with_sizes opts s)) = replicate (nat (po_MaxExpectedNrOfThreads opts)) []"
  "cp_saved (with_sizes opts s) = replicate (nat (po_MaxExpectedNrOfThreads opts)) []"
  "cp_window_size (with_sizes opts s) = (if WindowSize opts \<noteq> 0 then WindowSize opts else cp_window_size s)"
  "cp_debug_flag (with_sizes opts s) = (if PrintDebug opts = 1 then 1 else cp_debug_flag s)"
  "cp_ilp_type (with_sizes opts s) = (if 0 \<le> ILPType opts then ILPType opts else cp_ilp_type s)"
  "cp_inst_size (with_sizes opts s) = (if ITRCacheLineSize opts \<noteq> 0 \<and> ITRInstSize opts \<noteq> 0 then ITRInstSize opts else cp_inst_size s)"
  "cp_inst_cache_line_size (with_sizes opts s) = (if ITRCacheLineSize opts \<noteq> 0 then ITRCacheLineSize opts else cp_inst_cache_line_size s)"
  "cp_data_reuse_distance_resolution_final_bin (with_sizes opts s)
    = (if DTREndResolution opts \<noteq> 0 then DTREndResolution opts else cp_data_reuse_distance_resolution_final_bin s)"
  "cp_data_reuse_distance_resolution (with_sizes opts s)
    = (if DTRResolution opts \<noteq> 0 then DTRResolution opts else cp_data_reuse_distance_resolution s)"
  "cp_data_cache_line_size (with_sizes opts s) = (if DTRCacheLineSize opts \<noteq> 0 then DTRCacheLineSize opts else cp_data_cache_line_size s)"
  by (simp_all add: with_sizes_def with_threads_def)

lemma coupled_start_sel:
  "cp_M coupled_start = None" "FunctionsAddresses (cp_tables coupled_start) = []" "cp_actions coupled_start = []"
  "cp_ExcludedFunctions coupled_start = []" "cp_IncludeFunctions coupled_start = []" "cp_data_cache_line_size coupled_start = 0"
  "cp_data_reuse_distance_resolution coupled_start = 0" "cp_data_reuse_distance_resolution_final_bin coupled_start = 0"
  "cp_inst_cache_line_size coupled_start = 0" "cp_inst_size coupled_start = 0" "cp_ilp_type coupled_start = 0"
  "cp_debug_flag coupled_start = 0" "cp_window_size coupled_start = 0" "cp_InitializedMPISockets coupled_start = []"
  by (simp_all add: coupled_start_def)

lemmas start_sel = set_names_sel with_sizes_sel coupled_start_sel

lemma start_configured:
  assumes "server_calls opts = []" "0 < po_MaxExpectedNrOfThreads opts"
  shows "\<exists>s. run_start E t (fst (excludeFunctions opts (code_at (C_Gep str # map C_Func_address fs) (C_Func_address f)
      (length (C_Gep str # map C_Func_address fs))))) coupled_start = Some s \<and> is_configured E opts s"
proof -
  note code = excludeFunctions_code[of opts "C_Gep str # map C_Func_address fs" "C_Func_address f"]
  consider (inc) "po_IncludeFunctions opts \<noteq> []" | (ex) "po_IncludeFunctions opts = []" "po_ExcludedFunctions opts \<noteq> []"
    | (none) "po_IncludeFunctions opts = []" "po_ExcludedFunctions opts = []" by blast
  then show ?thesis
  proof cases
    case inc
    then show ?thesis unfolding code
      by (simp add: assms run_parts run_address start_sel is_configured_def options_set_def max_def)
  next
    case ex
    then show ?thesis unfolding code
      by (simp add: assms run_parts run_address start_sel is_configured_def options_set_def max_def)
  next
    case none
    then show ?thesis unfolding code
      by (simp add: assms run_parts run_address start_sel is_configured_def options_set_def max_def)
  qed
qed

lemma replicate_update: "(replicate n x)[i := x] = replicate n x"
  by (cases "i < n") (simp_all add: list_update_same_conv list_update_beyond)

lemma init_threads_fresh:
  assumes "MemoryForThreads (cp_tables s) = replicate n []" "cp_saved s = replicate n []" "\<forall>i \<in> set is. 0 \<le> i \<and> nat i < n"
  shows "init_threads is s = Some (s\<lparr>cp_actions := cp_actions s @ map (\<lambda>i. (i, Wkld (Construct i 0))) is\<rparr>)"
  using assms
proof (induction "is" arbitrary: s)
  case (Cons i "is")
  have same: "s\<lparr>cp_tables := (cp_tables s)\<lparr>MemoryForThreads := replicate n []\<rparr>, cp_saved := replicate n []\<rparr> = s"
    using Cons.prems(1,2) by (cases s) simp
  have "init_thread i s = Some (c_act i (Wkld (Construct i 0))
      (s\<lparr>cp_tables := (cp_tables s)\<lparr>MemoryForThreads := replicate n []\<rparr>, cp_saved := replicate n []\<rparr>))"
    using Cons.prems by (simp add: init_thread_def tab_put_def replicate_update)
  then have "init_thread i s = Some (c_act i (Wkld (Construct i 0)) s)" unfolding same .
  then show ?case using Cons.IH[of "c_act i (Wkld (Construct i 0)) s"] Cons.prems by (simp add: c_act_def)
qed simp

lemma server_calls_None: "MPISync opts = [] \<Longrightarrow> MPIMap opts = [] \<Longrightarrow> server_calls opts = []"
  by (simp add: server_calls_def)

text \<open>The team of threads that the tables have room for.\<close>

definition started_team :: "coupled_env \<Rightarrow> pass_options \<Rightarrow> int list" where
  "started_team E opts = filter (\<lambda>i. i < po_MaxExpectedNrOfThreads opts) [0..ce_num_threads E - 1]"

text \<open>What the user asks of the pass is what the library of the program has when \<open>main\<close> starts: the names, the lists of functions,
  the numbers and the flags, the module, and one analysis for each thread of the team.  Two options do not arrive as they are: an
  instruction size without a line size, and a debug level other than 1.  No address of a function is known: \<open>func_address\<close>
  runs before \<open>init_libanalysis\<close> has parsed the module, so that it puts null pointers into the table.\<close>

theorem options_arrive:
  assumes "MPISync opts = []" "MPIMap opts = []" "0 < po_MaxExpectedNrOfThreads opts" "\<exists>F \<in> set M. \<not> is_external F"
  shows "\<exists>s. run_start E t (insertGlobalModuleStr opts str M) coupled_start = Some s \<and> options_set E opts s
    \<and> cp_M s = ce_parse E str \<and> cp_options s = pass_flags opts
    \<and> cp_actions s = map (\<lambda>i. (i, Wkld (Construct i 0))) (started_team E opts)
    \<and> (\<forall>a. getFunctionAddress (cp_tables s) a = None)"
proof -
  let ?fs = "filter (\<lambda>f. \<not> is_external (M ! f)) [0..<length M]"
  obtain s where s: "run_start E t (fst (excludeFunctions opts (code_at (C_Gep str # map C_Func_address (butlast ?fs)) (C_Func_address (last ?fs))
      (length (C_Gep str # map C_Func_address (butlast ?fs)))))) coupled_start = Some s" "is_configured E opts s"
    using start_configured[OF server_calls_None[OF assms(1,2)] assms(3), of E t str "butlast ?fs" "last ?fs"] by blast
  let ?u = "s\<lparr>cp_M := ce_parse E str, cp_options := pass_flags opts\<rparr>"
  have c: "options_set E opts s" "cp_actions s = []" using s(2) by (simp_all add: is_configured_def)
  then have team: "team E ?u = started_team E opts" by (simp add: team_def started_team_def options_set_def)
  have "init_threads (started_team E opts) ?u
      = Some (?u\<lparr>cp_actions := cp_actions ?u @ map (\<lambda>i. (i, Wkld (Construct i 0))) (started_team E opts)\<rparr>)"
    using c(1) by (intro init_threads_fresh[where n = "nat (po_MaxExpectedNrOfThreads opts)"])
      (auto simp: options_set_def started_team_def)
  then have "run_start E t (insertGlobalModuleStr opts str M) coupled_start
      = Some (?u\<lparr>cp_actions := map (\<lambda>i. (i, Wkld (Construct i 0))) (started_team E opts)\<rparr>)"
    unfolding main_code[OF assms(4)] run_start_append s(1)
    using c(2) by (simp add: coupled_init_libanalysis_def team)
  then show ?thesis using c(1) by (simp add: options_set_def getFunctionAddress_def)
qed

subsection \<open>MPI hooks\<close>

text \<open>The passes of the two versions have the same table: every MPI call is reported with the same operands.\<close>

lemma same_hooks: "coupled_hooks = mpi_hooks"
  by (simp add: coupled_hooks_def coupled_point_to_point_def coupled_rooted_def coupled_all_def coupled_other_def mpi_hooks_def
      point_to_point_hooks_def rooted_hooks_def all_hooks_def other_hooks_def)

theorem same_mpi_operands: "coupled_operands name = hook_operands name"
  by (simp add: coupled_operands_def hook_operands_def same_hooks request_again_coupled_def request_again_def)

subsection \<open>The flags\<close>

lemma asks_add: "asks (add_flag b f flags) g \<longleftrightarrow> asks flags g \<or> b \<and> asks f g"
  by (simp add: asks_def add_flag_def bit.conj_disj_distrib2 or_eq_0_iff)

lemma asks_if: "asks (if b then x else y) g \<longleftrightarrow> (if b then asks x g else asks y g)"
  by simp

lemmas flag_values = ANALYZE_ILP_def ANALYZE_ILP_CTRL_def ANALYZE_ILP_VERBOSE_def ANALYZE_ILP_IGNORE_CTRL_def ANALYZE_ITR_def
  ANALYZE_DTR_def ANALYZE_REG_COUNT_def PRINT_LOAD_STORE_def ANALYZE_MPI_CALLS_def ANALYZE_ILP_TYPE_def PRINT_DEBUG_def
  PRINT_BRANCH_def PRINT_BRANCH_COND_def ANALYZE_OPENMP_CALLS_def ANALYZE_MPI_DATA_def ANALYZE_MEM_FOOTPRINT_def
  ANALYZE_EXTERNALLIBS_CALLS_def

text \<open>The flags decode to the options, each by itself.\<close>

theorem flags_decode:
  "asks (pass_flags opts) ANALYZE_ILP \<longleftrightarrow> ILPAnalyze opts"
  "asks (pass_flags opts) ANALYZE_ILP_CTRL \<longleftrightarrow> ILPAnalyze opts \<and> ILPCtrl opts"
  "asks (pass_flags opts) ANALYZE_ILP_IGNORE_CTRL \<longleftrightarrow> ILPAnalyze opts \<and> ILPIgnoreCtrl opts"
  "asks (pass_flags opts) ANALYZE_ITR \<longleftrightarrow> ITRAnalyze opts"
  "asks (pass_flags opts) ANALYZE_DTR \<longleftrightarrow> DTRAnalyze opts"
  "asks (pass_flags opts) ANALYZE_MEM_FOOTPRINT \<longleftrightarrow> DTRMemFootprint opts"
  "asks (pass_flags opts) ANALYZE_REG_COUNT \<longleftrightarrow> RCAnalyze opts"
  "asks (pass_flags opts) PRINT_LOAD_STORE \<longleftrightarrow> PrintLoadStore opts"
  "asks (pass_flags opts) PRINT_BRANCH \<longleftrightarrow> po_BranchEntropy opts"
  "asks (pass_flags opts) PRINT_BRANCH_COND \<longleftrightarrow> BranchEntropyCond opts"
  "asks (pass_flags opts) ANALYZE_MPI_CALLS \<longleftrightarrow> MPICalls opts"
  "asks (pass_flags opts) ANALYZE_MPI_DATA \<longleftrightarrow> MPIData opts"
  "asks (pass_flags opts) ANALYZE_OPENMP_CALLS \<longleftrightarrow> OpenMPCalls opts"
  "asks (pass_flags opts) ANALYZE_EXTERNALLIBS_CALLS \<longleftrightarrow> ExternalLibraryCalls opts"
  unfolding pass_flags_def Let_def asks_add asks_if by (simp_all add: asks_def flag_values)

subsection \<open>The server of MPI\<close>

text \<open>With the option for one of the servers of MPI the start is undefined, unless functions are excluded and none is
  included: the information on the server is passed before the number of the threads, and its socket is put into a
  table that is still empty.\<close>

theorem server_info_before_tables:
  assumes "MPISync opts \<noteq> [] \<or> MPIMap opts \<noteq> []" "po_ExcludedFunctions opts = [] \<or> po_IncludeFunctions opts \<noteq> []"
    and "\<exists>F \<in> set M. \<not> is_external F"
  shows "run_start E t (insertGlobalModuleStr opts str M) coupled_start = None"
proof -
  let ?fs = "filter (\<lambda>f. \<not> is_external (M ! f)) [0..<length M]"
  let ?A = "C_Gep str # map C_Func_address (butlast ?fs)"
  let ?ex = "string_calls ''exclude_function'' (po_ExcludedFunctions opts)"
  have no_table: "cp_InitializedMPISockets s = [] \<Longrightarrow> run_start E t (server_calls opts) s = None" for s
    using assms(1) by (auto simp: server_calls_def string_calls_def string_hook_def coupled_map_server_info_def coupled_server_info_def
        tab_get_def bind_eq_None_conv split: list.split)
  obtain rest where "fst (excludeFunctions opts (code_at ?A (C_Func_address (last ?fs)) (length ?A))) = ?A @ ?ex @ server_calls opts @ rest"
    using assms(2) excludeFunctions_code[of opts ?A "C_Func_address (last ?fs)"] by (cases "po_IncludeFunctions opts = []") auto
  moreover have "run_start E t ?A coupled_start = Some coupled_start" by (simp add: run_addresses coupled_start_sel)
  ultimately show ?thesis unfolding main_code[OF assms(3)]
    by (simp add: run_start_append run_excluded no_table coupled_start_sel)
qed

end
