(* ===== verification/Spec2Isabelle.thy ===== *)
theory Spec2Isabelle
  imports Splay_Properties Util_Properties Data_Temp_Reuse Mix_Properties OpenMP_Properties
    Branch_Properties Json_Properties Ilp_Theorems Small_Analyses Mpi_Stats Wkld_Properties Server_Live
    Branch_Behavior_Tables Sync_Theorems Client_Properties Instrumented_Run Coupled_Start
begin

text \<open>
  A verification development for IBM PISA, the platform independent software analysis tool
  (\<open>src/library\<close>, \<open>src/branch-analysis\<close>).

  PISA instruments the LLVM bitcode of a program; the instrumented program reports its executed
  basic blocks, memory addresses and library calls.  In the decoupled version these are messages to a
  server (\<open>server.cc\<close>), which replays the executed instructions from the bitcode, one consumer thread
  for each connection.  Every instruction goes to an object of \<open>WKLDchar\<close>, one for each thread, which
  passes it to the analyses that were asked for: reuse distances, instruction mix, instruction level
  parallelism, branch traces, counts of registers and of calls to MPI, OpenMP and other libraries.  An
  analysis has a method \<open>visit\<close>, and a method \<open>JSONdump\<close> that reports its counters through \<open>JSONmanager\<close>;
  MPI calls have analyses of their own (\<open>MPImap\<close>, \<open>MPIdata\<close>), which get the messages of the calls.

  The theories, from the bottom up.

  Foundations:
  \<^item> \<open>Pisa_Prelude\<close>: the machine integers (\<open>unsigned long long\<close> is \<open>64 word\<close>) and generic lemmas.
  \<^item> \<open>Cpp_Map\<close>, \<open>Cpp_Double\<close>: \<open>std::map\<close> as a sorted association list, \<open>set_intersection\<close>, and
    \<open>double\<close> as a rational with rounding to 53 bits; \<open>double4\<close> of \<open>utils.cc\<close>.
  \<^item> \<open>Pisa_Utils\<close>, \<open>LLVM_IR\<close>: \<open>utils.cc\<close> and what the analyses read of an LLVM module.
  \<^item> \<open>Inst_Analysis\<close>: \<open>InstructionAnalysis.cc\<close>; \<open>Util_Properties\<close> has the properties of these.

  Reuse distances:
  \<^item> \<open>Splay_Heap\<close>: \<open>splay.cc\<close> on an explicit heap (one function per field of \<open>struct tree\<close>); the
    operations return an option, where \<open>None\<close> is an access through a null or a dangling pointer or
    a loop that does not end.  \<open>Splay_Tree_Inv\<close> has the abstraction to trees and the rules of
    symbolic execution, \<open>Splay_Loop\<close> and \<open>Splay_Assemble\<close> the invariant of the top-down splay loop
    and of what follows it, \<open>Splay_Correct\<close> and \<open>Splay_Ops\<close> the contracts of the operations, and
    \<open>Splay_Properties\<close> their refinement of a set of keys.
  \<^item> \<open>Timestamp_Tree\<close>: the locale \<open>timestamp_set\<close>, the interface between the reuse analyses and the
    tree, with its interpretation on the heap operations; \<open>Reuse_Distance\<close>: the specification of a
    reuse distance; \<open>Histogram\<close>: the printed histograms and cumulative distributions.
  \<^item> \<open>Inst_Temp_Reuse\<close>, \<open>Data_Temp_Reuse\<close>: \<open>InstTempReuse.cc\<close> and \<open>DataTempReuse.cc\<close>; their histograms
    are those of the specification.

  Other analyses:
  \<^item> \<open>Instruction_Mix\<close>, \<open>Mix_Dump\<close>: \<open>InstructionMix.cc\<close>, its counters and its output.  \<open>Mix_Count\<close> shows what
    a run counts, \<open>Mix_Breakdown\<close> which keys a breakdown by type can have, \<open>Mix_Properties\<close> that the
    output is complete.
  \<^item> \<open>Ilp\<close>, \<open>Ilp_Visit\<close>: \<open>ILP.cc\<close>, the issue cycle of an instruction and the method \<open>visit\<close> with the scheduling
    windows.  \<open>Ilp_Properties\<close> and \<open>Ilp_Theorems\<close>: the order of dependent instructions, the bound of the
    span, termination.
  \<^item> \<open>Branch_Entropy\<close>, \<open>Branch_Properties\<close>: \<open>BranchEntropy.cc\<close>, the trace of the branches and what it contains.
  \<^item> \<open>OpenMP_Stats\<close>, \<open>OpenMP_Properties\<close>, \<open>Mpi_Stats\<close>: \<open>OpenMPstats.cc\<close> and \<open>MPIstats.cc\<close>, the counters of
    library calls and the proofs that they are exact.
  \<^item> \<open>Small_Analyses\<close>: \<open>RegisterCount.cc\<close>, \<open>ExternalLibraryCount.cc\<close> and \<open>LoadStoreVerbose.cc\<close>.
  \<^item> \<open>Mpi_Data\<close>, \<open>Mpi_Data_Properties\<close>: \<open>MPIdata.cc\<close>, the bytes that MPI calls exchange, and which
    calls are counted and which wait for the completion of their request.
  \<^item> \<open>Mpi_Map\<close>, \<open>Mpi_Map_Properties\<close>: \<open>MPImap.cc\<close>, the trace of MPI calls and the data base in which processes
    wait for their partners; what a call does there is a list of commands, so that the calls of
    several processes can be interleaved.

  Output and driver:
  \<^item> \<open>Json_Events\<close>: the calls of the JSON writer as a list of events, and their well-formedness.
  \<^item> \<open>Json_Manager\<close>, \<open>Json_Properties\<close>: \<open>JSONmanager.cc\<close>, with the messages from the slave processes to the
    master.
  \<^item> \<open>Wkld_Char\<close>, \<open>Wkld_Properties\<close>: \<open>WKLDchar.cc\<close>; every analysis sees the instructions of the thread, and the
    output of all together is one JSON object.

  Server:
  \<^item> \<open>Server_Flow\<close>: the replay in \<open>server.cc\<close> for one connection; the calls on \<open>WKLDchar\<close> are a list of actions.
    \<open>Server_Replay\<close> specifies the runs of a client and the messages it sends, \<open>Server_Theorems\<close> shows that
    the server analyses exactly these runs, and where it does not.
  \<^item> \<open>Server_End\<close>: \<open>safe_queue.cc\<close> and the threads of \<open>server.cc\<close> as interleaved steps.  \<open>Server_End_Inv\<close> has the
    invariant, \<open>Server_End_Theorems\<close> schedules that lose or double the results, and \<open>Server_Live\<close> the proof
    that a server with one connection ends under every fair schedule.
  \<^item> \<open>Sync_Server\<close>: \<open>mpi_sync_server.c\<close>, the data base of MPI calls as linked lists on an explicit heap.  \<open>Sync_Properties\<close>
    has the locale \<open>matching_store\<close>, a store of calls in which queries find their partners, with its
    interpretations on these lists and on the data base of \<open>MPImap.cc\<close>; \<open>Sync_Theorems\<close> the refinement.

  The instrumented program:
  \<^item> \<open>Pass_Decoupled\<close>: \<open>passDecoupled/lib/Analysis/Analysis.cpp\<close>, the hooks that the pass of LLVM inserts into the blocks.
  \<^item> \<open>Client_Mpi\<close>: \<open>MPIcnfSupport.cc\<close>, how the hook of an MPI call turns its arguments into a message.
  \<^item> \<open>Client_Library\<close>, \<open>Client_Properties\<close>: \<open>libanalysisDecoupled.cc\<close>, the other hooks and the socket; messages arrive as they
    were sent.
  \<^item> \<open>Instrumented_Run\<close>: executions of an instrumented module; what they send makes the server replay them.
  \<^item> \<open>Pass_Coupled\<close>, \<open>Coupled_Library\<close>: the pass and the library of the coupled version, in which the program runs the
    analyses itself (\<open>passCoupled/lib/Analysis/Analysis.cpp\<close>, \<open>libanalysisCoupled.cc\<close>).  \<open>Coupled_Start\<close> shows which options
    of the pass arrive in the library, and which information comes too early.

  Tools:
  \<^item> \<open>Branch_Behavior\<close>: \<open>branch-analysis/branchBehavior.cc\<close>, which reads a branch trace and reports how predictable its
    branches are.  \<open>Branch_Behavior_Patterns\<close>, \<open>Branch_Behavior_Rates\<close>, \<open>Branch_Behavior_Properties\<close> and
    \<open>Branch_Behavior_Tables\<close> show what its counters, rates and tables of limited size hold, and where that is not what
    the README says.

  Conventions.  A C++ object is a record of its fields, a method a function from the record to the
  record.  Undefined behaviour (a null pointer, a division by zero, an index out of range, the overflow
  of an \<open>int\<close>) and failing assertions are \<open>None\<close>.  Loops whose end depends on the heap are
  \<open>partial_function (option)\<close>, and the contracts state that they return; the others recurse on their data or
  have a measure.  No fuel is used.  Pointers to LLVM objects are natural numbers, and what LLVM's
  accessors return are fields of records.  LLVM's data layout, its numbers of type identifiers and the
  constants of the MPI library are parameters.

  Not modelled: the weak memory of the machine (a step is atomic between two accesses to shared data),
  MPI itself, opening sockets and files, the command line, the construction of instructions through
  LLVM's API, the handler of SIGINT, functions that nothing calls, and the debug output.
\<close>

end
